(* ===== verification/Prelude.thy ===== *)
theory Prelude
  imports Complex_Main "HOL-Library.AList"
begin

text \<open>
  Shared vocabulary of the development.

  \<^item> Python values: a \<open>float\<close> is a real number with exact arithmetic, but for the operations
    that \<open>Py_Floats\<close> rounds; where NaN or an infinity can come in from outside it is a \<open>pyfloat\<close>,
    an \<open>int\<close> is an integer, a \<open>str\<close> a \<open>string\<close>, a \<open>dict\<close> an association
    list in insertion order whose assignment is \<open>AList.update\<close> (in place for a present
    key, at the end for a new one) and whose \<open>pop\<close> is \<open>AList.delete\<close>.
  \<^item> Loops that keep the best candidate seen so far are one function, \<open>scan_best\<close>.
  \<^item> The locales state what several components promise in the same way: an operation that
    keeps an invariant (\<open>inv_machine\<close>), one that never lowers a measure
    (\<open>mono_machine\<close>), a two-threshold switch (\<open>hysteresis\<close>) and a strict
    order of scores under which \<open>scan_best\<close> finds a minimum (\<open>score_order\<close>).
\<close>

named_theorems dict_simps \<comment> \<open>lookups and domains of dictionaries after an update\<close>
named_theorems clamp_simps \<comment> \<open>bounds of clamped values\<close>

section \<open>Floats\<close>

datatype pyfloat = Fin real | PosInf | NegInf | NaN

fun isfinite :: "pyfloat \<Rightarrow> bool" where
  "isfinite (Fin _) = True"
| "isfinite _ = False"

definition clamp :: "real \<Rightarrow> real \<Rightarrow> real \<Rightarrow> real" where
  "clamp lo hi x = max lo (min hi x)"

lemma clamp_ge [clamp_simps, simp]: "lo \<le> clamp lo hi x"
  by (simp add: clamp_def)

lemma clamp_le [clamp_simps, simp]: "lo \<le> hi \<Longrightarrow> clamp lo hi x \<le> hi"
  by (simp add: clamp_def)

lemma clamp_id [clamp_simps]: "lo \<le> x \<Longrightarrow> x \<le> hi \<Longrightarrow> clamp lo hi x = x"
  by (simp add: clamp_def)

lemma clamp_idem [simp]: "lo \<le> hi \<Longrightarrow> clamp lo hi (clamp lo hi x) = clamp lo hi x"
  by (simp add: clamp_def)

section \<open>Dictionaries in insertion order\<close>

type_synonym ('k, 'v) dict = "('k \<times> 'v) list"

abbreviation dict_get :: "('k, 'v) dict \<Rightarrow> 'k \<Rightarrow> 'v option" where
  "dict_get \<equiv> map_of"

abbreviation dict_set :: "('k, 'v) dict \<Rightarrow> 'k \<Rightarrow> 'v \<Rightarrow> ('k, 'v) dict" where
  "dict_set m k v \<equiv> AList.update k v m"

abbreviation dict_pop :: "('k, 'v) dict \<Rightarrow> 'k \<Rightarrow> ('k, 'v) dict" where
  "dict_pop m k \<equiv> AList.delete k m"

abbreviation dict_keys :: "('k, 'v) dict \<Rightarrow> 'k list" where
  "dict_keys m \<equiv> map fst m"

abbreviation dict_values :: "('k, 'v) dict \<Rightarrow> 'v list" where
  "dict_values m \<equiv> map snd m"

definition dict_getd :: "('k, 'v) dict \<Rightarrow> 'k \<Rightarrow> 'v \<Rightarrow> 'v" where
  "dict_getd m k d = (case dict_get m k of None \<Rightarrow> d | Some v \<Rightarrow> v)"

definition wf_dict :: "('k, 'v) dict \<Rightarrow> bool" where
  "wf_dict m \<longleftrightarrow> distinct (dict_keys m)"

lemma dict_get_set [dict_simps, simp]:
  "dict_get (dict_set m k v) k' = (if k' = k then Some v else dict_get m k')"
  by (simp add: update_conv')

lemma dict_get_pop [dict_simps, simp]:
  "dict_get (dict_pop m k) k' = (if k' = k then None else dict_get m k')"
  by (simp add: delete_conv')

lemma fst_image_set [dict_simps, simp]:
  "fst ` set (dict_set m k v) = insert k (fst ` set m)"
  by (induction m) auto

lemma fst_image_pop [dict_simps, simp]:
  "fst ` set (dict_pop m k) = fst ` set m - {k}"
  by (induction m) auto

lemma dict_set_new: "k \<notin> fst ` set m \<Longrightarrow> dict_set m k v = m @ [(k, v)]"
  by (induction m) auto

lemma set_dict_set_cases: "(k', v') \<in> set (dict_set m k v) \<Longrightarrow> (k', v') = (k, v) \<or> (k', v') \<in> set m"
  by (induction m) (auto split: if_splits)

lemma set_dict_set: "set (dict_set m k v) \<subseteq> insert (k, v) (set m)"
  by (induction m) auto

lemma wf_dict_empty [simp, intro]: "wf_dict []"
  by (simp add: wf_dict_def)

lemma wf_dict_set [simp, intro]: "wf_dict m \<Longrightarrow> wf_dict (dict_set m k v)"
  by (simp add: wf_dict_def distinct_update)

lemma wf_dict_pop [simp, intro]: "wf_dict m \<Longrightarrow> wf_dict (dict_pop m k)"
  by (simp add: wf_dict_def distinct_delete)

lemma wf_dict_filter [simp, intro]: "wf_dict m \<Longrightarrow> wf_dict (filter P m)"
  by (auto simp: wf_dict_def distinct_map inj_on_def)

lemma dict_getd_set [dict_simps, simp]:
  "dict_getd (dict_set m k v) k' d = (if k' = k then v else dict_getd m k' d)"
  by (simp add: dict_getd_def)

lemma dict_in_keys_iff: "k \<in> set (dict_keys m) \<longleftrightarrow> (\<exists>v. dict_get m k = Some v)"
  by (simp add: dom_map_of_conv_image_fst [symmetric] domIff)

text \<open>A dictionary's \<open>update\<close> with another one, key by key in the other's order.\<close>

fun dict_update :: "('k, 'v) dict \<Rightarrow> ('k, 'v) dict \<Rightarrow> ('k, 'v) dict" where
  "dict_update m [] = m"
| "dict_update m ((k, v) # u) = dict_update (dict_set m k v) u"

lemma wf_dict_update [simp, intro]: "wf_dict m \<Longrightarrow> wf_dict (dict_update m u)"
  by (induction m u rule: dict_update.induct) auto

lemma keys_dict_update [dict_simps]:
  "set (dict_keys (dict_update m u)) = set (dict_keys m) \<union> set (dict_keys u)"
  by (induction m u rule: dict_update.induct) auto

section \<open>Order-preserving removal of duplicates\<close>

text \<open>Python's \<open>list(dict.fromkeys(xs))\<close>: the first occurrence of each element stays.\<close>

fun dedup :: "'a list \<Rightarrow> 'a list" where
  "dedup [] = []"
| "dedup (x # xs) = x # filter (\<lambda>y. y \<noteq> x) (dedup xs)"

lemma set_dedup [simp]: "set (dedup xs) = set xs"
  by (induction xs) auto

lemma distinct_dedup [simp]: "distinct (dedup xs)"
  by (induction xs) auto

lemma dedup_distinct [simp]: "distinct xs \<Longrightarrow> dedup xs = xs"
  by (induction xs) (auto simp: filter_id_conv)

lemma dedup_eq_Nil [simp]: "dedup xs = [] \<longleftrightarrow> xs = []"
  by (cases xs) auto

section \<open>Scanning for the best candidate\<close>

text \<open>
  The shape \<open>for c in candidates: if not admissible(c): continue; if best is None or
  score(c) < best_score: best = c\<close>.
\<close>

fun scan_best :: "('s \<Rightarrow> 's \<Rightarrow> bool) \<Rightarrow> ('a \<Rightarrow> 's option) \<Rightarrow> ('s \<times> 'a) option \<Rightarrow> 'a list \<Rightarrow> ('s \<times> 'a) option" where
  "scan_best lt f b [] = b"
| "scan_best lt f b (c # cs) =
     scan_best lt f
       (case f c of
          None \<Rightarrow> b
        | Some s \<Rightarrow> (case b of None \<Rightarrow> Some (s, c)
                     | Some (s0, c0) \<Rightarrow> if lt s s0 then Some (s, c) else Some (s0, c0)))
       cs"

lemma scan_best_from_list:
  "scan_best lt f b cs = Some (s, c) \<Longrightarrow> b = Some (s, c) \<or> (c \<in> set cs \<and> f c = Some s)"
proof (induction cs arbitrary: b)
  case Nil
  then show ?case by simp
next
  case (Cons x xs)
  from Cons.IH [OF Cons.prems [unfolded scan_best.simps]] show ?case
    by (auto split: option.splits prod.splits if_splits)
qed

lemma scan_best_None:
  "scan_best lt f b cs = None \<longleftrightarrow> b = None \<and> (\<forall>c\<in>set cs. f c = None)"
  by (induction cs arbitrary: b) (auto split: option.splits prod.splits if_splits)

locale score_order =
  fixes lt :: "'s \<Rightarrow> 's \<Rightarrow> bool"
  assumes lt_irrefl: "\<not> lt s s"
    and lt_neg_trans: "\<not> lt a b \<Longrightarrow> \<not> lt b c \<Longrightarrow> \<not> lt a c"
    and lt_asym: "lt a b \<Longrightarrow> \<not> lt b a"
begin

lemma scan_keeps_bound:
  assumes "scan_best lt f (Some (s0, c0)) cs = Some (s, c)"
  shows "\<not> lt s0 s"
  using assms
proof (induction cs arbitrary: s0 c0)
  case Nil
  then show ?case by (simp add: lt_irrefl)
next
  case (Cons x xs)
  show ?case
  proof (cases "f x")
    case None
    with Cons show ?thesis by auto
  next
    case (Some sx)
    show ?thesis
    proof (cases "lt sx s0")
      case True
      with Cons Some have "\<not> lt sx s" by auto
      with True show ?thesis using lt_neg_trans lt_asym by blast
    next
      case False
      with Cons Some show ?thesis by auto
    qed
  qed
qed

lemma scan_best_minimal:
  assumes "scan_best lt f b cs = Some (s, c)" and "c' \<in> set cs" and "f c' = Some s'"
  shows "\<not> lt s' s"
  using assms
proof (induction cs arbitrary: b)
  case Nil
  then show ?case by simp
next
  case (Cons x xs)
  show ?case
  proof (cases "c' = x")
    case False
    with Cons show ?thesis by auto
  next
    case True
    note fx = Cons.prems(3) [unfolded True]
    show ?thesis
    proof (cases b)
      case None
      with Cons.prems(1) fx have "scan_best lt f (Some (s', x)) xs = Some (s, c)" by simp
      then show ?thesis by (rule scan_keeps_bound)
    next
      case (Some sc)
      then obtain s0 c0 where b: "b = Some (s0, c0)" by (cases sc) auto
      show ?thesis
      proof (cases "lt s' s0")
        case True
        with b Cons.prems(1) fx have "scan_best lt f (Some (s', x)) xs = Some (s, c)" by simp
        then show ?thesis by (rule scan_keeps_bound)
      next
        case False
        with b Cons.prems(1) fx have "scan_best lt f (Some (s0, c0)) xs = Some (s, c)" by simp
        then have "\<not> lt s0 s" by (rule scan_keeps_bound)
        with False show ?thesis by (rule lt_neg_trans)
      qed
    qed
  qed
qed

end

text \<open>Python compares tuples of floats lexicographically.\<close>

fun lt2 :: "real \<times> real \<Rightarrow> real \<times> real \<Rightarrow> bool" where
  "lt2 (a, b) (c, d) \<longleftrightarrow> a < c \<or> (a = c \<and> b < d)"

fun lt3 :: "real \<times> real \<times> real \<Rightarrow> real \<times> real \<times> real \<Rightarrow> bool" where
  "lt3 (a, b, c) (a', b', c') \<longleftrightarrow> a < a' \<or> (a = a' \<and> (b < b' \<or> (b = b' \<and> c < c')))"

interpretation tuple2: score_order lt2
  by unfold_locales auto

interpretation tuple3: score_order lt3
  by unfold_locales auto

section \<open>Machines and their invariants\<close>

locale inv_machine =
  fixes step :: "'s \<Rightarrow> 'e \<Rightarrow> 's"
    and inv :: "'s \<Rightarrow> bool"
  assumes step_inv: "inv s \<Longrightarrow> inv (step s e)"
begin

lemma run_inv: "inv s \<Longrightarrow> inv (foldl step s es)"
  by (induction es arbitrary: s) (auto intro: step_inv)

end

locale mono_machine = inv_machine step inv
  for step :: "'s \<Rightarrow> 'e \<Rightarrow> 's" and inv :: "'s \<Rightarrow> bool" +
  fixes le :: "'m \<Rightarrow> 'm \<Rightarrow> bool" and meas :: "'s \<Rightarrow> 'm"
  assumes le_refl: "le m m"
    and le_trans: "le a b \<Longrightarrow> le b c \<Longrightarrow> le a c"
    and step_mono: "inv s \<Longrightarrow> le (meas s) (meas (step s e))"
begin

lemma run_mono: "inv s \<Longrightarrow> le (meas s) (meas (foldl step s es))"
proof (induction es arbitrary: s)
  case Nil
  then show ?case by (simp add: le_refl)
next
  case (Cons e es)
  have "le (meas (step s e)) (meas (foldl step (step s e) es))"
    by (rule Cons.IH) (rule step_inv [OF Cons.prems])
  with step_mono [OF Cons.prems] show ?case by (auto intro: le_trans)
qed

end

text \<open>A machine that answers: the state after a run and the answers in order.\<close>

fun io_run :: "('s \<Rightarrow> 'e \<Rightarrow> 's \<times> 'o) \<Rightarrow> 's \<Rightarrow> 'e list \<Rightarrow> 's \<times> 'o list" where
  "io_run step s [] = (s, [])"
| "io_run step s (e # es) =
     (let (s1, x) = step s e; (s2, xs) = io_run step s1 es in (s2, x # xs))"

lemma io_run_state: "fst (io_run step s es) = foldl (\<lambda>s e. fst (step s e)) s es"
  by (induction es arbitrary: s) (simp_all add: case_prod_unfold Let_def)

text \<open>Steps that the client allows keep an invariant and are answered well.\<close>

locale io_machine =
  fixes step :: "'s \<Rightarrow> 'e \<Rightarrow> 's \<times> 'o"
    and inv :: "'s \<Rightarrow> bool" and may :: "'e \<Rightarrow> bool" and good :: "'o \<Rightarrow> bool"
  assumes io_step: "inv s \<Longrightarrow> may e \<Longrightarrow> inv (fst (step s e)) \<and> good (snd (step s e))"
begin

lemma io_run_ok:
  "inv s \<Longrightarrow> list_all may es \<Longrightarrow> inv (fst (io_run step s es)) \<and> list_all good (snd (io_run step s es))"
  by (induction es arbitrary: s) (auto simp: case_prod_unfold Let_def dest: io_step)

end

section \<open>Two-threshold switches\<close>

text \<open>
  A switch that turns on when the reading reaches \<open>on\<close> and off when it reaches
  \<open>off\<close>; between the two it keeps its state. The order of the reading is a parameter, since
  the state-of-charge switch turns on at the low end and the thermal trip at the high end.
\<close>

locale hysteresis =
  fixes upd :: "bool \<Rightarrow> real \<Rightarrow> bool"
    and on_at :: "real \<Rightarrow> bool" and off_at :: "real \<Rightarrow> bool"
  assumes turns_on: "on_at x \<Longrightarrow> \<not> off_at x \<Longrightarrow> upd b x"
    and turns_off: "off_at x \<Longrightarrow> \<not> upd b x"
    and keeps: "\<not> on_at x \<Longrightarrow> \<not> off_at x \<Longrightarrow> upd b x = b"
begin

lemma upd_on_cases: "upd b x \<Longrightarrow> \<not> off_at x \<and> (on_at x \<or> b)"
  using turns_off keeps by blast

lemma band_stable:
  "\<forall>x\<in>set xs. \<not> on_at x \<and> \<not> off_at x \<Longrightarrow> foldl upd b xs = b"
  by (induction xs arbitrary: b) (auto simp: keeps)

lemma on_was_triggered:
  "foldl upd False xs \<Longrightarrow> \<exists>x\<in>set xs. on_at x"
proof (induction xs rule: rev_induct)
  case Nil
  then show ?case by simp
next
  case (snoc x xs)
  then have "upd (foldl upd False xs) x" by simp
  then have "on_at x \<or> foldl upd False xs" using upd_on_cases by blast
  with snoc.IH show ?case by auto
qed

end

section \<open>Small generic lemmas\<close>

text \<open>\<open>x is not None and p(x)\<close>.\<close>

definition opt_test :: "'a option \<Rightarrow> ('a \<Rightarrow> bool) \<Rightarrow> bool" where
  "opt_test x p = (case x of None \<Rightarrow> False | Some v \<Rightarrow> p v)"

lemma opt_test_simps [simp]: "\<not> opt_test None p" "opt_test (Some v) p = p v"
  by (simp_all add: opt_test_def)

lemma opt_test_iff: "opt_test x p \<longleftrightarrow> (\<exists>v. x = Some v \<and> p v)"
  by (cases x) auto

lemma foldl_inv: "(\<And>s x. x \<in> set xs \<Longrightarrow> P s \<Longrightarrow> P (f s x)) \<Longrightarrow> P s \<Longrightarrow> P (foldl f s xs)"
  by (induction xs arbitrary: s) auto

lemma foldl_frame: "(\<And>s x. x \<in> set xs \<Longrightarrow> g (f s x) = g s) \<Longrightarrow> g (foldl f s xs) = g s"
  by (induction xs arbitrary: s) auto

lemma sorted_wrt_snoc:
  "sorted_wrt R (xs @ [x]) \<longleftrightarrow> sorted_wrt R xs \<and> (\<forall>y\<in>set xs. R y x)"
  by (simp add: sorted_wrt_append)

text \<open>\<open>deque(maxlen=n).append\<close>: a full deque drops its first element.\<close>

definition deque_append :: "nat \<Rightarrow> 'a list \<Rightarrow> 'a \<Rightarrow> 'a list" where
  "deque_append n xs x = (let ys = xs @ [x] in drop (length ys - n) ys)"

section \<open>The end of a run\<close>

text \<open>The last \<open>n\<close> elements exist and satisfy \<open>P\<close>.\<close>

definition in_last :: "('a \<Rightarrow> bool) \<Rightarrow> nat \<Rightarrow> 'a list \<Rightarrow> bool" where
  "in_last P n xs \<longleftrightarrow> n \<le> length xs \<and> list_all P (drop (length xs - n) xs)"

lemma in_last_0 [simp]: "in_last P 0 xs"
  by (simp add: in_last_def)

lemma in_last_Suc: "in_last P n xs \<Longrightarrow> P x \<Longrightarrow> in_last P (Suc n) (xs @ [x])"
  by (simp add: in_last_def)

lemma in_last_mono: "in_last P n xs \<Longrightarrow> m \<le> n \<Longrightarrow> in_last P m xs"
proof -
  assume *: "in_last P n xs" "m \<le> n"
  have "set (drop (length xs - m) xs) \<subseteq> set (drop (length xs - n) xs)"
    using *(2) by (intro set_drop_subset_set_drop) simp
  with * show ?thesis by (auto simp: in_last_def list_all_iff)
qed

end
