(* ===== verification/Py_Floats.thy ===== *)
theory Py_Floats
  imports Prelude
begin

text \<open>
  Rounding where the code's behaviour depends on it. The development computes with exact real numbers;
  three operations are rounded to the nearest double, ties to even, because rounding is visible in them:
  the wrap of a negative remainder in Python's \<open>%\<close> (\<open>-1e-20 % 360.0\<close> is \<open>360.0\<close>), the count-down
  of a firing command (one of 1.0 s fires in eleven ticks of 0.1 s) and the conversion of integers and decimal
  texts, which overflows to an error or an infinity.
\<close>

section \<open>Round half to even\<close>

definition round_half_even :: "real \<Rightarrow> int" where
  "round_half_even x =
     (let f = \<lfloor>x\<rfloor>; d = x - of_int f
      in if d < 1 / 2 then f else if d > 1 / 2 then f + 1 else if even f then f else f + 1)"

lemma round_half_even_error: "\<bar>of_int (round_half_even x) - x\<bar> \<le> 1 / 2"
  unfolding round_half_even_def Let_def by (auto simp: abs_le_iff; linarith)

lemma round_half_even_nonneg: "0 \<le> x \<Longrightarrow> 0 \<le> round_half_even x"
  unfolding round_half_even_def Let_def by (auto; linarith)

lemma round_half_even_between: "\<lfloor>x\<rfloor> \<le> round_half_even x \<and> round_half_even x \<le> \<lfloor>x\<rfloor> + 1"
  by (simp add: round_half_even_def Let_def)

lemma round_half_even_int [simp]: "round_half_even (of_int n) = n"
  by (simp add: round_half_even_def)

lemma round_half_even_mono: "x \<le> y \<Longrightarrow> round_half_even x \<le> round_half_even y"
proof (cases "\<lfloor>x\<rfloor> = \<lfloor>y\<rfloor>")
  case False
  assume "x \<le> y"
  then have "\<lfloor>x\<rfloor> + 1 \<le> \<lfloor>y\<rfloor>" using False floor_mono [of x y] by linarith
  then show ?thesis using round_half_even_between [of x] round_half_even_between [of y] by linarith
qed (simp add: round_half_even_def Let_def)

section \<open>The nearest double\<close>

text \<open>The exponent of the last place: 52 bits below the leading one, not under the smallest subnormal.\<close>

definition ulp_exp :: "real \<Rightarrow> int" where
  "ulp_exp x = max (\<lfloor>log 2 \<bar>x\<bar>\<rfloor> - 52) (- 1074)"

definition round_double :: "real \<Rightarrow> real" where
  "round_double x = of_int (round_half_even (x / 2 powi ulp_exp x)) * 2 powi ulp_exp x"

lemma round_double_nonneg: "0 \<le> x \<Longrightarrow> 0 \<le> round_double x"
  by (simp add: round_double_def round_half_even_nonneg)

lemma round_double_0 [simp]: "round_double 0 = 0"
  by (simp add: round_double_def round_half_even_def)

lemma round_double_error: "\<bar>round_double x - x\<bar> \<le> 2 powi ulp_exp x / 2"
proof -
  let ?u = "2 powi ulp_exp x :: real"
  have "round_double x - x = (of_int (round_half_even (x / ?u)) - x / ?u) * ?u" by (simp add: round_double_def left_diff_distrib)
  then have "\<bar>round_double x - x\<bar> = \<bar>of_int (round_half_even (x / ?u)) - x / ?u\<bar> * ?u" by (simp add: abs_mult)
  also have "\<dots> \<le> 1 / 2 * ?u" by (intro mult_right_mono round_half_even_error) simp
  finally show ?thesis by simp
qed

lemma log2_floor_powi:
  assumes "0 < (x :: real)"
  shows "2 powi \<lfloor>log 2 x\<rfloor> \<le> x \<and> x < 2 powi (\<lfloor>log 2 x\<rfloor> + 1)"
proof -
  have p: "(2 :: real) powi i = 2 powr of_int i" for i :: int by (simp add: powr_real_of_int')
  have "of_int \<lfloor>log 2 x\<rfloor> \<le> log 2 x" "log 2 x < of_int (\<lfloor>log 2 x\<rfloor> + 1)" by linarith+
  then show ?thesis using assms unfolding p by (metis le_log_iff log_less_iff one_less_numeral_iff semiring_norm(76))
qed

text \<open>The relative error, with the smallest subnormal as the floor.\<close>

lemma round_double_rel_error: "\<bar>round_double x - x\<bar> \<le> \<bar>x\<bar> / 2 ^ 53 + 1 / 2 ^ 1075"
proof (cases "x = 0")
  case False
  let ?l = "\<lfloor>log 2 \<bar>x\<bar>\<rfloor>"
  have l: "2 powi ?l \<le> \<bar>x\<bar>" using log2_floor_powi [of "\<bar>x\<bar>"] False by simp
  have "(2 :: real) powi ulp_exp x \<le> 2 powi (?l - 52) + 2 powi (- 1074 :: int)" by (simp add: ulp_exp_def max_def)
  moreover have "2 powi (?l - 52) = 2 powi ?l / (2 :: real) ^ 52" by (simp add: power_int_diff)
  moreover have "2 powi (- 1074 :: int) = 1 / (2 :: real) ^ 1074" by (simp add: power_int_minus inverse_eq_divide)
  ultimately have "2 powi ulp_exp x / 2 \<le> (2 powi ?l / 2 ^ 52 + 1 / (2 :: real) ^ 1074) / 2" by simp
  also have "\<dots> \<le> (\<bar>x\<bar> / 2 ^ 52 + 1 / 2 ^ 1074) / 2" using l by (simp add: divide_right_mono)
  also have "\<dots> = \<bar>x\<bar> / 2 ^ 53 + 1 / 2 ^ 1075" by (simp add: add_divide_distrib)
  finally show ?thesis using round_double_error [of x] by linarith
qed (simp add: round_double_def round_half_even_def)

lemma round_double_mono_pos:
  assumes "0 < x" "x \<le> y"
  shows "round_double x \<le> round_double y"
proof (cases "ulp_exp x = ulp_exp y")
  case True
  then show ?thesis using assms by (simp add: round_double_def round_half_even_mono divide_right_mono)
next
  case False
  let ?l = "\<lambda>z. \<lfloor>log 2 \<bar>z\<bar>\<rfloor>"
  have "?l x \<le> ?l y" using assms by (simp add: floor_mono)
  then have less: "ulp_exp x < ulp_exp y" using False by (simp add: ulp_exp_def max_def split: if_splits)
  then have y: "ulp_exp y = ?l y - 52" by (simp add: ulp_exp_def max_def split: if_splits)
  have x: "?l x - 52 \<le> ulp_exp x" by (simp add: ulp_exp_def)
  have "x < 2 powi (?l x + 1)" using log2_floor_powi [of x] assms by simp
  also have "\<dots> \<le> 2 powi (53 + ulp_exp x)" using x by (intro power_int_increasing) simp_all
  also have "\<dots> = of_int (2 ^ 53) * 2 powi ulp_exp x" by (simp add: power_int_add)
  finally have "x / 2 powi ulp_exp x \<le> of_int (2 ^ 53)" by (simp add: divide_le_eq)
  then have "round_half_even (x / 2 powi ulp_exp x) \<le> round_half_even (of_int (2 ^ 53))" by (rule round_half_even_mono)
  then have r: "round_half_even (x / 2 powi ulp_exp x) \<le> 2 ^ 53" by (simp only: round_half_even_int)
  have "real_of_int (round_half_even (x / 2 powi ulp_exp x)) \<le> of_int (2 ^ 53)" by (rule of_int_le_iff [THEN iffD2, OF r])
  then have "round_double x \<le> of_int (2 ^ 53) * 2 powi ulp_exp x"
    unfolding round_double_def by (rule mult_right_mono) simp
  then have "round_double x \<le> 2 ^ 53 * 2 powi ulp_exp x" by (simp only: of_int_power of_int_numeral)
  also have "\<dots> = 2 powi (52 + (ulp_exp x + 1))" by (simp add: power_int_add)
  also have "\<dots> \<le> 2 powi (52 + ulp_exp y)" using less by (intro power_int_increasing) simp_all
  also have "\<dots> = 2 ^ 52 * 2 powi ulp_exp y" by (simp add: power_int_add)
  finally have "round_double x \<le> 2 ^ 52 * 2 powi ulp_exp y" .
  also have "\<dots> \<le> round_double y"
  proof -
    have "2 powi (52 + ulp_exp y) \<le> y" using log2_floor_powi [of y] assms y by simp
    then have "of_int (2 ^ 52) * 2 powi ulp_exp y \<le> y" by (simp add: power_int_add)
    then have "of_int (2 ^ 52) \<le> y / 2 powi ulp_exp y" by (simp add: pos_le_divide_eq)
    then have "round_half_even (of_int (2 ^ 52)) \<le> round_half_even (y / 2 powi ulp_exp y)" by (rule round_half_even_mono)
    then have r: "2 ^ 52 \<le> round_half_even (y / 2 powi ulp_exp y)" by (simp only: round_half_even_int)
    have "of_int (2 ^ 52) \<le> real_of_int (round_half_even (y / 2 powi ulp_exp y))" by (rule of_int_le_iff [THEN iffD2, OF r])
    then have "of_int (2 ^ 52) * 2 powi ulp_exp y \<le> round_double y"
      unfolding round_double_def by (rule mult_right_mono) simp
    then show ?thesis by (simp only: of_int_power of_int_numeral)
  qed
  finally show ?thesis .
qed

text \<open>A number with at most 53 significant bits is a double.\<close>

lemma round_double_exact:
  assumes "2 ^ k \<le> n" "n < 2 ^ (k + 1)" "k \<le> 52"
  shows "round_double (of_nat n) = of_nat n"
proof -
  have n: "0 < n" using assms(1) by (meson less_le_trans zero_less_numeral zero_less_power)
  have "\<lfloor>log 2 (real n)\<rfloor> = int k"
  proof (rule floor_eq2)
    have "2 ^ k \<le> real n" using assms(1) by (metis of_nat_le_iff of_nat_numeral of_nat_power)
    then show "of_int (int k) \<le> log 2 (real n)" using n by (simp add: le_log_of_power)
    have "real n < 2 ^ (k + 1)" using assms(2) by (metis of_nat_less_iff of_nat_numeral of_nat_power)
    then have "log 2 (real n) < real (k + 1)" using n log2_of_power_less [of n "k + 1"] assms(2) by simp
    then show "log 2 (real n) < of_int (int k) + 1" by simp
  qed
  then have e: "ulp_exp (of_nat n) = int k - 52" using assms(3) by (simp add: ulp_exp_def)
  have "(2 :: real) powi (int k - 52) = 1 / 2 ^ (52 - k)"
    using assms(3) by (simp add: power_int_def nat_diff_distrib' inverse_eq_divide power_one_over)
  then have "real n / 2 powi (int k - 52) = of_int (int n * 2 ^ (52 - k))" by simp
  then have "round_half_even (real n / 2 powi (int k - 52)) = int n * 2 ^ (52 - k)"
    by (simp only: round_half_even_int)
  then show ?thesis unfolding round_double_def e \<open>2 powi (int k - 52) = 1 / 2 ^ (52 - k)\<close> by simp
qed

lemma round_double_360 [simp]: "round_double 360 = 360"
  using round_double_exact [of 8 360] by simp

lemma round_double_1 [simp]: "round_double 1 = 1"
  using round_double_exact [of 0 1] by simp

section \<open>Python's remainder\<close>

text \<open>C's \<open>fmod\<close> is exact and has the sign of the dividend.\<close>

definition fmod_c :: "real \<Rightarrow> real \<Rightarrow> real" where
  "fmod_c x m = x - m * of_int (if x / m < 0 then \<lceil>x / m\<rceil> else \<lfloor>x / m\<rfloor>)"

text \<open>
  Python's \<open>%\<close> on floats adds the divisor to a remainder of the other sign; that sum is rounded, so for
  a tiny negative dividend it is the divisor itself.
\<close>

definition fmod_py :: "real \<Rightarrow> real \<Rightarrow> real" where
  "fmod_py x m = (let r = fmod_c x m in if r \<noteq> 0 \<and> (m < 0 \<longleftrightarrow> \<not> r < 0) then round_double (r + m) else r)"

lemma fmod_c_range: "0 < m \<Longrightarrow> - m < fmod_c x m \<and> fmod_c x m < m"
proof (cases "x / m < 0")
  case True
  assume m: "0 < m"
  then have "x \<le> of_int \<lceil>x / m\<rceil> * m" "(of_int \<lceil>x / m\<rceil> - 1) * m < x"
    by (simp_all add: ceiling_divide_upper ceiling_divide_lower)
  then have "x - m * of_int \<lceil>x / m\<rceil> \<le> 0" "- m < x - m * of_int \<lceil>x / m\<rceil>" by (simp_all add: algebra_simps)
  then show ?thesis using True m by (simp only: fmod_c_def if_True) simp
next
  case False
  assume m: "0 < m"
  then have "of_int \<lfloor>x / m\<rfloor> * m \<le> x" "x < (of_int \<lfloor>x / m\<rfloor> + 1) * m"
    by (simp_all add: floor_divide_lower floor_divide_upper)
  then have "0 \<le> x - m * of_int \<lfloor>x / m\<rfloor>" "x - m * of_int \<lfloor>x / m\<rfloor> < m" by (simp_all add: algebra_simps)
  then show ?thesis using False m by (simp only: fmod_c_def if_False) simp
qed

lemma fmod_c_nonneg: "0 < m \<Longrightarrow> 0 \<le> x \<Longrightarrow> 0 \<le> fmod_c x m"
proof -
  assume m: "0 < m" "0 \<le> x"
  have "of_int \<lfloor>x / m\<rfloor> * m \<le> x" using m by (simp add: floor_divide_lower)
  then have "0 \<le> x - m * of_int \<lfloor>x / m\<rfloor>" by (simp add: algebra_simps)
  moreover have "\<not> x / m < 0" using m by (simp add: not_less)
  ultimately show ?thesis by (simp only: fmod_c_def if_False)
qed

lemma fmod_py_ge_0: "0 < m \<Longrightarrow> 0 \<le> fmod_py x m"
  using fmod_c_range [of m x] round_double_nonneg [of "fmod_c x m + m"] by (auto simp: fmod_py_def Let_def)

lemma fmod_py_le: "0 < m \<Longrightarrow> round_double m = m \<Longrightarrow> fmod_py x m \<le> m"
  using fmod_c_range [of m x] round_double_mono_pos [of "fmod_c x m + m" m] by (auto simp: fmod_py_def Let_def)

text \<open>A dividend that is not negative leaves a remainder below the divisor.\<close>

lemma fmod_py_less: "0 < m \<Longrightarrow> 0 \<le> x \<Longrightarrow> fmod_py x m < m"
  using fmod_c_range [of m x] fmod_c_nonneg [of m x] by (simp add: fmod_py_def Let_def)

lemma fmod_py_id: "0 \<le> x \<Longrightarrow> x < m \<Longrightarrow> fmod_py x m = x"
proof -
  assume x: "0 \<le> x" "x < m"
  then have "\<lfloor>x / m\<rfloor> = 0" by (simp add: floor_eq_iff divide_simps)
  moreover have "\<not> x / m < 0" using x by (simp add: not_less)
  ultimately have "fmod_c x m = x" by (simp add: fmod_c_def)
  then show ?thesis using x by (simp add: fmod_py_def)
qed

text \<open>The case in which the remainder is the divisor: the code's headings and bearings can be 360.\<close>

lemma fmod_py_wraps:
  assumes "- (1 / 2 ^ 46) < x" "x < 0"
  shows "fmod_py x 360 = 360"
proof -
  have r: "fmod_c x 360 = x"
  proof -
    have "\<lceil>x / 360\<rceil> = 0" using assms by (simp add: ceiling_eq_iff)
    then show ?thesis using assms by (simp add: fmod_c_def)
  qed
  let ?y = "360 + x"
  have y: "256 < ?y" "?y < 512" using assms by simp_all
  have "\<lfloor>log 2 \<bar>?y\<bar>\<rfloor> = 8"
  proof (rule floor_eq2)
    show "of_int 8 \<le> log 2 \<bar>?y\<bar>" using y by (simp add: le_log_iff)
    have "log 2 \<bar>?y\<bar> < 9" using y by (simp add: log_less_iff)
    then show "log 2 \<bar>?y\<bar> < of_int 8 + 1" by simp
  qed
  then have e: "ulp_exp ?y = - 44" by (simp add: ulp_exp_def)
  have "- 1 / 4 < x * 2 ^ 44" using assms by simp
  moreover have "x * 2 ^ 44 < 0" using assms by simp
  ultimately have x: "- 1 / 4 < x * 2 ^ 44" "x * 2 ^ 44 < 0" .
  have "\<lfloor>360 * 2 ^ 44 + x * 2 ^ 44\<rfloor> = 360 * 2 ^ 44 - 1" unfolding floor_eq_iff using x by simp
  then have "round_half_even (360 * 2 ^ 44 + x * 2 ^ 44) = 360 * 2 ^ 44"
    using x by (simp add: round_half_even_def Let_def)
  moreover have "?y / 2 powi (- 44 :: int) = 360 * 2 ^ 44 + x * 2 ^ 44" by (simp add: power_int_minus algebra_simps)
  ultimately have "round_double ?y = 360" unfolding round_double_def e by (simp add: power_int_minus)
  then show ?thesis using assms by (simp add: fmod_py_def r add.commute)
qed

section \<open>Conversions\<close>

text \<open>From this value on a number rounds to infinity.\<close>

definition float_limit :: real where
  "float_limit = 2 ^ 1024 - 2 ^ 970"

text \<open>A decimal number beyond the limit reads as an infinity; an integer raises \<open>OverflowError\<close>.\<close>

definition to_float :: "pyfloat \<Rightarrow> pyfloat" where
  "to_float x =
     (case x of Fin r \<Rightarrow> if r \<ge> float_limit then PosInf else if r \<le> - float_limit then NegInf else Fin r | _ \<Rightarrow> x)"

definition int_to_float :: "int \<Rightarrow> pyfloat option" where
  "int_to_float i = (if \<bar>of_int i\<bar> \<ge> float_limit then None else Some (Fin (of_int i)))"

text \<open>The sum of two floats.\<close>

fun fl_add :: "pyfloat \<Rightarrow> pyfloat \<Rightarrow> pyfloat" where
  "fl_add (Fin a) (Fin b) = Fin (a + b)"
| "fl_add NaN b = NaN"
| "fl_add a NaN = NaN"
| "fl_add PosInf NegInf = NaN"
| "fl_add NegInf PosInf = NaN"
| "fl_add PosInf b = PosInf"
| "fl_add NegInf b = NegInf"
| "fl_add a PosInf = PosInf"
| "fl_add a NegInf = NegInf"

text \<open>\<open>k * x\<close> for a finite \<open>k\<close>.\<close>

fun fl_scale :: "real \<Rightarrow> pyfloat \<Rightarrow> pyfloat" where
  "fl_scale k (Fin a) = Fin (k * a)"
| "fl_scale k NaN = NaN"
| "fl_scale k PosInf = (if k = 0 then NaN else if k < 0 then NegInf else PosInf)"
| "fl_scale k NegInf = (if k = 0 then NaN else if k < 0 then PosInf else NegInf)"

text \<open>Every comparison with a NaN is false.\<close>

fun fl_le :: "pyfloat \<Rightarrow> pyfloat \<Rightarrow> bool" where
  "fl_le (Fin a) (Fin b) \<longleftrightarrow> a \<le> b"
| "fl_le NaN b \<longleftrightarrow> False"
| "fl_le a NaN \<longleftrightarrow> False"
| "fl_le NegInf b \<longleftrightarrow> True"
| "fl_le a PosInf \<longleftrightarrow> True"
| "fl_le a b \<longleftrightarrow> a = b"

text \<open>\<open>x <= 0.0\<close> and \<open>x < y\<close>.\<close>

fun fl_nonpos :: "pyfloat \<Rightarrow> bool" where
  "fl_nonpos (Fin x) = (x \<le> 0)"
| "fl_nonpos NegInf = True"
| "fl_nonpos y = False"

fun fl_less :: "pyfloat \<Rightarrow> pyfloat \<Rightarrow> bool" where
  "fl_less (Fin x) (Fin y) = (x < y)"
| "fl_less NaN y = False"
| "fl_less x NaN = False"
| "fl_less x PosInf = (x \<noteq> PosInf)"
| "fl_less NegInf y = (y \<noteq> NegInf)"
| "fl_less x y = False"

fun fl_neg :: "pyfloat \<Rightarrow> pyfloat" where
  "fl_neg (Fin x) = Fin (- x)"
| "fl_neg PosInf = NegInf"
| "fl_neg NegInf = PosInf"
| "fl_neg NaN = NaN"

definition fl_sub :: "pyfloat \<Rightarrow> pyfloat \<Rightarrow> pyfloat" where
  "fl_sub x y = fl_add x (fl_neg y)"

fun fl_abs :: "pyfloat \<Rightarrow> pyfloat" where
  "fl_abs (Fin x) = Fin \<bar>x\<bar>"
| "fl_abs NegInf = PosInf"
| "fl_abs x = x"

lemma fl_sub_fin [simp]: "fl_sub (Fin x) (Fin y) = Fin (x - y)"
  by (simp add: fl_sub_def)

text \<open>
  \<open>max(lo, min(hi, x))\<close>: Python's \<open>min\<close> and \<open>max\<close> keep their first argument unless the second is
  smaller or greater, so a NaN counts as \<open>hi\<close>.
\<close>

fun clamp_float :: "real \<Rightarrow> real \<Rightarrow> pyfloat \<Rightarrow> real" where
  "clamp_float lo hi (Fin x) = clamp lo hi x"
| "clamp_float lo hi NegInf = lo"
| "clamp_float lo hi x = max lo hi"

lemma clamp_float_range [simp]:
  assumes "lo \<le> hi"
  shows "lo \<le> clamp_float lo hi x" "clamp_float lo hi x \<le> hi"
  using assms by (cases x; simp)+

end
