(* ===== verification/Radar_Types.thy ===== *)
theory Radar_Types
  imports Py_Floats
begin

text \<open>
  Radar data (\<open>src/qiki/shared/models/radar.py\<close>) and its coordinates
  (\<open>src/qiki/shared/radar_coords.py\<close>, \<open>radar_freshness.py\<close>). The Pydantic field
  constraints and model validators are the predicates \<open>detection_valid\<close> and
  \<open>track_valid\<close>: constructing a model that violates them raises in the code.
  Date-times are epoch seconds, UUIDs are their strings.
\<close>

section \<open>Enumerations\<close>

datatype friend_foe = FF_UNSPECIFIED | FF_FRIEND | FF_FOE | FF_UNKNOWN

datatype transponder_mode = XP_OFF | XP_ON | XP_SILENT | XP_SPOOF

datatype range_band = RR_UNSPECIFIED | RR_LR | RR_SR

datatype track_status = TS_UNSPECIFIED | TS_NEW | TS_TRACKED | TS_LOST | TS_COASTING

section \<open>Vectors and coordinates\<close>

record vec3 =
  vx :: real
  vy :: real
  vz :: real

definition radians :: "real \<Rightarrow> real" where
  "radians d = d * pi / 180"

definition degrees :: "real \<Rightarrow> real" where
  "degrees r = r * 180 / pi"

text \<open>\<open>math.atan2(y, x)\<close> on finite arguments.\<close>

definition atan2 :: "real \<Rightarrow> real \<Rightarrow> real" where
  "atan2 y x =
     (if x > 0 then arctan (y / x)
      else if x < 0 then (if y \<ge> 0 then arctan (y / x) + pi else arctan (y / x) - pi)
      else if y > 0 then pi / 2 else if y < 0 then - pi / 2 else 0)"

definition polar_to_xyz :: "real \<Rightarrow> real \<Rightarrow> real \<Rightarrow> vec3" where
  "polar_to_xyz range_m bearing_deg elev_deg =
     (let r = max range_m 0;
          b = radians bearing_deg;
          e = radians elev_deg
      in \<lparr>vx = r * cos e * sin b, vy = r * cos e * cos b, vz = r * sin e\<rparr>)"

definition xyz_to_bearing_deg :: "real \<Rightarrow> real \<Rightarrow> real" where
  "xyz_to_bearing_deg x y = fmod_py (degrees (atan2 x y)) 360"

definition bearing_delta_deg :: "real \<Rightarrow> real \<Rightarrow> real" where
  "bearing_delta_deg a b = (let d = fmod_py \<bar>a - b\<bar> 360 in min d (360 - d))"

text \<open>The bearing can be 360: the wrap of a tiny negative angle is rounded.\<close>

lemma xyz_to_bearing_range: "0 \<le> xyz_to_bearing_deg x y \<and> xyz_to_bearing_deg x y \<le> 360"
  by (simp add: xyz_to_bearing_deg_def fmod_py_ge_0 fmod_py_le)

lemma bearing_wraps: "xyz_to_bearing_deg (- 1 / 10 ^ 17) 1 = 360"
proof -
  let ?a = "arctan (- 1 / 10 ^ 17)"
  have a: "?a < 0" using arctan_less_iff [of "- 1 / 10 ^ 17" 0] by simp
  have "?a \<ge> - 1 / 10 ^ 17"
  proof -
    obtain z where "arctan 0 - ?a = (0 - (- 1 / 10 ^ 17)) * inverse (1 + z\<^sup>2)"
      using MVT2 [of "- 1 / 10 ^ 17" 0 arctan "\<lambda>x. inverse (1 + x\<^sup>2)"] DERIV_arctan by auto
    then have "- ?a = 1 / 10 ^ 17 * inverse (1 + z\<^sup>2)" by simp
    also have "\<dots> \<le> 1 / 10 ^ 17 * 1" by (rule mult_left_mono) (simp_all add: inverse_le_1_iff)
    finally show ?thesis by simp
  qed
  then have "?a * 180 \<ge> - (180 / 10 ^ 17)" by simp
  moreover have "?a * 180 \<le> ?a * 180 / pi * 1" using a pi_ge_two by (simp add: le_divide_eq)
  ultimately have "- (1 / 2 ^ 46) < ?a * 180 / pi" by simp
  moreover have "?a * 180 / pi < 0" using a by (simp add: divide_neg_pos)
  ultimately show ?thesis by (simp add: xyz_to_bearing_deg_def degrees_def atan2_def fmod_py_wraps)
qed

lemma bearing_delta_range: "0 \<le> bearing_delta_deg a b \<and> bearing_delta_deg a b \<le> 180"
  using fmod_py_ge_0 [of 360 "\<bar>a - b\<bar>"] fmod_py_less [of 360 "\<bar>a - b\<bar>"]
  by (simp add: bearing_delta_deg_def Let_def min_def)

lemma bearing_delta_sym: "bearing_delta_deg a b = bearing_delta_deg b a"
  by (simp add: bearing_delta_deg_def abs_minus_commute)

lemma bearing_delta_self [simp]: "bearing_delta_deg a a = 0"
  by (simp add: bearing_delta_deg_def fmod_py_id)

lemma atan2_half: "0 \<le> x \<Longrightarrow> - (pi / 2) \<le> atan2 y x \<and> atan2 y x \<le> pi / 2"
  using arctan_lbound [of "y / x"] arctan_ubound [of "y / x"] pi_gt_zero
  by (simp add: atan2_def)

lemma degrees_half: "- (pi / 2) \<le> r \<Longrightarrow> r \<le> pi / 2 \<Longrightarrow> - 90 \<le> degrees r \<and> degrees r \<le> 90"
  by (simp add: degrees_def pos_le_divide_eq pos_divide_le_eq)

section \<open>Detections, frames and tracks\<close>

record detection =
  d_range_m :: real
  d_bearing_deg :: real
  d_elev_deg :: real
  d_vr_mps :: real
  d_snr_db :: real
  d_rcs_dbsm :: real
  d_transponder_on :: bool
  d_transponder_mode :: transponder_mode
  d_transponder_id :: "string option"
  d_range_band :: range_band
  d_id_present :: "bool option"

text \<open>Truth value of an optional string: present and not empty.\<close>

definition truthy_str :: "string option \<Rightarrow> bool" where
  "truthy_str s = (case s of None \<Rightarrow> False | Some x \<Rightarrow> x \<noteq> [])"

definition detection_valid :: "detection \<Rightarrow> bool" where
  "detection_valid d \<longleftrightarrow>
     0 \<le> d_range_m d \<and> 0 \<le> d_snr_db d \<and>
     0 \<le> d_bearing_deg d \<and> d_bearing_deg d < 360 \<and>
     - 90 \<le> d_elev_deg d \<and> d_elev_deg d \<le> 90 \<and>
     \<not> (d_range_band d = RR_LR \<and> (truthy_str (d_transponder_id d) \<or> d_id_present d = Some True))"

record frame =
  f_sensor_id :: string
  f_timestamp :: real
  f_detections :: "detection list"

record radar_track =
  t_track_id :: string
  t_iff :: friend_foe
  t_transponder_on :: bool
  t_transponder_mode :: transponder_mode
  t_transponder_id :: "string option"
  t_quality :: real
  t_status :: track_status
  t_range_m :: real
  t_bearing_deg :: real
  t_elev_deg :: real
  t_vr_mps :: real
  t_snr_db :: real
  t_rcs_dbsm :: real
  t_position :: "vec3 option"
  t_velocity :: "vec3 option"
  t_age_s :: real
  t_miss_count :: int
  t_timestamp :: real
  t_range_band :: range_band
  t_id_present :: "bool option"

definition track_valid :: "radar_track \<Rightarrow> bool" where
  "track_valid t \<longleftrightarrow>
     0 \<le> t_quality t \<and> t_quality t \<le> 1 \<and> 0 \<le> t_range_m t \<and> 0 \<le> t_snr_db t \<and>
     0 \<le> t_age_s t \<and> 0 \<le> t_miss_count t \<and>
     0 \<le> t_bearing_deg t \<and> t_bearing_deg t < 360 \<and>
     - 90 \<le> t_elev_deg t \<and> t_elev_deg t \<le> 90 \<and>
     \<not> (t_range_band t = RR_LR \<and>
        (truthy_str (t_transponder_id t) \<or> t_id_present t = Some True \<or>
         t_transponder_mode t \<noteq> XP_OFF))"

section \<open>Freshness\<close>

definition RADAR_TRACK_STALE_S :: real where "RADAR_TRACK_STALE_S = 5"
definition RADAR_TRACK_DEAD_S :: real where "RADAR_TRACK_DEAD_S = 30"

datatype freshness = Fresh | Stale | Dead

definition classify_track_freshness :: "pyfloat option \<Rightarrow> freshness" where
  "classify_track_freshness age =
     (case age of
        Some (Fin a) \<Rightarrow> if a \<ge> RADAR_TRACK_DEAD_S then Dead
                        else if a \<ge> RADAR_TRACK_STALE_S then Stale else Fresh
      | _ \<Rightarrow> Stale)"

end
