(* ===== verification/Guard_Table.thy ===== *)
theory Guard_Table
  imports Radar_Types
begin

text \<open>
  Guard rules on radar tracks (\<open>src/qiki/services/q_core_agent/core/guard_table.py\<close>):
  \<open>rule_matches\<close> is \<open>GuardRule.matches\<close> with its early returns in order, and the
  evaluation of a table is the concatenation over tracks and rules. The loader reads YAML and
  is not modelled; what it must deliver is \<open>rule_valid\<close>, the model validator.
\<close>

record guard_result =
  g_rule_id :: string
  g_severity :: string
  g_fsm_event :: string
  g_message :: string
  g_track_id :: string
  g_range_m :: real
  g_quality :: real
  g_iff :: friend_foe
  g_transponder_on :: bool
  g_transponder_mode :: transponder_mode

definition severity_order :: "string \<Rightarrow> int" where
  "severity_order s =
     (if s = ''info'' then 0 else if s = ''warning'' then 1 else if s = ''critical'' then 2 else 0)"

definition severity_weight :: "guard_result \<Rightarrow> int" where
  "severity_weight g = severity_order (g_severity g)"

record guard_rule =
  r_id :: string
  r_description :: string
  r_severity :: string
  r_fsm_event :: string
  r_iff :: "friend_foe option"
  r_require_transponder_on :: "bool option"
  r_allowed_modes :: "transponder_mode list option"
  r_min_range_m :: real
  r_max_range_m :: "real option"
  r_min_quality :: real
  r_max_radial_velocity :: "real option"
  r_min_duration_s :: real
  r_cooldown_s :: pyfloat
  r_cooldown_set :: bool \<comment> \<open>whether \<open>cooldown_s\<close> is in \<open>model_fields_set\<close>\<close>
  r_hysteresis_m :: real

definition rule_valid :: "guard_rule \<Rightarrow> bool" where
  "rule_valid r \<longleftrightarrow>
     r_severity r \<in> {''info'', ''warning'', ''critical''} \<and>
     (case r_max_range_m r of None \<Rightarrow> True | Some m \<Rightarrow> r_min_range_m r < m) \<and>
     0 \<le> r_min_quality r \<and> r_min_quality r \<le> 1 \<and> 0 \<le> r_min_duration_s r \<and>
     (case r_cooldown_s r of Fin c \<Rightarrow> 0 \<le> c | NegInf \<Rightarrow> False | _ \<Rightarrow> True) \<and>
     0 \<le> r_hysteresis_m r"

definition rule_matches :: "guard_rule \<Rightarrow> radar_track \<Rightarrow> bool \<Rightarrow> real option \<Rightarrow> bool" where
  "rule_matches r t active hysteresis_m =
     (if t_status t \<notin> {TS_TRACKED, TS_COASTING} then False
      else if opt_test (r_iff r) (\<lambda>f. t_iff t \<noteq> f) then False
      else if r_require_transponder_on r = Some True \<and> \<not> t_transponder_on t then False
      else if r_require_transponder_on r = Some False \<and> t_transponder_on t then False
      else if opt_test (r_allowed_modes r) (\<lambda>ms. ms \<noteq> [] \<and> t_transponder_mode t \<notin> set ms) then False
      else
        let h = (case hysteresis_m of None \<Rightarrow> r_hysteresis_m r | Some x \<Rightarrow> x);
            widen = active \<and> h \<noteq> 0;
            min_range = (if widen then r_min_range_m r - h else r_min_range_m r);
            max_range = (if widen then map_option (\<lambda>m. m + h) (r_max_range_m r)
                         else r_max_range_m r)
        in if t_range_m t < min_range then False
           else if opt_test max_range (\<lambda>m. t_range_m t > m) then False
           else if t_quality t < r_min_quality r then False
           else if opt_test (r_max_radial_velocity r) (\<lambda>v. \<bar>t_vr_mps t\<bar> > v) then False
           else True)"

definition build_result :: "guard_rule \<Rightarrow> radar_track \<Rightarrow> guard_result" where
  "build_result r t =
     \<lparr>g_rule_id = r_id r, g_severity = r_severity r, g_fsm_event = r_fsm_event r,
      g_message = r_description r, g_track_id = t_track_id t, g_range_m = t_range_m t,
      g_quality = t_quality t, g_iff = t_iff t, g_transponder_on = t_transponder_on t,
      g_transponder_mode = t_transponder_mode t\<rparr>"

definition rule_evaluate :: "guard_rule \<Rightarrow> radar_track \<Rightarrow> guard_result option" where
  "rule_evaluate r t =
     (if \<not> rule_matches r t False (Some 0) then None else Some (build_result r t))"

fun evaluate_track :: "guard_rule list \<Rightarrow> radar_track \<Rightarrow> guard_result list" where
  "evaluate_track [] t = []"
| "evaluate_track (r # rs) t =
     (case rule_evaluate r t of
        None \<Rightarrow> evaluate_track rs t
      | Some g \<Rightarrow> g # evaluate_track rs t)"

fun evaluate_tracks :: "guard_rule list \<Rightarrow> radar_track list \<Rightarrow> guard_result list" where
  "evaluate_tracks rs [] = []"
| "evaluate_tracks rs (t # ts) = evaluate_track rs t @ evaluate_tracks rs ts"

section \<open>Lemmas\<close>

lemma build_result_simps [simp]:
  "g_rule_id (build_result r t) = r_id r" "g_severity (build_result r t) = r_severity r"
  "g_fsm_event (build_result r t) = r_fsm_event r" "g_track_id (build_result r t) = t_track_id t"
  "g_range_m (build_result r t) = t_range_m t" "g_quality (build_result r t) = t_quality t"
  by (simp_all add: build_result_def)

text \<open>Only stabilised tracks can match, whatever the rule says.\<close>

lemma matches_status: "rule_matches r t a h \<Longrightarrow> t_status t \<in> {TS_TRACKED, TS_COASTING}"
  by (cases "t_status t \<in> {TS_TRACKED, TS_COASTING}") (simp_all only: rule_matches_def if_True not_False_eq_True)

text \<open>Without an active alert the hysteresis argument is irrelevant.\<close>

lemma matches_inactive: "rule_matches r t False h = rule_matches r t False h'"
  by (simp add: rule_matches_def)

text \<open>While an alert is active, the range band only widens.\<close>

lemma matches_active_mono:
  assumes "rule_matches r t False None" and "0 \<le> r_hysteresis_m r"
  shows "rule_matches r t True None"
  using assms
  by (cases "r_max_range_m r") (auto simp: rule_matches_def Let_def split: if_splits)

lemma set_evaluate_track:
  "set (evaluate_track rs t) =
     {build_result r t |r. r \<in> set rs \<and> rule_matches r t False None}"
  by (induction rs) (auto simp: rule_evaluate_def matches_inactive [of _ _ "Some 0" None])

lemma set_evaluate_tracks:
  "set (evaluate_tracks rs ts) =
     {build_result r t |r t. r \<in> set rs \<and> t \<in> set ts \<and> rule_matches r t False None}"
  by (induction ts) (auto simp: set_evaluate_track)

end
