(* ===== verification/Guard_Cadence.thy ===== *)
theory Guard_Cadence
  imports Guard_Table
begin

text \<open>
  Edge-triggered publication of guard alerts
  (\<open>src/qiki/services/faststream_bridge/radar_guard_cadence.py\<close>). The state is a
  dictionary from \<open>rule_id:track_id\<close> to the window and publication times of that pair;
  \<open>cadence_rule\<close> is the body of the loop over the rules and \<open>cadence_gc\<close> the
  final sweep. The value 0.0 means "not set" for every time field, as in the code.
\<close>

section \<open>State\<close>

record key_state =
  k_first_match :: real
  k_last_match :: real
  k_last_publish :: real
  k_active :: bool

type_synonym cadence = "(string, key_state) dict"

definition guard_key :: "guard_rule \<Rightarrow> radar_track \<Rightarrow> string" where
  "guard_key r t = r_id r @ '':'' @ t_track_id t"

text \<open>\<open>_ts_epoch\<close>: the model validator makes \<open>ts_event\<close> and \<open>timestamp\<close> equal.\<close>

definition ts_epoch :: "radar_track \<Rightarrow> real" where
  "ts_epoch t = t_timestamp t"

definition rule_cooldown :: "real \<Rightarrow> guard_rule \<Rightarrow> real" where
  "rule_cooldown default_cooldown r =
     (if r_cooldown_set r
      then (case r_cooldown_s r of Fin c \<Rightarrow> max 0 c | _ \<Rightarrow> default_cooldown)
      else default_cooldown)"

definition opt_zero :: "real \<Rightarrow> real \<Rightarrow> real" where
  "opt_zero x d = (if x = 0 then d else x)" \<comment> \<open>\<open>x or d\<close>\<close>

section \<open>Operations\<close>

text \<open>What happens to the key's state when the rule matches, before the publication checks.\<close>

definition note_match :: "real \<Rightarrow> real \<Rightarrow> key_state option \<Rightarrow> key_state" where
  "note_match now_ts min_duration st =
     (case st of
        None \<Rightarrow> \<lparr>k_first_match = now_ts, k_last_match = now_ts, k_last_publish = 0, k_active = False\<rparr>
      | Some s \<Rightarrow>
          let s1 = (if min_duration \<noteq> 0 \<and> k_last_match s \<noteq> 0 \<and>
                       now_ts - k_last_match s > min_duration
                    then s\<lparr>k_first_match := now_ts\<rparr> else s);
              s2 = (if k_first_match s1 = 0 then s1\<lparr>k_first_match := now_ts\<rparr> else s1)
          in s2\<lparr>k_last_match := now_ts\<rparr>)"

text \<open>The three reasons to stay silent after a match.\<close>

definition suppressed :: "real \<Rightarrow> real \<Rightarrow> real \<Rightarrow> key_state \<Rightarrow> bool" where
  "suppressed now_ts min_duration cooldown s \<longleftrightarrow>
     k_active s \<or>
     (min_duration \<noteq> 0 \<and> now_ts - opt_zero (k_first_match s) now_ts < min_duration) \<or>
     (cooldown \<noteq> 0 \<and> now_ts - k_last_publish s < cooldown)"

definition drop_match :: "key_state \<Rightarrow> key_state" where
  "drop_match s = s\<lparr>k_active := False, k_first_match := 0, k_last_match := 0\<rparr>"

definition cadence_rule ::
  "real \<Rightarrow> radar_track \<Rightarrow> cadence \<Rightarrow> guard_rule \<Rightarrow> cadence \<times> guard_result list" where
  "cadence_rule default_cooldown t states r =
     (let now_ts = ts_epoch t;
          key = guard_key r t;
          state = dict_get states key;
          is_active = (case state of None \<Rightarrow> False | Some s \<Rightarrow> k_active s);
          min_duration = max 0 (r_min_duration_s r)
      in if \<not> rule_matches r t is_active None
         then (if is_active then dict_set states key (drop_match (the state)) else states, [])
         else
           let s = note_match now_ts min_duration state
           in if suppressed now_ts min_duration (rule_cooldown default_cooldown r) s
              then (dict_set states key s, [])
              else (dict_set states key (s\<lparr>k_active := True, k_last_publish := now_ts\<rparr>),
                    [build_result r t]))"

fun cadence_rules ::
  "real \<Rightarrow> radar_track \<Rightarrow> guard_rule list \<Rightarrow> cadence \<Rightarrow> cadence \<times> guard_result list" where
  "cadence_rules dc t [] states = (states, [])"
| "cadence_rules dc t (r # rs) states =
     (let (states1, out1) = cadence_rule dc t states r;
          (states2, out2) = cadence_rules dc t rs states1
      in (states2, out1 @ out2))"

definition gc_ttl_s :: real where "gc_ttl_s = 300"

definition gc_last :: "key_state \<Rightarrow> real" where
  "gc_last s = (if k_last_publish s = 0 then k_last_match s else k_last_publish s)"

definition gc_drops :: "real \<Rightarrow> key_state \<Rightarrow> bool" where
  "gc_drops now_ts s \<longleftrightarrow> \<not> k_active s \<and> gc_last s \<noteq> 0 \<and> now_ts - gc_last s > gc_ttl_s"

definition cadence_gc :: "real \<Rightarrow> cadence \<Rightarrow> cadence" where
  "cadence_gc now_ts states = filter (\<lambda>(key, s). \<not> gc_drops now_ts s) states"

definition cadence_update ::
  "guard_rule list \<Rightarrow> real \<Rightarrow> cadence \<Rightarrow> radar_track \<Rightarrow> cadence \<times> guard_result list" where
  "cadence_update rules dc states t =
     (let (states', out) = cadence_rules dc t rules states
      in (cadence_gc (ts_epoch t) states', out))"

text \<open>A stream of track updates: the final state and what each update published, with its time.\<close>

fun cadence_run ::
  "guard_rule list \<Rightarrow> real \<Rightarrow> cadence \<Rightarrow> radar_track list \<Rightarrow> cadence \<times> (real \<times> guard_result list) list" where
  "cadence_run rules dc states [] = (states, [])"
| "cadence_run rules dc states (t # ts) =
     (let (states1, out) = cadence_update rules dc states t;
          (states2, rest) = cadence_run rules dc states1 ts
      in (states2, (ts_epoch t, out) # rest))"

section \<open>Keys\<close>

lemma guard_key_inj:
  assumes "guard_key r t = guard_key r' t'"
    and "CHR '':'' \<notin> set (t_track_id t)" "CHR '':'' \<notin> set (t_track_id t')"
  shows "r_id r = r_id r' \<and> t_track_id t = t_track_id t'"
proof -
  have split_last: "takeWhile (\<lambda>c. c \<noteq> CHR '':'') (rev (a @ '':'' @ b)) = rev b"
    if "CHR '':'' \<notin> set b" for a b :: string
    using that by (auto simp: takeWhile_tail takeWhile_eq_all_conv)
  have "takeWhile (\<lambda>c. c \<noteq> CHR '':'') (rev (r_id r @ '':'' @ t_track_id t)) =
        takeWhile (\<lambda>c. c \<noteq> CHR '':'') (rev (r_id r' @ '':'' @ t_track_id t'))"
    using assms(1) by (simp add: guard_key_def)
  then have "t_track_id t = t_track_id t'"
    using split_last assms(2,3) by (metis rev_rev_ident)
  then show ?thesis using assms(1) by (simp add: guard_key_def)
qed

lemma cadence_rule_other:
  "k \<noteq> guard_key r t \<Longrightarrow> dict_get (fst (cadence_rule dc t states r)) k = dict_get states k"
  by (simp add: cadence_rule_def Let_def)

lemma cadence_rule_wf: "wf_dict states \<Longrightarrow> wf_dict (fst (cadence_rule dc t states r))"
  by (simp add: cadence_rule_def Let_def)

lemma fst_cadence_rules [simp]:
  "fst (cadence_rules dc t (r # rs) states) =
     fst (cadence_rules dc t rs (fst (cadence_rule dc t states r)))"
  by (simp add: Let_def split: prod.split)

lemma snd_cadence_rules [simp]:
  "snd (cadence_rules dc t (r # rs) states) =
     snd (cadence_rule dc t states r) @
     snd (cadence_rules dc t rs (fst (cadence_rule dc t states r)))"
  by (simp add: Let_def split: prod.split)

declare cadence_rules.simps(2) [simp del]

lemma cadence_rules_wf: "wf_dict states \<Longrightarrow> wf_dict (fst (cadence_rules dc t rs states))"
  by (induction rs arbitrary: states) (auto intro: cadence_rule_wf)

lemma cadence_rules_other:
  "(\<forall>r\<in>set rs. k \<noteq> guard_key r t) \<Longrightarrow>
   dict_get (fst (cadence_rules dc t rs states)) k = dict_get states k"
  by (induction rs arbitrary: states) (auto simp: cadence_rule_other)

lemma map_of_filter_snd:
  "wf_dict m \<Longrightarrow> map_of (filter (\<lambda>(k, v). P v) m) k =
     (case map_of m k of None \<Rightarrow> None | Some v \<Rightarrow> if P v then Some v else None)"
proof (induction m)
  case (Cons a m)
  then show ?case
    by (cases a) (auto simp: wf_dict_def map_of_eq_None_iff image_iff split: option.splits)
qed simp

lemma cadence_gc_get:
  "wf_dict states \<Longrightarrow> dict_get (cadence_gc now states) k =
     (case dict_get states k of None \<Rightarrow> None | Some s \<Rightarrow> if gc_drops now s then None else Some s)"
  unfolding cadence_gc_def
  by (subst map_of_filter_snd) (auto split: option.split)

lemma cadence_update_simps:
  "fst (cadence_update rules dc states t) =
     cadence_gc (ts_epoch t) (fst (cadence_rules dc t rules states))"
  "snd (cadence_update rules dc states t) = snd (cadence_rules dc t rules states)"
  by (simp_all add: cadence_update_def split: prod.split)

lemma cadence_update_wf: "wf_dict states \<Longrightarrow> wf_dict (fst (cadence_update rules dc states t))"
  by (simp add: cadence_update_simps cadence_gc_def cadence_rules_wf)

lemma cadence_run_simps [simp]:
  "fst (cadence_run rules dc states (t # ts)) =
     fst (cadence_run rules dc (fst (cadence_update rules dc states t)) ts)"
  "snd (cadence_run rules dc states (t # ts)) =
     (ts_epoch t, snd (cadence_update rules dc states t)) #
     snd (cadence_run rules dc (fst (cadence_update rules dc states t)) ts)"
  by (simp_all add: Let_def split: prod.split)

declare cadence_run.simps(2) [simp del]

section \<open>One rule and one track at a time\<close>

text \<open>
  In a table whose rule ids are distinct, the state of a key is touched by its own rule only, so
  an update splits into the part before that rule, the rule, and the part after it.
\<close>

lemma result_of_rule:
  "g \<in> set (snd (cadence_rule dc t states r)) \<Longrightarrow> g = build_result r t"
  by (auto simp: cadence_rule_def Let_def split: if_splits)

lemma result_of_rules:
  "g \<in> set (snd (cadence_rules dc t rs states)) \<Longrightarrow> \<exists>r\<in>set rs. g = build_result r t"
  by (induction rs arbitrary: states) (auto dest: result_of_rule)

lemma rules_split:
  assumes "distinct (map r_id rules)" and "r \<in> set rules"
    and "CHR '':'' \<notin> set (t_track_id t)"
  obtains before where
    "dict_get before (guard_key r t) = dict_get states (guard_key r t)"
    "dict_get (fst (cadence_rules dc t rules states)) (guard_key r t) =
       dict_get (fst (cadence_rule dc t before r)) (guard_key r t)"
    "filter (\<lambda>g. g_rule_id g = r_id r) (snd (cadence_rules dc t rules states)) =
       snd (cadence_rule dc t before r)"
  using assms(1,2)
proof (induction rules arbitrary: states thesis)
  case Nil
  then show ?case by simp
next
  case (Cons x xs)
  show ?case
  proof (cases "x = r")
    case True
    have other: "\<forall>y\<in>set xs. guard_key r t \<noteq> guard_key y t"
      using Cons.prems(2) True by (auto simp: guard_key_def image_iff)
    have "filter (\<lambda>g. g_rule_id g = r_id r) (snd (cadence_rules dc t xs st)) = []" for st
      using Cons.prems(2) True by (auto simp: filter_empty_conv image_iff dest!: result_of_rules)
    moreover have "filter (\<lambda>g. g_rule_id g = r_id r) (snd (cadence_rule dc t states r))
                     = snd (cadence_rule dc t states r)"
      by (auto simp: filter_id_conv dest: result_of_rule)
    ultimately show ?thesis
      using Cons.prems(1) [of states] other True by (simp add: cadence_rules_other)
  next
    case False
    then have r: "r \<in> set xs" and ne: "r_id x \<noteq> r_id r"
      using Cons.prems(2,3) by (auto simp: image_iff)
    let ?s1 = "fst (cadence_rule dc t states x)"
    have key: "guard_key r t \<noteq> guard_key x t" using ne by (simp add: guard_key_def)
    have none: "filter (\<lambda>g. g_rule_id g = r_id r) (snd (cadence_rule dc t states x)) = []"
      using ne by (auto simp: filter_empty_conv dest!: result_of_rule)
    from r Cons.prems(2) obtain before where
      "dict_get before (guard_key r t) = dict_get ?s1 (guard_key r t)"
      "dict_get (fst (cadence_rules dc t xs ?s1)) (guard_key r t) =
         dict_get (fst (cadence_rule dc t before r)) (guard_key r t)"
      "filter (\<lambda>g. g_rule_id g = r_id r) (snd (cadence_rules dc t xs ?s1)) =
         snd (cadence_rule dc t before r)"
      using Cons.IH [of ?s1] by auto
    then show ?thesis
      using Cons.prems(1) [of before] none cadence_rule_other [OF key] by simp
  qed
qed

section \<open>The automaton of one key\<close>

text \<open>
  What an update does to one key, seen alone: \<open>key_update\<close> is the abstract specification
  of the cadence, and \<open>cadence_refines_key\<close> below shows that the dictionary of states
  implements one independent copy of it per key.
\<close>

definition key_active :: "key_state option \<Rightarrow> bool" where
  "key_active st = (case st of None \<Rightarrow> False | Some s \<Rightarrow> k_active s)"

definition key_step ::
  "real \<Rightarrow> guard_rule \<Rightarrow> radar_track \<Rightarrow> key_state option \<Rightarrow> key_state option \<times> guard_result list" where
  "key_step dc r t st =
     (let now_ts = ts_epoch t; min_duration = max 0 (r_min_duration_s r)
      in if \<not> rule_matches r t (key_active st) None
         then (if key_active st then map_option drop_match st else st, [])
         else
           let s = note_match now_ts min_duration st
           in if suppressed now_ts min_duration (rule_cooldown dc r) s then (Some s, [])
              else (Some (s\<lparr>k_active := True, k_last_publish := now_ts\<rparr>), [build_result r t]))"

definition key_gc :: "real \<Rightarrow> key_state option \<Rightarrow> key_state option" where
  "key_gc now st = (case st of None \<Rightarrow> None | Some s \<Rightarrow> if gc_drops now s then None else Some s)"

definition key_update ::
  "real \<Rightarrow> guard_rule \<Rightarrow> string \<Rightarrow> key_state option \<Rightarrow> radar_track \<Rightarrow> key_state option \<times> guard_result list" where
  "key_update dc r tid st t =
     (let (st', out) = (if t_track_id t = tid then key_step dc r t st else (st, []))
      in (key_gc (ts_epoch t) st', out))"

lemma cadence_rule_key:
  "dict_get (fst (cadence_rule dc t states r)) (guard_key r t) =
     fst (key_step dc r t (dict_get states (guard_key r t)))"
  "snd (cadence_rule dc t states r) = snd (key_step dc r t (dict_get states (guard_key r t)))"
  by (auto simp: cadence_rule_def key_step_def key_active_def Let_def split: option.splits)

definition plain_id :: "string \<Rightarrow> bool" where
  "plain_id tid \<longleftrightarrow> CHR '':'' \<notin> set tid"

abbreviation alerts_for :: "string \<Rightarrow> string \<Rightarrow> guard_result list \<Rightarrow> guard_result list" where
  "alerts_for rid tid out \<equiv> filter (\<lambda>g. g_rule_id g = rid \<and> g_track_id g = tid) out"

lemma other_track_silent:
  "t_track_id t' \<noteq> tid \<Longrightarrow> alerts_for rid tid (snd (cadence_rules dc t' rules states)) = []"
  by (auto simp: filter_empty_conv dest!: result_of_rules)

lemma same_track_filter:
  "alerts_for rid (t_track_id t) (snd (cadence_rules dc t rules states)) =
   filter (\<lambda>g. g_rule_id g = rid) (snd (cadence_rules dc t rules states))"
  by (rule filter_cong) (auto dest!: result_of_rules)

lemma cadence_refines_key:
  assumes "distinct (map r_id rules)" "r \<in> set rules" "wf_dict states"
    and "plain_id (t_track_id t)" "plain_id (t_track_id t')"
  shows "dict_get (fst (cadence_update rules dc states t')) (guard_key r t) =
           fst (key_update dc r (t_track_id t) (dict_get states (guard_key r t)) t')"
    and "alerts_for (r_id r) (t_track_id t) (snd (cadence_update rules dc states t')) =
           snd (key_update dc r (t_track_id t) (dict_get states (guard_key r t)) t')"
proof -
  have "dict_get (fst (cadence_rules dc t' rules states)) (guard_key r t) =
          (if t_track_id t' = t_track_id t then fst (key_step dc r t' (dict_get states (guard_key r t)))
           else dict_get states (guard_key r t)) \<and>
        alerts_for (r_id r) (t_track_id t) (snd (cadence_rules dc t' rules states)) =
          (if t_track_id t' = t_track_id t then snd (key_step dc r t' (dict_get states (guard_key r t)))
           else [])"
  proof (cases "t_track_id t' = t_track_id t")
    case True
    then have key: "guard_key r t = guard_key r t'" by (simp add: guard_key_def)
    obtain before where
      b: "dict_get before (guard_key r t') = dict_get states (guard_key r t')"
      "dict_get (fst (cadence_rules dc t' rules states)) (guard_key r t') =
         dict_get (fst (cadence_rule dc t' before r)) (guard_key r t')"
      "filter (\<lambda>g. g_rule_id g = r_id r) (snd (cadence_rules dc t' rules states)) =
         snd (cadence_rule dc t' before r)"
      using rules_split [OF assms(1,2), of t' states dc] assms(5) by (auto simp: plain_id_def)
    then show ?thesis
      using True key same_track_filter [of "r_id r" t' dc rules states]
      by (simp add: cadence_rule_key)
  next
    case False
    have "\<forall>x\<in>set rules. guard_key r t \<noteq> guard_key x t'"
      using False assms(4,5) by (metis guard_key_inj plain_id_def)
    with False show ?thesis
      by (simp add: cadence_rules_other other_track_silent)
  qed
  then show
    "dict_get (fst (cadence_update rules dc states t')) (guard_key r t) =
       fst (key_update dc r (t_track_id t) (dict_get states (guard_key r t)) t')"
    "alerts_for (r_id r) (t_track_id t) (snd (cadence_update rules dc states t')) =
       snd (key_update dc r (t_track_id t) (dict_get states (guard_key r t)) t')"
    using assms(3)
    by (auto simp: cadence_update_simps cadence_gc_get cadence_rules_wf key_update_def key_gc_def
          split: prod.split option.split)
qed

section \<open>No repetition while active, spacing by the cooldown\<close>

lemma key_step_active_silent:
  assumes "key_active st" and "rule_matches r t True None"
  shows "snd (key_step dc r t st) = [] \<and> key_active (fst (key_step dc r t st))"
  using assms
  by (auto simp: key_step_def key_active_def Let_def suppressed_def note_match_def split: option.splits)

lemma key_gc_active [simp]: "key_active st \<Longrightarrow> key_gc now st = st"
  by (auto simp: key_gc_def key_active_def gc_drops_def split: option.splits)

lemma key_update_active_silent:
  assumes "key_active st" and "t_track_id t = tid \<longrightarrow> rule_matches r t True None"
  shows "snd (key_update dc r tid st t) = [] \<and> key_active (fst (key_update dc r tid st t))"
  using assms key_step_active_silent [of st r t dc]
  by (auto simp: key_update_def split: prod.split)

text \<open>
  \<open>pub_known now p st\<close>: a publication at time \<open>p\<close> is either still recorded in the
  key's state or older than the sweep's time to live.
\<close>

definition pub_known :: "real \<Rightarrow> real \<Rightarrow> key_state option \<Rightarrow> bool" where
  "pub_known now p st \<longleftrightarrow> 0 < p \<and> p \<le> now \<and>
     ((\<exists>s. st = Some s \<and> p \<le> k_last_publish s) \<or> now - p > gc_ttl_s)"

lemma note_match_pub [simp]: "k_last_publish (note_match now md (Some s)) = k_last_publish s"
  by (simp add: note_match_def Let_def)

lemma key_step_pub_known:
  assumes "pub_known now p st" and "now \<le> ts_epoch t"
  shows "pub_known (ts_epoch t) p (fst (key_step dc r t st))"
  using assms
  by (auto simp: pub_known_def key_step_def Let_def key_active_def drop_match_def split: option.splits)

lemma key_step_spacing:
  assumes "pub_known now p st" and "now \<le> ts_epoch t"
    and "snd (key_step dc r t st) \<noteq> []"
  shows "ts_epoch t - p \<ge> min (rule_cooldown dc r) gc_ttl_s"
proof -
  let ?md = "max 0 (r_min_duration_s r)"
  have ns: "\<not> suppressed (ts_epoch t) ?md (rule_cooldown dc r) (note_match (ts_epoch t) ?md st)"
    using assms(3) by (auto simp: key_step_def Let_def split: if_splits)
  consider s where "st = Some s" "p \<le> k_last_publish s" | "now - p > gc_ttl_s"
    using assms(1) by (auto simp: pub_known_def)
  then show ?thesis
  proof cases
    case 1
    with ns assms(1,2) show ?thesis
      by (cases "rule_cooldown dc r = 0") (auto simp: suppressed_def pub_known_def)
  next
    case 2
    with assms(2) show ?thesis by linarith
  qed
qed

lemma key_step_published:
  assumes "snd (key_step dc r t st) \<noteq> []" and "0 < ts_epoch t"
  shows "pub_known (ts_epoch t) (ts_epoch t) (fst (key_step dc r t st))"
  using assms by (auto simp: key_step_def Let_def pub_known_def split: if_splits)

lemma key_gc_pub_known: "pub_known now p st \<Longrightarrow> pub_known now p (key_gc now st)"
  by (auto simp: pub_known_def key_gc_def gc_drops_def gc_last_def split: option.splits if_splits)

lemma key_update_pub_known:
  assumes "pub_known now p st" and "now \<le> ts_epoch t"
  shows "pub_known (ts_epoch t) p (fst (key_update dc r tid st t))"
proof -
  have "pub_known (ts_epoch t) p st"
    using assms by (auto simp: pub_known_def)
  then show ?thesis
    using key_step_pub_known [OF assms, of dc r]
    by (auto simp: key_update_def intro: key_gc_pub_known split: prod.split)
qed

lemma key_update_out:
  "snd (key_update dc r tid st t) \<noteq> [] \<Longrightarrow>
   t_track_id t = tid \<and> snd (key_step dc r t st) \<noteq> [] \<and>
   fst (key_update dc r tid st t) = key_gc (ts_epoch t) (fst (key_step dc r t st))"
  by (auto simp: key_update_def split: prod.splits if_splits)

lemma key_update_published:
  assumes "snd (key_update dc r tid st t) \<noteq> []" and "0 < ts_epoch t"
  shows "pub_known (ts_epoch t) (ts_epoch t) (fst (key_update dc r tid st t))"
  using key_update_out [OF assms(1)] key_step_published [OF _ assms(2)]
  by (auto intro: key_gc_pub_known)

section \<open>Properties of whole runs\<close>

definition alert_times :: "string \<Rightarrow> string \<Rightarrow> (real \<times> guard_result list) list \<Rightarrow> real list" where
  "alert_times rid tid run = map fst (filter (\<lambda>(now, out). alerts_for rid tid out \<noteq> []) run)"

lemma alert_times_Cons:
  "alert_times rid tid ((now, out) # run) =
     (if alerts_for rid tid out = [] then alert_times rid tid run else now # alert_times rid tid run)"
  by (simp add: alert_times_def)

lemma alerts_after_publication:
  fixes t :: radar_track and ts :: "radar_track list"
  assumes "distinct (map r_id rules)" "r \<in> set rules"
    and "plain_id (t_track_id t)" "\<forall>x\<in>set ts. plain_id (t_track_id x)"
    and "wf_dict states" "pub_known now p (dict_get states (guard_key r t))"
    and "sorted (now # map ts_epoch ts)"
    and "tau \<in> set (alert_times (r_id r) (t_track_id t) (snd (cadence_run rules dc states ts)))"
  shows "tau - p \<ge> min (rule_cooldown dc r) gc_ttl_s"
  using assms(4-)
proof (induction ts arbitrary: states now)
  case Nil
  then show ?case by (simp add: alert_times_def)
next
  case (Cons x xs)
  let ?st = "dict_get states (guard_key r t)"
  let ?u = "key_update dc r (t_track_id t) ?st x"
  note ref = cadence_refines_key [OF assms(1,2) Cons.prems(2) assms(3), of x dc]
  have le: "now \<le> ts_epoch x" and plain: "plain_id (t_track_id x)" using Cons.prems by auto
  have known: "pub_known (ts_epoch x) p (fst ?u)"
    by (rule key_update_pub_known [OF Cons.prems(3) le])
  show ?case
  proof (cases "tau = ts_epoch x \<and> snd ?u \<noteq> []")
    case True
    with key_update_out have "snd (key_step dc r x ?st) \<noteq> []" by blast
    from key_step_spacing [OF Cons.prems(3) le this] True show ?thesis by simp
  next
    case False
    with Cons.prems(5) ref(2) [OF plain] have
      "tau \<in> set (alert_times (r_id r) (t_track_id t)
                  (snd (cadence_run rules dc (fst (cadence_update rules dc states x)) xs)))"
      by (auto simp: alert_times_Cons split: if_splits)
    then show ?thesis
      by (rule Cons.IH [rotated -1, of "fst (cadence_update rules dc states x)" "ts_epoch x"])
         (use Cons.prems known ref(1) [OF plain] in \<open>auto simp: cadence_update_wf\<close>)
  qed
qed

lemma alert_times_spaced:
  fixes t :: radar_track and ts :: "radar_track list"
  assumes "distinct (map r_id rules)" "r \<in> set rules"
    and "plain_id (t_track_id t)" "\<forall>x\<in>set ts. plain_id (t_track_id x) \<and> 0 < ts_epoch x"
    and "wf_dict states" "sorted (map ts_epoch ts)"
  shows "sorted_wrt (\<lambda>a b. b - a \<ge> min (rule_cooldown dc r) gc_ttl_s)
           (alert_times (r_id r) (t_track_id t) (snd (cadence_run rules dc states ts)))"
  using assms(4-)
proof (induction ts arbitrary: states)
  case Nil
  then show ?case by (simp add: alert_times_def)
next
  case (Cons x xs)
  let ?states' = "fst (cadence_update rules dc states x)"
  let ?rest = "alert_times (r_id r) (t_track_id t) (snd (cadence_run rules dc ?states' xs))"
  let ?u = "key_update dc r (t_track_id t) (dict_get states (guard_key r t)) x"
  have plain: "plain_id (t_track_id x)" and pos: "0 < ts_epoch x" using Cons.prems by auto
  note ref = cadence_refines_key [OF assms(1,2) Cons.prems(2) assms(3) plain, of dc]
  have rest: "sorted_wrt (\<lambda>a b. b - a \<ge> min (rule_cooldown dc r) gc_ttl_s) ?rest"
    using Cons by (simp add: cadence_update_wf)
  have "\<forall>tau\<in>set ?rest. tau - ts_epoch x \<ge> min (rule_cooldown dc r) gc_ttl_s" if "snd ?u \<noteq> []"
  proof
    fix tau
    assume tau: "tau \<in> set ?rest"
    show "tau - ts_epoch x \<ge> min (rule_cooldown dc r) gc_ttl_s"
      by (rule alerts_after_publication [OF assms(1-3) _ _ _ _ tau])
         (use Cons.prems key_update_published [OF that pos] ref(1) in \<open>auto simp: cadence_update_wf\<close>)
  qed
  with rest ref(2) show ?case by (simp add: alert_times_Cons)
qed

lemma active_run_silent:
  fixes t :: radar_track and ts :: "radar_track list"
  assumes "distinct (map r_id rules)" "r \<in> set rules"
    and "plain_id (t_track_id t)" "\<forall>x\<in>set ts. plain_id (t_track_id x)"
    and "wf_dict states" "key_active (dict_get states (guard_key r t))"
    and "\<forall>x\<in>set ts. t_track_id x = t_track_id t \<longrightarrow> rule_matches r x True None"
  shows "alert_times (r_id r) (t_track_id t) (snd (cadence_run rules dc states ts)) = [] \<and>
         key_active (dict_get (fst (cadence_run rules dc states ts)) (guard_key r t))"
  using assms(4-)
proof (induction ts arbitrary: states)
  case Nil
  then show ?case by (simp add: alert_times_def)
next
  case (Cons x xs)
  have plain: "plain_id (t_track_id x)" using Cons.prems by auto
  note ref = cadence_refines_key [OF assms(1,2) Cons.prems(2) assms(3) plain, of dc]
  have "snd (key_update dc r (t_track_id t) (dict_get states (guard_key r t)) x) = [] \<and>
        key_active (fst (key_update dc r (t_track_id t) (dict_get states (guard_key r t)) x))"
    by (rule key_update_active_silent) (use Cons.prems in auto)
  with Cons ref show ?case by (simp add: alert_times_Cons cadence_update_wf)
qed

text \<open>A rule, a track inside its band and the table with that rule alone, for concrete runs.\<close>

definition demo_rule :: guard_rule where
  "demo_rule =
     \<lparr>r_id = ''CLOSE'', r_description = ''contact close'', r_severity = ''critical'',
      r_fsm_event = ''RADAR_ALERT_UNKNOWN_CLOSE'', r_iff = None, r_require_transponder_on = None,
      r_allowed_modes = None, r_min_range_m = 0, r_max_range_m = Some 70, r_min_quality = 0.2,
      r_max_radial_velocity = None, r_min_duration_s = 0, r_cooldown_s = Fin 60,
      r_cooldown_set = True, r_hysteresis_m = 5\<rparr>"

definition demo_track :: "string \<Rightarrow> real \<Rightarrow> real \<Rightarrow> radar_track" where
  "demo_track tid range_m now =
     \<lparr>t_track_id = tid, t_iff = FF_UNKNOWN, t_transponder_on = False, t_transponder_mode = XP_OFF,
      t_transponder_id = None, t_quality = 1, t_status = TS_TRACKED, t_range_m = range_m,
      t_bearing_deg = 0, t_elev_deg = 0, t_vr_mps = 0, t_snr_db = 10, t_rcs_dbsm = 1,
      t_position = None, t_velocity = None, t_age_s = 0, t_miss_count = 0, t_timestamp = now,
      t_range_band = RR_UNSPECIFIED, t_id_present = None\<rparr>"

lemmas cadence_eval = demo_rule_def demo_track_def cadence_run.simps cadence_update_def
  cadence_rules.simps cadence_rule_def cadence_gc_def gc_drops_def gc_last_def gc_ttl_s_def
  note_match_def suppressed_def drop_match_def rule_matches_def rule_cooldown_def guard_key_def
  ts_epoch_def opt_zero_def build_result_def key_active_def plain_id_def alert_times_def

text \<open>
  Anti-spam: while an alert is active and every update of its track still matches the
  rule (with the widened range band), no further alert for that rule and track is published, and
  the alert is still active afterwards.
\<close>

theorem cadence_no_repeat_while_active:
  fixes t :: radar_track and ts :: "radar_track list"
  assumes "distinct (map r_id rules)" "r \<in> set rules"
    and "plain_id (t_track_id t)" "\<forall>x\<in>set ts. plain_id (t_track_id x)"
    and "wf_dict states" "\<exists>s. dict_get states (guard_key r t) = Some s \<and> k_active s"
    and "\<forall>x\<in>set ts. t_track_id x = t_track_id t \<longrightarrow> rule_matches r x True None"
  shows "alert_times (r_id r) (t_track_id t) (snd (cadence_run rules dc states ts)) = [] \<and>
         (\<exists>s. dict_get (fst (cadence_run rules dc states ts)) (guard_key r t) = Some s \<and> k_active s)"
  using active_run_silent [OF assms(1-5) _ assms(7), of dc] assms(6)
  by (auto simp: key_active_def split: option.splits)

theorem cadence_no_repeat_while_active_witness:
  "alert_times ''CLOSE'' ''T1''
     (snd (cadence_run [demo_rule] 2
        [(''CLOSE:T1'', \<lparr>k_first_match = 100, k_last_match = 100, k_last_publish = 100, k_active = True\<rparr>)]
        [demo_track ''T1'' 72 101, demo_track ''T2'' 10 102, demo_track ''T1'' 60 300])) = []"
  using cadence_no_repeat_while_active
    [of "[demo_rule]" demo_rule "demo_track ''T1'' 60 0"
        "[demo_track ''T1'' 72 101, demo_track ''T2'' 10 102, demo_track ''T1'' 60 300]"
        "[(''CLOSE:T1'', \<lparr>k_first_match = 100, k_last_match = 100, k_last_publish = 100, k_active = True\<rparr>)]" 2]
  by (simp add: demo_rule_def demo_track_def plain_id_def guard_key_def wf_dict_def rule_matches_def)

text \<open>
  C2. Cooldown: two alerts of the same rule and track are at least the rule's cooldown apart, or 300
  seconds where the cooldown is longer than that: an idle key is swept 300 seconds after its last
  alert and its cooldown is forgotten with it. This holds in every run that starts without state, with rule
  ids that are distinct, track ids without a colon (they are UUIDs) and updates whose event times
  are positive and do not go back.
\<close>

theorem cadence_cooldown_spacing:
  fixes ts :: "radar_track list"
  assumes "distinct (map r_id rules)" "r \<in> set rules"
    and "plain_id tid" "\<forall>x\<in>set ts. plain_id (t_track_id x) \<and> 0 < ts_epoch x"
    and "sorted (map ts_epoch ts)"
  shows "sorted_wrt (\<lambda>a b. b - a \<ge> min (rule_cooldown dc r) 300)
           (alert_times (r_id r) tid (snd (cadence_run rules dc [] ts)))"
  using alert_times_spaced [OF assms(1,2), of "demo_track tid 0 0" ts "[]" dc] assms
  by (simp add: gc_ttl_s_def demo_track_def)

theorem cadence_cooldown_spacing_witness:
  "sorted_wrt (\<lambda>a b. b - a \<ge> (60::real))
     (alert_times ''CLOSE'' ''T1'' (snd (cadence_run [demo_rule] 2 []
        [demo_track ''T1'' 60 100, demo_track ''T1'' 90 110, demo_track ''T1'' 60 120,
         demo_track ''T1'' 60 170])))"
  using cadence_cooldown_spacing
    [of "[demo_rule]" demo_rule "''T1''"
        "[demo_track ''T1'' 60 100, demo_track ''T1'' 90 110, demo_track ''T1'' 60 120,
          demo_track ''T1'' 60 170]" 2]
  by (simp add: demo_rule_def demo_track_def plain_id_def ts_epoch_def rule_cooldown_def)

text \<open>The bound of 300 seconds is reached: with a cooldown of an hour the second alert comes after 302 seconds.\<close>

lemma long_cooldown_forgotten:
  "map fst (filter (\<lambda>(now, out). out \<noteq> []) (snd (cadence_run [demo_rule\<lparr>r_cooldown_s := Fin 3600\<rparr>] 2 []
     [demo_track ''T1'' 60 9000, demo_track ''T1'' 90 9010, demo_track ''T1'' 90 9301, demo_track ''T1'' 60 9302]))) =
   [9000, 9302]"
  by (simp add: cadence_eval)

end
