(* ===== verification/Track_Store.thy ===== *)
theory Track_Store
  imports Radar_Types "HOL-Library.Sublist"
begin

text \<open>
  The bridge's radar tracker (\<open>src/qiki/services/faststream_bridge/radar_track_store.py\<close>):
  fusion of long-range and short-range detections, association of detections to tracks, the
  alpha-beta update, misses, new tracks, pruning and serialisation, composed by
  \<open>process_frame\<close>. Tracks are a dictionary in insertion order. Associations carry the
  matched state; since a matched state leaves the candidates, each is updated at most once, and
  the in-place update of the object is the assignment under its key. \<open>uuid4\<close> is the
  argument \<open>fresh\<close>: the i-th identifier drawn while the frame is processed.
\<close>

section \<open>State\<close>

record track_state =
  s_track_id :: string
  s_position :: vec3
  s_velocity :: vec3
  s_created_at :: real
  s_last_update :: real
  s_snr_db :: real
  s_rcs_dbsm :: real
  s_transponder_on :: bool
  s_range_band :: range_band
  s_id_present :: "bool option"
  s_transponder_mode :: transponder_mode
  s_transponder_id :: "string option"
  s_hits :: int
  s_miss_count :: int

record tracker_config =
  c_alpha :: real
  c_beta :: real
  c_max_association_distance :: real
  c_max_radial_velocity_delta :: real
  c_max_handoff_bearing_delta :: real
  c_max_handoff_elevation_delta :: real
  c_max_misses :: int
  c_min_hits :: int
  c_reference_snr :: real

definition make_config ::
  "real \<Rightarrow> real \<Rightarrow> real \<Rightarrow> real \<Rightarrow> real \<Rightarrow> real \<Rightarrow> int \<Rightarrow> int \<Rightarrow> real \<Rightarrow> tracker_config" where
  "make_config alpha beta max_dist max_rad max_bearing max_elev max_misses min_hits ref_snr =
     \<lparr>c_alpha = alpha, c_beta = beta, c_max_association_distance = max_dist,
      c_max_radial_velocity_delta = max_rad,
      c_max_handoff_bearing_delta = max max_bearing 0,
      c_max_handoff_elevation_delta = max max_elev 0,
      c_max_misses = max max_misses 1, c_min_hits = max min_hits 1,
      c_reference_snr = max ref_snr 1\<rparr>"

definition default_config :: tracker_config where
  "default_config = make_config 0.6 0.1 12 15 0.5 0.5 3 2 20"

type_synonym tracks = "(string, track_state) dict"

section \<open>Geometry\<close>

definition vec_add :: "vec3 \<Rightarrow> vec3 \<Rightarrow> vec3" where
  "vec_add a b = \<lparr>vx = vx a + vx b, vy = vy a + vy b, vz = vz a + vz b\<rparr>"

definition vec_scale :: "real \<Rightarrow> vec3 \<Rightarrow> vec3" where
  "vec_scale k a = \<lparr>vx = vx a * k, vy = vy a * k, vz = vz a * k\<rparr>"

definition vec_norm :: "vec3 \<Rightarrow> real" where
  "vec_norm v = sqrt ((vx v)\<^sup>2 + (vy v)\<^sup>2 + (vz v)\<^sup>2)"

definition euclidean_distance :: "vec3 \<Rightarrow> vec3 \<Rightarrow> real" where
  "euclidean_distance a b = sqrt ((vx a - vx b)\<^sup>2 + (vy a - vy b)\<^sup>2 + (vz a - vz b)\<^sup>2)"

definition cartesian_to_elevation :: "vec3 \<Rightarrow> real" where
  "cartesian_to_elevation v = degrees (atan2 (vz v) (sqrt ((vx v)\<^sup>2 + (vy v)\<^sup>2)))"

definition unit_vector :: "vec3 \<Rightarrow> vec3" where
  "unit_vector v =
     (let norm = vec_norm v
      in if norm = 0 then \<lparr>vx = 0, vy = 0, vz = 0\<rparr>
         else \<lparr>vx = vx v / norm, vy = vy v / norm, vz = vz v / norm\<rparr>)"

definition project_velocity_to_radial :: "vec3 \<Rightarrow> vec3 \<Rightarrow> real" where
  "project_velocity_to_radial velocity position =
     (let u = unit_vector position
      in vx velocity * vx u + vy velocity * vy u + vz velocity * vz u)"

definition blend_velocity :: "vec3 \<Rightarrow> vec3 \<Rightarrow> real \<Rightarrow> vec3" where
  "blend_velocity current measured beta =
     (let b = max (min beta 1) 0; inv_b = 1 - b
      in \<lparr>vx = vx current * inv_b + vx measured * b,
          vy = vy current * inv_b + vy measured * b,
          vz = vz current * inv_b + vz measured * b\<rparr>)"

definition det_position :: "detection \<Rightarrow> vec3" where
  "det_position d = polar_to_xyz (d_range_m d) (d_bearing_deg d) (d_elev_deg d)"

definition track_has_identity :: "track_state \<Rightarrow> bool" where
  "track_has_identity s \<longleftrightarrow>
     truthy_str (s_transponder_id s) \<or> s_id_present s = Some True \<or> s_transponder_mode s \<noteq> XP_OFF"

section \<open>Fusion of long-range and short-range detections\<close>

text \<open>The score of a long-range candidate for a short-range detection, if within tolerance.\<close>

definition fuse_score :: "detection list \<Rightarrow> nat list \<Rightarrow> nat \<Rightarrow> nat \<Rightarrow> (real \<times> real \<times> real) option" where
  "fuse_score dets consumed sr_idx lr_idx =
     (if lr_idx \<in> set consumed then None
      else
        let sr = dets ! sr_idx; lr = dets ! lr_idx;
            bd = bearing_delta_deg (d_bearing_deg sr) (d_bearing_deg lr)
        in if bd > 0.5 then None
           else let ed = \<bar>d_elev_deg sr - d_elev_deg lr\<bar>
             in if ed > 0.5 then None
                else let vd = \<bar>d_vr_mps sr - d_vr_mps lr\<bar>
                  in if vd > 1 then None else Some (bd + ed, vd, real lr_idx))"

text \<open>The best score starts at infinity, so any candidate within tolerance beats it.\<close>

fun fuse_loop :: "detection list \<Rightarrow> nat list \<Rightarrow> nat list \<Rightarrow> nat list \<Rightarrow> nat list" where
  "fuse_loop dets lrs consumed [] = consumed"
| "fuse_loop dets lrs consumed (sr # srs) =
     (case scan_best lt3 (fuse_score dets consumed sr) None lrs of
        None \<Rightarrow> fuse_loop dets lrs consumed srs
      | Some (_, lr) \<Rightarrow> fuse_loop dets lrs (lr # consumed) srs)"

definition band_indices :: "range_band \<Rightarrow> detection list \<Rightarrow> nat list" where
  "band_indices b dets = map fst (filter (\<lambda>(i, d). d_range_band d = b) (enumerate 0 dets))"

definition fuse_lr_sr_detections :: "detection list \<Rightarrow> detection list" where
  "fuse_lr_sr_detections dets =
     (let srs = band_indices RR_SR dets; lrs = band_indices RR_LR dets
      in if srs = [] \<or> lrs = [] then dets
         else
           let consumed = fuse_loop dets lrs [] srs
           in if consumed = [] then dets
              else map snd (filter (\<lambda>(i, d). i \<notin> set consumed) (enumerate 0 dets)))"

section \<open>Association\<close>

definition predict :: "track_state \<Rightarrow> real \<Rightarrow> vec3" where
  "predict s frame_ts =
     (let dt = max (frame_ts - s_last_update s) 0.05
      in vec_add (s_position s) (vec_scale dt (s_velocity s)))"

text \<open>The loop of \<open>_find_best_match\<close>: on equal distances the later candidate wins.\<close>

fun match_loop ::
  "tracker_config \<Rightarrow> detection \<Rightarrow> real \<Rightarrow> real \<Rightarrow> track_state option \<Rightarrow> track_state list \<Rightarrow> track_state option" where
  "match_loop c d frame_ts best_distance best [] = best"
| "match_loop c d frame_ts best_distance best (s # rest) =
     (let distance = euclidean_distance (predict s frame_ts) (det_position d)
      in if distance > best_distance then match_loop c d frame_ts best_distance best rest
         else if \<bar>d_vr_mps d - project_velocity_to_radial (s_velocity s) (det_position d)\<bar>
                   > c_max_radial_velocity_delta c
         then match_loop c d frame_ts best_distance best rest
         else match_loop c d frame_ts distance (Some s) rest)"

definition handoff_score :: "tracker_config \<Rightarrow> detection \<Rightarrow> track_state \<Rightarrow> (real \<times> real) option" where
  "handoff_score c d s =
     (if \<not> track_has_identity s then None
      else
        let bd = bearing_delta_deg (d_bearing_deg d)
                   (xyz_to_bearing_deg (vx (s_position s)) (vy (s_position s)))
        in if bd > c_max_handoff_bearing_delta c then None
           else let ed = \<bar>d_elev_deg d - cartesian_to_elevation (s_position s)\<bar>
             in if ed > c_max_handoff_elevation_delta c then None
                else let rd = \<bar>d_vr_mps d - project_velocity_to_radial (s_velocity s) (s_position s)\<bar>
                  in if rd > c_max_radial_velocity_delta c then None else Some (bd + ed, rd))"

definition find_handoff_match :: "tracker_config \<Rightarrow> detection \<Rightarrow> track_state list \<Rightarrow> track_state option" where
  "find_handoff_match c d candidates =
     (if d_range_band d \<noteq> RR_LR then None
      else map_option snd (scan_best lt2 (handoff_score c d) None candidates))"

definition find_best_match ::
  "tracker_config \<Rightarrow> detection \<Rightarrow> track_state list \<Rightarrow> real \<Rightarrow> track_state option" where
  "find_best_match c d candidates frame_ts =
     (if candidates = [] then None
      else case match_loop c d frame_ts (c_max_association_distance c) None candidates of
             Some s \<Rightarrow> Some s
           | None \<Rightarrow> find_handoff_match c d candidates)"

type_synonym association = "detection \<times> track_state option"

fun associate_loop ::
  "tracker_config \<Rightarrow> real \<Rightarrow> track_state list \<Rightarrow> detection list \<Rightarrow> association list" where
  "associate_loop c frame_ts available [] = []"
| "associate_loop c frame_ts available (d # ds) =
     (let m = find_best_match c d available frame_ts
      in (d, m) # associate_loop c frame_ts
                    (case m of None \<Rightarrow> available | Some s \<Rightarrow> remove1 s available) ds)"

definition associate :: "tracker_config \<Rightarrow> tracks \<Rightarrow> detection list \<Rightarrow> real \<Rightarrow> association list" where
  "associate c tracks ds frame_ts = associate_loop c frame_ts (dict_values tracks) ds"

section \<open>Update, miss, spawn, prune\<close>

definition update_identity :: "detection \<Rightarrow> track_state \<Rightarrow> track_state" where
  "update_identity d s =
     (if d_range_band d = RR_SR
      then s\<lparr>s_transponder_on := d_transponder_on d, s_transponder_mode := d_transponder_mode d,
             s_transponder_id := d_transponder_id d,
             s_id_present := Some (case d_id_present d of Some b \<Rightarrow> b
                                   | None \<Rightarrow> truthy_str (d_transponder_id d))\<rparr>
      else s)"

definition update_track :: "tracker_config \<Rightarrow> real \<Rightarrow> detection \<Rightarrow> track_state \<Rightarrow> track_state" where
  "update_track c frame_ts d s =
     (let measured = det_position d;
          predicted = predict s frame_ts;
          residual = \<lparr>vx = vx measured - vx predicted, vy = vy measured - vy predicted,
                      vz = vz measured - vz predicted\<rparr>;
          s1 = s\<lparr>s_position := vec_add predicted (vec_scale (c_alpha c) residual),
                 s_velocity := blend_velocity (s_velocity s)
                                 (vec_scale (d_vr_mps d) (unit_vector measured)) (c_beta c),
                 s_snr_db := (s_snr_db s + d_snr_db d) / 2,
                 s_rcs_dbsm := d_rcs_dbsm d,
                 s_range_band := d_range_band d\<rparr>
      in (update_identity d s1)\<lparr>s_last_update := frame_ts, s_hits := s_hits s + 1, s_miss_count := 0\<rparr>)"

fun update_associated_tracks ::
  "tracker_config \<Rightarrow> real \<Rightarrow> association list \<Rightarrow> tracks \<Rightarrow> tracks" where
  "update_associated_tracks c frame_ts [] tracks = tracks"
| "update_associated_tracks c frame_ts ((d, None) # rest) tracks =
     update_associated_tracks c frame_ts rest tracks"
| "update_associated_tracks c frame_ts ((d, Some s) # rest) tracks =
     update_associated_tracks c frame_ts rest
       (dict_set tracks (s_track_id s) (update_track c frame_ts d s))"

definition updated_ids :: "association list \<Rightarrow> string list" where
  "updated_ids assocs = map s_track_id (List.map_filter snd assocs)"

definition update_missed_tracks :: "string list \<Rightarrow> tracks \<Rightarrow> tracks" where
  "update_missed_tracks ids tracks =
     map (\<lambda>(k, s). (k, if k \<in> set ids then s else s\<lparr>s_miss_count := s_miss_count s + 1\<rparr>)) tracks"

definition new_track :: "string \<Rightarrow> real \<Rightarrow> detection \<Rightarrow> track_state" where
  "new_track tid frame_ts d =
     (let position = det_position d; sr = (d_range_band d = RR_SR)
      in \<lparr>s_track_id = tid, s_position = position,
          s_velocity = vec_scale (d_vr_mps d) (unit_vector position),
          s_created_at = frame_ts, s_last_update = frame_ts, s_snr_db = d_snr_db d,
          s_rcs_dbsm = d_rcs_dbsm d,
          s_transponder_on = (if sr then d_transponder_on d else False),
          s_range_band = d_range_band d,
          s_id_present = (if sr then Some (case d_id_present d of Some b \<Rightarrow> b
                                           | None \<Rightarrow> truthy_str (d_transponder_id d))
                          else if d_range_band d = RR_LR then Some False else None),
          s_transponder_mode = (if sr then d_transponder_mode d else XP_OFF),
          s_transponder_id = (if sr then d_transponder_id d else None),
          s_hits = 1, s_miss_count = 0\<rparr>)"

fun spawn_new_tracks ::
  "(nat \<Rightarrow> string) \<Rightarrow> nat \<Rightarrow> real \<Rightarrow> association list \<Rightarrow> tracks \<Rightarrow> tracks" where
  "spawn_new_tracks fresh n frame_ts [] tracks = tracks"
| "spawn_new_tracks fresh n frame_ts ((d, Some s) # rest) tracks =
     spawn_new_tracks fresh n frame_ts rest tracks"
| "spawn_new_tracks fresh n frame_ts ((d, None) # rest) tracks =
     spawn_new_tracks fresh (Suc n) frame_ts rest
       (dict_set tracks (fresh n) (new_track (fresh n) frame_ts d))"

definition prune_lost_tracks :: "tracker_config \<Rightarrow> tracks \<Rightarrow> tracks" where
  "prune_lost_tracks c tracks = filter (\<lambda>(k, s). \<not> s_miss_count s > c_max_misses c) tracks"

section \<open>Serialisation\<close>

definition compute_quality :: "tracker_config \<Rightarrow> track_state \<Rightarrow> real" where
  "compute_quality c s =
     (let miss_factor = real_of_int (max (c_max_misses c - s_miss_count s) 0)
                          / real_of_int (c_max_misses c);
          snr_factor = min (s_snr_db s / c_reference_snr c) 1
      in max (min (miss_factor * snr_factor) 1) 0)"

definition track_status_of :: "tracker_config \<Rightarrow> track_state \<Rightarrow> track_status" where
  "track_status_of c s =
     (if \<not> s_hits s \<ge> c_min_hits c then (if s_miss_count s = 0 then TS_NEW else TS_LOST)
      else if s_miss_count s = 0 then TS_TRACKED
      else if s_miss_count s \<le> c_max_misses c then TS_COASTING
      else TS_LOST)"

definition serialize_track :: "tracker_config \<Rightarrow> real \<Rightarrow> track_state \<Rightarrow> radar_track" where
  "serialize_track c frame_ts s =
     (let band = (if s_range_band s = RR_LR \<and> track_has_identity s then RR_UNSPECIFIED
                  else s_range_band s)
      in \<lparr>t_track_id = s_track_id s, t_iff = FF_UNKNOWN, t_transponder_on = s_transponder_on s,
          t_transponder_mode = s_transponder_mode s, t_transponder_id = s_transponder_id s,
          t_quality = compute_quality c s, t_status = track_status_of c s,
          t_range_m = vec_norm (s_position s),
          t_bearing_deg = xyz_to_bearing_deg (vx (s_position s)) (vy (s_position s)),
          t_elev_deg = cartesian_to_elevation (s_position s),
          t_vr_mps = project_velocity_to_radial (s_velocity s) (s_position s),
          t_snr_db = max (s_snr_db s) 0, t_rcs_dbsm = s_rcs_dbsm s,
          t_position = Some (s_position s), t_velocity = Some (s_velocity s),
          t_age_s = max (frame_ts - s_created_at s) 0, t_miss_count = s_miss_count s,
          t_timestamp = frame_ts, t_range_band = band, t_id_present = s_id_present s\<rparr>)"

text \<open>Building the model runs its validators; \<open>None\<close> is the \<open>ValidationError\<close>.\<close>

definition build_track :: "tracker_config \<Rightarrow> real \<Rightarrow> track_state \<Rightarrow> radar_track option" where
  "build_track c frame_ts s =
     (let t = serialize_track c frame_ts s in if track_valid t then Some t else None)"

definition serialize_tracks :: "tracker_config \<Rightarrow> real \<Rightarrow> tracks \<Rightarrow> radar_track list option" where
  "serialize_tracks c frame_ts tracks = those (map (build_track c frame_ts) (dict_values tracks))"

section \<open>The frame handler\<close>

definition advance :: "tracker_config \<Rightarrow> (nat \<Rightarrow> string) \<Rightarrow> frame \<Rightarrow> tracks \<Rightarrow> tracks" where
  "advance c fresh f tracks =
     (let frame_ts = f_timestamp f;
          ds = fuse_lr_sr_detections (f_detections f);
          assocs = associate c tracks ds frame_ts;
          tracks1 = update_associated_tracks c frame_ts assocs tracks;
          tracks2 = update_missed_tracks (updated_ids assocs) tracks1;
          tracks3 = spawn_new_tracks fresh 0 frame_ts assocs tracks2
      in prune_lost_tracks c tracks3)"

definition process_frame ::
  "tracker_config \<Rightarrow> (nat \<Rightarrow> string) \<Rightarrow> frame \<Rightarrow> tracks \<Rightarrow> tracks \<times> radar_track list option" where
  "process_frame c fresh f tracks =
     (let tracks' = advance c fresh f tracks
      in (tracks', serialize_tracks c (f_timestamp f) tracks'))"


section \<open>Fusion lemmas\<close>

lemma band_indices_bound: "i \<in> set (band_indices b dets) \<Longrightarrow> i < length dets \<and> d_range_band (dets ! i) = b"
  by (auto simp: band_indices_def in_set_enumerate_eq)

lemma fuse_score_tol:
  "fuse_score dets consumed sr lr = Some x \<Longrightarrow>
     lr \<notin> set consumed \<and>
     bearing_delta_deg (d_bearing_deg (dets ! sr)) (d_bearing_deg (dets ! lr)) \<le> 0.5 \<and>
     \<bar>d_elev_deg (dets ! sr) - d_elev_deg (dets ! lr)\<bar> \<le> 0.5 \<and>
     \<bar>d_vr_mps (dets ! sr) - d_vr_mps (dets ! lr)\<bar> \<le> 1"
  by (auto simp: fuse_score_def Let_def split: if_splits)

definition within_fuse_tolerance :: "detection \<Rightarrow> detection \<Rightarrow> bool" where
  "within_fuse_tolerance sr lr \<longleftrightarrow>
     bearing_delta_deg (d_bearing_deg sr) (d_bearing_deg lr) \<le> 0.5 \<and>
     \<bar>d_elev_deg sr - d_elev_deg lr\<bar> \<le> 0.5 \<and> \<bar>d_vr_mps sr - d_vr_mps lr\<bar> \<le> 1"

lemma fuse_pick:
  assumes "scan_best lt3 (fuse_score dets consumed sr) None lrs = Some (x, lr)"
  shows "lr \<in> set lrs \<and> lr \<notin> set consumed \<and> within_fuse_tolerance (dets ! sr) (dets ! lr)"
  using scan_best_from_list [OF assms] fuse_score_tol [of dets consumed sr lr x]
  by (auto simp: within_fuse_tolerance_def)

lemma fuse_loop_spec:
  "distinct consumed \<Longrightarrow>
     distinct (fuse_loop dets lrs consumed srs) \<and>
     length (fuse_loop dets lrs consumed srs) \<le> length consumed + length srs \<and>
     set (fuse_loop dets lrs consumed srs) \<subseteq>
       set consumed \<union> {lr \<in> set lrs. \<exists>sr\<in>set srs. within_fuse_tolerance (dets ! sr) (dets ! lr)}"
proof (induction srs arbitrary: consumed)
  case Nil
  then show ?case by simp
next
  case (Cons sr srs)
  show ?case
  proof (cases "scan_best lt3 (fuse_score dets consumed sr) None lrs")
    case None
    with Cons.IH [OF Cons.prems] show ?thesis by auto
  next
    case (Some p)
    obtain x lr where p: "p = (x, lr)" by (cases p)
    note pick = fuse_pick [OF Some [unfolded p]]
    then have "distinct (lr # consumed)" using Cons.prems by simp
    from Cons.IH [OF this] pick Some p show ?thesis by auto
  qed
qed

lemma length_filter_enumerate:
  "length (filter (\<lambda>(i, d). i \<notin> I) (enumerate n xs)) =
     length (filter (\<lambda>i. i \<notin> I) [n..<n + length xs])"
proof -
  have "filter (\<lambda>i. i \<notin> I) (map fst (enumerate n xs)) = map fst (filter (\<lambda>(i, d). i \<notin> I) (enumerate n xs))"
    by (simp only: filter_map o_def case_prod_unfold)
  then show ?thesis by (metis length_map map_fst_enumerate)
qed

lemma length_drop_indices:
  "length xs \<le> length (filter (\<lambda>(i, d). i \<notin> set I) (enumerate 0 xs)) + length I"
proof -
  have "length (filter (\<lambda>i. i \<in> set I) [0..<length xs]) \<le> length I"
    using distinct_length_filter [of "[0..<length xs]" "\<lambda>i. i \<in> set I"]
      card_mono [OF finite_set, of "{x. x < length xs \<and> x \<in> set I}" I] card_length [of I]
    by (fastforce simp: Int_def conj_commute intro: le_trans)
  then show ?thesis
    using sum_length_filter_compl [of "\<lambda>i. i \<in> set I" "[0..<length xs]"]
      length_filter_enumerate [of "set I" 0 xs] by simp
qed

lemma drop_indices_keep:
  "(\<And>i. i \<in> I \<Longrightarrow> i < n + length xs \<Longrightarrow> n \<le> i \<Longrightarrow> \<not> P (xs ! (i - n))) \<Longrightarrow>
     filter P (map snd (filter (\<lambda>(i, d). i \<notin> I) (enumerate n xs))) = filter P xs"
proof (induction xs arbitrary: n)
  case Nil
  then show ?case by simp
next
  case (Cons x xs)
  have "filter P (map snd (filter (\<lambda>(i, d). i \<notin> I) (enumerate (Suc n) xs))) = filter P xs"
  proof (rule Cons.IH)
    fix i assume "i \<in> I" "i < Suc n + length xs" "Suc n \<le> i"
    with Cons.prems [of i] show "\<not> P (xs ! (i - Suc n))" by (simp add: nth_Cons')
  qed
  moreover have "n \<in> I \<Longrightarrow> \<not> P x" using Cons.prems [of n] by simp
  ultimately show ?case by auto
qed

lemma subseq_drop_indices: "subseq (map snd (filter P (enumerate n xs))) xs"
proof -
  have "subseq (filter P (enumerate n xs)) (enumerate n xs)" by (rule subseq_filter_left)
  then have "subseq (map snd (filter P (enumerate n xs))) (map snd (enumerate n xs))"
    by (rule subseq_map)
  then show ?thesis by simp
qed

text \<open>The indices removed by the fusion, in every case of the code.\<close>

definition fused_away :: "detection list \<Rightarrow> nat list" where
  "fused_away dets =
     (let srs = band_indices RR_SR dets; lrs = band_indices RR_LR dets
      in if srs = [] \<or> lrs = [] then [] else fuse_loop dets lrs [] srs)"

lemma fuse_as_removal:
  "fuse_lr_sr_detections dets = map snd (filter (\<lambda>(i, d). i \<notin> set (fused_away dets)) (enumerate 0 dets))"
  by (simp add: fuse_lr_sr_detections_def fused_away_def Let_def case_prod_unfold)

lemma fused_away_spec:
  "length (fused_away dets) \<le> length (band_indices RR_SR dets) \<and>
   (\<forall>i\<in>set (fused_away dets). i < length dets \<and> d_range_band (dets ! i) = RR_LR \<and>
      (\<exists>sr\<in>set dets. d_range_band sr = RR_SR \<and> within_fuse_tolerance sr (dets ! i)))"
proof (cases "band_indices RR_SR dets = [] \<or> band_indices RR_LR dets = []")
  case True
  then show ?thesis by (auto simp: fused_away_def)
next
  case False
  then have eq: "fused_away dets =
      fuse_loop dets (band_indices RR_LR dets) [] (band_indices RR_SR dets)"
    by (simp add: fused_away_def)
  note spec = fuse_loop_spec [of "[]" dets "band_indices RR_LR dets" "band_indices RR_SR dets"]
  show ?thesis
  proof (intro conjI ballI)
    show "length (fused_away dets) \<le> length (band_indices RR_SR dets)"
      using spec eq by simp
  next
    fix i assume "i \<in> set (fused_away dets)"
    then have i: "i \<in> set (band_indices RR_LR dets)"
      and "\<exists>sr\<in>set (band_indices RR_SR dets). within_fuse_tolerance (dets ! sr) (dets ! i)"
      using spec eq by auto
    then obtain j where j: "j \<in> set (band_indices RR_SR dets)"
      and tol: "within_fuse_tolerance (dets ! j) (dets ! i)" by auto
    have "dets ! j \<in> set dets" "d_range_band (dets ! j) = RR_SR"
      using band_indices_bound [OF j] by auto
    with tol show "\<exists>sr\<in>set dets. d_range_band sr = RR_SR \<and> within_fuse_tolerance sr (dets ! i)"
      by auto
    show "i < length dets" "d_range_band (dets ! i) = RR_LR" using band_indices_bound [OF i] by auto
  qed
qed

lemma length_band_indices: "length (band_indices b dets) = length (filter (\<lambda>d. d_range_band d = b) dets)"
proof -
  have "map snd (filter (\<lambda>p. d_range_band (snd p) = b) (enumerate 0 dets)) =
        filter (\<lambda>d. d_range_band d = b) (map snd (enumerate 0 dets))"
    by (simp only: filter_map o_def)
  then show ?thesis
    unfolding band_indices_def case_prod_unfold by (metis length_map map_snd_enumerate)
qed

lemma not_kept_was_fused:
  assumes "d \<in> set dets" "d \<notin> set (fuse_lr_sr_detections dets)"
  shows "\<exists>i\<in>set (fused_away dets). d = dets ! i"
proof -
  from assms(1) obtain i where i: "i < length dets" "d = dets ! i" by (auto simp: in_set_conv_nth)
  have "i \<in> set (fused_away dets)"
  proof (rule ccontr)
    assume "i \<notin> set (fused_away dets)"
    then have "(i, d) \<in> set (filter (\<lambda>(i, d). i \<notin> set (fused_away dets)) (enumerate 0 dets))"
      using i by (auto simp: in_set_enumerate_eq)
    then have "d \<in> set (fuse_lr_sr_detections dets)" unfolding fuse_as_removal by force
    with assms(2) show False ..
  qed
  with i show ?thesis by auto
qed


section \<open>Association lemmas\<close>

text \<open>The two gates under which a detection may be assigned to a track.\<close>

definition in_gate :: "tracker_config \<Rightarrow> real \<Rightarrow> detection \<Rightarrow> track_state \<Rightarrow> bool" where
  "in_gate c frame_ts d s \<longleftrightarrow>
     euclidean_distance (predict s frame_ts) (det_position d) \<le> c_max_association_distance c \<and>
     \<bar>d_vr_mps d - project_velocity_to_radial (s_velocity s) (det_position d)\<bar>
       \<le> c_max_radial_velocity_delta c"

definition in_handoff_gate :: "tracker_config \<Rightarrow> detection \<Rightarrow> track_state \<Rightarrow> bool" where
  "in_handoff_gate c d s \<longleftrightarrow>
     d_range_band d = RR_LR \<and> track_has_identity s \<and>
     bearing_delta_deg (d_bearing_deg d) (xyz_to_bearing_deg (vx (s_position s)) (vy (s_position s)))
       \<le> c_max_handoff_bearing_delta c \<and>
     \<bar>d_elev_deg d - cartesian_to_elevation (s_position s)\<bar> \<le> c_max_handoff_elevation_delta c \<and>
     \<bar>d_vr_mps d - project_velocity_to_radial (s_velocity s) (s_position s)\<bar>
       \<le> c_max_radial_velocity_delta c"

definition radial_ok :: "tracker_config \<Rightarrow> detection \<Rightarrow> track_state \<Rightarrow> bool" where
  "radial_ok c d s \<longleftrightarrow>
     \<bar>d_vr_mps d - project_velocity_to_radial (s_velocity s) (det_position d)\<bar>
       \<le> c_max_radial_velocity_delta c"

lemma match_loop_skip:
  "\<not> (euclidean_distance (predict x t) (det_position d) \<le> bd \<and> radial_ok c d x) \<Longrightarrow>
     match_loop c d t bd b (x # xs) = match_loop c d t bd b xs"
  by (auto simp: radial_ok_def Let_def)

lemma match_loop_take:
  "euclidean_distance (predict x t) (det_position d) \<le> bd \<Longrightarrow> radial_ok c d x \<Longrightarrow>
     match_loop c d t bd b (x # xs) =
     match_loop c d t (euclidean_distance (predict x t) (det_position d)) (Some x) xs"
  by (simp add: radial_ok_def Let_def)

declare match_loop.simps(2) [simp del]

lemma in_gate_radial: "in_gate c t d s \<longleftrightarrow>
   euclidean_distance (predict s t) (det_position d) \<le> c_max_association_distance c \<and> radial_ok c d s"
  by (simp add: in_gate_def radial_ok_def)

lemma match_loop_spec:
  assumes "match_loop c d t bd b ss = Some s" "bd \<le> c_max_association_distance c"
  shows "b = Some s \<or> (s \<in> set ss \<and> in_gate c t d s \<and>
           euclidean_distance (predict s t) (det_position d) \<le> bd)"
  using assms
proof (induction ss arbitrary: bd b)
  case Nil
  then show ?case by simp
next
  case (Cons x xs)
  let ?dx = "euclidean_distance (predict x t) (det_position d)"
  show ?case
  proof (cases "?dx \<le> bd \<and> radial_ok c d x")
    case False
    with Cons.prems(1) have "match_loop c d t bd b xs = Some s" by (simp add: match_loop_skip)
    from Cons.IH [OF this Cons.prems(2)] show ?thesis by auto
  next
    case True
    with Cons.prems have "match_loop c d t ?dx (Some x) xs = Some s"
      and "?dx \<le> c_max_association_distance c" by (auto simp: match_loop_take)
    from Cons.IH [OF this] True Cons.prems(2) show ?thesis by (auto simp: in_gate_radial)
  qed
qed

lemma match_loop_le:
  assumes "match_loop c d t bd b xs = Some s"
    and "\<And>x. b = Some x \<Longrightarrow> euclidean_distance (predict x t) (det_position d) = bd"
  shows "euclidean_distance (predict s t) (det_position d) \<le> bd"
  using assms
proof (induction xs arbitrary: bd b)
  case Nil
  then show ?case by simp
next
  case (Cons x xs)
  let ?dx = "euclidean_distance (predict x t) (det_position d)"
  show ?case
  proof (cases "?dx \<le> bd \<and> radial_ok c d x")
    case False
    with Cons.prems(1) have "match_loop c d t bd b xs = Some s" by (simp add: match_loop_skip)
    then show ?thesis using Cons.prems(2) by (rule Cons.IH)
  next
    case True
    with Cons.prems(1) have "match_loop c d t ?dx (Some x) xs = Some s" by (simp add: match_loop_take)
    from Cons.IH [OF this] True show ?thesis by simp
  qed
qed

lemma match_loop_minimal:
  assumes "match_loop c d t bd b xs = Some s" "s' \<in> set xs" "radial_ok c d s'"
    and "\<And>x. b = Some x \<Longrightarrow> euclidean_distance (predict x t) (det_position d) = bd"
  shows "euclidean_distance (predict s t) (det_position d)
           \<le> euclidean_distance (predict s' t) (det_position d)"
  using assms
proof (induction xs arbitrary: bd b)
  case Nil
  then show ?case by simp
next
  case (Cons x xs)
  let ?d = "\<lambda>x. euclidean_distance (predict x t) (det_position d)"
  show ?case
  proof (cases "?d x \<le> bd \<and> radial_ok c d x")
    case False
    with Cons.prems(1) have m: "match_loop c d t bd b xs = Some s" by (simp add: match_loop_skip)
    from False Cons.prems(2,3) have "s' \<in> set xs \<or> bd < ?d s'" by auto
    moreover have "?d s \<le> bd" using m Cons.prems(4) by (rule match_loop_le)
    ultimately show ?thesis using Cons.IH [OF m _ Cons.prems(3,4)] by auto
  next
    case True
    with Cons.prems(1) have m: "match_loop c d t (?d x) (Some x) xs = Some s"
      by (simp add: match_loop_take)
    have "?d s \<le> ?d x" using m by (rule match_loop_le) simp
    with Cons.IH [OF m _ Cons.prems(3)] Cons.prems(2) show ?thesis by auto
  qed
qed

lemma match_loop_finds:
  "b \<noteq> None \<or>
     (\<exists>s\<in>set xs. euclidean_distance (predict s t) (det_position d) \<le> bd \<and> radial_ok c d s) \<Longrightarrow>
   match_loop c d t bd b xs \<noteq> None"
proof (induction xs arbitrary: bd b)
  case Nil
  then show ?case by simp
next
  case (Cons x xs)
  show ?case
  proof (cases "euclidean_distance (predict x t) (det_position d) \<le> bd \<and> radial_ok c d x")
    case True
    then show ?thesis using Cons.IH [of "Some x"] by (simp add: match_loop_take)
  next
    case False
    then have "b \<noteq> None \<or>
        (\<exists>s\<in>set xs. euclidean_distance (predict s t) (det_position d) \<le> bd \<and> radial_ok c d s)"
      using Cons.prems by auto
    with False show ?thesis using Cons.IH [of b bd] by (simp add: match_loop_skip)
  qed
qed

lemma handoff_score_gate: "handoff_score c d s = Some x \<Longrightarrow> d_range_band d = RR_LR \<Longrightarrow> in_handoff_gate c d s"
  by (auto simp: handoff_score_def in_handoff_gate_def Let_def split: if_splits)

lemma find_best_match_spec:
  assumes "find_best_match c d cands t = Some s"
  shows "s \<in> set cands \<and> (in_gate c t d s \<or> in_handoff_gate c d s)"
proof (cases "match_loop c d t (c_max_association_distance c) None cands")
  case None
  with assms obtain x where b: "d_range_band d = RR_LR"
    and x: "scan_best lt2 (handoff_score c d) None cands = Some (x, s)"
    by (auto simp: find_best_match_def find_handoff_match_def split: if_splits)
  from scan_best_from_list [OF x] handoff_score_gate [of c d s x] b show ?thesis by auto
next
  case (Some s')
  with assms have "s' = s" by (auto simp: find_best_match_def split: if_splits)
  with match_loop_spec [OF Some] show ?thesis by auto
qed

lemma associate_loop_fst [simp]: "map fst (associate_loop c t avail ds) = ds"
  by (induction ds arbitrary: avail) (auto simp: Let_def)

lemma map_filter_simps' [simp]:
  "List.map_filter f [] = []"
  "List.map_filter f (x # xs) = (case f x of None \<Rightarrow> List.map_filter f xs | Some y \<Rightarrow> y # List.map_filter f xs)"
  by (auto simp: List.map_filter_def split: option.splits)

lemma associate_loop_matched:
  "distinct avail \<Longrightarrow>
     distinct (List.map_filter snd (associate_loop c t avail ds)) \<and>
     set (List.map_filter snd (associate_loop c t avail ds)) \<subseteq> set avail"
proof (induction ds arbitrary: avail)
  case Nil
  then show ?case by simp
next
  case (Cons d ds)
  show ?case
  proof (cases "find_best_match c d avail t")
    case None
    with Cons.IH [OF Cons.prems] show ?thesis by simp
  next
    case (Some s)
    have s: "s \<in> set avail" using find_best_match_spec [OF Some] by simp
    have "distinct (remove1 s avail)" using Cons.prems by (rule distinct_remove1)
    from Cons.IH [OF this] Some s Cons.prems show ?thesis by auto
  qed
qed

lemma associate_loop_gated:
  "(d, Some s) \<in> set (associate_loop c t avail ds) \<Longrightarrow> in_gate c t d s \<or> in_handoff_gate c d s"
proof (induction ds arbitrary: avail)
  case Nil
  then show ?case by simp
next
  case (Cons x xs)
  from Cons.prems have "(d = x \<and> find_best_match c x avail t = Some s) \<or>
      (\<exists>a. (d, Some s) \<in> set (associate_loop c t a xs))" by (auto simp: Let_def)
  with Cons.IH find_best_match_spec show ?case by blast
qed


section \<open>The tracker as a machine\<close>

definition tracks_wf :: "tracker_config \<Rightarrow> tracks \<Rightarrow> bool" where
  "tracks_wf c tracks \<longleftrightarrow> wf_dict tracks \<and>
     list_all (\<lambda>(k, s). s_track_id s = k \<and> 1 \<le> s_hits s \<and>
                 0 \<le> s_miss_count s \<and> s_miss_count s \<le> c_max_misses c) tracks"

text \<open>Between the steps of one frame a track may have been missed once more than allowed.\<close>

definition tracks_ok :: "tracks \<Rightarrow> bool" where
  "tracks_ok tracks \<longleftrightarrow> wf_dict tracks \<and>
     (\<forall>(k, s)\<in>set tracks. s_track_id s = k \<and> 1 \<le> s_hits s \<and> 0 \<le> s_miss_count s)"

lemma tracks_ok_set:
  "tracks_ok m \<Longrightarrow> s_track_id s = k \<Longrightarrow> 1 \<le> s_hits s \<Longrightarrow> 0 \<le> s_miss_count s \<Longrightarrow>
     tracks_ok (dict_set m k s)"
  by (fastforce simp: tracks_ok_def dest: set_dict_set_cases)

lemma update_identity_simps [simp]:
  "s_track_id (update_identity d s) = s_track_id s" "s_hits (update_identity d s) = s_hits s"
  "s_miss_count (update_identity d s) = s_miss_count s"
  "s_created_at (update_identity d s) = s_created_at s"
  by (simp_all add: update_identity_def)

lemma update_track_simps [simp]:
  "s_track_id (update_track c t d s) = s_track_id s" "s_hits (update_track c t d s) = s_hits s + 1"
  "s_miss_count (update_track c t d s) = 0" "s_last_update (update_track c t d s) = t"
  "s_created_at (update_track c t d s) = s_created_at s"
  by (simp_all add: update_track_def Let_def)

lemma new_track_simps [simp]:
  "s_track_id (new_track k t d) = k" "s_hits (new_track k t d) = 1" "s_miss_count (new_track k t d) = 0"
  "s_created_at (new_track k t d) = t" "s_last_update (new_track k t d) = t"
  by (simp_all add: new_track_def Let_def)

lemma update_associated_ok:
  "tracks_ok m \<Longrightarrow> (\<And>d s. (d, Some s) \<in> set as \<Longrightarrow> 0 \<le> s_hits s) \<Longrightarrow>
     tracks_ok (update_associated_tracks c t as m)"
  by (induction c t as m rule: update_associated_tracks.induct) (force simp: tracks_ok_set)+

lemma update_missed_ok: "tracks_ok m \<Longrightarrow> tracks_ok (update_missed_tracks ids m)"
  by (auto simp: tracks_ok_def update_missed_tracks_def wf_dict_def o_def case_prod_unfold)

lemma spawn_ok: "tracks_ok m \<Longrightarrow> tracks_ok (spawn_new_tracks fresh n t as m)"
  by (induction fresh n t as m rule: spawn_new_tracks.induct) (auto simp: tracks_ok_set)

lemma prune_wf: "tracks_ok m \<Longrightarrow> tracks_wf c (prune_lost_tracks c m)"
  by (auto simp: tracks_ok_def tracks_wf_def prune_lost_tracks_def list_all_iff)

lemma tracks_wf_ok: "tracks_wf c m \<Longrightarrow> tracks_ok m"
  by (auto simp: tracks_ok_def tracks_wf_def list_all_iff)

lemma associate_from_tracks:
  assumes "tracks_ok m" "(d, Some s) \<in> set (associate c m ds t)"
  shows "(s_track_id s, s) \<in> set m"
proof -
  have "distinct (dict_values m)"
  proof -
    have "map s_track_id (dict_values m) = dict_keys m"
      using assms(1) by (auto simp: tracks_ok_def)
    then show ?thesis
      using assms(1) by (metis distinct_map tracks_ok_def wf_dict_def)
  qed
  from associate_loop_matched [OF this, of c t ds]
  have "set (List.map_filter snd (associate c m ds t)) \<subseteq> set (dict_values m)"
    by (simp add: associate_def)
  moreover have "s \<in> set (List.map_filter snd (associate c m ds t))"
    using assms(2) by (force simp: List.map_filter_def)
  ultimately have "s \<in> set (dict_values m)" by blast
  then show ?thesis using assms(1) by (auto simp: tracks_ok_def)
qed

lemma advance_wf:
  assumes "tracks_ok m" shows "tracks_wf c (advance c fresh f m)"
proof -
  let ?as = "associate c m (fuse_lr_sr_detections (f_detections f)) (f_timestamp f)"
  have "0 \<le> s_hits s" if "(d, Some s) \<in> set ?as" for d s
    using associate_from_tracks [OF assms that] assms by (auto simp: tracks_ok_def)
  with assms show ?thesis
    unfolding advance_def Let_def by (intro prune_wf spawn_ok update_missed_ok update_associated_ok)
qed

text \<open>An event is one frame together with the identifiers that \<open>uuid4\<close> yields during it.\<close>

type_synonym frame_event = "(nat \<Rightarrow> string) \<times> frame"

definition tracker_step :: "tracker_config \<Rightarrow> tracks \<Rightarrow> frame_event \<Rightarrow> tracks" where
  "tracker_step c tracks e = fst (process_frame c (fst e) (snd e) tracks)"

lemma tracker_step_advance: "tracker_step c m e = advance c (fst e) (snd e) m"
  by (simp add: tracker_step_def process_frame_def Let_def)

interpretation tracker: inv_machine "tracker_step c" "tracks_wf c" for c
  by unfold_locales (simp add: tracker_step_advance advance_wf tracks_wf_ok)

lemma tracks_wf_empty [simp]: "tracks_wf c []"
  by (simp add: tracks_wf_def)

lemma quality_range: "0 \<le> compute_quality c s \<and> compute_quality c s \<le> 1"
  by (simp add: compute_quality_def Let_def)

lemma elevation_range: "- 90 \<le> cartesian_to_elevation v \<and> cartesian_to_elevation v \<le> 90"
  using degrees_half atan2_half [of "sqrt ((vx v)\<^sup>2 + (vy v)\<^sup>2)" "vz v"]
  by (simp add: cartesian_to_elevation_def)

text \<open>A track passes every validator but for a bearing of 360.\<close>

definition full_circle :: "track_state \<Rightarrow> bool" where
  "full_circle s \<longleftrightarrow> xyz_to_bearing_deg (vx (s_position s)) (vy (s_position s)) = 360"

lemma serialize_track_valid:
  "0 \<le> s_miss_count s \<Longrightarrow> track_valid (serialize_track c t s) \<longleftrightarrow> \<not> full_circle s"
  using quality_range [of c s] elevation_range [of "s_position s"]
    xyz_to_bearing_range [of "vx (s_position s)" "vy (s_position s)"]
  by (auto simp: track_valid_def serialize_track_def Let_def vec_norm_def track_has_identity_def full_circle_def)

lemma build_track_cases:
  "0 \<le> s_miss_count s \<Longrightarrow>
     build_track c t s = (if full_circle s then None else Some (serialize_track c t s))"
  by (simp add: build_track_def serialize_track_valid Let_def)

lemma those_map_if:
  "(\<And>x. x \<in> set xs \<Longrightarrow> f x = (if P x then None else Some (g x))) \<Longrightarrow>
     those (map f xs) = (if list_ex P xs then None else Some (map g xs))"
  by (induction xs) auto

lemma serialize_cases:
  assumes "tracks_wf c m"
  shows "serialize_tracks c t m =
    (if list_ex full_circle (dict_values m) then None
     else Some (map (serialize_track c t) (dict_values m)))"
  unfolding serialize_tracks_def
  by (rule those_map_if, rule build_track_cases) (use assms in \<open>auto simp: tracks_wf_def list_all_iff\<close>)

lemma serialize_valid:
  assumes "tracks_wf c m" "\<not> list_ex full_circle (dict_values m)"
  shows "list_all track_valid (map (serialize_track c t) (dict_values m))"
  using assms serialize_track_valid by (fastforce simp: tracks_wf_def list_all_iff list_ex_iff)


section \<open>The effect of one frame on one track\<close>

lemma updated_ids_simps [simp]:
  "updated_ids [] = []" "updated_ids ((d, None) # as) = updated_ids as"
  "updated_ids ((d, Some s) # as) = s_track_id s # updated_ids as"
  by (simp_all add: updated_ids_def)

lemma set_updated_ids: "set (updated_ids as) = {s_track_id s |d s. (d, Some s) \<in> set as}"
  by (induction as rule: update_associated_tracks.induct [where P = "\<lambda>_ _ as _. _ as"]) auto

lemma update_associated_other:
  "k \<notin> set (updated_ids as) \<Longrightarrow> dict_get (update_associated_tracks c t as m) k = dict_get m k"
  by (induction c t as m rule: update_associated_tracks.induct) auto

lemma update_associated_hit:
  "distinct (updated_ids as) \<Longrightarrow> (d, Some s) \<in> set as \<Longrightarrow>
     dict_get (update_associated_tracks c t as m) (s_track_id s) = Some (update_track c t d s)"
proof (induction c t as m rule: update_associated_tracks.induct)
  case (3 c t d' s' rest m)
  show ?case
  proof (cases "(d, Some s) = (d', Some s')")
    case True
    with 3 show ?thesis by (simp add: update_associated_other)
  next
    case False
    with 3 show ?thesis by auto
  qed
qed auto

lemma update_missed_lookup:
  "dict_get (update_missed_tracks ids m) k =
     map_option (\<lambda>s. if k \<in> set ids then s else s\<lparr>s_miss_count := s_miss_count s + 1\<rparr>) (dict_get m k)"
  by (induction m) (auto simp: update_missed_tracks_def)

lemma spawn_other:
  "\<forall>i. fresh i \<noteq> k \<Longrightarrow> dict_get (spawn_new_tracks fresh n t as m) k = dict_get m k"
  by (induction fresh n t as m rule: spawn_new_tracks.induct) auto

lemma prune_lookup:
  "wf_dict m \<Longrightarrow> dict_get (prune_lost_tracks c m) k =
     (case dict_get m k of None \<Rightarrow> None
      | Some s \<Rightarrow> if s_miss_count s > c_max_misses c then None else Some s)"
  by (induction m) (auto simp: prune_lost_tracks_def wf_dict_def image_iff map_of_eq_None_iff split: option.splits)

lemma matched_distinct:
  assumes "tracks_ok m" shows "distinct (updated_ids (associate c m ds t))"
proof -
  have ids: "map s_track_id (dict_values m) = dict_keys m"
    using assms by (auto simp: tracks_ok_def)
  then have d: "distinct (map s_track_id (dict_values m))"
    using assms by (metis tracks_ok_def wf_dict_def)
  then have "distinct (dict_values m)" by (metis distinct_map)
  from associate_loop_matched [OF this] d show ?thesis
    unfolding updated_ids_def associate_def distinct_map by (meson inj_on_subset)
qed

lemma advance_steps_ok:
  assumes "tracks_ok m"
  shows "tracks_ok (spawn_new_tracks fresh 0 t (associate c m ds t)
           (update_missed_tracks ids (update_associated_tracks c t (associate c m ds t) m)))"
proof -
  have "0 \<le> s_hits s" if "(d, Some s) \<in> set (associate c m ds t)" for d s
    using associate_from_tracks [OF assms that] assms by (auto simp: tracks_ok_def)
  with assms show ?thesis
    by (intro spawn_ok update_missed_ok update_associated_ok)
qed

section \<open>Silence\<close>

definition silent :: "frame \<Rightarrow> bool" where
  "silent f \<longleftrightarrow> f_detections f = []"

definition missed :: "int \<Rightarrow> tracks \<Rightarrow> tracks" where
  "missed n m = map (\<lambda>(k, s). (k, s\<lparr>s_miss_count := s_miss_count s + n\<rparr>)) m"

lemma advance_silent: "silent f \<Longrightarrow> advance c fresh f m = prune_lost_tracks c (missed 1 m)"
  by (simp add: silent_def advance_def Let_def fuse_lr_sr_detections_def band_indices_def associate_def
      update_missed_tracks_def missed_def updated_ids_def)

lemma prune_missed_prune:
  "0 \<le> n \<Longrightarrow> prune_lost_tracks c (missed 1 (prune_lost_tracks c (missed n m))) =
     prune_lost_tracks c (missed (n + 1) m)"
  by (induction m) (auto simp: prune_lost_tracks_def missed_def add.assoc)

lemma silent_run:
  "list_all (\<lambda>e. silent (snd e)) es \<Longrightarrow> es \<noteq> [] \<Longrightarrow>
     foldl (tracker_step c) m es = prune_lost_tracks c (missed (int (length es)) m)"
proof (induction es rule: rev_induct)
  case Nil
  then show ?case by simp
next
  case (snoc e es)
  show ?case
  proof (cases "es = []")
    case True
    with snoc.prems show ?thesis by (simp add: tracker_step_advance advance_silent)
  next
    case False
    with snoc show ?thesis
      by (simp add: tracker_step_advance advance_silent prune_missed_prune add.commute)
  qed
qed

lemma missed_lookup: "dict_get (missed n m) k = map_option (\<lambda>s. s\<lparr>s_miss_count := s_miss_count s + n\<rparr>) (dict_get m k)"
  by (induction m) (auto simp: missed_def)

lemma missed_wf: "wf_dict m \<Longrightarrow> wf_dict (missed n m)"
  by (simp add: wf_dict_def missed_def o_def case_prod_unfold)

section \<open>Size\<close>

lemma length_dict_set_present: "k \<in> fst ` set m \<Longrightarrow> length (dict_set m k v) = length m"
  by (induction m) auto

lemma length_dict_set: "length (dict_set m k v) \<le> Suc (length m)"
  by (induction m) auto

lemma update_associated_length:
  "(\<And>d s. (d, Some s) \<in> set as \<Longrightarrow> s_track_id s \<in> fst ` set m) \<Longrightarrow>
     length (update_associated_tracks c t as m) = length m"
proof (induction c t as m rule: update_associated_tracks.induct)
  case (3 c t d s rest m)
  from 3(2) [of d s] have "s_track_id s \<in> fst ` set m" by simp
  then have "length (dict_set m (s_track_id s) (update_track c t d s)) = length m"
    by (rule length_dict_set_present)
  moreover have "length (update_associated_tracks c t rest (dict_set m (s_track_id s) (update_track c t d s)))
      = length (dict_set m (s_track_id s) (update_track c t d s))"
    by (rule 3(1)) (use 3(2) in auto)
  ultimately show ?case by simp
qed auto

lemma spawn_length: "length (spawn_new_tracks fresh n t as m) \<le> length m + length as"
proof (induction fresh n t as m rule: spawn_new_tracks.induct)
  case (3 fresh n t d rest m)
  then show ?case using length_dict_set [of "fresh n" "new_track (fresh n) t d" m] by simp
qed auto

lemma fuse_length: "length (fuse_lr_sr_detections dets) \<le> length dets"
  unfolding fuse_as_removal using list_emb_length [OF subseq_drop_indices] by blast

lemma advance_length:
  assumes "tracks_ok m" shows "length (advance c fresh f m) \<le> length m + length (f_detections f)"
proof -
  let ?ds = "fuse_lr_sr_detections (f_detections f)"
  let ?as = "associate c m ?ds (f_timestamp f)"
  have len: "length ?as = length ?ds"
    using associate_loop_fst [of c "f_timestamp f" "dict_values m" ?ds]
    by (metis associate_def length_map)
  have "length (update_associated_tracks c (f_timestamp f) ?as m) = length m"
    by (rule update_associated_length) (use associate_from_tracks [OF assms] in force)
  with spawn_length [of fresh 0 "f_timestamp f" ?as
      "update_missed_tracks (updated_ids ?as) (update_associated_tracks c (f_timestamp f) ?as m)"]
  have "length (spawn_new_tracks fresh 0 (f_timestamp f) ?as
      (update_missed_tracks (updated_ids ?as) (update_associated_tracks c (f_timestamp f) ?as m)))
      \<le> length m + length ?ds" by (simp add: update_missed_tracks_def len)
  with fuse_length [of "f_detections f"] show ?thesis
    unfolding advance_def Let_def prune_lost_tracks_def by (meson add_left_mono le_trans length_filter_le)
qed


section \<open>Properties\<close>

definition demo_detection :: detection where
  "demo_detection =
     \<lparr>d_range_m = 100, d_bearing_deg = 0, d_elev_deg = 0, d_vr_mps = 0, d_snr_db = 20,
      d_rcs_dbsm = 1, d_transponder_on = False, d_transponder_mode = XP_OFF,
      d_transponder_id = None, d_range_band = RR_SR, d_id_present = None\<rparr>"

definition demo_frame :: "real \<Rightarrow> detection list \<Rightarrow> frame" where
  "demo_frame t ds = \<lparr>f_sensor_id = ''radar'', f_timestamp = t, f_detections = ds\<rparr>"

definition demo_tracks :: tracks where
  "demo_tracks = [(''t1'', new_track ''t1'' 0 demo_detection)]"

lemma demo_tracks_wf: "tracks_wf default_config demo_tracks"
  by (simp add: demo_tracks_def tracks_wf_def wf_dict_def default_config_def make_config_def)

text \<open>
  C3. After any sequence of frames of finite detections, the tracks the next frame reports are those of
  the updated store, in its order, and each passes the validators of \<open>RadarTrackModel\<close>: quality in
  [0, 1], non-negative range, SNR, age and misses, bearing in [0, 360), elevation in [-90, 90], and no
  long-range track that carries an identity. The one exception is a track whose bearing the rounded
  remainder puts at exactly 360 degrees: then, and only then, building the models raises and nothing
  is reported.
\<close>

theorem tracker_reports_valid:
  "(let (m, out) = process_frame c (fst e) (snd e) (foldl (tracker_step c) [] es) in
    case out of
      None \<Rightarrow> list_ex (\<lambda>s. xyz_to_bearing_deg (vx (s_position s)) (vy (s_position s)) = 360) (dict_values m)
    | Some ts \<Rightarrow>
        list_all (\<lambda>s. xyz_to_bearing_deg (vx (s_position s)) (vy (s_position s)) \<noteq> 360) (dict_values m) \<and>
        ts = map (serialize_track c (f_timestamp (snd e))) (dict_values m) \<and> list_all track_valid ts)"
proof -
  have "tracks_wf c (foldl (tracker_step c) [] es)" by (rule tracker.run_inv) simp
  then have wf: "tracks_wf c (advance c (fst e) (snd e) (foldl (tracker_step c) [] es))"
    by (intro advance_wf tracks_wf_ok)
  then show ?thesis
    using serialize_cases [OF wf, of "f_timestamp (snd e)"] serialize_valid [OF wf, of "f_timestamp (snd e)"]
    by (simp add: process_frame_def Let_def full_circle_def list_ex_iff list_all_iff)
qed

text \<open>
  What one frame does to a known track, when the identifiers drawn for new tracks are
  fresh: if the association gave it a detection, it is filtered with that detection and its misses
  are reset; otherwise it misses once, and is removed exactly when it has then missed more than
  \<open>max_misses\<close> frames. No other track is touched.
\<close>

theorem tracker_frame_effect:
  assumes "tracks_wf c m" and "dict_get m k = Some s" and "\<forall>i. fresh i \<noteq> k"
  shows "(let as = associate c m (fuse_lr_sr_detections (f_detections f)) (f_timestamp f) in
          dict_get (advance c fresh f m) k =
            (if k \<in> set (updated_ids as)
             then Some (update_track c (f_timestamp f) (fst (the (find (\<lambda>a. snd a = Some s) as))) s)
             else if s_miss_count s < c_max_misses c
             then Some (s\<lparr>s_miss_count := s_miss_count s + 1\<rparr>) else None))"
proof -
  define as where "as = associate c m (fuse_lr_sr_detections (f_detections f)) (f_timestamp f)"
  define u where "u = update_missed_tracks (updated_ids as)
      (update_associated_tracks c (f_timestamp f) as m)"
  have ok: "tracks_ok m" using assms(1) by (rule tracks_wf_ok)
  have "(k, s) \<in> set m" using assms(2) by (rule map_of_SomeD)
  then have k: "s_track_id s = k" "s_miss_count s \<le> c_max_misses c" "0 \<le> s_miss_count s"
    using assms(1) by (auto simp: tracks_wf_def list_all_iff)
  have adv: "dict_get (advance c fresh f m) k = (case dict_get u k of None \<Rightarrow> None
      | Some s \<Rightarrow> if s_miss_count s > c_max_misses c then None else Some s)"
    unfolding advance_def Let_def as_def [symmetric] u_def
    by (subst prune_lookup) (use advance_steps_ok [OF ok] assms(3) in
        \<open>auto simp: tracks_ok_def as_def spawn_other\<close>)
  show ?thesis
  proof (cases "k \<in> set (updated_ids as)")
    case True
    then obtain d s' where ds: "(d, Some s') \<in> set as" "s_track_id s' = k"
      by (auto simp: set_updated_ids)
    then have "(k, s') \<in> set m" using associate_from_tracks [OF ok] by (auto simp: as_def)
    then have "s' = s" using assms(2) ok by (simp add: tracks_ok_def wf_dict_def)
    then have "\<exists>a\<in>set as. snd a = Some s" using ds by force
    then obtain a where a: "find (\<lambda>a. snd a = Some s) as = Some a"
      by (cases "find (\<lambda>a. snd a = Some s) as") (auto simp: find_None_iff)
    then have "(fst a, Some s) \<in> set as"
      by (metis (mono_tags, lifting) find_Some_iff nth_mem prod.collapse)
    from update_associated_hit [OF _ this, of c "f_timestamp f" m] matched_distinct [OF ok] k
    have "dict_get u k = Some (update_track c (f_timestamp f) (fst a) s)"
      using True by (simp add: u_def update_missed_lookup as_def)
    with True a k show ?thesis unfolding adv as_def [symmetric] by simp
  next
    case False
    then have "dict_get u k = Some (s\<lparr>s_miss_count := s_miss_count s + 1\<rparr>)"
      by (simp add: u_def update_missed_lookup update_associated_other assms(2))
    with False show ?thesis unfolding adv as_def [symmetric] by simp
  qed
qed

theorem tracker_frame_effect_witness:
  "dict_get (advance default_config (\<lambda>_. ''new'') (demo_frame 1 []) demo_tracks) ''t1'' =
     Some ((new_track ''t1'' 0 demo_detection)\<lparr>s_miss_count := 1\<rparr>)"
  using tracker_frame_effect [OF demo_tracks_wf, of "''t1''" "new_track ''t1'' 0 demo_detection"
      "\<lambda>_. ''new''" "demo_frame 1 []"]
  by (simp add: demo_tracks_def demo_frame_def fuse_lr_sr_detections_def band_indices_def
      associate_def default_config_def make_config_def)

text \<open>
  C4. The association step: every detection is listed once, in order; no track is assigned to
  two detections; and a track is assigned to a detection only inside the distance and
  radial-velocity gate around its predicted position, or inside the long-range hand-off gate,
  which further requires that the track carries an identity.
\<close>

theorem tracker_association_gated:
  assumes "tracks_wf c m"
  shows "map fst (associate c m ds t) = ds \<and> distinct (updated_ids (associate c m ds t)) \<and>
         (\<forall>d s. (d, Some s) \<in> set (associate c m ds t) \<longrightarrow>
            s \<in> set (dict_values m) \<and> (in_gate c t d s \<or> in_handoff_gate c d s))"
proof -
  have ok: "tracks_ok m" using assms by (rule tracks_wf_ok)
  have "s \<in> set (dict_values m)" if "(d, Some s) \<in> set (associate c m ds t)" for d s
    using associate_from_tracks [OF ok that] by force
  with matched_distinct [OF ok] show ?thesis
    by (auto simp: associate_def dest: associate_loop_gated)
qed

theorem tracker_association_gated_witness:
  "distinct (updated_ids (associate default_config demo_tracks [demo_detection] 1))"
  using tracker_association_gated [OF demo_tracks_wf, of "[demo_detection]" 1] by simp

text \<open>
  When some available track lies inside the distance and velocity gate of a detection, the
  matcher returns such a track, and one whose predicted position is nearest to the detection
  among all that pass; the hand-off rule is then not consulted.
\<close>

theorem tracker_match_nearest:
  assumes "s' \<in> set cands" and "in_gate c t d s'"
  shows "\<exists>s. find_best_match c d cands t = Some s \<and> s \<in> set cands \<and> in_gate c t d s \<and>
           euclidean_distance (predict s t) (det_position d)
             \<le> euclidean_distance (predict s' t) (det_position d)"
proof -
  obtain s where s: "match_loop c d t (c_max_association_distance c) None cands = Some s"
    using match_loop_finds [of None cands t d "c_max_association_distance c" c] assms
    by (auto simp: in_gate_radial)
  have "find_best_match c d cands t = Some s" using s assms(1) by (auto simp: find_best_match_def)
  moreover have "s \<in> set cands \<and> in_gate c t d s" using match_loop_spec [OF s] by simp
  moreover have "euclidean_distance (predict s t) (det_position d)
      \<le> euclidean_distance (predict s' t) (det_position d)"
    by (rule match_loop_minimal [OF s assms(1)]) (use assms(2) in \<open>simp_all add: in_gate_radial\<close>)
  ultimately show ?thesis by blast
qed

theorem tracker_match_nearest_witness:
  "\<exists>s. find_best_match default_config demo_detection [new_track ''t1'' 0 demo_detection] 0 = Some s \<and>
       in_gate default_config 0 demo_detection s"
proof -
  have "in_gate default_config 0 demo_detection (new_track ''t1'' 0 demo_detection)"
    by (simp add: in_gate_def default_config_def make_config_def euclidean_distance_def predict_def
        new_track_def demo_detection_def det_position_def vec_add_def vec_scale_def Let_def
        project_velocity_to_radial_def)
  from tracker_match_nearest [OF _ this, of "[new_track ''t1'' 0 demo_detection]"] show ?thesis
    by auto
qed

text \<open>
  Fusion of the two radar bands removes long-range detections only: the order and all other
  detections stay, at most one detection is removed per short-range one, and each removed
  detection has a short-range counterpart in the same frame within half a degree of bearing and
  of elevation and 1 m/s of radial velocity.
\<close>

theorem fusion_removes_duplicates_only:
  "subseq (fuse_lr_sr_detections ds) ds \<and>
   filter (\<lambda>d. d_range_band d \<noteq> RR_LR) (fuse_lr_sr_detections ds) =
     filter (\<lambda>d. d_range_band d \<noteq> RR_LR) ds \<and>
   length ds \<le> length (fuse_lr_sr_detections ds) + length (filter (\<lambda>d. d_range_band d = RR_SR) ds) \<and>
   list_all (\<lambda>d. d \<in> set (fuse_lr_sr_detections ds) \<or>
      (d_range_band d = RR_LR \<and>
       list_ex (\<lambda>sr. d_range_band sr = RR_SR \<and> within_fuse_tolerance sr d) ds)) ds"
proof (intro conjI)
  show "subseq (fuse_lr_sr_detections ds) ds"
    unfolding fuse_as_removal by (rule subseq_drop_indices)
  show "filter (\<lambda>d. d_range_band d \<noteq> RR_LR) (fuse_lr_sr_detections ds) =
     filter (\<lambda>d. d_range_band d \<noteq> RR_LR) ds"
    unfolding fuse_as_removal by (rule drop_indices_keep) (use fused_away_spec [of ds] in auto)
  show "length ds \<le> length (fuse_lr_sr_detections ds) + length (filter (\<lambda>d. d_range_band d = RR_SR) ds)"
    using length_drop_indices [of ds "fused_away ds"] fused_away_spec [of ds]
    unfolding fuse_as_removal by (simp add: length_band_indices)
  show "list_all (\<lambda>d. d \<in> set (fuse_lr_sr_detections ds) \<or>
      (d_range_band d = RR_LR \<and>
       list_ex (\<lambda>sr. d_range_band sr = RR_SR \<and> within_fuse_tolerance sr d) ds)) ds"
    using not_kept_was_fused [of _ ds] fused_away_spec [of ds]
    by (fastforce simp: list_all_iff list_ex_iff)
qed

text \<open>
  C5. How a store forgets: through any run of n frames without detections a track whose misses and n
  together do not exceed \<open>max_misses\<close> stays, its misses increased by n and nothing else changed;
  one whose sum exceeds it is gone. So a track just seen survives \<open>max_misses\<close> silent frames and not
  one more.
\<close>

theorem tracker_forgets_in_silence:
  assumes "tracks_wf c m" and "list_all (\<lambda>e. silent (snd e)) es"
  shows "dict_get (foldl (tracker_step c) m es) k =
           (case dict_get m k of
              None \<Rightarrow> None
            | Some s \<Rightarrow> if s_miss_count s + int (length es) \<le> c_max_misses c
                then Some (s\<lparr>s_miss_count := s_miss_count s + int (length es)\<rparr>) else None)"
proof (cases "es = []")
  case True
  have "s_miss_count s \<le> c_max_misses c" if "dict_get m k = Some s" for s
    using assms(1) map_of_SomeD [OF that] by (auto simp: tracks_wf_def list_all_iff)
  then show ?thesis using True by (simp split: option.split)
next
  case False
  have wf: "wf_dict m" using assms(1) by (simp add: tracks_wf_def)
  show ?thesis
    unfolding silent_run [OF assms(2) False] using missed_wf [OF wf]
    by (simp add: prune_lookup missed_lookup split: option.split)
qed

theorem tracker_forgets_in_silence_witness:
  "let gone = (\<lambda>n. dict_get (foldl (tracker_step default_config) demo_tracks
                 (replicate n ((\<lambda>_. ''new''), demo_frame 1 []))) ''t1'' = None)
   in \<not> gone 3 \<and> gone 4"
proof -
  have "list_all (\<lambda>e. silent (snd e)) (replicate n ((\<lambda>_::nat. ''new''), demo_frame 1 []))" for n
    by (simp add: list_all_iff silent_def demo_frame_def)
  note forget = tracker_forgets_in_silence [OF demo_tracks_wf this, of _ "''t1''"]
  show ?thesis
    unfolding Let_def forget by (simp add: demo_tracks_def default_config_def make_config_def)
qed

text \<open>
  In every run a stored track reports \<open>LOST\<close> exactly when it is not confirmed yet
  and has missed a frame: a confirmed track is pruned in the frame in which it exceeds
  \<open>max_misses\<close>, so the last branch of the status code is never taken and consumers see
  it coasting and then not at all.
\<close>

theorem tracker_lost_only_unconfirmed:
  "list_all (\<lambda>s. (track_status_of c s = TS_LOST) = (s_hits s < c_min_hits c \<and> s_miss_count s \<noteq> 0))
     (dict_values (foldl (tracker_step c) [] es))"
proof -
  have "tracks_wf c (foldl (tracker_step c) [] es)" by (rule tracker.run_inv) simp
  then show ?thesis by (auto simp: tracks_wf_def list_all_iff track_status_of_def)
qed

text \<open>
  A frame adds at most as many tracks as it has detections.
\<close>

theorem tracker_growth_bounded:
  "length (foldl (tracker_step c) [] es) \<le> (\<Sum>e\<leftarrow>es. length (f_detections (snd e)))"
proof (induction es rule: rev_induct)
  case Nil
  then show ?case by simp
next
  case (snoc e es)
  define m where "m = foldl (tracker_step c) [] es"
  have "tracks_wf c m" unfolding m_def by (rule tracker.run_inv) simp
  from advance_length [OF tracks_wf_ok [OF this], of c "fst e" "snd e"]
  have "length (tracker_step c m e) \<le> length m + length (f_detections (snd e))"
    by (simp add: tracker_step_advance)
  with snoc show ?case by (simp add: m_def)
qed

end
