(* ===== verification/Core_Types.thy ===== *)
theory Core_Types
  imports Radar_Types
begin

text \<open>
  The shared messages the agent works on (\<open>src/qiki/shared/models/core.py\<close>): machine
  states, device and BIOS reports, sensor readings, actuator commands and proposals, with the
  model validators as predicates. Identifiers and timestamps are strings and reals; proposal
  fields no modelled operation reads (expected duration, dependencies, signature) are left out.
\<close>

section \<open>Enumerations\<close>

datatype fsm_state_enum =
    FS_OFFLINE | FS_BOOTING | FS_IDLE | FS_RUNNING | FS_PAUSED | FS_ERROR | FS_TERMINATING

fun fsm_state_enum_value :: "fsm_state_enum \<Rightarrow> int" where
  "fsm_state_enum_value FS_OFFLINE = 0"
| "fsm_state_enum_value FS_BOOTING = 1"
| "fsm_state_enum_value FS_IDLE = 2"
| "fsm_state_enum_value FS_RUNNING = 3"
| "fsm_state_enum_value FS_PAUSED = 4"
| "fsm_state_enum_value FS_ERROR = 5"
| "fsm_state_enum_value FS_TERMINATING = 6"

datatype device_status_enum = DS_UNKNOWN | DS_OK | DS_DEGRADED | DS_ERROR

datatype sensor_type =
    ST_OTHER | ST_LIDAR | ST_IMU | ST_CAMERA | ST_GPS | ST_THERMAL | ST_RADAR

datatype unit_enum =
    U_UNSPECIFIED | U_METERS | U_DEGREES | U_PERCENT | U_VOLTS | U_AMPS | U_WATTS
  | U_MILLISECONDS | U_KELVIN | U_BAR

datatype proposal_type = PT_UNSPECIFIED | PT_SAFETY | PT_PLANNING | PT_DIAGNOSTICS | PT_EXPLORATION

text \<open>Members of an \<open>IntEnum\<close> compare by their values.\<close>

fun proposal_type_value :: "proposal_type \<Rightarrow> int" where
  "proposal_type_value PT_UNSPECIFIED = 0"
| "proposal_type_value PT_SAFETY = 1"
| "proposal_type_value PT_PLANNING = 2"
| "proposal_type_value PT_DIAGNOSTICS = 3"
| "proposal_type_value PT_EXPLORATION = 4"

datatype command_type = CT_UNSPECIFIED | CT_SET_VELOCITY | CT_ROTATE | CT_ENABLE | CT_DISABLE | CT_SET_MODE

instantiation proposal_type :: linorder
begin

definition less_eq_proposal_type :: "proposal_type \<Rightarrow> proposal_type \<Rightarrow> bool" where
  "a \<le> b \<longleftrightarrow> proposal_type_value a \<le> proposal_type_value b"

definition less_proposal_type :: "proposal_type \<Rightarrow> proposal_type \<Rightarrow> bool" where
  "a < b \<longleftrightarrow> proposal_type_value a < proposal_type_value b"

instance
proof
  fix a b :: proposal_type
  show "a \<le> b \<Longrightarrow> b \<le> a \<Longrightarrow> a = b"
    by (cases a; cases b) (simp_all add: less_eq_proposal_type_def)
qed (auto simp: less_eq_proposal_type_def less_proposal_type_def)

end

section \<open>BIOS reports\<close>

record device_status =
  dv_id :: string
  dv_name :: string
  dv_status :: device_status_enum
  dv_message :: "string option"

record bios_status =
  b_version :: string
  b_firmware :: string
  b_profile_hash :: "string option"
  b_post_results :: "device_status list"
  b_timestamp :: real

definition all_systems_go :: "bios_status \<Rightarrow> bool" where
  "all_systems_go b =
     (if b_post_results b = [] then False
      else list_all (\<lambda>d. dv_status d = DS_OK) (b_post_results b))"

section \<open>State snapshots\<close>

record fsm_transition =
  ft_event :: string
  ft_from :: fsm_state_enum
  ft_to :: fsm_state_enum

record fsm_snapshot =
  fs_current :: fsm_state_enum
  fs_previous :: fsm_state_enum
  fs_last :: "fsm_transition option"
  fs_history :: "fsm_transition list"
  fs_context :: "(string, string) dict"

section \<open>Sensor readings\<close>

record sensor_data =
  sd_sensor_id :: string
  sd_type :: sensor_type
  sd_scalar :: "real option"
  sd_vector :: "real list option"
  sd_matrix :: "real list list option"
  sd_string :: "string option"
  sd_frame :: "frame option"
  sd_track :: "radar_track option"
  sd_quality :: real

definition sensor_data_valid :: "sensor_data \<Rightarrow> bool" where
  "sensor_data_valid s \<longleftrightarrow>
     (let set_count = length (filter id
            [sd_scalar s \<noteq> None, sd_vector s \<noteq> None, sd_matrix s \<noteq> None,
             sd_string s \<noteq> None, sd_frame s \<noteq> None, sd_track s \<noteq> None])
      in set_count \<noteq> 0 \<and> \<not> set_count > 1) \<and> 0 \<le> sd_quality s \<and> sd_quality s \<le> 1"

section \<open>Commands and proposals\<close>

record actuator_command =
  ac_command_id :: string
  ac_actuator_id :: string
  ac_float :: "real option"
  ac_int :: "int option"
  ac_bool :: "bool option"
  ac_vector :: "vec3 option"
  ac_unit :: unit_enum
  ac_type :: command_type

definition actuator_command_valid :: "actuator_command \<Rightarrow> bool" where
  "actuator_command_valid a \<longleftrightarrow>
     length (filter id [ac_float a \<noteq> None, ac_int a \<noteq> None, ac_bool a \<noteq> None,
                        ac_vector a \<noteq> None]) = 1"

record proposal =
  p_id :: string
  p_source :: string
  p_actions :: "actuator_command list"
  p_justification :: string
  p_priority :: real
  p_confidence :: real
  p_type :: proposal_type

definition proposal_valid :: "proposal \<Rightarrow> bool" where
  "proposal_valid p \<longleftrightarrow>
     0 \<le> p_priority p \<and> p_priority p \<le> 1 \<and> 0 \<le> p_confidence p \<and> p_confidence p \<le> 1"

end
