(* ===== verification/Agent_World.thy ===== *)
theory Agent_World
  imports Guard_Table Core_Types "HOL-Library.Product_Lexorder"
begin

text \<open>
  The agent's world model (\<open>src/qiki/services/q_core_agent/core/world_model.py\<close>): radar
  tracks with the time of their last ingest, the ownership of frame-derived tracks by sensor, and
  the guard results recalculated from the tracks. A set of owned identifiers is a list without
  duplicates (the iteration order of a Python set is unspecified; it only breaks exact ties of the
  matching score). \<open>uuid4\<close> is the argument \<open>fresh\<close>, indexed by the detection;
  \<open>now\<close> is the time the caller passes or the clock, \<open>wall\<close> the clock that stamps
  new tracks; the metrics handed to Prometheus are the last two fields of the state.
\<close>

section \<open>State\<close>

definition MAX_FRAME_SENSORS :: nat where "MAX_FRAME_SENSORS = 16"

type_synonym guard_id = "string \<times> string"

record world =
  w_tracks :: "(string, radar_track) dict"
  w_owned :: "(string, string list) dict"
  w_ingest :: "(string, real) dict"
  w_guards :: "guard_result list"
  w_guard_keys :: "guard_id list"
  w_warning_keys :: "guard_id list"
  w_metric_tracks :: nat
  w_metric_new_warnings :: nat

definition empty_world :: world where
  "empty_world = \<lparr>w_tracks = [], w_owned = [], w_ingest = [], w_guards = [], w_guard_keys = [],
                   w_warning_keys = [], w_metric_tracks = 0, w_metric_new_warnings = 0\<rparr>"

section \<open>Guards\<close>

definition guard_id_of :: "guard_result \<Rightarrow> guard_id" where
  "guard_id_of g = (g_rule_id g, g_track_id g)"

text \<open>Python sorts by this key with \<open>reverse=True\<close>, keeping the order of equal keys.\<close>

definition sort_key_of :: "guard_result \<Rightarrow> int \<times> real \<times> real" where
  "sort_key_of g = (severity_weight g, - g_range_m g, g_quality g)"

definition neg_key :: "int \<times> real \<times> real \<Rightarrow> int \<times> real \<times> real" where
  "neg_key k = (case k of (a, b, c) \<Rightarrow> (- a, - b, - c))"

definition dedupe_step :: "(guard_id, guard_result) dict \<Rightarrow> guard_result \<Rightarrow> (guard_id, guard_result) dict" where
  "dedupe_step m g =
     (case dict_get m (guard_id_of g) of
        None \<Rightarrow> dict_set m (guard_id_of g) g
      | Some current \<Rightarrow>
          if severity_weight g > severity_weight current then dict_set m (guard_id_of g) g else m)"

definition dedupe :: "guard_result list \<Rightarrow> (guard_id, guard_result) dict" where
  "dedupe gs = foldl dedupe_step [] gs"

definition recalculate_guards :: "guard_rule list \<Rightarrow> world \<Rightarrow> world" where
  "recalculate_guards rules w =
     (let deduped = dedupe (evaluate_tracks rules (dict_values (w_tracks w)));
          results = sort_key (\<lambda>g. neg_key (sort_key_of g)) (dict_values deduped);
          warning_keys = map fst (filter (\<lambda>(k, g). g_severity g = ''warning'') deduped);
          new_warnings = length (filter (\<lambda>k. k \<notin> set (w_warning_keys w)) warning_keys)
      in w\<lparr>w_guards := results, w_metric_tracks := length (w_tracks w),
           w_metric_new_warnings := new_warnings, w_guard_keys := dict_keys deduped,
           w_warning_keys := warning_keys\<rparr>)"

section \<open>Eviction\<close>

definition discard_owned :: "string list \<Rightarrow> (string, string list) dict \<Rightarrow> (string, string list) dict" where
  "discard_owned ids owned = map (\<lambda>(k, xs). (k, filter (\<lambda>x. x \<notin> set ids) xs)) owned"

definition drop_empty :: "(string, string list) dict \<Rightarrow> (string, string list) dict" where
  "drop_empty owned = filter (\<lambda>(k, xs). xs \<noteq> []) owned"

definition pop_all :: "string list \<Rightarrow> (string, 'v) dict \<Rightarrow> (string, 'v) dict" where
  "pop_all ids m = foldl dict_pop m ids"

definition dead_ids :: "real \<Rightarrow> world \<Rightarrow> string list" where
  "dead_ids now w =
     filter (\<lambda>k. now - dict_getd (w_ingest w) k now \<ge> RADAR_TRACK_DEAD_S) (dict_keys (w_tracks w))"

definition evict_dead_tracks :: "guard_rule list \<Rightarrow> real \<Rightarrow> world \<Rightarrow> world" where
  "evict_dead_tracks rules now w =
     (let ids = dead_ids now w
      in if ids = [] then w
         else recalculate_guards rules
                (w\<lparr>w_tracks := pop_all ids (w_tracks w), w_ingest := pop_all ids (w_ingest w),
                   w_owned := drop_empty (discard_owned ids (w_owned w))\<rparr>))"

lemma length_dict_pop: "k \<in> fst ` set m \<Longrightarrow> length (dict_pop m k) < length m"
proof (induction m)
  case Nil
  then show ?case by simp
next
  case (Cons p m)
  have "length (dict_pop m k) \<le> length m" by (simp add: AList.delete_eq)
  with Cons show ?case by auto
qed

text \<open>
  The \<open>while\<close> loop that drops the oldest sensors. \<open>next\<close> would raise when the
  active sensor is the only key; the loop condition excludes it (\<open>evict_stale_bound\<close>).
\<close>

function evict_stale_frame_sensors :: "string \<Rightarrow> world \<Rightarrow> world" where
  "evict_stale_frame_sensors active w =
     (if length (w_owned w) > MAX_FRAME_SENSORS then
        (case find (\<lambda>kx. fst kx \<noteq> active) (w_owned w) of
           None \<Rightarrow> w
         | Some (k, ids) \<Rightarrow>
             evict_stale_frame_sensors active
               (w\<lparr>w_owned := dict_pop (w_owned w) k, w_tracks := pop_all ids (w_tracks w),
                  w_ingest := pop_all ids (w_ingest w)\<rparr>))
      else w)"
  by pat_completeness auto

termination
proof (relation "measure (\<lambda>(active, w). length (w_owned w))", goal_cases)
  case 1
  then show ?case by simp
next
  case (2 active w p k ids)
  then have "(k, ids) \<in> set (w_owned w)" by (metis find_Some_iff nth_mem)
  then have "k \<in> fst ` set (w_owned w)" by force
  with length_dict_pop [of k "w_owned w"] show ?case by simp
qed

declare evict_stale_frame_sensors.simps [simp del]

section \<open>Matching of frame detections\<close>

definition frame_score :: "detection \<Rightarrow> string \<times> radar_track \<Rightarrow> (real \<times> real \<times> real) option" where
  "frame_score d kt =
     (let t = snd kt;
          range_delta = \<bar>t_range_m t - d_range_m d\<bar>;
          bearing_delta = bearing_delta_deg (t_bearing_deg t) (d_bearing_deg d);
          elev_delta = \<bar>t_elev_deg t - d_elev_deg d\<bar>;
          radial_delta = \<bar>t_vr_mps t - d_vr_mps d\<bar>
      in if range_delta > 2500 \<or> bearing_delta > 12 \<or> elev_delta > 8 \<or> radial_delta > 250
         then None else Some (range_delta, bearing_delta + elev_delta, radial_delta))"

definition match_existing_frame_track_id :: "detection \<Rightarrow> (string, radar_track) dict \<Rightarrow> string option" where
  "match_existing_frame_track_id d existing =
     map_option (fst \<circ> snd) (scan_best lt3 (frame_score d) None existing)"

definition track_from_detection :: "real \<Rightarrow> string \<Rightarrow> detection \<Rightarrow> radar_track" where
  "track_from_detection wall tid d =
     \<lparr>t_track_id = tid, t_iff = FF_UNKNOWN, t_transponder_on = d_transponder_on d,
      t_transponder_mode = d_transponder_mode d, t_transponder_id = d_transponder_id d,
      t_quality = (if truthy_str (d_transponder_id d) then 1 else 1 / 2), t_status = TS_TRACKED,
      t_range_m = d_range_m d, t_bearing_deg = d_bearing_deg d, t_elev_deg = d_elev_deg d,
      t_vr_mps = d_vr_mps d, t_snr_db = d_snr_db d, t_rcs_dbsm = d_rcs_dbsm d,
      t_position = None, t_velocity = None, t_age_s = 0, t_miss_count = 0, t_timestamp = wall,
      t_range_band = RR_UNSPECIFIED, t_id_present = None\<rparr>"

fun match_frame ::
  "real \<Rightarrow> (nat \<Rightarrow> string) \<Rightarrow> nat \<Rightarrow> (string, radar_track) dict \<Rightarrow>
   (string, radar_track) dict \<Rightarrow> detection list \<Rightarrow> (string, radar_track) dict" where
  "match_frame wall fresh i remaining updated [] = updated"
| "match_frame wall fresh i remaining updated (d # ds) =
     (let m = match_existing_frame_track_id d remaining;
          remaining' = (case m of Some tid \<Rightarrow> if tid \<noteq> [] then dict_pop remaining tid else remaining
                        | None \<Rightarrow> remaining);
          tid = (case m of Some x \<Rightarrow> if x \<noteq> [] then x else fresh i | None \<Rightarrow> fresh i)
      in match_frame wall fresh (Suc i) remaining' (dict_set updated tid (track_from_detection wall tid d)) ds)"

text \<open>The candidates: every frame-derived track that still exists, whoever owns it.\<close>

definition frame_candidates :: "world \<Rightarrow> (string, radar_track) dict" where
  "frame_candidates w =
     foldl (\<lambda>m k. case dict_get (w_tracks w) k of None \<Rightarrow> m | Some t \<Rightarrow> dict_set m k t)
       [] (concat (dict_values (w_owned w)))"

section \<open>Ingest\<close>

definition ingest_track :: "guard_rule list \<Rightarrow> real \<Rightarrow> radar_track \<Rightarrow> world \<Rightarrow> world" where
  "ingest_track rules now t w =
     (let tid = t_track_id t
      in recalculate_guards rules
           (if t_status t = TS_LOST
            then w\<lparr>w_tracks := dict_pop (w_tracks w) tid, w_ingest := dict_pop (w_ingest w) tid,
                   w_owned := discard_owned [tid] (w_owned w)\<rparr>
            else w\<lparr>w_tracks := dict_set (w_tracks w) tid t, w_ingest := dict_set (w_ingest w) tid now\<rparr>))"

definition ingest_frame ::
  "guard_rule list \<Rightarrow> real \<Rightarrow> real \<Rightarrow> (nat \<Rightarrow> string) \<Rightarrow> string \<Rightarrow> frame \<Rightarrow> world \<Rightarrow> world" where
  "ingest_frame rules now wall fresh sensor f w =
     (let updated = match_frame wall fresh 0 (frame_candidates w) [] (f_detections f);
          previous = dict_getd (w_owned w) sensor [];
          gone = filter (\<lambda>k. k \<notin> set (dict_keys updated)) previous;
          w1 = w\<lparr>w_tracks := dict_update (pop_all gone (w_tracks w)) updated,
                 w_ingest := foldl (\<lambda>m k. dict_set m k now) (pop_all gone (w_ingest w)) (dict_keys updated),
                 w_owned := drop_empty (discard_owned (dict_keys updated) (dict_pop (w_owned w) sensor))\<rparr>;
          w2 = (if updated \<noteq> []
                then evict_stale_frame_sensors sensor
                       (w1\<lparr>w_owned := dict_set (w_owned w1) sensor (dict_keys updated)\<rparr>)
                else w1)
      in if updated \<noteq> [] \<or> previous \<noteq> [] then recalculate_guards rules w2 else w2)"

definition ingest_sensor_data ::
  "guard_rule list \<Rightarrow> real \<Rightarrow> real \<Rightarrow> (nat \<Rightarrow> string) \<Rightarrow> sensor_data \<Rightarrow> world \<Rightarrow> world" where
  "ingest_sensor_data rules now wall fresh sd w =
     (let w0 = evict_dead_tracks rules now w
      in if sd_type sd \<noteq> ST_RADAR then w0
         else case sd_track sd of
                Some t \<Rightarrow> ingest_track rules now t w0
              | None \<Rightarrow> (case sd_frame sd of
                            None \<Rightarrow> w0
                          | Some f \<Rightarrow> ingest_frame rules now wall fresh (sd_sensor_id sd) f w0))"

section \<open>Readers\<close>

text \<open>Each reader evicts dead tracks first, so it returns the changed world with its answer.\<close>

definition active_radar_tracks :: "guard_rule list \<Rightarrow> real \<Rightarrow> world \<Rightarrow> world \<times> radar_track list" where
  "active_radar_tracks rules now w =
     (let w' = evict_dead_tracks rules now w in (w', dict_values (w_tracks w')))"

definition world_guard_results :: "guard_rule list \<Rightarrow> real \<Rightarrow> world \<Rightarrow> world \<times> guard_result list" where
  "world_guard_results rules now w =
     (let w' = evict_dead_tracks rules now w in (w', w_guards w'))"

definition most_critical_guard :: "guard_rule list \<Rightarrow> real \<Rightarrow> world \<Rightarrow> world \<times> guard_result option" where
  "most_critical_guard rules now w =
     (let w' = evict_dead_tracks rules now w
      in (w', case w_guards w' of [] \<Rightarrow> None | g # _ \<Rightarrow> Some g))"

record world_view =
  wv_active_tracks :: nat
  wv_critical :: nat
  wv_warning :: nat
  wv_tracks :: "radar_track list"
  wv_guards :: "guard_result list"

definition world_snapshot :: "guard_rule list \<Rightarrow> real \<Rightarrow> world \<Rightarrow> world \<times> world_view" where
  "world_snapshot rules now w =
     (let w' = evict_dead_tracks rules now w
      in (w', \<lparr>wv_active_tracks = length (w_tracks w'),
               wv_critical = length (filter (\<lambda>g. g_severity g = ''critical'') (w_guards w')),
               wv_warning = length (filter (\<lambda>g. g_severity g = ''warning'') (w_guards w')),
               wv_tracks = dict_values (w_tracks w'), wv_guards = w_guards w'\<rparr>))"


section \<open>Ownership lemmas\<close>

abbreviation owned_ids :: "(string, string list) dict \<Rightarrow> string list" where
  "owned_ids owned \<equiv> concat (dict_values owned)"

lemma owned_ids_discard [simp]: "owned_ids (discard_owned ids owned) = filter (\<lambda>x. x \<notin> set ids) (owned_ids owned)"
  by (induction owned) (auto simp: discard_owned_def)

lemma owned_ids_drop [simp]: "owned_ids (drop_empty owned) = owned_ids owned"
  by (induction owned) (auto simp: drop_empty_def)

lemma keys_discard [simp]: "dict_keys (discard_owned ids owned) = dict_keys owned"
  by (induction owned) (auto simp: discard_owned_def)

lemma wf_discard [simp]: "wf_dict (discard_owned ids owned) = wf_dict owned"
  by (simp add: wf_dict_def)

lemma wf_drop [simp]: "wf_dict owned \<Longrightarrow> wf_dict (drop_empty owned)"
  by (simp add: drop_empty_def)

lemma length_drop_discard: "length (drop_empty (discard_owned ids owned)) \<le> length owned"
  unfolding drop_empty_def discard_owned_def by (metis length_filter_le length_map)

lemma keys_drop: "fst ` set (drop_empty owned) \<subseteq> fst ` set owned"
  by (auto simp: drop_empty_def)

lemma keys_discard_set [simp]: "fst ` set (discard_owned ids owned) = fst ` set owned"
  using keys_discard [of ids owned] by (metis list.set_map)

lemma owned_ids_pop:
  "wf_dict owned \<Longrightarrow> distinct (owned_ids owned) \<Longrightarrow>
     set (owned_ids (dict_pop owned k)) = set (owned_ids owned) - set (dict_getd owned k []) \<and>
     distinct (owned_ids (dict_pop owned k))"
proof (induction owned)
  case Nil
  then show ?case by (simp add: dict_getd_def)
next
  case (Cons p owned)
  obtain k' xs where p: "p = (k', xs)" by (cases p)
  note IH = Cons.IH
  from Cons.prems have wf: "wf_dict owned" "distinct (owned_ids owned)" "k' \<notin> fst ` set owned"
    and xs: "distinct xs" "set xs \<inter> set (owned_ids owned) = {}"
    by (auto simp: p wf_dict_def)
  show ?case
  proof (cases "k' = k")
    case True
    with wf have "dict_pop owned k = owned" by simp
    with True wf xs show ?thesis by (simp add: p dict_getd_def) blast
  next
    case False
    have sub: "set (dict_getd owned k []) \<subseteq> set (owned_ids owned)"
    proof (cases "dict_get owned k")
      case (Some ys)
      then have "ys \<in> set (dict_values owned)" by (force dest: map_of_SomeD)
      with Some show ?thesis by (auto simp: dict_getd_def)
    qed (simp add: dict_getd_def)
    have getd: "dict_getd (p # owned) k [] = dict_getd owned k []" using False by (simp add: p dict_getd_def)
    have pop: "owned_ids (dict_pop (p # owned) k) = xs @ owned_ids (dict_pop owned k)"
      and all: "owned_ids (p # owned) = xs @ owned_ids owned" using False by (simp_all add: p)
    show ?thesis using IH [OF wf(1,2)] xs sub unfolding getd pop all set_append distinct_append by blast
  qed
qed

lemma pop_all_simps [simp]:
  "pop_all [] m = m" "pop_all (k # ks) m = pop_all ks (dict_pop m k)"
  by (simp_all add: pop_all_def)

lemma keys_pop_all [simp]: "fst ` set (pop_all ks m) = fst ` set m - set ks"
  by (induction ks arbitrary: m) auto

lemma wf_pop_all [simp]: "wf_dict m \<Longrightarrow> wf_dict (pop_all ks m)"
  by (induction ks arbitrary: m) auto

lemma pop_all_get [simp]: "dict_get (pop_all ks m) k = (if k \<in> set ks then None else dict_get m k)"
  by (induction ks arbitrary: m) auto

section \<open>The invariant\<close>

definition guards_of :: "guard_rule list \<Rightarrow> (string, radar_track) dict \<Rightarrow> guard_result list" where
  "guards_of rules tracks =
     sort_key (\<lambda>g. neg_key (sort_key_of g)) (dict_values (dedupe (evaluate_tracks rules (dict_values tracks))))"

definition keyed :: "(string, radar_track) dict \<Rightarrow> bool" where
  "keyed tracks \<longleftrightarrow> wf_dict tracks \<and> (\<forall>(k, t)\<in>set tracks. t_track_id t = k)"

text \<open>Everything but the bound on sensors and the guards, which hold between operations only.\<close>

definition world_core :: "world \<Rightarrow> bool" where
  "world_core w \<longleftrightarrow> keyed (w_tracks w) \<and> wf_dict (w_owned w) \<and> wf_dict (w_ingest w) \<and>
     fst ` set (w_ingest w) = fst ` set (w_tracks w) \<and>
     distinct (owned_ids (w_owned w)) \<and> set (owned_ids (w_owned w)) \<subseteq> fst ` set (w_tracks w)"

definition world_inv :: "guard_rule list \<Rightarrow> world \<Rightarrow> bool" where
  "world_inv rules w \<longleftrightarrow> world_core w \<and> length (w_owned w) \<le> MAX_FRAME_SENSORS \<and>
     w_guards w = guards_of rules (w_tracks w)"

lemma keyed_pop [intro]: "keyed m \<Longrightarrow> keyed (dict_pop m k)"
  by (auto simp: keyed_def AList.delete_eq)

lemma keyed_pop_all [intro]: "keyed m \<Longrightarrow> keyed (pop_all ks m)"
  by (induction ks arbitrary: m) auto

lemma keyed_set [intro]: "keyed m \<Longrightarrow> t_track_id t = k \<Longrightarrow> keyed (dict_set m k t)"
  by (fastforce simp: keyed_def dest: set_dict_set_cases)

lemma keyed_update: "keyed m \<Longrightarrow> keyed u \<Longrightarrow> keyed (dict_update m u)"
proof (induction m u rule: dict_update.induct)
  case (2 m k v u)
  then have "t_track_id v = k" "keyed u" by (auto simp: keyed_def wf_dict_def)
  with 2 show ?case by (simp add: keyed_set)
qed simp

lemma recalculate_simps [simp]:
  "w_tracks (recalculate_guards rules w) = w_tracks w"
  "w_owned (recalculate_guards rules w) = w_owned w"
  "w_ingest (recalculate_guards rules w) = w_ingest w"
  "w_guards (recalculate_guards rules w) = guards_of rules (w_tracks w)"
  by (simp_all add: recalculate_guards_def guards_of_def Let_def)

lemma recalculate_core [simp]: "world_core (recalculate_guards rules w) = world_core w"
  by (simp add: world_core_def)

lemma recalculate_inv: "world_core w \<Longrightarrow> length (w_owned w) \<le> MAX_FRAME_SENSORS \<Longrightarrow>
    world_inv rules (recalculate_guards rules w)"
  by (simp add: world_inv_def)

lemma evict_dead_inv: "world_inv rules w \<Longrightarrow> world_inv rules (evict_dead_tracks rules now w)"
proof (cases "dead_ids now w = []")
  case True
  assume "world_inv rules w"
  with True show ?thesis by (simp add: evict_dead_tracks_def)
next
  case False
  assume inv: "world_inv rules w"
  let ?ids = "dead_ids now w"
  let ?w = "w\<lparr>w_tracks := pop_all ?ids (w_tracks w), w_ingest := pop_all ?ids (w_ingest w),
              w_owned := drop_empty (discard_owned ?ids (w_owned w))\<rparr>"
  have "world_core ?w" using inv by (auto simp: world_inv_def world_core_def)
  moreover have "length (w_owned ?w) \<le> MAX_FRAME_SENSORS"
    using inv length_drop_discard [of ?ids "w_owned w"] by (simp add: world_inv_def)
  ultimately have "world_inv rules (recalculate_guards rules ?w)" by (rule recalculate_inv)
  with False show ?thesis by (simp add: evict_dead_tracks_def Let_def)
qed

lemma evict_stale_core:
  "world_core w \<Longrightarrow> world_core (evict_stale_frame_sensors active w)"
proof (induction active w rule: evict_stale_frame_sensors.induct)
  case (1 active w)
  show ?case
  proof (cases "length (w_owned w) > MAX_FRAME_SENSORS \<and> find (\<lambda>kx. fst kx \<noteq> active) (w_owned w) \<noteq> None")
    case False
    then show ?thesis
      using 1(2) by (subst evict_stale_frame_sensors.simps) (auto split: option.splits)
  next
    case True
    then obtain k ids where f: "find (\<lambda>kx. fst kx \<noteq> active) (w_owned w) = Some (k, ids)" by auto
    then have mem: "(k, ids) \<in> set (w_owned w)" by (metis find_Some_iff nth_mem)
    let ?w = "w\<lparr>w_owned := dict_pop (w_owned w) k, w_tracks := pop_all ids (w_tracks w),
                w_ingest := pop_all ids (w_ingest w)\<rparr>"
    have "dict_getd (w_owned w) k [] = ids"
      using mem 1(2) by (simp add: world_core_def wf_dict_def dict_getd_def)
    with owned_ids_pop [of "w_owned w" k] 1(2) have "world_core ?w"
      by (auto simp: world_core_def)
    with 1(1) [OF _ f refl] True f show ?thesis
      by (subst evict_stale_frame_sensors.simps) simp
  qed
qed

lemma two_keys_find:
  assumes "wf_dict m" "1 < length m" shows "find (\<lambda>kx. fst kx \<noteq> active) m \<noteq> None"
proof
  assume "find (\<lambda>kx. fst kx \<noteq> active) m = None"
  then have "set (dict_keys m) \<subseteq> {active}" by (auto simp: find_None_iff)
  then have "card (set (dict_keys m)) \<le> 1" by (metis card.empty card_mono finite.simps is_singletonI is_singleton_altdef)
  with assms show False by (metis distinct_card leD length_map wf_dict_def)
qed

lemma evict_stale_bound:
  "wf_dict (w_owned w) \<Longrightarrow> length (w_owned (evict_stale_frame_sensors active w)) \<le> MAX_FRAME_SENSORS"
proof (induction active w rule: evict_stale_frame_sensors.induct)
  case (1 active w)
  show ?case
  proof (cases "length (w_owned w) > MAX_FRAME_SENSORS")
    case False
    then show ?thesis by (subst evict_stale_frame_sensors.simps) simp
  next
    case True
    then have "find (\<lambda>kx. fst kx \<noteq> active) (w_owned w) \<noteq> None"
      using two_keys_find [OF 1(2)] by (simp add: MAX_FRAME_SENSORS_def)
    then obtain k ids where f: "find (\<lambda>kx. fst kx \<noteq> active) (w_owned w) = Some (k, ids)" by auto
    with 1(1) [OF True f refl] 1(2) True show ?thesis
      by (subst evict_stale_frame_sensors.simps) simp
  qed
qed


lemma keyed_Nil [simp]: "keyed []"
  by (simp add: keyed_def)

lemma track_from_detection_id [simp]:
  "t_track_id (track_from_detection wall tid d) = tid"
  "t_status (track_from_detection wall tid d) = TS_TRACKED"
  by (simp_all add: track_from_detection_def)

lemma match_frame_keyed: "keyed u \<Longrightarrow> keyed (match_frame wall fresh i r u ds)"
  by (induction ds arbitrary: i r u) (simp_all add: Let_def keyed_set)

lemma wf_fold_set: "wf_dict m \<Longrightarrow> wf_dict (foldl (\<lambda>m k. dict_set m k v) m ks)"
  by (induction ks arbitrary: m) auto

lemma keys_fold_set: "fst ` set (foldl (\<lambda>m k. dict_set m k v) m ks) = fst ` set m \<union> set ks"
  by (induction ks arbitrary: m) auto

lemma keys_update_set: "fst ` set (dict_update m u) = fst ` set m \<union> fst ` set u"
  using keys_dict_update [of m u] by simp

lemma keyed_wf: "keyed m \<Longrightarrow> wf_dict m"
  by (simp add: keyed_def)

lemma pop_all_values: "set (dict_values (pop_all ks m)) \<subseteq> set (dict_values m)"
proof (induction ks arbitrary: m)
  case (Cons k ks)
  have "set (dict_values (dict_pop m k)) \<subseteq> set (dict_values m)" by (auto simp: AList.delete_eq)
  with Cons [of "dict_pop m k"] show ?case by auto
qed simp

text \<open>The world after a frame, before the sensor bound and the guards are restored.\<close>

definition frame_effect :: "real \<Rightarrow> real \<Rightarrow> (nat \<Rightarrow> string) \<Rightarrow> string \<Rightarrow> frame \<Rightarrow> world \<Rightarrow> world" where
  "frame_effect now wall fresh sensor f w =
     (let updated = match_frame wall fresh 0 (frame_candidates w) [] (f_detections f);
          gone = filter (\<lambda>k. k \<notin> set (dict_keys updated)) (dict_getd (w_owned w) sensor [])
      in w\<lparr>w_tracks := dict_update (pop_all gone (w_tracks w)) updated,
           w_ingest := foldl (\<lambda>m k. dict_set m k now) (pop_all gone (w_ingest w)) (dict_keys updated),
           w_owned := drop_empty (discard_owned (dict_keys updated) (dict_pop (w_owned w) sensor))\<rparr>)"

definition frame_tracks :: "real \<Rightarrow> (nat \<Rightarrow> string) \<Rightarrow> frame \<Rightarrow> world \<Rightarrow> (string, radar_track) dict" where
  "frame_tracks wall fresh f w = match_frame wall fresh 0 (frame_candidates w) [] (f_detections f)"

lemma frame_effect_core:
  assumes "world_core w" shows "world_core (frame_effect now wall fresh sensor f w)"
proof -
  define u where "u = frame_tracks wall fresh f w"
  define prev where "prev = dict_getd (w_owned w) sensor []"
  define gone where "gone = filter (\<lambda>k. k \<notin> set (dict_keys u)) prev"
  have ku: "keyed u" unfolding u_def frame_tracks_def by (rule match_frame_keyed) simp
  have core: "keyed (w_tracks w)" "wf_dict (w_owned w)" "wf_dict (w_ingest w)"
    "fst ` set (w_ingest w) = fst ` set (w_tracks w)" "distinct (owned_ids (w_owned w))"
    "set (owned_ids (w_owned w)) \<subseteq> fst ` set (w_tracks w)"
    using assms by (simp_all add: world_core_def)
  note pop = owned_ids_pop [OF core(2,5), of sensor]
  have eff: "frame_effect now wall fresh sensor f w = w\<lparr>
      w_tracks := dict_update (pop_all gone (w_tracks w)) u,
      w_ingest := foldl (\<lambda>m k. dict_set m k now) (pop_all gone (w_ingest w)) (dict_keys u),
      w_owned := drop_empty (discard_owned (dict_keys u) (dict_pop (w_owned w) sensor))\<rparr>"
    by (simp add: frame_effect_def Let_def u_def frame_tracks_def prev_def gone_def)
  have "set (owned_ids (dict_pop (w_owned w) sensor)) \<inter> set gone = {}"
    using pop by (auto simp: gone_def prev_def)
  then show ?thesis
    unfolding eff world_core_def using core pop ku
    by (auto simp: wf_fold_set keys_fold_set keys_update_set keyed_update keyed_pop_all)
qed

lemma frame_effect_owned_length:
  "length (w_owned (frame_effect now wall fresh sensor f w)) \<le> length (w_owned w)"
proof -
  have "length (dict_pop (w_owned w) sensor) \<le> length (w_owned w)" by (simp add: AList.delete_eq)
  from le_trans [OF length_drop_discard this] show ?thesis by (simp add: frame_effect_def Let_def)
qed

lemma ingest_frame_split:
  "ingest_frame rules now wall fresh sensor f w =
     (let u = frame_tracks wall fresh f w; w1 = frame_effect now wall fresh sensor f w;
          w2 = (if u \<noteq> [] then evict_stale_frame_sensors sensor
                   (w1\<lparr>w_owned := dict_set (w_owned w1) sensor (dict_keys u)\<rparr>) else w1)
      in if u \<noteq> [] \<or> dict_getd (w_owned w) sensor [] \<noteq> [] then recalculate_guards rules w2 else w2)"
  by (simp add: ingest_frame_def frame_tracks_def frame_effect_def Let_def)

lemma sensor_not_owner: "sensor \<notin> fst ` set (w_owned (frame_effect now wall fresh sensor f w))"
proof -
  have "fst ` set (drop_empty (discard_owned ids (dict_pop (w_owned w) sensor)))
      \<subseteq> fst ` set (w_owned w) - {sensor}" for ids
    using keys_drop [of "discard_owned ids (dict_pop (w_owned w) sensor)"] by simp
  then show ?thesis unfolding frame_effect_def Let_def by auto
qed

lemma frame_claim_core:
  assumes "world_core w" and "u = frame_tracks wall fresh f w"
    and "w1 = frame_effect now wall fresh sensor f w"
  shows "world_core (w1\<lparr>w_owned := dict_set (w_owned w1) sensor (dict_keys u)\<rparr>)"
proof -
  have core: "world_core w1" using frame_effect_core [OF assms(1)] assms(3) by simp
  have new: "dict_set (w_owned w1) sensor (dict_keys u) = w_owned w1 @ [(sensor, dict_keys u)]"
    using sensor_not_owner assms(3) by (simp add: dict_set_new)
  have "keyed u" unfolding assms(2) frame_tracks_def by (rule match_frame_keyed) simp
  then have du: "distinct (dict_keys u)" by (simp add: keyed_def wf_dict_def)
  have "set (owned_ids (w_owned w1)) \<inter> set (dict_keys u) = {}"
    by (auto simp: assms(2,3) frame_effect_def Let_def frame_tracks_def)
  moreover have "set (dict_keys u) \<subseteq> fst ` set (w_tracks w1)"
    by (auto simp: assms(2,3) frame_effect_def Let_def frame_tracks_def keys_update_set)
  moreover have "wf_dict (dict_set (w_owned w1) sensor (dict_keys u))"
    using core by (simp add: world_core_def)
  ultimately show ?thesis
    using core du unfolding world_core_def new by auto
qed

lemma ingest_frame_inv:
  assumes inv: "world_inv rules w"
  shows "world_inv rules (ingest_frame rules now wall fresh sensor f w)"
proof -
  define u where "u = frame_tracks wall fresh f w"
  define w1 where "w1 = frame_effect now wall fresh sensor f w"
  have core: "world_core w" and len: "length (w_owned w) \<le> MAX_FRAME_SENSORS"
    using inv by (simp_all add: world_inv_def)
  have core1: "world_core w1" unfolding w1_def by (rule frame_effect_core [OF core])
  have len1: "length (w_owned w1) \<le> MAX_FRAME_SENSORS"
    using frame_effect_owned_length len unfolding w1_def by (rule le_trans)
  note claim = frame_claim_core [OF core u_def w1_def]
  show ?thesis
  proof (cases "u = []")
    case False
    let ?w2 = "evict_stale_frame_sensors sensor (w1\<lparr>w_owned := dict_set (w_owned w1) sensor (dict_keys u)\<rparr>)"
    have "world_inv rules (recalculate_guards rules ?w2)"
      by (intro recalculate_inv evict_stale_core claim evict_stale_bound) (use claim in \<open>simp add: world_core_def\<close>)
    with False show ?thesis by (simp add: ingest_frame_split Let_def flip: u_def w1_def)
  next
    case True
    show ?thesis
    proof (cases "dict_getd (w_owned w) sensor [] = []")
      case False
      with True recalculate_inv [OF core1 len1] show ?thesis
        by (simp add: ingest_frame_split Let_def flip: u_def w1_def)
    next
      case prev: True
      have "w_tracks w1 = w_tracks w" "w_guards w1 = w_guards w"
        using True prev by (simp_all add: w1_def u_def frame_tracks_def frame_effect_def)
      with core1 len1 inv True prev show ?thesis
        by (simp add: ingest_frame_split Let_def world_inv_def flip: u_def w1_def)
    qed
  qed
qed

lemma ingest_track_inv:
  assumes "world_inv rules w" shows "world_inv rules (ingest_track rules now t w)"
proof -
  have core: "world_core w" and len: "length (w_owned w) \<le> MAX_FRAME_SENSORS"
    using assms by (simp_all add: world_inv_def)
  let ?id = "t_track_id t"
  have "length (discard_owned [?id] (w_owned w)) = length (w_owned w)"
    by (simp add: discard_owned_def)
  moreover have "world_core (w\<lparr>w_tracks := dict_pop (w_tracks w) ?id,
      w_ingest := dict_pop (w_ingest w) ?id, w_owned := discard_owned [?id] (w_owned w)\<rparr>)"
    using core unfolding world_core_def by (auto simp del: set_concat)
  moreover have "world_core (w\<lparr>w_tracks := dict_set (w_tracks w) ?id t,
      w_ingest := dict_set (w_ingest w) ?id now\<rparr>)"
    using core unfolding world_core_def by (auto simp del: set_concat)
  ultimately show ?thesis
    using len by (simp add: ingest_track_def Let_def recalculate_inv)
qed

lemma ingest_inv: "world_inv rules w \<Longrightarrow> world_inv rules (ingest_sensor_data rules now wall fresh sd w)"
  by (auto simp: ingest_sensor_data_def Let_def evict_dead_inv ingest_track_inv ingest_frame_inv
      split: option.splits)


section \<open>The world as a machine\<close>

text \<open>Every reader evicts, so a read at a time is an event as well.\<close>

datatype world_event =
    Ingest real real "nat \<Rightarrow> string" sensor_data
  | Read real

fun world_step :: "guard_rule list \<Rightarrow> world \<Rightarrow> world_event \<Rightarrow> world" where
  "world_step rules w (Ingest now wall fresh sd) = ingest_sensor_data rules now wall fresh sd w"
| "world_step rules w (Read now) = fst (world_guard_results rules now w)"

lemma world_step_inv: "world_inv rules w \<Longrightarrow> world_inv rules (world_step rules w e)"
  by (cases e) (simp_all add: ingest_inv evict_dead_inv world_guard_results_def Let_def)

interpretation agent_world: inv_machine "world_step rules" "world_inv rules" for rules
  by unfold_locales (rule world_step_inv)

lemma guards_of_Nil [simp]: "guards_of rules [] = []"
  by (simp add: guards_of_def dedupe_def)

lemma empty_world_inv [simp]: "world_inv rules empty_world"
  by (simp add: world_inv_def world_core_def empty_world_def)

section \<open>What the guard list holds\<close>

definition dedupe_ok :: "guard_result list \<Rightarrow> (guard_id, guard_result) dict \<Rightarrow> bool" where
  "dedupe_ok gs m \<longleftrightarrow> wf_dict m \<and> (\<forall>(k, g)\<in>set m. k = guard_id_of g \<and> g \<in> set gs) \<and>
     (\<forall>g\<in>set gs. \<exists>g'. dict_get m (guard_id_of g) = Some g' \<and> severity_weight g \<le> severity_weight g')"

lemma dedupe_step_ok:
  assumes "dedupe_ok gs m" shows "dedupe_ok (gs @ [g]) (dedupe_step m g)"
proof (cases "dict_get m (guard_id_of g)")
  case None
  then have "\<And>g'. g' \<in> set gs \<Longrightarrow> guard_id_of g' \<noteq> guard_id_of g"
    using assms by (fastforce simp: dedupe_ok_def)
  with None assms show ?thesis
    by (fastforce simp: dedupe_ok_def dedupe_step_def dest: set_dict_set_cases)
next
  case (Some c)
  show ?thesis
  proof (cases "severity_weight g > severity_weight c")
    case True
    have "\<exists>g''. dict_get (dict_set m (guard_id_of g) g) (guard_id_of g') = Some g'' \<and>
        severity_weight g' \<le> severity_weight g''" if "g' \<in> set gs" for g'
    proof -
      have "\<exists>g''. dict_get m (guard_id_of g') = Some g'' \<and> severity_weight g' \<le> severity_weight g''"
        using assms that by (simp add: dedupe_ok_def)
      then obtain g'' where "dict_get m (guard_id_of g') = Some g''" "severity_weight g' \<le> severity_weight g''"
        by blast
      with True Some show ?thesis by (cases "guard_id_of g' = guard_id_of g") auto
    qed
    with True Some assms show ?thesis
      by (fastforce simp: dedupe_ok_def dedupe_step_def dest: set_dict_set_cases)
  next
    case False
    with Some assms show ?thesis by (force simp: dedupe_ok_def dedupe_step_def)
  qed
qed

lemma dedupe_ok: "dedupe_ok gs (dedupe gs)"
proof (induction gs rule: rev_induct)
  case Nil
  then show ?case by (simp add: dedupe_ok_def dedupe_def)
next
  case (snoc g gs)
  then show ?case using dedupe_step_ok [of gs "dedupe gs" g] by (simp add: dedupe_def)
qed

lemma guards_of_sound:
  assumes "g \<in> set (guards_of rules tracks)"
  shows "\<exists>r t. r \<in> set rules \<and> t \<in> set (dict_values tracks) \<and> rule_matches r t False None \<and>
           g = build_result r t"
proof -
  have "g \<in> set (evaluate_tracks rules (dict_values tracks))"
    using assms dedupe_ok [of "evaluate_tracks rules (dict_values tracks)"]
    by (fastforce simp: guards_of_def dedupe_ok_def)
  then show ?thesis by (auto simp: set_evaluate_tracks)
qed

lemma guards_of_complete:
  assumes "r \<in> set rules" "t \<in> set (dict_values tracks)" "rule_matches r t False None"
  shows "\<exists>g\<in>set (guards_of rules tracks).
           g_rule_id g = r_id r \<and> g_track_id g = t_track_id t \<and>
           severity_weight (build_result r t) \<le> severity_weight g"
proof -
  let ?gs = "evaluate_tracks rules (dict_values tracks)"
  have "build_result r t \<in> set ?gs" unfolding set_evaluate_tracks using assms by blast
  then obtain g where g: "dict_get (dedupe ?gs) (guard_id_of (build_result r t)) = Some g"
    "severity_weight (build_result r t) \<le> severity_weight g"
    using dedupe_ok [of ?gs] by (auto simp: dedupe_ok_def)
  then have mem: "(guard_id_of (build_result r t), g) \<in> set (dedupe ?gs)" by (simp add: map_of_SomeD)
  then have "guard_id_of (build_result r t) = guard_id_of g"
    using dedupe_ok [of ?gs] by (auto simp: dedupe_ok_def)
  moreover have "g \<in> set (guards_of rules tracks)" using mem by (force simp: guards_of_def)
  ultimately show ?thesis using g(2) by (auto simp: guard_id_of_def)
qed

lemma guards_of_head:
  assumes "guards_of rules tracks = g # gs" "g' \<in> set gs"
  shows "severity_weight g' \<le> severity_weight g"
proof -
  have "sorted (map (\<lambda>g. neg_key (sort_key_of g)) (guards_of rules tracks))"
    by (simp add: guards_of_def)
  with assms have "neg_key (sort_key_of g) \<le> neg_key (sort_key_of g')" by simp
  then show ?thesis by (auto simp: neg_key_def sort_key_of_def less_eq_prod_def)
qed

lemma evict_dead_fresh:
  assumes "world_core w" "k \<in> fst ` set (w_tracks (evict_dead_tracks rules now w))"
  shows "now - dict_getd (w_ingest (evict_dead_tracks rules now w)) k now < RADAR_TRACK_DEAD_S"
proof (cases "dead_ids now w = []")
  case True
  with assms(2) show ?thesis
    by (force simp: evict_dead_tracks_def dead_ids_def filter_empty_conv)
next
  case False
  then have "k \<in> fst ` set (w_tracks w)" "k \<notin> set (dead_ids now w)"
    using assms(2) by (auto simp: evict_dead_tracks_def Let_def)
  with False show ?thesis
    by (auto simp: evict_dead_tracks_def Let_def dict_getd_def dead_ids_def)
qed


section \<open>The tracks after a frame\<close>

lemma dict_get_update:
  "wf_dict u \<Longrightarrow> dict_get (dict_update m u) k = (case dict_get u k of Some v \<Rightarrow> Some v | None \<Rightarrow> dict_get m k)"
proof (induction m u rule: dict_update.induct)
  case (2 m k' v u)
  then have "dict_get u k' = None" by (simp add: wf_dict_def map_of_eq_None_iff)
  with 2 show ?case by (auto simp: wf_dict_def split: option.splits)
qed simp

lemma frame_effect_lookup:
  assumes "u = frame_tracks wall fresh f w"
  shows "dict_get (w_tracks (frame_effect now wall fresh sensor f w)) k =
           (case dict_get u k of Some t \<Rightarrow> Some t
            | None \<Rightarrow> if k \<in> set (dict_getd (w_owned w) sensor []) then None else dict_get (w_tracks w) k)"
proof -
  have "keyed u" unfolding assms frame_tracks_def by (rule match_frame_keyed) simp
  then have wf: "wf_dict u" by (simp add: keyed_def)
  have tr: "w_tracks (frame_effect now wall fresh sensor f w) = dict_update (pop_all
      (filter (\<lambda>k. k \<notin> set (dict_keys u)) (dict_getd (w_owned w) sensor [])) (w_tracks w)) u"
    by (simp add: assms frame_effect_def frame_tracks_def Let_def)
  show ?thesis
    unfolding tr dict_get_update [OF wf]
  proof (cases "dict_get u k")
    case None
    then have "k \<notin> fst ` set u" by (simp add: map_of_eq_None_iff)
    with None show "(case dict_get u k of None \<Rightarrow> dict_get (pop_all (filter (\<lambda>k. k \<notin> set (dict_keys u))
        (dict_getd (w_owned w) sensor [])) (w_tracks w)) k | Some t \<Rightarrow> Some t) = (case dict_get u k of
        None \<Rightarrow> if k \<in> set (dict_getd (w_owned w) sensor []) then None else dict_get (w_tracks w) k
        | Some t \<Rightarrow> Some t)" by simp
  qed simp
qed

lemma evict_stale_id: "length (w_owned w) \<le> MAX_FRAME_SENSORS \<Longrightarrow> evict_stale_frame_sensors a w = w"
  by (subst evict_stale_frame_sensors.simps) simp

lemma owner_room:
  assumes "world_inv rules w" "length (w_owned w) < MAX_FRAME_SENSORS \<or> sensor \<in> fst ` set (w_owned w)"
  shows "length (w_owned (frame_effect now wall fresh sensor f w)) < MAX_FRAME_SENSORS"
proof -
  have "length (dict_pop (w_owned w) sensor) < MAX_FRAME_SENSORS"
  proof (cases "sensor \<in> fst ` set (w_owned w)")
    case True
    from length_dict_pop [OF this] assms(1) show ?thesis by (simp add: world_inv_def)
  next
    case False
    with assms(2) show ?thesis by simp
  qed
  from le_less_trans [OF length_drop_discard this] show ?thesis
    by (simp add: frame_effect_def Let_def)
qed

section \<open>Properties\<close>

text \<open>
  C7. After any sequence of sensor readings and reads, the world is consistent: tracks are
  stored under their own identifier and have an ingest time, every frame-derived identifier is
  owned by exactly one sensor and names a live track, at most 16 sensors own tracks, and the
  guard list is the one the current tracks give.
\<close>

theorem world_consistent:
  "(let w = foldl (world_step rules) empty_world es in
    keyed (w_tracks w) \<and> fst ` set (w_ingest w) = fst ` set (w_tracks w) \<and>
    distinct (owned_ids (w_owned w)) \<and> set (owned_ids (w_owned w)) \<subseteq> fst ` set (w_tracks w) \<and>
    length (w_owned w) \<le> MAX_FRAME_SENSORS \<and> w_guards w = guards_of rules (w_tracks w))"
proof -
  have "world_inv rules (foldl (world_step rules) empty_world es)" by (rule agent_world.run_inv) simp
  then show ?thesis unfolding world_inv_def world_core_def Let_def by blast
qed

text \<open>
  C6. No phantom guard: whatever the agent reads at time \<open>now\<close>, each guard result it
  gets was produced by a rule of the table that matches the track as stored, and that track was
  ingested less than \<open>RADAR_TRACK_DEAD_S\<close> seconds ago.
\<close>

theorem world_no_phantom_guard:
  "(let w = foldl (world_step rules) empty_world es;
        (w', gs) = world_guard_results rules now w
    in list_all (\<lambda>g.
         now - dict_getd (w_ingest w') (g_track_id g) now < RADAR_TRACK_DEAD_S \<and>
         opt_test (dict_get (w_tracks w') (g_track_id g))
           (\<lambda>t. list_ex (\<lambda>r. rule_matches r t False None \<and> g = build_result r t) rules)) gs)"
proof -
  define w where "w = foldl (world_step rules) empty_world es"
  define w' where "w' = evict_dead_tracks rules now w"
  have inv: "world_inv rules w" unfolding w_def by (rule agent_world.run_inv) simp
  then have inv': "world_inv rules w'" unfolding w'_def by (rule evict_dead_inv)
  have "now - dict_getd (w_ingest w') (g_track_id g) now < RADAR_TRACK_DEAD_S \<and>
      opt_test (dict_get (w_tracks w') (g_track_id g))
        (\<lambda>t. list_ex (\<lambda>r. rule_matches r t False None \<and> g = build_result r t) rules)"
    if g: "g \<in> set (w_guards w')" for g
  proof -
    have "g \<in> set (guards_of rules (w_tracks w'))" using g inv' by (simp add: world_inv_def)
    then obtain r k t where r: "r \<in> set rules" "(k, t) \<in> set (w_tracks w')"
      "rule_matches r t False None" "g = build_result r t" using guards_of_sound by fastforce
    have keyed: "keyed (w_tracks w')" using inv' by (simp add: world_inv_def world_core_def)
    then have k: "g_track_id g = k" "dict_get (w_tracks w') k = Some t"
      using r by (auto simp: keyed_def wf_dict_def)
    have "k \<in> fst ` set (w_tracks w')" using r(2) by force
    then have "now - dict_getd (w_ingest w') k now < RADAR_TRACK_DEAD_S"
      unfolding w'_def using inv by (intro evict_dead_fresh) (simp_all add: world_inv_def)
    with k r show ?thesis by (auto simp: list_ex_iff)
  qed
  then show ?thesis
    by (simp add: Let_def world_guard_results_def list_all_iff flip: w_def w'_def)
qed

text \<open>
  \<open>most_critical_guard\<close> is right in every run: it answers \<open>None\<close> exactly
  when no rule matches a live track, and otherwise its severity is at least that of every rule
  that matches a live track.
\<close>

theorem world_most_critical_guard:
  "(let (w', top) = most_critical_guard rules now (foldl (world_step rules) empty_world es);
        matching = [severity_order (r_severity r).
                      t \<leftarrow> dict_values (w_tracks w'), r \<leftarrow> rules, rule_matches r t False None]
    in case top of None \<Rightarrow> matching = []
       | Some g \<Rightarrow> severity_weight g \<in> set matching \<and> list_all (\<lambda>s. s \<le> severity_weight g) matching)"
proof -
  define w' where "w' = evict_dead_tracks rules now (foldl (world_step rules) empty_world es)"
  have "world_inv rules w'" unfolding w'_def
    by (intro evict_dead_inv agent_world.run_inv) simp
  then have gs: "w_guards w' = guards_of rules (w_tracks w')" by (simp add: world_inv_def)
  show ?thesis
  proof (cases "w_guards w'")
    case Nil
    then have "\<not> rule_matches r t False None"
      if "r \<in> set rules" "t \<in> set (dict_values (w_tracks w'))" for r t
      using guards_of_complete [OF that] gs by auto
    with Nil show ?thesis
      by (auto simp: most_critical_guard_def Let_def concat_eq_Nil_conv simp flip: w'_def)
  next
    case (Cons g gs')
    then have g: "g \<in> set (guards_of rules (w_tracks w'))" using gs by simp
    then have "\<exists>r t. r \<in> set rules \<and> t \<in> set (dict_values (w_tracks w')) \<and>
        rule_matches r t False None \<and> g = build_result r t" by (rule guards_of_sound)
    moreover have "severity_order (r_severity r) \<le> severity_weight g"
      if "r \<in> set rules" "t \<in> set (dict_values (w_tracks w'))" "rule_matches r t False None" for r t
    proof -
      note complete = guards_of_complete [OF that, folded gs]
      then obtain g' where "g' \<in> set (w_guards w')" "severity_weight (build_result r t) \<le> severity_weight g'"
        by blast
      moreover have "severity_weight g' \<le> severity_weight g"
        using guards_of_head [of rules "w_tracks w'" g gs'] Cons gs calculation(1) by auto
      ultimately show ?thesis by (simp add: severity_weight_def)
    qed
    moreover have "most_critical_guard rules now (foldl (world_step rules) empty_world es) = (w', Some g)"
      using Cons by (simp add: most_critical_guard_def Let_def flip: w'_def)
    ultimately show ?thesis by (force simp: list_all_iff severity_weight_def)
  qed
qed

text \<open>
  A frame of one sensor decides about that sensor's tracks only: as long as the sensor is
  known or fewer than 16 sensors own tracks, a detection sets its track, a track the sensor owned
  and did not see again is gone, and every other track, whether of another sensor or ingested
  directly, is left as it was.
\<close>

theorem world_frame_isolation:
  assumes "world_inv rules w"
    and "length (w_owned w) < MAX_FRAME_SENSORS \<or> sensor \<in> fst ` set (w_owned w)"
  shows "dict_get (w_tracks (ingest_frame rules now wall fresh sensor f w)) k =
           (case dict_get (frame_tracks wall fresh f w) k of Some t \<Rightarrow> Some t
            | None \<Rightarrow> if k \<in> set (dict_getd (w_owned w) sensor []) then None else dict_get (w_tracks w) k)"
proof -
  define w1 where "w1 = frame_effect now wall fresh sensor f w"
  define u where "u = frame_tracks wall fresh f w"
  have "length (w_owned w1) < MAX_FRAME_SENSORS" unfolding w1_def by (rule owner_room [OF assms])
  then have "length (dict_set (w_owned w1) sensor (dict_keys u)) \<le> MAX_FRAME_SENSORS"
    using sensor_not_owner by (simp add: w1_def dict_set_new)
  then have "w_tracks (ingest_frame rules now wall fresh sensor f w) = w_tracks w1"
    by (simp add: ingest_frame_split Let_def evict_stale_id flip: w1_def u_def)
  then show ?thesis by (simp add: w1_def frame_effect_lookup)
qed

definition demo_radar_track :: radar_track where
  "demo_radar_track = track_from_detection 0 ''t1''
     \<lparr>d_range_m = 100, d_bearing_deg = 0, d_elev_deg = 0, d_vr_mps = 0, d_snr_db = 20,
      d_rcs_dbsm = 1, d_transponder_on = False, d_transponder_mode = XP_OFF,
      d_transponder_id = None, d_range_band = RR_SR, d_id_present = None\<rparr>"

theorem world_frame_isolation_witness:
  "dict_get (w_tracks (ingest_frame [] 1 1 (\<lambda>_. ''new'') ''radar2''
       \<lparr>f_sensor_id = ''radar2'', f_timestamp = 1, f_detections = []\<rparr>
       (ingest_track [] 0 demo_radar_track empty_world))) ''t1'' = Some demo_radar_track"
proof -
  have inv: "world_inv [] (ingest_track [] 0 demo_radar_track empty_world)"
    by (rule ingest_track_inv) simp
  have d: "ingest_track [] 0 demo_radar_track empty_world = recalculate_guards []
      (empty_world\<lparr>w_tracks := [(''t1'', demo_radar_track)], w_ingest := [(''t1'', 0)]\<rparr>)"
    by (simp add: ingest_track_def demo_radar_track_def empty_world_def Let_def)
  have "length (w_owned (ingest_track [] 0 demo_radar_track empty_world)) < MAX_FRAME_SENSORS"
    unfolding d by (simp add: empty_world_def MAX_FRAME_SENSORS_def)
  from world_frame_isolation [OF inv disjI1, OF this, of 1 1 "\<lambda>_. ''new''" "''radar2''"
      "\<lparr>f_sensor_id = ''radar2'', f_timestamp = 1, f_detections = []\<rparr>" "''t1''"]
  show ?thesis unfolding d by (simp add: frame_tracks_def empty_world_def dict_getd_def)
qed

end
