(* ===== verification/Fsm_Types.thy ===== *)
theory Fsm_Types
  imports Prelude
begin

text \<open>
  The immutable snapshot types of the agent's state machine
  (\<open>src/qiki/services/q_core_agent/state/types.py\<close>): states, transitions, snapshots, and
  the three ways to derive a new snapshot (\<open>add_transition\<close>, \<open>next_snapshot\<close>,
  \<open>initial_snapshot\<close>). What the code reads from the outside (the two clocks and
  \<open>uuid.uuid4\<close>) is the record \<open>clock_env\<close>, an argument of the constructors.
\<close>

section \<open>Data\<close>

datatype fsm_state =
    Fsm_UNSPECIFIED | Fsm_BOOTING | Fsm_IDLE | Fsm_ACTIVE | Fsm_ERROR_STATE | Fsm_SHUTDOWN

fun fsm_state_value :: "fsm_state \<Rightarrow> int" where
  "fsm_state_value Fsm_UNSPECIFIED = 0"
| "fsm_state_value Fsm_BOOTING = 1"
| "fsm_state_value Fsm_IDLE = 2"
| "fsm_state_value Fsm_ACTIVE = 3"
| "fsm_state_value Fsm_ERROR_STATE = 4"
| "fsm_state_value Fsm_SHUTDOWN = 5"

datatype transition_status = Tr_UNSPECIFIED | Tr_SUCCESS | Tr_FAILED | Tr_PENDING

record clock_env =
  env_mono :: real
  env_wall :: real
  env_uuid :: string
  env_uuid2 :: string

record transition_dto =
  tr_from :: fsm_state
  tr_to :: fsm_state
  tr_trigger :: string
  tr_status :: transition_status
  tr_error :: string
  tr_ts_mono :: real
  tr_ts_wall :: real

definition transition_post_init :: "clock_env \<Rightarrow> transition_dto \<Rightarrow> transition_dto" where
  "transition_post_init env t =
     t\<lparr>tr_ts_mono := (if tr_ts_mono t = 0 then env_mono env else tr_ts_mono t),
       tr_ts_wall := (if tr_ts_wall t = 0 then env_wall env else tr_ts_wall t)\<rparr>"

record snapshot =
  sn_version :: int
  sn_state :: fsm_state
  sn_reason :: string
  sn_ts_mono :: real
  sn_ts_wall :: real
  sn_snapshot_id :: string
  sn_prev_state :: "fsm_state option"
  sn_instance_id :: string
  sn_source_module :: string
  sn_attempt_count :: int
  sn_history :: "transition_dto list"
  sn_context :: "(string, string) dict"
  sn_metadata :: "(string, string) dict"

text \<open>
  The mutable fields arrive as \<open>None\<close> or as a value; \<open>None\<close> becomes the empty
  tuple or dictionary before the record is built, so the record holds them as values.
\<close>

definition opt_default :: "'a \<Rightarrow> 'a option \<Rightarrow> 'a" where
  "opt_default d x = (case x of None \<Rightarrow> d | Some v \<Rightarrow> v)"

lemma opt_default_simps [simp]: "opt_default d None = d" "opt_default d (Some v) = v"
  by (simp_all add: opt_default_def)

definition snapshot_post_init :: "clock_env \<Rightarrow> snapshot \<Rightarrow> snapshot" where
  "snapshot_post_init env s =
     s\<lparr>sn_ts_mono := (if sn_ts_mono s = 0 then env_mono env else sn_ts_mono s),
       sn_ts_wall := (if sn_ts_wall s = 0 then env_wall env else sn_ts_wall s),
       sn_snapshot_id := (if sn_snapshot_id s = [] then env_uuid env else sn_snapshot_id s),
       sn_instance_id := (if sn_instance_id s = [] then env_uuid2 env else sn_instance_id s)\<rparr>"

definition mk_snapshot ::
  "clock_env \<Rightarrow> int \<Rightarrow> fsm_state \<Rightarrow> string \<Rightarrow> real \<Rightarrow> real \<Rightarrow> string \<Rightarrow> fsm_state option \<Rightarrow>
   string \<Rightarrow> string \<Rightarrow> int \<Rightarrow> transition_dto list option \<Rightarrow>
   (string, string) dict option \<Rightarrow> (string, string) dict option \<Rightarrow> snapshot" where
  "mk_snapshot env version state reason ts_mono ts_wall snapshot_id prev_state instance_id
     source_module attempt_count history context_data state_metadata =
   snapshot_post_init env
     \<lparr>sn_version = version, sn_state = state, sn_reason = reason,
      sn_ts_mono = ts_mono, sn_ts_wall = ts_wall, sn_snapshot_id = snapshot_id,
      sn_prev_state = prev_state, sn_instance_id = instance_id,
      sn_source_module = source_module, sn_attempt_count = attempt_count,
      sn_history = opt_default [] history,
      sn_context = opt_default [] context_data,
      sn_metadata = opt_default [] state_metadata\<rparr>"

section \<open>Operations\<close>

text \<open>\<open>xs[-n:]\<close> for a positive \<open>n\<close>.\<close>

definition last_n :: "nat \<Rightarrow> 'a list \<Rightarrow> 'a list" where
  "last_n n xs = drop (length xs - n) xs"

definition add_transition ::
  "clock_env \<Rightarrow> snapshot \<Rightarrow> transition_dto \<Rightarrow> int option \<Rightarrow> snapshot" where
  "add_transition env s t max_history =
     (let new_history = sn_history s @ [t];
          kept = (case max_history of
                    None \<Rightarrow> new_history
                  | Some n \<Rightarrow>
                      if n > 0 \<and> int (length new_history) > n then last_n (nat n) new_history
                      else new_history)
      in snapshot_post_init env (s\<lparr>sn_history := kept\<rparr>))"

definition initial_snapshot :: "clock_env \<Rightarrow> snapshot" where
  "initial_snapshot env =
     mk_snapshot env 0 Fsm_BOOTING ''COLD_START'' (env_mono env) (env_wall env) [] None []
       ''initial_boot'' 0 None None None"

definition create_transition ::
  "clock_env \<Rightarrow> fsm_state \<Rightarrow> fsm_state \<Rightarrow> string \<Rightarrow> transition_status \<Rightarrow> string \<Rightarrow> transition_dto" where
  "create_transition env from_state to_state trigger status error_msg =
     transition_post_init env
       \<lparr>tr_from = from_state, tr_to = to_state, tr_trigger = trigger, tr_status = status,
        tr_error = error_msg, tr_ts_mono = 0, tr_ts_wall = 0\<rparr>"

definition next_snapshot ::
  "clock_env \<Rightarrow> snapshot \<Rightarrow> fsm_state \<Rightarrow> string \<Rightarrow> transition_dto option \<Rightarrow> snapshot" where
  "next_snapshot env current new_state reason transition =
     (let version_increment = (if new_state \<noteq> sn_state current then 1 else 0);
          new_history = sn_history current @ (case transition of None \<Rightarrow> [] | Some t \<Rightarrow> [t])
      in mk_snapshot env (sn_version current + version_increment) new_state reason 0 0
           (env_uuid env)
           (if new_state \<noteq> sn_state current then Some (sn_state current)
            else sn_prev_state current)
           (sn_instance_id current) (sn_source_module current)
           (sn_attempt_count current + (if new_state \<noteq> sn_state current then 1 else 0))
           (Some new_history) (Some (sn_context current)) (Some (sn_metadata current)))"

section \<open>Lemmas\<close>

lemma snapshot_post_init_keeps [simp]:
  "sn_version (snapshot_post_init env s) = sn_version s"
  "sn_state (snapshot_post_init env s) = sn_state s"
  "sn_reason (snapshot_post_init env s) = sn_reason s"
  "sn_prev_state (snapshot_post_init env s) = sn_prev_state s"
  "sn_source_module (snapshot_post_init env s) = sn_source_module s"
  "sn_attempt_count (snapshot_post_init env s) = sn_attempt_count s"
  "sn_history (snapshot_post_init env s) = sn_history s"
  "sn_context (snapshot_post_init env s) = sn_context s"
  "sn_metadata (snapshot_post_init env s) = sn_metadata s"
  by (simp_all add: snapshot_post_init_def)

text \<open>Everything a later call of the constructor could fill in is already there.\<close>

definition stamped :: "snapshot \<Rightarrow> bool" where
  "stamped s \<longleftrightarrow> sn_ts_mono s \<noteq> 0 \<and> sn_ts_wall s \<noteq> 0 \<and>
     sn_snapshot_id s \<noteq> [] \<and> sn_instance_id s \<noteq> []"

lemma post_init_stamped: "stamped s \<Longrightarrow> snapshot_post_init env s = s"
  by (simp add: snapshot_post_init_def stamped_def)

lemma stamped_post_init:
  assumes "env_mono env \<noteq> 0" "env_wall env \<noteq> 0" "env_uuid env \<noteq> []" "env_uuid2 env \<noteq> []"
  shows "stamped (snapshot_post_init env s)"
  using assms by (simp add: snapshot_post_init_def stamped_def)

lemma next_snapshot_fields [simp]:
  "sn_state (next_snapshot env c st r t) = st"
  "sn_reason (next_snapshot env c st r t) = r"
  "sn_version (next_snapshot env c st r t) =
     sn_version c + (if st \<noteq> sn_state c then 1 else 0)"
  "sn_attempt_count (next_snapshot env c st r t) =
     sn_attempt_count c + (if st \<noteq> sn_state c then 1 else 0)"
  "sn_history (next_snapshot env c st r t) =
     sn_history c @ (case t of None \<Rightarrow> [] | Some x \<Rightarrow> [x])"
  "sn_context (next_snapshot env c st r t) = sn_context c"
  "sn_metadata (next_snapshot env c st r t) = sn_metadata c"
  by (simp_all add: next_snapshot_def mk_snapshot_def Let_def)

lemma last_n_suffix: "\<exists>ys. xs = ys @ last_n n xs"
  by (metis append_take_drop_id last_n_def)

lemma length_last_n [simp]: "length (last_n n xs) = min n (length xs)"
  by (simp add: last_n_def)

lemma last_last_n: "xs \<noteq> [] \<Longrightarrow> 0 < n \<Longrightarrow> last (last_n n xs) = last xs"
  by (simp add: last_n_def)

text \<open>What \<open>add_transition\<close> keeps: a suffix of the extended history, bounded when asked to be.\<close>

lemma add_transition_history:
  "sn_history (add_transition env s t m) =
     (case m of Some n \<Rightarrow> if 0 < n then last_n (nat n) (sn_history s @ [t]) else sn_history s @ [t]
      | None \<Rightarrow> sn_history s @ [t])"
  by (auto simp: add_transition_def Let_def last_n_def split: option.split)

lemma add_transition_bound:
  "0 < n \<Longrightarrow> int (length (sn_history (add_transition env s t (Some n)))) \<le> n"
  by (simp add: add_transition_history)

lemma add_transition_last: "last (sn_history (add_transition env s t m)) = t"
  by (auto simp: add_transition_history last_last_n split: option.split)

end
