(* ===== verification/Py_Strings.thy ===== *)
theory Py_Strings
  imports Prelude "HOL-Library.Char_ord"
begin

text \<open>
  The string methods the services use (\<open>strip\<close>, \<open>upper\<close>, \<open>lower\<close>, decimal
  integers) on strings of ASCII characters, and the values a JSON-like payload holds.
\<close>

section \<open>Characters\<close>

definition is_space :: "char \<Rightarrow> bool" where
  "is_space c = (let n = of_char c :: nat in 9 \<le> n \<and> n \<le> 13 \<or> 28 \<le> n \<and> n \<le> 32)"

definition upper_char :: "char \<Rightarrow> char" where
  "upper_char c = (let n = of_char c :: nat in if 97 \<le> n \<and> n \<le> 122 then char_of (n - 32) else c)"

definition lower_char :: "char \<Rightarrow> char" where
  "lower_char c = (let n = of_char c :: nat in if 65 \<le> n \<and> n \<le> 90 then char_of (n + 32) else c)"

section \<open>Methods of \<open>str\<close>\<close>

definition py_strip :: "string \<Rightarrow> string" where
  "py_strip s = rev (dropWhile is_space (rev (dropWhile is_space s)))"

definition py_upper :: "string \<Rightarrow> string" where
  "py_upper s = map upper_char s"

definition py_lower :: "string \<Rightarrow> string" where
  "py_lower s = map lower_char s"

lemma of_char_bound: "(of_char c :: nat) < 256"
proof -
  have "of_char c \<in> {0::nat..<256}" using range_nat_of_char by blast
  then show ?thesis by simp
qed

lemma of_char_upper:
  "(of_char (upper_char c) :: nat) = (let n = of_char c in if 97 \<le> n \<and> n \<le> 122 then n - 32 else n)"
  by (auto simp: upper_char_def Let_def of_char_of take_bit_eq_mod)

lemma of_char_lower:
  "(of_char (lower_char c) :: nat) = (let n = of_char c in if 65 \<le> n \<and> n \<le> 90 then n + 32 else n)"
  by (auto simp: lower_char_def Let_def of_char_of take_bit_eq_mod)

lemma upper_char_idem [simp]: "upper_char (upper_char c) = upper_char c"
  using of_char_upper [of c] by (auto simp: upper_char_def [of "upper_char c"] Let_def split: if_splits)

lemma py_upper_idem [simp]: "py_upper (py_upper s) = py_upper s"
  by (simp add: py_upper_def)

lemma is_space_upper [simp]: "is_space (upper_char c) = is_space c"
  using of_char_upper [of c] by (auto simp: is_space_def Let_def split: if_splits)

lemma dropWhile_map_space: "dropWhile is_space (map upper_char s) = map upper_char (dropWhile is_space s)"
  by (simp add: dropWhile_map o_def)

lemma strip_upper: "py_strip (py_upper s) = py_upper (py_strip s)"
  by (simp add: py_strip_def py_upper_def dropWhile_map_space rev_map)

lemma dropWhile_idem: "dropWhile P (dropWhile P xs) = dropWhile P xs"
  by (induction xs) auto

lemma strip_no_leading: "py_strip s \<noteq> [] \<Longrightarrow> \<not> is_space (hd (py_strip s))"
proof -
  let ?t = "dropWhile is_space s"
  assume ne: "py_strip s \<noteq> []"
  have "?t = [] \<Longrightarrow> py_strip s = []" unfolding py_strip_def by (simp only: rev.simps dropWhile.simps)
  with ne have t: "?t \<noteq> []" by blast
  define n where "n = length ?t - length (takeWhile is_space (rev ?t))"
  have n: "py_strip s = take n ?t"
    unfolding py_strip_def dropWhile_eq_drop [of is_space "rev ?t"] n_def rev_drop by simp
  with ne have "0 < n" by (cases n) simp_all
  with n have "hd (py_strip s) = hd ?t" by simp
  with t show ?thesis by (metis hd_dropWhile)
qed

lemma dropWhile_hd: "xs = [] \<or> \<not> P (hd xs) \<Longrightarrow> dropWhile P xs = xs"
  by (cases xs) auto

lemma py_strip_idem [simp]: "py_strip (py_strip s) = py_strip s"
proof -
  have "dropWhile is_space (py_strip s) = py_strip s"
    using strip_no_leading dropWhile_hd by blast
  then show ?thesis
    unfolding py_strip_def [of "py_strip s"] by (simp add: py_strip_def dropWhile_idem)
qed

section \<open>Payload values\<close>

datatype jval = JNone | JStr string | JInt int | JBool bool | JList "jval list"

fun digits :: "nat \<Rightarrow> string" where
  "digits n = (if n < 10 then [char_of (48 + n)] else digits (n div 10) @ [char_of (48 + n mod 10)])"

declare digits.simps [simp del]

definition show_int :: "int \<Rightarrow> string" where
  "show_int i = (if i < 0 then CHR ''-'' # digits (nat (- i)) else digits (nat i))"

type_synonym payload = "(string, jval) dict"

end
