(* ===== verification/Agent_Fsm.thy ===== *)
theory Agent_Fsm
  imports Agent_World Fsm_Types Py_Strings
begin

text \<open>
  The agent's deciding components, each a function of what it reads: the state-machine handler
  (\<open>core/fsm_handler.py\<close>), the BIOS handler (\<open>core/bios_handler.py\<close>), the rule
  engine (\<open>core/rule_engine.py\<close>) and the proposal evaluator
  (\<open>core/proposal_evaluator.py\<close>). The handler reads the world model through
  \<open>most_critical_guard\<close>, which evicts dead tracks, so it returns the world as well.
\<close>

section \<open>State machine handler\<close>

fun agent_to_shared_state :: "fsm_state \<Rightarrow> fsm_state_enum" where
  "agent_to_shared_state Fsm_UNSPECIFIED = FS_OFFLINE"
| "agent_to_shared_state Fsm_BOOTING = FS_BOOTING"
| "agent_to_shared_state Fsm_IDLE = FS_IDLE"
| "agent_to_shared_state Fsm_ACTIVE = FS_RUNNING"
| "agent_to_shared_state Fsm_ERROR_STATE = FS_ERROR"
| "agent_to_shared_state Fsm_SHUTDOWN = FS_TERMINATING"

fun shared_to_agent_state :: "fsm_state_enum \<Rightarrow> fsm_state option" where
  "shared_to_agent_state FS_OFFLINE = Some Fsm_UNSPECIFIED"
| "shared_to_agent_state FS_BOOTING = Some Fsm_BOOTING"
| "shared_to_agent_state FS_IDLE = Some Fsm_IDLE"
| "shared_to_agent_state FS_RUNNING = Some Fsm_ACTIVE"
| "shared_to_agent_state FS_ERROR = Some Fsm_ERROR_STATE"
| "shared_to_agent_state FS_TERMINATING = Some Fsm_SHUTDOWN"
| "shared_to_agent_state FS_PAUSED = None"

text \<open>The two questions the rules ask the context.\<close>

definition is_bios_ok :: "bios_status option \<Rightarrow> bool" where
  "is_bios_ok b \<longleftrightarrow> opt_test b all_systems_go"

definition has_valid_proposals :: "proposal list \<Rightarrow> bool" where
  "has_valid_proposals ps \<longleftrightarrow> ps \<noteq> []"

definition apply_standard_rules :: "bool \<Rightarrow> bool \<Rightarrow> fsm_state \<Rightarrow> fsm_state \<times> string" where
  "apply_standard_rules bios_ok proposals s =
     (if s = Fsm_BOOTING \<and> bios_ok then (Fsm_IDLE, ''BOOT_COMPLETE'')
      else if s = Fsm_BOOTING \<and> \<not> bios_ok then (Fsm_ERROR_STATE, ''BIOS_ERROR'')
      else if s = Fsm_IDLE \<and> proposals then (Fsm_ACTIVE, ''PROPOSALS_RECEIVED'')
      else if s = Fsm_ACTIVE \<and> \<not> proposals then (Fsm_IDLE, ''NO_PROPOSALS'')
      else if s = Fsm_ERROR_STATE \<and> bios_ok then (Fsm_IDLE, ''ERROR_CLEARED'')
      else (s, ''NO_CHANGE''))"

definition apply_guard_event :: "guard_result \<Rightarrow> fsm_state \<Rightarrow> fsm_state \<times> string" where
  "apply_guard_event g s =
     (if g_severity g = ''critical'' then (Fsm_ERROR_STATE, g_fsm_event g)
      else if g_severity g = ''warning'' \<and> s = Fsm_IDLE then (Fsm_ACTIVE, g_fsm_event g)
      else (s, g_fsm_event g))"

text \<open>Python's \<open>max\<close> with a key: the first element of maximal key.\<close>

fun max_by :: "('a \<Rightarrow> int) \<Rightarrow> 'a \<Rightarrow> 'a list \<Rightarrow> 'a" where
  "max_by f best [] = best"
| "max_by f best (x # xs) = max_by f (if f x > f best then x else best) xs"

definition select_guard_event ::
  "guard_rule list \<Rightarrow> real \<Rightarrow> guard_result list \<Rightarrow> world option \<Rightarrow> world option \<times> guard_result option" where
  "select_guard_event rules now guard_events w =
     (case guard_events of
        g # gs \<Rightarrow> (w, Some (max_by severity_weight g gs))
      | [] \<Rightarrow> (case w of
                 None \<Rightarrow> (None, None)
               | Some w0 \<Rightarrow> (let (w1, top) = most_critical_guard rules now w0 in (Some w1, top))))"

text \<open>The choice both processing functions make.\<close>

definition choose_transition ::
  "guard_result option \<Rightarrow> bool \<Rightarrow> bool \<Rightarrow> fsm_state \<Rightarrow> fsm_state \<times> string" where
  "choose_transition g bios_ok proposals s =
     (case g of Some e \<Rightarrow> apply_guard_event e s | None \<Rightarrow> apply_standard_rules bios_ok proposals s)"

definition process_fsm_dto ::
  "clock_env \<Rightarrow> guard_result option \<Rightarrow> bool \<Rightarrow> bool \<Rightarrow> snapshot \<Rightarrow> snapshot" where
  "process_fsm_dto env g bios_ok proposals cur =
     (let (next_state, trigger) = choose_transition g bios_ok proposals (sn_state cur);
          t = create_transition env (sn_state cur) next_state trigger Tr_SUCCESS []
      in next_snapshot env cur next_state trigger (Some t))"

definition boot_snapshot :: fsm_snapshot where
  "boot_snapshot = \<lparr>fs_current = FS_BOOTING, fs_previous = FS_OFFLINE, fs_last = None,
                    fs_history = [], fs_context = []\<rparr>"

definition process_fsm_state ::
  "guard_result option \<Rightarrow> bool \<Rightarrow> bool \<Rightarrow> fsm_snapshot option \<Rightarrow> fsm_snapshot" where
  "process_fsm_state g bios_ok proposals cur =
     (let state = (case cur of None \<Rightarrow> boot_snapshot | Some s \<Rightarrow> s)
      in case shared_to_agent_state (fs_current state) of
           None \<Rightarrow> state
         | Some agent_state \<Rightarrow>
             let (next_agent, event) = choose_transition g bios_ok proposals agent_state;
                 next = agent_to_shared_state next_agent
             in if next \<noteq> fs_current state
                then let t = \<lparr>ft_event = event, ft_from = fs_current state, ft_to = next\<rparr>
                     in state\<lparr>fs_history := fs_history state @ [t], fs_last := Some t,
                              fs_previous := fs_current state, fs_current := next\<rparr>
                else state)"

section \<open>BIOS handler\<close>

text \<open>
  A hardware profile is read as its lists of items of each kind; an item is what \<open>get\<close> finds
  in the dictionary: an identifier if it is a string, and a type. Entries that are not
  dictionaries do not appear.
\<close>

record profile_item =
  pi_id :: "string option"
  pi_type :: "string option"

record hardware_profile =
  hp_actuators :: "profile_item list"
  hp_sensors :: "profile_item list"

definition note_expected :: "string \<Rightarrow> (string, string) dict \<Rightarrow> profile_item \<Rightarrow> (string, string) dict" where
  "note_expected kind m item =
     (case pi_id item of
        Some did \<Rightarrow>
          if py_strip did \<noteq> [] then
            dict_set m (py_strip did) (case pi_type item of Some ty \<Rightarrow> if ty \<noteq> [] then ty else kind
                                       | None \<Rightarrow> kind)
          else m
      | None \<Rightarrow> m)"

definition expected_devices :: "hardware_profile \<Rightarrow> (string, string) dict" where
  "expected_devices p =
     foldl (note_expected ''sensors'') (foldl (note_expected ''actuators'') [] (hp_actuators p)) (hp_sensors p)"

definition missing_device :: "string \<Rightarrow> string \<Rightarrow> device_status" where
  "missing_device did dtype =
     \<lparr>dv_id = did, dv_name = dtype, dv_status = DS_ERROR,
      dv_message = Some ''Device expected by hardware_profile but not reported by BIOS''\<rparr>"

definition process_bios_status :: "hardware_profile option \<Rightarrow> bios_status \<Rightarrow> bios_status" where
  "process_bios_status profile b =
     (case profile of
        None \<Rightarrow> b
      | Some p \<Rightarrow>
          let current = map dv_id (b_post_results b);
              missing = filter (\<lambda>(did, ty). did \<notin> set current) (expected_devices p)
          in b\<lparr>b_post_results := b_post_results b @ map (\<lambda>(did, ty). missing_device did ty) missing\<rparr>)"

section \<open>Rule engine\<close>

definition SYSTEM_CONTROLLER_ID :: string where
  "SYSTEM_CONTROLLER_ID = ''c0648061-af84-5c8a-a383-71218ba92082''"

datatype guard_handler = Build_safe_mode | Build_warning

definition guard_event_handlers :: "(string, guard_handler) dict" where
  "guard_event_handlers =
     [(''RADAR_ALERT_UNKNOWN_CLOSE'', Build_safe_mode),
      (''RADAR_ALERT_TRANSPONDER_SPOOF'', Build_safe_mode),
      (''RADAR_ALERT_TRANSPONDER_OFF'', Build_safe_mode),
      (''RADAR_ALERT_HOSTILE_APPROACH'', Build_safe_mode),
      (''RADAR_ALERT_FOE_APPROACH'', Build_safe_mode),
      (''RADAR_WARNING_UNKNOWN_PROXIMITY'', Build_warning),
      (''RADAR_ALERT_SPOOF'', Build_warning)]"

text \<open>\<open>ident\<close> is what \<open>uuid4\<close> yields: one for the command, one for the proposal.\<close>

definition build_safe_mode_proposal :: "string \<times> string \<Rightarrow> guard_result option \<Rightarrow> proposal" where
  "build_safe_mode_proposal ident g =
     \<lparr>p_id = snd ident, p_source = ''rule_engine'',
      p_actions = [\<lparr>ac_command_id = fst ident, ac_actuator_id = SYSTEM_CONTROLLER_ID, ac_float = None,
                    ac_int = Some (fsm_state_value Fsm_ERROR_STATE), ac_bool = None,
                    ac_vector = None, ac_unit = U_UNSPECIFIED, ac_type = CT_SET_MODE\<rparr>],
      p_justification =
        (case g of None \<Rightarrow> ''BIOS reported critical errors. Entering safe mode.''
         | Some e \<Rightarrow> ''Guard '' @ g_rule_id e @ '' triggered ('' @ g_severity e @
                    ''). Transitioning to SAFE_MODE.''),
      p_priority = 0.99, p_confidence = 1, p_type = PT_SAFETY\<rparr>"

definition build_warning_proposal :: "string \<times> string \<Rightarrow> guard_result \<Rightarrow> proposal" where
  "build_warning_proposal ident e =
     \<lparr>p_id = snd ident, p_source = ''rule_engine'', p_actions = [],
      p_justification = ''Guard '' @ g_rule_id e @ '' warning for track '' @ g_track_id e @ ''.'',
      p_priority = 0.5, p_confidence = 0.6, p_type = PT_DIAGNOSTICS\<rparr>"

fun guard_proposals ::
  "(nat \<Rightarrow> string \<times> string) \<Rightarrow> nat \<Rightarrow> guard_id list \<Rightarrow> guard_result list \<Rightarrow> proposal list" where
  "guard_proposals ids i seen [] = []"
| "guard_proposals ids i seen (e # es) =
     (if guard_id_of e \<in> set seen then guard_proposals ids (Suc i) seen es
      else let seen' = guard_id_of e # seen
           in case dict_get guard_event_handlers (g_fsm_event e) of
                None \<Rightarrow>
                  (if g_severity e = ''critical''
                   then build_safe_mode_proposal (ids i) (Some e) # guard_proposals ids (Suc i) seen' es
                   else guard_proposals ids (Suc i) seen' es)
              | Some Build_safe_mode \<Rightarrow>
                  build_safe_mode_proposal (ids i) (Some e) # guard_proposals ids (Suc i) seen' es
              | Some Build_warning \<Rightarrow>
                  build_warning_proposal (ids i) e # guard_proposals ids (Suc i) seen' es)"

definition rule_proposals ::
  "(nat \<Rightarrow> string \<times> string) \<Rightarrow> bios_status option \<Rightarrow> guard_result list \<Rightarrow> proposal list" where
  "rule_proposals ids bios guards =
     (if \<not> is_bios_ok bios then [build_safe_mode_proposal (ids 0) None] else []) @
     guard_proposals ids 1 [] guards"

section \<open>Proposal evaluator\<close>

definition better_proposal :: "proposal \<Rightarrow> proposal \<Rightarrow> bool" where
  "better_proposal p best \<longleftrightarrow>
     p_type p < p_type best \<or>
     (p_type p = p_type best \<and> p_priority p > p_priority best) \<or>
     (p_type p = p_type best \<and> p_priority p = p_priority best \<and> p_confidence p > p_confidence best)"

fun evaluate_loop :: "real \<Rightarrow> proposal option \<Rightarrow> proposal list \<Rightarrow> proposal option" where
  "evaluate_loop threshold best [] = best"
| "evaluate_loop threshold best (p # ps) =
     (if p_confidence p < threshold then evaluate_loop threshold best ps
      else case best of
             None \<Rightarrow> evaluate_loop threshold (Some p) ps
           | Some b \<Rightarrow> evaluate_loop threshold (if better_proposal p b then Some p else Some b) ps)"

definition evaluate_proposals :: "real \<Rightarrow> proposal list \<Rightarrow> proposal list" where
  "evaluate_proposals threshold ps =
     (if ps = [] then []
      else let sorted_ps = sort_key (\<lambda>p. (p_type p, - p_priority p)) ps
           in case evaluate_loop threshold None sorted_ps of None \<Rightarrow> [] | Some p \<Rightarrow> [p])"

section \<open>Lemmas\<close>

lemma shared_agent_inverse: "shared_to_agent_state (agent_to_shared_state s) = Some s"
  by (cases s) simp_all

lemma max_by_mem: "max_by f b xs \<in> insert b (set xs)"
  by (induction xs arbitrary: b) (auto split: if_splits)

lemma max_by_ge: "x \<in> insert b (set xs) \<Longrightarrow> f x \<le> f (max_by f b xs)"
proof (induction xs arbitrary: b x)
  case Nil
  then show ?case by simp
next
  case (Cons y ys)
  let ?b = "if f y > f b then y else b"
  have b: "f ?b \<le> f (max_by f ?b ys)" by (rule Cons.IH) simp
  show ?case using Cons.prems Cons.IH [of x ?b] b by (auto split: if_splits)
qed

lemma process_fsm_state_current:
  "fs_current (process_fsm_state g ok props (Some s)) =
     (case shared_to_agent_state (fs_current s) of None \<Rightarrow> fs_current s
      | Some a \<Rightarrow> agent_to_shared_state (fst (choose_transition g ok props a)))"
  by (auto simp: process_fsm_state_def Let_def split: option.splits prod.splits)

lemma process_fsm_state_context [simp]:
  "fs_context (process_fsm_state g ok props (Some s)) = fs_context s"
  by (auto simp: process_fsm_state_def Let_def split: option.splits prod.splits)

text \<open>Proposals as scores: smaller type, higher priority, higher confidence come first.\<close>

definition proposal_score :: "proposal \<Rightarrow> real \<times> real \<times> real" where
  "proposal_score p = (real_of_int (proposal_type_value (p_type p)), - p_priority p, - p_confidence p)"

lemma proposal_type_value_inj: "proposal_type_value a = proposal_type_value b \<longleftrightarrow> a = b"
  by (cases a; cases b) simp_all

lemma better_is_score: "better_proposal p b \<longleftrightarrow> lt3 (proposal_score p) (proposal_score b)"
  by (auto simp: better_proposal_def proposal_score_def less_proposal_type_def proposal_type_value_inj)

definition admissible :: "real \<Rightarrow> proposal \<Rightarrow> (real \<times> real \<times> real) option" where
  "admissible threshold p = (if p_confidence p < threshold then None else Some (proposal_score p))"

lemma evaluate_loop_scan:
  "evaluate_loop threshold best ps =
     map_option snd (scan_best lt3 (admissible threshold) (map_option (\<lambda>p. (proposal_score p, p)) best) ps)"
proof (induction ps arbitrary: best)
  case Nil
  then show ?case by (cases best) simp_all
next
  case (Cons p ps)
  then show ?case
    by (cases best) (simp_all add: admissible_def better_is_score)
qed


lemma evaluate_best:
  assumes "evaluate_proposals threshold ps = [p]"
  shows "p \<in> set ps \<and> threshold \<le> p_confidence p \<and>
         (\<forall>q\<in>set ps. threshold \<le> p_confidence q \<longrightarrow> \<not> better_proposal q p)"
proof -
  let ?qs = "sort_key (\<lambda>p. (p_type p, - p_priority p)) ps"
  have "evaluate_loop threshold None ?qs = Some p"
    using assms by (auto simp: evaluate_proposals_def Let_def split: if_splits option.splits)
  then obtain sc where sc: "scan_best lt3 (admissible threshold) None ?qs = Some (sc, p)"
    by (auto simp: evaluate_loop_scan)
  then have p: "p \<in> set ps" "admissible threshold p = Some sc"
    using scan_best_from_list [OF sc] by auto
  moreover have "\<not> better_proposal q p" if "q \<in> set ps" "threshold \<le> p_confidence q" for q
    using tuple3.scan_best_minimal [OF sc, of q "proposal_score q"] that p(2)
    by (auto simp: better_is_score admissible_def split: if_splits)
  ultimately show ?thesis by (auto simp: admissible_def split: if_splits)
qed

lemma evaluate_none:
  "evaluate_proposals threshold ps = [] \<longleftrightarrow> (\<forall>q\<in>set ps. p_confidence q < threshold)"
proof (cases "ps = []")
  case False
  have "evaluate_loop threshold None qs = None \<longleftrightarrow> (\<forall>q\<in>set qs. p_confidence q < threshold)" for qs
    by (simp add: evaluate_loop_scan scan_best_None admissible_def)
  from this [of "sort_key (\<lambda>p. (p_type p, - p_priority p)) ps"] False show ?thesis
    by (cases "evaluate_loop threshold None (sort_key (\<lambda>p. (p_type p, - p_priority p)) ps)")
      (simp_all add: evaluate_proposals_def Let_def)
qed (simp add: evaluate_proposals_def)

lemma evaluate_at_most_one: "evaluate_proposals threshold ps = [] \<or> (\<exists>p. evaluate_proposals threshold ps = [p])"
  by (auto simp: evaluate_proposals_def Let_def split: option.splits)

section \<open>Transition history\<close>

fun chained :: "fsm_transition list \<Rightarrow> bool" where
  "chained (a # b # ts) \<longleftrightarrow> ft_to a = ft_from b \<and> chained (b # ts)"
| "chained ts \<longleftrightarrow> True"

lemma chained_snoc: "chained (ts @ [t]) \<longleftrightarrow> chained ts \<and> (ts \<noteq> [] \<longrightarrow> ft_to (last ts) = ft_from t)"
  by (induction ts rule: chained.induct) auto

definition history_ok :: "fsm_snapshot \<Rightarrow> bool" where
  "history_ok s \<longleftrightarrow> chained (fs_history s) \<and> list_all (\<lambda>t. ft_from t \<noteq> ft_to t) (fs_history s) \<and>
     (case fs_last s of None \<Rightarrow> fs_history s = []
      | Some t \<Rightarrow> fs_history s \<noteq> [] \<and> last (fs_history s) = t \<and> ft_to t = fs_current s \<and>
                  ft_from t = fs_previous s)"

definition fsm_step :: "fsm_snapshot \<Rightarrow> guard_result option \<times> bool \<times> bool \<Rightarrow> fsm_snapshot" where
  "fsm_step s x = process_fsm_state (fst x) (fst (snd x)) (snd (snd x)) (Some s)"

lemma fsm_step_history: assumes "history_ok s" shows "history_ok (fsm_step s x)"
proof (cases "shared_to_agent_state (fs_current s)")
  case None
  with assms show ?thesis by (simp add: fsm_step_def process_fsm_state_def)
next
  case (Some a)
  obtain next_a ev where n: "choose_transition (fst x) (fst (snd x)) (snd (snd x)) a = (next_a, ev)"
    by (cases "choose_transition (fst x) (fst (snd x)) (snd (snd x)) a")
  show ?thesis
  proof (cases "agent_to_shared_state next_a = fs_current s")
    case True
    with Some n assms show ?thesis by (simp add: fsm_step_def process_fsm_state_def)
  next
    case False
    have "fs_history s \<noteq> [] \<Longrightarrow> ft_to (last (fs_history s)) = fs_current s"
      using assms by (auto simp: history_ok_def split: option.splits)
    with False Some n assms show ?thesis
      by (simp add: fsm_step_def process_fsm_state_def history_ok_def chained_snoc Let_def)
  qed
qed

interpretation fsm_run: inv_machine fsm_step history_ok
  by unfold_locales (rule fsm_step_history)

lemma agent_critical:
  assumes "g \<in> set guards" and "g_severity g = ''critical''" and "fs_current s \<noteq> FS_PAUSED"
  shows "fs_current (process_fsm_state (snd (select_guard_event rules now guards w)) ok props (Some s)) = FS_ERROR"
proof -
  obtain b gs where guards: "guards = b # gs" using assms(1) by (cases guards) auto
  let ?m = "max_by severity_weight b gs"
  have "severity_weight g \<le> severity_weight ?m" using assms(1) guards by (intro max_by_ge) simp
  then have "g_severity ?m = ''critical''"
    using assms(2) by (auto simp: severity_weight_def severity_order_def split: if_splits)
  moreover obtain a where "shared_to_agent_state (fs_current s) = Some a"
    using assms(3) by (cases "fs_current s") auto
  ultimately show ?thesis
    by (simp add: guards select_guard_event_def process_fsm_state_current choose_transition_def
        apply_guard_event_def)
qed

section \<open>Properties\<close>

text \<open>
  A critical guard wins: if any guard event of the tick is critical, the machine is in
  \<open>ERROR\<close> after the step, whatever state it was in, whatever the BIOS and the proposals
  say; only an operator's pause is exempt.
\<close>

theorem critical_guard_forces_error:
  assumes "g \<in> set guards" and "g_severity g = ''critical''" and "fs_current s \<noteq> FS_PAUSED"
  shows "fs_current (process_fsm_state (snd (select_guard_event rules now guards w)) ok props (Some s)) = FS_ERROR"
  using assms by (rule agent_critical)

definition demo_guard :: guard_result where
  "demo_guard = \<lparr>g_rule_id = ''r1'', g_severity = ''critical'', g_fsm_event = ''RADAR_ALERT_UNKNOWN_CLOSE'',
     g_message = ''close'', g_track_id = ''t1'', g_range_m = 50, g_quality = 1, g_iff = FF_UNKNOWN,
     g_transponder_on = False, g_transponder_mode = XP_OFF\<rparr>"

theorem critical_guard_forces_error_witness:
  "fs_current (process_fsm_state (snd (select_guard_event [] 0 [demo_guard] None)) True True
     (Some boot_snapshot)) = FS_ERROR"
  by (rule critical_guard_forces_error [of demo_guard]) (simp_all add: demo_guard_def boot_snapshot_def)

text \<open>
  An operator's pause is never left by the rules or by a guard: the snapshot is returned
  unchanged. Every other shared state is translated, and the two state maps are inverse to each
  other, so no state turns into a different one by passing through the agent's domain.
\<close>

theorem pause_is_untouched:
  "process_fsm_state g ok props (Some (s\<lparr>fs_current := FS_PAUSED\<rparr>)) = s\<lparr>fs_current := FS_PAUSED\<rparr> \<and>
   shared_to_agent_state (agent_to_shared_state a) = Some a \<and>
   (shared_to_agent_state q = None) = (q = FS_PAUSED) \<and>
   map_option agent_to_shared_state (shared_to_agent_state q) = (if q = FS_PAUSED then None else Some q)"
  by (cases q; simp add: process_fsm_state_def shared_agent_inverse)

text \<open>
  C9. The two implementations of the state machine agree: the immutable-snapshot version used
  with the state store and the mutable shared version reach corresponding states, and the former
  raises its version exactly when the latter records a transition.
\<close>

theorem fsm_implementations_agree:
  assumes "agent_to_shared_state (sn_state d) = fs_current s"
  shows "agent_to_shared_state (sn_state (process_fsm_dto env g ok props d)) =
           fs_current (process_fsm_state g ok props (Some s)) \<and>
         sn_version (process_fsm_dto env g ok props d) - sn_version d =
           int (length (fs_history (process_fsm_state g ok props (Some s)))) - int (length (fs_history s))"
proof -
  have a: "shared_to_agent_state (fs_current s) = Some (sn_state d)"
    using assms shared_agent_inverse by metis
  obtain nx ev where n: "choose_transition g ok props (sn_state d) = (nx, ev)"
    by (cases "choose_transition g ok props (sn_state d)")
  have "agent_to_shared_state nx = fs_current s \<longleftrightarrow> nx = sn_state d"
    using assms shared_agent_inverse by (metis option.inject)
  then show ?thesis
    using assms by (simp add: process_fsm_dto_def process_fsm_state_def a n next_snapshot_def
        mk_snapshot_def snapshot_post_init_def Let_def)
qed

definition demo_clock :: clock_env where
  "demo_clock = \<lparr>env_mono = 1, env_wall = 1, env_uuid = ''u'', env_uuid2 = ''v''\<rparr>"

theorem fsm_implementations_agree_witness:
  "agent_to_shared_state (sn_state (process_fsm_dto demo_clock None True False (initial_snapshot demo_clock))) =
     fs_current (process_fsm_state None True False (Some boot_snapshot))"
  using fsm_implementations_agree [of "initial_snapshot demo_clock" boot_snapshot]
  by (simp add: initial_snapshot_def mk_snapshot_def snapshot_post_init_def boot_snapshot_def)

text \<open>
  The recorded history is a real path of the machine: in every run from the boot snapshot,
  consecutive transitions meet, none is a self-loop, and the last one leads from the previous to
  the current state.
\<close>

theorem fsm_history_is_path:
  "history_ok (foldl fsm_step boot_snapshot xs)"
  by (rule fsm_run.run_inv) (simp add: history_ok_def boot_snapshot_def)

text \<open>
  Silence is not health: after the BIOS handler has compared the report with the hardware
  profile, all systems are go exactly when the report was all go and names every expected device.
\<close>

theorem bios_missing_device_not_ok:
  "all_systems_go (process_bios_status (Some p) b) \<longleftrightarrow>
     all_systems_go b \<and> set (dict_keys (expected_devices p)) \<subseteq> set (map dv_id (b_post_results b))"
proof -
  let ?missing = "filter (\<lambda>(did, ty). did \<notin> set (map dv_id (b_post_results b))) (expected_devices p)"
  have go: "all_systems_go (process_bios_status (Some p) b) \<longleftrightarrow> all_systems_go b \<and> ?missing = []"
    by (cases ?missing) (auto simp: process_bios_status_def all_systems_go_def missing_device_def
        Let_def split: prod.splits)
  have "?missing = [] \<longleftrightarrow> set (dict_keys (expected_devices p)) \<subseteq> set (map dv_id (b_post_results b))"
    by (auto simp: filter_empty_conv)
  with go show ?thesis by simp
qed

text \<open>
  The evaluator picks at most one proposal: none exactly when every confidence is below the
  threshold, and otherwise an admissible one such that no admissible proposal beats it on type,
  then priority, then confidence.
\<close>

theorem evaluator_picks_best:
  "case evaluate_proposals threshold ps of
     [] \<Rightarrow> list_all (\<lambda>q. p_confidence q < threshold) ps
   | [p] \<Rightarrow> p \<in> set ps \<and> threshold \<le> p_confidence p \<and>
            list_all (\<lambda>q. \<not> better_proposal q p) (filter (\<lambda>q. threshold \<le> p_confidence q) ps)
   | _ \<Rightarrow> False"
proof (cases "evaluate_proposals threshold ps = []")
  case True
  then show ?thesis using evaluate_none [of threshold ps] by (simp add: list_all_iff)
next
  case False
  then obtain p where "evaluate_proposals threshold ps = [p]" using evaluate_at_most_one by blast
  with evaluate_best [OF this] show ?thesis by (simp add: list_all_iff)
qed

text \<open>
  When the BIOS is not healthy, the proposal the agent acts on is a safety proposal,
  whatever the neural engine adds, as long as its proposals are typed: the unspecified type has
  the smallest value and would rank before safety.
\<close>

theorem bios_failure_yields_safety_proposal:
  assumes "\<not> is_bios_ok bios" and "threshold \<le> 1"
    and "list_all (\<lambda>p. p_type p \<noteq> PT_UNSPECIFIED) neural"
  shows "\<exists>p. evaluate_proposals threshold (rule_proposals ids bios guards @ neural) = [p] \<and>
             p_type p = PT_SAFETY"
proof -
  let ?ps = "rule_proposals ids bios guards @ neural"
  let ?s = "build_safe_mode_proposal (ids 0) None"
  have s: "?s \<in> set ?ps" "threshold \<le> p_confidence ?s" "p_type ?s = PT_SAFETY"
    using assms(1,2) by (simp_all add: rule_proposals_def build_safe_mode_proposal_def)
  then have "evaluate_proposals threshold ?ps \<noteq> []" using evaluate_none [of threshold ?ps] by (meson leD)
  then obtain p where p: "evaluate_proposals threshold ?ps = [p]" using evaluate_at_most_one by blast
  note best = evaluate_best [OF p]
  have rules_typed: "q \<in> set (guard_proposals ids i seen guards) \<Longrightarrow> p_type q \<noteq> PT_UNSPECIFIED" for q i seen
    by (induction ids i seen guards rule: guard_proposals.induct)
      (auto simp: Let_def build_safe_mode_proposal_def build_warning_proposal_def
        split: if_splits option.splits guard_handler.splits)
  have "p_type p \<noteq> PT_UNSPECIFIED"
    using best assms(3) rules_typed s(3) by (auto simp: rule_proposals_def list_all_iff split: if_splits)
  moreover have "\<not> p_type ?s < p_type p" using best s by (auto simp: better_proposal_def)
  ultimately have "p_type p = PT_SAFETY"
    using s(3) by (cases "p_type p") (simp_all add: less_proposal_type_def)
  with p show ?thesis by blast
qed

theorem bios_failure_yields_safety_proposal_witness:
  "\<exists>p. evaluate_proposals (1 / 2) (rule_proposals (\<lambda>_. (''c'', ''p'')) None [] @ []) = [p] \<and> p_type p = PT_SAFETY"
  using bios_failure_yields_safety_proposal [of None "1 / 2" "[]" "\<lambda>_. (''c'', ''p'')" "[]"]
  by (simp add: is_bios_ok_def)

end
