(* ===== verification/Py_Numbers.thy ===== *)
theory Py_Numbers
  imports Py_Strings Py_Floats Complex_Main "HOL-Library.Sublist"
begin

text \<open>
  Numbers as text, the way Python reads and writes them: \<open>int(s)\<close> and \<open>int(s, 16)\<close>,
  \<open>str(n)\<close>, \<open>float(s)\<close> (on exact values) and the format \<open>{x:.nf}\<close>; and the textual
  form of a \<open>uuid.UUID\<close>. The lemmas show that what is written is read back.
\<close>

section \<open>Digits\<close>

definition code :: "char \<Rightarrow> nat" where "code c = of_char c"

text \<open>The value of a digit or letter, as in \<open>int(s, base)\<close>; other characters have none.\<close>

definition digit_value :: "char \<Rightarrow> nat option" where
  "digit_value c =
     (let n = code c
      in if 48 \<le> n \<and> n \<le> 57 then Some (n - 48)
         else if 97 \<le> n \<and> n \<le> 122 then Some (n - 87)
         else if 65 \<le> n \<and> n \<le> 90 then Some (n - 55) else None)"

definition base_digit :: "nat \<Rightarrow> char \<Rightarrow> nat option" where
  "base_digit b c = (case digit_value c of Some d \<Rightarrow> if d < b then Some d else None | None \<Rightarrow> None)"

text \<open>Digits with single underscores between them; \<open>prev\<close>: the last character was a digit.\<close>

fun scan_digits :: "nat \<Rightarrow> nat \<Rightarrow> bool \<Rightarrow> string \<Rightarrow> nat option" where
  "scan_digits b acc prev [] = (if prev then Some acc else None)"
| "scan_digits b acc prev (c # cs) =
     (case base_digit b c of
        Some d \<Rightarrow> scan_digits b (acc * b + d) True cs
      | None \<Rightarrow> if c = CHR ''_'' \<and> prev then scan_digits b acc False cs else None)"

definition split_sign :: "string \<Rightarrow> bool \<times> string" where
  "split_sign s =
     (case s of [] \<Rightarrow> (False, [])
      | c # cs \<Rightarrow> if c = CHR ''-'' then (True, cs) else if c = CHR ''+'' then (False, cs) else (False, s))"

definition strip_prefix16 :: "string \<Rightarrow> string" where
  "strip_prefix16 s =
     (case s of
        c # x # cs \<Rightarrow>
          if c = CHR ''0'' \<and> (x = CHR ''x'' \<or> x = CHR ''X'')
          then (case cs of u # r \<Rightarrow> if u = CHR ''_'' then r else cs | [] \<Rightarrow> cs) else s
      | _ \<Rightarrow> s)"

definition signed :: "bool \<Rightarrow> nat \<Rightarrow> int" where
  "signed neg n = (if neg then - int n else int n)"

definition py_int :: "string \<Rightarrow> int option" where
  "py_int s = (let (neg, ds) = split_sign (py_strip s) in map_option (signed neg) (scan_digits 10 0 False ds))"

definition py_int16 :: "string \<Rightarrow> int option" where
  "py_int16 s =
     (let (neg, ds) = split_sign (py_strip s)
      in map_option (signed neg) (scan_digits 16 0 False (strip_prefix16 ds)))"

definition digit_char :: "nat \<Rightarrow> char" where
  "digit_char d = (if d < 10 then char_of (48 + d) else char_of (87 + d))"

text \<open>Fixed-width digits, most significant first (\<open>%032x\<close>, the fraction of \<open>.6f\<close>).\<close>

fun pad_digits :: "nat \<Rightarrow> nat \<Rightarrow> nat \<Rightarrow> string" where
  "pad_digits b 0 n = []"
| "pad_digits b (Suc w) n = pad_digits b w (n div b) @ [digit_char (n mod b)]"

definition digit_string :: "nat \<Rightarrow> string \<Rightarrow> bool" where
  "digit_string b s \<longleftrightarrow> list_all (\<lambda>c. base_digit b c \<noteq> None) s"

definition value_of :: "nat \<Rightarrow> string \<Rightarrow> nat" where
  "value_of b s = foldl (\<lambda>acc c. acc * b + the (base_digit b c)) 0 s"

subsection \<open>Reading digits\<close>

lemma foldl_value: "foldl (\<lambda>acc c. acc * b + f c) a s = a * b ^ length s + foldl (\<lambda>acc c. acc * b + f c) (0::nat) s"
proof (induction s arbitrary: a)
  case (Cons c s)
  from Cons.IH [of "a * b + f c"] Cons.IH [of "f c"] show ?case by (simp add: algebra_simps)
qed simp

lemma value_of_simps [simp]:
  "value_of b [] = 0" "value_of b (s @ t) = value_of b s * b ^ length t + value_of b t"
  "value_of b [c] = the (base_digit b c)"
  by (simp_all add: value_of_def foldl_value [of _ _ "foldl _ _ _"])

lemma scan_digits_value:
  "digit_string b s \<Longrightarrow> s \<noteq> [] \<or> prev \<Longrightarrow> scan_digits b acc prev s = Some (acc * b ^ length s + value_of b s)"
proof (induction s arbitrary: acc prev)
  case (Cons c s)
  from Cons.prems obtain d where d: "base_digit b c = Some d" by (auto simp: digit_string_def)
  have "scan_digits b (acc * b + d) True s = Some ((acc * b + d) * b ^ length s + value_of b s)"
    using Cons.prems(1) by (intro Cons.IH) (simp_all add: digit_string_def)
  moreover have "value_of b (c # s) = d * b ^ length s + value_of b s"
    using value_of_simps(2) [of b "[c]" s] d by simp
  ultimately show ?case using d by (simp add: algebra_simps)
qed simp

lemma code_digit_char: "d < 16 \<Longrightarrow> code (digit_char d) = (if d < 10 then 48 + d else 87 + d)"
  by (simp add: digit_char_def code_def of_char_of take_bit_eq_mod)

lemma base_digit_char [simp]: "d < b \<Longrightarrow> b \<le> 16 \<Longrightarrow> base_digit b (digit_char d) = Some d"
  using code_digit_char [of d] by (auto simp: base_digit_def digit_value_def Let_def)

lemma length_pad_digits [simp]: "length (pad_digits b w n) = w"
  by (induction b w n rule: pad_digits.induct) auto

lemma digit_string_simps [simp]:
  "digit_string b []" "digit_string b (s @ t) \<longleftrightarrow> digit_string b s \<and> digit_string b t"
  "digit_string b (c # s) \<longleftrightarrow> base_digit b c \<noteq> None \<and> digit_string b s"
  by (simp_all add: digit_string_def)

lemma pad_digits_ok: "1 < b \<Longrightarrow> b \<le> 16 \<Longrightarrow> digit_string b (pad_digits b w n)"
  by (induction b w n rule: pad_digits.induct) auto

lemma value_pad_digits: "1 < b \<Longrightarrow> b \<le> 16 \<Longrightarrow> n < b ^ w \<Longrightarrow> value_of b (pad_digits b w n) = n"
proof (induction b w n rule: pad_digits.induct)
  case (2 b w n)
  then have "n div b < b ^ w" by (simp add: less_mult_imp_div_less mult.commute)
  with 2 show ?case by simp
qed simp

lemma digits_ok: "digit_string 10 (digits n) \<and> digits n \<noteq> [] \<and> value_of 10 (digits n) = n"
proof (induction n rule: digits.induct)
  case (1 n)
  have c: "char_of (48 + d) = digit_char d" if "d < 10" for d using that by (simp add: digit_char_def)
  show ?case
  proof (cases "n < 10")
    case True
    then show ?thesis by (simp add: digits.simps [of n] c)
  next
    case False
    with 1 show ?thesis by (simp add: digits.simps [of n] c)
  qed
qed

subsection \<open>Reading integers back\<close>

lemma base_digit_not_special:
  assumes "base_digit b c \<noteq> None"
  shows "\<not> is_space c \<and> c \<noteq> CHR ''-'' \<and> c \<noteq> CHR ''+'' \<and> c \<noteq> CHR ''_'' \<and> c \<noteq> CHR ''.''"
  using assms by (auto simp: base_digit_def digit_value_def is_space_def code_def Let_def split: if_splits)

lemma strip_id:
  assumes "s \<noteq> [] \<Longrightarrow> \<not> is_space (hd s) \<and> \<not> is_space (last s)"
  shows "py_strip s = s"
proof (cases "s = []")
  case False
  have "dropWhile is_space s = s" using assms [OF False] by (intro dropWhile_hd) simp
  moreover have "dropWhile is_space (rev s) = rev s"
    using assms [OF False] False by (intro dropWhile_hd) (simp add: hd_rev)
  ultimately show ?thesis by (simp add: py_strip_def)
qed (simp add: py_strip_def)

lemma digit_string_mem: "digit_string b s \<Longrightarrow> c \<in> set s \<Longrightarrow> base_digit b c \<noteq> None"
  by (auto simp: digit_string_def list_all_iff)

lemma strip_digit_string: "digit_string b s \<Longrightarrow> py_strip s = s"
  by (rule strip_id) (metis base_digit_not_special digit_string_mem hd_in_set last_in_set)

lemma split_sign_digits: "digit_string b s \<Longrightarrow> split_sign s = (False, s)"
  by (cases s) (use base_digit_not_special in \<open>fastforce simp: split_sign_def\<close>)+

lemma py_int_digits: "digit_string 10 s \<Longrightarrow> s \<noteq> [] \<Longrightarrow> py_int s = Some (int (value_of 10 s))"
  by (simp add: py_int_def strip_digit_string split_sign_digits scan_digits_value signed_def)

lemma py_int_show [simp]: "py_int (show_int i) = Some i"
proof (cases "i < 0")
  case False
  then show ?thesis using digits_ok [of "nat i"] by (simp add: show_int_def py_int_digits)
next
  case True
  let ?d = "digits (nat (- i))"
  have d: "digit_string 10 ?d" "?d \<noteq> []" "value_of 10 ?d = nat (- i)" using digits_ok by auto
  have "\<not> is_space (last ?d)" using d base_digit_not_special digit_string_mem last_in_set by metis
  then have "py_strip (CHR ''-'' # ?d) = CHR ''-'' # ?d"
    using d(2) by (intro strip_id) (simp add: is_space_def)
  then show ?thesis using True d by (simp add: show_int_def py_int_def split_sign_def scan_digits_value signed_def)
qed

section \<open>Floats\<close>

definition split_at :: "char \<Rightarrow> string \<Rightarrow> string \<times> string option" where
  "split_at x s =
     (takeWhile (\<lambda>c. c \<noteq> x) s, case dropWhile (\<lambda>c. c \<noteq> x) s of [] \<Rightarrow> None | c # r \<Rightarrow> Some r)"

definition dec_part :: "string \<Rightarrow> nat option" where
  "dec_part s = (if s = [] then Some 0 else scan_digits 10 0 False s)"

definition exp_part :: "string option \<Rightarrow> int option" where
  "exp_part e =
     (case e of None \<Rightarrow> Some 0
      | Some t \<Rightarrow> (let (neg, ds) = split_sign t in map_option (signed neg) (scan_digits 10 0 False ds)))"

definition negated :: "bool \<Rightarrow> real \<Rightarrow> real" where
  "negated neg x = (if neg then - x else x)"

definition py_float :: "string \<Rightarrow> pyfloat option" where
  "py_float s =
     (let (neg, u) = split_sign (py_strip s); l = py_lower u
      in if l = ''inf'' \<or> l = ''infinity'' then Some (if neg then NegInf else PosInf)
         else if l = ''nan'' then Some NaN
         else
           let (mant, ex) = split_at (CHR ''e'') l; (ip, fp) = split_at (CHR ''.'') mant;
               fpart = (case fp of None \<Rightarrow> [] | Some f \<Rightarrow> f)
           in if ip = [] \<and> fpart = [] then None
              else case (dec_part ip, dec_part fpart, exp_part ex) of
                     (Some a, Some b, Some e) \<Rightarrow>
                       Some (Fin (negated neg ((real a + real b / 10 ^ length (filter (\<lambda>c. c \<noteq> CHR ''_'') fpart))
                                    * 10 powi e)))
                   | _ \<Rightarrow> None)"

definition fixed_units :: "nat \<Rightarrow> real \<Rightarrow> nat" where
  "fixed_units n x = nat (round_half_even (\<bar>x\<bar> * 10 ^ n))"

text \<open>The format \<open>{x:.nf}\<close>.\<close>

definition fmt_fixed :: "nat \<Rightarrow> real \<Rightarrow> string" where
  "fmt_fixed n x =
     (let q = fixed_units n x
      in (if x < 0 then ''-'' else []) @ digits (q div 10 ^ n) @
         (if n = 0 then [] else CHR ''.'' # pad_digits 10 n (q mod 10 ^ n)))"

lemma fixed_units_error: "\<bar>real (fixed_units n x) / 10 ^ n - \<bar>x\<bar>\<bar> \<le> 1 / 2 / 10 ^ n"
proof -
  have "real (fixed_units n x) = of_int (round_half_even (\<bar>x\<bar> * 10 ^ n))"
    using round_half_even_nonneg [of "\<bar>x\<bar> * 10 ^ n"] by (simp add: fixed_units_def)
  then have "\<bar>real (fixed_units n x) - \<bar>x\<bar> * 10 ^ n\<bar> \<le> 1 / 2" using round_half_even_error by simp
  then have "\<bar>real (fixed_units n x) - \<bar>x\<bar> * 10 ^ n\<bar> / 10 ^ n \<le> 1 / 2 / 10 ^ n" by (intro divide_right_mono) simp_all
  moreover have "\<bar>real (fixed_units n x) - \<bar>x\<bar> * 10 ^ n\<bar> / 10 ^ n = \<bar>real (fixed_units n x) / 10 ^ n - \<bar>x\<bar>\<bar>"
  proof -
    have "real (fixed_units n x) / 10 ^ n - \<bar>x\<bar> = (real (fixed_units n x) - \<bar>x\<bar> * 10 ^ n) / 10 ^ n"
      by (simp add: diff_divide_distrib)
    then show ?thesis by (simp only: abs_divide) simp
  qed
  ultimately show ?thesis by simp
qed

lemma base10_char: "base_digit 10 c \<noteq> None \<Longrightarrow> lower_char c = c \<and> 48 \<le> code c \<and> code c \<le> 57"
  by (auto simp: base_digit_def digit_value_def lower_char_def code_def Let_def split: if_splits)

lemma lower_digits: "digit_string 10 s \<Longrightarrow> py_lower s = s"
  unfolding py_lower_def by (rule map_idI) (use base10_char digit_string_mem in blast)

lemma digits_no_char: "digit_string 10 s \<Longrightarrow> code x < 48 \<or> 57 < code x \<Longrightarrow> x \<notin> set s"
  using base10_char digit_string_mem by fastforce

lemma split_at_none: "x \<notin> set s \<Longrightarrow> split_at x s = (s, None)"
proof -
  assume "x \<notin> set s"
  then have t: "takeWhile (\<lambda>c. c \<noteq> x) s = s" and d: "dropWhile (\<lambda>c. c \<noteq> x) s = []" by auto
  show ?thesis unfolding split_at_def t d by simp
qed

lemma split_at_some: "x \<notin> set s \<Longrightarrow> split_at x (s @ x # t) = (s, Some t)"
proof -
  assume "x \<notin> set s"
  then have t: "takeWhile (\<lambda>c. c \<noteq> x) (s @ x # t) = s" and d: "dropWhile (\<lambda>c. c \<noteq> x) (s @ x # t) = x # t"
    by (induction s) auto
  show ?thesis unfolding split_at_def t d by simp
qed

lemma py_float_fixed:
  assumes n: "0 < n"
  shows "py_float (fmt_fixed n x) = Some (Fin (negated (x < 0) (real (fixed_units n x) / 10 ^ n)))"
proof -
  define q where "q = fixed_units n x"
  define ip where "ip = digits (q div 10 ^ n)"
  define fp where "fp = pad_digits 10 n (q mod 10 ^ n)"
  have ip: "digit_string 10 ip" "ip \<noteq> []" "value_of 10 ip = q div 10 ^ n" using digits_ok by (simp_all add: ip_def)
  have fp: "digit_string 10 fp" "length fp = n" "value_of 10 fp = q mod 10 ^ n"
    by (simp_all add: fp_def pad_digits_ok value_pad_digits)
  have fp_ne: "fp \<noteq> []" using fp(2) n by auto
  let ?u = "ip @ CHR ''.'' # fp"
  have fmt: "fmt_fixed n x = (if x < 0 then ''-'' else []) @ ?u"
    using n by (simp add: fmt_fixed_def Let_def ip_def fp_def q_def)
  have first: "base_digit 10 (hd ip) \<noteq> None" and last: "base_digit 10 (last fp) \<noteq> None"
    using ip fp fp_ne digit_string_mem hd_in_set last_in_set by metis+
  have strip: "py_strip (fmt_fixed n x) = fmt_fixed n x"
    unfolding fmt using base_digit_not_special [OF first] base_digit_not_special [OF last] ip(2) fp_ne
    by (intro strip_id) (auto simp: is_space_def)
  have sign: "split_sign (fmt_fixed n x) = (x < 0, ?u)"
    using base_digit_not_special [OF first] ip(2) by (cases ip) (auto simp: fmt split_sign_def)
  have low: "py_lower ?u = ?u"
    using lower_digits [OF ip(1)] lower_digits [OF fp(1)] by (simp add: py_lower_def lower_char_def)
  have e: "CHR ''e'' \<notin> set ?u" using digits_no_char [OF ip(1)] digits_no_char [OF fp(1)] by (simp add: code_def)
  have dot: "CHR ''.'' \<notin> set ip" using digits_no_char [OF ip(1)] by (simp add: code_def)
  have under: "filter (\<lambda>c. c \<noteq> CHR ''_'') fp = fp"
    by (rule filter_True) (use digits_no_char [OF fp(1), of "CHR ''_''"] in \<open>auto simp: code_def\<close>)
  have hd: "hd ?u \<noteq> CHR ''i''" "hd ?u \<noteq> CHR ''n''"
    using base10_char [OF first] ip(2) by (auto simp: code_def)
  have words: "?u \<noteq> ''inf''" "?u \<noteq> ''infinity''" "?u \<noteq> ''nan''" using hd by auto
  have parts: "dec_part ip = Some (q div 10 ^ n)" "dec_part fp = Some (q mod 10 ^ n)" "exp_part None = Some 0"
    using ip fp fp_ne by (simp_all add: dec_part_def exp_part_def scan_digits_value)
  have "q = q div 10 ^ n * 10 ^ n + q mod 10 ^ n" by (simp only: div_mult_mod_eq)
  then have "real q = real (q div 10 ^ n) * 10 ^ n + real (q mod 10 ^ n)"
    by (metis of_nat_add of_nat_mult of_nat_numeral of_nat_power)
  then have val: "real (q div 10 ^ n) + real (q mod 10 ^ n) / 10 ^ n = real q / 10 ^ n" by (simp add: field_simps)
  show ?thesis
    unfolding py_float_def strip sign Let_def prod.case low split_at_none [OF e] split_at_some [OF dot]
    using words ip(2) parts val under fp(2) by (simp add: q_def)
qed

lemma fmt_fixed_roundtrip:
  assumes "0 < n"
  obtains y where "py_float (fmt_fixed n x) = Some (Fin y)" "\<bar>y - x\<bar> \<le> 1 / 2 / 10 ^ n"
proof -
  have "\<bar>negated (x < 0) (real (fixed_units n x) / 10 ^ n) - x\<bar> \<le> 1 / 2 / 10 ^ n"
    using fixed_units_error [of n x] by (auto simp: negated_def abs_if split: if_splits)
  with py_float_fixed [OF assms] show thesis by (rule that)
qed

section \<open>UUIDs\<close>

text \<open>\<open>s.replace(old, \<close>''\<open>)\<close>.\<close>

function py_remove :: "string \<Rightarrow> string \<Rightarrow> string" where
  "py_remove old [] = []"
| "py_remove old (c # cs) =
     (if old \<noteq> [] \<and> prefix old (c # cs) then py_remove old (drop (length old) (c # cs))
      else c # py_remove old cs)"
  by pat_completeness auto
termination by (relation "measure (\<lambda>(old, s). length s)") (auto simp: neq_Nil_conv)

definition strip_chars :: "string \<Rightarrow> string \<Rightarrow> string" where
  "strip_chars chars s = rev (dropWhile (\<lambda>c. c \<in> set chars) (rev (dropWhile (\<lambda>c. c \<in> set chars) s)))"

text \<open>\<open>uuid.UUID(s)\<close>: the 128-bit value, or \<open>None\<close> where it raises \<open>ValueError\<close>.\<close>

definition uuid_hex :: "string \<Rightarrow> string" where
  "uuid_hex s = filter (\<lambda>c. c \<noteq> CHR ''-'') (strip_chars ''{}'' (py_remove ''uuid:'' (py_remove ''urn:'' s)))"

definition parse_uuid :: "string \<Rightarrow> nat option" where
  "parse_uuid s =
     (let h = uuid_hex s
      in if length h \<noteq> 32 then None
         else case py_int16 h of None \<Rightarrow> None | Some i \<Rightarrow> if i < 0 then None else Some (nat i))"

definition uuid_str :: "nat \<Rightarrow> string" where
  "uuid_str n =
     (let h = pad_digits 16 32 n
      in take 8 h @ CHR ''-'' # take 4 (drop 8 h) @ CHR ''-'' # take 4 (drop 12 h) @ CHR ''-'' #
         take 4 (drop 16 h) @ CHR ''-'' # drop 20 h)"

lemma py_remove_id: "old \<noteq> [] \<Longrightarrow> hd old \<notin> set s \<Longrightarrow> py_remove old s = s"
proof (induction s)
  case (Cons c s)
  then have "\<not> prefix old (c # s)" by (cases old) auto
  with Cons show ?case by simp
qed simp

lemma strip_chars_id: "\<forall>c\<in>set s. c \<notin> set chars \<Longrightarrow> strip_chars chars s = s"
proof -
  assume a: "\<forall>c\<in>set s. c \<notin> set chars"
  then have "dropWhile (\<lambda>c. c \<in> set chars) s = s" by (cases s) auto
  moreover have "dropWhile (\<lambda>c. c \<in> set chars) (rev s) = rev s" using a by (cases "rev s") (auto dest: arg_cong [of _ _ set])
  ultimately show ?thesis by (simp add: strip_chars_def)
qed

text \<open>The digits that \<open>%032x\<close> writes.\<close>

definition hex_char :: "char \<Rightarrow> bool" where
  "hex_char c \<longleftrightarrow> (let n = code c in 48 \<le> n \<and> n \<le> 57 \<or> 97 \<le> n \<and> n \<le> 102)"

lemma pad_digits_hex: "list_all hex_char (pad_digits 16 w n)"
proof (induction w arbitrary: n)
  case (Suc w)
  have "hex_char (digit_char (n mod 16))"
    using code_digit_char [of "n mod 16"] by (simp add: hex_char_def Let_def) linarith
  with Suc show ?case by simp
qed simp

lemma uuid_str_chars: "c \<in> set (uuid_str n) \<Longrightarrow> hex_char c \<or> c = CHR ''-''"
proof -
  let ?h = "pad_digits 16 32 n"
  assume c: "c \<in> set (uuid_str n)"
  have "set (uuid_str n) \<subseteq> set ?h \<union> {CHR ''-''}"
    by (auto simp: uuid_str_def Let_def dest: in_set_takeD in_set_dropD)
  with c pad_digits_hex [of 32 n] show ?thesis by (auto simp: list_all_iff)
qed

lemma filter_hex: "list_all hex_char s \<Longrightarrow> filter (\<lambda>c. c \<noteq> CHR ''-'') s = s"
  by (rule filter_True) (auto simp: list_all_iff hex_char_def code_def Let_def)

lemma hex_take_drop [simp]: "list_all hex_char s \<Longrightarrow> list_all hex_char (take k s)"
  "list_all hex_char s \<Longrightarrow> list_all hex_char (drop k s)"
  by (auto simp: list_all_iff dest: in_set_takeD in_set_dropD)

lemma uuid_hex_str: "uuid_hex (uuid_str n) = pad_digits 16 32 n"
proof -
  let ?h = "pad_digits 16 32 n" and ?s = "uuid_str n"
  have "c \<noteq> CHR ''u'' \<and> c \<noteq> CHR ''{'' \<and> c \<noteq> CHR ''}''" if "c \<in> set ?s" for c
    using uuid_str_chars [OF that] by (auto simp: hex_char_def code_def Let_def)
  then have not: "CHR ''u'' \<notin> set ?s" "\<forall>c\<in>set ?s. c \<notin> set ''{}''" by fastforce+
  have "filter (\<lambda>c. c \<noteq> CHR ''-'') ?s = ?h"
  proof -
    have part: "take 4 (drop k ?h) @ drop (4 + k) ?h = drop k ?h" for k
      by (metis append_take_drop_id drop_drop)
    have split: "take 8 ?h @ take 4 (drop 8 ?h) @ take 4 (drop 12 ?h) @ take 4 (drop 16 ?h) @ drop 20 ?h = ?h"
    proof -
      have "take 4 (drop 8 ?h) @ drop 12 ?h = drop 8 ?h" "take 4 (drop 12 ?h) @ drop 16 ?h = drop 12 ?h"
        "take 4 (drop 16 ?h) @ drop 20 ?h = drop 16 ?h"
        using part [of 8] part [of 12] part [of 16] by simp_all
      then show ?thesis by (simp only: append_take_drop_id)
    qed
    have "filter (\<lambda>c. c \<noteq> CHR ''-'') ?s =
        take 8 ?h @ take 4 (drop 8 ?h) @ take 4 (drop 12 ?h) @ take 4 (drop 16 ?h) @ drop 20 ?h"
      using pad_digits_hex [of 32 n] by (simp add: uuid_str_def Let_def filter_hex)
    with split show ?thesis by simp
  qed
  then show ?thesis using not by (simp add: uuid_hex_def py_remove_id strip_chars_id)
qed

lemma strip_prefix16_id: "digit_string 16 s \<Longrightarrow> strip_prefix16 s = s"
proof -
  assume d: "digit_string 16 s"
  have "x \<noteq> CHR ''x'' \<and> x \<noteq> CHR ''X''" if "x \<in> set s" for x
    using digit_string_mem [OF d that] by (auto simp: base_digit_def digit_value_def code_def Let_def split: if_splits)
  then show ?thesis by (auto simp: strip_prefix16_def split: list.splits)
qed

lemma parse_uuid_str [simp]:
  assumes "n < 16 ^ 32"
  shows "parse_uuid (uuid_str n) = Some n"
proof -
  let ?h = "pad_digits 16 32 n"
  have d: "digit_string 16 ?h" by (rule pad_digits_ok) simp_all
  have ne: "?h \<noteq> []" by (metis length_pad_digits list.size(3) zero_neq_numeral)
  have "py_int16 ?h = Some (int n)"
    using strip_digit_string [OF d] split_sign_digits [OF d] strip_prefix16_id [OF d]
      scan_digits_value [OF d, of False 0] ne value_pad_digits [OF _ _ assms]
    by (simp add: py_int16_def signed_def)
  then show ?thesis by (simp add: parse_uuid_def uuid_hex_str Let_def)
qed

end
