(* ===== verification/Py_Values.thy ===== *)
theory Py_Values
  imports Py_Numbers "HOL-Library.List_Lexorder"
begin

text \<open>
  Python values as JSON carries them (\<open>Any\<close> in the sources): truth, \<open>str\<close>, and the compact text with
  sorted keys that \<open>json.dumps(v, sort_keys=True, ensure_ascii=False, separators=(",", ":"))\<close> writes. A
  \<open>str\<close> is its UTF-8 bytes, whose order is the order of the code points. The text of a finite float,
  \<open>float.__repr__\<close>, is an argument; what is used of it is that two doubles never share a text and that a text is a
  number literal with a point or an exponent (\<open>number_texts\<close>). The main lemma: values with the same text are equal up to the order of the keys
  in their dictionaries.
\<close>

section \<open>Values\<close>

datatype pyval =
    V_none | V_bool bool | V_int int | V_float pyfloat | V_str string | V_list "pyval list" | V_dict "(string \<times> pyval) list"

fun truthy :: "pyval \<Rightarrow> bool" where
  "truthy V_none = False"
| "truthy (V_bool b) = b"
| "truthy (V_int i) = (i \<noteq> 0)"
| "truthy (V_float x) = (x \<noteq> Fin 0)"
| "truthy (V_str s) = (s \<noteq> [])"
| "truthy (V_list vs) = (vs \<noteq> [])"
| "truthy (V_dict kvs) = (kvs \<noteq> [])"

text \<open>\<open>d.get(k)\<close> of a dictionary.\<close>

definition vget :: "(string \<times> pyval) list \<Rightarrow> string \<Rightarrow> pyval" where
  "vget d k = (case dict_get d k of Some v \<Rightarrow> v | None \<Rightarrow> V_none)"

text \<open>\<open>a or b\<close>.\<close>

definition v_or :: "pyval \<Rightarrow> pyval \<Rightarrow> pyval" where
  "v_or a b = (if truthy a then a else b)"

section \<open>\<open>str\<close>\<close>

fun float_text :: "(real \<Rightarrow> string) \<Rightarrow> pyfloat \<Rightarrow> string" where
  "float_text fr (Fin x) = fr x"
| "float_text fr PosInf = ''inf''"
| "float_text fr NegInf = ''-inf''"
| "float_text fr NaN = ''nan''"

definition hex2 :: "nat \<Rightarrow> string" where "hex2 n = pad_digits 16 2 n"

definition repr_char :: "char \<Rightarrow> char \<Rightarrow> string" where
  "repr_char q c =
     (let n = code c
      in if c = q \<or> n = 92 then [CHR 0x5C, c]
         else if n = 10 then [CHR 0x5C, CHR ''n'']
         else if n = 13 then [CHR 0x5C, CHR ''r'']
         else if n = 9 then [CHR 0x5C, CHR ''t'']
         else if n < 32 \<or> n = 127 then [CHR 0x5C, CHR ''x''] @ hex2 n
         else [c])"

definition repr_str :: "string \<Rightarrow> string" where
  "repr_str s =
     (let q = (if CHR 0x27 \<in> set s \<and> CHR 0x22 \<notin> set s then CHR 0x22 else CHR 0x27)
      in [q] @ concat (map (repr_char q) s) @ [q])"

fun join :: "string \<Rightarrow> string list \<Rightarrow> string" where
  "join sep [] = []"
| "join sep [x] = x"
| "join sep (x # y # xs) = x @ sep @ join sep (y # xs)"

fun repr_val :: "(real \<Rightarrow> string) \<Rightarrow> pyval \<Rightarrow> string" where
  "repr_val fr V_none = ''None''"
| "repr_val fr (V_bool b) = (if b then ''True'' else ''False'')"
| "repr_val fr (V_int i) = show_int i"
| "repr_val fr (V_float x) = float_text fr x"
| "repr_val fr (V_str s) = repr_str s"
| "repr_val fr (V_list vs) = ''['' @ join '', '' (map (repr_val fr) vs) @ '']''"
| "repr_val fr (V_dict kvs) = ''{'' @ join '', '' (map (\<lambda>(k, v). repr_str k @ '': '' @ repr_val fr v) kvs) @ ''}''"

definition str_val :: "(real \<Rightarrow> string) \<Rightarrow> pyval \<Rightarrow> string" where
  "str_val fr v = (case v of V_str s \<Rightarrow> s | _ \<Rightarrow> repr_val fr v)"

section \<open>The canonical text\<close>

definition QUOTE :: char where "QUOTE = CHR 0x22"
definition BACKSLASH :: char where "BACKSLASH = CHR 0x5C"

definition json_char :: "char \<Rightarrow> string" where
  "json_char c =
     (let n = code c
      in if c = QUOTE \<or> c = BACKSLASH then [BACKSLASH, c]
         else if n = 10 then [BACKSLASH, CHR ''n'']
         else if n = 13 then [BACKSLASH, CHR ''r'']
         else if n = 9 then [BACKSLASH, CHR ''t'']
         else if n = 8 then [BACKSLASH, CHR ''b'']
         else if n = 12 then [BACKSLASH, CHR ''f'']
         else if n < 32 then [BACKSLASH, CHR ''u''] @ pad_digits 16 4 n
         else [c])"

definition json_str :: "string \<Rightarrow> string" where
  "json_str s = [QUOTE] @ concat (map json_char s) @ [QUOTE]"

fun json_float :: "(real \<Rightarrow> string) \<Rightarrow> pyfloat \<Rightarrow> string" where
  "json_float fr (Fin x) = fr x"
| "json_float fr PosInf = ''Infinity''"
| "json_float fr NegInf = ''-Infinity''"
| "json_float fr NaN = ''NaN''"

fun dumps :: "(real \<Rightarrow> string) \<Rightarrow> pyval \<Rightarrow> string" where
  "dumps fr V_none = ''null''"
| "dumps fr (V_bool b) = (if b then ''true'' else ''false'')"
| "dumps fr (V_int i) = show_int i"
| "dumps fr (V_float x) = json_float fr x"
| "dumps fr (V_str s) = json_str s"
| "dumps fr (V_list vs) = ''['' @ join '','' (map (dumps fr) vs) @ '']''"
| "dumps fr (V_dict kvs) =
     ''{'' @ join '','' (map (\<lambda>(k, t). json_str k @ '':'' @ t) (sort_key fst (map (\<lambda>(k, v). (k, dumps fr v)) kvs))) @ ''}''"

text \<open>The value with the keys of all its dictionaries in order.\<close>

fun sorted_keys :: "pyval \<Rightarrow> pyval" where
  "sorted_keys (V_list vs) = V_list (map sorted_keys vs)"
| "sorted_keys (V_dict kvs) = V_dict (sort_key fst (map (\<lambda>(k, v). (k, sorted_keys v)) kvs))"
| "sorted_keys v = v"

text \<open>What is used of \<open>float.__repr__\<close>.\<close>

definition number_char :: "char \<Rightarrow> bool" where
  "number_char c \<longleftrightarrow> (let n = code c in 48 \<le> n \<and> n \<le> 57 \<or> n = 43 \<or> n = 45 \<or> n = 46 \<or> n = 101)"

definition point_char :: "char \<Rightarrow> bool" where
  "point_char c \<longleftrightarrow> (let n = code c in n = 46 \<or> n = 101)"

definition number_texts :: "real set \<Rightarrow> (real \<Rightarrow> string) \<Rightarrow> bool" where
  "number_texts F fr \<longleftrightarrow>
     inj_on fr F \<and> (\<forall>x\<in>F. (\<forall>c\<in>set (fr x). number_char c) \<and> (\<exists>c\<in>set (fr x). point_char c))"

fun float_in :: "real set \<Rightarrow> pyfloat \<Rightarrow> bool" where
  "float_in F (Fin x) = (x \<in> F)"
| "float_in F _ = True"

text \<open>The finite floats of a value are among \<open>F\<close>, which stands for the doubles.\<close>

fun floats_in :: "real set \<Rightarrow> pyval \<Rightarrow> bool" where
  "floats_in F (V_float x) = float_in F x"
| "floats_in F (V_list vs) = list_all (floats_in F) vs"
| "floats_in F (V_dict kvs) = list_all (\<lambda>(k, v). floats_in F v) kvs"
| "floats_in F _ = True"

section \<open>Reading characters and strings back\<close>

lemma char_of_code [simp]: "char_of (code c) = c"
  by (simp add: code_def)

lemma code_eqD: "code c = n \<Longrightarrow> c = char_of n"
  by (metis char_of_code)

definition read_json_char :: "string \<Rightarrow> (char \<times> string) option" where
  "read_json_char s =
     (case s of
        [] \<Rightarrow> None
      | c # x \<Rightarrow>
          if c \<noteq> BACKSLASH then Some (c, x)
          else (case x of
                  [] \<Rightarrow> None
                | d # y \<Rightarrow>
                    if d = CHR ''n'' then Some (char_of (10::nat), y)
                    else if d = CHR ''r'' then Some (char_of (13::nat), y)
                    else if d = CHR ''t'' then Some (char_of (9::nat), y)
                    else if d = CHR ''b'' then Some (char_of (8::nat), y)
                    else if d = CHR ''f'' then Some (char_of (12::nat), y)
                    else if d = CHR ''u'' then Some (char_of (value_of 16 (take 4 y)), drop 4 y)
                    else Some (d, y)))"

lemmas special_chars = QUOTE_def BACKSLASH_def

lemma code_special: "code QUOTE = 34" "code BACKSLASH = 92"
  by (simp_all add: code_def special_chars)

lemma read_json_plain: "c \<noteq> BACKSLASH \<Longrightarrow> read_json_char (c # x) = Some (c, x)"
  by (simp add: read_json_char_def)

lemma read_json_escape: "d \<notin> set ''nrtbfu'' \<Longrightarrow> read_json_char (BACKSLASH # d # y) = Some (d, y)"
  by (simp add: read_json_char_def)

lemma read_json_char: "read_json_char (json_char c @ x) = Some (c, x)"
proof -
  consider "c = QUOTE" | "c = BACKSLASH" | "c \<noteq> QUOTE" "c \<noteq> BACKSLASH" by blast
  then show ?thesis
  proof cases
    case 1
    then show ?thesis by (simp add: json_char_def read_json_char_def special_chars)
  next
    case 2
    then show ?thesis by (simp add: json_char_def read_json_char_def special_chars)
  next
    case 3
    note plain = 3
    consider "code c = 10" | "code c = 13" | "code c = 9" | "code c = 8" | "code c = 12"
      | "code c < 32" "code c \<noteq> 10" "code c \<noteq> 13" "code c \<noteq> 9" "code c \<noteq> 8" "code c \<noteq> 12" | "32 \<le> code c"
      by linarith
    then show ?thesis
    proof cases
      case 1
      have "json_char c = [BACKSLASH, CHR ''n'']" using 1 plain by (simp add: json_char_def Let_def)
      with code_eqD [OF 1] show ?thesis by (simp only: read_json_char_def) simp
    next
      case 2
      have "json_char c = [BACKSLASH, CHR ''r'']" using 2 plain by (simp add: json_char_def Let_def)
      with code_eqD [OF 2] show ?thesis by (simp only: read_json_char_def) simp
    next
      case 3
      have "json_char c = [BACKSLASH, CHR ''t'']" using 3 plain by (simp add: json_char_def Let_def)
      with code_eqD [OF 3] show ?thesis by (simp only: read_json_char_def) simp
    next
      case 4
      have "json_char c = [BACKSLASH, CHR ''b'']" using 4 plain by (simp add: json_char_def Let_def)
      with code_eqD [OF 4] show ?thesis by (simp only: read_json_char_def) simp
    next
      case 5
      have "json_char c = [BACKSLASH, CHR ''f'']" using 5 plain by (simp add: json_char_def Let_def)
      with code_eqD [OF 5] show ?thesis by (simp only: read_json_char_def) simp
    next
      case 6
      have "value_of 16 (pad_digits 16 4 (code c)) = code c" using 6(1) by (intro value_pad_digits) simp_all
      moreover have "json_char c = [BACKSLASH, CHR ''u''] @ pad_digits 16 4 (code c)"
        using 6 plain by (simp add: json_char_def Let_def)
      ultimately show ?thesis by (simp add: read_json_char_def)
    next
      case 7
      then have "json_char c = [c]" using plain by (simp add: json_char_def Let_def)
      with plain show ?thesis by (simp add: read_json_plain)
    qed
  qed
qed

lemma json_char_hd: "\<exists>d y. json_char c = d # y \<and> d \<noteq> QUOTE"
proof -
  have "BACKSLASH \<noteq> QUOTE" by (simp add: special_chars)
  then show ?thesis by (simp add: json_char_def Let_def)
qed

lemma json_chars_cancel:
  "concat (map json_char s) @ QUOTE # r = concat (map json_char s') @ QUOTE # r' \<Longrightarrow> s = s' \<and> r = r'"
proof (induction s arbitrary: s')
  case Nil
  show ?case
  proof (cases s')
    case (Cons c t)
    obtain d y where "json_char c = d # y" "d \<noteq> QUOTE" using json_char_hd by blast
    with Nil Cons show ?thesis by simp
  qed (use Nil in simp)
next
  case (Cons c s)
  show ?case
  proof (cases s')
    case Nil
    obtain d y where "json_char c = d # y" "d \<noteq> QUOTE" using json_char_hd by blast
    with Nil Cons.prems show ?thesis by simp
  next
    case (Cons c' t)
    with Cons.prems have eq: "json_char c @ concat (map json_char s) @ QUOTE # r = json_char c' @ concat (map json_char t) @ QUOTE # r'"
      by simp
    then have "read_json_char (json_char c @ concat (map json_char s) @ QUOTE # r) =
        read_json_char (json_char c' @ concat (map json_char t) @ QUOTE # r')" by (rule arg_cong)
    then have "c = c'" "concat (map json_char s) @ QUOTE # r = concat (map json_char t) @ QUOTE # r'"
      by (simp_all add: read_json_char)
    with Cons.IH [of t] Cons show ?thesis by simp
  qed
qed

lemma json_str_cancel: "json_str s @ r = json_str s' @ r' \<Longrightarrow> s = s' \<and> r = r'"
  using json_chars_cancel [of s r s' r'] by (simp add: json_str_def)

section \<open>Literals\<close>

definition stop_char :: "char \<Rightarrow> bool" where
  "stop_char c \<longleftrightarrow> (let n = code c in n = 44 \<or> n = 93 \<or> n = 125)"

definition bare_char :: "char \<Rightarrow> bool" where
  "bare_char c \<longleftrightarrow> (let n = code c in n \<noteq> 34 \<and> n \<noteq> 44 \<and> n \<noteq> 91 \<and> n \<noteq> 93 \<and> n \<noteq> 123 \<and> n \<noteq> 125)"

lemma bare_not_stop: "bare_char c \<Longrightarrow> \<not> stop_char c"
  by (auto simp: bare_char_def stop_char_def Let_def)

definition stops :: "string \<Rightarrow> bool" where
  "stops r \<longleftrightarrow> r = [] \<or> stop_char (hd r)"

fun literal :: "pyval \<Rightarrow> bool" where
  "literal (V_str _) = False"
| "literal (V_list _) = False"
| "literal (V_dict _) = False"
| "literal _ = True"

definition literal_text :: "string \<Rightarrow> bool" where
  "literal_text s \<longleftrightarrow> s \<noteq> [] \<and> list_all bare_char s"

lemma show_int_char: "c \<in> set (show_int i) \<Longrightarrow> code c = 45 \<or> (48 \<le> code c \<and> code c \<le> 57)"
proof -
  assume c: "c \<in> set (show_int i)"
  have "code d \<ge> 48 \<and> code d \<le> 57" if "d \<in> set (digits n)" for d n
    using digits_ok [of n] digit_string_mem [OF _ that] base10_char by blast
  moreover have "code (CHR ''-'') = 45" by (simp add: code_def)
  ultimately show ?thesis using c by (auto simp: show_int_def split: if_splits)
qed

lemma show_int_nonempty: "show_int i \<noteq> []"
  using digits_ok by (simp add: show_int_def)

lemma show_int_literal: "literal_text (show_int i)"
proof -
  have "bare_char c" if "c \<in> set (show_int i)" for c
    using show_int_char [OF that] by (auto simp: bare_char_def Let_def)
  then show ?thesis using show_int_nonempty by (simp add: literal_text_def list_all_iff)
qed

lemma number_bare: "number_char c \<Longrightarrow> bare_char c"
  by (auto simp: number_char_def bare_char_def Let_def)

lemma const_literals:
  "literal_text ''null''" "literal_text ''true''" "literal_text ''false''" "literal_text ''Infinity''"
  "literal_text ''-Infinity''" "literal_text ''NaN''"
  by code_simp+

lemma float_literal: "number_texts F fr \<Longrightarrow> float_in F x \<Longrightarrow> literal_text (json_float fr x)"
proof (cases x)
  case (Fin r)
  assume fr: "number_texts F fr" "float_in F x"
  with Fin obtain c where "c \<in> set (fr r)" unfolding number_texts_def by fastforce
  then have "fr r \<noteq> []" by auto
  with fr Fin show ?thesis by (auto simp: literal_text_def list_all_iff number_texts_def intro: number_bare)
qed (simp_all add: const_literals)

lemma literal_dumps: "number_texts F fr \<Longrightarrow> literal v \<Longrightarrow> floats_in F v \<Longrightarrow> literal_text (dumps fr v)"
  by (cases v) (simp_all add: show_int_literal float_literal const_literals)

lemma literal_cancel:
  assumes "literal_text s" "literal_text s'" "stops r" "stops r'" "s @ r = s' @ r'"
  shows "s = s' \<and> r = r'"
proof -
  have tw: "takeWhile (\<lambda>c. \<not> stop_char c) (t @ q) = t" if "literal_text t" "stops q" for t q
  proof -
    have "takeWhile (\<lambda>c. \<not> stop_char c) q = []" using that(2) by (cases q) (simp_all add: stops_def)
    with that(1) show ?thesis
      by (simp add: literal_text_def list_all_iff bare_not_stop takeWhile_append2)
  qed
  from tw [OF assms(1,3)] tw [OF assms(2,4)] assms(5) have "s = s'" by simp
  with assms(5) show ?thesis by simp
qed

text \<open>Marks that tell the literals apart: whether a text has a point, and whether it has letters no number has.\<close>

definition has_word :: "string \<Rightarrow> bool" where
  "has_word s \<longleftrightarrow> list_ex (\<lambda>c. \<not> number_char c) s"

definition has_point :: "string \<Rightarrow> bool" where
  "has_point s \<longleftrightarrow> list_ex point_char s"

lemma marks_const:
  "has_word ''null''" "has_word ''true''" "has_word ''false''" "has_word ''Infinity''" "has_word ''-Infinity''" "has_word ''NaN''"
  by code_simp+

lemma marks_int: "\<not> has_word (show_int i)" "\<not> has_point (show_int i)"
proof -
  have "number_char c \<and> \<not> point_char c" if "c \<in> set (show_int i)" for c
    using show_int_char [OF that] by (auto simp: number_char_def point_char_def Let_def)
  then show "\<not> has_word (show_int i)" "\<not> has_point (show_int i)"
    by (auto simp: has_word_def has_point_def list_ex_iff)
qed

lemma marks_number:
  "number_texts F fr \<Longrightarrow> x \<in> F \<Longrightarrow> \<not> has_word (fr x)" "number_texts F fr \<Longrightarrow> x \<in> F \<Longrightarrow> has_point (fr x)"
  by (auto simp: number_texts_def has_word_def has_point_def list_ex_iff)

lemma number_ne_word:
  "number_texts F fr \<Longrightarrow> x \<in> F \<Longrightarrow> has_word s \<Longrightarrow> fr x \<noteq> s \<and> s \<noteq> fr x"
  "has_word s \<Longrightarrow> show_int i \<noteq> s \<and> s \<noteq> show_int i"
  using marks_number marks_int by auto

lemma int_ne_number: "number_texts F fr \<Longrightarrow> x \<in> F \<Longrightarrow> show_int i \<noteq> fr x \<and> fr x \<noteq> show_int i"
  using marks_number marks_int by metis

lemma show_int_inj: "show_int i = show_int j \<longleftrightarrow> i = j"
  by (metis py_int_show option.inject)

lemma json_float_inj:
  assumes "number_texts F fr" "float_in F x" "float_in F y"
  shows "json_float fr x = json_float fr y \<longleftrightarrow> x = y"
proof -
  note ne = number_ne_word(1) [OF assms(1) _ marks_const(4)] number_ne_word(1) [OF assms(1) _ marks_const(5)]
    number_ne_word(1) [OF assms(1) _ marks_const(6)]
  have inj: "a \<in> F \<Longrightarrow> b \<in> F \<Longrightarrow> fr a = fr b \<longleftrightarrow> a = b" for a b
    using assms(1) by (auto simp: number_texts_def inj_on_def)
  show ?thesis using assms(2,3) by (cases x; cases y) (simp_all add: ne inj)
qed

lemma int_ne_float: "number_texts F fr \<Longrightarrow> float_in F x \<Longrightarrow> show_int i \<noteq> json_float fr x \<and> json_float fr x \<noteq> show_int i"
  using int_ne_number number_ne_word(2) [OF marks_const(4)] number_ne_word(2) [OF marks_const(5)]
    number_ne_word(2) [OF marks_const(6)]
  by (cases x) simp_all

lemma const_ne_float:
  assumes "number_texts F fr" "s \<in> {''null'', ''true'', ''false''}" "float_in F x"
  shows "json_float fr x \<noteq> s \<and> s \<noteq> json_float fr x"
proof -
  have "has_word s" using assms(2) marks_const by auto
  from number_ne_word(1) [OF assms(1) _ this] assms(2,3) show ?thesis by (cases x) auto
qed

lemma literal_inj:
  assumes fr: "number_texts F fr" and "literal v" "literal w" "floats_in F v" "floats_in F w" "dumps fr v = dumps fr w"
  shows "v = w"
proof -
  note ints = number_ne_word(2) [OF marks_const(1)] number_ne_word(2) [OF marks_const(2)] number_ne_word(2) [OF marks_const(3)]
  note floats = const_ne_float [OF fr, of "''null''", simplified] const_ne_float [OF fr, of "''true''", simplified]
    const_ne_float [OF fr, of "''false''", simplified]
  from assms(2-6) show ?thesis
    by (cases v; cases w) (simp_all add: ints floats int_ne_float [OF fr] show_int_inj json_float_inj [OF fr] split: if_splits)
qed

section \<open>The canonical text determines the value\<close>

lemma dumps_start:
  assumes "number_texts F fr" "floats_in F v"
  shows "\<exists>c y. dumps fr v = c # y \<and> \<not> stop_char c \<and> (literal v \<longleftrightarrow> bare_char c) \<and> (c = QUOTE \<longleftrightarrow> (\<exists>s. v = V_str s)) \<and>
    (c = CHR ''['' \<longleftrightarrow> (\<exists>vs. v = V_list vs)) \<and> (c = CHR ''{'' \<longleftrightarrow> (\<exists>kvs. v = V_dict kvs))"
proof (cases "literal v")
  case True
  from literal_dumps [OF assms(1) True assms(2)] obtain c y where cy: "dumps fr v = c # y" "bare_char c"
    by (cases "dumps fr v") (auto simp: literal_text_def)
  then have "c \<noteq> QUOTE" "c \<noteq> CHR ''[''" "c \<noteq> CHR ''{''"
    by (auto simp: bare_char_def code_def special_chars)
  with True cy bare_not_stop show ?thesis by (cases v) auto
next
  case False
  have "\<not> stop_char QUOTE \<and> \<not> bare_char QUOTE" "\<not> stop_char CHR ''['' \<and> \<not> bare_char CHR ''[''"
    "\<not> stop_char CHR ''{'' \<and> \<not> bare_char CHR ''{''"
    by (simp_all add: stop_char_def bare_char_def code_def special_chars)
  with False show ?thesis by (cases v) (simp_all add: json_str_def special_chars)
qed

lemma stops_char: "stops (CHR '','' # r)" "stops (CHR '']'' # r)" "stops (CHR ''}'' # r)"
  by (simp_all add: stops_def stop_char_def code_def)

text \<open>A separated list of texts that each determine their element determines the list.\<close>

lemma join_cancel:
  assumes "\<And>a b r r'. a \<in> set xs \<Longrightarrow> b \<in> set ys \<Longrightarrow> stops r \<Longrightarrow> stops r' \<Longrightarrow> item a @ r = item b @ r' \<Longrightarrow> f a = f b \<and> r = r'"
    and "\<And>a. a \<in> set xs \<union> set ys \<Longrightarrow> \<exists>c y. item a = c # y \<and> \<not> stop_char c"
    and z: "stop_char z" "z \<noteq> CHR '',''"
    and "join '','' (map item xs) @ z # r = join '','' (map item ys) @ z # r'"
  shows "map f xs = map f ys \<and> r = r'"
  using assms(1,2,5)
proof (induction xs arbitrary: ys)
  case Nil
  show ?case
  proof (cases ys)
    case (Cons b bs)
    then obtain c y where "item b = c # y" "\<not> stop_char c" using Nil(2) [of b] by auto
    with Nil Cons z show ?thesis by (cases bs) auto
  qed (use Nil in simp)
next
  case (Cons a xs)
  note IH = Cons.IH and Cons_prems = Cons.prems
  have stop_z: "stops (z # q)" for q using z by (simp add: stops_def)
  obtain c y where a: "item a = c # y" "\<not> stop_char c" using Cons.prems(2) [of a] by auto
  show ?case
  proof (cases ys)
    case Nil
    with Cons.prems a z show ?thesis by (cases xs) auto
  next
    case (Cons b bs)
    note ys = this
    define tail where "tail = (\<lambda>xs q. case xs of [] \<Rightarrow> z # q | x # xs' \<Rightarrow> '','' @ join '','' (map item xs) @ z # q)"
    have split: "join '','' (map item (x # xs')) @ z # q = item x @ tail xs' q" for x xs' q
      by (cases xs') (simp_all add: tail_def)
    have stop: "stops (tail xs' q)" for xs' q
      using stop_z stops_char by (cases xs') (simp_all add: tail_def)
    from Cons.prems(3) ys have "item a @ tail xs r = item b @ tail bs r'" unfolding ys split by simp
    from Cons.prems(1) [OF _ _ stop stop this] ys have ab: "f a = f b" and t: "tail xs r = tail bs r'" by simp_all
    show ?thesis
    proof (cases xs)
      case Nil
      with t z ab ys show ?thesis by (cases bs) (auto simp: tail_def)
    next
      case (Cons x xs')
      obtain d ds where bs: "bs = d # ds" using t z Cons by (cases bs) (simp_all add: tail_def)
      have j: "join '','' (map item xs) @ z # r = join '','' (map item bs) @ z # r'"
        using t unfolding tail_def Cons bs by simp
      have "map f xs = map f bs \<and> r = r'" 
      proof (rule IH [OF _ _ j])
        fix a' b' q q' assume "a' \<in> set xs" "b' \<in> set bs" "stops q" "stops q'" "item a' @ q = item b' @ q'"
        then show "f a' = f b' \<and> q = q'" using Cons_prems(1) [of a' b' q q'] ys by (meson list.set_intros(2))
      next
        fix a' assume "a' \<in> set xs \<union> set bs"
        then show "\<exists>c y. item a' = c # y \<and> \<not> stop_char c" using Cons_prems(2) [of a'] ys by auto
      qed
      with ab ys show ?thesis by simp
    qed
  qed
qed

lemma insort_apsnd: "insort_key fst (k, f v) (map (apsnd f) xs) = map (apsnd f) (insort_key fst (k, v) xs)"
  by (induction xs) auto

lemma sort_apsnd: "sort_key fst (map (\<lambda>(k, v). (k, f v)) kvs) = map (apsnd f) (sort_key fst kvs)"
proof (induction kvs)
  case (Cons e kvs)
  obtain k v where "e = (k, v)" by force
  with Cons show ?case by (simp add: insort_apsnd)
qed simp

definition item_text :: "(real \<Rightarrow> string) \<Rightarrow> string \<times> pyval \<Rightarrow> string" where
  "item_text fr e = json_str (fst e) @ '':'' @ dumps fr (snd e)"

lemma apsnd_eq: "apsnd f a = (fst a, f (snd a))"
  by (cases a) simp

lemma dumps_dict: "dumps fr (V_dict kvs) = ''{'' @ join '','' (map (item_text fr) (sort_key fst kvs)) @ ''}''"
  unfolding dumps.simps sort_apsnd by (simp add: item_text_def [abs_def] case_prod_unfold comp_def)

lemma sorted_keys_dict: "sorted_keys (V_dict kvs) = V_dict (map (apsnd sorted_keys) (sort_key fst kvs))"
  unfolding sorted_keys.simps sort_apsnd ..

lemma same_kind:
  assumes "number_texts F fr" "floats_in F v" "floats_in F w" "dumps fr v @ r = dumps fr w @ r'"
  shows "(literal v \<longleftrightarrow> literal w) \<and> ((\<exists>s. v = V_str s) \<longleftrightarrow> (\<exists>s. w = V_str s)) \<and>
    ((\<exists>vs. v = V_list vs) \<longleftrightarrow> (\<exists>vs. w = V_list vs)) \<and> ((\<exists>kvs. v = V_dict kvs) \<longleftrightarrow> (\<exists>kvs. w = V_dict kvs))"
  using dumps_start [OF assms(1,2)] dumps_start [OF assms(1,3)] assms(4) by auto

lemma literal_dumps_cancel:
  assumes "number_texts F fr" "literal v" "floats_in F v" "floats_in F w" "stops r" "stops r'" "dumps fr v @ r = dumps fr w @ r'"
  shows "sorted_keys v = sorted_keys w \<and> r = r'"
proof -
  have w: "literal w" using same_kind [OF assms(1,3,4,7)] assms(2) by simp
  from literal_cancel [OF literal_dumps [OF assms(1-3)] literal_dumps [OF assms(1) w assms(4)] assms(5-7)]
  have "dumps fr v = dumps fr w" "r = r'" by simp_all
  with literal_inj [OF assms(1,2) w assms(3,4)] show ?thesis by simp
qed

lemma dumps_cancel:
  assumes fr: "number_texts F fr"
  shows "floats_in F v \<Longrightarrow> floats_in F w \<Longrightarrow> stops r \<Longrightarrow> stops r' \<Longrightarrow> dumps fr v @ r = dumps fr w @ r' \<Longrightarrow>
    sorted_keys v = sorted_keys w \<and> r = r'"
proof (induction v arbitrary: w r r')
  case V_none
  show ?case by (rule literal_dumps_cancel [OF fr _ V_none]) simp
next
  case (V_bool b)
  show ?case by (rule literal_dumps_cancel [OF fr _ V_bool]) simp
next
  case (V_int i)
  show ?case by (rule literal_dumps_cancel [OF fr _ V_int]) simp
next
  case (V_float x)
  show ?case by (rule literal_dumps_cancel [OF fr _ V_float]) simp
next
  case (V_str s)
  with same_kind [OF fr V_str(1,2,5)] obtain t where w: "w = V_str t" by auto
  have "json_str s @ r = json_str t @ r'" using V_str(5) unfolding w by simp
  from json_str_cancel [OF this] show ?case unfolding w by simp
next
  case (V_list vs)
  with same_kind [OF fr V_list(2,3,6)] obtain ws where w: "w = V_list ws" by auto
  have "map sorted_keys vs = map sorted_keys ws \<and> r = r'"
  proof (rule join_cancel [where z = "CHR '']''" and item = "dumps fr"])
    fix a b q q' assume a: "a \<in> set vs" "b \<in> set ws" "stops q" "stops q'" "dumps fr a @ q = dumps fr b @ q'"
    have "floats_in F a" "floats_in F b" using V_list(2,3) a(1,2) w by (auto simp: list_all_iff)
    from V_list(1) [OF a(1) this a(3-5)] show "sorted_keys a = sorted_keys b \<and> q = q'" .
  next
    fix a assume "a \<in> set vs \<union> set ws"
    then have "floats_in F a" using V_list(2,3) w by (auto simp: list_all_iff)
    from dumps_start [OF fr this] show "\<exists>c y. dumps fr a = c # y \<and> \<not> stop_char c" by blast
  next
    show "stop_char CHR '']''" by (simp add: stop_char_def code_def)
    show "join '','' (map (dumps fr) vs) @ CHR '']'' # r = join '','' (map (dumps fr) ws) @ CHR '']'' # r'"
      using V_list(6) w by simp
  qed simp
  with w show ?case by simp
next
  case (V_dict kvs)
  with same_kind [OF fr V_dict(2,3,6)] obtain kws where w: "w = V_dict kws" by auto
  have "map (apsnd sorted_keys) (sort_key fst kvs) = map (apsnd sorted_keys) (sort_key fst kws) \<and> r = r'"
  proof (rule join_cancel [where z = "CHR ''}''" and item = "item_text fr"])
    fix a b :: "string \<times> pyval" and q q'
    assume a: "a \<in> set (sort_key fst kvs)" "b \<in> set (sort_key fst kws)" "stops q" "stops q'"
      and eq: "item_text fr a @ q = item_text fr b @ q'"
    from eq json_str_cancel [of "fst a" _ "fst b"]
    have eq1: "fst a = fst b" and eq2: "dumps fr (snd a) @ q = dumps fr (snd b) @ q'" by (auto simp: item_text_def)
    have snd: "snd a \<in> Basic_BNFs.snds a" by (cases a) simp
    have mem: "a \<in> set kvs" using a(1) by simp
    have fl: "floats_in F (snd a)" "floats_in F (snd b)"
      using V_dict(2,3) a(1,2) w by (auto simp: list_all_iff)
    have "sorted_keys (snd a) = sorted_keys (snd b) \<and> q = q'" by (rule V_dict(1) [OF mem snd fl a(3,4) eq2])
    then show "apsnd sorted_keys a = apsnd sorted_keys b \<and> q = q'"
      unfolding apsnd_eq eq1 by (elim conjE) (simp only: simp_thms)
  next
    fix a :: "string \<times> pyval"
    show "\<exists>c y. item_text fr a = c # y \<and> \<not> stop_char c"
      by (simp add: item_text_def json_str_def stop_char_def code_special)
  next
    show "stop_char CHR ''}''" by (simp add: stop_char_def code_def)
    show "join '','' (map (item_text fr) (sort_key fst kvs)) @ CHR ''}'' # r =
        join '','' (map (item_text fr) (sort_key fst kws)) @ CHR ''}'' # r'"
      using V_dict(6) unfolding w dumps_dict by simp
  qed simp
  with w show ?case unfolding w sorted_keys_dict by simp
qed

lemma dumps_inj:
  "number_texts F fr \<Longrightarrow> floats_in F v \<Longrightarrow> floats_in F w \<Longrightarrow> dumps fr v = dumps fr w \<Longrightarrow> sorted_keys v = sorted_keys w"
  using dumps_cancel [of F fr v w "[]" "[]"] by (simp add: stops_def)

end
