(* ===== verification/Event_Store.thy ===== *)
theory Event_Store
  imports Py_Values
begin

text \<open>
  The event store with its memory backend
  (\<open>src/qiki/services/q_core_agent/core/event_store.py\<close>) and the export envelope it checks
  (\<open>runtime_contracts.py\<close>). With this backend \<open>_sqlite_writer\<close> and
  \<open>_sqlite_conn\<close> are \<open>None\<close>, so \<open>append\<close> touches the deque only. Each
  operation runs under a lock, so it is one step. The clock and \<open>uuid4\<close> are arguments; a
  strict store raises, which is \<open>Inl\<close> here.
\<close>

section \<open>Data\<close>

text \<open>\<open>str\<close> of a payload value.\<close>

fun py_repr :: "jval \<Rightarrow> string" where
  "py_repr JNone = ''None''"
| "py_repr (JStr s) = repr_str s"
| "py_repr (JInt i) = show_int i"
| "py_repr (JBool b) = (if b then ''True'' else ''False'')"
| "py_repr (JList vs) = ''['' @ join '', '' (map py_repr vs) @ '']''"

definition py_str :: "jval \<Rightarrow> string" where
  "py_str v = (case v of JStr s \<Rightarrow> s | _ \<Rightarrow> py_repr v)"

datatype truth_state = T_OK | T_NO_DATA | T_FALLBACK | T_INVALID

fun truth_value :: "truth_state \<Rightarrow> string" where
  "truth_value T_OK = ''OK''"
| "truth_value T_NO_DATA = ''NO_DATA''"
| "truth_value T_FALLBACK = ''FALLBACK''"
| "truth_value T_INVALID = ''INVALID''"

record system_event =
  e_id :: string
  e_ts :: real
  e_subsystem :: string
  e_type :: string
  e_payload :: payload
  e_tick_id :: "string option"
  e_truth :: truth_state
  e_reason :: string

record event_store =
  es_maxlen :: nat
  es_enabled :: bool
  es_strict :: bool
  es_events :: "system_event list"

datatype event_error = RuntimeError string

definition make_event_store :: "int \<Rightarrow> bool \<Rightarrow> bool \<Rightarrow> event_store" where
  "make_event_store maxlen enabled strict =
     \<lparr>es_maxlen = nat (max 1 maxlen), es_enabled = enabled, es_strict = strict, es_events = []\<rparr>"

definition truth_state_from_any :: "truth_state + string \<Rightarrow> truth_state" where
  "truth_state_from_any v =
     (case v of
        Inl t \<Rightarrow> t
      | Inr s \<Rightarrow>
          (let normalized = py_upper (py_strip s)
           in case find (\<lambda>t. truth_value t = normalized) [T_OK, T_NO_DATA, T_FALLBACK, T_INVALID] of
                Some t \<Rightarrow> t | None \<Rightarrow> T_INVALID))"

section \<open>The export envelope\<close>

definition EVENT_SCHEMA_VERSION :: int where "EVENT_SCHEMA_VERSION = 1"

definition TRUTH_STATES :: "string list" where
  "TRUTH_STATES = [''OK'', ''NO_DATA'', ''FALLBACK'', ''INVALID'']"

record envelope =
  en_schema_version :: int
  en_ts :: real
  en_subsystem :: string
  en_event_type :: string
  en_truth_state :: string
  en_reason :: string
  en_payload :: payload
  en_session_id :: string

definition normalize_truth_state :: "string \<Rightarrow> string" where
  "normalize_truth_state v =
     (let normalized = py_upper (py_strip v)
      in if normalized \<in> set TRUTH_STATES then normalized else ''INVALID'')"

definition build_export_envelope ::
  "real \<Rightarrow> string \<Rightarrow> string \<Rightarrow> string \<Rightarrow> string \<Rightarrow> payload \<Rightarrow> string \<Rightarrow> envelope" where
  "build_export_envelope ts subsystem event_type truth reason pl session_id =
     \<lparr>en_schema_version = EVENT_SCHEMA_VERSION, en_ts = ts, en_subsystem = subsystem,
      en_event_type = event_type, en_truth_state = normalize_truth_state truth,
      en_reason = reason, en_payload = pl, en_session_id = session_id\<rparr>"

text \<open>The record's type already guarantees the presence and the type of the eight keys.\<close>

definition validate_export_envelope :: "envelope \<Rightarrow> string list" where
  "validate_export_envelope en =
     (if en_schema_version en \<noteq> EVENT_SCHEMA_VERSION then [''schema_version must be 1''] else []) @
     (if normalize_truth_state (en_truth_state en) \<noteq> py_upper (py_strip (en_truth_state en))
      then [''truth_state must be one of the known states''] else [])"

definition ensure_truth_reason :: "envelope \<Rightarrow> envelope" where
  "ensure_truth_reason en =
     (let truth = py_upper (en_truth_state en)
      in if truth \<in> {''NO_DATA'', ''FALLBACK'', ''INVALID''} \<and> py_strip (en_reason en) = []
         then en\<lparr>en_reason := truth\<rparr> else en)"

section \<open>Writing\<close>

record event_env =
  ee_uuid :: string
  ee_time :: real
  ee_uuid2 :: string \<comment> \<open>drawn by a life-cycle event\<close>
  ee_time2 :: real

definition lifecycle_event :: "event_env \<Rightarrow> string \<Rightarrow> string \<Rightarrow> payload \<Rightarrow> truth_state \<Rightarrow> system_event" where
  "lifecycle_event env event_type reason pl truth =
     \<lparr>e_id = ee_uuid2 env, e_ts = ee_time2 env, e_subsystem = ''EVENTSTORE'', e_type = event_type,
      e_payload = pl, e_tick_id = None, e_truth = truth, e_reason = reason\<rparr>"

definition emit_lifecycle_event ::
  "event_env \<Rightarrow> string \<Rightarrow> string \<Rightarrow> payload \<Rightarrow> truth_state \<Rightarrow> event_store \<Rightarrow> event_store" where
  "emit_lifecycle_event env event_type reason pl truth s =
     s\<lparr>es_events := deque_append (es_maxlen s) (es_events s)
                      (lifecycle_event env event_type reason pl truth)\<rparr>"

text \<open>\<open>'; '.join(errors)\<close>.\<close>

fun join_errors :: "string list \<Rightarrow> string" where
  "join_errors [] = []"
| "join_errors [x] = x"
| "join_errors (x # xs) = x @ ''; '' @ join_errors xs"

definition raw_errors :: "system_event \<Rightarrow> string list" where
  "raw_errors e =
     (if py_strip (e_subsystem e) = [] then [''subsystem must be non-empty string''] else []) @
     (if py_strip (e_type e) = [] then [''event_type must be non-empty string''] else [])"

definition event_envelope :: "system_event \<Rightarrow> envelope" where
  "event_envelope e =
     (let session_id = (case dict_getd (e_payload e) ''session_id'' (JStr []) of
                          JNone \<Rightarrow> [] | v \<Rightarrow> py_str v)
      in ensure_truth_reason
           (build_export_envelope (e_ts e) (e_subsystem e) (e_type e) (truth_value (e_truth e))
              (e_reason e) (e_payload e) session_id))"

definition drop_payload :: "string \<Rightarrow> payload" where
  "drop_payload message = [(''count'', JInt 1), (''reason'', JStr (''INVALID_ENVELOPE:'' @ message))]"

definition reject_event :: "event_env \<Rightarrow> string list \<Rightarrow> event_store \<Rightarrow> event_error + (event_store \<times> bool)" where
  "reject_event env errors s =
     (if es_strict s then Inl (RuntimeError (''invalid event envelope: '' @ join_errors errors))
      else Inr (emit_lifecycle_event env ''EVENTSTORE_DROP'' ''INVALID_ENVELOPE''
                  (drop_payload (join_errors errors)) T_INVALID s, False))"

definition validate_event_contract ::
  "event_env \<Rightarrow> system_event \<Rightarrow> event_store \<Rightarrow> event_error + (event_store \<times> bool)" where
  "validate_event_contract env e s =
     (if raw_errors e \<noteq> [] then reject_event env (raw_errors e) s
      else let errors = validate_export_envelope (event_envelope e)
           in if errors = [] then Inr (s, True) else reject_event env errors s)"

definition es_append ::
  "event_env \<Rightarrow> system_event \<Rightarrow> event_store \<Rightarrow> event_error + (event_store \<times> system_event option)" where
  "es_append env e s =
     (if \<not> es_enabled s then Inr (s, None)
      else case validate_event_contract env e s of
             Inl err \<Rightarrow> Inl err
           | Inr (s', ok) \<Rightarrow>
               if \<not> ok then Inr (s', None)
               else Inr (s'\<lparr>es_events := deque_append (es_maxlen s') (es_events s') e\<rparr>, Some e))"

definition new_event ::
  "event_env \<Rightarrow> string \<Rightarrow> string \<Rightarrow> payload \<Rightarrow> truth_state + string \<Rightarrow> string \<Rightarrow> string option \<Rightarrow>
   real option \<Rightarrow> system_event" where
  "new_event env subsystem event_type pl truth reason tick_id ts =
     (let truth' = truth_state_from_any truth;
          reason1 = py_strip reason;
          reason' = (if truth' \<in> {T_NO_DATA, T_FALLBACK, T_INVALID} \<and> reason1 = []
                     then truth_value truth' else reason1)
      in \<lparr>e_id = ee_uuid env, e_ts = (case ts of None \<Rightarrow> ee_time env | Some t \<Rightarrow> t),
          e_subsystem = subsystem, e_type = event_type, e_payload = pl, e_tick_id = tick_id,
          e_truth = truth', e_reason = reason'\<rparr>)"

definition es_append_new ::
  "event_env \<Rightarrow> string \<Rightarrow> string \<Rightarrow> payload \<Rightarrow> truth_state + string \<Rightarrow> string \<Rightarrow> string option \<Rightarrow>
   real option \<Rightarrow> event_store \<Rightarrow> event_error + (event_store \<times> system_event option)" where
  "es_append_new env subsystem event_type pl truth reason tick_id ts s =
     es_append env (new_event env subsystem event_type pl truth reason tick_id ts) s"

section \<open>Reading\<close>

definition es_recent :: "int \<Rightarrow> event_store \<Rightarrow> system_event list" where
  "es_recent n s =
     (let limit = nat (max 0 n)
      in if limit = 0 then [] else drop (length (es_events s) - limit) (es_events s))"

fun iter_loop :: "real option \<Rightarrow> real option \<Rightarrow> system_event list \<Rightarrow> system_event list" where
  "iter_loop from_ts to_ts [] = []"
| "iter_loop from_ts to_ts (e # es) =
     (if opt_test from_ts (\<lambda>f. e_ts e < f) then iter_loop from_ts to_ts es
      else if opt_test to_ts (\<lambda>t. e_ts e > t) then iter_loop from_ts to_ts es
      else e # iter_loop from_ts to_ts es)"

text \<open>The query loop, with its \<open>break\<close> when enough rows are collected.\<close>

fun query_loop ::
  "string list \<Rightarrow> string list \<Rightarrow> string list \<Rightarrow> nat option \<Rightarrow> system_event list \<Rightarrow> system_event list \<Rightarrow> system_event list" where
  "query_loop types subsystems truths max_rows result [] = result"
| "query_loop types subsystems truths max_rows result (e # es) =
     (if types \<noteq> [] \<and> e_type e \<notin> set types then query_loop types subsystems truths max_rows result es
      else if subsystems \<noteq> [] \<and> e_subsystem e \<notin> set subsystems
      then query_loop types subsystems truths max_rows result es
      else if truths \<noteq> [] \<and> py_upper (truth_value (e_truth e)) \<notin> set truths
      then query_loop types subsystems truths max_rows result es
      else let result' = result @ [e]
           in if opt_test max_rows (\<lambda>m. length result' \<ge> m) then result'
              else query_loop types subsystems truths max_rows result' es)"

definition es_query ::
  "real option \<Rightarrow> real option \<Rightarrow> string list \<Rightarrow> string list \<Rightarrow> string list \<Rightarrow> int option \<Rightarrow> string \<Rightarrow>
   event_store \<Rightarrow> system_event list" where
  "es_query from_ts to_ts types subsystems truths row_limit row_order s =
     (let active_truth = map py_upper truths;
          max_rows = map_option (\<lambda>l. nat (max 1 l)) row_limit;
          events = iter_loop from_ts to_ts (es_events s);
          iterable = (if py_lower (py_strip row_order) = ''desc'' then rev events else events)
      in query_loop types subsystems active_truth max_rows [] iterable)"

fun filter_loop ::
  "string option \<Rightarrow> string option \<Rightarrow> truth_state option \<Rightarrow> system_event list \<Rightarrow> system_event list" where
  "filter_loop subsystem event_type truth [] = []"
| "filter_loop subsystem event_type truth (e # es) =
     (if opt_test subsystem (\<lambda>x. e_subsystem e \<noteq> x) then filter_loop subsystem event_type truth es
      else if opt_test event_type (\<lambda>x. e_type e \<noteq> x) then filter_loop subsystem event_type truth es
      else if opt_test truth (\<lambda>x. e_truth e \<noteq> x) then filter_loop subsystem event_type truth es
      else e # filter_loop subsystem event_type truth es)"

definition es_filter ::
  "string option \<Rightarrow> string option \<Rightarrow> (truth_state + string) option \<Rightarrow> event_store \<Rightarrow> system_event list" where
  "es_filter subsystem event_type truth s =
     filter_loop subsystem event_type (map_option truth_state_from_any truth) (es_events s)"

record event_stats =
  st_rows :: nat
  st_oldest :: "real option"
  st_newest :: "real option"

definition es_stats :: "event_store \<Rightarrow> event_stats" where
  "es_stats s =
     (case map e_ts (es_events s) of
        [] \<Rightarrow> \<lparr>st_rows = 0, st_oldest = None, st_newest = None\<rparr>
      | t # ts \<Rightarrow> \<lparr>st_rows = length (es_events s), st_oldest = Some (foldl min t ts),
                   st_newest = Some (foldl max t ts)\<rparr>)"

section \<open>Lemmas\<close>

lemma deque_append_length: "length xs \<le> n \<Longrightarrow> length (deque_append n xs x) \<le> n"
  by (simp add: deque_append_def Let_def)

text \<open>Keeping the last n is compatible with appending: the deque is a window on the full log.\<close>

definition window :: "nat \<Rightarrow> 'a list \<Rightarrow> 'a list" where
  "window n xs = drop (length xs - n) xs"

lemma deque_append_window: "deque_append n (window n xs) x = window n (xs @ [x])"
  by (cases "length xs \<le> n") (simp_all add: deque_append_def window_def Let_def Suc_diff_le)

lemma envelope_valid: "validate_export_envelope (event_envelope e) = []"
proof -
  have "normalize_truth_state (normalize_truth_state (truth_value t)) =
        py_upper (py_strip (normalize_truth_state (truth_value t)))" for t
    by (induction t) code_simp+
  then show ?thesis
    by (simp add: event_envelope_def validate_export_envelope_def ensure_truth_reason_def
        build_export_envelope_def Let_def)
qed

lemma validate_event_eq:
  "validate_event_contract env e s =
     (if raw_errors e = [] then Inr (s, True) else reject_event env (raw_errors e) s)"
  by (simp add: validate_event_contract_def envelope_valid)

lemma iter_loop_filter:
  "iter_loop f t es = filter (\<lambda>e. \<not> opt_test f (\<lambda>x. e_ts e < x) \<and> \<not> opt_test t (\<lambda>x. e_ts e > x)) es"
  by (induction es) auto

definition query_keeps :: "string list \<Rightarrow> string list \<Rightarrow> string list \<Rightarrow> system_event \<Rightarrow> bool" where
  "query_keeps types subsystems truths e \<longleftrightarrow>
     (types = [] \<or> e_type e \<in> set types) \<and> (subsystems = [] \<or> e_subsystem e \<in> set subsystems) \<and>
     (truths = [] \<or> py_upper (truth_value (e_truth e)) \<in> set truths)"

definition limit_to :: "nat option \<Rightarrow> 'a list \<Rightarrow> 'a list" where
  "limit_to m xs = (case m of None \<Rightarrow> xs | Some n \<Rightarrow> take n xs)"

lemma query_loop_spec:
  "opt_test max_rows (\<lambda>m. length result < m) \<or> max_rows = None \<Longrightarrow>
     query_loop types subsystems truths max_rows result es =
       limit_to max_rows (result @ filter (query_keeps types subsystems truths) es)"
proof (induction es arbitrary: result)
  case Nil
  then show ?case by (auto simp: limit_to_def opt_test_iff split: option.splits)
next
  case (Cons e es)
  show ?case
  proof (cases "query_keeps types subsystems truths e")
    case False
    with Cons show ?thesis by (auto simp: query_keeps_def)
  next
    case True
    then have step: "query_loop types subsystems truths max_rows result (e # es) =
        (if opt_test max_rows (\<lambda>m. length (result @ [e]) \<ge> m) then result @ [e]
         else query_loop types subsystems truths max_rows (result @ [e]) es)"
      by (auto simp: query_keeps_def Let_def)
    show ?thesis
    proof (cases "opt_test max_rows (\<lambda>m. length (result @ [e]) \<ge> m)")
      case full: True
      with Cons.prems obtain m where m: "max_rows = Some m" "length result < m" "m \<le> Suc (length result)"
        by (auto simp: opt_test_iff)
      then have "m = length (result @ [e])" by simp
      with step True m full show ?thesis by (simp add: limit_to_def)
    next
      case False
      then have "opt_test max_rows (\<lambda>m. length (result @ [e]) < m) \<or> max_rows = None"
        by (cases max_rows) auto
      from Cons.IH [OF this] step True False show ?thesis by simp
    qed
  qed
qed

lemma filter_loop_filter:
  "filter_loop sub ty tr es =
     filter (\<lambda>e. \<not> opt_test sub (\<lambda>x. e_subsystem e \<noteq> x) \<and> \<not> opt_test ty (\<lambda>x. e_type e \<noteq> x) \<and>
                 \<not> opt_test tr (\<lambda>x. e_truth e \<noteq> x)) es"
  by (induction es) auto


section \<open>Runs\<close>

definition es_step :: "event_store \<Rightarrow> event_env \<times> system_event \<Rightarrow> event_store" where
  "es_step s x = (case es_append (fst x) (snd x) s of Inl err \<Rightarrow> s | Inr (s', r) \<Rightarrow> s')"

text \<open>What an accepting store writes for one call: the event, or the record of its rejection.\<close>

definition written :: "event_env \<times> system_event \<Rightarrow> system_event" where
  "written x =
     (if raw_errors (snd x) = [] then snd x
      else lifecycle_event (fst x) ''EVENTSTORE_DROP'' ''INVALID_ENVELOPE''
             (drop_payload (join_errors (raw_errors (snd x)))) T_INVALID)"

lemma es_step_eq:
  "es_enabled s \<Longrightarrow> \<not> es_strict s \<Longrightarrow>
     es_step s x = s\<lparr>es_events := deque_append (es_maxlen s) (es_events s) (written x)\<rparr>"
  by (simp add: es_step_def es_append_def validate_event_eq reject_event_def emit_lifecycle_event_def
      written_def)

lemma es_run_config:
  "es_enabled s \<Longrightarrow> \<not> es_strict s \<Longrightarrow>
     es_enabled (foldl es_step s xs) \<and> \<not> es_strict (foldl es_step s xs) \<and>
     es_maxlen (foldl es_step s xs) = es_maxlen s"
  by (induction xs arbitrary: s) (auto simp: es_step_eq)

section \<open>Properties\<close>

text \<open>
  C8. The bounded store refines an unbounded log: after any sequence of appends to an enabled,
  non-strict store, it holds exactly the last \<open>maxlen\<close> records of the full log, in which a
  valid event stands for itself and an invalid one for the \<open>EVENTSTORE_DROP\<close> record of its
  rejection.
\<close>

theorem event_store_window:
  "es_events (foldl es_step (make_event_store maxlen True False) xs) =
     window (nat (max 1 maxlen)) (map written xs)"
proof (induction xs rule: rev_induct)
  case Nil
  then show ?case by (simp add: make_event_store_def window_def)
next
  case (snoc x xs)
  let ?s = "foldl es_step (make_event_store maxlen True False) xs"
  have c: "es_enabled ?s" "\<not> es_strict ?s" "es_maxlen ?s = nat (max 1 maxlen)"
    using es_run_config [of "make_event_store maxlen True False" xs]
    by (simp_all add: make_event_store_def)
  show ?case using es_step_eq [OF c(1,2), of x] c(3) snoc by (simp add: deque_append_window)
qed

text \<open>
  A query returns what its arguments say: the stored events within the time bounds that pass
  each non-empty selection, oldest first or newest first, cut to the limit (at least one row). The
  early exit of the loop never loses or repeats a row.
\<close>

theorem event_query_spec:
  "es_query f t types subs truths row_limit row_order s =
     limit_to (map_option (\<lambda>l. nat (max 1 l)) row_limit)
       (filter (query_keeps types subs (map py_upper truths))
          ((if py_lower (py_strip row_order) = ''desc'' then rev else id)
             (filter (\<lambda>e. \<not> opt_test f (\<lambda>x. e_ts e < x) \<and> \<not> opt_test t (\<lambda>x. e_ts e > x)) (es_events s))))"
proof -
  have ok: "opt_test (map_option (\<lambda>l. nat (max 1 l)) row_limit) (\<lambda>m. length ([]::system_event list) < m) \<or>
      map_option (\<lambda>l. nat (max 1 l)) row_limit = None"
    by (cases row_limit) auto
  show ?thesis
    unfolding es_query_def Let_def iter_loop_filter query_loop_spec [OF ok] by simp
qed

text \<open>
  Whatever \<open>append_new\<close> accepts is the newest event of the store and never leaves an
  absence of truth unexplained: an event whose truth state is not OK has a reason, a given reason
  is stored stripped, and a truth state given as text that is none of the four is stored as
  INVALID.
\<close>

theorem event_new_has_reason:
  assumes "es_append_new env sub ty pl truth reason tick ts s = Inr (s', Some e)" and "1 \<le> es_maxlen s"
  shows "es_events s' \<noteq> [] \<and> last (es_events s') = e \<and> e_truth e = truth_state_from_any truth \<and>
         (e_truth e \<noteq> T_OK \<longrightarrow> e_reason e \<noteq> []) \<and>
         (py_strip reason \<noteq> [] \<longrightarrow> e_reason e = py_strip reason) \<and>
         py_strip (e_subsystem e) \<noteq> [] \<and> py_strip (e_type e) \<noteq> []"
proof -
  let ?e = "new_event env sub ty pl truth reason tick ts"
  have ok: "raw_errors ?e = []" and e: "e = ?e"
    and s': "s' = s\<lparr>es_events := deque_append (es_maxlen s) (es_events s) ?e\<rparr>"
    using assms(1) by (auto simp: es_append_new_def es_append_def validate_event_eq reject_event_def
        split: if_splits)
  have "e_truth ?e = truth_state_from_any truth"
    and "e_truth ?e \<noteq> T_OK \<Longrightarrow> e_reason ?e \<noteq> []"
    and "py_strip reason \<noteq> [] \<Longrightarrow> e_reason ?e = py_strip reason"
    by (cases "truth_state_from_any truth"; simp add: new_event_def Let_def)+
  moreover have "py_strip (e_subsystem ?e) \<noteq> []" "py_strip (e_type ?e) \<noteq> []"
    using ok by (simp_all add: raw_errors_def split: if_splits)
  moreover have "es_events s' \<noteq> [] \<and> last (es_events s') = ?e"
    using assms(2) by (simp add: s' deque_append_def Let_def last_drop)
  ultimately show ?thesis using e by blast
qed

definition demo_event_env :: event_env where
  "demo_event_env = \<lparr>ee_uuid = ''u1'', ee_time = 1, ee_uuid2 = ''u2'', ee_time2 = 1\<rparr>"

theorem event_new_has_reason_witness:
  "(case es_append_new demo_event_env ''AGENT'' ''SAFE_MODE_REQUEST'' [] (Inr ''lost'') [] None None
           (make_event_store 10 True False) of
      Inr (s', Some e) \<Rightarrow> es_events s' \<noteq> [] \<and> last (es_events s') = e \<and> e_reason e \<noteq> []
    | _ \<Rightarrow> False)"
proof -
  let ?s = "make_event_store 10 True False"
  let ?e = "new_event demo_event_env ''AGENT'' ''SAFE_MODE_REQUEST'' [] (Inr ''lost'') [] None None"
  have t: "truth_state_from_any (Inr ''lost'') = T_INVALID" by code_simp
  have "py_strip ''AGENT'' \<noteq> []" "py_strip ''SAFE_MODE_REQUEST'' \<noteq> []" by code_simp+
  then have ok: "raw_errors ?e = []" by (simp add: raw_errors_def new_event_def Let_def)
  have app: "es_append_new demo_event_env ''AGENT'' ''SAFE_MODE_REQUEST'' [] (Inr ''lost'') [] None None ?s
      = Inr (?s\<lparr>es_events := deque_append (es_maxlen ?s) (es_events ?s) ?e\<rparr>, Some ?e)"
    by (simp add: es_append_new_def es_append_def validate_event_eq ok) (simp add: make_event_store_def)
  have "1 \<le> es_maxlen ?s" by (simp add: make_event_store_def)
  note res = event_new_has_reason [OF app this]
  then show ?thesis unfolding app t by simp
qed

end
