(* ===== verification/State_Store.thy ===== *)
theory State_Store
  imports Fsm_Types
begin

text \<open>
  The single-writer snapshot store (\<open>src/qiki/services/q_core_agent/state/store.py\<close>).

  One definition per coroutine; every coroutine body runs under the store's lock, so a call
  is one atomic step on the record \<open>store\<close>. Subscriber queues are objects with identity:
  they live in \<open>st_queues\<close>, indexed by the address that \<open>id(queue)\<close> reads, and are
  created at the next free address. \<open>asyncio.Queue.put_nowait\<close> answers with one of the
  three outcomes the code distinguishes: stored, full, or any other exception (a queue that was
  shut down). The steps a client can take are \<open>store_event\<close>; the lemmas show that every run
  keeps the versions strictly increasing, in the store and inside every queue.
\<close>

section \<open>State\<close>

definition MAX_QUEUE_SIZE :: nat where
  "MAX_QUEUE_SIZE = 64"

record sub_queue =
  q_items :: "snapshot list"
  q_dead :: bool

definition new_queue :: sub_queue where
  "new_queue = \<lparr>q_items = [], q_dead = False\<rparr>"

datatype put_result = Put_ok sub_queue | Put_full | Put_error

definition put_nowait :: "sub_queue \<Rightarrow> snapshot \<Rightarrow> put_result" where
  "put_nowait q x =
     (if q_dead q then Put_error
      else if length (q_items q) \<ge> MAX_QUEUE_SIZE then Put_full
      else Put_ok (q\<lparr>q_items := q_items q @ [x]\<rparr>))"

record metrics =
  m_total_sets :: int
  m_total_gets :: int
  m_version_conflicts :: int
  m_subscriber_count :: int
  m_last_update_ts :: real
  m_creation_ts :: real

record store =
  st_snap :: "snapshot option"
  st_subs :: "nat list"
  st_sub_ids :: "(nat, string) dict"
  st_metrics :: metrics
  st_queues :: "nat \<Rightarrow> sub_queue"
  st_next :: nat

datatype store_error = StateStoreError | StateVersionError

definition create_store :: "snapshot option \<Rightarrow> real \<Rightarrow> store" where
  "create_store initial now =
     \<lparr>st_snap = initial, st_subs = [], st_sub_ids = [],
      st_metrics = \<lparr>m_total_sets = 0, m_total_gets = 0, m_version_conflicts = 0,
        m_subscriber_count = 0, m_last_update_ts = 0, m_creation_ts = now\<rparr>,
      st_queues = (\<lambda>_. new_queue), st_next = 0\<rparr>"

definition create_initialized_store :: "clock_env \<Rightarrow> store" where
  "create_initialized_store env = create_store (Some (initial_snapshot env)) (env_wall env)"

section \<open>Operations\<close>

abbreviation upd_metrics :: "(metrics \<Rightarrow> metrics) \<Rightarrow> store \<Rightarrow> store" where
  "upd_metrics f s \<equiv> s\<lparr>st_metrics := f (st_metrics s)\<rparr>"

definition store_get :: "store \<Rightarrow> store \<times> snapshot option" where
  "store_get s = (upd_metrics (\<lambda>m. m\<lparr>m_total_gets := m_total_gets m + 1\<rparr>) s, st_snap s)"

record store_meta =
  meta_metrics :: metrics
  meta_subscriber_count :: int
  meta_has_state :: bool
  meta_current_version :: int

definition current_version :: "store \<Rightarrow> int" where
  "current_version s = (case st_snap s of None \<Rightarrow> -1 | Some x \<Rightarrow> sn_version x)"

definition store_get_with_meta :: "store \<Rightarrow> store \<times> snapshot option \<times> store_meta" where
  "store_get_with_meta s =
     (let s' = upd_metrics (\<lambda>m. m\<lparr>m_total_gets := m_total_gets m + 1\<rparr>) s
      in (s', st_snap s',
          \<lparr>meta_metrics = st_metrics s', meta_subscriber_count = int (length (st_subs s')),
           meta_has_state = (st_snap s' \<noteq> None), meta_current_version = current_version s'\<rparr>))"

text \<open>
  The loop of \<open>_notify_subscribers\<close>: a full queue keeps its old contents, a dead one is
  collected; then the dead ones leave the subscriber list and the id table.
\<close>

fun notify_loop :: "snapshot \<Rightarrow> nat list \<Rightarrow> (nat \<Rightarrow> sub_queue) \<Rightarrow> (nat \<Rightarrow> sub_queue) \<times> nat list" where
  "notify_loop x [] qs = (qs, [])"
| "notify_loop x (q # rest) qs =
     (case put_nowait (qs q) x of
        Put_ok q' \<Rightarrow> notify_loop x rest (qs(q := q'))
      | Put_full \<Rightarrow> notify_loop x rest qs
      | Put_error \<Rightarrow> (let (qs', dead) = notify_loop x rest qs in (qs', q # dead)))"

fun remove_dead :: "nat list \<Rightarrow> store \<Rightarrow> store" where
  "remove_dead [] s = s"
| "remove_dead (d # ds) s =
     remove_dead ds
       (if d \<in> set (st_subs s)
        then s\<lparr>st_subs := remove1 d (st_subs s), st_sub_ids := dict_pop (st_sub_ids s) d\<rparr>
        else s)"

definition notify_subscribers :: "snapshot \<Rightarrow> store \<Rightarrow> store" where
  "notify_subscribers x s =
     (let (qs, dead) = notify_loop x (st_subs s) (st_queues s);
          s1 = remove_dead dead (s\<lparr>st_queues := qs\<rparr>)
      in if dead \<noteq> []
         then upd_metrics (\<lambda>m. m\<lparr>m_subscriber_count := int (length (st_subs s1))\<rparr>) s1
         else s1)"

definition stamp_set :: "real \<Rightarrow> metrics \<Rightarrow> metrics" where
  "stamp_set now m = m\<lparr>m_total_sets := m_total_sets m + 1, m_last_update_ts := now\<rparr>"

text \<open>The version the stored snapshot gets: the caller's, or the next one if that is not newer.\<close>

definition assign_version :: "clock_env \<Rightarrow> snapshot option \<Rightarrow> snapshot \<Rightarrow> snapshot" where
  "assign_version env cur x =
     (case cur of
        None \<Rightarrow> x
      | Some c \<Rightarrow>
          if sn_version x \<le> sn_version c
          then snapshot_post_init env (x\<lparr>sn_version := sn_version c + 1\<rparr>)
          else x)"

definition store_set ::
  "clock_env \<Rightarrow> snapshot option \<Rightarrow> bool \<Rightarrow> store \<Rightarrow> store \<times> (store_error + snapshot)" where
  "store_set env new_snap enforce_version s =
     (case new_snap of
        None \<Rightarrow> (s, Inl StateStoreError)
      | Some x \<Rightarrow>
          (if enforce_version \<and> (\<exists>c. st_snap s = Some c \<and> sn_version x \<le> sn_version c)
           then (upd_metrics (\<lambda>m. m\<lparr>m_version_conflicts := m_version_conflicts m + 1\<rparr>) s,
                 Inl StateVersionError)
           else
             let x' = assign_version env (st_snap s) x;
                 s1 = upd_metrics (stamp_set (env_wall env)) (s\<lparr>st_snap := Some x'\<rparr>)
             in (notify_subscribers x' s1, Inr x')))"

definition store_subscribe :: "string \<Rightarrow> store \<Rightarrow> store \<times> nat" where
  "store_subscribe subscriber_id s =
     (let q = st_next s;
          subs = st_subs s @ [q];
          queue = (case st_snap s of
                     None \<Rightarrow> new_queue
                   | Some x \<Rightarrow> (case put_nowait new_queue x of Put_ok q' \<Rightarrow> q' | _ \<Rightarrow> new_queue))
      in (upd_metrics (\<lambda>m. m\<lparr>m_subscriber_count := int (length subs)\<rparr>)
            (s\<lparr>st_subs := subs, st_sub_ids := dict_set (st_sub_ids s) q subscriber_id,
               st_queues := (st_queues s)(q := queue), st_next := Suc q\<rparr>), q))"

definition store_unsubscribe :: "nat \<Rightarrow> store \<Rightarrow> store" where
  "store_unsubscribe q s =
     (if q \<in> set (st_subs s) then
        let subs = remove1 q (st_subs s)
        in upd_metrics (\<lambda>m. m\<lparr>m_subscriber_count := int (length subs)\<rparr>)
             (s\<lparr>st_subs := subs, st_sub_ids := dict_pop (st_sub_ids s) q\<rparr>)
      else s)"

definition initialize_if_empty :: "clock_env \<Rightarrow> store \<Rightarrow> store \<times> snapshot" where
  "initialize_if_empty env s =
     (case st_snap s of
        Some x \<Rightarrow> (s, x)
      | None \<Rightarrow>
          let x = initial_snapshot env
          in (notify_subscribers x
                (upd_metrics (stamp_set (env_wall env)) (s\<lparr>st_snap := Some x\<rparr>)), x))"

record store_report =
  rep_metrics :: metrics
  rep_uptime :: real
  rep_current_version :: int
  rep_current_state :: "fsm_state option"
  rep_active_subscribers :: int

definition store_get_metrics :: "real \<Rightarrow> store \<Rightarrow> store_report" where
  "store_get_metrics now s =
     \<lparr>rep_metrics = st_metrics s, rep_uptime = now - m_creation_ts (st_metrics s),
      rep_current_version = current_version s,
      rep_current_state = map_option sn_state (st_snap s),
      rep_active_subscribers = int (length (st_subs s))\<rparr>"

datatype health_issue = Many_conflicts | Many_subscribers | Not_initialised

definition store_health_check :: "real \<Rightarrow> store \<Rightarrow> bool \<times> health_issue list \<times> store_report" where
  "store_health_check now s =
     (let r = store_get_metrics now s;
          conflicts = real_of_int (m_version_conflicts (rep_metrics r))
                        > real_of_int (m_total_sets (rep_metrics r)) * 0.1;
          empty = (st_snap s = None)
      in (\<not> conflicts \<and> \<not> empty,
          (if conflicts then [Many_conflicts] else []) @
          (if length (st_subs s) > 100 then [Many_subscribers] else []) @
          (if empty then [Not_initialised] else []), r))"

section \<open>Runs\<close>

text \<open>
  What can happen to a store: a call of each operation, a subscriber taking the oldest element
  of its queue (\<open>Queue.get_nowait\<close>), and a queue dying.
\<close>

datatype store_event =
    Ev_get
  | Ev_set "snapshot option" bool clock_env
  | Ev_subscribe string
  | Ev_unsubscribe nat
  | Ev_init clock_env
  | Ev_take nat
  | Ev_die nat

fun store_step :: "store \<Rightarrow> store_event \<Rightarrow> store" where
  "store_step s Ev_get = fst (store_get s)"
| "store_step s (Ev_set x enforce env) = fst (store_set env x enforce s)"
| "store_step s (Ev_subscribe name) = fst (store_subscribe name s)"
| "store_step s (Ev_unsubscribe q) = store_unsubscribe q s"
| "store_step s (Ev_init env) = fst (initialize_if_empty env s)"
| "store_step s (Ev_take q) =
     s\<lparr>st_queues := (st_queues s)(q := (st_queues s q)\<lparr>q_items := drop 1 (q_items (st_queues s q))\<rparr>)\<rparr>"
| "store_step s (Ev_die q) =
     s\<lparr>st_queues := (st_queues s)(q := (st_queues s q)\<lparr>q_dead := True\<rparr>)\<rparr>"

section \<open>The invariant\<close>

definition subs_ok :: "store \<Rightarrow> bool" where
  "subs_ok s \<longleftrightarrow> distinct (st_subs s) \<and> (\<forall>q\<in>set (st_subs s). q < st_next s) \<and>
     wf_dict (st_sub_ids s) \<and> set (dict_keys (st_sub_ids s)) = set (st_subs s)"

definition count_ok :: "store \<Rightarrow> bool" where
  "count_ok s \<longleftrightarrow> m_subscriber_count (st_metrics s) = int (length (st_subs s))"

text \<open>A queue holds at most 64 snapshots, oldest version first, none newer than the store's.\<close>

definition queue_ok :: "snapshot option \<Rightarrow> sub_queue \<Rightarrow> bool" where
  "queue_ok cur q \<longleftrightarrow> length (q_items q) \<le> MAX_QUEUE_SIZE \<and>
     sorted_wrt (<) (map sn_version (q_items q)) \<and>
     (\<forall>x\<in>set (q_items q). \<exists>c. cur = Some c \<and> sn_version x \<le> sn_version c)"

definition store_inv :: "store \<Rightarrow> bool" where
  "store_inv s \<longleftrightarrow> subs_ok s \<and> count_ok s \<and> (\<forall>q. queue_ok (st_snap s) (st_queues s q))"

lemmas store_inv_defs = store_inv_def subs_ok_def count_ok_def

lemma queue_ok_new [simp]: "queue_ok cur new_queue"
  by (simp add: queue_ok_def new_queue_def)

lemma queue_ok_drop: "queue_ok cur q \<Longrightarrow> queue_ok cur (q\<lparr>q_items := drop n (q_items q)\<rparr>)"
  by (auto simp: queue_ok_def sorted_wrt_drop simp flip: drop_map dest: in_set_dropD)

text \<open>Storing a snapshot newer than every queued one keeps a queue in order.\<close>

lemma queue_ok_put:
  assumes "put_nowait q x = Put_ok q'" and "queue_ok cur q"
    and "\<forall>c. cur = Some c \<longrightarrow> sn_version c < sn_version x"
  shows "queue_ok (Some x) q'"
  using assms
  by (fastforce simp: put_nowait_def queue_ok_def sorted_wrt_append split: if_splits)

lemma queue_ok_newer:
  assumes "queue_ok cur q" and "\<forall>c. cur = Some c \<longrightarrow> sn_version c \<le> sn_version x"
  shows "queue_ok (Some x) q"
  using assms by (fastforce simp: queue_ok_def)

lemma put_ok_alive: "put_nowait q x = Put_ok q' \<Longrightarrow> \<not> q_dead q \<and> q_items q' = q_items q @ [x]"
  by (auto simp: put_nowait_def split: if_splits)

section \<open>Notification\<close>

lemma fst_notify_loop_Cons [simp]:
  "fst (notify_loop x (q # rest) qs) =
     fst (notify_loop x rest (case put_nowait (qs q) x of Put_ok q' \<Rightarrow> qs(q := q') | _ \<Rightarrow> qs))"
  by (simp split: put_result.split prod.split)

lemma snd_notify_loop_Cons [simp]:
  "snd (notify_loop x (q # rest) qs) =
     (if put_nowait (qs q) x = Put_error then [q] else []) @
     snd (notify_loop x rest (case put_nowait (qs q) x of Put_ok q' \<Rightarrow> qs(q := q') | _ \<Rightarrow> qs))"
  by (simp split: put_result.split prod.split)

declare notify_loop.simps(2) [simp del]

lemma notify_loop_dead: "set (snd (notify_loop x subs qs)) \<subseteq> set subs"
proof (induction subs arbitrary: qs)
  case (Cons p rest)
  from Cons.IH show ?case by (simp add: subset_insertI2) blast
qed simp

lemma notify_loop_other: "q \<notin> set subs \<Longrightarrow> fst (notify_loop x subs qs) q = qs q"
  by (induction subs arbitrary: qs) (simp_all split: put_result.split)

lemma notify_loop_queue:
  "distinct subs \<Longrightarrow> q \<in> set subs \<Longrightarrow>
   fst (notify_loop x subs qs) q = (case put_nowait (qs q) x of Put_ok q' \<Rightarrow> q' | _ \<Rightarrow> qs q)"
proof (induction subs arbitrary: qs)
  case (Cons p rest)
  show ?case
  proof (cases "q = p")
    case True
    with Cons.prems show ?thesis
      by (simp add: notify_loop_other split: put_result.split)
  next
    case False
    with Cons.prems Cons.IH show ?thesis
      by (simp split: put_result.split)
  qed
qed simp

lemma notify_loop_queues_ok:
  assumes "\<forall>q. queue_ok cur (qs q)" and "\<forall>c. cur = Some c \<longrightarrow> sn_version c < sn_version x"
    and "distinct subs"
  shows "queue_ok (Some x) (fst (notify_loop x subs qs) q)"
proof (cases "q \<in> set subs")
  case False
  then show ?thesis
    using assms by (auto simp: notify_loop_other intro: queue_ok_newer)
next
  case True
  have newer: "queue_ok (Some x) (qs q)"
    using assms by (auto intro: queue_ok_newer)
  show ?thesis
    using True assms newer
    by (auto simp: notify_loop_queue split: put_result.split intro: queue_ok_put)
qed

lemma remove_dead_frame [simp]:
  "st_snap (remove_dead ds s) = st_snap s"
  "st_queues (remove_dead ds s) = st_queues s"
  "st_metrics (remove_dead ds s) = st_metrics s"
  "st_next (remove_dead ds s) = st_next s"
  by (induction ds s rule: remove_dead.induct) auto

lemma remove_dead_subs_ok: "subs_ok s \<Longrightarrow> subs_ok (remove_dead ds s)"
  by (induction ds s rule: remove_dead.induct)
     (auto simp: subs_ok_def distinct_remove1)

lemma notify_frame [simp]:
  "st_snap (notify_subscribers x s) = st_snap s"
  "m_total_sets (st_metrics (notify_subscribers x s)) = m_total_sets (st_metrics s)"
  "m_version_conflicts (st_metrics (notify_subscribers x s)) = m_version_conflicts (st_metrics s)"
  by (auto simp: notify_subscribers_def Let_def split: prod.split)

lemma notify_queues [simp]:
  "st_queues (notify_subscribers x s) = fst (notify_loop x (st_subs s) (st_queues s))"
  by (auto simp: notify_subscribers_def Let_def split: prod.split)

lemma subs_ok_frame [simp]:
  "subs_ok (s\<lparr>st_queues := qs\<rparr>) = subs_ok s"
  "subs_ok (s\<lparr>st_metrics := m\<rparr>) = subs_ok s"
  "subs_ok (s\<lparr>st_snap := x\<rparr>) = subs_ok s"
  by (simp_all add: subs_ok_def)

lemma notify_subs_ok: "subs_ok s \<Longrightarrow> subs_ok (notify_subscribers x s)"
  by (auto simp: notify_subscribers_def Let_def remove_dead_subs_ok split: prod.split)

lemma notify_count_ok: "count_ok s \<Longrightarrow> count_ok (notify_subscribers x s)"
  by (auto simp: notify_subscribers_def Let_def count_ok_def split: prod.split)

lemma notify_inv:
  assumes "subs_ok s" "count_ok s" "\<forall>q. queue_ok cur (st_queues s q)"
    and "st_snap s = Some x" and "\<forall>c. cur = Some c \<longrightarrow> sn_version c < sn_version x"
  shows "store_inv (notify_subscribers x s)"
  unfolding store_inv_def
  using assms notify_subs_ok notify_count_ok notify_loop_queues_ok
  by (auto simp: subs_ok_def)

section \<open>Every operation keeps the invariant\<close>

lemma store_inv_create [simp]: "store_inv (create_store None now)"
  by (simp add: store_inv_defs create_store_def)

lemma store_inv_create_some [simp]: "store_inv (create_store (Some x) now)"
  by (simp add: store_inv_defs create_store_def)

lemma assign_version_newer: "cur = Some c \<Longrightarrow> sn_version c < sn_version (assign_version env cur x)"
  by (simp add: assign_version_def)

lemma store_set_inv: "store_inv s \<Longrightarrow> store_inv (fst (store_set env x enforce s))"
proof -
  assume inv: "store_inv s"
  have "store_inv (notify_subscribers (assign_version env (st_snap s) y)
          (upd_metrics (stamp_set (env_wall env))
             (s\<lparr>st_snap := Some (assign_version env (st_snap s) y)\<rparr>)))" for y
    by (rule notify_inv [where cur = "st_snap s"])
       (use inv in \<open>auto simp: store_inv_defs stamp_set_def assign_version_newer\<close>)
  with inv show ?thesis
    by (auto simp: store_set_def Let_def store_inv_defs split: option.split)
qed

lemma initialize_inv: "store_inv s \<Longrightarrow> store_inv (fst (initialize_if_empty env s))"
proof (cases "st_snap s")
  case None
  assume inv: "store_inv s"
  have "store_inv (notify_subscribers (initial_snapshot env)
          (upd_metrics (stamp_set (env_wall env)) (s\<lparr>st_snap := Some (initial_snapshot env)\<rparr>)))"
    by (rule notify_inv [where cur = None])
       (use inv None in \<open>auto simp: store_inv_defs stamp_set_def\<close>)
  with None show ?thesis by (simp add: initialize_if_empty_def Let_def)
next
  case (Some x)
  then show "store_inv s \<Longrightarrow> ?thesis" by (simp add: initialize_if_empty_def)
qed

lemma subscribe_inv: "store_inv s \<Longrightarrow> store_inv (fst (store_subscribe name s))"
  by (auto simp: store_subscribe_def store_inv_defs Let_def put_nowait_def new_queue_def
        queue_ok_def MAX_QUEUE_SIZE_def less_Suc_eq split: option.split)

lemma unsubscribe_inv: "store_inv s \<Longrightarrow> store_inv (store_unsubscribe q s)"
  by (auto simp: store_unsubscribe_def store_inv_defs Let_def distinct_remove1
        length_remove1 set_remove1_eq)

lemma take_inv: "store_inv s \<Longrightarrow> store_inv (store_step s (Ev_take q))"
  using queue_ok_drop [of "st_snap s" "st_queues s q" 1]
  by (auto simp: store_inv_defs)

lemma die_inv: "store_inv s \<Longrightarrow> store_inv (store_step s (Ev_die q))"
  by (auto simp: store_inv_defs queue_ok_def)

lemma store_step_inv: "store_inv s \<Longrightarrow> store_inv (store_step s e)"
proof (cases e)
  case Ev_get
  then show "store_inv s \<Longrightarrow> ?thesis"
    by (auto simp: store_get_def store_inv_defs)
qed (use store_set_inv subscribe_inv unsubscribe_inv initialize_inv take_inv die_inv in auto)

section \<open>Versions never go back\<close>

fun opt_le :: "int option \<Rightarrow> int option \<Rightarrow> bool" where
  "opt_le None _ = True"
| "opt_le (Some a) (Some b) = (a \<le> b)"
| "opt_le (Some a) None = False"

lemma opt_le_refl [simp]: "opt_le m m"
  by (cases m) auto

lemma opt_le_trans: "opt_le a b \<Longrightarrow> opt_le b c \<Longrightarrow> opt_le a c"
  by (cases a; cases b; cases c) auto

definition store_version :: "store \<Rightarrow> int option" where
  "store_version s = map_option sn_version (st_snap s)"

lemma store_set_snap:
  "st_snap (fst (store_set env x enforce s)) =
     (case snd (store_set env x enforce s) of Inl _ \<Rightarrow> st_snap s | Inr y \<Rightarrow> Some y)"
  by (auto simp: store_set_def Let_def split: option.split)

lemma store_set_version:
  "snd (store_set env (Some x) enforce s) = Inr y \<Longrightarrow>
   sn_version y = (case st_snap s of None \<Rightarrow> sn_version x
                   | Some c \<Rightarrow> max (sn_version x) (sn_version c + 1))"
  by (auto simp: store_set_def Let_def assign_version_def split: option.splits if_splits)

lemma store_step_version: "opt_le (store_version s) (store_version (store_step s e))"
proof (cases e)
  case (Ev_set x enforce env)
  show ?thesis
  proof (cases "snd (store_set env x enforce s)")
    case (Inl err)
    with Ev_set show ?thesis by (simp add: store_version_def store_set_snap)
  next
    case (Inr y)
    then obtain z where "x = Some z" by (cases x) (auto simp: store_set_def)
    with Inr Ev_set show ?thesis
      by (auto simp: store_version_def store_set_snap split: option.split
            dest: store_set_version [unfolded \<open>x = Some z\<close>])
         (cases "st_snap s"; auto dest: store_set_version)
  qed
next
  case (Ev_init env)
  then show ?thesis
    by (auto simp: store_version_def initialize_if_empty_def Let_def split: option.split)
qed (auto simp: store_version_def store_get_def store_subscribe_def store_unsubscribe_def Let_def)

interpretation store_machine: mono_machine store_step store_inv opt_le store_version
  by unfold_locales (auto intro: store_step_inv store_step_version opt_le_trans)

section \<open>Who is notified\<close>

lemma put_error_iff: "put_nowait q x = Put_error \<longleftrightarrow> q_dead q"
  by (simp add: put_nowait_def)

lemma snd_notify_loop:
  "distinct subs \<Longrightarrow> set (snd (notify_loop x subs qs)) = {q \<in> set subs. q_dead (qs q)}"
proof (induction subs arbitrary: qs)
  case (Cons p rest)
  then have IH: "set (snd (notify_loop x rest qs')) = {q \<in> set rest. q_dead (qs' q)}"
    and p: "p \<notin> set rest" for qs'
    by auto
  show ?case
  proof (cases "put_nowait (qs p) x")
    case (Put_ok q')
    then have "\<not> q_dead (qs p)" using put_error_iff [of "qs p" x] by simp
    moreover have "{q \<in> set rest. q_dead ((qs(p := q')) q)} = {q \<in> set rest. q_dead (qs q)}"
      using p by auto
    ultimately show ?thesis using Put_ok IH [of "qs(p := q')"] by auto
  next
    case Put_full
    then have "\<not> q_dead (qs p)" using put_error_iff [of "qs p" x] by simp
    with Put_full IH show ?thesis by auto
  next
    case Put_error
    then have "q_dead (qs p)" using put_error_iff [of "qs p" x] by simp
    with Put_error IH show ?thesis by auto
  qed
qed simp

lemma remove_dead_subs:
  "distinct (st_subs s) \<Longrightarrow> set (st_subs (remove_dead ds s)) = set (st_subs s) - set ds"
proof (induction ds s rule: remove_dead.induct)
  case (2 d ds s)
  then show ?case
    by (cases "d \<in> set (st_subs s)") (auto simp: distinct_remove1 set_remove1_eq)
qed simp

lemma notify_subs:
  assumes "distinct (st_subs s)"
  shows "set (st_subs (notify_subscribers x s)) = {q \<in> set (st_subs s). \<not> q_dead (st_queues s q)}"
proof -
  obtain qs dead where nl: "notify_loop x (st_subs s) (st_queues s) = (qs, dead)"
    by (cases "notify_loop x (st_subs s) (st_queues s)")
  have dead: "set dead = {q \<in> set (st_subs s). q_dead (st_queues s q)}"
    using snd_notify_loop [OF assms, of x "st_queues s"] nl by simp
  have "st_subs (notify_subscribers x s) = st_subs (remove_dead dead (s\<lparr>st_queues := qs\<rparr>))"
    by (simp add: notify_subscribers_def nl Let_def)
  then show ?thesis using assms dead by (auto simp: remove_dead_subs)
qed

lemma queue_ok_newest:
  "queue_ok cur q \<Longrightarrow> list_all (\<lambda>x. opt_le (Some (sn_version x)) (map_option sn_version cur)) (q_items q)"
  by (auto simp: queue_ok_def list_all_iff)

lemma put_nowait_items:
  "q_items (case put_nowait q x of Put_ok q' \<Rightarrow> q' | _ \<Rightarrow> q) =
     (if \<not> q_dead q \<and> length (q_items q) < MAX_QUEUE_SIZE then q_items q @ [x] else q_items q)"
  by (simp add: put_nowait_def)

lemma store_set_ok:
  "snd (store_set env (Some x) enforce s) = Inr y \<Longrightarrow>
   y = assign_version env (st_snap s) x \<and>
   fst (store_set env (Some x) enforce s) =
     notify_subscribers y (upd_metrics (stamp_set (env_wall env)) (s\<lparr>st_snap := Some y\<rparr>))"
  by (auto simp: store_set_def Let_def split: if_splits)

section \<open>Properties\<close>

text \<open>
  C1. Ordered delivery: in every run of a new store, over any interleaving of its operations
  with subscribers taking elements and queues dying, each queue holds at most 64 snapshots, in
  strictly increasing version order, none newer than the store's own, and the subscriber metric
  counts the subscriber list.
\<close>

theorem store_queues_ordered:
  "let s = foldl store_step (create_store init now) es
   in length (q_items (st_queues s q)) \<le> 64 \<and>
      sorted_wrt (<) (map sn_version (q_items (st_queues s q))) \<and>
      list_all (\<lambda>x. opt_le (Some (sn_version x)) (store_version s)) (q_items (st_queues s q)) \<and>
      distinct (st_subs s) \<and> m_subscriber_count (st_metrics s) = int (length (st_subs s))"
proof -
  have "store_inv (create_store init now)" by (cases init) simp_all
  then have "store_inv (foldl store_step (create_store init now) es)"
    by (rule store_machine.run_inv)
  then have "subs_ok (foldl store_step (create_store init now) es)"
    "count_ok (foldl store_step (create_store init now) es)"
    "queue_ok (st_snap (foldl store_step (create_store init now) es))
       (st_queues (foldl store_step (create_store init now) es) q)"
    by (simp_all add: store_inv_def)
  then show ?thesis
    using queue_ok_newest
    by (simp add: Let_def subs_ok_def count_ok_def queue_ok_def MAX_QUEUE_SIZE_def store_version_def)
qed

text \<open>
  A successful \<open>set\<close>: the stored snapshot gets the version asked for or the next one
  if that is not newer, a reader sees it, every live subscriber with room in its queue receives
  exactly it, full queues keep their contents, and dead queues are unsubscribed.
\<close>

theorem store_set_delivers:
  assumes "store_inv s" and "snd (store_set env (Some x) enforce s) = Inr y"
  shows "sn_version y = (case st_snap s of None \<Rightarrow> sn_version x
                         | Some c \<Rightarrow> max (sn_version x) (sn_version c + 1)) \<and>
         snd (store_get (fst (store_set env (Some x) enforce s))) = Some y \<and>
         q_items (st_queues (fst (store_set env (Some x) enforce s)) q) =
           (if q \<in> set (st_subs s) \<and> \<not> q_dead (st_queues s q) \<and> length (q_items (st_queues s q)) < 64
            then q_items (st_queues s q) @ [y] else q_items (st_queues s q)) \<and>
         set (st_subs (fst (store_set env (Some x) enforce s))) =
           {q \<in> set (st_subs s). \<not> q_dead (st_queues s q)}"
proof (intro conjI)
  have dist: "distinct (st_subs s)" using assms(1) by (simp add: store_inv_defs)
  note ok = store_set_ok [OF assms(2)]
  show "sn_version y = (case st_snap s of None \<Rightarrow> sn_version x
                        | Some c \<Rightarrow> max (sn_version x) (sn_version c + 1))"
    by (rule store_set_version [OF assms(2)])
  show "snd (store_get (fst (store_set env (Some x) enforce s))) = Some y"
    using ok by (simp add: store_get_def)
  show "q_items (st_queues (fst (store_set env (Some x) enforce s)) q) =
          (if q \<in> set (st_subs s) \<and> \<not> q_dead (st_queues s q) \<and> length (q_items (st_queues s q)) < 64
           then q_items (st_queues s q) @ [y] else q_items (st_queues s q))"
    using ok dist
    by (cases "q \<in> set (st_subs s)")
       (simp_all add: notify_loop_queue notify_loop_other put_nowait_items MAX_QUEUE_SIZE_def)
  show "set (st_subs (fst (store_set env (Some x) enforce s))) =
          {q \<in> set (st_subs s). \<not> q_dead (st_queues s q)}"
    using ok dist by (simp add: notify_subs)
qed

definition demo_env :: clock_env where
  "demo_env = \<lparr>env_mono = 1, env_wall = 2, env_uuid = ''u1'', env_uuid2 = ''u2''\<rparr>"

theorem store_set_delivers_witness:
  "snd (store_get (fst (store_set demo_env (Some (initial_snapshot demo_env)) False
     (create_store None 0)))) = Some (initial_snapshot demo_env)"
  using store_set_delivers
    [of "create_store None 0" demo_env "initial_snapshot demo_env" False "initial_snapshot demo_env"]
  by (simp add: store_set_def create_store_def assign_version_def Let_def store_inv_defs)

text \<open>
  A refused \<open>set\<close>: it is refused only for a missing snapshot or, with
  \<open>enforce_version\<close>, for one whose version is not newer; the stored snapshot, the
  subscribers and every queue are untouched, and only the second refusal counts as a conflict.
\<close>

theorem store_set_refused:
  assumes "snd (store_set env x enforce s) = Inl e"
  shows "(if e = StateStoreError then x = None
          else enforce \<and> opt_le (map_option sn_version x) (store_version s)) \<and>
         st_snap (fst (store_set env x enforce s)) = st_snap s \<and>
         st_subs (fst (store_set env x enforce s)) = st_subs s \<and>
         st_queues (fst (store_set env x enforce s)) = st_queues s \<and>
         m_total_sets (st_metrics (fst (store_set env x enforce s))) = m_total_sets (st_metrics s) \<and>
         m_version_conflicts (st_metrics (fst (store_set env x enforce s))) =
           m_version_conflicts (st_metrics s) + (if e = StateVersionError then 1 else 0)"
  using assms
  by (auto simp: store_set_def Let_def store_version_def split: option.splits if_splits)

theorem store_set_refused_witness:
  "st_snap (fst (store_set demo_env (Some (initial_snapshot demo_env)) True
     (create_initialized_store demo_env))) = Some (initial_snapshot demo_env)"
  using store_set_refused
    [of demo_env "Some (initial_snapshot demo_env)" True "create_initialized_store demo_env"
        StateVersionError]
  by (simp add: store_set_def create_initialized_store_def create_store_def)

text \<open>
  The version a store reports never goes back: extending a run by any further events can
  only leave it or raise it.
\<close>

theorem store_version_monotone:
  "opt_le (store_version (foldl store_step (create_store init now) es))
          (store_version (foldl store_step (create_store init now) (es @ es')))"
proof -
  have "store_inv (create_store init now)" by (cases init) simp_all
  then have "store_inv (foldl store_step (create_store init now) es)"
    by (rule store_machine.run_inv)
  then show ?thesis by (simp add: store_machine.run_mono)
qed

end
