(* ===== verification/Agent.thy ===== *)
theory Agent
  imports Agent_Fsm Event_Store State_Store
begin

text \<open>
  The agent (\<open>src/qiki/services/q_core_agent/core/agent.py\<close>) and its tick
  (\<open>core/tick_orchestrator.py\<close>). The record \<open>agent\<close> is the context, the world
  model, the counters and the commands handed to the provider. What a tick reads from outside is
  \<open>provider\<close> (each call answers a value or raises, \<open>Inl\<close>) and \<open>tick_env\<close>:
  the clock (read once per tick), the identifiers, the proposals of the neural engine.
  Logging, sleeping and the sensor snapshot for the language model are left out.
\<close>

section \<open>State and environment\<close>

record actuation =
  la_command_id :: string
  la_status :: string
  la_timestamp :: real
  la_reason :: string
  la_is_fallback :: bool

record agent =
  a_bios :: "bios_status option"
  a_fsm :: "fsm_snapshot option"
  a_proposals :: "proposal list"
  a_latest :: "sensor_data option"
  a_last_actuation :: "actuation option"
  a_events :: event_store
  a_event_count :: nat
  a_guards :: "guard_result list"
  a_view :: "world_view option"
  a_world :: world
  a_tick_id :: nat
  a_errors :: nat
  a_sent :: "actuator_command list"

record agent_config =
  cfg_rules :: "guard_rule list"
  cfg_threshold :: real
  cfg_profile :: "hardware_profile option"
  cfg_minimal :: bool
  cfg_actuator_ids :: "string list"

definition new_agent :: "event_store \<Rightarrow> agent" where
  "new_agent es =
     \<lparr>a_bios = None, a_fsm = None, a_proposals = [], a_latest = None, a_last_actuation = None,
      a_events = es, a_event_count = 0, a_guards = [], a_view = None, a_world = empty_world,
      a_tick_id = 0, a_errors = 0, a_sent = []\<rparr>"

datatype send_error =
    Timeout_error string | Connection_error string | Value_error string | Other_error string

record fsm_result =
  fr_ok :: bool
  fr_value :: "fsm_snapshot option"
  fr_reason :: string
  fr_is_fallback :: bool

record provider =
  pv_bios :: "string + bios_status"
  pv_fsm :: "string + fsm_result"
  pv_proposals :: "string + proposal list"
  pv_sensor :: "nat \<Rightarrow> string + sensor_data option"
  pv_send :: "actuator_command \<Rightarrow> send_error option"

record tick_env =
  te_now :: real
  te_format :: "real \<Rightarrow> string" \<comment> \<open>six decimals\<close>
  te_event :: "nat \<Rightarrow> event_env"
  te_fresh :: "nat \<Rightarrow> nat \<Rightarrow> string"
  te_ids :: "nat \<Rightarrow> string \<times> string"
  te_neural :: "string + proposal list"
  te_clock :: clock_env

section \<open>Context flags and safe mode\<close>

definition set_context :: "string \<Rightarrow> string \<Rightarrow> agent \<Rightarrow> agent" where
  "set_context key v ag =
     ag\<lparr>a_fsm := map_option (\<lambda>s. s\<lparr>fs_context := dict_set (fs_context s) key v\<rparr>) (a_fsm ag)\<rparr>"

definition set_fsm_context_flag :: "string \<Rightarrow> bool \<Rightarrow> agent \<Rightarrow> agent" where
  "set_fsm_context_flag key v ag = set_context key (if v then ''1'' else ''0'') ag"

text \<open>
  The agent's own events have the subsystem \<open>AGENT\<close> and a fixed type, so the store never
  refuses them (\<open>agent_event_accepted\<close>) and the error branch is never taken.
\<close>

definition append_agent_event :: "tick_env \<Rightarrow> string \<Rightarrow> string \<Rightarrow> agent \<Rightarrow> agent" where
  "append_agent_event te event_type reason ag =
     (case es_append_new (te_event te (a_event_count ag)) ''AGENT'' event_type
             [(''reason'', JStr reason)] (Inl T_NO_DATA) reason
             (Some (show_int (int (a_tick_id ag)))) None (a_events ag) of
        Inl err \<Rightarrow> ag
      | Inr (es, r) \<Rightarrow> ag\<lparr>a_events := es, a_event_count := Suc (a_event_count ag)\<rparr>)"

text \<open>\<open>FSMHandler.process_fsm_state\<close> on the context: a pause returns before the guards are read.\<close>

definition run_fsm_handler :: "agent_config \<Rightarrow> tick_env \<Rightarrow> agent \<Rightarrow> agent" where
  "run_fsm_handler cfg te ag =
     (let st = (case a_fsm ag of None \<Rightarrow> boot_snapshot | Some s \<Rightarrow> s)
      in if shared_to_agent_state (fs_current st) = None then ag\<lparr>a_fsm := Some st\<rparr>
         else
           let (w, g) = select_guard_event (cfg_rules cfg) (te_now te) (a_guards ag) (Some (a_world ag))
           in ag\<lparr>a_world := (case w of Some w' \<Rightarrow> w' | None \<Rightarrow> a_world ag),
                 a_fsm := Some (process_fsm_state g (is_bios_ok (a_bios ag))
                                  (has_valid_proposals (a_proposals ag)) (a_fsm ag))\<rparr>)"

definition switch_to_safe_mode :: "agent_config \<Rightarrow> tick_env \<Rightarrow> string \<Rightarrow> agent \<Rightarrow> agent" where
  "switch_to_safe_mode cfg te reason ag =
     (let r = py_upper (py_strip reason);
          safe_reason = (if r = [] then ''UNKNOWN'' else r);
          ag1 = append_agent_event te ''SAFE_MODE_REQUEST'' safe_reason ag
      in case a_fsm ag1 of
           None \<Rightarrow> ag1
         | Some s \<Rightarrow>
             run_fsm_handler cfg te
               (set_context ''safe_mode_reason'' safe_reason
                  (set_context ''safe_mode_request_reason'' safe_reason ag1)))"

definition is_fsm_in_safe_mode :: "agent \<Rightarrow> bool" where
  "is_fsm_in_safe_mode ag =
     opt_test (a_fsm ag) (\<lambda>s. dict_getd (fs_context s) ''ship_state_name'' [] = ''SAFE_MODE'')"

section \<open>Phase 1: context and sensors\<close>

text \<open>Each function returns the agent and whether the call returned (it raised otherwise).\<close>

definition take_fsm :: "provider \<Rightarrow> agent \<Rightarrow> agent \<times> bool" where
  "take_fsm pv ag =
     (case a_fsm ag of
        Some s \<Rightarrow> (ag, True)
      | None \<Rightarrow>
          (case pv_fsm pv of
             Inl e \<Rightarrow> (ag, False)
           | Inr r \<Rightarrow>
               if \<not> fr_ok r then
                 (if fr_is_fallback r \<and> fr_value r \<noteq> None then (ag\<lparr>a_fsm := fr_value r\<rparr>, True)
                  else (ag, False))
               else if fr_value r = None then (ag, False)
               else (ag\<lparr>a_fsm := fr_value r\<rparr>, True)))"

definition take_proposals :: "provider \<Rightarrow> agent \<Rightarrow> agent \<times> bool" where
  "take_proposals pv ag =
     (case pv_proposals pv of Inl e \<Rightarrow> (ag, False) | Inr ps \<Rightarrow> (ag\<lparr>a_proposals := ps\<rparr>, True))"

definition update_from_provider :: "provider \<Rightarrow> agent \<Rightarrow> agent \<times> bool" where
  "update_from_provider pv ag =
     (case pv_bios pv of
        Inl e \<Rightarrow> (ag, False)
      | Inr b \<Rightarrow>
          (let (ag1, ok) = take_fsm pv (ag\<lparr>a_bios := Some b\<rparr>)
           in if \<not> ok then (ag1, False) else take_proposals pv ag1))"

definition update_from_provider_without_fsm :: "provider \<Rightarrow> agent \<Rightarrow> agent \<times> bool" where
  "update_from_provider_without_fsm pv ag =
     (case pv_bios pv of
        Inl e \<Rightarrow> (ag, False)
      | Inr b \<Rightarrow> take_proposals pv (ag\<lparr>a_bios := Some b\<rparr>))"

definition SENSOR_ROTATION_READS :: nat where "SENSOR_ROTATION_READS = 3"

definition take_reading :: "agent_config \<Rightarrow> tick_env \<Rightarrow> nat \<Rightarrow> sensor_data \<Rightarrow> agent \<Rightarrow> agent" where
  "take_reading cfg te attempt sd ag =
     (let ag1 = set_fsm_context_flag ''safe_sensors_ok'' True ag
      in ag1\<lparr>a_latest := Some sd,
             a_world := ingest_sensor_data (cfg_rules cfg) (te_now te) (te_now te)
                          (te_fresh te attempt) sd (a_world ag1)\<rparr>)"

text \<open>
  The rotation of reads: the result says whether anything was ingested. \<open>left\<close> reads
  remain; a failure or an empty answer on the first one ends the phase at once.
\<close>

fun sensor_loop :: "agent_config \<Rightarrow> tick_env \<Rightarrow> provider \<Rightarrow> nat \<Rightarrow> nat \<Rightarrow> agent \<Rightarrow> agent \<times> bool" where
  "sensor_loop cfg te pv attempt 0 ag = (ag, attempt \<noteq> 0)"
| "sensor_loop cfg te pv attempt (Suc left) ag =
     (case pv_sensor pv attempt of
        Inl e \<Rightarrow>
          if attempt = 0
          then (switch_to_safe_mode cfg te ''SENSORS_UNAVAILABLE''
                  (set_fsm_context_flag ''safe_sensors_ok'' False ag), False)
          else (ag, True)
      | Inr None \<Rightarrow>
          if attempt = 0 then (set_fsm_context_flag ''safe_sensors_ok'' False ag, False) else (ag, True)
      | Inr (Some sd) \<Rightarrow>
          (let ag1 = take_reading cfg te attempt sd ag
           in if sd_type sd = ST_RADAR then (ag1, True)
              else sensor_loop cfg te pv (Suc attempt) left ag1))"

definition ingest_sensors :: "agent_config \<Rightarrow> tick_env \<Rightarrow> provider \<Rightarrow> agent \<Rightarrow> agent" where
  "ingest_sensors cfg te pv ag =
     (let (ag1, ingested) = sensor_loop cfg te pv 0 SENSOR_ROTATION_READS ag
      in if \<not> ingested then ag1
         else
           let (w1, gs) = world_guard_results (cfg_rules cfg) (te_now te) (a_world ag1);
               (w2, v) = world_snapshot (cfg_rules cfg) (te_now te) w1
           in ag1\<lparr>a_guards := gs, a_world := w2, a_view := Some v\<rparr>)"

definition update_context :: "agent_config \<Rightarrow> tick_env \<Rightarrow> provider \<Rightarrow> agent \<Rightarrow> agent \<times> bool" where
  "update_context cfg te pv ag =
     (let (ag1, ok) = update_from_provider pv ag
      in if \<not> ok
         then (switch_to_safe_mode cfg te ''PROVIDER_UNAVAILABLE''
                 (set_fsm_context_flag ''safe_provider_ok'' False ag1), False)
         else (ingest_sensors cfg te pv (set_fsm_context_flag ''safe_provider_ok'' True ag1), True))"

definition update_context_without_fsm ::
  "agent_config \<Rightarrow> tick_env \<Rightarrow> provider \<Rightarrow> agent \<Rightarrow> agent \<times> bool" where
  "update_context_without_fsm cfg te pv ag =
     (let (ag1, ok) = update_from_provider_without_fsm pv ag
      in if \<not> ok then (ag1, False)
         else (ingest_sensors cfg te pv (set_fsm_context_flag ''safe_provider_ok'' True ag1), True))"

section \<open>Phases 2 to 4: BIOS, state machine, proposals\<close>

definition handle_bios :: "agent_config \<Rightarrow> tick_env \<Rightarrow> agent \<Rightarrow> agent" where
  "handle_bios cfg te ag =
     (case a_bios ag of
        None \<Rightarrow> switch_to_safe_mode cfg te ''BIOS_UNAVAILABLE'' (set_fsm_context_flag ''safe_bios_ok'' False ag)
      | Some b \<Rightarrow>
          let b' = process_bios_status (cfg_profile cfg) b
          in set_fsm_context_flag ''safe_bios_ok'' (all_systems_go b') (ag\<lparr>a_bios := Some b'\<rparr>))"

definition handle_fsm :: "agent_config \<Rightarrow> tick_env \<Rightarrow> agent \<Rightarrow> agent" where
  "handle_fsm cfg te ag = run_fsm_handler cfg te ag"

definition agent_evaluate_proposals :: "agent_config \<Rightarrow> tick_env \<Rightarrow> agent \<Rightarrow> agent" where
  "agent_evaluate_proposals cfg te ag =
     (case te_neural te of
        Inl e \<Rightarrow> switch_to_safe_mode cfg te ''UNKNOWN'' ag
      | Inr neural \<Rightarrow>
          ag\<lparr>a_proposals := evaluate_proposals (cfg_threshold cfg)
                (rule_proposals (te_ids te) (a_bios ag) (a_guards ag) @ neural)\<rparr>)"

section \<open>Phase 5: decision\<close>

definition record_last_actuation :: "tick_env \<Rightarrow> string \<Rightarrow> string \<Rightarrow> string \<Rightarrow> bool \<Rightarrow> agent \<Rightarrow> agent" where
  "record_last_actuation te status reason command_id is_fallback ag =
     (let st = py_lower status;
          ag1 = ag\<lparr>a_last_actuation := Some \<lparr>la_command_id = command_id, la_status = st,
                     la_timestamp = te_now te, la_reason = reason, la_is_fallback = is_fallback\<rparr>\<rparr>
      in set_context ''last_actuation_is_fallback'' (if is_fallback then ''1'' else ''0'')
           (set_context ''last_actuation_reason'' reason
              (set_context ''last_actuation_timestamp'' (te_format te (te_now te))
                 (set_context ''last_actuation_status'' st
                    (set_context ''last_actuation_command_id'' command_id ag1)))))"

text \<open>
  The command identifier is read as \<open>action.command_id.value\<close>, which a \<open>UUID\<close> does
  not have, so it is always the empty string.
\<close>

definition recorded_command_id :: "actuator_command \<Rightarrow> string" where
  "recorded_command_id ac = []"

definition bot_core_send :: "agent_config \<Rightarrow> actuator_command \<Rightarrow> send_error option" where
  "bot_core_send cfg ac =
     (if cfg_minimal cfg then None
      else if ac_actuator_id ac \<notin> set (cfg_actuator_ids cfg)
      then Some (Value_error (''Unknown actuator ID: '' @ ac_actuator_id ac)) else None)"

definition send_action :: "agent_config \<Rightarrow> tick_env \<Rightarrow> provider \<Rightarrow> actuator_command \<Rightarrow> agent \<Rightarrow> agent" where
  "send_action cfg te pv ac ag =
     (let cid = recorded_command_id ac;
          refused = bot_core_send cfg ac;
          ag1 = (if refused = None then ag\<lparr>a_sent := a_sent ag @ [ac]\<rparr> else ag);
          outcome = (case refused of Some e \<Rightarrow> Some e | None \<Rightarrow> pv_send pv ac)
      in case outcome of
           None \<Rightarrow> record_last_actuation te ''accepted'' ''COMMAND_ACCEPTED_NO_EXECUTION_ACK'' cid False ag1
         | Some (Timeout_error m) \<Rightarrow>
             switch_to_safe_mode cfg te ''ACTUATOR_UNAVAILABLE'' (record_last_actuation te ''timeout'' m cid False ag1)
         | Some (Connection_error m) \<Rightarrow>
             switch_to_safe_mode cfg te ''ACTUATOR_UNAVAILABLE'' (record_last_actuation te ''unavailable'' m cid False ag1)
         | Some (Value_error m) \<Rightarrow> record_last_actuation te ''rejected'' m cid False ag1
         | Some (Other_error m) \<Rightarrow>
             switch_to_safe_mode cfg te ''ACTUATOR_UNAVAILABLE'' (record_last_actuation te ''failed'' m cid False ag1))"

definition make_decision :: "agent_config \<Rightarrow> tick_env \<Rightarrow> provider \<Rightarrow> agent \<Rightarrow> agent" where
  "make_decision cfg te pv ag =
     (if is_fsm_in_safe_mode ag then append_agent_event te ''DECISION_BLOCKED'' ''SAFE_MODE_ACTIVE'' ag
      else case a_proposals ag of
             [] \<Rightarrow> ag
           | chosen # _ \<Rightarrow> foldl (\<lambda>a ac. send_action cfg te pv ac a) ag (p_actions chosen))"

section \<open>The tick\<close>

definition run_tick :: "agent_config \<Rightarrow> tick_env \<Rightarrow> provider \<Rightarrow> agent \<Rightarrow> agent" where
  "run_tick cfg te pv ag =
     (let (ag1, ok) = update_context cfg te pv (ag\<lparr>a_tick_id := Suc (a_tick_id ag)\<rparr>)
      in if \<not> ok then switch_to_safe_mode cfg te ''UNKNOWN'' (ag1\<lparr>a_errors := Suc (a_errors ag1)\<rparr>)
         else make_decision cfg te pv
                (agent_evaluate_proposals cfg te (handle_fsm cfg te (handle_bios cfg te ag1))))"

text \<open>
  The phase with the state store: the stored snapshot (or a fresh one) goes through
  \<open>process_fsm_dto\<close> and back into the store, which stamps its version.
\<close>

definition handle_fsm_with_state_store ::
  "agent_config \<Rightarrow> tick_env \<Rightarrow> agent \<Rightarrow> store \<Rightarrow> agent \<times> store" where
  "handle_fsm_with_state_store cfg te ag st =
     (let (st1, cur) = store_get st;
          (st2, dto) = (case cur of Some d \<Rightarrow> (st1, d) | None \<Rightarrow> initialize_if_empty (te_clock te) st1);
          (w, g) = select_guard_event (cfg_rules cfg) (te_now te) (a_guards ag) (Some (a_world ag));
          updated = process_fsm_dto (te_clock te) g (is_bios_ok (a_bios ag))
                      (has_valid_proposals (a_proposals ag)) dto;
          ag1 = ag\<lparr>a_world := (case w of Some w' \<Rightarrow> w' | None \<Rightarrow> a_world ag)\<rparr>
      in case store_set (te_clock te) (Some updated) False st2 of
           (st3, Inr x) \<Rightarrow> (ag1, st3)
         | (st3, Inl err) \<Rightarrow> (handle_fsm cfg te ag1, st3))"

definition run_tick_async ::
  "agent_config \<Rightarrow> tick_env \<Rightarrow> provider \<Rightarrow> agent \<Rightarrow> store \<Rightarrow> agent \<times> store" where
  "run_tick_async cfg te pv ag st =
     (let (ag1, ok) = update_context_without_fsm cfg te pv (ag\<lparr>a_tick_id := Suc (a_tick_id ag)\<rparr>)
      in if \<not> ok then (switch_to_safe_mode cfg te ''UNKNOWN'' (ag1\<lparr>a_errors := Suc (a_errors ag1)\<rparr>), st)
         else
           let (ag2, st2) = handle_fsm_with_state_store cfg te (handle_bios cfg te ag1) st
           in (make_decision cfg te pv (agent_evaluate_proposals cfg te ag2), st2))"

record health =
  hs_tick_id :: nat
  hs_bios_ok :: bool
  hs_fsm_state :: "fsm_state_enum option"
  hs_proposals_count :: nat

definition get_health_snapshot :: "agent \<Rightarrow> health" where
  "get_health_snapshot ag =
     \<lparr>hs_tick_id = a_tick_id ag, hs_bios_ok = is_bios_ok (a_bios ag),
      hs_fsm_state = map_option fs_current (a_fsm ag), hs_proposals_count = length (a_proposals ag)\<rparr>"


section \<open>Frames: what each step leaves alone\<close>

definition core_of :: "agent \<Rightarrow> guard_result list \<times> proposal list \<times> bios_status option \<times> nat \<times> nat" where
  "core_of ag = (a_guards ag, a_proposals ag, a_bios ag, a_errors ag, a_tick_id ag)"

definition cur_state :: "agent \<Rightarrow> fsm_state_enum option" where
  "cur_state ag = map_option fs_current (a_fsm ag)"

definition ship_name :: "agent \<Rightarrow> string" where
  "ship_name ag = (case a_fsm ag of None \<Rightarrow> [] | Some s \<Rightarrow> dict_getd (fs_context s) ''ship_state_name'' [])"

lemma safe_mode_name: "is_fsm_in_safe_mode ag \<longleftrightarrow> ship_name ag = ''SAFE_MODE''"
  by (simp add: is_fsm_in_safe_mode_def ship_name_def split: option.splits)

lemma set_context_frame [simp]:
  "core_of (set_context k v ag) = core_of ag" "a_sent (set_context k v ag) = a_sent ag"
  "cur_state (set_context k v ag) = cur_state ag" "a_world (set_context k v ag) = a_world ag"
  "(a_fsm (set_context k v ag) = None) = (a_fsm ag = None)"
  by (cases "a_fsm ag"; simp add: set_context_def core_of_def cur_state_def)+

lemma set_context_name [simp]: "k \<noteq> ''ship_state_name'' \<Longrightarrow> ship_name (set_context k v ag) = ship_name ag"
  by (cases "a_fsm ag") (simp_all add: set_context_def ship_name_def)

lemma agent_event_accepted:
  assumes "py_strip ty \<noteq> []"
  shows "\<exists>es r. es_append_new env ''AGENT'' ty pl (Inl T_NO_DATA) reason tick ts s = Inr (es, r)"
proof -
  have "py_strip ''AGENT'' \<noteq> []" by code_simp
  with assms have "raw_errors (new_event env ''AGENT'' ty pl (Inl T_NO_DATA) reason tick ts) = []"
    by (simp add: raw_errors_def new_event_def Let_def)
  then show ?thesis by (simp add: es_append_new_def es_append_def validate_event_eq)
qed

lemma append_event_frame [simp]:
  "core_of (append_agent_event te ty reason ag) = core_of ag"
  "a_sent (append_agent_event te ty reason ag) = a_sent ag"
  "a_fsm (append_agent_event te ty reason ag) = a_fsm ag"
  "cur_state (append_agent_event te ty reason ag) = cur_state ag"
  "ship_name (append_agent_event te ty reason ag) = ship_name ag"
  "a_world (append_agent_event te ty reason ag) = a_world ag"
  by (auto simp: append_agent_event_def core_of_def cur_state_def ship_name_def split: sum.splits)

lemma run_handler_frame [simp]:
  "core_of (run_fsm_handler cfg te ag) = core_of ag"
  "a_sent (run_fsm_handler cfg te ag) = a_sent ag"
  by (auto simp: run_fsm_handler_def core_of_def Let_def split: prod.splits)

lemma run_handler_name [simp]: "ship_name (run_fsm_handler cfg te ag) = ship_name ag"
proof (cases "a_fsm ag")
  case None
  have "fs_context (process_fsm_state g ok ps None) = []" for g ok ps
    using process_fsm_state_context [of g ok ps boot_snapshot]
    by (simp add: process_fsm_state_def boot_snapshot_def)
  with None show ?thesis
    by (simp add: run_fsm_handler_def ship_name_def Let_def boot_snapshot_def dict_getd_def split: prod.splits)
next
  case (Some s)
  then show ?thesis by (simp add: run_fsm_handler_def ship_name_def Let_def split: prod.splits)
qed

lemma switch_frame [simp]:
  "core_of (switch_to_safe_mode cfg te r ag) = core_of ag"
  "a_sent (switch_to_safe_mode cfg te r ag) = a_sent ag"
  "ship_name (switch_to_safe_mode cfg te r ag) = ship_name ag"
  by (auto simp: switch_to_safe_mode_def Let_def split: option.splits)

lemma actuation_frame [simp]:
  "core_of (ag\<lparr>a_last_actuation := x\<rparr>) = core_of ag"
  "ship_name (ag\<lparr>a_last_actuation := x\<rparr>) = ship_name ag"
  "cur_state (ag\<lparr>a_last_actuation := x\<rparr>) = cur_state ag"
  by (simp_all add: core_of_def ship_name_def cur_state_def)

lemma record_frame [simp]:
  "core_of (record_last_actuation te st r c f ag) = core_of ag"
  "a_sent (record_last_actuation te st r c f ag) = a_sent ag"
  "ship_name (record_last_actuation te st r c f ag) = ship_name ag"
  "cur_state (record_last_actuation te st r c f ag) = cur_state ag"
  by (simp_all add: record_last_actuation_def Let_def)

lemma flag_frame [simp]:
  "core_of (set_fsm_context_flag k b ag) = core_of ag" "a_sent (set_fsm_context_flag k b ag) = a_sent ag"
  "cur_state (set_fsm_context_flag k b ag) = cur_state ag"
  "k \<noteq> ''ship_state_name'' \<Longrightarrow> ship_name (set_fsm_context_flag k b ag) = ship_name ag"
  by (simp_all add: set_fsm_context_flag_def)

section \<open>State-machine predicates a tick keeps\<close>

definition alarmed :: "agent \<Rightarrow> bool" where
  "alarmed ag \<longleftrightarrow> list_ex (\<lambda>g. g_severity g = ''critical'') (a_guards ag)"

lemma alarmed_core: "core_of a = core_of b \<Longrightarrow> alarmed a = alarmed b"
  by (simp add: core_of_def alarmed_def)

lemma run_handler_alarmed:
  assumes "alarmed ag" "cur_state ag = Some c" "c \<noteq> FS_PAUSED"
  shows "cur_state (run_fsm_handler cfg te ag) = Some FS_ERROR"
proof -
  obtain s where s: "a_fsm ag = Some s" "fs_current s = c" using assms(2) by (auto simp: cur_state_def)
  have "shared_to_agent_state c \<noteq> None" using assms(3) by (cases c) auto
  moreover obtain g where g: "g \<in> set (a_guards ag)" "g_severity g = ''critical''"
    using assms(1) by (auto simp: alarmed_def list_ex_iff)
  moreover have "fs_current s \<noteq> FS_PAUSED" using s assms(3) by simp
  note alarm = agent_critical [OF g this]
  ultimately show ?thesis
    using s by (auto simp: run_fsm_handler_def cur_state_def Let_def split: prod.splits)
      (metis alarm snd_conv)
qed

lemma run_handler_paused: "cur_state ag = Some FS_PAUSED \<Longrightarrow> a_fsm (run_fsm_handler cfg te ag) = a_fsm ag"
  by (auto simp: run_fsm_handler_def cur_state_def)

text \<open>Paused, or past the first step in error: kept by every later phase of an alarmed tick.\<close>

definition settled :: "fsm_state_enum \<Rightarrow> agent \<Rightarrow> bool" where
  "settled c ag \<longleftrightarrow> cur_state ag = Some c \<and> (c = FS_PAUSED \<or> (c = FS_ERROR \<and> alarmed ag))"

lemma settled_cong: "core_of a = core_of b \<Longrightarrow> cur_state a = cur_state b \<Longrightarrow> settled c a = settled c b"
  using alarmed_core [of a b] by (simp add: settled_def)

lemma settled_run: "settled c ag \<Longrightarrow> settled c (run_fsm_handler cfg te ag)"
proof -
  assume s: "settled c ag"
  have al: "alarmed (run_fsm_handler cfg te ag) = alarmed ag" by (rule alarmed_core) simp
  show ?thesis
  proof (cases "c = FS_PAUSED")
    case True
    with s run_handler_paused [of ag cfg te] show ?thesis by (simp add: settled_def cur_state_def)
  next
    case False
    with s al run_handler_alarmed [of ag FS_ERROR cfg te] show ?thesis by (auto simp: settled_def)
  qed
qed

lemma settled_simps [simp]:
  "settled c (set_context k v ag) = settled c ag"
  "settled c (set_fsm_context_flag k b ag) = settled c ag"
  "settled c (append_agent_event te ty r ag) = settled c ag"
  "settled c (record_last_actuation te st r cid f ag) = settled c ag"
  "settled c (ag\<lparr>a_sent := xs\<rparr>) = settled c ag" "settled c (ag\<lparr>a_proposals := ps\<rparr>) = settled c ag"
  "settled c (ag\<lparr>a_bios := bs\<rparr>) = settled c ag"
  by (simp_all add: settled_def alarmed_def cur_state_def set_fsm_context_flag_def set_context_def
      record_last_actuation_def Let_def append_agent_event_def option.map_comp o_def split: sum.splits)

lemma settled_switch: "settled c ag \<Longrightarrow> settled c (switch_to_safe_mode cfg te r ag)"
  by (auto simp: switch_to_safe_mode_def Let_def settled_run split: option.splits)

lemma settled_send: "settled c ag \<Longrightarrow> settled c (send_action cfg te pv ac ag)"
  by (auto simp: send_action_def Let_def settled_switch split: option.splits send_error.splits)

lemma settled_decision: "settled c ag \<Longrightarrow> settled c (make_decision cfg te pv ag)"
  by (auto simp: make_decision_def intro!: foldl_inv settled_send split: list.splits)

lemma settled_bios: "settled c ag \<Longrightarrow> settled c (handle_bios cfg te ag)"
  by (auto simp: handle_bios_def Let_def settled_switch split: option.splits)

lemma settled_evaluate: "settled c ag \<Longrightarrow> settled c (agent_evaluate_proposals cfg te ag)"
  by (auto simp: agent_evaluate_proposals_def settled_switch split: sum.splits)


section \<open>Phases\<close>

lemma core_simps:
  "core_of a = core_of b \<Longrightarrow> a_guards a = a_guards b" "core_of a = core_of b \<Longrightarrow> a_proposals a = a_proposals b"
  "core_of a = core_of b \<Longrightarrow> a_bios a = a_bios b" "core_of a = core_of b \<Longrightarrow> a_errors a = a_errors b"
  by (simp_all add: core_of_def)

lemma sent_record [simp]:
  "ship_name (ag\<lparr>a_sent := xs\<rparr>) = ship_name ag" "ship_name (ag\<lparr>a_proposals := ps\<rparr>) = ship_name ag"
  "ship_name (ag\<lparr>a_bios := bs\<rparr>) = ship_name ag" "ship_name (ag\<lparr>a_tick_id := n\<rparr>) = ship_name ag"
  "ship_name (ag\<lparr>a_errors := n\<rparr>) = ship_name ag"
  by (simp_all add: ship_name_def)

lemma send_action_sent:
  "a_sent (send_action cfg te pv ac ag) =
     a_sent ag @ (if bot_core_send cfg ac = None then [ac] else [])"
  by (auto simp: send_action_def Let_def split: option.splits send_error.splits)

lemma send_action_name [simp]: "ship_name (send_action cfg te pv ac ag) = ship_name ag"
  by (auto simp: send_action_def Let_def split: option.splits send_error.splits)

lemma send_actions_sent:
  "a_sent (foldl (\<lambda>a ac. send_action cfg te pv ac a) ag acs) =
     a_sent ag @ filter (\<lambda>ac. bot_core_send cfg ac = None) acs"
  by (induction acs arbitrary: ag) (simp_all add: send_action_sent)

lemma make_decision_name [simp]: "ship_name (make_decision cfg te pv ag) = ship_name ag"
  by (auto simp: make_decision_def intro!: foldl_frame split: list.splits)

lemma evaluate_name [simp]: "ship_name (agent_evaluate_proposals cfg te ag) = ship_name ag"
  by (simp add: agent_evaluate_proposals_def split: sum.splits)

lemma handle_bios_name [simp]: "ship_name (handle_bios cfg te ag) = ship_name ag"
  by (simp add: handle_bios_def Let_def split: option.splits)

lemma take_reading_name [simp]: "ship_name (take_reading cfg te n sd ag) = ship_name ag"
proof -
  have "ship_name (x\<lparr>a_latest := l, a_world := w\<rparr>) = ship_name x" for x l w by (simp add: ship_name_def)
  then show ?thesis by (simp add: take_reading_def Let_def)
qed

lemma take_reading_frame [simp]:
  "core_of (take_reading cfg te n sd ag) = core_of ag" "a_sent (take_reading cfg te n sd ag) = a_sent ag"
  "cur_state (take_reading cfg te n sd ag) = cur_state ag"
  using set_context_frame [of "''safe_sensors_ok''" "''1''" ag]
  by (simp_all add: take_reading_def Let_def core_of_def cur_state_def set_fsm_context_flag_def)

lemma sensor_loop_frame:
  "core_of (fst (sensor_loop cfg te pv n k ag)) = core_of ag \<and>
   a_sent (fst (sensor_loop cfg te pv n k ag)) = a_sent ag \<and>
   ship_name (fst (sensor_loop cfg te pv n k ag)) = ship_name ag"
proof (induction cfg te pv n k ag rule: sensor_loop.induct)
  case (2 cfg te pv n k ag)
  show ?case
  proof (cases "pv_sensor pv n")
    case (Inr r)
    then show ?thesis
    proof (cases r)
      case (Some sd)
      with Inr 2 [OF Inr Some refl] show ?thesis by (simp add: Let_def)
    qed simp
  qed simp
qed simp

lemma ingest_sensors_frame:
  "a_sent (ingest_sensors cfg te pv ag) = a_sent ag \<and> ship_name (ingest_sensors cfg te pv ag) = ship_name ag \<and>
   a_proposals (ingest_sensors cfg te pv ag) = a_proposals ag \<and> a_bios (ingest_sensors cfg te pv ag) = a_bios ag"
proof -
  note fr = sensor_loop_frame [of cfg te pv 0 SENSOR_ROTATION_READS ag]
  have upd: "ship_name (x\<lparr>a_guards := g, a_world := w, a_view := v\<rparr>) = ship_name x" for x g w v
    by (simp add: ship_name_def)
  show ?thesis using fr upd
    by (auto simp: ingest_sensors_def Let_def core_of_def split: prod.splits)
qed

text \<open>Without a first reading the guards of the previous tick stay in the context.\<close>

lemma ingest_without_reading:
  assumes "\<And>sd. pv_sensor pv 0 \<noteq> Inr (Some sd)"
  shows "core_of (ingest_sensors cfg te pv ag) = core_of ag \<and>
         (cur_state (ingest_sensors cfg te pv ag) = cur_state ag \<or>
          (\<exists>a. core_of a = core_of ag \<and> cur_state a = cur_state ag \<and>
               ingest_sensors cfg te pv ag = switch_to_safe_mode cfg te ''SENSORS_UNAVAILABLE'' a))"
proof (cases "pv_sensor pv 0")
  case (Inl e)
  then have "ingest_sensors cfg te pv ag = switch_to_safe_mode cfg te ''SENSORS_UNAVAILABLE''
      (set_fsm_context_flag ''safe_sensors_ok'' False ag)"
    by (simp add: ingest_sensors_def SENSOR_ROTATION_READS_def eval_nat_numeral)
  then show ?thesis by (metis flag_frame(1,3) switch_frame(1))
next
  case (Inr r)
  with assms have "r = None" by (cases r) auto
  with Inr have "ingest_sensors cfg te pv ag = set_fsm_context_flag ''safe_sensors_ok'' False ag"
    by (simp add: ingest_sensors_def SENSOR_ROTATION_READS_def eval_nat_numeral)
  then show ?thesis by simp
qed

lemma cur_switch:
  assumes "alarmed ag" "cur_state ag = Some c" "c \<noteq> FS_PAUSED"
  shows "\<exists>c'. cur_state (switch_to_safe_mode cfg te r ag) = Some c' \<and> c' \<noteq> FS_PAUSED"
proof -
  obtain s where s: "a_fsm ag = Some s" using assms(2) by (auto simp: cur_state_def)
  then have "\<exists>a. core_of a = core_of ag \<and> cur_state a = Some c \<and>
      switch_to_safe_mode cfg te r ag = run_fsm_handler cfg te a"
    using assms(2) by (simp add: switch_to_safe_mode_def Let_def)
      (metis append_event_frame(1,4) set_context_frame(1,3))
  then obtain a where a: "core_of a = core_of ag" "cur_state a = Some c"
    "switch_to_safe_mode cfg te r ag = run_fsm_handler cfg te a" by blast
  have "alarmed a" using alarmed_core [OF a(1)] assms(1) by simp
  from run_handler_alarmed [OF this a(2) assms(3)] a(3) show ?thesis by simp
qed

lemma tick_alarm:
  assumes "alarmed ag" "cur_state ag = Some c" "c \<noteq> FS_PAUSED"
  shows "settled FS_ERROR (make_decision cfg te pv (agent_evaluate_proposals cfg te
           (handle_fsm cfg te (handle_bios cfg te ag))))"
proof -
  have core: "a_guards (handle_bios cfg te ag) = a_guards ag"
    using core_simps(1) [OF switch_frame(1)] core_simps(1) [OF flag_frame(1)]
    by (auto simp: handle_bios_def Let_def split: option.splits)
  then have al: "alarmed (handle_bios cfg te ag)" using assms(1) by (simp add: alarmed_def)
  have "\<exists>c'. cur_state (handle_bios cfg te ag) = Some c' \<and> c' \<noteq> FS_PAUSED"
  proof (cases "a_bios ag")
    case None
    have "alarmed (set_fsm_context_flag ''safe_bios_ok'' False ag)"
      using assms(1) alarmed_core [OF flag_frame(1)] by simp
    from cur_switch [OF this, of c] None assms(2,3) show ?thesis by (simp add: handle_bios_def)
  next
    case (Some b)
    with assms(2,3) show ?thesis by (auto simp: handle_bios_def Let_def) (auto simp: cur_state_def)
  qed
  then obtain c' where "cur_state (handle_bios cfg te ag) = Some c'" "c' \<noteq> FS_PAUSED" by blast
  from run_handler_alarmed [OF al this]
  have "settled FS_ERROR (handle_fsm cfg te (handle_bios cfg te ag))"
    using al alarmed_core [OF run_handler_frame(1)] by (simp add: settled_def handle_fsm_def)
  then show ?thesis by (intro settled_decision settled_evaluate)
qed

lemma tick_pause:
  "cur_state ag = Some FS_PAUSED \<Longrightarrow>
   settled FS_PAUSED (make_decision cfg te pv (agent_evaluate_proposals cfg te
           (handle_fsm cfg te (handle_bios cfg te ag))))"
  by (intro settled_decision settled_evaluate) (simp add: handle_fsm_def, intro settled_run settled_bios, simp add: settled_def)


section \<open>Properties\<close>

definition demo_bios :: bios_status where
  "demo_bios = \<lparr>b_version = ''1'', b_firmware = ''1'', b_profile_hash = None,
     b_post_results = [\<lparr>dv_id = ''imu'', dv_name = ''imu'', dv_status = DS_OK, dv_message = None\<rparr>],
     b_timestamp = 0\<rparr>"

definition demo_command :: actuator_command where
  "demo_command = \<lparr>ac_command_id = ''c1'', ac_actuator_id = ''m1'', ac_float = Some 1, ac_int = None,
     ac_bool = None, ac_vector = None, ac_unit = U_UNSPECIFIED, ac_type = CT_SET_VELOCITY\<rparr>"

definition demo_proposal :: proposal where
  "demo_proposal = \<lparr>p_id = ''p1'', p_source = ''mind'', p_actions = [demo_command],
     p_justification = ''move'', p_priority = 1, p_confidence = 0, p_type = PT_PLANNING\<rparr>"

definition demo_provider :: provider where
  "demo_provider = \<lparr>pv_bios = Inr demo_bios,
     pv_fsm = Inr \<lparr>fr_ok = True, fr_value = Some boot_snapshot, fr_reason = ''OK'', fr_is_fallback = False\<rparr>,
     pv_proposals = Inr [demo_proposal], pv_sensor = (\<lambda>_. Inr None), pv_send = (\<lambda>_. None)\<rparr>"

definition demo_tick :: tick_env where
  "demo_tick = \<lparr>te_now = 100, te_format = (\<lambda>_. ''t''), te_event = (\<lambda>_. demo_event_env),
     te_fresh = (\<lambda>_ _. ''new''), te_ids = (\<lambda>_. (''c'', ''p'')), te_neural = Inl ''no model'',
     te_clock = demo_clock\<rparr>"

definition demo_config :: agent_config where
  "demo_config = \<lparr>cfg_rules = [], cfg_threshold = 1 / 2, cfg_profile = None, cfg_minimal = False,
     cfg_actuator_ids = [''m1'']\<rparr>"

definition demo_agent :: agent where
  "demo_agent = (new_agent (make_event_store 10 True False))\<lparr>a_fsm := Some boot_snapshot, a_guards := [demo_guard]\<rparr>"

text \<open>
  C10. A critical guard dominates the whole tick: once the readings are in and a critical guard
  is among them, the tick ends with the machine in \<open>ERROR\<close>, whatever the BIOS, the
  proposals, the neural engine and the actuators do afterwards; and a paused machine is still
  paused at the end of the tick.
\<close>

theorem tick_critical_guard:
  assumes "update_context cfg te pv (ag\<lparr>a_tick_id := Suc (a_tick_id ag)\<rparr>) = (ag1, True)"
    and "cur_state ag1 = Some c" and "c = FS_PAUSED \<or> list_ex (\<lambda>g. g_severity g = ''critical'') (a_guards ag1)"
  shows "cur_state (run_tick cfg te pv ag) = Some (if c = FS_PAUSED then FS_PAUSED else FS_ERROR)"
proof -
  have run: "run_tick cfg te pv ag = make_decision cfg te pv (agent_evaluate_proposals cfg te
      (handle_fsm cfg te (handle_bios cfg te ag1)))"
    using assms(1) by (simp add: run_tick_def)
  show ?thesis
  proof (cases "c = FS_PAUSED")
    case True
    with tick_pause [of ag1 cfg te pv] assms(2) run show ?thesis by (simp add: settled_def)
  next
    case False
    with assms(3) have "alarmed ag1" by (simp add: alarmed_def)
    from tick_alarm [OF this assms(2) False, of cfg te pv] run False show ?thesis
      by (simp add: settled_def)
  qed
qed

lemma demo_update_context:
  "update_context demo_config demo_tick demo_provider (demo_agent\<lparr>a_tick_id := Suc (a_tick_id demo_agent)\<rparr>) =
     (set_fsm_context_flag ''safe_sensors_ok'' False (set_fsm_context_flag ''safe_provider_ok'' True
        (demo_agent\<lparr>a_tick_id := 1, a_bios := Some demo_bios, a_proposals := [demo_proposal]\<rparr>)), True)"
  by (simp add: update_context_def update_from_provider_def take_fsm_def take_proposals_def
      ingest_sensors_def SENSOR_ROTATION_READS_def eval_nat_numeral demo_provider_def demo_agent_def new_agent_def)

theorem tick_critical_guard_witness:
  "cur_state (run_tick demo_config demo_tick demo_provider demo_agent) = Some FS_ERROR"
proof -
  let ?ag = "set_fsm_context_flag ''safe_sensors_ok'' False (set_fsm_context_flag ''safe_provider_ok'' True
        (demo_agent\<lparr>a_tick_id := 1, a_bios := Some demo_bios, a_proposals := [demo_proposal]\<rparr>))"
  have "cur_state ?ag = Some FS_BOOTING" "list_ex (\<lambda>g. g_severity g = ''critical'') (a_guards ?ag)"
    by (simp_all add: cur_state_def set_fsm_context_flag_def set_context_def demo_agent_def boot_snapshot_def
        demo_guard_def)
  with tick_critical_guard [OF demo_update_context, of FS_BOOTING] show ?thesis by simp
qed

text \<open>
  Guards outlive their reading: when the first sensor read of a tick fails or is empty, the
  guard list of the previous tick is kept as it is, however old, and a critical guard in it puts
  the machine into \<open>ERROR\<close> again, although the world model would evict the dead track
  on a read.
\<close>

theorem stale_guard_survives:
  assumes "\<forall>sd. pv_sensor pv 0 \<noteq> Inr (Some sd)" and "pv_bios pv = Inr b" and "pv_proposals pv = Inr ps"
    and "cur_state ag = Some c" and "c \<noteq> FS_PAUSED"
    and "list_ex (\<lambda>g. g_severity g = ''critical'') (a_guards ag)"
  shows "cur_state (run_tick cfg te pv ag) = Some FS_ERROR \<and>
         a_guards (fst (update_context cfg te pv ag)) = a_guards ag"
proof -
  have upd: "\<exists>a. update_from_provider pv x = (a, True) \<and> a_guards a = a_guards x \<and> cur_state a = Some c"
    if "cur_state x = Some c" for x
    using that assms(2,3)
    by (auto simp: update_from_provider_def take_fsm_def take_proposals_def cur_state_def)
  have main: "\<exists>a c'. update_context cfg te pv x = (a, True) \<and> a_guards a = a_guards x \<and>
      cur_state a = Some c' \<and> c' \<noteq> FS_PAUSED"
    if x: "cur_state x = Some c" "alarmed x" for x
  proof -
    obtain y where y: "update_from_provider pv x = (y, True)" "a_guards y = a_guards x" "cur_state y = Some c"
      using upd [OF x(1)] by blast
    let ?z = "set_fsm_context_flag ''safe_provider_ok'' True y"
    have z: "a_guards ?z = a_guards x" "cur_state ?z = Some c"
      using core_simps(1) [OF flag_frame(1)] y by simp_all
    have pv: "\<And>sd. pv_sensor pv 0 \<noteq> Inr (Some sd)" using assms(1) by blast
    note ing = ingest_without_reading [OF pv, of cfg te ?z]
    have "\<exists>c'. cur_state (ingest_sensors cfg te pv ?z) = Some c' \<and> c' \<noteq> FS_PAUSED"
    proof (cases "cur_state (ingest_sensors cfg te pv ?z) = cur_state ?z")
      case True
      with z assms(5) show ?thesis by simp
    next
      case False
      with ing obtain a where a: "core_of a = core_of ?z" "cur_state a = Some c"
        "ingest_sensors cfg te pv ?z = switch_to_safe_mode cfg te ''SENSORS_UNAVAILABLE'' a"
        using z by auto
      have "alarmed a" using core_simps(1) [OF a(1)] z x(2) by (simp add: alarmed_def)
      from cur_switch [OF this a(2) assms(5)] a(3) show ?thesis by simp
    qed
    moreover have "a_guards (ingest_sensors cfg te pv ?z) = a_guards x"
      using core_simps(1) [of _ ?z] ing z by metis
    ultimately show ?thesis using y(1) by (auto simp: update_context_def)
  qed
  let ?t = "ag\<lparr>a_tick_id := Suc (a_tick_id ag)\<rparr>"
  have t: "cur_state ?t = Some c" "alarmed ?t" "alarmed ag"
    using assms(4,6) by (simp_all add: cur_state_def alarmed_def)
  obtain a c' where a: "update_context cfg te pv ?t = (a, True)" "a_guards a = a_guards ?t"
    "cur_state a = Some c'" "c' \<noteq> FS_PAUSED" using main [OF t(1,2)] by blast
  have "alarmed a" using a(2) t(2) by (simp add: alarmed_def)
  from tick_alarm [OF this a(3,4), of cfg te pv] a(1)
  have "cur_state (run_tick cfg te pv ag) = Some FS_ERROR" by (simp add: run_tick_def settled_def)
  moreover have "a_guards (fst (update_context cfg te pv ag)) = a_guards ag"
    using main [OF assms(4) t(3)] by auto
  ultimately show ?thesis by simp
qed

theorem stale_guard_survives_witness:
  "cur_state (run_tick demo_config demo_tick demo_provider demo_agent) = Some FS_ERROR \<and>
   a_guards (fst (update_context demo_config demo_tick demo_provider demo_agent)) = a_guards demo_agent"
  by (rule stale_guard_survives [of _ demo_bios "[demo_proposal]" _ FS_BOOTING])
    (simp_all add: demo_provider_def demo_agent_def cur_state_def boot_snapshot_def demo_guard_def)

text \<open>
  The decision sends the actions of the first proposal of the context, all of them, in order
  and once, to the provider, except those whose actuator the bot core does not know: neither a
  refused nor a failing action stops the following ones. In particular, when the neural engine
  raises, the proposals of the provider are still in the context and the first of them is acted on
  without any check of its confidence.
\<close>

theorem decision_sends_first_proposal:
  assumes "ship_name ag \<noteq> ''SAFE_MODE''" and "te_neural te = Inl err" and "a_proposals ag = p # ps"
  shows "a_sent (make_decision cfg te pv (agent_evaluate_proposals cfg te ag)) =
           a_sent ag @ filter (\<lambda>ac. cfg_minimal cfg \<or> ac_actuator_id ac \<in> set (cfg_actuator_ids cfg)) (p_actions p)"
proof -
  let ?a = "agent_evaluate_proposals cfg te ag"
  have "ship_name ?a \<noteq> ''SAFE_MODE''" using assms(1) by simp
  moreover have "a_proposals ?a = p # ps" "a_sent ?a = a_sent ag"
    using assms(2,3) core_simps(2) [OF switch_frame(1)] by (simp_all add: agent_evaluate_proposals_def)
  moreover have "filter (\<lambda>ac. bot_core_send cfg ac = None) acs =
      filter (\<lambda>ac. cfg_minimal cfg \<or> ac_actuator_id ac \<in> set (cfg_actuator_ids cfg)) acs" for acs
    by (rule filter_cong) (auto simp: bot_core_send_def)
  ultimately show ?thesis
    by (simp add: make_decision_def safe_mode_name send_actions_sent)
qed

theorem decision_sends_first_proposal_witness:
  "a_sent (make_decision demo_config demo_tick demo_provider
      (agent_evaluate_proposals demo_config demo_tick (demo_agent\<lparr>a_proposals := [demo_proposal]\<rparr>))) = [demo_command] \<and>
   p_confidence demo_proposal < cfg_threshold demo_config"
  using decision_sends_first_proposal [of "demo_agent\<lparr>a_proposals := [demo_proposal]\<rparr>" demo_tick "''no model''"
      demo_proposal "[]" demo_config demo_provider]
  by (simp add: demo_agent_def demo_tick_def demo_proposal_def demo_config_def demo_command_def new_agent_def
      ship_name_def boot_snapshot_def dict_getd_def)

definition offers_safe_mode :: "provider \<Rightarrow> bool" where
  "offers_safe_mode pv =
     (case pv_fsm pv of Inl e \<Rightarrow> False
      | Inr r \<Rightarrow> opt_test (fr_value r) (\<lambda>s. dict_getd (fs_context s) ''ship_state_name'' [] = ''SAFE_MODE''))"

text \<open>
  Nothing the agent does blocks its decisions: if no snapshot the provider hands out carries
  the ship state \<open>SAFE_MODE\<close> in its context, then after any number of ticks, with any
  failures and any number of requests for the safe mode, the agent is not in safe mode.
\<close>

theorem safe_mode_request_never_blocks:
  assumes "list_all (\<lambda>x. \<not> offers_safe_mode (snd x)) xs"
  shows "\<not> is_fsm_in_safe_mode (foldl (\<lambda>ag x. run_tick cfg (fst x) (snd x) ag) (new_agent es) xs)"
proof -
  have "ship_name (foldl (\<lambda>ag x. run_tick cfg (fst x) (snd x) ag) (new_agent es) xs) \<noteq> ''SAFE_MODE''"
  proof (rule foldl_inv)
    show "ship_name (new_agent es) \<noteq> ''SAFE_MODE''" by (simp add: new_agent_def ship_name_def)
  next
    fix ag x assume x: "x \<in> set xs" and ag: "ship_name ag \<noteq> ''SAFE_MODE''"
    obtain te pv where p: "x = (te, pv)" by (cases x)
    let ?t = "ag\<lparr>a_tick_id := Suc (a_tick_id ag)\<rparr>"
    have take: "ship_name (fst (take_fsm pv a)) \<noteq> ''SAFE_MODE''" if "ship_name a \<noteq> ''SAFE_MODE''" for a
    proof (cases "a_fsm a")
      case None
      have "\<not> offers_safe_mode pv" using assms x p by (auto simp: list_all_iff)
      then show ?thesis
        using that None by (auto simp: take_fsm_def ship_name_def offers_safe_mode_def split: sum.splits option.splits)
    qed (use that in \<open>simp add: take_fsm_def\<close>)
    have props: "ship_name (fst (take_proposals pv a)) = ship_name a" for a
      by (simp add: take_proposals_def split: sum.splits)
    have upd: "ship_name (fst (update_from_provider pv ?t)) \<noteq> ''SAFE_MODE''"
      using take [of "?t\<lparr>a_bios := b\<rparr>" for b] props ag
      by (auto simp: update_from_provider_def split: sum.splits prod.splits) (metis fst_conv)+
    have ctx: "ship_name (fst (update_context cfg te pv ?t)) \<noteq> ''SAFE_MODE''"
      using upd ingest_sensors_frame
      by (auto simp: update_context_def split: prod.splits)
    show "ship_name (run_tick cfg (fst x) (snd x) ag) \<noteq> ''SAFE_MODE''"
      using ctx by (auto simp: p run_tick_def handle_fsm_def split: prod.splits)
  qed
  then show ?thesis by (simp add: safe_mode_name)
qed

theorem safe_mode_request_never_blocks_witness:
  "\<not> is_fsm_in_safe_mode (foldl (\<lambda>ag x. run_tick demo_config (fst x) (snd x) ag)
      (new_agent (make_event_store 10 True False)) (replicate 5 (demo_tick, demo_provider)))"
  by (rule safe_mode_request_never_blocks)
    (simp add: list_all_iff offers_safe_mode_def demo_provider_def boot_snapshot_def dict_getd_def)

text \<open>
  With the state store, every tick whose provider answers stores one snapshot: its state is
  the one the rules choose, and its version is exactly one above the stored one, also when the
  state did not change.
\<close>

theorem async_tick_stores_choice:
  assumes "pv_bios pv = Inr b" and "pv_proposals pv = Inr ps" and "st_snap st = Some d"
  shows "(let a = handle_bios cfg te (fst (update_context_without_fsm cfg te pv
                    (ag\<lparr>a_tick_id := Suc (a_tick_id ag)\<rparr>)));
              g = snd (select_guard_event (cfg_rules cfg) (te_now te) (a_guards a) (Some (a_world a)))
          in opt_test (st_snap (snd (run_tick_async cfg te pv ag st))) (\<lambda>d'.
               sn_state d' = fst (choose_transition g (is_bios_ok (a_bios a))
                                    (has_valid_proposals (a_proposals a)) (sn_state d)) \<and>
               sn_version d' = sn_version d + 1))"
proof -
  obtain ag1 where ag1: "update_context_without_fsm cfg te pv (ag\<lparr>a_tick_id := Suc (a_tick_id ag)\<rparr>) = (ag1, True)"
    using assms(1,2) by (simp add: update_context_without_fsm_def update_from_provider_without_fsm_def take_proposals_def)
  let ?ag = "handle_bios cfg te ag1"
  obtain w g where wg: "select_guard_event (cfg_rules cfg) (te_now te) (a_guards ?ag) (Some (a_world ?ag)) = (w, g)"
    by (cases "select_guard_event (cfg_rules cfg) (te_now te) (a_guards ?ag) (Some (a_world ?ag))")
  let ?ok = "is_bios_ok (a_bios ?ag)" and ?props = "has_valid_proposals (a_proposals ?ag)"
  let ?u = "process_fsm_dto (te_clock te) g ?ok ?props d"
  let ?st = "fst (store_get st)"
  have snap: "st_snap ?st = Some d" using assms(3) by (simp add: store_get_def)
  obtain x where x: "snd (store_set (te_clock te) (Some ?u) False ?st) = Inr x"
    by (auto simp: store_set_def Let_def)
  have u: "sn_version ?u \<le> sn_version d + 1" "sn_state ?u = fst (choose_transition g ?ok ?props (sn_state d))"
    by (auto simp: process_fsm_dto_def next_snapshot_def mk_snapshot_def snapshot_post_init_def Let_def
        split: prod.splits)
  have "sn_version x = sn_version d + 1" using store_set_version [OF x] snap u(1) by simp
  moreover have "sn_state x = sn_state ?u"
    using x by (auto simp: store_set_def Let_def assign_version_def snapshot_post_init_def split: option.splits if_splits)
  moreover have "st_snap (fst (store_set (te_clock te) (Some ?u) False ?st)) = Some x"
    using store_set_snap [of "te_clock te" "Some ?u" False ?st] x by simp
  moreover have "snd (run_tick_async cfg te pv ag st) = fst (store_set (te_clock te) (Some ?u) False ?st)"
    using ag1 wg x assms(3)
    by (simp add: run_tick_async_def handle_fsm_with_state_store_def store_get_def Let_def split: prod.splits sum.splits)
  ultimately show ?thesis using u(2) ag1 wg by (simp add: Let_def)
qed

theorem async_tick_stores_choice_witness:
  "opt_test (st_snap (snd (run_tick_async demo_config demo_tick demo_provider demo_agent
        (create_initialized_store demo_clock)))) (\<lambda>d'. sn_version d' = 1)"
proof -
  have "pv_bios demo_provider = Inr demo_bios" "pv_proposals demo_provider = Inr [demo_proposal]"
    "st_snap (create_initialized_store demo_clock) = Some (initial_snapshot demo_clock)"
    by (simp_all add: demo_provider_def create_initialized_store_def create_store_def)
  from async_tick_stores_choice [OF this, of demo_config demo_tick demo_agent]
  have "opt_test (st_snap (snd (run_tick_async demo_config demo_tick demo_provider demo_agent
      (create_initialized_store demo_clock)))) (\<lambda>d'. sn_version d' = sn_version (initial_snapshot demo_clock) + 1)"
    unfolding Let_def opt_test_iff by blast
  then show ?thesis by (simp add: initial_snapshot_def mk_snapshot_def snapshot_post_init_def)
qed

end
