(* ===== verification/Sim_Mcqpu.thy ===== *)
theory Sim_Mcqpu
  imports Prelude
begin

text \<open>
  Utilisation of the virtual on-board computer
  (\<open>src/qiki/services/q_sim_service/core/mcqpu_telemetry.py\<close>): the demand targets and the
  exponential smoothing towards them.
\<close>

record mcqpu_config =
  mq_cpu_capacity :: real
  mq_ram_capacity :: real
  mq_tau_cpu :: real
  mq_tau_ram :: real
  mq_base_cpu :: real
  mq_motion_cpu :: real
  mq_speed_max :: real
  mq_radar_cpu :: real
  mq_queue_cpu_max :: real
  mq_sensor_queue :: real
  mq_actuator_queue :: real
  mq_transponder_cpu :: real
  mq_base_ram :: real
  mq_sensor_buffer_max :: real
  mq_sensor_queue_ram :: real
  mq_actuator_buffer_max :: real
  mq_actuator_queue_ram :: real
  mq_radar_buffer :: real

definition mcqpu_default :: mcqpu_config where
  "mcqpu_default =
     \<lparr>mq_cpu_capacity = 100, mq_ram_capacity = 100, mq_tau_cpu = 2, mq_tau_ram = 4,
      mq_base_cpu = 8, mq_motion_cpu = 28, mq_speed_max = 1, mq_radar_cpu = 18, mq_queue_cpu_max = 18,
      mq_sensor_queue = 0.9, mq_actuator_queue = 0.6, mq_transponder_cpu = 3, mq_base_ram = 22,
      mq_sensor_buffer_max = 35, mq_sensor_queue_ram = 1.2, mq_actuator_buffer_max = 20,
      mq_actuator_queue_ram = 1, mq_radar_buffer = 10\<rparr>"

record mcqpu =
  mq_cpu_pct :: real
  mq_mem_pct :: real
  mq_cpu_target :: real
  mq_mem_target :: real

definition ema_alpha :: "real \<Rightarrow> real \<Rightarrow> real" where
  "ema_alpha dt tau = (if tau \<le> 0 then 1 else if dt \<le> 0 then 0 else 1 - exp (- dt / tau))"

definition cpu_demand_pct :: "mcqpu_config \<Rightarrow> real \<Rightarrow> bool \<Rightarrow> int \<Rightarrow> int \<Rightarrow> bool \<Rightarrow> real" where
  "cpu_demand_pct c speed radar sensor_queue actuator_queue transponder =
     (let speed_norm = clamp 0 1 (\<bar>speed\<bar> / mq_speed_max c);
          motion_cu = mq_motion_cpu c * speed_norm;
          radar_cu = (if radar then mq_radar_cpu c else 0);
          queue_load = mq_sensor_queue c * of_int sensor_queue + mq_actuator_queue c * of_int actuator_queue;
          queue_cu = min (mq_queue_cpu_max c) queue_load;
          xpdr_cu = (if transponder then mq_transponder_cpu c else 0);
          demand = mq_base_cpu c + motion_cu + radar_cu + queue_cu + xpdr_cu
      in clamp 0 100 ((demand / mq_cpu_capacity c) * 100))"

definition ram_demand_pct :: "mcqpu_config \<Rightarrow> bool \<Rightarrow> int \<Rightarrow> int \<Rightarrow> real" where
  "ram_demand_pct c radar sensor_queue actuator_queue =
     (let sensor_buf = min (mq_sensor_buffer_max c) (mq_sensor_queue_ram c * of_int sensor_queue);
          act_buf = min (mq_actuator_buffer_max c) (mq_actuator_queue_ram c * of_int actuator_queue);
          radar_buf = (if radar then mq_radar_buffer c else 0);
          demand = mq_base_ram c + sensor_buf + act_buf + radar_buf
      in clamp 0 100 ((demand / mq_ram_capacity c) * 100))"

definition mcqpu_init :: "mcqpu_config \<Rightarrow> mcqpu" where
  "mcqpu_init c =
     (let cpu = cpu_demand_pct c 0 False 0 0 False; mem = ram_demand_pct c False 0 0
      in \<lparr>mq_cpu_pct = cpu, mq_mem_pct = mem, mq_cpu_target = cpu, mq_mem_target = mem\<rparr>)"

definition mcqpu_update ::
  "mcqpu_config \<Rightarrow> real \<Rightarrow> real \<Rightarrow> bool \<Rightarrow> int \<Rightarrow> int \<Rightarrow> bool \<Rightarrow> mcqpu \<Rightarrow> mcqpu" where
  "mcqpu_update c dt speed radar sensor_queue actuator_queue transponder q =
     (let cpu = cpu_demand_pct c speed radar sensor_queue actuator_queue transponder;
          mem = ram_demand_pct c radar sensor_queue actuator_queue
      in \<lparr>mq_cpu_pct = clamp 0 100 (mq_cpu_pct q + ema_alpha dt (mq_tau_cpu c) * (cpu - mq_cpu_pct q)),
          mq_mem_pct = clamp 0 100 (mq_mem_pct q + ema_alpha dt (mq_tau_ram c) * (mem - mq_mem_pct q)),
          mq_cpu_target = cpu, mq_mem_target = mem\<rparr>)"

definition mcqpu_ok :: "mcqpu \<Rightarrow> bool" where
  "mcqpu_ok q \<longleftrightarrow> 0 \<le> mq_cpu_pct q \<and> mq_cpu_pct q \<le> 100 \<and> 0 \<le> mq_mem_pct q \<and> mq_mem_pct q \<le> 100"

lemma ema_alpha_range: "0 \<le> ema_alpha dt tau \<and> ema_alpha dt tau \<le> 1"
  by (auto simp: ema_alpha_def divide_le_0_iff)

lemma mcqpu_init_ok [simp]: "mcqpu_ok (mcqpu_init c)"
  by (simp add: mcqpu_ok_def mcqpu_init_def cpu_demand_pct_def ram_demand_pct_def Let_def)

lemma mcqpu_update_ok [simp]: "mcqpu_ok (mcqpu_update c dt sp r sq aq x q)"
  by (simp add: mcqpu_ok_def mcqpu_update_def Let_def)

text \<open>Smoothing moves the value towards its target and never past it.\<close>

lemma ema_between:
  assumes "0 \<le> a" "a \<le> (1::real)" "0 \<le> x" "x \<le> 100" "0 \<le> t" "t \<le> 100"
  shows "min x t \<le> clamp 0 100 (x + a * (t - x)) \<and> clamp 0 100 (x + a * (t - x)) \<le> max x t"
proof -
  have le: "min x t \<le> x + a * (t - x)" and ge: "x + a * (t - x) \<le> max x t"
  proof -
    have "x + a * (t - x) = (1 - a) * x + a * t" by (simp add: algebra_simps)
    moreover have "(1 - a) * min x t + a * min x t \<le> (1 - a) * x + a * t"
      using assms by (intro add_mono mult_left_mono) auto
    moreover have "(1 - a) * x + a * t \<le> (1 - a) * max x t + a * max x t"
      using assms by (intro add_mono mult_left_mono) auto
    moreover have "(1 - a) * y + a * y = y" for y by (simp add: algebra_simps)
    ultimately show "min x t \<le> x + a * (t - x)" "x + a * (t - x) \<le> max x t" by simp_all
  qed
  have "0 \<le> min x t" "max x t \<le> 100" using assms by auto
  with le ge have "clamp 0 100 (x + a * (t - x)) = x + a * (t - x)" by (intro clamp_id) linarith+
  with le ge show ?thesis by simp
qed

end
