(* ===== verification/Sim_Rcs.thy ===== *)
theory Sim_Rcs
  imports Radar_Types Py_Strings
begin

text \<open>
  The reaction control system of the simulator
  (\<open>src/qiki/services/q_sim_service/core/world_model.py\<close>): the choice of a thruster group
  for each axis, axis commands, one tick of firing and the throttling asked for by the power
  distribution. Vectors are the record \<open>vec3\<close>; a thruster is its validated configuration.
\<close>

section \<open>State\<close>

record thruster =
  tc_index :: int
  tc_cluster :: string
  tc_position :: vec3
  tc_direction :: vec3
  tc_f_max :: real

record rcs_params =
  rp_enabled :: bool
  rp_thrusters :: "thruster list"
  rp_groups :: "(string, nat list) dict"
  rp_max_proj :: "(string, real) dict"
  rp_isp :: real
  rp_power_w :: real
  rp_window :: real

record thruster_state =
  ts_index :: int
  ts_cluster :: string
  ts_duty_pct :: real
  ts_valve_open :: bool
  ts_f_max :: real
  ts_reason :: "string option" \<comment> \<open>set, with status \<open>throttled\<close>, by throttling\<close>

record rcs =
  rc_axis :: "string option"
  rc_pct :: real
  rc_time_left :: real
  rc_fuel_rate :: real
  rc_propellant :: real
  rc_active :: bool
  rc_throttled :: bool
  rc_shown_propellant :: real
  rc_thrusters :: "(nat, thruster_state) dict"
  rc_net_force :: vec3
  rc_net_torque :: vec3
  rc_last_axis :: "string option"

section \<open>Vectors\<close>

definition vzero :: vec3 where "vzero = \<lparr>vx = 0, vy = 0, vz = 0\<rparr>"

definition vplus :: "vec3 \<Rightarrow> vec3 \<Rightarrow> vec3" where
  "vplus a b = \<lparr>vx = vx a + vx b, vy = vy a + vy b, vz = vz a + vz b\<rparr>"

definition vscale :: "vec3 \<Rightarrow> real \<Rightarrow> vec3" where
  "vscale a k = \<lparr>vx = vx a * k, vy = vy a * k, vz = vz a * k\<rparr>"

definition vdot :: "vec3 \<Rightarrow> vec3 \<Rightarrow> real" where
  "vdot a b = vx a * vx b + vy a * vy b + vz a * vz b"

definition vnorm :: "vec3 \<Rightarrow> real" where
  "vnorm v = sqrt (vx v * vx v + vy v * vy v + vz v * vz v)"

definition vcross :: "vec3 \<Rightarrow> vec3 \<Rightarrow> vec3" where
  "vcross a b = \<lparr>vx = vy a * vz b - vz a * vy b, vy = vz a * vx b - vx a * vz b,
                 vz = vx a * vy b - vy a * vx b\<rparr>"

section \<open>Thruster groups\<close>

text \<open>\<open>itertools.combinations\<close>, in its lexicographic order.\<close>

fun combos :: "nat \<Rightarrow> 'a list \<Rightarrow> 'a list list" where
  "combos 0 xs = [[]]"
| "combos (Suc k) [] = []"
| "combos (Suc k) (x # xs) = map (\<lambda>ys. x # ys) (combos k xs) @ combos (Suc k) xs"

definition rcs_axes :: "(string, vec3) dict" where
  "rcs_axes =
     [(''forward'', \<lparr>vx = 1, vy = 0, vz = 0\<rparr>), (''aft'', \<lparr>vx = -1, vy = 0, vz = 0\<rparr>),
      (''port'', \<lparr>vx = 0, vy = 1, vz = 0\<rparr>), (''starboard'', \<lparr>vx = 0, vy = -1, vz = 0\<rparr>),
      (''up'', \<lparr>vx = 0, vy = 0, vz = 1\<rparr>), (''down'', \<lparr>vx = 0, vy = 0, vz = -1\<rparr>)]"

definition max_force :: "thruster \<Rightarrow> vec3" where
  "max_force t = vscale (tc_direction t) (tc_f_max t)"

definition max_torque :: "thruster \<Rightarrow> vec3" where
  "max_torque t = vcross (tc_position t) (max_force t)"

type_synonym candidate = "nat list \<times> vec3 \<times> vec3"

definition rcs_candidates :: "thruster list \<Rightarrow> candidate list" where
  "rcs_candidates ths =
     concat (map (\<lambda>k. map (\<lambda>combo.
         (combo, foldl (\<lambda>a i. vplus a (max_force (ths ! i))) vzero combo,
          foldl (\<lambda>a i. vplus a (max_torque (ths ! i))) vzero combo))
       (combos k [0..<length ths])) [2, 4])"

definition group_score :: "real \<Rightarrow> vec3 \<Rightarrow> candidate \<Rightarrow> real" where
  "group_score tol axis c =
     (case c of (combo, net_f, net_tau) \<Rightarrow>
        let proj = vdot net_f axis;
            lateral = \<lparr>vx = vx net_f - proj * vx axis, vy = vy net_f - proj * vy axis,
                       vz = vz net_f - proj * vz axis\<rparr>;
            over = max 0 (vnorm net_tau - tol)
        in proj - 0.05 * vnorm lateral - 0.5 * over)"

text \<open>The loop over the candidates; the best score starts at -1e18.\<close>

fun best_group_loop :: "real \<Rightarrow> vec3 \<Rightarrow> real \<Rightarrow> (nat list \<times> real) option \<Rightarrow> candidate list \<Rightarrow> (nat list \<times> real) option" where
  "best_group_loop tol axis best_score best [] = best"
| "best_group_loop tol axis best_score best (c # cs) =
     (let proj = vdot (fst (snd c)) axis
      in if proj \<le> 0 then best_group_loop tol axis best_score best cs
         else let score = group_score tol axis c
              in if score > best_score
                 then best_group_loop tol axis score (Some (fst c, proj)) cs
                 else best_group_loop tol axis best_score best cs)"

definition axis_group :: "real \<Rightarrow> candidate list \<Rightarrow> vec3 \<Rightarrow> (nat list \<times> real) option" where
  "axis_group tol cands axis = best_group_loop tol axis (- (10 ^ 18)) None cands"

definition precompute_axis_groups :: "real \<Rightarrow> rcs_params \<Rightarrow> rcs_params" where
  "precompute_axis_groups tol p =
     (if rp_thrusters p = [] then p\<lparr>rp_groups := [], rp_max_proj := []\<rparr>
      else
        let cands = rcs_candidates (rp_thrusters p);
            found = List.map_filter (\<lambda>(name, axis). map_option (\<lambda>g. (name, g)) (axis_group tol cands axis)) rcs_axes
        in p\<lparr>rp_groups := map (\<lambda>(name, g). (name, fst g)) found,
             rp_max_proj := map (\<lambda>(name, g). (name, snd g)) found\<rparr>)"

section \<open>Commands\<close>

definition rcs_axis_names :: "string list" where
  "rcs_axis_names = [''forward'', ''aft'', ''port'', ''starboard'', ''up'', ''down'']"

definition stop_rcs :: "rcs \<Rightarrow> rcs" where
  "stop_rcs r = r\<lparr>rc_axis := None, rc_pct := 0, rc_time_left := 0\<rparr>"

definition set_rcs_command :: "rcs_params \<Rightarrow> string option \<Rightarrow> real \<Rightarrow> real \<Rightarrow> rcs \<Rightarrow> rcs \<times> bool" where
  "set_rcs_command p axis pct duration_s r =
     (if \<not> rp_enabled p then (r, False)
      else case axis of
             None \<Rightarrow> (stop_rcs r, True)
           | Some a \<Rightarrow>
               let axis_norm = py_lower (py_strip a)
               in if axis_norm \<notin> set rcs_axis_names then (r, False)
                  else let pct_f = clamp 0 100 pct
                       in if duration_s \<le> 0 \<or> pct_f \<le> 0 then (stop_rcs r, True)
                          else (r\<lparr>rc_axis := Some axis_norm, rc_pct := pct_f,
                                  rc_time_left := max 0 duration_s\<rparr>, True))"

section \<open>One tick\<close>

definition reset_exposed :: "rcs \<Rightarrow> rcs" where
  "reset_exposed r =
     r\<lparr>rc_active := False, rc_throttled := False, rc_thrusters := [], rc_net_force := vzero,
       rc_net_torque := vzero, rc_last_axis := None, rc_shown_propellant := rc_propellant r\<rparr>"

text \<open>Averages over the group: force, torque and the sum of the thrust magnitudes.\<close>

definition group_force :: "thruster list \<Rightarrow> real \<Rightarrow> nat \<Rightarrow> vec3" where
  "group_force ths duty i = vscale (vscale (tc_direction (ths ! i)) (tc_f_max (ths ! i))) duty"

definition group_sums :: "thruster list \<Rightarrow> real \<Rightarrow> nat list \<Rightarrow> vec3 \<times> vec3 \<times> real" where
  "group_sums ths duty grp =
     foldl (\<lambda>(f_avg, tau_avg, mag) i.
              let f = group_force ths duty i
              in (vplus f_avg f, vplus tau_avg (vcross (tc_position (ths ! i)) f), mag + vnorm f))
       (vzero, vzero, 0) grp"

definition valve_phase :: "real \<Rightarrow> real \<Rightarrow> nat \<Rightarrow> real" where
  "valve_phase window sim_time i =
     (let w = max 0 window;
          phase = (if w \<le> 1 / 1000000 then 0 else fmod_py sim_time w / w)
      in fmod_py (phase + real i * 0.07) 1)"

definition thruster_row :: "thruster \<Rightarrow> real \<Rightarrow> bool \<Rightarrow> thruster_state" where
  "thruster_row t duty opened =
     \<lparr>ts_index = tc_index t, ts_cluster = tc_cluster t, ts_duty_pct = duty * 100, ts_valve_open = opened,
      ts_f_max = tc_f_max t, ts_reason = None\<rparr>"

text \<open>The count-down is rounded: what is left of 1.0 s after ten ticks of 0.1 s is not 0.\<close>

definition decrement_time :: "real \<Rightarrow> rcs \<Rightarrow> rcs" where
  "decrement_time dt_eff r =
     (if rc_time_left r > 0 then
        let r1 = r\<lparr>rc_time_left := max 0 (round_double (rc_time_left r - dt_eff))\<rparr>
        in if rc_time_left r1 \<le> 0 then r1\<lparr>rc_pct := 0, rc_fuel_rate := 0\<rparr> else r1
      else r)"

text \<open>
  Propellant use: the last tick of an empty tank scales the duties by what was left, stops the
  command and leaves nothing.
\<close>

definition burn :: "real \<Rightarrow> rcs \<Rightarrow> rcs \<times> real" where
  "burn m_used r =
     (if m_used > 0 \<and> m_used \<ge> rc_propellant r
      then (r\<lparr>rc_propellant := 0, rc_pct := 0\<rparr>, clamp 0 1 (rc_propellant r / m_used))
      else if m_used > 0 then (r\<lparr>rc_propellant := rc_propellant r - m_used\<rparr>, 1)
      else (r, 1))"

definition expose_firing ::
  "thruster list \<Rightarrow> string \<Rightarrow> nat list \<Rightarrow> vec3 \<Rightarrow> vec3 \<Rightarrow> real \<Rightarrow> (nat \<Rightarrow> bool) \<Rightarrow> rcs \<Rightarrow> rcs" where
  "expose_firing ths axis grp net_f net_tau duty opened r =
     r\<lparr>rc_active := True, rc_last_axis := Some axis, rc_net_force := net_f, rc_net_torque := net_tau,
       rc_shown_propellant := rc_propellant r,
       rc_thrusters := foldl (\<lambda>m i. dict_set m i (thruster_row (ths ! i) duty (opened i))) [] grp\<rparr>"

text \<open>The part of the tick after the guards: a command, an axis, its group and the time to fire.\<close>

definition rcs_fire :: "rcs_params \<Rightarrow> real \<Rightarrow> real \<Rightarrow> string \<Rightarrow> nat list \<Rightarrow> rcs \<Rightarrow> rcs \<times> real" where
  "rcs_fire p sim_time dt_eff axis grp r =
     (let cmd_pct = clamp 0 100 (rc_pct r);
          duty = cmd_pct / 100;
          (net_f, net_tau, f_total) = group_sums (rp_thrusters p) duty grp;
          mdot = f_total / (max (1 / 1000000) (rp_isp p) * 9.80665);
          m_used = mdot * dt_eff;
          r1 = r\<lparr>rc_fuel_rate := max 0 (mdot * 1000)\<rparr>
      in if m_used > 0 \<and> rc_propellant r1 \<le> 0
         then (r1\<lparr>rc_propellant := 0, rc_pct := 0, rc_fuel_rate := 0\<rparr>, 0)
         else
           let (r2, ratio) = burn m_used r1;
               opened = (\<lambda>i. valve_phase (rp_window p) sim_time i < duty \<and> ratio > 0);
               rcs_w = rp_power_w p * (cmd_pct / 100) *
                         (real (length (filter opened grp)) / real (length grp))
           in (decrement_time dt_eff
                 (expose_firing (rp_thrusters p) axis grp net_f net_tau (duty * ratio) opened r2),
               max 0 rcs_w))"

definition rcs_step :: "rcs_params \<Rightarrow> real \<Rightarrow> real \<Rightarrow> rcs \<Rightarrow> rcs \<times> real" where
  "rcs_step p sim_time delta_time r0 =
     (let r = reset_exposed r0
      in if \<not> rp_enabled p then (r, 0)
         else if rp_thrusters p = [] \<or> rp_groups p = [] then (r, 0)
         else case rc_axis r of
                None \<Rightarrow> (r, 0)
              | Some axis \<Rightarrow>
                  if axis = [] \<or> rc_pct r \<le> 0 then (r, 0)
                  else
                    let dt = max 0 delta_time
                    in if dt \<le> 0 then (r, 0)
                       else
                         let dt_eff = (if rc_time_left r > 0 then min dt (rc_time_left r) else dt)
                         in case dict_get (rp_groups p) axis of
                              None \<Rightarrow> (r, 0)
                            | Some grp \<Rightarrow>
                                if grp = [] \<or> dict_getd (rp_max_proj p) axis 0 \<le> 0 then (r, 0)
                                else rcs_fire p sim_time dt_eff axis grp r)"

definition apply_throttle_ratio :: "real \<Rightarrow> string \<Rightarrow> rcs \<Rightarrow> rcs" where
  "apply_throttle_ratio ratio reason r =
     (let q = clamp 0 1 ratio
      in if q \<ge> 0.999 then r
         else r\<lparr>rc_throttled := True,
                rc_thrusters := map (\<lambda>(i, t). (i, t\<lparr>ts_duty_pct := ts_duty_pct t * q,
                    ts_valve_open := (if ts_duty_pct t * q \<le> 0 then False else ts_valve_open t),
                    ts_reason := Some reason\<rparr>)) (rc_thrusters r)\<rparr>)"


section \<open>Lemmas\<close>

lemma expose_firing_simps [simp]:
  "rc_active (expose_firing ths a g f t d op r) = True" "rc_pct (expose_firing ths a g f t d op r) = rc_pct r"
  "rc_time_left (expose_firing ths a g f t d op r) = rc_time_left r"
  "rc_propellant (expose_firing ths a g f t d op r) = rc_propellant r"
  by (simp_all add: expose_firing_def)

lemma vnorm_ge_0 [simp]: "0 \<le> vnorm v"
  by (simp add: vnorm_def)

lemma group_sums_mag: "0 \<le> snd (snd (group_sums ths duty grp))"
proof -
  have "0 \<le> snd (snd (foldl (\<lambda>(f_avg, tau_avg, mag) i.
      let f = group_force ths duty i
      in (vplus f_avg f, vplus tau_avg (vcross (tc_position (ths ! i)) f), mag + vnorm f)) x grp))"
    if "0 \<le> snd (snd x)" for x :: "vec3 \<times> vec3 \<times> real"
    using that by (induction grp arbitrary: x) (auto simp: Let_def case_prod_unfold)
  then show ?thesis by (simp add: group_sums_def)
qed

text \<open>
  What holds of the command state between operations. The last clause is the safety of the
  command: thrust is only commanded together with a positive time to fire.
\<close>

definition rcs_ok :: "rcs \<Rightarrow> bool" where
  "rcs_ok r \<longleftrightarrow> 0 \<le> rc_pct r \<and> rc_pct r \<le> 100 \<and> 0 \<le> rc_time_left r \<and> 0 \<le> rc_propellant r \<and>
     (0 < rc_pct r \<longrightarrow> 0 < rc_time_left r)"

lemma stop_rcs_ok: "rcs_ok r \<Longrightarrow> rcs_ok (stop_rcs r)"
  by (simp add: rcs_ok_def stop_rcs_def)

lemma set_rcs_command_ok: "rcs_ok r \<Longrightarrow> rcs_ok (fst (set_rcs_command p axis pct dur r))"
  by (auto simp: set_rcs_command_def Let_def stop_rcs_ok split: option.splits)
    (auto simp: rcs_ok_def)

lemma set_rcs_command_propellant [simp]:
  "rc_propellant (fst (set_rcs_command p axis pct dur r)) = rc_propellant r"
  by (auto simp: set_rcs_command_def Let_def stop_rcs_def split: option.splits)

lemma set_rcs_command_accepted:
  assumes "snd (set_rcs_command p axis pct dur r)"
  shows "rc_pct (fst (set_rcs_command p axis pct dur r)) = 0 \<or>
         rc_time_left (fst (set_rcs_command p axis pct dur r)) = max 0 dur"
  using assms by (auto simp: set_rcs_command_def Let_def stop_rcs_def split: option.splits if_splits)

lemma reset_exposed_simps [simp]:
  "rc_pct (reset_exposed r) = rc_pct r" "rc_time_left (reset_exposed r) = rc_time_left r"
  "rc_propellant (reset_exposed r) = rc_propellant r" "rc_axis (reset_exposed r) = rc_axis r"
  "rc_active (reset_exposed r) = False" "rcs_ok (reset_exposed r) = rcs_ok r"
  by (simp_all add: reset_exposed_def rcs_ok_def)

lemma decrement_time_simps [simp]:
  "rc_propellant (decrement_time d r) = rc_propellant r" "rc_active (decrement_time d r) = rc_active r"
  "rc_time_left (decrement_time d r) = (if rc_time_left r > 0 then max 0 (round_double (rc_time_left r - d)) else rc_time_left r)"
  by (auto simp: decrement_time_def Let_def)

lemma decrement_time_ok:
  "0 \<le> rc_pct r \<Longrightarrow> rc_pct r \<le> 100 \<Longrightarrow> 0 < rc_time_left r \<Longrightarrow> 0 \<le> rc_propellant r \<Longrightarrow> rcs_ok (decrement_time d r)"
  by (auto simp: decrement_time_def rcs_ok_def Let_def)

lemma burn_effect:
  assumes "0 \<le> rc_pct r" "rc_pct r \<le> 100" "0 \<le> rc_propellant r"
  shows "0 \<le> rc_pct (fst (burn m r)) \<and> rc_pct (fst (burn m r)) \<le> 100 \<and>
         rc_time_left (fst (burn m r)) = rc_time_left r \<and> 0 \<le> rc_propellant (fst (burn m r)) \<and>
         rc_propellant (fst (burn m r)) \<le> rc_propellant r"
  using assms by (simp add: burn_def)

text \<open>The effect of a firing tick, in one statement.\<close>

lemma rcs_fire_effect:
  assumes ok: "rcs_ok r" and fire: "0 < rc_pct r" and idle: "\<not> rc_active r" and d: "0 < d"
    and res: "rcs_fire p t d axis grp r = (r', w)"
  shows "rcs_ok r' \<and> rc_propellant r' \<le> rc_propellant r \<and> 0 \<le> w \<and>
         (rc_active r' \<longrightarrow> rc_time_left r' = max 0 (round_double (rc_time_left r - d))) \<and>
         (rc_active r' \<or> rc_pct r' = 0)"
proof -
  obtain nf nt mag where gs: "group_sums (rp_thrusters p) (clamp 0 100 (rc_pct r) / 100) grp = (nf, nt, mag)"
    by (metis prod_cases3)
  define m where "m = mag / (max (1 / 1000000) (rp_isp p) * 9.80665) * d"
  define r1 where "r1 = r\<lparr>rc_fuel_rate := max 0 (mag / (max (1 / 1000000) (rp_isp p) * 9.80665) * 1000)\<rparr>"
  have r1: "rc_pct r1 = rc_pct r" "rc_time_left r1 = rc_time_left r" "rc_propellant r1 = rc_propellant r"
    "rc_active r1 = rc_active r" by (simp_all add: r1_def)
  have tl: "0 < rc_time_left r" and pr: "0 \<le> rc_propellant r" using ok fire by (simp_all add: rcs_ok_def)
  show ?thesis
  proof (cases "m > 0 \<and> rc_propellant r1 \<le> 0")
    case True
    then have "r' = r1\<lparr>rc_propellant := 0, rc_pct := 0, rc_fuel_rate := 0\<rparr>" "w = 0"
      using res gs by (simp_all add: rcs_fire_def Let_def m_def r1_def)
    with ok pr tl r1 idle show ?thesis by (simp add: rcs_ok_def)
  next
    case False
    obtain r2 ratio where b: "burn m r1 = (r2, ratio)" by (metis prod.exhaust)
    obtain du op wv where r': "r' = decrement_time d (expose_firing (rp_thrusters p) axis grp nf nt du op r2)"
      and w: "w = max 0 wv"
      using res gs False b by (auto simp: rcs_fire_def Let_def m_def r1_def)
    have "0 \<le> rc_pct r2 \<and> rc_pct r2 \<le> 100 \<and> rc_time_left r2 = rc_time_left r \<and> 0 \<le> rc_propellant r2 \<and>
        rc_propellant r2 \<le> rc_propellant r"
      using burn_effect [of r1 m] b r1 ok by (simp add: rcs_ok_def)
    then show ?thesis unfolding r' w using tl by (simp add: decrement_time_ok)
  qed
qed

lemma rcs_step_cases:
  obtains "fst (rcs_step p t dt r) = reset_exposed r" "snd (rcs_step p t dt r) = 0"
  | axis grp d where "rcs_step p t dt r = rcs_fire p t d axis grp (reset_exposed r)" "0 < d"
      "0 < rc_pct r" "d = (if rc_time_left r > 0 then min dt (rc_time_left r) else dt)" "0 < dt"
proof (cases "\<exists>axis grp. rp_enabled p \<and> rp_thrusters p \<noteq> [] \<and> rp_groups p \<noteq> [] \<and> rc_axis r = Some axis \<and>
    axis \<noteq> [] \<and> 0 < rc_pct r \<and> 0 < dt \<and> dict_get (rp_groups p) axis = Some grp \<and> grp \<noteq> [] \<and>
    0 < dict_getd (rp_max_proj p) axis 0")
  case True
  then obtain axis grp where g: "rp_enabled p" "rp_thrusters p \<noteq> []" "rp_groups p \<noteq> []" "rc_axis r = Some axis"
    "axis \<noteq> []" "0 < rc_pct r" "0 < dt" "dict_get (rp_groups p) axis = Some grp" "grp \<noteq> []"
    "0 < dict_getd (rp_max_proj p) axis 0" by blast
  let ?d = "if rc_time_left r > 0 then min dt (rc_time_left r) else dt"
  have "rcs_step p t dt r = rcs_fire p t ?d axis grp (reset_exposed r)"
    using g by (simp add: rcs_step_def Let_def max_def)
  moreover have "0 < ?d" using g by simp
  ultimately show thesis using g that(2) by blast
next
  case False
  have "rcs_step p t dt r = (reset_exposed r, 0)"
    using False by (auto simp: rcs_step_def Let_def max_def not_le split: option.splits)
  then show thesis using that(1) by simp
qed

lemma rcs_step_effect:
  assumes "rcs_ok r"
  shows "rcs_ok (fst (rcs_step p t dt r)) \<and> rc_propellant (fst (rcs_step p t dt r)) \<le> rc_propellant r \<and>
         0 \<le> snd (rcs_step p t dt r) \<and>
         (rc_active (fst (rcs_step p t dt r)) \<longrightarrow> 0 < rc_pct r \<and> 0 < dt \<and>
            rc_time_left (fst (rcs_step p t dt r)) = round_double (max 0 (rc_time_left r - dt)))"
proof (rule rcs_step_cases [of p t dt r])
  assume "fst (rcs_step p t dt r) = reset_exposed r" "snd (rcs_step p t dt r) = 0"
  with assms show ?thesis by simp
next
  fix axis grp d
  assume st: "rcs_step p t dt r = rcs_fire p t d axis grp (reset_exposed r)" and d: "0 < d" "0 < rc_pct r"
    "d = (if rc_time_left r > 0 then min dt (rc_time_left r) else dt)" "0 < dt"
  obtain r' w where res: "rcs_fire p t d axis grp (reset_exposed r) = (r', w)" by (metis prod.exhaust)
  have "rcs_ok (reset_exposed r)" "0 < rc_pct (reset_exposed r)" "\<not> rc_active (reset_exposed r)"
    using assms d(2) by simp_all
  note eff = rcs_fire_effect [OF this d(1) res]
  have "0 < rc_time_left r" using assms d(2) by (simp add: rcs_ok_def)
  then have "rc_time_left r - d = max 0 (rc_time_left r - dt)" using d(3) by (simp add: max_def min_def)
  moreover have "0 \<le> round_double (max 0 (rc_time_left r - dt))" by (rule round_double_nonneg) simp
  ultimately have "max 0 (round_double (rc_time_left r - d)) = round_double (max 0 (rc_time_left r - dt))" by simp
  with eff st res d(2,4) show ?thesis by simp
qed

lemma apply_throttle_simps [simp]:
  "rcs_ok (apply_throttle_ratio q reason r) = rcs_ok r"
  "rc_propellant (apply_throttle_ratio q reason r) = rc_propellant r"
  by (auto simp: apply_throttle_ratio_def Let_def rcs_ok_def)

section \<open>The chosen groups\<close>

lemma combos_spec: "c \<in> set (combos k xs) \<Longrightarrow> length c = k \<and> set c \<subseteq> set xs"
proof (induction k xs arbitrary: c rule: combos.induct)
  case (3 k x xs)
  from "3.prems" consider ys where "c = x # ys" "ys \<in> set (combos k xs)" | "c \<in> set (combos (Suc k) xs)"
    by auto
  then show ?case
  proof cases
    case 1
    with "3.IH"(1) [of ys] show ?thesis by auto
  next
    case 2
    with "3.IH"(2) [of c] show ?thesis by auto
  qed
qed simp_all

lemma combos_distinct: "distinct xs \<Longrightarrow> c \<in> set (combos k xs) \<Longrightarrow> distinct c"
proof (induction k xs arbitrary: c rule: combos.induct)
  case (3 k x xs)
  from "3.prems"(2) consider ys where "c = x # ys" "ys \<in> set (combos k xs)" | "c \<in> set (combos (Suc k) xs)"
    by auto
  then show ?case
  proof cases
    case 1
    then have "set ys \<subseteq> set xs" using combos_spec by blast
    with 1 "3.IH"(1) [of ys] "3.prems"(1) show ?thesis by auto
  next
    case 2
    with "3.IH"(2) [of c] "3.prems"(1) show ?thesis by simp
  qed
qed simp_all

text \<open>The candidates that push along the axis, and the best of them: strictly better than \<open>sc\<close>.\<close>

definition pushes :: "vec3 \<Rightarrow> candidate \<Rightarrow> bool" where
  "pushes axis c \<longleftrightarrow> 0 < vdot (fst (snd c)) axis"

definition wins :: "real \<Rightarrow> vec3 \<Rightarrow> real \<Rightarrow> candidate list \<Rightarrow> nat list \<Rightarrow> real \<Rightarrow> candidate \<Rightarrow> bool" where
  "wins tol axis sc cs g proj c \<longleftrightarrow>
     c \<in> set cs \<and> fst c = g \<and> proj = vdot (fst (snd c)) axis \<and> pushes axis c \<and> sc < group_score tol axis c \<and>
     list_all (\<lambda>c'. pushes axis c' \<longrightarrow> group_score tol axis c' \<le> group_score tol axis c) cs"

lemma best_group_best:
  assumes "best_group_loop tol axis sc best cs = Some (g, proj)"
  shows "(best = Some (g, proj) \<and> list_all (\<lambda>c. pushes axis c \<longrightarrow> group_score tol axis c \<le> sc) cs) \<or>
         (\<exists>c. wins tol axis sc cs g proj c)"
  using assms
proof (induction cs arbitrary: sc best)
  case (Cons c cs)
  consider (skip) "\<not> pushes axis c" | (better) "pushes axis c" "sc < group_score tol axis c"
    | (worse) "pushes axis c" "group_score tol axis c \<le> sc" by linarith
  then show ?case
  proof cases
    case skip
    then have "best_group_loop tol axis sc best cs = Some (g, proj)" using Cons.prems by (simp add: pushes_def not_less)
    from Cons.IH [OF this] skip show ?thesis by (auto simp: wins_def)
  next
    case better
    then have "best_group_loop tol axis (group_score tol axis c) (Some (fst c, vdot (fst (snd c)) axis)) cs = Some (g, proj)"
      using Cons.prems by (simp add: pushes_def not_less Let_def)
    from Cons.IH [OF this] show ?thesis
    proof
      assume "Some (fst c, vdot (fst (snd c)) axis) = Some (g, proj) \<and>
        list_all (\<lambda>c'. pushes axis c' \<longrightarrow> group_score tol axis c' \<le> group_score tol axis c) cs"
      then have "wins tol axis sc (c # cs) g proj c" using better by (simp add: wins_def)
      then show ?thesis by blast
    next
      assume "\<exists>d. wins tol axis (group_score tol axis c) cs g proj d"
      then obtain d where "wins tol axis (group_score tol axis c) cs g proj d" ..
      then have "wins tol axis sc (c # cs) g proj d" using better by (simp add: wins_def)
      then show ?thesis by blast
    qed
  next
    case worse
    then have "best_group_loop tol axis sc best cs = Some (g, proj)"
      using Cons.prems by (simp add: pushes_def not_less not_le Let_def)
    from Cons.IH [OF this] show ?thesis
    proof
      assume "\<exists>d. wins tol axis sc cs g proj d"
      then obtain d where "wins tol axis sc cs g proj d" ..
      then have "wins tol axis sc (c # cs) g proj d" using worse by (simp add: wins_def)
      then show ?thesis by blast
    qed (use worse in simp)
  qed
qed simp

section \<open>Firing time\<close>

fun active_ticks :: "rcs_params \<Rightarrow> real \<Rightarrow> real list \<Rightarrow> rcs \<Rightarrow> nat" where
  "active_ticks p dt [] r = 0"
| "active_ticks p dt (t # ts) r =
     (let r' = fst (rcs_step p t dt r) in (if rc_active r' then 1 else 0) + active_ticks p dt ts r')"

lemma no_pct_no_fire: "rc_pct r = 0 \<Longrightarrow> fst (rcs_step p t dt r) = reset_exposed r"
  by (rule rcs_step_cases [of p t dt r]) auto

lemma active_ticks_zero: "rc_pct r = 0 \<Longrightarrow> active_ticks p dt ts r = 0"
proof (induction ts arbitrary: r)
  case (Cons t ts)
  from Cons.prems have "fst (rcs_step p t dt r) = reset_exposed r" by (rule no_pct_no_fire)
  with Cons show ?case by (simp add: Let_def)
qed simp

text \<open>The error of one rounded subtraction below \<open>d\<close>.\<close>

definition time_error :: "real \<Rightarrow> real" where
  "time_error d = d / 2 ^ 53 + 1 / 2 ^ 1075"

lemma round_time:
  assumes "0 < dt" "0 < left" "left \<le> d"
  shows "round_double (max 0 (left - dt)) \<le> max 0 (left - dt) + time_error d"
proof -
  have "\<bar>max 0 (left - dt)\<bar> / 2 ^ 53 \<le> d / 2 ^ 53" using assms by (intro divide_right_mono) simp_all
  then show ?thesis using round_double_rel_error [of "max 0 (left - dt)"] unfolding time_error_def by linarith
qed

lemma active_ticks_bound:
  "rcs_ok r \<Longrightarrow> 0 < dt \<Longrightarrow> time_error d \<le> dt \<Longrightarrow> 0 < rc_time_left r \<Longrightarrow> rc_time_left r \<le> d \<Longrightarrow>
   (case active_ticks p dt ts r of 0 \<Rightarrow> True | Suc n \<Rightarrow> real n * (dt - time_error d) < rc_time_left r)"
proof (induction ts arbitrary: r)
  case Nil
  then show ?case by simp
next
  case (Cons t ts)
  let ?r = "fst (rcs_step p t dt r)"
  note eff = rcs_step_effect [OF Cons.prems(1), of p t dt]
  show ?case
  proof (cases "rc_active ?r")
    case True
    then have tl: "rc_time_left ?r = round_double (max 0 (rc_time_left r - dt))" using eff by simp
    show ?thesis
    proof (cases "rc_pct ?r = 0")
      case fin: True
      then show ?thesis using True Cons.prems by (simp add: Let_def active_ticks_zero)
    next
      case False
      then have pos: "0 < rc_time_left ?r" using eff by (auto simp: rcs_ok_def)
      then have "dt < rc_time_left r"
      proof (rule contrapos_pp)
        assume "\<not> dt < rc_time_left r"
        then show "\<not> 0 < rc_time_left ?r" unfolding tl by (simp add: max_def)
      qed
      then have le: "rc_time_left ?r \<le> rc_time_left r - dt + time_error d"
        using round_time [OF Cons.prems(2,4,5)] by (simp add: tl)
      have "case active_ticks p dt ts ?r of 0 \<Rightarrow> True | Suc n \<Rightarrow> real n * (dt - time_error d) < rc_time_left ?r"
        by (rule Cons.IH) (use eff pos le Cons.prems in auto)
      with True le Cons.prems(4) show ?thesis by (auto simp: Let_def algebra_simps split: nat.splits)
    qed
  next
    case False
    show ?thesis
    proof (rule rcs_step_cases [of p t dt r])
      assume "fst (rcs_step p t dt r) = reset_exposed r" "snd (rcs_step p t dt r) = 0"
      with False Cons.IH [of ?r] Cons.prems show ?thesis by (simp add: Let_def split: nat.splits)
    next
      fix axis grp d
      assume st: "rcs_step p t dt r = rcs_fire p t d axis grp (reset_exposed r)" and d: "0 < d" "0 < rc_pct r"
      obtain r' w where res: "rcs_fire p t d axis grp (reset_exposed r) = (r', w)" by (metis prod.exhaust)
      have "rcs_ok (reset_exposed r)" "0 < rc_pct (reset_exposed r)" "\<not> rc_active (reset_exposed r)"
        using Cons.prems(1) d(2) by simp_all
      from rcs_fire_effect [OF this d(1) res] have "rc_pct ?r = 0" using False st res by simp
      then show ?thesis using False Cons.prems by (simp add: Let_def active_ticks_zero)
    qed
  qed
qed

section \<open>Properties\<close>

lemma rcs_candidates_mem:
  assumes "c \<in> set (rcs_candidates ths)"
  shows "length (fst c) \<in> {2, 4} \<and> distinct (fst c) \<and> list_all (\<lambda>i. i < length ths) (fst c) \<and>
         fst (snd c) = foldl (\<lambda>a i. vplus a (max_force (ths ! i))) vzero (fst c)"
proof -
  from assms have "\<exists>k\<in>{2, 4}. fst c \<in> set (combos k [0..<length ths]) \<and>
      fst (snd c) = foldl (\<lambda>a i. vplus a (max_force (ths ! i))) vzero (fst c)"
    by (auto simp: rcs_candidates_def)
  then obtain k where k: "k \<in> {2, 4}" "fst c \<in> set (combos k [0..<length ths])"
    "fst (snd c) = foldl (\<lambda>a i. vplus a (max_force (ths ! i))) vzero (fst c)" by blast
  from combos_spec [OF k(2)] combos_distinct [OF distinct_upt k(2)] k show ?thesis
    by (auto simp: list_all_iff)
qed

definition demo_thruster :: thruster where
  "demo_thruster = \<lparr>tc_index = 0, tc_cluster = ''A'', tc_position = vzero,
     tc_direction = \<lparr>vx = 1, vy = 0, vz = 0\<rparr>, tc_f_max = 1\<rparr>"

definition axis_x :: vec3 where "axis_x = \<lparr>vx = 1, vy = 0, vz = 0\<rparr>"

text \<open>
  The group chosen for an axis has two or four distinct thrusters of the configuration, its net
  force has the recorded positive projection on the axis, and no other group of that size that pushes
  along the axis has a better score.
\<close>

theorem axis_group_optimal:
  assumes "axis_group tol (rcs_candidates ths) axis = Some (g, proj)"
  shows "length g \<in> {2, 4} \<and> distinct g \<and> list_all (\<lambda>i. i < length ths) g \<and> 0 < proj \<and>
         proj = vdot (foldl (\<lambda>a i. vplus a (max_force (ths ! i))) vzero g) axis \<and>
         (\<exists>c. wins tol axis (- (10 ^ 18)) (rcs_candidates ths) g proj c)"
proof -
  from best_group_best [OF assms [unfolded axis_group_def]]
  obtain c where c: "wins tol axis (- (10 ^ 18)) (rcs_candidates ths) g proj c" by auto
  then have "c \<in> set (rcs_candidates ths)" "g = fst c" "proj = vdot (fst (snd c)) axis" "0 < proj"
    by (simp_all add: wins_def pushes_def)
  with rcs_candidates_mem [of c ths] have "length g \<in> {2, 4} \<and> distinct g \<and> list_all (\<lambda>i. i < length ths) g \<and>
      0 < proj \<and> proj = vdot (foldl (\<lambda>a i. vplus a (max_force (ths ! i))) vzero g) axis" by simp
  with c show ?thesis by blast
qed

lemma axis_group_demo:
  "axis_group 1 (rcs_candidates [demo_thruster, demo_thruster]) axis_x = Some ([0, 1], 2)"
  by (simp add: axis_group_def rcs_candidates_def numeral_2_eq_2 numeral_eq_Suc upt_rec demo_thruster_def axis_x_def
      vzero_def vplus_def max_force_def max_torque_def vscale_def vcross_def vdot_def group_score_def vnorm_def)

theorem axis_group_optimal_witness:
  "0 < (2::real) \<and> (\<exists>c. wins 1 axis_x (- (10 ^ 18)) (rcs_candidates [demo_thruster, demo_thruster]) [0, 1] 2 c)"
  using axis_group_optimal [OF axis_group_demo] by simp

text \<open>
  C12. An accepted axis command of finite duration fires, in any sequence of ticks, only while its duration
  lasts: all its firing ticks but the last one fit into the duration, up to the rounding of the
  count-down, less than \<open>dur / 2^53\<close> a tick. Thrust cannot be left on by a command. (With exact
  subtraction ten ticks of 0.1 s would use up 1.0 s; in doubles there is an eleventh.)
\<close>

theorem rcs_firing_bounded:
  assumes "rcs_ok r" and "0 < dt" and "snd (set_rcs_command p axis pct dur r)"
  shows "case active_ticks p dt ts (fst (set_rcs_command p axis pct dur r)) of
           0 \<Rightarrow> True
         | Suc n \<Rightarrow> real n * (dt - time_error dur) < dur"
proof -
  let ?r = "fst (set_rcs_command p axis pct dur r)"
  have ok: "rcs_ok ?r" by (rule set_rcs_command_ok) (rule assms(1))
  show ?thesis
  proof (cases "rc_pct ?r = 0")
    case True
    then show ?thesis by (simp add: active_ticks_zero)
  next
    case False
    then have tl: "0 < rc_time_left ?r" "rc_time_left ?r = dur"
      using ok set_rcs_command_accepted [OF assms(3)] by (auto simp: rcs_ok_def max_def split: if_splits)
    show ?thesis
    proof (cases "time_error dur \<le> dt")
      case True
      then show ?thesis using active_ticks_bound [OF ok assms(2) True tl(1), of p ts] unfolding tl(2) by simp
    next
      case False
      then have "real n * (dt - time_error dur) \<le> 0" for n
        by (intro mult_nonneg_nonpos) simp_all
      then have "real n * (dt - time_error dur) < dur" for n using tl le_less_trans by metis
      then show ?thesis by (simp split: nat.split)
    qed
  qed
qed

definition demo_rcs_params :: rcs_params where
  "demo_rcs_params =
     \<lparr>rp_enabled = True, rp_thrusters = [demo_thruster, demo_thruster], rp_groups = [(''forward'', [0, 1])],
      rp_max_proj = [(''forward'', 2)], rp_isp = 100, rp_power_w = 10, rp_window = 0\<rparr>"

definition demo_rcs :: rcs where
  "demo_rcs =
     \<lparr>rc_axis = None, rc_pct = 0, rc_time_left = 0, rc_fuel_rate = 0, rc_propellant = 5, rc_active = False,
      rc_throttled = False, rc_shown_propellant = 5, rc_thrusters = [], rc_net_force = vzero,
      rc_net_torque = vzero, rc_last_axis = None\<rparr>"

lemma demo_rcs_accepts: "snd (set_rcs_command demo_rcs_params (Some '' Forward '') 50 2 demo_rcs)"
  by code_simp

theorem rcs_firing_bounded_witness:
  "active_ticks demo_rcs_params 1 [0, 1, 2, 3, 4]
     (fst (set_rcs_command demo_rcs_params (Some '' Forward '') 50 2 demo_rcs)) \<le> 3"
proof -
  let ?n = "active_ticks demo_rcs_params 1 [0, 1, 2, 3, 4]
     (fst (set_rcs_command demo_rcs_params (Some '' Forward '') 50 2 demo_rcs))"
  have "case ?n of 0 \<Rightarrow> True | Suc n \<Rightarrow> real n * (1 - time_error 2) < 2"
    by (rule rcs_firing_bounded) (simp_all add: demo_rcs_accepts, simp add: rcs_ok_def demo_rcs_def)
  moreover have "2 \<le> real n * (1 - time_error 2)" if "3 \<le> n" for n
  proof -
    have e: "time_error 2 \<le> 1 / 3" by (simp add: time_error_def)
    then have "2 \<le> 3 * (1 - time_error 2)" by simp
    also have "\<dots> \<le> real n * (1 - time_error 2)" using that e by (intro mult_right_mono) simp_all
    finally show ?thesis .
  qed
  ultimately have "n < 3" if "?n = Suc n" for n using that by (simp add: not_le [symmetric]) fastforce
  then show ?thesis by (cases ?n) simp_all
qed

end
