(* ===== verification/Sim_World.thy ===== *)
theory Sim_World
  imports Sim_Mcqpu Sim_Rcs "HOL-Library.Sublist"
begin

text \<open>
  The simulated world (\<open>WorldModel\<close> in
  \<open>src/qiki/services/q_sim_service/core/world_model.py\<close>): motion, power plane, dock
  bridge, burst link, thermal network, commands and the step that composes them. Parameters read
  once from the configuration are \<open>sim_params\<close>; the state is one record per plane. The
  power part of \<open>step\<close> is a pipeline of definitions in the order of the code, each passing
  on the local variables it computes.
\<close>

section \<open>Parameters\<close>

record thermal_node =
  tn_cap :: real
  tn_cool :: real
  tn_trip :: real
  tn_hys :: real

record sim_params =
  sp_bus_v_nominal :: real
  sp_bus_v_min :: real
  sp_max_bus_a :: real
  sp_soc_low :: real
  sp_soc_high :: real
  sp_battery_wh :: real
  sp_battery_max_charge_w :: real
  sp_battery_max_discharge_w :: real
  sp_base_in_w :: real
  sp_base_out_w :: real
  sp_motion_w :: real
  sp_mcqpu_w :: real
  sp_radar_w :: real
  sp_transponder_w :: real
  sp_sc_capacity :: real
  sp_sc_max_charge_w :: real
  sp_sc_max_discharge_w :: real
  sp_dock_v :: real
  sp_dock_max_w :: real
  sp_dock_limit_a :: real
  sp_dock_soft_start :: real
  sp_docking_enabled :: bool
  sp_docking_ports :: "string list"
  sp_docking_default :: string
  sp_nbl_soc_min :: real
  sp_nbl_temp_max :: real
  sp_imu_enabled :: bool
  sp_radiation_enabled :: bool
  sp_rcs :: rcs_params
  sp_rcs_heat_fraction :: real
  sp_mcqpu :: mcqpu_config
  sp_thermal_enabled :: bool
  sp_ambient_exchange :: real
  sp_nodes :: "(string, thermal_node) dict"
  sp_couplings :: "(string, (string \<times> real) list) dict"
  sp_actuator_roles :: "(string, string) dict"

section \<open>State\<close>

record power =
  pw_in :: real
  pw_out :: real
  pw_bus_v :: real
  pw_bus_a :: real
  pw_shed_loads :: "string list"
  pw_shed_reasons :: "string list"
  pw_pdu_throttled :: bool
  pw_throttled :: "string list"
  pw_faults :: "string list"
  pw_load_shedding :: bool
  pw_radar_allowed :: bool
  pw_transponder_allowed :: bool
  pw_soc_shed :: bool
  pw_battery :: real
  pw_sc_energy :: real
  pw_sc_soc :: real
  pw_sc_charge :: real
  pw_sc_discharge :: real
  pw_bat_charge :: real
  pw_bat_discharge :: real
  pw_spill :: real
  pw_unserved :: real
  pw_loads :: "(string, real) dict"
  pw_sources :: "(string, real) dict"

record dock =
  dk_connected :: bool
  dk_since :: real
  dk_soft_pct :: real
  dk_power :: real
  dk_v :: real
  dk_a :: real
  dk_temp :: real
  dk_port :: "string option"
  dk_docked :: bool
  dk_state :: string

record nbl =
  nb_active :: bool
  nb_allowed :: bool
  nb_power :: real
  nb_budget :: real
  nb_max_power :: real

record sim =
  m_time :: real
  m_x :: real
  m_y :: real
  m_heading :: real
  m_roll :: real
  m_pitch :: real
  m_yaw :: real
  m_speed :: real
  m_dose :: "real option"
  m_usvh :: real
  m_temp_external :: real
  m_temp_core :: real
  m_imu_ok :: "bool option"
  m_imu_rates :: "(real \<times> real \<times> real) option"
  m_mcqpu :: mcqpu
  m_radar_enabled :: bool
  m_sensor_queue :: int
  m_actuator_queue :: int
  m_transponder_active :: bool
  m_power :: power
  m_dock :: dock
  m_nbl :: nbl
  m_rcs :: rcs
  m_rcs_power :: real
  m_temps :: "(string, real) dict"
  m_trips :: "(string, bool) dict"

section \<open>The initial world\<close>

text \<open>The parameters and the state of a world built without a configuration.\<close>

definition rcs_params_default :: rcs_params where
  "rcs_params_default =
     \<lparr>rp_enabled = False, rp_thrusters = [], rp_groups = [], rp_max_proj = [], rp_isp = 0, rp_power_w = 0,
      rp_window = 0\<rparr>"

definition sim_params_default :: sim_params where
  "sim_params_default =
     \<lparr>sp_bus_v_nominal = 28, sp_bus_v_min = 22, sp_max_bus_a = 5, sp_soc_low = 20, sp_soc_high = 30,
      sp_battery_wh = 200, sp_battery_max_charge_w = 0, sp_battery_max_discharge_w = 0, sp_base_in_w = 30,
      sp_base_out_w = 60, sp_motion_w = 40, sp_mcqpu_w = 35, sp_radar_w = 18, sp_transponder_w = 6,
      sp_sc_capacity = 0, sp_sc_max_charge_w = 0, sp_sc_max_discharge_w = 0, sp_dock_v = 28, sp_dock_max_w = 0,
      sp_dock_limit_a = 0, sp_dock_soft_start = 0, sp_docking_enabled = False, sp_docking_ports = [''A'', ''B''],
      sp_docking_default = ''A'', sp_nbl_soc_min = 0, sp_nbl_temp_max = 0, sp_imu_enabled = False,
      sp_radiation_enabled = False, sp_rcs = rcs_params_default, sp_rcs_heat_fraction = 0,
      sp_mcqpu = mcqpu_default, sp_thermal_enabled = False, sp_ambient_exchange = 0, sp_nodes = [],
      sp_couplings = [], sp_actuator_roles = []\<rparr>"

definition power_init :: power where
  "power_init =
     \<lparr>pw_in = 30, pw_out = 60, pw_bus_v = 28, pw_bus_a = 60 / 28, pw_shed_loads = [], pw_shed_reasons = [],
      pw_pdu_throttled = False, pw_throttled = [], pw_faults = [], pw_load_shedding = False,
      pw_radar_allowed = True, pw_transponder_allowed = True, pw_soc_shed = False, pw_battery = 100,
      pw_sc_energy = 0, pw_sc_soc = 0, pw_sc_charge = 0, pw_sc_discharge = 0, pw_bat_charge = 0,
      pw_bat_discharge = 0, pw_spill = 0, pw_unserved = 0,
      pw_loads = [(''base'', 60), (''motion'', 0), (''mcqpu'', 0), (''radar'', 0), (''transponder'', 0),
        (''nbl'', 0), (''rcs'', 0), (''supercap_charge'', 0)],
      pw_sources = [(''base'', 30), (''dock'', 0), (''supercap_discharge'', 0)]\<rparr>"

definition dock_init :: dock where
  "dock_init =
     \<lparr>dk_connected = False, dk_since = 0, dk_soft_pct = 0, dk_power = 0, dk_v = 0, dk_a = 0, dk_temp = - 60,
      dk_port = None, dk_docked = False, dk_state = ''undocked''\<rparr>"

definition nbl_init :: nbl where
  "nbl_init = \<lparr>nb_active = False, nb_allowed = False, nb_power = 0, nb_budget = 0, nb_max_power = 0\<rparr>"

definition rcs_init :: rcs where
  "rcs_init =
     \<lparr>rc_axis = None, rc_pct = 0, rc_time_left = 0, rc_fuel_rate = 0, rc_propellant = 0, rc_active = False,
      rc_throttled = False, rc_shown_propellant = 0, rc_thrusters = [], rc_net_force = vzero,
      rc_net_torque = vzero, rc_last_axis = None\<rparr>"

definition sim_init :: sim where
  "sim_init =
     \<lparr>m_time = 0, m_x = 0, m_y = 0, m_heading = 0, m_roll = 0, m_pitch = 0, m_yaw = radians 0, m_speed = 0,
      m_dose = None, m_usvh = 0, m_temp_external = - 60, m_temp_core = 25, m_imu_ok = None, m_imu_rates = None,
      m_mcqpu = mcqpu_init mcqpu_default, m_radar_enabled = False, m_sensor_queue = 0, m_actuator_queue = 0,
      m_transponder_active = False, m_power = power_init, m_dock = dock_init, m_nbl = nbl_init,
      m_rcs = rcs_init, m_rcs_power = 0, m_temps = [], m_trips = []\<rparr>"

section \<open>Setters\<close>

definition set_runtime_load_inputs :: "bool \<Rightarrow> int \<Rightarrow> int \<Rightarrow> bool \<Rightarrow> sim \<Rightarrow> sim" where
  "set_runtime_load_inputs radar sensor_queue actuator_queue transponder m =
     m\<lparr>m_radar_enabled := radar, m_sensor_queue := max 0 sensor_queue,
       m_actuator_queue := max 0 actuator_queue, m_transponder_active := transponder\<rparr>"

definition set_dock_connected :: "bool \<Rightarrow> dock \<Rightarrow> dock" where
  "set_dock_connected conn d =
     (if conn = dk_connected d then d
      else if \<not> conn
      then d\<lparr>dk_connected := False, dk_since := 0, dk_soft_pct := 0, dk_power := 0, dk_v := 0, dk_a := 0\<rparr>
      else d\<lparr>dk_connected := True, dk_since := 0, dk_soft_pct := 0\<rparr>)"

definition set_docking_connected :: "sim_params \<Rightarrow> bool \<Rightarrow> dock \<Rightarrow> dock \<times> bool" where
  "set_docking_connected p conn d =
     (if \<not> sp_docking_enabled p then (d, False)
      else
        let d1 = d\<lparr>dk_docked := conn, dk_state := (if conn then ''docked'' else ''undocked'')\<rparr>;
            d2 = (if conn \<and> dk_port d1 = None then d1\<lparr>dk_port := Some (sp_docking_default p)\<rparr> else d1);
            d3 = (if \<not> conn then set_dock_connected False d2 else d2)
        in (d3, True))"

definition set_docking_port :: "sim_params \<Rightarrow> string option \<Rightarrow> dock \<Rightarrow> dock \<times> bool" where
  "set_docking_port p port d =
     (if \<not> sp_docking_enabled p then (d, False)
      else
        let token = py_strip (case port of None \<Rightarrow> [] | Some s \<Rightarrow> s)
        in if token = [] then (d\<lparr>dk_port := Some (sp_docking_default p)\<rparr>, True)
           else if token \<notin> set (sp_docking_ports p) then (d, False)
           else (d\<lparr>dk_port := Some token\<rparr>, True))"

definition set_nbl_active :: "bool \<Rightarrow> nbl \<Rightarrow> nbl" where
  "set_nbl_active active n = n\<lparr>nb_active := active\<rparr>"

definition set_nbl_max_power_w :: "real \<Rightarrow> nbl \<Rightarrow> nbl" where
  "set_nbl_max_power_w w n = n\<lparr>nb_max_power := max 0 w\<rparr>"

section \<open>Actuator commands\<close>

datatype sim_command_type = SC_SET_VELOCITY | SC_ROTATE | SC_OTHER

datatype command_value = CV_int int | CV_float pyfloat | CV_other

record sim_command =
  sc_actuator :: string
  sc_type :: sim_command_type
  sc_value :: command_value
  sc_timeout_ms :: int

fun as_pct :: "command_value \<Rightarrow> pyfloat option" where
  "as_pct (CV_int i) = Some (Fin (of_int i))"
| "as_pct (CV_float r) = Some r"
| "as_pct CV_other = None"

definition rcs_axis_map :: "(string, string) dict" where
  "rcs_axis_map =
     [(''rcs_forward'', ''forward''), (''rcs_aft'', ''aft''), (''rcs_port'', ''port''),
      (''rcs_starboard'', ''starboard''), (''rcs_up'', ''up''), (''rcs_down'', ''down'')]"

text \<open>
  No result: a rotation by an infinite value or a NaN, after which the heading is a NaN that the exact numbers of
  the world do not have. Every other command of such a value is clamped to a number.
\<close>

definition sim_update :: "sim_params \<Rightarrow> sim_command \<Rightarrow> sim \<Rightarrow> sim option" where
  "sim_update p c m =
     (let role = dict_getd (sp_actuator_roles p) (sc_actuator c) (sc_actuator c);
          motor = role \<in> {''motor_left'', ''motor_right''}
      in if motor \<and> sc_type c = SC_SET_VELOCITY then
           (case as_pct (sc_value c) of None \<Rightarrow> Some m
            | Some pct \<Rightarrow> Some (m\<lparr>m_speed := clamp_float 0 100 pct / 100\<rparr>))
         else if motor \<and> sc_type c = SC_ROTATE then
           (case as_pct (sc_value c) of None \<Rightarrow> Some m
            | Some (Fin pct) \<Rightarrow> Some (m\<lparr>m_heading := fmod_py (m_heading m + pct) 360\<rparr>)
            | Some _ \<Rightarrow> None)
         else case dict_get rcs_axis_map role of
                None \<Rightarrow> Some m
              | Some axis \<Rightarrow>
                  if sc_type c = SC_SET_VELOCITY then
                    (case as_pct (sc_value c) of None \<Rightarrow> Some m
                     | Some pct \<Rightarrow>
                         let duration = (if sc_timeout_ms c > 0 then max 0 (of_int (sc_timeout_ms c) / 1000) else 0)
                         in Some (m\<lparr>m_rcs := fst (set_rcs_command (sp_rcs p) (Some axis) (clamp_float 0 100 pct)
                                                     duration (m_rcs m))\<rparr>))
                  else Some m)"

section \<open>Motion\<close>

definition motion_step :: "sim_params \<Rightarrow> real \<Rightarrow> sim \<Rightarrow> sim" where
  "motion_step p dt m =
     (let t = m_time m + dt;
          dose = (if sp_radiation_enabled p
                  then map_option (\<lambda>d. d + (max 0 (m_usvh m) / 3600) * max 0 dt) (m_dose m) else m_dose m);
          heading_rad = radians (m_heading m);
          x = (if m_speed m > 0 then m_x m + m_speed m * sin heading_rad * dt else m_x m);
          y = (if m_speed m > 0 then m_y m + m_speed m * cos heading_rad * dt else m_y m);
          roll = radians 2 * sin (t * 0.6);
          pitch = radians 1.5 * cos (t * 0.4);
          yaw = heading_rad;
          moving = (sp_imu_enabled p \<and> dt > 0);
          rates = (if moving then Some ((roll - m_roll m) / dt, (pitch - m_pitch m) / dt, (yaw - m_yaw m) / dt)
                   else None)
      in m\<lparr>m_time := t, m_dose := dose, m_x := x, m_y := y, m_roll := roll, m_pitch := pitch, m_yaw := yaw,
           m_imu_rates := rates, m_imu_ok := (if moving then Some True else None),
           m_mcqpu := mcqpu_update (sp_mcqpu p) dt (m_speed m) (m_radar_enabled m) (m_sensor_queue m)
                        (m_actuator_queue m) (m_transponder_active m) (m_mcqpu m)\<rparr>)"

section \<open>Power plane\<close>

text \<open>The local variables of the step that the later parts change.\<close>

record loads =
  ld_motion :: real
  ld_mcqpu :: real
  ld_radar :: real
  ld_transponder :: real
  ld_nbl :: real
  ld_rcs :: real

definition total_out :: "sim_params \<Rightarrow> loads \<Rightarrow> real" where
  "total_out p l =
     sp_base_out_w p + ld_motion l + ld_mcqpu l + ld_radar l + ld_transponder l + ld_nbl l + ld_rcs l"

definition keep_fault :: "string \<Rightarrow> bool" where
  "keep_fault f \<longleftrightarrow>
     suffix ''_MISSING'' f \<or> suffix ''_INVALID'' f \<or> prefix ''POWER_PLANE_PARAM_INVALID'' f \<or>
     prefix ''THERMAL_PLANE_PARAM_INVALID'' f"

definition add_fault :: "string \<Rightarrow> power \<Rightarrow> power" where
  "add_fault f w = w\<lparr>pw_faults := pw_faults w @ [f]\<rparr>"

definition shed :: "string list \<Rightarrow> string \<Rightarrow> power \<Rightarrow> power" where
  "shed loads reason w =
     w\<lparr>pw_shed_loads := pw_shed_loads w @ loads, pw_shed_reasons := pw_shed_reasons w @ [reason]\<rparr>"

definition begin_power :: "power \<Rightarrow> power" where
  "begin_power w =
     w\<lparr>pw_faults := filter keep_fault (pw_faults w), pw_shed_loads := [], pw_shed_reasons := [],
       pw_pdu_throttled := False, pw_throttled := [], pw_sc_charge := 0, pw_sc_discharge := 0\<rparr>"

definition begin_dock :: "dock \<Rightarrow> dock" where
  "begin_dock d = d\<lparr>dk_power := 0, dk_v := 0, dk_a := 0, dk_soft_pct := 0\<rparr>"

definition begin_nbl :: "nbl \<Rightarrow> nbl" where
  "begin_nbl n = n\<lparr>nb_allowed := False, nb_power := 0, nb_budget := 0\<rparr>"

definition soc_of :: "power \<Rightarrow> real" where
  "soc_of w = clamp 0 100 (pw_battery w)"

definition bus_step :: "sim_params \<Rightarrow> power \<Rightarrow> power" where
  "bus_step p w =
     (let w1 = (if sp_bus_v_nominal p \<le> 0 then add_fault ''BUS_V_NOMINAL_INVALID'' w else w);
          w2 = (if sp_bus_v_min p < 0 then add_fault ''BUS_V_MIN_INVALID'' w1 else w1);
          span = max 0 (sp_bus_v_nominal p - sp_bus_v_min p);
          v = max 0 (sp_bus_v_min p + span * (soc_of w / 100));
          w3 = w2\<lparr>pw_bus_v := v\<rparr>
      in if v \<le> 0 then add_fault ''BUS_V_ZERO'' w3 else w3)"

definition pdu_limit :: "sim_params \<Rightarrow> power \<Rightarrow> real" where
  "pdu_limit p w = max 0 (sp_max_bus_a p) * max 0 (pw_bus_v w)"

text \<open>The two-threshold switches: state of charge (on at the low end) and thermal trips.\<close>

definition soc_switch :: "real \<Rightarrow> real \<Rightarrow> bool \<Rightarrow> real \<Rightarrow> bool" where
  "soc_switch low high state soc =
     (let s1 = (if \<not> state \<and> soc \<le> low then True else state) in if s1 \<and> soc \<ge> high then False else s1)"

definition trip_switch :: "real \<Rightarrow> real \<Rightarrow> bool \<Rightarrow> real \<Rightarrow> bool" where
  "trip_switch trip hys state t =
     (let s1 = (if \<not> state \<and> t \<ge> trip then True else state) in if s1 \<and> t \<le> trip - hys then False else s1)"

definition tripped :: "sim \<Rightarrow> string \<Rightarrow> bool" where
  "tripped m nid = dict_getd (m_trips m) nid False"

definition soc_shed_step :: "sim_params \<Rightarrow> power \<Rightarrow> power" where
  "soc_shed_step p w =
     (let state = soc_switch (sp_soc_low p) (sp_soc_high p) (pw_soc_shed w) (soc_of w);
          w1 = w\<lparr>pw_soc_shed := state, pw_radar_allowed := \<not> state, pw_transponder_allowed := \<not> state\<rparr>
      in if state then shed [''radar'', ''transponder''] ''low_soc'' w1 else w1)"

definition thermal_shed_step :: "sim \<Rightarrow> power \<Rightarrow> power" where
  "thermal_shed_step m w =
     (let w1 = (if tripped m ''pdu''
                then shed [''radar'', ''transponder''] ''thermal_overheat''
                       (w\<lparr>pw_radar_allowed := False, pw_transponder_allowed := False\<rparr>) else w)
      in if tripped m ''core'' then shed [''nbl''] ''thermal_overheat'' w1 else w1)"

text \<open>The burst link: its permission, its budget and what it draws.\<close>

definition nbl_step :: "sim_params \<Rightarrow> sim \<Rightarrow> real \<Rightarrow> nbl \<Rightarrow> power \<Rightarrow> nbl \<times> power \<times> real" where
  "nbl_step p m soc n w =
     (let overheat = (tripped m ''core'' \<or> tripped m ''pdu'');
          allowed = (nb_active n \<and> soc \<ge> sp_nbl_soc_min p \<and> m_temp_core m \<le> sp_nbl_temp_max p \<and> \<not> overheat);
          budget = (if allowed then max 0 (nb_max_power n) else 0);
          n1 = n\<lparr>nb_allowed := allowed, nb_budget := budget\<rparr>;
          out = (if nb_active n \<and> allowed then budget else 0);
          w1 = (if nb_active n \<and> \<not> allowed
                then shed [''nbl''] (if overheat then ''thermal_overheat'' else ''nbl_budget'') w else w)
      in (n1, w1, out))"

definition dock_step :: "sim_params \<Rightarrow> real \<Rightarrow> dock \<Rightarrow> dock" where
  "dock_step p dt d =
     (if dk_connected d then
        let since = dk_since d + max 0 dt;
            denom = max 0.001 (sp_dock_soft_start p);
            soft = clamp 0 100 ((since / denom) * 100);
            v = max 0 (sp_dock_v p);
            station_limit = max 0 (sp_dock_max_w p);
            current_limit = max 0 (sp_dock_limit_a p) * v;
            avail = (if station_limit > 0 then min station_limit current_limit else current_limit);
            w = max 0 avail * (soft / 100)
        in d\<lparr>dk_since := since, dk_soft_pct := soft, dk_power := w, dk_v := v,
             dk_a := (if v \<le> 0 then 0 else w / v)\<rparr>
      else d\<lparr>dk_since := 0\<rparr>)"

text \<open>
  Power distribution under overcurrent: shed the burst link, the radar and the transponder, then
  throttle motion, then the thrusters, then give up with a fault.
\<close>

definition pdu_shed_nbl :: "loads \<times> nbl \<times> power \<Rightarrow> loads \<times> nbl \<times> power" where
  "pdu_shed_nbl x =
     (let (l, n, w) = x
      in if ld_nbl l > 0
         then (l\<lparr>ld_nbl := 0\<rparr>, n\<lparr>nb_allowed := False\<rparr>, shed [''nbl''] ''pdu_overcurrent'' w) else x)"

definition pdu_shed_radar :: "loads \<times> nbl \<times> power \<Rightarrow> loads \<times> nbl \<times> power" where
  "pdu_shed_radar x =
     (let (l, n, w) = x
      in if ld_radar l > 0
         then (l\<lparr>ld_radar := 0\<rparr>, n, shed [''radar''] ''pdu_overcurrent'' (w\<lparr>pw_radar_allowed := False\<rparr>)) else x)"

definition pdu_shed_transponder :: "loads \<times> nbl \<times> power \<Rightarrow> loads \<times> nbl \<times> power" where
  "pdu_shed_transponder x =
     (let (l, n, w) = x
      in if ld_transponder l > 0
         then (l\<lparr>ld_transponder := 0\<rparr>, n,
               shed [''transponder''] ''pdu_overcurrent'' (w\<lparr>pw_transponder_allowed := False\<rparr>)) else x)"

definition pdu_shed :: "loads \<times> nbl \<times> power \<Rightarrow> loads \<times> nbl \<times> power" where
  "pdu_shed x = pdu_shed_transponder (pdu_shed_radar (pdu_shed_nbl x))"

definition throttle_note :: "string \<Rightarrow> power \<Rightarrow> power" where
  "throttle_note name w = w\<lparr>pw_pdu_throttled := True, pw_throttled := pw_throttled w @ [name]\<rparr>"

definition pdu_throttle_motion :: "sim_params \<Rightarrow> real \<Rightarrow> loads \<times> power \<Rightarrow> loads \<times> power" where
  "pdu_throttle_motion p limit x =
     (let (l, w) = x
      in if total_out p l > limit \<and> ld_motion l > 0
         then (l\<lparr>ld_motion := ld_motion l - min (total_out p l - limit) (ld_motion l)\<rparr>, throttle_note ''motion'' w)
         else (l, w))"

definition pdu_throttle_rcs ::
  "sim_params \<Rightarrow> real \<Rightarrow> loads \<times> rcs \<times> power \<Rightarrow> loads \<times> rcs \<times> power" where
  "pdu_throttle_rcs p limit x =
     (let (l, r, w) = x
      in if total_out p l > limit \<and> ld_rcs l > 0
         then let reduced = min (total_out p l - limit) (ld_rcs l)
              in if reduced > 0
                 then let before = max (1 / 10 ^ 9) (ld_rcs l); rest = ld_rcs l - reduced;
                          ratio = clamp 0 1 (rest / before)
                      in (l\<lparr>ld_rcs := rest\<rparr>, apply_throttle_ratio ratio ''pdu_overcurrent'' r, throttle_note ''rcs'' w)
                 else (l, r, w)
         else (l, r, w))"

definition pdu_step ::
  "sim_params \<Rightarrow> loads \<Rightarrow> nbl \<Rightarrow> rcs \<Rightarrow> power \<Rightarrow> loads \<times> nbl \<times> rcs \<times> power" where
  "pdu_step p l n r w =
     (let limit = pdu_limit p w
      in if limit > 0 \<and> total_out p l > limit
         then let (l1, n1, w1) = pdu_shed (l, n, w);
                  (l2, w2) = pdu_throttle_motion p limit (l1, w1);
                  (l3, r1, w3) = pdu_throttle_rcs p limit (l2, r, w2);
                  w4 = (if total_out p l3 > limit then add_fault ''PDU_OVERCURRENT'' w3 else w3)
              in (l3, n1, r1, w4)
         else (l, n, r, w))"

definition sc_cap_left :: "sim_params \<Rightarrow> power \<Rightarrow> real" where
  "sc_cap_left p w = max 0 (sp_sc_capacity p - pw_sc_energy w)"

definition sc_max_charge :: "sim_params \<Rightarrow> real \<Rightarrow> real" where
  "sc_max_charge p dt = (max 0 (sp_sc_max_charge_w p) * dt) / 3600"

definition sc_max_discharge :: "sim_params \<Rightarrow> real \<Rightarrow> real" where
  "sc_max_discharge p dt = (max 0 (sp_sc_max_discharge_w p) * dt) / 3600"

definition sc_charge_wh :: "sim_params \<Rightarrow> real \<Rightarrow> power \<Rightarrow> real" where
  "sc_charge_wh p dt w =
     min (min ((pw_in w - pw_out w) * dt / 3600) (sc_cap_left p w)) (sc_max_charge p dt)"

definition sc_discharge_wh :: "sim_params \<Rightarrow> real \<Rightarrow> power \<Rightarrow> real" where
  "sc_discharge_wh p dt w =
     min (min ((- (pw_in w - pw_out w) * dt) / 3600) (pw_sc_energy w)) (sc_max_discharge p dt)"

definition charges :: "sim_params \<Rightarrow> real \<Rightarrow> power \<Rightarrow> bool" where
  "charges p dt w \<longleftrightarrow> pw_in w - pw_out w > 0 \<and> sc_cap_left p w > 0 \<and> sc_max_charge p dt > 0"

definition discharges :: "sim_params \<Rightarrow> real \<Rightarrow> power \<Rightarrow> bool" where
  "discharges p dt w \<longleftrightarrow> pw_in w - pw_out w < 0 \<and> pw_sc_energy w > 0 \<and> sc_max_discharge p dt > 0"

definition supercap_step :: "sim_params \<Rightarrow> real \<Rightarrow> power \<Rightarrow> power" where
  "supercap_step p dt w =
     (if sp_sc_capacity p > 0 \<and> dt > 0 then
        let w1 = (if charges p dt w then
                    let charge = sc_charge_wh p dt w; charge_w = charge * 3600 / dt
                    in w\<lparr>pw_sc_energy := pw_sc_energy w + charge, pw_sc_charge := charge_w,
                         pw_out := pw_out w + charge_w\<rparr>
                  else if discharges p dt w then
                    let discharge = sc_discharge_wh p dt w; discharge_w = discharge * 3600 / dt
                    in w\<lparr>pw_sc_energy := pw_sc_energy w - discharge, pw_sc_discharge := discharge_w,
                         pw_in := pw_in w + discharge_w\<rparr>
                  else w);
            e = clamp 0 (sp_sc_capacity p) (pw_sc_energy w1)
        in w1\<lparr>pw_sc_energy := e, pw_sc_soc := (e / sp_sc_capacity p) * 100\<rparr>
      else w\<lparr>pw_sc_soc := 0\<rparr>)"

definition raw_charge :: "power \<Rightarrow> real" where
  "raw_charge w = max 0 (pw_in w - pw_out w)"

definition raw_discharge :: "power \<Rightarrow> real" where
  "raw_discharge w = max 0 (- (pw_in w - pw_out w))"

text \<open>A limit that is not positive limits nothing.\<close>

definition over_limit :: "real \<Rightarrow> real \<Rightarrow> bool" where
  "over_limit lm x \<longleftrightarrow> max 0 lm > 0 \<and> x > max 0 lm"

definition limited :: "real \<Rightarrow> real \<Rightarrow> real" where
  "limited lm x = (if over_limit lm x then max 0 lm else x)"

definition note_charge_limit :: "sim_params \<Rightarrow> power \<Rightarrow> power" where
  "note_charge_limit p w =
     (if over_limit (sp_battery_max_charge_w p) (raw_charge w)
      then (add_fault ''BATTERY_CHARGE_LIMIT'' w)\<lparr>pw_spill := raw_charge w - max 0 (sp_battery_max_charge_w p)\<rparr>
      else w)"

definition note_discharge_limit :: "sim_params \<Rightarrow> power \<Rightarrow> power" where
  "note_discharge_limit p w =
     (if over_limit (sp_battery_max_discharge_w p) (raw_discharge w)
      then (add_fault ''BATTERY_DISCHARGE_LIMIT'' w)
             \<lparr>pw_unserved := raw_discharge w - max 0 (sp_battery_max_discharge_w p)\<rparr>
      else w)"

definition battery_charge_w :: "sim_params \<Rightarrow> power \<Rightarrow> real" where
  "battery_charge_w p w = max 0 (limited (sp_battery_max_charge_w p) (raw_charge w))"

definition battery_discharge_w :: "sim_params \<Rightarrow> power \<Rightarrow> real" where
  "battery_discharge_w p w = max 0 (limited (sp_battery_max_discharge_w p) (raw_discharge w))"

definition battery_integrate :: "sim_params \<Rightarrow> real \<Rightarrow> power \<Rightarrow> power" where
  "battery_integrate p dt w =
     w\<lparr>pw_bat_charge := battery_charge_w p w, pw_bat_discharge := battery_discharge_w p w,
       pw_battery := clamp 0 100 (pw_battery w +
         ((battery_charge_w p w - battery_discharge_w p w) * dt / 3600 / sp_battery_wh p) * 100)\<rparr>"

definition bus_current :: "power \<Rightarrow> power" where
  "bus_current w = w\<lparr>pw_bus_a := (if pw_bus_v w \<le> 0 then 0 else pw_out w / pw_bus_v w)\<rparr>"

definition battery_update :: "sim_params \<Rightarrow> real \<Rightarrow> power \<Rightarrow> power" where
  "battery_update p dt w =
     (if sp_battery_wh p > 0
      then battery_integrate p dt (note_discharge_limit p (note_charge_limit p w))
      else add_fault ''BATTERY_CAPACITY_ZERO'' (w\<lparr>pw_battery := clamp 0 100 (pw_battery w)\<rparr>))"

definition note_empty :: "power \<Rightarrow> power" where
  "note_empty w = (if pw_battery w \<le> 0 \<and> pw_bat_discharge w > 0 then add_fault ''BATTERY_EMPTY'' w else w)"

definition battery_step :: "sim_params \<Rightarrow> real \<Rightarrow> power \<Rightarrow> power" where
  "battery_step p dt w = note_empty (battery_update p dt (bus_current w))"

definition finish_power :: "sim_params \<Rightarrow> loads \<Rightarrow> dock \<Rightarrow> power \<Rightarrow> power" where
  "finish_power p l d w =
     (let w1 = w\<lparr>pw_shed_loads := dedup (pw_shed_loads w), pw_shed_reasons := dedup (pw_shed_reasons w),
                 pw_throttled := dedup (pw_throttled w), pw_faults := dedup (pw_faults w)\<rparr>
      in w1\<lparr>pw_load_shedding := (pw_shed_loads w1 \<noteq> []),
            pw_loads := [(''base'', sp_base_out_w p), (''motion'', ld_motion l), (''mcqpu'', ld_mcqpu l),
              (''radar'', ld_radar l), (''transponder'', ld_transponder l), (''nbl'', ld_nbl l),
              (''rcs'', ld_rcs l), (''supercap_charge'', pw_sc_charge w)],
            pw_sources := [(''base'', sp_base_in_w p), (''dock'', dk_power d),
              (''supercap_discharge'', pw_sc_discharge w)]\<rparr>)"

text \<open>What each load asks for, once the permissions of this tick are known.\<close>

definition demanded_loads :: "sim_params \<Rightarrow> sim \<Rightarrow> power \<Rightarrow> real \<Rightarrow> real \<Rightarrow> loads" where
  "demanded_loads p m w nbl_out rcs_out =
     \<lparr>ld_motion = \<bar>m_speed m\<bar> * sp_motion_w p,
      ld_mcqpu = (mq_cpu_pct (m_mcqpu m) / 100) * sp_mcqpu_w p,
      ld_radar = (if m_radar_enabled m \<and> pw_radar_allowed w then sp_radar_w p else 0),
      ld_transponder = (if m_transponder_active m \<and> pw_transponder_allowed w then sp_transponder_w p else 0),
      ld_nbl = nbl_out, ld_rcs = rcs_out\<rparr>"

definition power_step :: "sim_params \<Rightarrow> real \<Rightarrow> sim \<Rightarrow> sim" where
  "power_step p dt m =
     (let w0 = begin_power (m_power m);
          w1 = bus_step p w0;
          soc = soc_of w0;
          w2 = thermal_shed_step m (soc_shed_step p w1);
          (r1, rcs_out) = rcs_step (sp_rcs p) (m_time m) dt (m_rcs m);
          (n1, w3, nbl_out) = nbl_step p m soc (begin_nbl (m_nbl m)) w2;
          d1 = dock_step p dt (begin_dock (m_dock m));
          (l, n2, r2, w4) = pdu_step p (demanded_loads p m w2 nbl_out rcs_out) n1 r1 w3;
          power_in = (if dk_connected d1 then sp_base_in_w p + dk_power d1 else sp_base_in_w p);
          w5 = w4\<lparr>pw_in := max 0 power_in, pw_out := max 0 (total_out p l)\<rparr>;
          w6 = finish_power p l d1 (battery_step p dt (supercap_step p dt w5));
          n3 = n2\<lparr>nb_power := ld_nbl l, nb_allowed := (if ld_nbl l \<le> 0 then False else nb_allowed n2)\<rparr>
      in m\<lparr>m_power := w6, m_dock := d1, m_nbl := n3, m_rcs := r2, m_rcs_power := ld_rcs l\<rparr>)"

section \<open>Thermal plane\<close>

definition heat_sources :: "sim_params \<Rightarrow> sim \<Rightarrow> string \<Rightarrow> real" where
  "heat_sources p m nid =
     (let w = m_power m; d = m_dock m;
          mcqpu_w = clamp 0 1 (mq_cpu_pct (m_mcqpu m) / 100) * sp_mcqpu_w p
      in if nid = ''core'' then 0.8 * mcqpu_w + 0.7 * nb_power (m_nbl m)
         else if nid = ''pdu'' then 0.02 * pw_out w + 0.4 * \<bar>pw_bus_a w\<bar>\<^sup>2
         else if nid = ''supercap'' then 0.03 * (pw_sc_charge w + pw_sc_discharge w)
         else if nid = ''dock_bridge'' then 0.25 * \<bar>dk_a d\<bar>\<^sup>2
         else if nid = ''battery'' then 0.01 * \<bar>pw_in w - pw_out w\<bar>
         else if nid = ''hull'' \<and> m_rcs_power m > 0 then sp_rcs_heat_fraction p * m_rcs_power m
         else 0)"

definition clamp_temp :: "real \<Rightarrow> real" where
  "clamp_temp t = clamp (- 120) 160 t"

definition next_temp :: "sim_params \<Rightarrow> real \<Rightarrow> sim \<Rightarrow> string \<Rightarrow> thermal_node \<Rightarrow> real" where
  "next_temp p dt m nid node =
     (let t = dict_getd (m_temps m) nid 0;
          amb = m_temp_external m;
          cap = max 1 (tn_cap node);
          cool = max 0 (tn_cool node) + max 0 (sp_ambient_exchange p);
          net0 = heat_sources p m nid - cool * (t - amb);
          net = foldl (\<lambda>acc (other, k). case dict_get (m_temps m) other of None \<Rightarrow> acc
                         | Some ot \<Rightarrow> acc - k * (t - ot)) net0 (dict_getd (sp_couplings p) nid []);
          t2 = clamp_temp (t + (net / cap) * dt)
      in if t \<ge> amb \<and> t2 < amb then clamp_temp amb else t2)"

definition trip_step :: "sim_params \<Rightarrow> (string, real) dict \<Rightarrow> (string, bool) dict \<times> string list \<Rightarrow>
    string \<times> thermal_node \<Rightarrow> (string, bool) dict \<times> string list" where
  "trip_step p temps acc kn =
     (let (trips, faults) = acc; (nid, node) = kn
      in if tn_trip node \<le> 0 then (trips, faults)
         else
           let state = trip_switch (tn_trip node) (tn_hys node) (dict_getd trips nid False) (dict_getd temps nid 0)
           in (dict_set trips nid state, if state then faults @ [''THERMAL_TRIP:'' @ nid] else faults))"

text \<open>\<open>prev_t\<close> holds the temperatures of all nodes before the step, so each new one is computed from it.\<close>

definition thermal_step :: "sim_params \<Rightarrow> real \<Rightarrow> sim \<Rightarrow> sim" where
  "thermal_step p dt m =
     (if \<not> sp_thermal_enabled p \<or> sp_nodes p = [] \<or> max 0 dt \<le> 0 then m
      else
        let temps = map (\<lambda>(nid, node). (nid, next_temp p (max 0 dt) m nid node)) (sp_nodes p);
            (trips, faults) = foldl (trip_step p temps) (m_trips m, pw_faults (m_power m)) (sp_nodes p)
        in m\<lparr>m_temps := temps, m_trips := trips, m_power := (m_power m)\<lparr>pw_faults := faults\<rparr>,
             m_temp_core := (case dict_get temps ''core'' of None \<Rightarrow> m_temp_core m | Some t \<Rightarrow> t),
             m_dock := (case dict_get temps ''dock_bridge'' of None \<Rightarrow> m_dock m
                        | Some t \<Rightarrow> (m_dock m)\<lparr>dk_temp := t\<rparr>)\<rparr>)"

section \<open>The step\<close>

definition sim_step :: "sim_params \<Rightarrow> real \<Rightarrow> sim \<Rightarrow> sim" where
  "sim_step p dt m =
     (let m1 = thermal_step p dt (power_step p dt (motion_step p dt m))
      in m1\<lparr>m_power := (m_power m1)\<lparr>pw_faults := dedup (pw_faults (m_power m1))\<rparr>\<rparr>)"

section \<open>What happens to a world\<close>

text \<open>Numbers of events are finite, but for the values of commands.\<close>

datatype sim_event =
    Ev_step real
  | Ev_command sim_command
  | Ev_loads bool int int bool
  | Ev_dock bool
  | Ev_docking bool
  | Ev_port "string option"
  | Ev_nbl bool
  | Ev_nbl_max real
  | Ev_rcs "string option" real real

fun sim_apply :: "sim_params \<Rightarrow> sim \<Rightarrow> sim_event \<Rightarrow> sim option" where
  "sim_apply p m (Ev_step dt) = Some (sim_step p dt m)"
| "sim_apply p m (Ev_command c) = sim_update p c m"
| "sim_apply p m (Ev_loads r sq aq t) = Some (set_runtime_load_inputs r sq aq t m)"
| "sim_apply p m (Ev_dock b) = Some (m\<lparr>m_dock := set_dock_connected b (m_dock m)\<rparr>)"
| "sim_apply p m (Ev_docking b) = Some (m\<lparr>m_dock := fst (set_docking_connected p b (m_dock m))\<rparr>)"
| "sim_apply p m (Ev_port port) = Some (m\<lparr>m_dock := fst (set_docking_port p port (m_dock m))\<rparr>)"
| "sim_apply p m (Ev_nbl b) = Some (m\<lparr>m_nbl := set_nbl_active b (m_nbl m)\<rparr>)"
| "sim_apply p m (Ev_nbl_max w) = Some (m\<lparr>m_nbl := set_nbl_max_power_w w (m_nbl m)\<rparr>)"
| "sim_apply p m (Ev_rcs axis pct dur) = Some (m\<lparr>m_rcs := fst (set_rcs_command (sp_rcs p) axis pct dur (m_rcs m))\<rparr>)"

text \<open>A run; it has no result from the first event on that has none.\<close>

fun sim_event_step :: "sim_params \<Rightarrow> sim option \<Rightarrow> sim_event \<Rightarrow> sim option" where
  "sim_event_step p None e = None"
| "sim_event_step p (Some m) e = sim_apply p m e"

abbreviation sim_events :: "sim_params \<Rightarrow> sim \<Rightarrow> sim_event list \<Rightarrow> sim option" where
  "sim_events p m es \<equiv> foldl (sim_event_step p) (Some m) es"

definition unbounded_rotation :: "sim_event \<Rightarrow> bool" where
  "unbounded_rotation e \<longleftrightarrow>
     (case e of Ev_command c \<Rightarrow> (case sc_value c of CV_float x \<Rightarrow> sc_type c = SC_ROTATE \<and> \<not> isfinite x | _ \<Rightarrow> False) | _ \<Rightarrow> False)"

lemma sim_apply_None: "sim_apply p m e = None \<Longrightarrow> unbounded_rotation e"
proof (cases e)
  case (Ev_command c)
  assume "sim_apply p m e = None"
  with Ev_command show ?thesis
    by (cases "sc_value c")
      (auto simp: sim_update_def unbounded_rotation_def Let_def split: if_splits option.splits pyfloat.splits)
qed simp_all

lemma sim_events_None: "sim_events p m es = None \<Longrightarrow> list_ex unbounded_rotation es"
proof (induction es rule: rev_induct)
  case (snoc e es)
  then show ?case by (cases "sim_events p m es") (auto dest: sim_apply_None)
qed simp

section \<open>The switches\<close>

interpretation soc: hysteresis "soc_switch low high" "\<lambda>x. x \<le> low" "\<lambda>x. high \<le> x" for low high
  by unfold_locales (auto simp: soc_switch_def Let_def)

interpretation trip: hysteresis "trip_switch t hys" "\<lambda>x. t \<le> x" "\<lambda>x. x \<le> t - hys" for t hys
  by unfold_locales (auto simp: trip_switch_def Let_def)

end
