(* ===== verification/Sim_Power.thy ===== *)
theory Sim_Power
  imports Sim_World
begin

text \<open>
  Properties of one tick of the simulated power and thermal planes: what each part of the tick
  leaves alone, the bounds of the quantities it computes, the overcurrent guard, the supercap's
  energy balance, load shedding by state of charge and thermal trips.
\<close>

named_theorems power_keeps \<comment> \<open>fields of the power record that a part of the tick leaves alone\<close>

section \<open>What the parts of the tick leave alone\<close>

lemma bus_step_keeps [power_keeps, simp]:
  "pw_battery (bus_step p w) = pw_battery w" "pw_sc_energy (bus_step p w) = pw_sc_energy w"
  "pw_soc_shed (bus_step p w) = pw_soc_shed w" "pw_spill (bus_step p w) = pw_spill w"
  "pw_unserved (bus_step p w) = pw_unserved w" "pw_sc_charge (bus_step p w) = pw_sc_charge w"
  "pw_sc_discharge (bus_step p w) = pw_sc_discharge w"
  by (simp_all add: bus_step_def add_fault_def Let_def)

lemma begin_power_keeps [power_keeps, simp]:
  "pw_battery (begin_power w) = pw_battery w" "pw_sc_energy (begin_power w) = pw_sc_energy w"
  "pw_soc_shed (begin_power w) = pw_soc_shed w" "pw_spill (begin_power w) = pw_spill w"
  "pw_unserved (begin_power w) = pw_unserved w" "pw_sc_charge (begin_power w) = 0"
  "pw_sc_discharge (begin_power w) = 0"
  by (simp_all add: begin_power_def)

lemma shed_keeps [power_keeps, simp]:
  "pw_battery (shed ls r w) = pw_battery w" "pw_sc_energy (shed ls r w) = pw_sc_energy w"
  "pw_soc_shed (shed ls r w) = pw_soc_shed w" "pw_spill (shed ls r w) = pw_spill w"
  "pw_unserved (shed ls r w) = pw_unserved w" "pw_bus_v (shed ls r w) = pw_bus_v w"
  "pw_radar_allowed (shed ls r w) = pw_radar_allowed w"
  "pw_transponder_allowed (shed ls r w) = pw_transponder_allowed w"
  "pw_sc_charge (shed ls r w) = pw_sc_charge w" "pw_sc_discharge (shed ls r w) = pw_sc_discharge w"
  "pw_faults (shed ls r w) = pw_faults w"
  by (simp_all add: shed_def)

lemma throttle_note_keeps [power_keeps, simp]:
  "pw_battery (throttle_note x w) = pw_battery w" "pw_sc_energy (throttle_note x w) = pw_sc_energy w"
  "pw_soc_shed (throttle_note x w) = pw_soc_shed w" "pw_spill (throttle_note x w) = pw_spill w"
  "pw_unserved (throttle_note x w) = pw_unserved w" "pw_bus_v (throttle_note x w) = pw_bus_v w"
  "pw_radar_allowed (throttle_note x w) = pw_radar_allowed w"
  "pw_transponder_allowed (throttle_note x w) = pw_transponder_allowed w"
  "pw_sc_charge (throttle_note x w) = pw_sc_charge w" "pw_sc_discharge (throttle_note x w) = pw_sc_discharge w"
  "pw_faults (throttle_note x w) = pw_faults w"
  by (simp_all add: throttle_note_def)

lemma add_fault_keeps [power_keeps, simp]:
  "pw_battery (add_fault f w) = pw_battery w" "pw_sc_energy (add_fault f w) = pw_sc_energy w"
  "pw_soc_shed (add_fault f w) = pw_soc_shed w" "pw_spill (add_fault f w) = pw_spill w"
  "pw_unserved (add_fault f w) = pw_unserved w" "pw_bus_v (add_fault f w) = pw_bus_v w"
  "pw_radar_allowed (add_fault f w) = pw_radar_allowed w"
  "pw_transponder_allowed (add_fault f w) = pw_transponder_allowed w"
  "pw_sc_charge (add_fault f w) = pw_sc_charge w" "pw_sc_discharge (add_fault f w) = pw_sc_discharge w"
  "pw_faults (add_fault f w) = pw_faults w @ [f]" "pw_in (add_fault f w) = pw_in w"
  "pw_out (add_fault f w) = pw_out w" "pw_bat_charge (add_fault f w) = pw_bat_charge w"
  "pw_bat_discharge (add_fault f w) = pw_bat_discharge w" "pw_sc_soc (add_fault f w) = pw_sc_soc w"
  by (simp_all add: add_fault_def)

lemma soc_shed_step_keeps [power_keeps, simp]:
  "pw_battery (soc_shed_step p w) = pw_battery w" "pw_sc_energy (soc_shed_step p w) = pw_sc_energy w"
  "pw_spill (soc_shed_step p w) = pw_spill w" "pw_unserved (soc_shed_step p w) = pw_unserved w"
  "pw_bus_v (soc_shed_step p w) = pw_bus_v w" "pw_sc_charge (soc_shed_step p w) = pw_sc_charge w"
  "pw_sc_discharge (soc_shed_step p w) = pw_sc_discharge w"
  "pw_soc_shed (soc_shed_step p w) = soc_switch (sp_soc_low p) (sp_soc_high p) (pw_soc_shed w) (soc_of w)"
  "pw_radar_allowed (soc_shed_step p w) \<longleftrightarrow> \<not> pw_soc_shed (soc_shed_step p w)"
  "pw_transponder_allowed (soc_shed_step p w) \<longleftrightarrow> \<not> pw_soc_shed (soc_shed_step p w)"
  by (simp_all add: soc_shed_step_def Let_def)

lemma thermal_shed_step_keeps [power_keeps, simp]:
  "pw_battery (thermal_shed_step m w) = pw_battery w" "pw_sc_energy (thermal_shed_step m w) = pw_sc_energy w"
  "pw_soc_shed (thermal_shed_step m w) = pw_soc_shed w" "pw_spill (thermal_shed_step m w) = pw_spill w"
  "pw_unserved (thermal_shed_step m w) = pw_unserved w" "pw_bus_v (thermal_shed_step m w) = pw_bus_v w"
  "pw_sc_charge (thermal_shed_step m w) = pw_sc_charge w"
  "pw_sc_discharge (thermal_shed_step m w) = pw_sc_discharge w"
  "pw_radar_allowed (thermal_shed_step m w) \<longleftrightarrow> pw_radar_allowed w \<and> \<not> tripped m ''pdu''"
  "pw_transponder_allowed (thermal_shed_step m w) \<longleftrightarrow> pw_transponder_allowed w \<and> \<not> tripped m ''pdu''"
  by (simp_all add: thermal_shed_step_def Let_def)

section \<open>The overcurrent guard\<close>

text \<open>The power record before and after a part that only sheds, throttles and reports.\<close>

definition only_sheds :: "power \<Rightarrow> power \<Rightarrow> bool" where
  "only_sheds w w' \<longleftrightarrow>
     pw_battery w' = pw_battery w \<and> pw_sc_energy w' = pw_sc_energy w \<and> pw_soc_shed w' = pw_soc_shed w \<and>
     pw_spill w' = pw_spill w \<and> pw_unserved w' = pw_unserved w \<and> pw_bus_v w' = pw_bus_v w \<and>
     pw_sc_charge w' = pw_sc_charge w \<and> pw_sc_discharge w' = pw_sc_discharge w \<and>
     (pw_radar_allowed w' \<longrightarrow> pw_radar_allowed w) \<and> (pw_transponder_allowed w' \<longrightarrow> pw_transponder_allowed w) \<and>
     set (pw_faults w) \<subseteq> set (pw_faults w')"

lemma only_sheds_refl [simp]: "only_sheds w w"
  by (simp add: only_sheds_def)

lemma only_sheds_trans: "only_sheds a b \<Longrightarrow> only_sheds b c \<Longrightarrow> only_sheds a c"
  by (auto simp: only_sheds_def)

lemma only_sheds_parts [simp]:
  "only_sheds w (shed ls r w)" "only_sheds w (throttle_note x w)" "only_sheds w (add_fault f w)"
  "only_sheds w (shed ls r (w\<lparr>pw_radar_allowed := False\<rparr>))"
  "only_sheds w (shed ls r (w\<lparr>pw_transponder_allowed := False\<rparr>))"
  by (auto simp: only_sheds_def)

lemma nbl_step_sheds: "nbl_step p m soc n w = (n1, w1, out) \<Longrightarrow> only_sheds w w1"
  by (auto simp: nbl_step_def Let_def split: if_splits)

lemma nbl_step_out: "nbl_step p m soc n w = (n1, w1, out) \<Longrightarrow> 0 \<le> out"
  by (auto simp: nbl_step_def Let_def split: if_splits)

lemma pdu_shed_parts_shed:
  "only_sheds (snd (snd x)) (snd (snd (pdu_shed_nbl x)))"
  "only_sheds (snd (snd x)) (snd (snd (pdu_shed_radar x)))"
  "only_sheds (snd (snd x)) (snd (snd (pdu_shed_transponder x)))"
  by (cases x; simp add: pdu_shed_nbl_def pdu_shed_radar_def pdu_shed_transponder_def)+

lemma pdu_shed_sheds: "pdu_shed (l, n, w) = (l1, n1, w1) \<Longrightarrow> only_sheds w w1"
proof -
  have "only_sheds (snd (snd x)) (snd (snd (pdu_shed x)))" for x
    unfolding pdu_shed_def
    by (rule only_sheds_trans [OF only_sheds_trans [OF pdu_shed_parts_shed(1) pdu_shed_parts_shed(2)]
          pdu_shed_parts_shed(3)])
  from this [of "(l, n, w)"] show "pdu_shed (l, n, w) = (l1, n1, w1) \<Longrightarrow> only_sheds w w1" by simp
qed

lemma pdu_throttle_motion_sheds: "pdu_throttle_motion p lm (l, w) = (l1, w1) \<Longrightarrow> only_sheds w w1"
  by (auto simp: pdu_throttle_motion_def split: if_splits)

lemma pdu_throttle_rcs_sheds: "pdu_throttle_rcs p lm (l, r, w) = (l1, r1, w1) \<Longrightarrow> only_sheds w w1"
  by (auto simp: pdu_throttle_rcs_def Let_def split: if_splits)

lemma pdu_throttle_rcs_rcs:
  "pdu_throttle_rcs p lm (l, r, w) = (l1, r1, w1) \<Longrightarrow> rcs_ok r1 = rcs_ok r \<and> rc_propellant r1 = rc_propellant r"
  by (auto simp: pdu_throttle_rcs_def Let_def split: if_splits)

lemma pdu_step_cases:
  assumes "pdu_step p l n r w = (l', n', r', w')"
  obtains "l' = l" "n' = n" "r' = r" "w' = w" "\<not> (pdu_limit p w > 0 \<and> total_out p l > pdu_limit p w)"
  | l1 n1 w1 l2 w2 w3 where "pdu_limit p w > 0" "pdu_shed (l, n, w) = (l1, n1, w1)"
      "pdu_throttle_motion p (pdu_limit p w) (l1, w1) = (l2, w2)"
      "pdu_throttle_rcs p (pdu_limit p w) (l2, r, w2) = (l', r', w3)" "n' = n1"
      "w' = (if total_out p l' > pdu_limit p w then add_fault ''PDU_OVERCURRENT'' w3 else w3)"
proof (cases "pdu_limit p w > 0 \<and> total_out p l > pdu_limit p w")
  case True
  obtain l1 n1 w1 where a: "pdu_shed (l, n, w) = (l1, n1, w1)" by (metis prod_cases3)
  obtain l2 w2 where b: "pdu_throttle_motion p (pdu_limit p w) (l1, w1) = (l2, w2)" by (metis prod.exhaust)
  obtain l3 r3 w3 where c: "pdu_throttle_rcs p (pdu_limit p w) (l2, r, w2) = (l3, r3, w3)" by (metis prod_cases3)
  from assms True a b c have "l3 = l'" "r3 = r'" "n' = n1"
    "w' = (if total_out p l' > pdu_limit p w then add_fault ''PDU_OVERCURRENT'' w3 else w3)"
    by (auto simp: pdu_step_def)
  with True a b c show thesis by (intro that(2)) simp_all
next
  case False
  with assms show thesis by (intro that(1)) (simp_all add: pdu_step_def Let_def)
qed

lemma pdu_step_effect:
  assumes "pdu_step p l n r w = (l', n', r', w')"
  shows "only_sheds w w' \<and> rcs_ok r' = rcs_ok r \<and> rc_propellant r' = rc_propellant r \<and>
         (pdu_limit p w \<le> 0 \<or> total_out p l' \<le> pdu_limit p w \<or> ''PDU_OVERCURRENT'' \<in> set (pw_faults w'))"
proof (cases rule: pdu_step_cases [OF assms])
  case 1
  then show ?thesis by auto
next
  case (2 l1 n1 w1 l2 w2 w3)
  from pdu_shed_sheds [OF 2(2)] pdu_throttle_motion_sheds [OF 2(3)] pdu_throttle_rcs_sheds [OF 2(4)]
  have "only_sheds w w3" by (metis only_sheds_trans)
  moreover have "only_sheds w3 w'" by (simp add: 2(6))
  ultimately have "only_sheds w w'" by (rule only_sheds_trans)
  with pdu_throttle_rcs_rcs [OF 2(4)] 2(6) show ?thesis by auto
qed

section \<open>Supercap and battery\<close>

text \<open>
  The supercap's tick in terms of one signed flow of energy: positive when it charges. What it
  charges with is drawn from the bus, what it discharges is supplied to it.
\<close>

definition sc_flow :: "sim_params \<Rightarrow> real \<Rightarrow> power \<Rightarrow> real" where
  "sc_flow p dt w =
     (if charges p dt w then sc_charge_wh p dt w else if discharges p dt w then - sc_discharge_wh p dt w else 0)"

lemma sc_charge_wh_range: "charges p dt w \<Longrightarrow> 0 < dt \<Longrightarrow>
    0 < sc_charge_wh p dt w \<and> sc_charge_wh p dt w \<le> sp_sc_capacity p - pw_sc_energy w"
  by (auto simp: charges_def sc_charge_wh_def sc_cap_left_def min_def max_def split: if_splits)

lemma sc_discharge_wh_range: "discharges p dt w \<Longrightarrow> 0 < dt \<Longrightarrow>
    0 < sc_discharge_wh p dt w \<and> sc_discharge_wh p dt w \<le> pw_sc_energy w"
  by (auto simp: discharges_def sc_discharge_wh_def)

lemma charges_excl: "charges p dt w \<Longrightarrow> \<not> discharges p dt w"
  by (simp add: charges_def discharges_def)

lemma sc_flow_sign: "0 < dt \<Longrightarrow>
    (charges p dt w \<longrightarrow> 0 < sc_flow p dt w) \<and> (discharges p dt w \<longrightarrow> sc_flow p dt w < 0)"
  using sc_charge_wh_range sc_discharge_wh_range charges_excl by (auto simp: sc_flow_def)

lemma sc_flow_range:
  assumes "0 < dt" "0 \<le> pw_sc_energy w" "pw_sc_energy w \<le> sp_sc_capacity p"
  shows "0 \<le> pw_sc_energy w + sc_flow p dt w \<and> pw_sc_energy w + sc_flow p dt w \<le> sp_sc_capacity p"
proof (cases "charges p dt w")
  case True
  with sc_charge_wh_range [OF True assms(1)] assms show ?thesis by (simp add: sc_flow_def)
next
  case no: False
  show ?thesis
  proof (cases "discharges p dt w")
    case True
    with no sc_discharge_wh_range [OF True assms(1)] assms show ?thesis by (simp add: sc_flow_def)
  qed (use no assms in \<open>simp add: sc_flow_def\<close>)
qed

lemma sc_flow_le_max_charge: "0 < dt \<Longrightarrow> max 0 (sc_flow p dt w) \<le> max 0 (sp_sc_max_charge_w p) * dt / 3600"
  using sc_flow_sign [of dt p w]
  by (cases "charges p dt w"; cases "discharges p dt w")
    (simp_all add: sc_flow_def sc_charge_wh_def sc_max_charge_def)

lemma supercap_step_unfold:
  assumes "0 < sp_sc_capacity p" "0 < dt"
  shows "supercap_step p dt w =
    (let f = sc_flow p dt w;
         w1 = (if charges p dt w
               then w\<lparr>pw_sc_energy := pw_sc_energy w + f, pw_sc_charge := f * 3600 / dt, pw_out := pw_out w + f * 3600 / dt\<rparr>
               else if discharges p dt w
               then w\<lparr>pw_sc_energy := pw_sc_energy w + f, pw_sc_discharge := - f * 3600 / dt,
                      pw_in := pw_in w + - f * 3600 / dt\<rparr>
               else w);
         e = clamp 0 (sp_sc_capacity p) (pw_sc_energy w + f)
     in w1\<lparr>pw_sc_energy := e, pw_sc_soc := e / sp_sc_capacity p * 100\<rparr>)"
  using assms
  by (cases "charges p dt w"; cases "discharges p dt w")
    (simp_all add: supercap_step_def Let_def sc_flow_def)

lemma supercap_step_flow:
  assumes "0 < sp_sc_capacity p" "0 < dt" "0 \<le> pw_sc_energy w" "pw_sc_energy w \<le> sp_sc_capacity p"
    "pw_sc_charge w = 0" "pw_sc_discharge w = 0"
  shows "pw_sc_energy (supercap_step p dt w) = pw_sc_energy w + sc_flow p dt w \<and>
         pw_sc_charge (supercap_step p dt w) = max 0 (sc_flow p dt w) * 3600 / dt \<and>
         pw_sc_discharge (supercap_step p dt w) = max 0 (- sc_flow p dt w) * 3600 / dt \<and>
         pw_out (supercap_step p dt w) = pw_out w + pw_sc_charge (supercap_step p dt w) \<and>
         pw_in (supercap_step p dt w) = pw_in w + pw_sc_discharge (supercap_step p dt w) \<and>
         pw_sc_soc (supercap_step p dt w) = (pw_sc_energy w + sc_flow p dt w) / sp_sc_capacity p * 100"
proof -
  note range = sc_flow_range [OF assms(2,3,4)]
  note clamped = clamp_id [OF conjunct1 [OF range] conjunct2 [OF range]]
  note sign = sc_flow_sign [OF assms(2), of p w]
  have none: "\<not> charges p dt w \<and> \<not> discharges p dt w \<longrightarrow> sc_flow p dt w = 0" by (simp add: sc_flow_def)
  note unf = supercap_step_unfold [OF assms(1,2), of w] Let_def clamped
  consider (c) "charges p dt w" "0 < sc_flow p dt w" "\<not> discharges p dt w"
    | (d) "\<not> charges p dt w" "discharges p dt w" "sc_flow p dt w < 0"
    | (n) "\<not> charges p dt w" "\<not> discharges p dt w" "sc_flow p dt w = 0"
    using sign charges_excl [of p dt w] none by blast
  then show ?thesis
  proof cases
    case c
    then show ?thesis using assms(5,6) unfolding unf by simp
  next
    case d
    then show ?thesis using assms(5,6) unfolding unf by simp
  next
    case n
    then show ?thesis using assms(5,6) unfolding unf by simp
  qed
qed

lemma supercap_step_keeps [power_keeps, simp]:
  "pw_battery (supercap_step p dt w) = pw_battery w" "pw_soc_shed (supercap_step p dt w) = pw_soc_shed w"
  "pw_spill (supercap_step p dt w) = pw_spill w" "pw_unserved (supercap_step p dt w) = pw_unserved w"
  "pw_bus_v (supercap_step p dt w) = pw_bus_v w" "pw_faults (supercap_step p dt w) = pw_faults w"
  "pw_radar_allowed (supercap_step p dt w) = pw_radar_allowed w"
  "pw_transponder_allowed (supercap_step p dt w) = pw_transponder_allowed w"
  by (simp_all add: supercap_step_def Let_def)

lemma supercap_step_energy:
  assumes "0 \<le> pw_sc_energy w" "pw_sc_energy w \<le> max 0 (sp_sc_capacity p)"
  shows "0 \<le> pw_sc_energy (supercap_step p dt w) \<and>
         pw_sc_energy (supercap_step p dt w) \<le> max 0 (sp_sc_capacity p)"
  using assms by (simp add: supercap_step_def Let_def)

lemma note_charge_limit_keeps [power_keeps, simp]:
  "pw_sc_energy (note_charge_limit p w) = pw_sc_energy w"
  "pw_soc_shed (note_charge_limit p w) = pw_soc_shed w"
  "pw_sc_charge (note_charge_limit p w) = pw_sc_charge w"
  "pw_sc_discharge (note_charge_limit p w) = pw_sc_discharge w"
  "pw_in (note_charge_limit p w) = pw_in w"
  "pw_out (note_charge_limit p w) = pw_out w"
  "pw_bus_v (note_charge_limit p w) = pw_bus_v w"
  "pw_radar_allowed (note_charge_limit p w) = pw_radar_allowed w"
  "pw_transponder_allowed (note_charge_limit p w) = pw_transponder_allowed w"
  "pw_battery (note_charge_limit p w) = pw_battery w"
  by (simp_all add: note_charge_limit_def)

lemma note_discharge_limit_keeps [power_keeps, simp]:
  "pw_sc_energy (note_discharge_limit p w) = pw_sc_energy w"
  "pw_soc_shed (note_discharge_limit p w) = pw_soc_shed w"
  "pw_sc_charge (note_discharge_limit p w) = pw_sc_charge w"
  "pw_sc_discharge (note_discharge_limit p w) = pw_sc_discharge w"
  "pw_in (note_discharge_limit p w) = pw_in w"
  "pw_out (note_discharge_limit p w) = pw_out w"
  "pw_bus_v (note_discharge_limit p w) = pw_bus_v w"
  "pw_radar_allowed (note_discharge_limit p w) = pw_radar_allowed w"
  "pw_transponder_allowed (note_discharge_limit p w) = pw_transponder_allowed w"
  "pw_battery (note_discharge_limit p w) = pw_battery w"
  by (simp_all add: note_discharge_limit_def)

lemma battery_integrate_keeps [power_keeps, simp]:
  "pw_sc_energy (battery_integrate p dt w) = pw_sc_energy w"
  "pw_soc_shed (battery_integrate p dt w) = pw_soc_shed w"
  "pw_sc_charge (battery_integrate p dt w) = pw_sc_charge w"
  "pw_sc_discharge (battery_integrate p dt w) = pw_sc_discharge w"
  "pw_in (battery_integrate p dt w) = pw_in w"
  "pw_out (battery_integrate p dt w) = pw_out w"
  "pw_bus_v (battery_integrate p dt w) = pw_bus_v w"
  "pw_radar_allowed (battery_integrate p dt w) = pw_radar_allowed w"
  "pw_transponder_allowed (battery_integrate p dt w) = pw_transponder_allowed w"
  "pw_spill (battery_integrate p dt w) = pw_spill w"
  "pw_unserved (battery_integrate p dt w) = pw_unserved w"
  "pw_faults (battery_integrate p dt w) = pw_faults w"
  by (simp_all add: battery_integrate_def)

lemma bus_current_keeps [power_keeps, simp]:
  "pw_sc_energy (bus_current w) = pw_sc_energy w"
  "pw_soc_shed (bus_current w) = pw_soc_shed w"
  "pw_sc_charge (bus_current w) = pw_sc_charge w"
  "pw_sc_discharge (bus_current w) = pw_sc_discharge w"
  "pw_in (bus_current w) = pw_in w"
  "pw_out (bus_current w) = pw_out w"
  "pw_bus_v (bus_current w) = pw_bus_v w"
  "pw_radar_allowed (bus_current w) = pw_radar_allowed w"
  "pw_transponder_allowed (bus_current w) = pw_transponder_allowed w"
  "pw_spill (bus_current w) = pw_spill w"
  "pw_unserved (bus_current w) = pw_unserved w"
  "pw_faults (bus_current w) = pw_faults w"
  "pw_battery (bus_current w) = pw_battery w"
  by (simp_all add: bus_current_def)

lemma note_empty_keeps [power_keeps, simp]:
  "pw_sc_energy (note_empty w) = pw_sc_energy w"
  "pw_soc_shed (note_empty w) = pw_soc_shed w"
  "pw_sc_charge (note_empty w) = pw_sc_charge w"
  "pw_sc_discharge (note_empty w) = pw_sc_discharge w"
  "pw_in (note_empty w) = pw_in w"
  "pw_out (note_empty w) = pw_out w"
  "pw_bus_v (note_empty w) = pw_bus_v w"
  "pw_radar_allowed (note_empty w) = pw_radar_allowed w"
  "pw_transponder_allowed (note_empty w) = pw_transponder_allowed w"
  "pw_battery (note_empty w) = pw_battery w"
  "pw_spill (note_empty w) = pw_spill w"
  "pw_unserved (note_empty w) = pw_unserved w"
  by (simp_all add: note_empty_def)

lemma battery_step_keeps [power_keeps, simp]:
  "pw_sc_energy (battery_step p dt w) = pw_sc_energy w"
  "pw_soc_shed (battery_step p dt w) = pw_soc_shed w"
  "pw_sc_charge (battery_step p dt w) = pw_sc_charge w"
  "pw_sc_discharge (battery_step p dt w) = pw_sc_discharge w"
  "pw_in (battery_step p dt w) = pw_in w"
  "pw_out (battery_step p dt w) = pw_out w"
  "pw_bus_v (battery_step p dt w) = pw_bus_v w"
  "pw_radar_allowed (battery_step p dt w) = pw_radar_allowed w"
  "pw_transponder_allowed (battery_step p dt w) = pw_transponder_allowed w"
  by (simp_all add: battery_step_def battery_update_def)

lemma battery_step_faults: "set (pw_faults w) \<subseteq> set (pw_faults (battery_step p dt w))"
  by (auto simp: battery_step_def battery_update_def note_empty_def note_discharge_limit_def note_charge_limit_def)

lemma battery_step_range [simp]:
  "0 \<le> pw_battery (battery_step p dt w)" "pw_battery (battery_step p dt w) \<le> 100"
  by (simp_all add: battery_step_def battery_update_def battery_integrate_def)

lemma finish_power_keeps [power_keeps, simp]:
  "pw_battery (finish_power p l d w) = pw_battery w" "pw_sc_energy (finish_power p l d w) = pw_sc_energy w"
  "pw_soc_shed (finish_power p l d w) = pw_soc_shed w" "pw_spill (finish_power p l d w) = pw_spill w"
  "pw_unserved (finish_power p l d w) = pw_unserved w" "pw_bus_v (finish_power p l d w) = pw_bus_v w"
  "pw_radar_allowed (finish_power p l d w) = pw_radar_allowed w"
  "pw_transponder_allowed (finish_power p l d w) = pw_transponder_allowed w"
  "pw_sc_charge (finish_power p l d w) = pw_sc_charge w"
  "pw_sc_discharge (finish_power p l d w) = pw_sc_discharge w"
  "set (pw_faults (finish_power p l d w)) = set (pw_faults w)"
  "pw_in (finish_power p l d w) = pw_in w" "pw_out (finish_power p l d w) = pw_out w"
  by (simp_all add: finish_power_def Let_def)

section \<open>The power tick as a whole\<close>

text \<open>The record as the shedding by charge and temperature leaves it, before any load is known.\<close>

definition shed_power :: "sim_params \<Rightarrow> sim \<Rightarrow> power" where
  "shed_power p m = thermal_shed_step m (soc_shed_step p (bus_step p (begin_power (m_power m))))"

definition bus_input :: "sim_params \<Rightarrow> dock \<Rightarrow> real" where
  "bus_input p d = (if dk_connected d then sp_base_in_w p + dk_power d else sp_base_in_w p)"

lemma power_step_parts:
  obtains n1 w3 nbl_out rcs_out l n2 r1 r2 w4 where
    "rcs_step (sp_rcs p) (m_time m) dt (m_rcs m) = (r1, rcs_out)"
    "nbl_step p m (soc_of (m_power m)) (begin_nbl (m_nbl m)) (shed_power p m) = (n1, w3, nbl_out)"
    "pdu_step p (demanded_loads p m (shed_power p m) nbl_out rcs_out) n1 r1 w3 = (l, n2, r2, w4)"
    "m_power (power_step p dt m) =
       finish_power p l (dock_step p dt (begin_dock (m_dock m))) (battery_step p dt (supercap_step p dt
         (w4\<lparr>pw_in := max 0 (bus_input p (dock_step p dt (begin_dock (m_dock m)))),
               pw_out := max 0 (total_out p l)\<rparr>)))"
    "m_rcs (power_step p dt m) = r2" "m_rcs_power (power_step p dt m) = ld_rcs l"
    "m_nbl (power_step p dt m) = n2\<lparr>nb_power := ld_nbl l, nb_allowed := (if ld_nbl l \<le> 0 then False else nb_allowed n2)\<rparr>"
    "m_dock (power_step p dt m) = dock_step p dt (begin_dock (m_dock m))"
proof -
  obtain r1 rcs_out where a: "rcs_step (sp_rcs p) (m_time m) dt (m_rcs m) = (r1, rcs_out)" by (metis prod.exhaust)
  obtain n1 w3 nbl_out where b: "nbl_step p m (soc_of (m_power m)) (begin_nbl (m_nbl m)) (shed_power p m) = (n1, w3, nbl_out)"
    by (metis prod_cases3)
  obtain l n2 r2 w4 where c: "pdu_step p (demanded_loads p m (shed_power p m) nbl_out rcs_out) n1 r1 w3 = (l, n2, r2, w4)"
    by (metis prod_cases4)
  have soc: "soc_of (begin_power (m_power m)) = soc_of (m_power m)" by (simp add: soc_of_def)
  note eq = power_step_def [of p dt m, unfolded Let_def soc shed_power_def [symmetric] a prod.case b c]
  show thesis by (rule that [OF a b c]; (unfold eq bus_input_def, simp))
qed

end
