(* ===== verification/Sim_Run.thy ===== *)
theory Sim_Run
  imports Sim_Power
begin

text \<open>
  Runs of the simulated world: the invariant that every tick, command and setter keeps, and the
  properties of the power, dock, propulsion and thermal planes over one tick and over any run.
\<close>

section \<open>The invariant\<close>

definition dock_ok :: "sim_params \<Rightarrow> dock \<Rightarrow> bool" where
  "dock_ok p d \<longleftrightarrow>
     0 \<le> dk_since d \<and> 0 \<le> dk_soft_pct d \<and> dk_soft_pct d \<le> 100 \<and> 0 \<le> dk_power d \<and> 0 \<le> dk_v d \<and>
     0 \<le> dk_a d \<and> (dk_docked d \<longleftrightarrow> dk_state d = ''docked'') \<and> (dk_docked d \<longrightarrow> dk_port d \<noteq> None) \<and>
     (case dk_port d of None \<Rightarrow> True | Some x \<Rightarrow> x = sp_docking_default p \<or> x \<in> set (sp_docking_ports p))"

definition power_ok :: "sim_params \<Rightarrow> power \<Rightarrow> bool" where
  "power_ok p w \<longleftrightarrow>
     0 \<le> pw_battery w \<and> pw_battery w \<le> 100 \<and> 0 \<le> pw_sc_energy w \<and>
     pw_sc_energy w \<le> max 0 (sp_sc_capacity p) \<and> 0 \<le> pw_in w \<and> 0 \<le> pw_out w"

definition motion_ok :: "sim \<Rightarrow> bool" where
  "motion_ok m \<longleftrightarrow>
     0 \<le> m_speed m \<and> m_speed m \<le> 1 \<and> 0 \<le> m_heading m \<and> m_heading m \<le> 360 \<and>
     0 \<le> m_sensor_queue m \<and> 0 \<le> m_actuator_queue m"

definition sim_inv :: "sim_params \<Rightarrow> sim \<Rightarrow> bool" where
  "sim_inv p m \<longleftrightarrow>
     motion_ok m \<and> mcqpu_ok (m_mcqpu m) \<and> power_ok p (m_power m) \<and> dock_ok p (m_dock m) \<and> rcs_ok (m_rcs m)"

lemma sim_init_inv: "sim_inv p sim_init"
  by (simp add: sim_inv_def sim_init_def motion_ok_def power_ok_def power_init_def dock_ok_def dock_init_def
      rcs_ok_def rcs_init_def)

section \<open>Every part keeps it\<close>

lemma dock_step_ok: "dock_ok p d \<Longrightarrow> dock_ok p (dock_step q dt (begin_dock d))"
  by (auto simp: dock_ok_def dock_step_def begin_dock_def Let_def intro!: mult_nonneg_nonneg divide_nonneg_nonneg)

lemma set_dock_connected_ok: "dock_ok p d \<Longrightarrow> dock_ok p (set_dock_connected b d)"
  by (auto simp: dock_ok_def set_dock_connected_def)

lemma set_docking_connected_ok: "dock_ok p d \<Longrightarrow> dock_ok p (fst (set_docking_connected p b d))"
  by (cases b; cases "dk_port d") (auto simp: dock_ok_def set_docking_connected_def set_dock_connected_def Let_def)

lemma set_docking_port_ok: "dock_ok p d \<Longrightarrow> dock_ok p (fst (set_docking_port p port d))"
  by (auto simp: dock_ok_def set_docking_port_def Let_def)

lemma supercap_step_in_out:
  assumes "0 \<le> pw_in w" "0 \<le> pw_out w"
  shows "0 \<le> pw_in (supercap_step p dt w) \<and> 0 \<le> pw_out (supercap_step p dt w)"
proof (cases "0 < sp_sc_capacity p \<and> 0 < dt")
  case False
  show ?thesis unfolding supercap_step_def if_not_P [OF False] using assms by simp
next
  case True
  note unf = supercap_step_unfold [OF conjunct1 [OF True] conjunct2 [OF True]] Let_def
  have pos: "0 < x \<Longrightarrow> 0 \<le> x * 3600 / dt" and neg: "x < 0 \<Longrightarrow> 0 \<le> - x * 3600 / dt" for x :: real
    using True by (simp_all add: divide_nonpos_pos)
  note sign = sc_flow_sign [OF conjunct2 [OF True], of p w]
  show ?thesis
  proof (cases "charges p dt w")
    case c: True
    have "0 \<le> pw_out w + sc_flow p dt w * 3600 / dt" using pos [of "sc_flow p dt w"] sign c assms by linarith
    with c assms show ?thesis unfolding unf by simp
  next
    case c: False
    show ?thesis
    proof (cases "discharges p dt w")
      case d: True
      have "0 \<le> pw_in w + - sc_flow p dt w * 3600 / dt" using neg [of "sc_flow p dt w"] sign d assms by linarith
      with c d assms show ?thesis unfolding unf by simp
    qed (use c assms in \<open>simp add: unf\<close>)
  qed
qed

lemma power_step_ok:
  assumes "power_ok p (m_power m)" "dock_ok p (m_dock m)" "rcs_ok (m_rcs m)"
  shows "power_ok p (m_power (power_step p dt m)) \<and> dock_ok p (m_dock (power_step p dt m)) \<and>
         rcs_ok (m_rcs (power_step p dt m)) \<and>
         rc_propellant (m_rcs (power_step p dt m)) \<le> rc_propellant (m_rcs m)"
proof -
  obtain n1 w3 nbl_out rcs_out l n2 r1 r2 w4 where
    r: "rcs_step (sp_rcs p) (m_time m) dt (m_rcs m) = (r1, rcs_out)" and
    n: "nbl_step p m (soc_of (m_power m)) (begin_nbl (m_nbl m)) (shed_power p m) = (n1, w3, nbl_out)" and
    d: "pdu_step p (demanded_loads p m (shed_power p m) nbl_out rcs_out) n1 r1 w3 = (l, n2, r2, w4)" and
    w: "m_power (power_step p dt m) =
       finish_power p l (dock_step p dt (begin_dock (m_dock m))) (battery_step p dt (supercap_step p dt
         (w4\<lparr>pw_in := max 0 (bus_input p (dock_step p dt (begin_dock (m_dock m)))),
               pw_out := max 0 (total_out p l)\<rparr>)))" and
    o: "m_rcs (power_step p dt m) = r2" "m_dock (power_step p dt m) = dock_step p dt (begin_dock (m_dock m))"
    by (rule power_step_parts)
  have "pw_sc_energy w4 = pw_sc_energy (m_power m)"
    using nbl_step_sheds [OF n] pdu_step_effect [OF d] by (simp add: only_sheds_def shed_power_def)
  then have "power_ok p (m_power (power_step p dt m))"
    using assms(1) supercap_step_energy [of "w4\<lparr>pw_in := x, pw_out := y\<rparr>" p dt for x y]
      supercap_step_in_out [of "w4\<lparr>pw_in := max 0 x, pw_out := max 0 y\<rparr>" p dt for x y]
    by (simp add: w power_ok_def)
  moreover have "rcs_ok r2 \<and> rc_propellant r2 \<le> rc_propellant (m_rcs m)"
    using rcs_step_effect [OF assms(3), of "sp_rcs p" "m_time m" dt] pdu_step_effect [OF d] r by simp
  ultimately show ?thesis by (simp add: o dock_step_ok assms(2))
qed

lemma motion_step_keeps [simp]:
  "m_power (motion_step p dt m) = m_power m" "m_dock (motion_step p dt m) = m_dock m"
  "m_rcs (motion_step p dt m) = m_rcs m" "motion_ok (motion_step p dt m) = motion_ok m"
  "mcqpu_ok (m_mcqpu (motion_step p dt m))" "m_trips (motion_step p dt m) = m_trips m"
  "m_temps (motion_step p dt m) = m_temps m" "m_nbl (motion_step p dt m) = m_nbl m"
  "m_temp_core (motion_step p dt m) = m_temp_core m" "m_temp_external (motion_step p dt m) = m_temp_external m"
  by (simp_all add: motion_step_def Let_def motion_ok_def)

lemma power_step_keeps [simp]:
  "motion_ok (power_step p dt m) = motion_ok m" "m_mcqpu (power_step p dt m) = m_mcqpu m"
  "m_temps (power_step p dt m) = m_temps m" "m_trips (power_step p dt m) = m_trips m"
  "m_temp_external (power_step p dt m) = m_temp_external m"
  by (simp_all add: power_step_def Let_def motion_ok_def case_prod_unfold)

lemma thermal_step_keeps [simp]:
  "motion_ok (thermal_step p dt m) = motion_ok m" "m_mcqpu (thermal_step p dt m) = m_mcqpu m"
  "m_rcs (thermal_step p dt m) = m_rcs m" "power_ok p (m_power (thermal_step q dt m)) = power_ok p (m_power m)"
  "dock_ok p (m_dock (thermal_step q dt m)) = dock_ok p (m_dock m)"
  by (auto simp: thermal_step_def Let_def motion_ok_def case_prod_unfold power_ok_def dock_ok_def split: option.splits)

lemma power_ok_faults [simp]: "power_ok p (w\<lparr>pw_faults := fs\<rparr>) = power_ok p w"
  by (simp add: power_ok_def)

lemma sim_step_inv:
  assumes "sim_inv p m"
  shows "sim_inv p (sim_step p dt m) \<and> rc_propellant (m_rcs (sim_step p dt m)) \<le> rc_propellant (m_rcs m)"
  using assms power_step_ok [of p "motion_step p dt m" dt]
  by (simp add: sim_step_def Let_def sim_inv_def motion_ok_def [of "_\<lparr>m_power := _\<rparr>"])
    (simp add: motion_ok_def [symmetric])

section \<open>Commands and runs\<close>

lemma sim_update_inv:
  "sim_inv p m \<Longrightarrow> sim_update p c m = Some m' \<Longrightarrow> sim_inv p m' \<and> rc_propellant (m_rcs m') = rc_propellant (m_rcs m)"
  by (auto simp: sim_update_def Let_def sim_inv_def motion_ok_def fmod_py_ge_0 fmod_py_le set_rcs_command_ok
      set_rcs_command_propellant split: option.splits pyfloat.splits if_splits)

lemma sim_apply_inv:
  assumes "sim_inv p m" "sim_apply p m e = Some m'"
  shows "sim_inv p m' \<and> rc_propellant (m_rcs m') \<le> rc_propellant (m_rcs m)"
proof (cases "(\<exists>c. e = Ev_command c) \<or> (\<exists>dt. e = Ev_step dt)")
  case True
  then show ?thesis using assms sim_update_inv [of p m _ m'] sim_step_inv [of p m] by auto
next
  case False
  with assms show ?thesis
    by (cases e) (auto simp: sim_inv_def motion_ok_def set_runtime_load_inputs_def set_dock_connected_ok
        set_docking_connected_ok set_docking_port_ok set_rcs_command_ok set_rcs_command_propellant)
qed

text \<open>A world or no result; the propellant never grows as long as there is one.\<close>

definition result_inv :: "sim_params \<Rightarrow> sim option \<Rightarrow> bool" where
  "result_inv p m \<longleftrightarrow> (case m of None \<Rightarrow> True | Some m' \<Rightarrow> sim_inv p m')"

fun shrinks :: "real option \<Rightarrow> real option \<Rightarrow> bool" where
  "shrinks a None = True"
| "shrinks None (Some y) = False"
| "shrinks (Some x) (Some y) = (y \<le> x)"

lemma shrinks_trans: "shrinks a b \<Longrightarrow> shrinks b c \<Longrightarrow> shrinks a c"
  by (cases a; cases b; cases c) simp_all

definition propellant_of :: "sim option \<Rightarrow> real option" where
  "propellant_of m = map_option (\<lambda>m. rc_propellant (m_rcs m)) m"

lemma sim_event_step_inv:
  assumes "result_inv p m"
  shows "result_inv p (sim_event_step p m e) \<and> shrinks (propellant_of m) (propellant_of (sim_event_step p m e))"
proof (cases m)
  case (Some m')
  then show ?thesis using assms sim_apply_inv [of p m' e]
    by (cases "sim_apply p m' e") (simp_all add: result_inv_def propellant_of_def)
qed (simp add: result_inv_def propellant_of_def)

interpretation sim_machine: mono_machine "sim_event_step p" "result_inv p" shrinks propellant_of for p
proof
  fix m :: "real option"
  show "shrinks m m" by (cases m) simp_all
qed (use sim_event_step_inv shrinks_trans in blast)+

lemma sim_events_inv:
  assumes "sim_inv p m"
  shows "case sim_events p m es of None \<Rightarrow> list_ex unbounded_rotation es
    | Some m' \<Rightarrow> sim_inv p m' \<and> rc_propellant (m_rcs m') \<le> rc_propellant (m_rcs m)"
  using sim_machine.run_inv [of p "Some m" es] sim_machine.run_mono [of p "Some m" es] assms sim_events_None [of p m es]
  by (cases "sim_events p m es") (simp_all add: result_inv_def propellant_of_def)

section \<open>The whole tick in terms of the power tick\<close>

lemma trip_steps_faults:
  "set fs \<subseteq> set (snd (foldl (trip_step p temps) (trips, fs) nodes))"
proof (induction nodes arbitrary: trips fs)
  case (Cons kn nodes)
  obtain trips' fs' where st: "trip_step p temps (trips, fs) kn = (trips', fs')" by (metis prod.exhaust)
  then have "set fs \<subseteq> set fs'" by (auto simp: trip_step_def Let_def split: if_splits prod.splits)
  with Cons.IH [of fs' trips'] st show ?case by auto
qed simp

lemma sim_step_power:
  obtains fs where
    "m_power (sim_step p dt m) = (m_power (power_step p dt (motion_step p dt m)))\<lparr>pw_faults := fs\<rparr>"
    "set (pw_faults (m_power (power_step p dt (motion_step p dt m)))) \<subseteq> set fs"
proof -
  let ?m = "power_step p dt (motion_step p dt m)"
  have "\<exists>fs. m_power (thermal_step p dt ?m) = (m_power ?m)\<lparr>pw_faults := fs\<rparr> \<and> set (pw_faults (m_power ?m)) \<subseteq> set fs"
  proof (cases "\<not> sp_thermal_enabled p \<or> sp_nodes p = [] \<or> max 0 dt \<le> 0")
    case True
    then show ?thesis by (auto simp: thermal_step_def intro!: exI [of _ "pw_faults (m_power ?m)"])
  next
    case False
    then show ?thesis
      by (simp add: thermal_step_def Let_def case_prod_unfold) (rule exI, rule conjI, rule refl, rule trip_steps_faults)
  qed
  then obtain fs where "m_power (thermal_step p dt ?m) = (m_power ?m)\<lparr>pw_faults := fs\<rparr>"
    "set (pw_faults (m_power ?m)) \<subseteq> set fs" by blast
  then show thesis by (intro that [of "dedup fs"]) (simp_all add: sim_step_def Let_def)
qed

lemma sim_step_nbl [simp]: "m_nbl (sim_step p dt m) = m_nbl (power_step p dt (motion_step p dt m))"
  by (simp add: sim_step_def Let_def thermal_step_def case_prod_unfold)

section \<open>Properties\<close>

text \<open>
  In every run of ticks, actuator commands and setters, the state of charge stays in [0,100], the
  supercap within its capacity, the speed in [0,1], the heading in [0,360] (360 itself can occur), the
  computer's load in [0,100], the dock record stays consistent with its ports, thrust is only commanded
  with time left, and the propellant never grows; a run has no result only after a rotation by an infinite
  value or a NaN.
\<close>

theorem sim_run_invariant:
  assumes "sim_inv p m"
  shows "case sim_events p m es of None \<Rightarrow> list_ex unbounded_rotation es
    | Some m' \<Rightarrow> sim_inv p m' \<and> rc_propellant (m_rcs m') \<le> rc_propellant (m_rcs m)"
  by (rule sim_events_inv [OF assms])

theorem sim_run_invariant_witness:
  "case sim_events sim_params_default sim_init
     [Ev_step 1, Ev_loads True 3 (- 4) True, Ev_dock True, Ev_step (- 1), Ev_rcs (Some ''forward'') 50 2, Ev_step 5] of
     None \<Rightarrow> False | Some m \<Rightarrow> sim_inv sim_params_default m"
  using sim_run_invariant [of sim_params_default sim_init, OF sim_init_inv,
      of "[Ev_step 1, Ev_loads True 3 (- 4) True, Ev_dock True, Ev_step (- 1), Ev_rcs (Some ''forward'') 50 2, Ev_step 5]"]
  by (simp add: unbounded_rotation_def split: option.splits)

text \<open>
  C11. After a tick, the loads on the bus respect the power distribution's limit, or the fault
  \<open>PDU_OVERCURRENT\<close> is reported (a limit of zero disables the check). The supercap's charging
  power is not among these loads.
\<close>

theorem pdu_limit_or_fault:
  "pdu_limit p (m_power (sim_step p dt m)) \<le> 0 \<or>
   sum_list (map snd (butlast (pw_loads (m_power (sim_step p dt m))))) \<le> pdu_limit p (m_power (sim_step p dt m)) \<or>
   ''PDU_OVERCURRENT'' \<in> set (pw_faults (m_power (sim_step p dt m)))"
proof -
  let ?m = "motion_step p dt m"
  obtain fs where f: "m_power (sim_step p dt m) = (m_power (power_step p dt ?m))\<lparr>pw_faults := fs\<rparr>"
    "set (pw_faults (m_power (power_step p dt ?m))) \<subseteq> set fs" by (rule sim_step_power)
  obtain n1 w3 nbl_out rcs_out l n2 r1 r2 w4 where
    n: "nbl_step p ?m (soc_of (m_power ?m)) (begin_nbl (m_nbl ?m)) (shed_power p ?m) = (n1, w3, nbl_out)" and
    d: "pdu_step p (demanded_loads p ?m (shed_power p ?m) nbl_out rcs_out) n1 r1 w3 = (l, n2, r2, w4)" and
    w: "m_power (power_step p dt ?m) =
       finish_power p l (dock_step p dt (begin_dock (m_dock ?m))) (battery_step p dt (supercap_step p dt
         (w4\<lparr>pw_in := max 0 (bus_input p (dock_step p dt (begin_dock (m_dock ?m)))),
               pw_out := max 0 (total_out p l)\<rparr>)))" (is "_ = finish_power p l ?d ?w")
    by (rule power_step_parts)
  have "pw_bus_v w4 = pw_bus_v w3" using pdu_step_effect [OF d] by (simp add: only_sheds_def)
  then have lim: "pdu_limit p (m_power (sim_step p dt m)) = pdu_limit p w3" by (simp add: f(1) w pdu_limit_def)
  have loads: "sum_list (map snd (butlast (pw_loads (m_power (sim_step p dt m))))) = total_out p l"
    by (simp add: f(1) w finish_power_def Let_def total_out_def)
  have "set (pw_faults w4) \<subseteq> set (pw_faults ?w)"
    using battery_step_faults [of "supercap_step p dt (w4\<lparr>pw_in := x, pw_out := y\<rparr>)" p dt for x y] by simp
  then have "set (pw_faults w4) \<subseteq> set (pw_faults (m_power (sim_step p dt m)))" using f w by auto
  with pdu_step_effect [OF d] show ?thesis unfolding lim loads by blast
qed

text \<open>What a part of the tick must keep so that a load that is not allowed draws nothing.\<close>

definition permits :: "loads \<Rightarrow> nbl \<Rightarrow> power \<Rightarrow> bool" where
  "permits l n w \<longleftrightarrow>
     (pw_radar_allowed w \<or> ld_radar l = 0) \<and> (pw_transponder_allowed w \<or> ld_transponder l = 0) \<and>
     (nb_allowed n \<or> ld_nbl l = 0) \<and> 0 \<le> ld_nbl l"

lemma pdu_shed_permits:
  assumes "permits l n w" "pdu_shed (l, n, w) = (l', n', w')"
  shows "permits l' n' w'"
proof -
  let ?P = "\<lambda>(l, n, w). permits l n w"
  have a: "?P (pdu_shed_nbl (l, n, w))" if "permits l n w" for l n w
    using that by (simp add: permits_def pdu_shed_nbl_def)
  have b: "?P (pdu_shed_radar (l, n, w))" if "permits l n w" for l n w
    using that by (simp add: permits_def pdu_shed_radar_def)
  have c: "?P (pdu_shed_transponder (l, n, w))" if "permits l n w" for l n w
    using that by (simp add: permits_def pdu_shed_transponder_def)
  obtain l1 n1 w1 where 1: "pdu_shed_nbl (l, n, w) = (l1, n1, w1)" by (metis prod_cases3)
  obtain l2 n2 w2 where 2: "pdu_shed_radar (l1, n1, w1) = (l2, n2, w2)" by (metis prod_cases3)
  have "pdu_shed_transponder (l2, n2, w2) = (l', n', w')" using assms(2) by (simp add: pdu_shed_def 1 2)
  then show ?thesis using a [OF assms(1)] b [of l1 n1 w1] c [of l2 n2 w2] by (simp add: 1 2)
qed

lemma permits_fields [simp]:
  "permits (l\<lparr>ld_motion := x\<rparr>) n w = permits l n w" "permits (l\<lparr>ld_rcs := x\<rparr>) n w = permits l n w"
  "permits l n (throttle_note what w) = permits l n w"
  by (simp_all add: permits_def)

lemma throttles_permit:
  "pdu_throttle_motion p lm (l, w) = (l', w') \<Longrightarrow> permits l' n w' = permits l n w"
  "pdu_throttle_rcs p lm (l, r, w) = (l', r', w') \<Longrightarrow> permits l' n w' = permits l n w"
  unfolding pdu_throttle_motion_def pdu_throttle_rcs_def Let_def prod.case by (auto split: if_split_asm)

lemma pdu_step_permits:
  assumes "permits l n w" "pdu_step p l n r w = (l', n', r', w')"
  shows "permits l' n' w'"
proof (cases rule: pdu_step_cases [OF assms(2)])
  case 1
  with assms(1) show ?thesis by simp
next
  case (2 l1 n1 w1 l2 w2 w3)
  have "permits l1 n1 w1" by (rule pdu_shed_permits [OF assms(1) 2(2)])
  then have "permits l' n1 w3" using throttles_permit(1) [OF 2(3)] throttles_permit(2) [OF 2(4)] by simp
  then show ?thesis using 2(5,6) by (simp add: permits_def)
qed

lemma nbl_step_permits:
  assumes "nbl_step p m soc n w = (n1, w1, out)"
  shows "(nb_allowed n1 \<or> out = 0) \<and> 0 \<le> out \<and> pw_radar_allowed w1 = pw_radar_allowed w \<and>
         pw_transponder_allowed w1 = pw_transponder_allowed w"
  using assms by (auto simp: nbl_step_def Let_def split: if_splits)

lemma tripped_motion [simp]: "tripped (motion_step p dt m) nid = tripped m nid"
  by (simp add: tripped_def)

text \<open>The energy side of a tick: a record with this tick's bus power, its supercap and its battery.\<close>

lemma sim_step_energy_parts:
  obtains fs l d w where
    "m_power (sim_step p dt m) = (finish_power p l d (battery_step p dt (supercap_step p dt w)))\<lparr>pw_faults := fs\<rparr>"
    "only_sheds (shed_power p (motion_step p dt m)) w"
proof -
  let ?m = "motion_step p dt m"
  obtain fs where f: "m_power (sim_step p dt m) = (m_power (power_step p dt ?m))\<lparr>pw_faults := fs\<rparr>"
    by (rule sim_step_power)
  obtain n1 w3 nbl_out rcs_out l n2 r1 r2 w4 where
    n: "nbl_step p ?m (soc_of (m_power ?m)) (begin_nbl (m_nbl ?m)) (shed_power p ?m) = (n1, w3, nbl_out)" and
    d: "pdu_step p (demanded_loads p ?m (shed_power p ?m) nbl_out rcs_out) n1 r1 w3 = (l, n2, r2, w4)" and
    w: "m_power (power_step p dt ?m) =
       finish_power p l (dock_step p dt (begin_dock (m_dock ?m))) (battery_step p dt (supercap_step p dt
         (w4\<lparr>pw_in := max 0 (bus_input p (dock_step p dt (begin_dock (m_dock ?m)))),
               pw_out := max 0 (total_out p l)\<rparr>)))"
    by (rule power_step_parts)
  have "only_sheds (shed_power p ?m) w4"
    by (rule only_sheds_trans [OF nbl_step_sheds [OF n]]) (use pdu_step_effect [OF d] in simp)
  then have "only_sheds (shed_power p ?m) (w4\<lparr>pw_in := x, pw_out := y\<rparr>)" for x y by (simp add: only_sheds_def)
  then show thesis using f w by (intro that) simp_all
qed

lemma sim_step_shed:
  "pw_soc_shed (m_power (sim_step p dt m)) =
     soc_switch (sp_soc_low p) (sp_soc_high p) (pw_soc_shed (m_power m)) (soc_of (m_power m)) \<and>
   (pw_radar_allowed (m_power (sim_step p dt m)) \<or> pw_transponder_allowed (m_power (sim_step p dt m)) \<longrightarrow>
      \<not> pw_soc_shed (m_power (sim_step p dt m)) \<and> \<not> tripped m ''pdu'')"
proof -
  obtain fs l d w where f:
    "m_power (sim_step p dt m) = (finish_power p l d (battery_step p dt (supercap_step p dt w)))\<lparr>pw_faults := fs\<rparr>"
    and o: "only_sheds (shed_power p (motion_step p dt m)) w" by (rule sim_step_energy_parts)
  from o show ?thesis by (auto simp: f only_sheds_def shed_power_def soc_of_def)
qed

text \<open>
  After a tick, a load that is not allowed draws nothing: the radar, the transponder and the burst
  link each are allowed or have zero power. While the low-charge shedding is on or the distribution
  unit is tripped, radar and transponder are not allowed.
\<close>

theorem denied_loads_draw_nothing:
  "(pw_radar_allowed (m_power (sim_step p dt m)) \<or> dict_get (pw_loads (m_power (sim_step p dt m))) ''radar'' = Some 0) \<and>
   (pw_transponder_allowed (m_power (sim_step p dt m)) \<or>
      dict_get (pw_loads (m_power (sim_step p dt m))) ''transponder'' = Some 0) \<and>
   (nb_allowed (m_nbl (sim_step p dt m)) \<or> nb_power (m_nbl (sim_step p dt m)) = 0) \<and>
   (pw_soc_shed (m_power (sim_step p dt m)) \<or> tripped m ''pdu'' \<longrightarrow>
      \<not> pw_radar_allowed (m_power (sim_step p dt m)) \<and> \<not> pw_transponder_allowed (m_power (sim_step p dt m)))"
proof -
  let ?m = "motion_step p dt m"
  obtain fs where f: "m_power (sim_step p dt m) = (m_power (power_step p dt ?m))\<lparr>pw_faults := fs\<rparr>"
    by (rule sim_step_power)
  obtain n1 w3 nbl_out rcs_out l n2 r1 r2 w4 where
    n: "nbl_step p ?m (soc_of (m_power ?m)) (begin_nbl (m_nbl ?m)) (shed_power p ?m) = (n1, w3, nbl_out)" and
    d: "pdu_step p (demanded_loads p ?m (shed_power p ?m) nbl_out rcs_out) n1 r1 w3 = (l, n2, r2, w4)" and
    w: "m_power (power_step p dt ?m) =
       finish_power p l (dock_step p dt (begin_dock (m_dock ?m))) (battery_step p dt (supercap_step p dt
         (w4\<lparr>pw_in := max 0 (bus_input p (dock_step p dt (begin_dock (m_dock ?m)))),
               pw_out := max 0 (total_out p l)\<rparr>)))" and
    nb: "m_nbl (power_step p dt ?m) =
       n2\<lparr>nb_power := ld_nbl l, nb_allowed := (if ld_nbl l \<le> 0 then False else nb_allowed n2)\<rparr>"
    by (rule power_step_parts)
  have "permits (demanded_loads p ?m (shed_power p ?m) nbl_out rcs_out) n1 w3"
    using nbl_step_permits [OF n] by (simp add: permits_def demanded_loads_def)
  then have "permits l n2 w4" using d by (rule pdu_step_permits)
  then show ?thesis using sim_step_shed [of p dt m]
    by (auto simp: f w nb permits_def finish_power_def Let_def)
qed

theorem denied_loads_draw_nothing_witness:
  "\<not> pw_radar_allowed (m_power (sim_step sim_params_default 1
       (sim_init\<lparr>m_trips := [(''pdu'', True)], m_radar_enabled := True\<rparr>)))"
  using denied_loads_draw_nothing [of sim_params_default 1 "sim_init\<lparr>m_trips := [(''pdu'', True)], m_radar_enabled := True\<rparr>"]
  by (simp add: tripped_def dict_getd_def)

text \<open>The state of charge that each tick of a run starts from.\<close>

fun soc_trace :: "sim_params \<Rightarrow> sim \<Rightarrow> real list \<Rightarrow> real list" where
  "soc_trace p m [] = []"
| "soc_trace p m (dt # dts) = soc_of (m_power m) # soc_trace p (sim_step p dt m) dts"

lemma soc_shed_run:
  "pw_soc_shed (m_power (foldl (\<lambda>m dt. sim_step p dt m) m dts)) =
     foldl (soc_switch (sp_soc_low p) (sp_soc_high p)) (pw_soc_shed (m_power m)) (soc_trace p m dts)"
  by (induction dts arbitrary: m) (simp_all add: sim_step_shed)

text \<open>
  Load shedding by charge has hysteresis over any run of ticks: while every tick starts strictly
  between the two thresholds the shedding state does not change, and a run that starts without shedding
  and ends with it had a tick at or below the low threshold.
\<close>

theorem soc_shedding_hysteresis:
  "(list_all (\<lambda>x. sp_soc_low p < x \<and> x < sp_soc_high p) (soc_trace p m dts) \<longrightarrow>
      pw_soc_shed (m_power (foldl (\<lambda>m dt. sim_step p dt m) m dts)) = pw_soc_shed (m_power m)) \<and>
   (pw_soc_shed (m_power (foldl (\<lambda>m dt. sim_step p dt m) m dts)) \<and> \<not> pw_soc_shed (m_power m) \<longrightarrow>
      list_ex (\<lambda>x. x \<le> sp_soc_low p) (soc_trace p m dts))"
  unfolding soc_shed_run
  using soc.band_stable [of "soc_trace p m dts" "sp_soc_low p" "sp_soc_high p"]
    soc.on_was_triggered [of "sp_soc_low p" "sp_soc_high p" "soc_trace p m dts"]
  by (auto simp: list_all_iff list_ex_iff not_le)

theorem soc_shedding_hysteresis_witness:
  "pw_soc_shed (m_power (sim_step sim_params_default 0 (sim_init\<lparr>m_power := power_init\<lparr>pw_battery := 25, pw_soc_shed := True\<rparr>\<rparr>)))"
  using soc_shedding_hysteresis [of sim_params_default
      "sim_init\<lparr>m_power := power_init\<lparr>pw_battery := 25, pw_soc_shed := True\<rparr>\<rparr>" "[0]"]
  by (simp add: sim_params_default_def soc_of_def clamp_def)

text \<open>
  The supercap's energy balance over a tick: its energy changes by what it charged less what it
  discharged, never both in one tick, and never faster than its configured charging power.
\<close>

theorem supercap_energy_balance:
  assumes "sim_inv p m" and "0 < sp_sc_capacity p" and "0 < dt"
  shows "pw_sc_energy (m_power (sim_step p dt m)) = pw_sc_energy (m_power m) +
           (pw_sc_charge (m_power (sim_step p dt m)) - pw_sc_discharge (m_power (sim_step p dt m))) * dt / 3600 \<and>
         (pw_sc_charge (m_power (sim_step p dt m)) = 0 \<or> pw_sc_discharge (m_power (sim_step p dt m)) = 0) \<and>
         0 \<le> pw_sc_charge (m_power (sim_step p dt m)) \<and> 0 \<le> pw_sc_discharge (m_power (sim_step p dt m)) \<and>
         pw_sc_charge (m_power (sim_step p dt m)) \<le> max 0 (sp_sc_max_charge_w p)"
proof -
  obtain fs l d w where f:
    "m_power (sim_step p dt m) = (finish_power p l d (battery_step p dt (supercap_step p dt w)))\<lparr>pw_faults := fs\<rparr>"
    and o: "only_sheds (shed_power p (motion_step p dt m)) w" by (rule sim_step_energy_parts)
  have e: "pw_sc_energy w = pw_sc_energy (m_power m)" and z: "pw_sc_charge w = 0" "pw_sc_discharge w = 0"
    using o by (simp_all add: only_sheds_def shed_power_def)
  have r: "0 \<le> pw_sc_energy w" "pw_sc_energy w \<le> sp_sc_capacity p"
    using assms(1,2) by (simp_all add: e sim_inv_def power_ok_def)
  define f where "f = sc_flow p dt w"
  from supercap_step_flow [OF assms(2,3) r z] have s:
    "pw_sc_energy (supercap_step p dt w) = pw_sc_energy w + f"
    "pw_sc_charge (supercap_step p dt w) = max 0 f * 3600 / dt"
    "pw_sc_discharge (supercap_step p dt w) = max 0 (- f) * 3600 / dt" by (simp_all add: f_def)
  have "max 0 f \<le> max 0 (sp_sc_max_charge_w p) * dt / 3600"
    unfolding f_def using sc_flow_le_max_charge [OF assms(3)] .
  then have "max 0 f * 3600 / dt \<le> max 0 (sp_sc_max_charge_w p)" using assms(3) by (simp add: field_simps)
  moreover have "(max 0 f * 3600 / dt - max 0 (- f) * 3600 / dt) * dt / 3600 = f"
    using assms(3) by (simp add: max_def)
  ultimately show ?thesis using assms(3) by (simp add: f s e max_def)
qed

theorem supercap_energy_balance_witness:
  "0 \<le> pw_sc_discharge (m_power (sim_step
     (sim_params_default\<lparr>sp_sc_capacity := 10, sp_sc_max_discharge_w := 100\<rparr>) 1
     (sim_init\<lparr>m_power := power_init\<lparr>pw_sc_energy := 5\<rparr>\<rparr>)))"
  using supercap_energy_balance [of "sim_params_default\<lparr>sp_sc_capacity := 10, sp_sc_max_discharge_w := 100\<rparr>"
      "sim_init\<lparr>m_power := power_init\<lparr>pw_sc_energy := 5\<rparr>\<rparr>" 1]
  by (simp add: sim_inv_def sim_init_def motion_ok_def power_ok_def power_init_def dock_ok_def dock_init_def
      rcs_ok_def rcs_init_def)

lemma battery_step_effect:
  assumes "0 < sp_battery_wh p"
  shows "pw_battery (battery_step p dt w) = clamp 0 100 (pw_battery w +
           (pw_bat_charge (battery_step p dt w) - pw_bat_discharge (battery_step p dt w)) * dt / 3600 / sp_battery_wh p * 100) \<and>
         pw_bat_charge (battery_step p dt w) = max 0 (limited (sp_battery_max_charge_w p) (raw_charge w)) \<and>
         pw_bat_discharge (battery_step p dt w) = max 0 (limited (sp_battery_max_discharge_w p) (raw_discharge w)) \<and>
         pw_spill (battery_step p dt w) =
           (if over_limit (sp_battery_max_charge_w p) (raw_charge w)
            then raw_charge w - max 0 (sp_battery_max_charge_w p) else pw_spill w) \<and>
         pw_unserved (battery_step p dt w) =
           (if over_limit (sp_battery_max_discharge_w p) (raw_discharge w)
            then raw_discharge w - max 0 (sp_battery_max_discharge_w p) else pw_unserved w)"
proof -
  let ?w = "bus_current w"
  have raw: "raw_charge (note_charge_limit p ?w) = raw_charge w" "raw_discharge (note_charge_limit p ?w) = raw_discharge w"
    "raw_charge (note_discharge_limit p (note_charge_limit p ?w)) = raw_charge w"
    "raw_discharge (note_discharge_limit p (note_charge_limit p ?w)) = raw_discharge w"
    "raw_charge ?w = raw_charge w"
    by (simp_all add: raw_charge_def raw_discharge_def)
  have e: "pw_bat_charge (note_empty v) = pw_bat_charge v" "pw_bat_discharge (note_empty v) = pw_bat_discharge v" for v
    by (simp_all add: note_empty_def)
  have i: "pw_bat_charge (battery_integrate p dt v) = battery_charge_w p v"
    "pw_bat_discharge (battery_integrate p dt v) = battery_discharge_w p v"
    "pw_battery (battery_integrate p dt v) = clamp 0 100 (pw_battery v +
       (battery_charge_w p v - battery_discharge_w p v) * dt / 3600 / sp_battery_wh p * 100)" for v
    by (simp_all add: battery_integrate_def)
  have s: "pw_spill (note_discharge_limit p v) = pw_spill v"
    "pw_unserved (note_charge_limit p v) = pw_unserved v"
    "pw_spill (note_charge_limit p v) = (if over_limit (sp_battery_max_charge_w p) (raw_charge v)
            then raw_charge v - max 0 (sp_battery_max_charge_w p) else pw_spill v)"
    "pw_unserved (note_discharge_limit p v) = (if over_limit (sp_battery_max_discharge_w p) (raw_discharge v)
            then raw_discharge v - max 0 (sp_battery_max_discharge_w p) else pw_unserved v)" for v
    by (simp_all add: note_discharge_limit_def note_charge_limit_def)
  show ?thesis using assms
    by (simp only: battery_step_def battery_update_def if_True e i note_empty_keeps battery_integrate_keeps s raw
        battery_charge_w_def battery_discharge_w_def bus_current_keeps note_charge_limit_keeps
        note_discharge_limit_keeps simp_thms)
qed

text \<open>
  The battery's tick: its charge moves by the net power within its limits, clamped to [0,100].
  The spilled and the unserved power are only written in a tick that exceeds the limit: otherwise they
  keep the value of an earlier tick, they are never reset.
\<close>

theorem battery_tick_and_latched_spill:
  assumes "0 < sp_battery_wh p"
  shows "let w = m_power m; w' = m_power (sim_step p dt m)
         in pw_battery w' = clamp 0 100 (pw_battery w +
              (pw_bat_charge w' - pw_bat_discharge w') * dt / 3600 / sp_battery_wh p * 100) \<and>
            pw_bat_charge w' = max 0 (limited (sp_battery_max_charge_w p) (raw_charge w')) \<and>
            pw_bat_discharge w' = max 0 (limited (sp_battery_max_discharge_w p) (raw_discharge w')) \<and>
            pw_spill w' = (if over_limit (sp_battery_max_charge_w p) (raw_charge w')
                           then raw_charge w' - max 0 (sp_battery_max_charge_w p) else pw_spill w) \<and>
            pw_unserved w' = (if over_limit (sp_battery_max_discharge_w p) (raw_discharge w')
                              then raw_discharge w' - max 0 (sp_battery_max_discharge_w p) else pw_unserved w)"
proof -
  obtain fs l d w where f:
    "m_power (sim_step p dt m) = (finish_power p l d (battery_step p dt (supercap_step p dt w)))\<lparr>pw_faults := fs\<rparr>"
    and o: "only_sheds (shed_power p (motion_step p dt m)) w" by (rule sim_step_energy_parts)
  let ?w = "supercap_step p dt w" and ?v = "m_power (sim_step p dt m)"
  have keep: "pw_battery w = pw_battery (m_power m)" "pw_spill w = pw_spill (m_power m)"
    "pw_unserved w = pw_unserved (m_power m)"
    using o by (simp_all add: only_sheds_def shed_power_def)
  have raw: "raw_charge ?v = raw_charge ?w" "raw_discharge ?v = raw_discharge ?w"
    by (simp_all add: f raw_charge_def raw_discharge_def)
  have v: "pw_battery ?v = pw_battery (battery_step p dt ?w)" "pw_bat_charge ?v = pw_bat_charge (battery_step p dt ?w)"
    "pw_bat_discharge ?v = pw_bat_discharge (battery_step p dt ?w)" "pw_spill ?v = pw_spill (battery_step p dt ?w)"
    "pw_unserved ?v = pw_unserved (battery_step p dt ?w)"
    by (simp_all add: f finish_power_def Let_def)
  show ?thesis unfolding Let_def raw v
    using battery_step_effect [OF assms, of dt ?w] by (simp only: supercap_step_keeps keep simp_thms)
qed

theorem battery_tick_and_latched_spill_witness:
  "pw_spill (m_power (sim_step sim_params_default 1 (sim_init\<lparr>m_power := power_init\<lparr>pw_spill := 7\<rparr>\<rparr>))) = 7"
  using battery_tick_and_latched_spill [of sim_params_default "sim_init\<lparr>m_power := power_init\<lparr>pw_spill := 7\<rparr>\<rparr>" 1]
  by (simp add: Let_def sim_params_default_def over_limit_def)

section \<open>Temperatures and trips\<close>

lemma dict_get_map_values:
  "dict_get (map (\<lambda>(k, v). (k, f k v)) xs) k = map_option (f k) (dict_get xs k)"
  by (induction xs) auto

lemma next_temp_range: "- 120 \<le> next_temp p dt m nid node \<and> next_temp p dt m nid node \<le> 160"
  by (simp add: next_temp_def Let_def clamp_temp_def)

lemma next_temp_ambient:
  assumes "m_temp_external m \<le> dict_getd (m_temps m) nid 0" "- 120 \<le> m_temp_external m" "m_temp_external m \<le> 160"
  shows "m_temp_external m \<le> next_temp p dt m nid node"
  using assms by (simp add: next_temp_def Let_def clamp_temp_def clamp_id)

lemma trip_steps_other:
  "nid \<notin> set (dict_keys nodes) \<Longrightarrow>
     dict_getd (fst (foldl (trip_step p temps) (trips, fs) nodes)) nid False = dict_getd trips nid False"
proof (induction nodes arbitrary: trips fs)
  case (Cons kn nodes)
  obtain trips' fs' where st: "trip_step p temps (trips, fs) kn = (trips', fs')" by (metis prod.exhaust)
  have "dict_getd trips' nid False = dict_getd trips nid False"
    using st Cons.prems by (auto simp: trip_step_def Let_def split: if_splits prod.splits)
  with Cons st show ?case by simp
qed simp

lemma trip_steps_here:
  assumes "wf_dict nodes" "dict_get nodes nid = Some node" "0 < tn_trip node"
  shows "dict_getd (fst (foldl (trip_step p temps) (trips, fs) nodes)) nid False =
           trip_switch (tn_trip node) (tn_hys node) (dict_getd trips nid False) (dict_getd temps nid 0) \<and>
         (dict_getd (fst (foldl (trip_step p temps) (trips, fs) nodes)) nid False \<longrightarrow>
           ''THERMAL_TRIP:'' @ nid \<in> set (snd (foldl (trip_step p temps) (trips, fs) nodes)))"
  using assms(1,2)
proof (induction nodes arbitrary: trips fs)
  case (Cons kn nodes)
  obtain k n where kn: "kn = (k, n)" by (metis prod.exhaust)
  obtain trips' fs' where st: "trip_step p temps (trips, fs) kn = (trips', fs')" by (metis prod.exhaust)
  have wf: "wf_dict nodes" "k \<notin> set (dict_keys nodes)" using Cons.prems(1) by (auto simp: wf_dict_def kn)
  show ?case
  proof (cases "k = nid")
    case True
    then have n: "n = node" using Cons.prems(2) by (simp add: kn)
    have g: "dict_getd trips' nid False = trip_switch (tn_trip node) (tn_hys node) (dict_getd trips nid False) (dict_getd temps nid 0)"
      "dict_getd trips' nid False \<longrightarrow> ''THERMAL_TRIP:'' @ nid \<in> set fs'"
      using st assms(3) by (auto simp: kn True n trip_step_def Let_def)
    have "dict_getd (fst (foldl (trip_step p temps) (trips', fs') nodes)) nid False = dict_getd trips' nid False"
      using wf(2) True by (intro trip_steps_other) simp
    moreover have "set fs' \<subseteq> set (snd (foldl (trip_step p temps) (trips', fs') nodes))" by (rule trip_steps_faults)
    ultimately show ?thesis using g st by auto
  next
    case False
    then have "dict_get nodes nid = Some node" using Cons.prems(2) by (simp add: kn)
    have "dict_getd trips' nid False = dict_getd trips nid False"
      using st False by (auto simp: kn trip_step_def Let_def split: if_splits)
    then show ?thesis using Cons.IH [OF wf(1) \<open>dict_get nodes nid = Some node\<close>, of trips' fs'] st by simp
  qed
qed simp

text \<open>
  A thermal tick: every node's temperature stays in [-120,160] and a node at or above ambient is
  not cooled below it; a node with a trip point follows its two-threshold switch, and a tripped node is
  reported as a fault.
\<close>

theorem thermal_tick:
  assumes "sp_thermal_enabled p" and "0 < dt" and "wf_dict (sp_nodes p)"
    and "dict_get (sp_nodes p) nid = Some node"
  shows "let m' = sim_step p dt m; t = dict_getd (m_temps m') nid 0
         in - 120 \<le> t \<and> t \<le> 160 \<and>
            (m_temp_external m \<le> dict_getd (m_temps m) nid 0 \<and> - 120 \<le> m_temp_external m \<and> m_temp_external m \<le> 160 \<longrightarrow>
               m_temp_external m \<le> t) \<and>
            (0 < tn_trip node \<longrightarrow>
               tripped m' nid = trip_switch (tn_trip node) (tn_hys node) (tripped m nid) t \<and>
               (tripped m' nid \<longrightarrow> ''THERMAL_TRIP:'' @ nid \<in> set (pw_faults (m_power m'))))"
proof -
  let ?m = "power_step p dt (motion_step p dt m)"
  let ?temps = "map (\<lambda>(nid, node). (nid, next_temp p (max 0 dt) ?m nid node)) (sp_nodes p)"
  let ?fold = "foldl (trip_step p ?temps) (m_trips ?m, pw_faults (m_power ?m)) (sp_nodes p)"
  have ne: "sp_nodes p \<noteq> []" using assms(4) by auto
  have step: "m_temps (sim_step p dt m) = ?temps" "m_trips (sim_step p dt m) = fst ?fold"
    "set (pw_faults (m_power (sim_step p dt m))) = set (snd ?fold)"
    using assms(1,2) ne by (simp_all add: sim_step_def Let_def thermal_step_def case_prod_unfold)
  have t: "dict_getd ?temps nid 0 = next_temp p (max 0 dt) ?m nid node"
    by (simp add: dict_getd_def dict_get_map_values assms(4))
  have amb: "m_temp_external ?m = m_temp_external m" "m_temps ?m = m_temps m" "m_trips ?m = m_trips m"
    by simp_all
  note range = next_temp_range [of p "max 0 dt" ?m nid node]
  note cool = next_temp_ambient [of ?m nid p "max 0 dt" node, unfolded amb]
  note trips = trip_steps_here [OF assms(3,4), of p ?temps "m_trips ?m" "pw_faults (m_power ?m)", unfolded amb(3)]
  show ?thesis unfolding Let_def tripped_def step using range cool trips unfolding t amb(3) by blast
qed

theorem thermal_tick_witness:
  "dict_getd (m_temps (sim_step (sim_params_default\<lparr>sp_thermal_enabled := True,
       sp_nodes := [(''core'', \<lparr>tn_cap = 10, tn_cool = 1, tn_trip = 80, tn_hys = 5\<rparr>)]\<rparr>) 1
     (sim_init\<lparr>m_temps := [(''core'', 90)]\<rparr>))) ''core'' 0 \<le> 160"
  using thermal_tick [of "sim_params_default\<lparr>sp_thermal_enabled := True,
       sp_nodes := [(''core'', \<lparr>tn_cap = 10, tn_cool = 1, tn_trip = 80, tn_hys = 5\<rparr>)]\<rparr>" 1 "''core''"
     "\<lparr>tn_cap = 10, tn_cool = 1, tn_trip = 80, tn_hys = 5\<rparr>" "sim_init\<lparr>m_temps := [(''core'', 90)]\<rparr>"]
  by (simp add: Let_def wf_dict_def)

end
