(* ===== verification/Fsm_Conv.thy ===== *)
theory Fsm_Conv
  imports Fsm_Types Py_Numbers
begin

text \<open>
  The converters between the agent's snapshots and the protobuf messages
  (\<open>src/qiki/services/q_core_agent/state/conv.py\<close>; the messages are those of
  \<open>protos/fsm_state.proto\<close>). Enumerations are numbers in a message, a submessage may be
  unset. What the protobuf library accepts (a number of seconds, an \<open>int32\<close>) and how a float
  is written (\<open>str\<close>) are arguments. Every exception inside a converter becomes a
  \<open>ConversionError\<close>, here a value.
\<close>

section \<open>Messages\<close>

type_synonym proto_timestamp = "int \<times> int"

record proto_transition =
  pt_from :: int
  pt_to :: int
  pt_trigger :: string
  pt_status :: int
  pt_error :: string
  pt_ts :: "proto_timestamp option"

record proto_snapshot =
  ps_snapshot_id :: "string option"
  ps_instance_id :: "string option"
  ps_ts :: "proto_timestamp option"
  ps_state :: int
  ps_source :: string
  ps_attempts :: int
  ps_history :: "proto_transition list"
  ps_context :: "(string, string) dict"
  ps_metadata :: "(string, string) dict"

text \<open>
  \<open>Non_finite_time\<close> stands for a message whose time text reads as no number: the code goes
  on with that float, which a snapshot of the model cannot hold.
\<close>

datatype conv_error = ConversionError | Non_finite_time

record proto_lib =
  lib_seconds_ok :: "int \<Rightarrow> bool"
  lib_int32_ok :: "int \<Rightarrow> bool"
  lib_str_float :: "real \<Rightarrow> string"

section \<open>Enumerations\<close>

definition state_to_proto :: "fsm_state \<Rightarrow> int" where
  "state_to_proto s = fsm_state_value s"

definition all_states :: "fsm_state list" where
  "all_states = [Fsm_UNSPECIFIED, Fsm_BOOTING, Fsm_IDLE, Fsm_ACTIVE, Fsm_ERROR_STATE, Fsm_SHUTDOWN]"

definition state_from_proto :: "int \<Rightarrow> fsm_state" where
  "state_from_proto n = (case find (\<lambda>s. state_to_proto s = n) all_states of Some s \<Rightarrow> s | None \<Rightarrow> Fsm_UNSPECIFIED)"

fun status_to_proto :: "transition_status \<Rightarrow> int" where
  "status_to_proto Tr_UNSPECIFIED = 0"
| "status_to_proto Tr_SUCCESS = 1"
| "status_to_proto Tr_FAILED = 2"
| "status_to_proto Tr_PENDING = 3"

definition status_from_proto :: "int \<Rightarrow> transition_status" where
  "status_from_proto n =
     (case find (\<lambda>s. status_to_proto s = n) [Tr_UNSPECIFIED, Tr_SUCCESS, Tr_FAILED, Tr_PENDING] of
        Some s \<Rightarrow> s | None \<Rightarrow> Tr_UNSPECIFIED)"

fun state_name :: "fsm_state \<Rightarrow> string" where
  "state_name Fsm_UNSPECIFIED = ''UNSPECIFIED''"
| "state_name Fsm_BOOTING = ''BOOTING''"
| "state_name Fsm_IDLE = ''IDLE''"
| "state_name Fsm_ACTIVE = ''ACTIVE''"
| "state_name Fsm_ERROR_STATE = ''ERROR_STATE''"
| "state_name Fsm_SHUTDOWN = ''SHUTDOWN''"

definition state_of_name :: "string \<Rightarrow> fsm_state option" where
  "state_of_name x = find (\<lambda>s. state_name s = x) all_states"

section \<open>Identifiers and times\<close>

definition create_uuid_proto :: "string \<Rightarrow> string \<Rightarrow> string" where
  "create_uuid_proto fresh s = (case parse_uuid s of Some n \<Rightarrow> uuid_str n | None \<Rightarrow> fresh)"

definition extract_uuid_string :: "string \<Rightarrow> string option \<Rightarrow> string" where
  "extract_uuid_string fresh u = (case u of Some v \<Rightarrow> if v = [] then fresh else v | None \<Rightarrow> fresh)"

definition timestamp_to_float :: "proto_timestamp option \<Rightarrow> real" where
  "timestamp_to_float t = (case t of None \<Rightarrow> 0 | Some (s, n) \<Rightarrow> of_int s + of_int n / 10 ^ 9)"

definition float_to_timestamp :: "proto_lib \<Rightarrow> real \<Rightarrow> conv_error + proto_timestamp" where
  "float_to_timestamp lib x =
     (if x > 0
      then if lib_seconds_ok lib \<lfloor>x\<rfloor> then Inr (\<lfloor>x\<rfloor>, \<lfloor>(x - of_int \<lfloor>x\<rfloor>) * 10 ^ 9\<rfloor>) else Inl ConversionError
      else Inr (0, 0))"

definition opt_timestamp :: "proto_lib \<Rightarrow> real \<Rightarrow> conv_error + proto_timestamp option" where
  "opt_timestamp lib x = (if x > 0 then map_sum id Some (float_to_timestamp lib x) else Inr None)"

section \<open>Transitions\<close>

definition transition_dto_to_proto :: "proto_lib \<Rightarrow> transition_dto \<Rightarrow> conv_error + proto_transition" where
  "transition_dto_to_proto lib t =
     (case opt_timestamp lib (tr_ts_wall t) of
        Inl e \<Rightarrow> Inl e
      | Inr ts \<Rightarrow> Inr \<lparr>pt_from = state_to_proto (tr_from t), pt_to = state_to_proto (tr_to t),
                       pt_trigger = tr_trigger t, pt_status = status_to_proto (tr_status t),
                       pt_error = tr_error t, pt_ts = ts\<rparr>)"

definition transition_proto_to_dto :: "clock_env \<Rightarrow> proto_transition \<Rightarrow> transition_dto" where
  "transition_proto_to_dto env p =
     transition_post_init env
       \<lparr>tr_from = state_from_proto (pt_from p), tr_to = state_from_proto (pt_to p), tr_trigger = pt_trigger p,
        tr_status = status_from_proto (pt_status p), tr_error = pt_error p, tr_ts_mono = 0,
        tr_ts_wall = timestamp_to_float (pt_ts p)\<rparr>"

fun convert_all :: "('a \<Rightarrow> conv_error + 'b) \<Rightarrow> 'a list \<Rightarrow> conv_error + 'b list" where
  "convert_all f [] = Inr []"
| "convert_all f (x # xs) =
     (case f x of Inl e \<Rightarrow> Inl e
      | Inr y \<Rightarrow> (case convert_all f xs of Inl e \<Rightarrow> Inl e | Inr ys \<Rightarrow> Inr (y # ys)))"

section \<open>Snapshots\<close>

text \<open>\<open>if dto.prev_state\<close>: the state \<open>UNSPECIFIED\<close> is the number 0, so it counts as absent.\<close>

definition dto_metadata :: "proto_lib \<Rightarrow> snapshot \<Rightarrow> (string, string) dict" where
  "dto_metadata lib s =
     (let m1 = dict_set (dict_set (dict_update [] (sn_metadata s)) ''dto_version'' (show_int (sn_version s)))
                 ''dto_reason'' (sn_reason s);
          m2 = (case sn_prev_state s of
                  Some p \<Rightarrow> if fsm_state_value p \<noteq> 0 then dict_set m1 ''dto_prev_state'' (state_name p) else m1
                | None \<Rightarrow> m1)
      in dict_set m2 ''dto_ts_mono'' (lib_str_float lib (sn_ts_mono s)))"

definition dto_to_proto :: "proto_lib \<Rightarrow> clock_env \<Rightarrow> snapshot \<Rightarrow> conv_error + proto_snapshot" where
  "dto_to_proto lib env s =
     (case opt_timestamp lib (sn_ts_wall s) of
        Inl e \<Rightarrow> Inl e
      | Inr ts \<Rightarrow>
          if \<not> lib_int32_ok lib (sn_attempt_count s) then Inl ConversionError
          else case convert_all (transition_dto_to_proto lib) (sn_history s) of
                 Inl e \<Rightarrow> Inl e
               | Inr hist \<Rightarrow>
                   Inr \<lparr>ps_snapshot_id = (if sn_snapshot_id s = [] then None
                                         else Some (create_uuid_proto (env_uuid env) (sn_snapshot_id s))),
                        ps_instance_id = (if sn_instance_id s = [] then None
                                         else Some (create_uuid_proto (env_uuid2 env) (sn_instance_id s))),
                        ps_ts = ts, ps_state = state_to_proto (sn_state s), ps_source = sn_source_module s,
                        ps_attempts = sn_attempt_count s, ps_history = hist,
                        ps_context = dict_update [] (sn_context s), ps_metadata = dto_metadata lib s\<rparr>)"

definition proto_to_dto :: "clock_env \<Rightarrow> proto_snapshot \<Rightarrow> conv_error + snapshot" where
  "proto_to_dto env p =
     (let meta0 = ps_metadata p;
          meta1 = dict_pop meta0 ''dto_version''; meta2 = dict_pop meta1 ''dto_reason'';
          meta3 = dict_pop meta2 ''dto_prev_state''; meta4 = dict_pop meta3 ''dto_ts_mono'';
          prev_name = dict_get meta2 ''dto_prev_state'';
          prev = (case prev_name of None \<Rightarrow> None | Some x \<Rightarrow> if x = [] then None else state_of_name x)
      in case py_int (dict_getd meta0 ''dto_version'' ''0'') of
           None \<Rightarrow> Inl ConversionError
         | Some version \<Rightarrow>
             (case py_float (dict_getd meta3 ''dto_ts_mono'' ''0.0'') of
                None \<Rightarrow> Inl ConversionError
              | Some (Fin ts_mono) \<Rightarrow>
                  Inr (mk_snapshot env version (state_from_proto (ps_state p)) (dict_getd meta1 ''dto_reason'' [])
                         ts_mono (timestamp_to_float (ps_ts p)) (extract_uuid_string (env_uuid env) (ps_snapshot_id p))
                         prev (extract_uuid_string (env_uuid2 env) (ps_instance_id p))
                         (if ps_source p = [] then ''unknown'' else ps_source p) (ps_attempts p)
                         (Some (map (transition_proto_to_dto env) (ps_history p)))
                         (Some (ps_context p)) (Some meta4))
              | Some _ \<Rightarrow> Inl Non_finite_time))"

text \<open>The light dictionary for logs.\<close>

record json_snapshot =
  js_version :: int
  js_state :: string
  js_prev_state :: "string option"
  js_reason :: string
  js_ts_mono :: real
  js_ts_wall :: real
  js_snapshot_id :: string
  js_instance_id :: string
  js_source_module :: string
  js_attempt_count :: int
  js_history_count :: nat
  js_context_keys :: "string list"
  js_metadata_keys :: "string list"

definition dto_to_json_dict :: "snapshot \<Rightarrow> json_snapshot" where
  "dto_to_json_dict s =
     \<lparr>js_version = sn_version s, js_state = state_name (sn_state s),
      js_prev_state = (case sn_prev_state s of None \<Rightarrow> None
                       | Some p \<Rightarrow> if fsm_state_value p \<noteq> 0 then Some (state_name p) else None),
      js_reason = sn_reason s, js_ts_mono = sn_ts_mono s, js_ts_wall = sn_ts_wall s,
      js_snapshot_id = sn_snapshot_id s, js_instance_id = sn_instance_id s,
      js_source_module = sn_source_module s, js_attempt_count = sn_attempt_count s,
      js_history_count = length (sn_history s), js_context_keys = dict_keys (sn_context s),
      js_metadata_keys = dict_keys (sn_metadata s)\<rparr>"

definition create_proto_snapshot ::
  "proto_lib \<Rightarrow> clock_env \<Rightarrow> fsm_state \<Rightarrow> string \<Rightarrow> int \<Rightarrow> conv_error + proto_snapshot" where
  "create_proto_snapshot lib env state reason version =
     dto_to_proto lib env (mk_snapshot env version state reason 0 0 [] None [] ''fsm_handler'' 0 None None None)"

section \<open>Lemmas\<close>

lemma state_proto_inverse [simp]: "state_from_proto (state_to_proto s) = s"
  by (cases s) (simp_all add: state_from_proto_def state_to_proto_def all_states_def)

lemma status_proto_inverse [simp]: "status_from_proto (status_to_proto s) = s"
  by (cases s) (simp_all add: status_from_proto_def)

lemma state_name_inverse [simp]: "state_of_name (state_name s) = Some s"
  by (cases s) (simp_all add: state_of_name_def all_states_def)

lemma state_name_nonempty [simp]: "state_name s \<noteq> []"
  by (cases s) simp_all

definition canonical_uuid :: "string \<Rightarrow> bool" where
  "canonical_uuid s \<longleftrightarrow> map_option uuid_str (parse_uuid s) = Some s"

text \<open>A positive time in whole nanoseconds.\<close>

definition whole_ns :: "real \<Rightarrow> bool" where
  "whole_ns x \<longleftrightarrow> 0 < x \<and> of_int \<lfloor>x * 10 ^ 9\<rfloor> = x * 10 ^ 9"

lemma canonical_uuid_create: "canonical_uuid s \<Longrightarrow> create_uuid_proto fresh s = s"
  by (auto simp: canonical_uuid_def create_uuid_proto_def split: option.splits)

lemma canonical_uuid_str: "n < 16 ^ 32 \<Longrightarrow> canonical_uuid (uuid_str n)"
  by (simp add: canonical_uuid_def)

lemma uuid_str_nonempty: "uuid_str n \<noteq> []"
  by (simp add: uuid_str_def Let_def)

lemma canonical_uuid_nonempty: "canonical_uuid s \<Longrightarrow> s \<noteq> []"
  by (auto simp: canonical_uuid_def uuid_str_nonempty)

lemma timestamp_roundtrip:
  assumes "whole_ns x" "lib_seconds_ok lib \<lfloor>x\<rfloor>"
  shows "\<exists>ts. opt_timestamp lib x = Inr (Some ts) \<and> timestamp_to_float (Some ts) = x"
proof -
  note pos = conjunct1 [OF assms(1) [unfolded whole_ns_def]]
  note whole = conjunct2 [OF assms(1) [unfolded whole_ns_def]]
  have "(x - of_int \<lfloor>x\<rfloor>) * 10 ^ 9 = of_int (\<lfloor>x * 10 ^ 9\<rfloor> - \<lfloor>x\<rfloor> * 10 ^ 9)"
    unfolding of_int_diff whole by (simp add: left_diff_distrib)
  then have h: "real_of_int \<lfloor>(x - of_int \<lfloor>x\<rfloor>) * 10 ^ 9\<rfloor> = (x - of_int \<lfloor>x\<rfloor>) * 10 ^ 9" by (metis floor_of_int)
  have fl: "real_of_int \<lfloor>(x - of_int \<lfloor>x\<rfloor>) * 10 ^ 9\<rfloor> / 10 ^ 9 = x - of_int \<lfloor>x\<rfloor>" unfolding h by simp
  let ?ts = "(\<lfloor>x\<rfloor>, \<lfloor>(x - of_int \<lfloor>x\<rfloor>) * 10 ^ 9\<rfloor>)"
  have "opt_timestamp lib x = Inr (Some ?ts)" using pos assms(2) by (simp add: opt_timestamp_def float_to_timestamp_def)
  moreover have "timestamp_to_float (Some ?ts) = x"
    unfolding timestamp_to_float_def option.case prod.case fl by simp
  ultimately show ?thesis by blast
qed

definition transition_exact :: "proto_lib \<Rightarrow> transition_dto \<Rightarrow> bool" where
  "transition_exact lib t \<longleftrightarrow> whole_ns (tr_ts_wall t) \<and> lib_seconds_ok lib \<lfloor>tr_ts_wall t\<rfloor>"

lemma transition_roundtrip:
  assumes "transition_exact lib t"
  shows "\<exists>p. transition_dto_to_proto lib t = Inr p \<and>
             transition_proto_to_dto env p = t\<lparr>tr_ts_mono := env_mono env\<rparr>"
proof -
  obtain ts where "opt_timestamp lib (tr_ts_wall t) = Inr (Some ts)" "timestamp_to_float (Some ts) = tr_ts_wall t"
    using assms timestamp_roundtrip unfolding transition_exact_def by blast
  moreover have "tr_ts_wall t \<noteq> 0" using assms by (simp add: transition_exact_def whole_ns_def)
  ultimately show ?thesis
    by (simp add: transition_dto_to_proto_def transition_proto_to_dto_def transition_post_init_def del: split_paired_Ex)
qed

lemma convert_all_roundtrip:
  assumes "list_all (transition_exact lib) ts"
  shows "\<exists>ps. convert_all (transition_dto_to_proto lib) ts = Inr ps \<and>
              map (transition_proto_to_dto env) ps = map (\<lambda>t. t\<lparr>tr_ts_mono := env_mono env\<rparr>) ts"
  using assms
proof (induction ts)
  case (Cons t ts)
  from Cons.prems obtain p where "transition_dto_to_proto lib t = Inr p"
    "transition_proto_to_dto env p = t\<lparr>tr_ts_mono := env_mono env\<rparr>"
    using transition_roundtrip [of lib t env] by auto
  moreover from Cons obtain ps where "convert_all (transition_dto_to_proto lib) ts = Inr ps"
    "map (transition_proto_to_dto env) ps = map (\<lambda>t. t\<lparr>tr_ts_mono := env_mono env\<rparr>) ts" by auto
  ultimately show ?case by simp
qed simp

lemma dict_update_append:
  "distinct (map fst (m @ u)) \<Longrightarrow> dict_update m u = m @ u"
proof (induction u arbitrary: m)
  case (Cons kv u)
  obtain k v where kv: "kv = (k, v)" by (metis prod.exhaust)
  have "dict_set m k v = m @ [(k, v)]" using Cons.prems by (intro dict_set_new) (auto simp: kv)
  with Cons.IH [of "m @ [(k, v)]"] Cons.prems show ?case by (simp add: kv)
qed simp

lemma dict_update_empty: "wf_dict u \<Longrightarrow> dict_update [] u = u"
  using dict_update_append [of "[]" u] by (simp add: wf_dict_def)

definition own_keys :: "string list" where
  "own_keys = [''dto_version'', ''dto_reason'', ''dto_prev_state'', ''dto_ts_mono'']"

lemma dict_pop_append [simp]: "dict_pop (m @ u) k = dict_pop m k @ dict_pop u k"
  by (simp add: AList.delete_eq)

lemma dict_pop_absent: "k \<notin> fst ` set m \<Longrightarrow> dict_pop m k = m"
  by (induction m) auto

lemma dict_get_absent: "k \<notin> fst ` set m \<Longrightarrow> dict_get (m @ u) k = dict_get u k"
  by (induction m) auto

text \<open>The converter's own entries are written behind the user's and taken out again.\<close>

lemma dto_metadata_shape:
  assumes "wf_dict (sn_metadata s)" "list_all (\<lambda>k. k \<notin> fst ` set (sn_metadata s)) own_keys"
    "sn_prev_state s \<noteq> Some Fsm_UNSPECIFIED"
  shows "dto_metadata lib s = sn_metadata s @
     [(''dto_version'', show_int (sn_version s)), (''dto_reason'', sn_reason s)] @
     (case sn_prev_state s of Some p \<Rightarrow> [(''dto_prev_state'', state_name p)] | None \<Rightarrow> []) @
     [(''dto_ts_mono'', lib_str_float lib (sn_ts_mono s))]"
proof -
  have v: "fsm_state_value p \<noteq> 0" if "sn_prev_state s = Some p" for p using that assms(3) by (cases p) auto
  have k: "''dto_version'' \<notin> fst ` set (sn_metadata s)" "''dto_reason'' \<notin> fst ` set (sn_metadata s)"
    "''dto_prev_state'' \<notin> fst ` set (sn_metadata s)" "''dto_ts_mono'' \<notin> fst ` set (sn_metadata s)"
    using assms(2) by (simp_all add: own_keys_def)
  show ?thesis
    using v by (cases "sn_prev_state s") (simp_all add: dto_metadata_def Let_def dict_update_empty assms(1) dict_set_new k)
qed

section \<open>Properties\<close>

definition conv_exact :: "proto_lib \<Rightarrow> snapshot \<Rightarrow> bool" where
  "conv_exact lib s \<longleftrightarrow>
     canonical_uuid (sn_snapshot_id s) \<and> canonical_uuid (sn_instance_id s) \<and>
     whole_ns (sn_ts_wall s) \<and> lib_seconds_ok lib \<lfloor>sn_ts_wall s\<rfloor> \<and>
     lib_int32_ok lib (sn_attempt_count s) \<and> list_all (transition_exact lib) (sn_history s) \<and>
     wf_dict (sn_context s) \<and> wf_dict (sn_metadata s) \<and>
     list_all (\<lambda>k. k \<notin> fst ` set (sn_metadata s)) own_keys \<and>
     sn_prev_state s \<noteq> Some Fsm_UNSPECIFIED \<and> sn_source_module s \<noteq> [] \<and> sn_ts_mono s \<noteq> 0"

text \<open>
  C13. A snapshot exported to a protobuf message and imported again is the same snapshot, but for the
  monotonic time of the transitions in its history, which messages do not carry: the importing clock
  stamps them. It needs canonical identifiers, times in whole nanoseconds, a previous state other than
  UNSPECIFIED, user metadata without the converter's own keys, and values the library accepts and
  whose float text reads back.
\<close>

theorem snapshot_conversion_roundtrip:
  assumes "conv_exact lib s" and "py_float (lib_str_float lib (sn_ts_mono s)) = Some (Fin (sn_ts_mono s))"
  shows "\<exists>p. dto_to_proto lib env s = Inr p \<and>
             proto_to_dto env' p = Inr (s\<lparr>sn_history := map (\<lambda>t. t\<lparr>tr_ts_mono := env_mono env'\<rparr>) (sn_history s)\<rparr>)"
proof -
  note ex = assms(1) [unfolded conv_exact_def]
  obtain ts where ts: "opt_timestamp lib (sn_ts_wall s) = Inr (Some ts)" "timestamp_to_float (Some ts) = sn_ts_wall s"
    using timestamp_roundtrip ex by blast
  obtain ps where ps: "convert_all (transition_dto_to_proto lib) (sn_history s) = Inr ps"
    "map (transition_proto_to_dto env') ps = map (\<lambda>t. t\<lparr>tr_ts_mono := env_mono env'\<rparr>) (sn_history s)"
    using convert_all_roundtrip ex by blast
  have ids: "sn_snapshot_id s \<noteq> []" "sn_instance_id s \<noteq> []" using ex canonical_uuid_nonempty by auto
  have wall: "sn_ts_wall s \<noteq> 0" and mono: "sn_ts_mono s \<noteq> 0" and src: "sn_source_module s \<noteq> []"
    using ex by (auto simp: whole_ns_def)
  define meta where "meta = dto_metadata lib s"
  have shape: "meta = sn_metadata s @
     [(''dto_version'', show_int (sn_version s)), (''dto_reason'', sn_reason s)] @
     (case sn_prev_state s of Some p \<Rightarrow> [(''dto_prev_state'', state_name p)] | None \<Rightarrow> []) @
     [(''dto_ts_mono'', lib_str_float lib (sn_ts_mono s))]"
    unfolding meta_def using ex by (intro dto_metadata_shape) auto
  have k: "''dto_version'' \<notin> fst ` set (sn_metadata s)" "''dto_reason'' \<notin> fst ` set (sn_metadata s)"
    "''dto_prev_state'' \<notin> fst ` set (sn_metadata s)" "''dto_ts_mono'' \<notin> fst ` set (sn_metadata s)"
    using ex by (simp_all add: own_keys_def)
  note absent = dict_pop_absent [OF k(1)] dict_pop_absent [OF k(2)] dict_pop_absent [OF k(3)] dict_pop_absent [OF k(4)]
    dict_get_absent [OF k(1)] dict_get_absent [OF k(2)] dict_get_absent [OF k(3)] dict_get_absent [OF k(4)]
  let ?p = "\<lparr>ps_snapshot_id = Some (sn_snapshot_id s), ps_instance_id = Some (sn_instance_id s), ps_ts = Some ts,
    ps_state = state_to_proto (sn_state s), ps_source = sn_source_module s, ps_attempts = sn_attempt_count s,
    ps_history = ps, ps_context = sn_context s, ps_metadata = meta\<rparr>"
  have "dto_to_proto lib env s = Inr ?p"
    using ex ids by (simp add: dto_to_proto_def ts ps canonical_uuid_create dict_update_empty meta_def)
  moreover have "proto_to_dto env' ?p =
      Inr (s\<lparr>sn_history := map (\<lambda>t. t\<lparr>tr_ts_mono := env_mono env'\<rparr>) (sn_history s)\<rparr>)"
    using ids wall mono src by (cases "sn_prev_state s")
      (simp_all add: proto_to_dto_def Let_def shape absent dict_getd_def assms(2) ts(2) ps(2) extract_uuid_string_def
        mk_snapshot_def snapshot_post_init_def del: map_of_append)
  ultimately show ?thesis by blast
qed

definition demo_lib :: proto_lib where
  "demo_lib = \<lparr>lib_seconds_ok = (\<lambda>n. 0 \<le> n), lib_int32_ok = (\<lambda>n. - (2 ^ 31) \<le> n \<and> n < 2 ^ 31), lib_str_float = fmt_fixed 1\<rparr>"

definition demo_conv_snapshot :: snapshot where
  "demo_conv_snapshot =
     \<lparr>sn_version = 7, sn_state = Fsm_ACTIVE, sn_reason = ''BOOT_OK'', sn_ts_mono = 2, sn_ts_wall = 3,
      sn_snapshot_id = uuid_str 1, sn_prev_state = Some Fsm_IDLE, sn_instance_id = uuid_str 2,
      sn_source_module = ''fsm'', sn_attempt_count = 4, sn_history = [], sn_context = [(''a'', ''b'')],
      sn_metadata = [(''k'', ''v'')]\<rparr>"

theorem snapshot_conversion_roundtrip_witness:
  "\<exists>p. dto_to_proto demo_lib \<lparr>env_mono = 1, env_wall = 1, env_uuid = ''u'', env_uuid2 = ''w''\<rparr> demo_conv_snapshot = Inr p \<and>
       proto_to_dto \<lparr>env_mono = 9, env_wall = 9, env_uuid = ''x'', env_uuid2 = ''y''\<rparr> p = Inr demo_conv_snapshot"
proof -
  have e: "conv_exact demo_lib demo_conv_snapshot"
    by (simp add: conv_exact_def demo_conv_snapshot_def demo_lib_def canonical_uuid_str whole_ns_def own_keys_def wf_dict_def)
  have u: "fixed_units (Suc 0) 2 = 20" by (simp add: fixed_units_def round_half_even_def Let_def)
  have f: "py_float (lib_str_float demo_lib (sn_ts_mono demo_conv_snapshot)) = Some (Fin (sn_ts_mono demo_conv_snapshot))"
    using py_float_fixed [of "Suc 0" 2] by (simp add: demo_lib_def demo_conv_snapshot_def u negated_def)
  have "demo_conv_snapshot\<lparr>sn_history := map g (sn_history demo_conv_snapshot)\<rparr> = demo_conv_snapshot" for g
    by (simp add: demo_conv_snapshot_def)
  then show ?thesis
    using snapshot_conversion_roundtrip [OF e f, of "\<lparr>env_mono = 1, env_wall = 1, env_uuid = ''u'', env_uuid2 = ''w''\<rparr>"
        "\<lparr>env_mono = 9, env_wall = 9, env_uuid = ''x'', env_uuid2 = ''y''\<rparr>"] by simp
qed

end
