(* ===== verification/Ship_Core.thy ===== *)
theory Ship_Core
  imports Py_Numbers
begin

text \<open>
  The ship's definition and its raw interface
  (\<open>src/qiki/services/q_core_agent/core/ship_core.py\<close>): the configuration read from JSON,
  where every key may be missing, the status views derived from it, the snapshot of sensor readings
  and the check of actuator commands. Positions, distribution tables and the identity file are left
  out, and so is the receiver of readings, which keys its dictionary by a protobuf message (those
  are not hashable): the readings are a field of the ship.
\<close>

section \<open>Configuration\<close>

record compartment_config =
  cp_pressure :: "real option"
  cp_temperature :: "real option"

record hull_config =
  hc_integrity :: "real option"
  hc_max_integrity :: "real option"
  hc_mass_kg :: "real option"
  hc_volume_m3 :: "real option"
  hc_compartments :: "(string, compartment_config) dict option"

record reactor_config =
  rx_output :: "real option"
  rx_max_output :: "real option"
  rx_fuel_hours :: "real option"
  rx_temperature :: "real option"

record battery_config =
  bt_charge :: "real option"
  bt_capacity :: "real option"

record power_config =
  pc_reactor :: "reactor_config option"
  pc_batteries :: "battery_config list option"

record drive_config =
  dr_id :: "string option"
  dr_thrust :: "real option"
  dr_max_thrust :: "real option"
  dr_fuel :: "real option"
  dr_status :: "string option"

record rcs_config =
  th_id :: "string option"
  th_max_thrust :: "real option"
  th_fuel :: "real option"
  th_status :: "string option"

record propulsion_config =
  pr_main_drive :: "drive_config option"
  pr_thrusters :: "rcs_config list option"

record sensor_config =
  se_id :: "string option"
  se_type :: "string option"
  se_status :: "string option"
  se_power_kw :: "real option"
  se_range_km :: "real option"

record life_config =
  lf_atmosphere :: "(string, real) dict option"
  lf_water :: "(string, real) dict option"
  lf_air :: "(string, real) dict option"

record core_config =
  cc_status :: "string option"
  cc_temperature :: "real option"
  cc_power_kw :: "real option"

record computing_config =
  cm_core :: "core_config option"
  cm_backups :: "(string option \<times> string option) list option"

record ship_config =
  sc_mode :: "string option"
  sc_class :: "string option"
  sc_hull :: "hull_config option"
  sc_power :: "power_config option"
  sc_propulsion :: "propulsion_config option"
  sc_sensors :: "sensor_config list option"
  sc_life :: "life_config option"
  sc_computing :: "computing_config option"

text \<open>\<open>d.get(key, default)\<close> on an optional field of an optional section.\<close>

definition cfg_get :: "'a option \<Rightarrow> ('a \<Rightarrow> 'b option) \<Rightarrow> 'b \<Rightarrow> 'b" where
  "cfg_get sec f d = (case sec of None \<Rightarrow> d | Some s \<Rightarrow> (case f s of None \<Rightarrow> d | Some v \<Rightarrow> v))"

definition opt_or :: "'b \<Rightarrow> 'b option \<Rightarrow> 'b" where
  "opt_or d x = (case x of None \<Rightarrow> d | Some v \<Rightarrow> v)"

section \<open>Status\<close>

record hull_status =
  hu_integrity :: real
  hu_max_integrity :: real
  hu_mass_kg :: real
  hu_volume_m3 :: real
  hu_compartments :: "(string, compartment_config) dict"

record power_status =
  po_output :: real
  po_max_output :: real
  po_fuel_hours :: real
  po_temperature :: real
  po_battery_charge :: real
  po_battery_capacity :: real

record rcs_status =
  rs_thrust_n :: real
  rs_fuel_kg :: real
  rs_status :: string

record propulsion_status =
  pp_thrust :: real
  pp_max_thrust :: real
  pp_fuel_kg :: real
  pp_status :: string
  pp_rcs :: "(string, rcs_status) dict"

record sensor_row =
  sr_type :: string
  sr_status :: string
  sr_power_kw :: real
  sr_range_km :: real

record sensor_status =
  ss_active :: "string list"
  ss_data :: "(string, sensor_row) dict"
  ss_power_kw :: real

record life_status =
  li_atmosphere :: "(string, real) dict"
  li_water :: "(string, real) dict"
  li_air :: "(string, real) dict"

record computing_status =
  co_core_status :: string
  co_temperature :: real
  co_power_kw :: real
  co_backups :: "(string, string) dict"

definition get_hull_status :: "ship_config \<Rightarrow> hull_status" where
  "get_hull_status c =
     \<lparr>hu_integrity = cfg_get (sc_hull c) hc_integrity 0, hu_max_integrity = cfg_get (sc_hull c) hc_max_integrity 100,
      hu_mass_kg = cfg_get (sc_hull c) hc_mass_kg 0, hu_volume_m3 = cfg_get (sc_hull c) hc_volume_m3 0,
      hu_compartments = cfg_get (sc_hull c) hc_compartments []\<rparr>"

definition get_power_status :: "ship_config \<Rightarrow> power_status" where
  "get_power_status c =
     (let reactor = (case sc_power c of None \<Rightarrow> None | Some p \<Rightarrow> pc_reactor p);
          batteries = cfg_get (sc_power c) pc_batteries [];
          battery = (case batteries of [] \<Rightarrow> None | b # bs \<Rightarrow> Some b)
      in \<lparr>po_output = cfg_get reactor rx_output 0, po_max_output = cfg_get reactor rx_max_output 0,
          po_fuel_hours = cfg_get reactor rx_fuel_hours 0, po_temperature = cfg_get reactor rx_temperature 0,
          po_battery_charge = cfg_get battery bt_charge 0, po_battery_capacity = cfg_get battery bt_capacity 0\<rparr>)"

definition thruster_list :: "ship_config \<Rightarrow> rcs_config list" where
  "thruster_list c = cfg_get (sc_propulsion c) pr_thrusters []"

definition main_drive :: "ship_config \<Rightarrow> drive_config option" where
  "main_drive c = (case sc_propulsion c of None \<Rightarrow> None | Some p \<Rightarrow> pr_main_drive p)"

definition rcs_row :: "rcs_config \<Rightarrow> rcs_status" where
  "rcs_row t = \<lparr>rs_thrust_n = opt_or 0 (th_max_thrust t), rs_fuel_kg = opt_or 0 (th_fuel t),
                rs_status = opt_or ''unknown'' (th_status t)\<rparr>"

definition get_propulsion_status :: "ship_config \<Rightarrow> propulsion_status" where
  "get_propulsion_status c =
     \<lparr>pp_thrust = cfg_get (main_drive c) dr_thrust 0, pp_max_thrust = cfg_get (main_drive c) dr_max_thrust 0,
      pp_fuel_kg = cfg_get (main_drive c) dr_fuel 0, pp_status = cfg_get (main_drive c) dr_status ''unknown'',
      pp_rcs = foldl (\<lambda>m t. dict_set m (opt_or ''unknown'' (th_id t)) (rcs_row t)) [] (thruster_list c)\<rparr>"

fun ship_sensor_loop ::
  "string list \<Rightarrow> (string, sensor_row) dict \<Rightarrow> real \<Rightarrow> sensor_config list \<Rightarrow> sensor_status" where
  "ship_sensor_loop active rows pw_total [] = \<lparr>ss_active = active, ss_data = rows, ss_power_kw = pw_total\<rparr>"
| "ship_sensor_loop active rows pw_total (s # ss) =
     (let sid = opt_or ''unknown'' (se_id s); status = opt_or ''offline'' (se_status s);
          power = opt_or 0 (se_power_kw s);
          row = \<lparr>sr_type = opt_or ''unknown'' (se_type s), sr_status = status, sr_power_kw = power,
                 sr_range_km = opt_or 0 (se_range_km s)\<rparr>
      in if status = ''active''
         then ship_sensor_loop (active @ [sid]) (dict_set rows sid row) (pw_total + power) ss
         else ship_sensor_loop active (dict_set rows sid row) pw_total ss)"

definition sensor_list :: "ship_config \<Rightarrow> sensor_config list" where
  "sensor_list c = opt_or [] (sc_sensors c)"

definition get_sensor_status :: "ship_config \<Rightarrow> sensor_status" where
  "get_sensor_status c = ship_sensor_loop [] [] 0 (sensor_list c)"

definition get_life_support_status :: "ship_config \<Rightarrow> life_status" where
  "get_life_support_status c =
     \<lparr>li_atmosphere = cfg_get (sc_life c) lf_atmosphere [], li_water = cfg_get (sc_life c) lf_water [],
      li_air = cfg_get (sc_life c) lf_air []\<rparr>"

definition get_computing_status :: "ship_config \<Rightarrow> computing_status" where
  "get_computing_status c =
     (let core = (case sc_computing c of None \<Rightarrow> None | Some m \<Rightarrow> cm_core m)
      in \<lparr>co_core_status = cfg_get core cc_status ''unknown'', co_temperature = cfg_get core cc_temperature 0,
          co_power_kw = cfg_get core cc_power_kw 0,
          co_backups = foldl (\<lambda>m (i, s). dict_set m (opt_or ''unknown'' i) (opt_or ''unknown'' s)) []
                         (cfg_get (sc_computing c) cm_backups [])\<rparr>)"

record ship_summary =
  su_class :: string
  su_hull :: real
  su_reactor_percent :: real
  su_battery_percent :: real
  su_main_drive :: string
  su_active_sensors :: nat
  su_life_support :: bool
  su_core :: string
  su_mass_kg :: real

definition percent_of :: "real \<Rightarrow> real \<Rightarrow> real" where
  "percent_of x m = (if m > 0 then (x / m) * 100 else 0)"

definition get_ship_summary :: "ship_config \<Rightarrow> ship_summary" where
  "get_ship_summary c =
     (let hs = get_hull_status c; ps = get_power_status c
      in \<lparr>su_class = opt_or ''unknown'' (sc_class c), su_hull = hu_integrity hs,
          su_reactor_percent = percent_of (po_output ps) (po_max_output ps),
          su_battery_percent = percent_of (po_battery_charge ps) (po_battery_capacity ps),
          su_main_drive = pp_status (get_propulsion_status c),
          su_active_sensors = length (ss_active (get_sensor_status c)),
          su_life_support = dict_getd (li_atmosphere (get_life_support_status c)) ''pressure_kpa'' 0 > 50,
          su_core = co_core_status (get_computing_status c), su_mass_kg = hu_mass_kg hs\<rparr>)"

section \<open>Sensors and actuators\<close>

text \<open>
  A reading that carries a radar track, as far as the ship's logic looks at it. A missing
  attribute, or one that reads as no float, is \<open>None\<close>; a protobuf track has them all.
\<close>

record station_track =
  tk_is_station :: bool
  tk_range_m :: "pyfloat option"
  tk_vr_mps :: "pyfloat option"
  tk_quality :: "pyfloat option"
  tk_timestamp :: "real option"
  tk_age_s :: "pyfloat option"

record reading =
  rd_sensor_id :: string
  rd_track :: "station_track option"

datatype ship_command_type = SC_SET_VELOCITY | SC_ENABLE | SC_DISABLE

text \<open>A command; its unit and its confidence are constants of its constructor below.\<close>

record ship_command =
  cmd_id :: string
  cmd_actuator :: string
  cmd_type :: ship_command_type
  cmd_value :: "real + bool"
  cmd_timeout_ms :: int
  cmd_ack_required :: bool

record ship =
  sh_config :: ship_config
  sh_readings :: "(string, reading) dict"
  sh_last_commands :: "(string, ship_command) dict"

definition new_ship :: "ship_config \<Rightarrow> ship" where
  "new_ship c = \<lparr>sh_config = c, sh_readings = [], sh_last_commands = []\<rparr>"

definition is_minimal :: "ship_config \<Rightarrow> bool" where
  "is_minimal c \<longleftrightarrow> sc_mode c = Some ''minimal''"

definition get_latest_sensor_value :: "ship \<Rightarrow> string \<Rightarrow> reading option" where
  "get_latest_sensor_value s sid = (if is_minimal (sh_config s) then None else dict_get (sh_readings s) sid)"

definition iter_latest_sensor_readings :: "ship \<Rightarrow> reading list" where
  "iter_latest_sensor_readings s = (if is_minimal (sh_config s) then [] else dict_values (sh_readings s))"

definition ship_systems :: "ship_config \<Rightarrow> string option list" where
  "ship_systems c =
     map se_id (sensor_list c) @ (case main_drive c of None \<Rightarrow> [] | Some d \<Rightarrow> [dr_id d]) @
     map th_id (thruster_list c)"

text \<open>
  The exceptions a command can raise, as the actuator controller tells them apart; \<open>ship_core\<close>
  itself raises \<open>ValueError\<close> only. Its message also lists the known systems, which no code reads.
\<close>

datatype ship_send_error =
    Timeout_error string
  | Connection_error string
  | Value_error string
  | Other_error string

definition ship_send :: "ship_command \<Rightarrow> ship \<Rightarrow> ship_send_error + ship" where
  "ship_send c s =
     (if is_minimal (sh_config s) then Inr s
      else if Some (cmd_actuator c) \<notin> set (ship_systems (sh_config s))
      then Inl (Value_error (''Unknown ship system ID: '' @ cmd_actuator c))
      else Inr (s\<lparr>sh_last_commands := dict_set (sh_last_commands s) (cmd_actuator c) c\<rparr>))"

section \<open>Lemmas\<close>

lemma sensor_loop_active:
  "ss_active (ship_sensor_loop active rows pw_total ss) =
     active @ map (\<lambda>s. opt_or ''unknown'' (se_id s)) (filter (\<lambda>s. se_status s = Some ''active'') ss)"
  by (induction ss arbitrary: active rows pw_total) (auto simp: Let_def opt_or_def split: option.splits)

lemma ship_send_config: "ship_send c s = Inr s' \<Longrightarrow> sh_config s' = sh_config s \<and> sh_readings s' = sh_readings s"
  by (auto simp: ship_send_def split: if_splits)

lemma ship_send_stored:
  "ship_send c s = Inr s' \<Longrightarrow> \<not> is_minimal (sh_config s) \<Longrightarrow>
   Some (cmd_actuator c) \<in> set (ship_systems (sh_config s)) \<and>
   sh_last_commands s' = dict_set (sh_last_commands s) (cmd_actuator c) c"
  by (auto simp: ship_send_def split: if_splits)

section \<open>The shipped configuration\<close>

text \<open>\<open>src/qiki/services/q_core_agent/config/ship_config.json\<close>, as far as the ship reads it.\<close>

definition shipped_propulsion :: propulsion_config where
  "shipped_propulsion =
     \<lparr>pr_main_drive = Some \<lparr>dr_id = Some ''ion_drive_array'', dr_thrust = Some 0, dr_max_thrust = Some 850000,
        dr_fuel = Some 450, dr_status = Some ''idle''\<rparr>,
      pr_thrusters = Some
        [\<lparr>th_id = Some ''rcs_forward'', th_max_thrust = Some 5000, th_fuel = Some 50, th_status = Some ''ready''\<rparr>,
         \<lparr>th_id = Some ''rcs_aft'', th_max_thrust = Some 5000, th_fuel = Some 50, th_status = Some ''ready''\<rparr>,
         \<lparr>th_id = Some ''rcs_port'', th_max_thrust = Some 3000, th_fuel = Some 30, th_status = Some ''ready''\<rparr>,
         \<lparr>th_id = Some ''rcs_starboard'', th_max_thrust = Some 3000, th_fuel = Some 30, th_status = Some ''ready''\<rparr>]\<rparr>"

definition shipped_sensors :: "sensor_config list" where
  "shipped_sensors =
     [\<lparr>se_id = Some ''long_range_radar'', se_type = Some ''radar'', se_status = Some ''active'',
       se_power_kw = Some 800, se_range_km = Some 10000\<rparr>,
      \<lparr>se_id = Some ''navigation_computer'', se_type = Some ''nav_computer'', se_status = Some ''active'',
       se_power_kw = Some 200, se_range_km = None\<rparr>,
      \<lparr>se_id = Some ''thermal_scanner'', se_type = Some ''thermal'', se_status = Some ''standby'',
       se_power_kw = Some 150, se_range_km = Some 1000\<rparr>,
      \<lparr>se_id = Some ''quantum_scanner'', se_type = Some ''quantum_sensor'', se_status = Some ''offline'',
       se_power_kw = Some 1200, se_range_km = Some 500\<rparr>]"

definition shipped_config :: ship_config where
  "shipped_config =
     \<lparr>sc_mode = Some ''full'', sc_class = Some ''light_explorer'',
      sc_hull = Some \<lparr>hc_integrity = Some 100, hc_max_integrity = Some 100, hc_mass_kg = Some 45000,
        hc_volume_m3 = Some 180, hc_compartments = Some
          [(''bridge'', \<lparr>cp_pressure = Some 1, cp_temperature = Some 295\<rparr>),
           (''engine_room'', \<lparr>cp_pressure = Some 1, cp_temperature = Some 310\<rparr>),
           (''cargo_bay'', \<lparr>cp_pressure = Some 0, cp_temperature = Some 270\<rparr>),
           (''life_support'', \<lparr>cp_pressure = Some 1, cp_temperature = Some 295\<rparr>),
           (''computer_core'', \<lparr>cp_pressure = Some 1, cp_temperature = Some 285\<rparr>)]\<rparr>,
      sc_power = Some \<lparr>pc_reactor = Some \<lparr>rx_output = Some 35, rx_max_output = Some 50, rx_fuel_hours = Some 168,
          rx_temperature = Some 2800\<rparr>,
        pc_batteries = Some [\<lparr>bt_charge = Some (21 / 2), bt_capacity = Some 12\<rparr>]\<rparr>,
      sc_propulsion = Some shipped_propulsion, sc_sensors = Some shipped_sensors,
      sc_life = Some \<lparr>lf_atmosphere = Some [(''oxygen_percent'', 21), (''nitrogen_percent'', 78), (''co2_ppm'', 400),
          (''pressure_kpa'', 1013 / 10), (''temperature_k'', 295), (''humidity_percent'', 45)],
        lf_water = Some [(''clean_water_liters'', 2500), (''waste_water_liters'', 150),
          (''recycling_efficiency'', 98 / 100)],
        lf_air = Some [(''co2_scrubbers'', 4), (''active_scrubbers'', 3), (''oxygen_generators'', 2)]\<rparr>,
      sc_computing = Some \<lparr>cm_core = Some \<lparr>cc_status = Some ''active'', cc_temperature = Some 285,
          cc_power_kw = Some 3000\<rparr>,
        cm_backups = Some [(Some ''navigation_backup'', Some ''standby''), (Some ''life_support_backup'', Some ''active'')]\<rparr>\<rparr>"

end
