(* ===== verification/Ship_Actuators.thy ===== *)
theory Ship_Actuators
  imports Ship_Core Event_Store
begin

text \<open>
  The actuator controller of the ship
  (\<open>src/qiki/services/q_core_agent/core/ship_actuators.py\<close>): pilot commands become actuator
  commands, and every dispatch leaves an explicit result. A result is \<open>None\<close> where Python
  raises out of the method: a timeout that no \<open>int32\<close> field holds, and any command at all when
  the protobuf classes are missing, because the stand-in command has plain string fields. The
  ship's \<open>send_actuator_command\<close>, the environment and \<open>uuid4\<close> are arguments. Log lines
  are left out; the event store appears as the journal of what is appended to it (its window is the
  event store component's).
\<close>

section \<open>Facts\<close>

datatype thruster_axis = TA_FORWARD | TA_BACKWARD | TA_PORT | TA_STARBOARD | TA_UP | TA_DOWN

fun thruster_axis_value :: "thruster_axis \<Rightarrow> string" where
  "thruster_axis_value TA_FORWARD = ''forward''"
| "thruster_axis_value TA_BACKWARD = ''backward''"
| "thruster_axis_value TA_PORT = ''port''"
| "thruster_axis_value TA_STARBOARD = ''starboard''"
| "thruster_axis_value TA_UP = ''up''"
| "thruster_axis_value TA_DOWN = ''down''"

text \<open>\<open>str\<close> of a member is its qualified name.\<close>

definition thruster_axis_str :: "thruster_axis \<Rightarrow> string" where
  "thruster_axis_str a = ''ThrusterAxis.'' @ py_upper (thruster_axis_value a)"

datatype propulsion_mode = PM_IDLE | PM_MANEUVERING | PM_CRUISE | PM_EMERGENCY

fun propulsion_mode_value :: "propulsion_mode \<Rightarrow> string" where
  "propulsion_mode_value PM_IDLE = ''idle''"
| "propulsion_mode_value PM_MANEUVERING = ''maneuvering''"
| "propulsion_mode_value PM_CRUISE = ''cruise''"
| "propulsion_mode_value PM_EMERGENCY = ''emergency''"

record thrust_vector =
  tv_x :: real
  tv_y :: real
  tv_z :: real

record power_allocation =
  pa_life_support :: real
  pa_propulsion :: real
  pa_sensors :: real
  pa_qiki_core :: real
  pa_shields :: real

datatype actuation_status = A_ACCEPTED | A_EXECUTED | A_REJECTED | A_FAILED | A_TIMEOUT | A_UNAVAILABLE

fun actuation_status_value :: "actuation_status \<Rightarrow> string" where
  "actuation_status_value A_ACCEPTED = ''accepted''"
| "actuation_status_value A_EXECUTED = ''executed''"
| "actuation_status_value A_REJECTED = ''rejected''"
| "actuation_status_value A_FAILED = ''failed''"
| "actuation_status_value A_TIMEOUT = ''timeout''"
| "actuation_status_value A_UNAVAILABLE = ''unavailable''"

record actuation_result =
  ar_status :: actuation_status
  ar_reason :: string
  ar_command_id :: string
  ar_correlation_id :: string
  ar_is_fallback :: bool
  ar_action :: string
  ar_timestamp :: real

datatype trust_reason = TR_OK | TR_NO_DATA | TR_STALE | TR_LOW_QUALITY | TR_INVALID | TR_MISSING_FIELDS

record trusted_frame =
  tf_ok :: bool
  tf_reason :: trust_reason
  tf_age_s :: "real option"
  tf_quality :: "real option"
  tf_data :: "(real \<times> real) option" \<comment> \<open>range and radial velocity\<close>

text \<open>What the ship's components append to the event store.\<close>

datatype ship_event =
    Actuation_receipt actuation_result truth_state
  | Sensor_verdict trusted_frame truth_state
  | Fsm_transition string string string string "string \<times> string \<times> string"
  | Safe_mode string string string int truth_state

record controller =
  ct_ship :: ship
  ct_mode :: propulsion_mode
  ct_last :: "actuation_result option"
  ct_ids :: nat
  ct_journal :: "ship_event list"

record actuator_env =
  ae_allow_fallback :: bool
  ae_proto_missing :: bool
  ae_fresh :: "nat \<Rightarrow> string"
  ae_now :: real
  ae_send :: "ship_command \<Rightarrow> ship \<Rightarrow> ship_send_error + ship"

definition init_controller :: "ship \<Rightarrow> controller" where
  "init_controller s = \<lparr>ct_ship = s, ct_mode = PM_IDLE, ct_last = None, ct_ids = 0, ct_journal = []\<rparr>"

definition success_status :: "actuation_status \<Rightarrow> bool" where
  "success_status s \<longleftrightarrow> s \<in> {A_ACCEPTED, A_EXECUTED}"

definition truth_state_for_result :: "actuation_result \<Rightarrow> truth_state" where
  "truth_state_for_result r =
     (if ar_is_fallback r then T_FALLBACK
      else if success_status (ar_status r) then T_OK
      else if ar_status r = A_REJECTED then T_INVALID
      else T_NO_DATA)"

definition record_event :: "ship_event \<Rightarrow> controller \<Rightarrow> controller" where
  "record_event e c = c\<lparr>ct_journal := ct_journal c @ [e]\<rparr>"

definition build_actuation_result ::
  "actuator_env \<Rightarrow> actuation_status \<Rightarrow> string \<Rightarrow> string \<Rightarrow> string \<Rightarrow> bool \<Rightarrow> controller \<Rightarrow> controller \<times> actuation_result" where
  "build_actuation_result env status reason cid action fallback c =
     (let r = \<lparr>ar_status = status, ar_reason = reason, ar_command_id = cid, ar_correlation_id = cid,
               ar_is_fallback = fallback, ar_action = action, ar_timestamp = ae_now env\<rparr>
      in (record_event (Actuation_receipt r (truth_state_for_result r)) (c\<lparr>ct_last := Some r\<rparr>), r))"

section \<open>Dispatch\<close>

fun send_outcome :: "ship_send_error \<Rightarrow> actuation_status \<times> string" where
  "send_outcome (Timeout_error m) = (A_TIMEOUT, if m = [] then ''ACTUATOR_TIMEOUT'' else m)"
| "send_outcome (Connection_error m) = (A_UNAVAILABLE, if m = [] then ''ACTUATOR_UNAVAILABLE'' else m)"
| "send_outcome (Value_error m) = (A_REJECTED, m)"
| "send_outcome (Other_error m) = (A_FAILED, m)"

definition dispatch_command ::
  "actuator_env \<Rightarrow> ship_command \<Rightarrow> string \<Rightarrow> controller \<Rightarrow> controller \<times> actuation_result" where
  "dispatch_command env cmd action c0 =
     (let cid = ae_fresh env (ct_ids c0); c = c0\<lparr>ct_ids := ct_ids c0 + 1\<rparr>
      in if ae_proto_missing env \<or> is_minimal (sh_config (ct_ship c))
         then if ae_allow_fallback env
              then build_actuation_result env A_ACCEPTED ''SIMULATED_ACTUATION'' cid action True c
              else build_actuation_result env A_UNAVAILABLE ''ACTUATOR_CHANNEL_UNAVAILABLE'' cid action False c
         else case ae_send env (cmd\<lparr>cmd_id := cid\<rparr>) (ct_ship c) of
                Inl e \<Rightarrow> build_actuation_result env (fst (send_outcome e)) (snd (send_outcome e)) cid action False c
              | Inr s \<Rightarrow> build_actuation_result env A_ACCEPTED ''COMMAND_ACCEPTED_NO_EXECUTION_ACK'' cid action False
                           (c\<lparr>ct_ship := s\<rparr>))"

text \<open>Assigning to an \<open>int32\<close> field, and building a command at all.\<close>

definition int32_ok :: "int \<Rightarrow> bool" where
  "int32_ok n \<longleftrightarrow> - (2 ^ 31) \<le> n \<and> n < 2 ^ 31"

text \<open>\<open>int(duration_sec * 1000)\<close> truncates towards zero.\<close>

definition trunc :: "real \<Rightarrow> int" where
  "trunc x = (if x < 0 then \<lceil>x\<rceil> else \<lfloor>x\<rfloor>)"

definition thrust_command :: "string \<Rightarrow> real \<Rightarrow> int \<Rightarrow> ship_command" where
  "thrust_command actuator pct timeout =
     \<lparr>cmd_id = [], cmd_actuator = actuator, cmd_type = SC_SET_VELOCITY, cmd_value = Inl pct,
      cmd_timeout_ms = timeout, cmd_ack_required = True\<rparr>"

definition clamp_percent :: "real \<Rightarrow> real" where
  "clamp_percent x = max 0 (min 100 x)"

section \<open>Propulsion\<close>

definition on_success :: "actuation_result \<Rightarrow> propulsion_mode \<Rightarrow> controller \<Rightarrow> controller" where
  "on_success r m c = (if success_status (ar_status r) then c\<lparr>ct_mode := m\<rparr> else c)"

definition thrust_mode :: "real \<Rightarrow> propulsion_mode" where
  "thrust_mode pct = (if pct > 0 then PM_CRUISE else PM_IDLE)"

definition set_main_drive_thrust_result ::
  "actuator_env \<Rightarrow> real \<Rightarrow> real option \<Rightarrow> controller \<Rightarrow> controller \<times> actuation_result option" where
  "set_main_drive_thrust_result env thrust_percent duration c =
     (let pct = clamp_percent thrust_percent;
          timeout = (case duration of None \<Rightarrow> 0 | Some d \<Rightarrow> if d = 0 then 0 else trunc (d * 1000))
      in if ae_proto_missing env \<or> \<not> int32_ok timeout then (c, None)
         else let (c', r) = dispatch_command env (thrust_command ''ion_drive_array'' pct timeout)
                              ''set_main_drive_thrust'' c
              in (on_success r (thrust_mode pct) c', Some r))"

definition RCS_FORWARD_ID :: string where "RCS_FORWARD_ID = ''e6b718f2-769c-527c-a931-d2d7bb2cad82''"
definition RCS_AFT_ID :: string where "RCS_AFT_ID = ''aad7ce7d-9ee6-5949-9c45-c3baf309ca44''"
definition RCS_PORT_ID :: string where "RCS_PORT_ID = ''e03efa3e-5735-5a82-8f5c-9a9d9dfff351''"
definition RCS_STARBOARD_ID :: string where "RCS_STARBOARD_ID = ''3ceca74a-2a9e-5aec-a308-4c24c9102324''"

fun thruster_map :: "thruster_axis \<Rightarrow> string option" where
  "thruster_map TA_FORWARD = Some RCS_FORWARD_ID"
| "thruster_map TA_BACKWARD = Some RCS_AFT_ID"
| "thruster_map TA_PORT = Some RCS_PORT_ID"
| "thruster_map TA_STARBOARD = Some RCS_STARBOARD_ID"
| "thruster_map a = None"

definition fire_rcs_thruster_result ::
  "actuator_env \<Rightarrow> thruster_axis \<Rightarrow> real \<Rightarrow> real \<Rightarrow> controller \<Rightarrow> controller \<times> actuation_result option" where
  "fire_rcs_thruster_result env axis thrust_percent duration c =
     (case thruster_map axis of
        None \<Rightarrow> (let (c', r) = build_actuation_result env A_REJECTED
                                ((''unsupported thruster axis: '') @ thruster_axis_str axis) []
                                (''fire_rcs_thruster:'' @ thruster_axis_str axis) False c
                 in (c', Some r))
      | Some tid \<Rightarrow>
          (let timeout = trunc (duration * 1000)
           in if ae_proto_missing env \<or> \<not> int32_ok timeout then (c, None)
              else let (c', r) = dispatch_command env (thrust_command tid (clamp_percent thrust_percent) timeout)
                                   (''fire_rcs_thruster:'' @ thruster_axis_value axis) c
                   in (on_success r PM_MANEUVERING c', Some r)))"

definition succeeded :: "actuation_result option \<Rightarrow> bool" where
  "succeeded r \<longleftrightarrow> opt_test r (\<lambda>x. success_status (ar_status x))"

text \<open>
  A run of thruster commands, counting the successes; \<open>None\<close> stands for a command that raised,
  which ends the run.
\<close>

fun fire_all ::
  "actuator_env \<Rightarrow> real \<Rightarrow> (thruster_axis \<times> real) list \<Rightarrow> controller \<Rightarrow> nat \<Rightarrow> controller \<times> nat option" where
  "fire_all env duration [] c n = (c, Some n)"
| "fire_all env duration ((axis, pct) # rest) c n =
     (case fire_rcs_thruster_result env axis pct duration c of
        (c', None) \<Rightarrow> (c', None)
      | (c', Some r) \<Rightarrow> fire_all env duration rest c' (if success_status (ar_status r) then n + 1 else n))"

definition maneuver_plan :: "thrust_vector \<Rightarrow> (thruster_axis \<times> real) list" where
  "maneuver_plan v =
     (if \<bar>tv_x v\<bar> > 1 / 10
      then [(if tv_x v > 0 then TA_FORWARD else TA_BACKWARD, min 100 \<bar>tv_x v\<bar>)] else []) @
     (if \<bar>tv_y v\<bar> > 1 / 10
      then [(if tv_y v > 0 then TA_PORT else TA_STARBOARD, min 100 \<bar>tv_y v\<bar>)] else [])"

definition execute_maneuver :: "actuator_env \<Rightarrow> thrust_vector \<Rightarrow> real \<Rightarrow> controller \<Rightarrow> controller \<times> bool" where
  "execute_maneuver env v duration c =
     (let plan = maneuver_plan v
      in case fire_all env duration plan c 0 of
           (c', None) \<Rightarrow> (c', False)
         | (c', Some n) \<Rightarrow> (c', if length plan > 0 then n = length plan else True))"

definition stop_plan :: "(thruster_axis \<times> real) list" where
  "stop_plan = map (\<lambda>a. (a, 0)) [TA_FORWARD, TA_BACKWARD, TA_PORT, TA_STARBOARD]"

definition emergency_stop :: "actuator_env \<Rightarrow> controller \<Rightarrow> controller \<times> bool" where
  "emergency_stop env c =
     (case set_main_drive_thrust_result env 0 None c of
        (c1, None) \<Rightarrow> (c1, False)
      | (c1, Some r) \<Rightarrow>
          (case fire_all env (1 / 10) stop_plan c1 (if success_status (ar_status r) then 1 else 0) of
             (c2, None) \<Rightarrow> (c2, False)
           | (c2, Some n) \<Rightarrow> (c2\<lparr>ct_mode := PM_EMERGENCY\<rparr>, n > 0)))"

section \<open>Power and sensors\<close>

text \<open>
  The commands built by \<open>set_power_allocation\<close> are dropped, so only the answer is left; without
  protobuf the first one raises, which is caught.
\<close>

definition allocation_total :: "power_allocation \<Rightarrow> real" where
  "allocation_total a = pa_life_support a + pa_propulsion a + pa_sensors a + pa_qiki_core a + pa_shields a"

definition set_power_allocation :: "actuator_env \<Rightarrow> power_allocation \<Rightarrow> controller \<Rightarrow> bool" where
  "set_power_allocation env a c =
     (if allocation_total a > po_max_output (get_power_status (sh_config (ct_ship c))) then False
      else \<not> ae_proto_missing env)"

definition sensor_command :: "string \<Rightarrow> bool \<Rightarrow> ship_command" where
  "sensor_command sid on =
     \<lparr>cmd_id = [], cmd_actuator = sid, cmd_type = (if on then SC_ENABLE else SC_DISABLE), cmd_value = Inr on,
      cmd_timeout_ms = 0, cmd_ack_required = True\<rparr>"

definition activate_sensor_result ::
  "actuator_env \<Rightarrow> string \<Rightarrow> controller \<Rightarrow> controller \<times> actuation_result option" where
  "activate_sensor_result env sid c =
     (if ae_proto_missing env then (c, None)
      else let (c', r) = dispatch_command env (sensor_command sid True) (''activate_sensor:'' @ sid) c in (c', Some r))"

definition deactivate_sensor_result ::
  "actuator_env \<Rightarrow> string \<Rightarrow> controller \<Rightarrow> controller \<times> actuation_result option" where
  "deactivate_sensor_result env sid c =
     (if ae_proto_missing env then (c, None)
      else let (c', r) = dispatch_command env (sensor_command sid False) (''deactivate_sensor:'' @ sid) c in (c', Some r))"

section \<open>Status\<close>

record propulsion_summary =
  pv_mode :: string
  pv_main_drive :: string
  pv_main_fuel_kg :: real
  pv_ready_thrusters :: nat
  pv_rcs_fuel_kg :: real

definition propulsion_view :: "controller \<Rightarrow> propulsion_summary" where
  "propulsion_view c =
     (let p = get_propulsion_status (sh_config (ct_ship c))
      in \<lparr>pv_mode = propulsion_mode_value (ct_mode c), pv_main_drive = pp_status p, pv_main_fuel_kg = pp_fuel_kg p,
          pv_ready_thrusters = length (filter (\<lambda>t. rs_status t = ''ready'') (dict_values (pp_rcs p))),
          pv_rcs_fuel_kg = sum_list (map rs_fuel_kg (dict_values (pp_rcs p)))\<rparr>)"

record control_summary =
  cs_status :: string
  cs_propulsion :: propulsion_summary
  cs_power_mw :: real
  cs_sensors_active :: nat
  cs_controllable :: "string list"

definition get_control_summary :: "controller \<Rightarrow> control_summary" where
  "get_control_summary c =
     (let cfg = sh_config (ct_ship c)
      in \<lparr>cs_status = (if hu_integrity (get_hull_status cfg) > 80 then ''OPERATIONAL'' else ''DEGRADED''),
          cs_propulsion = propulsion_view c, cs_power_mw = po_output (get_power_status cfg),
          cs_sensors_active = length (ss_active (get_sensor_status cfg)),
          cs_controllable = [''main_drive'', ''rcs_thrusters'', ''power_distribution'', ''sensor_array'', ''life_support'']\<rparr>)"

section \<open>Lemmas\<close>

text \<open>One command of the pilot, and its outcome: a result, or an exception that changed nothing.\<close>

datatype pilot_command =
    Main_drive real "real option"
  | Fire_rcs thruster_axis real real
  | Activate string
  | Deactivate string

fun perform :: "actuator_env \<Rightarrow> pilot_command \<Rightarrow> controller \<Rightarrow> controller \<times> actuation_result option" where
  "perform env (Main_drive p d) c = set_main_drive_thrust_result env p d c"
| "perform env (Fire_rcs a p d) c = fire_rcs_thruster_result env a p d c"
| "perform env (Activate s) c = activate_sensor_result env s c"
| "perform env (Deactivate s) c = deactivate_sensor_result env s c"

definition recorded :: "controller \<Rightarrow> actuation_result \<Rightarrow> controller \<Rightarrow> bool" where
  "recorded c r c' \<longleftrightarrow>
     ct_last c' = Some r \<and> ct_journal c' = ct_journal c @ [Actuation_receipt r (truth_state_for_result r)] \<and>
     ar_status r \<noteq> A_EXECUTED"

lemma build_result_recorded:
  "build_actuation_result env st reason cid action fb c = (c', r) \<Longrightarrow> st \<noteq> A_EXECUTED \<Longrightarrow>
   recorded c r c' \<and> ct_ship c' = ct_ship c \<and> ct_mode c' = ct_mode c \<and> ar_status r = st \<and> ar_is_fallback r = fb"
  by (auto simp: build_actuation_result_def recorded_def record_event_def Let_def)

lemma recorded_fields [simp]:
  "recorded (c\<lparr>ct_ids := n\<rparr>) r c' = recorded c r c'" "recorded (c\<lparr>ct_ship := s\<rparr>) r c' = recorded c r c'"
  "recorded c r (c'\<lparr>ct_mode := m\<rparr>) = recorded c r c'"
  "recorded c r (on_success q m c') = recorded c r c'"
  by (simp_all add: recorded_def on_success_def)

lemma on_success_fields [simp]:
  "ct_ship (on_success r m c) = ct_ship c" "ct_journal (on_success r m c) = ct_journal c"
  "ct_last (on_success r m c) = ct_last c" "ct_ids (on_success r m c) = ct_ids c"
  by (simp_all add: on_success_def)

lemma send_outcome_not_executed: "fst (send_outcome e) \<notin> {A_ACCEPTED, A_EXECUTED}"
  by (cases e) simp_all

lemma dispatch_recorded:
  assumes d: "dispatch_command env cmd action c = (c', r)"
  shows "recorded c r c' \<and> ct_mode c' = ct_mode c \<and>
         (ct_ship c' = ct_ship c \<or>
          (\<exists>i. ae_send env (cmd\<lparr>cmd_id := i\<rparr>) (ct_ship c) = Inr (ct_ship c') \<and> ar_status r = A_ACCEPTED))"
proof (cases "ae_proto_missing env \<or> is_minimal (sh_config (ct_ship c))")
  case True
  with d show ?thesis
    by (auto simp: dispatch_command_def Let_def split: if_splits dest!: build_result_recorded)
next
  case False
  show ?thesis
  proof (cases "ae_send env (cmd\<lparr>cmd_id := ae_fresh env (ct_ids c)\<rparr>) (ct_ship c)")
    case (Inl e)
    with d False send_outcome_not_executed [of e] show ?thesis
      by (auto simp: dispatch_command_def Let_def dest!: build_result_recorded)
  next
    case (Inr s)
    with d False show ?thesis
      by (auto simp: dispatch_command_def Let_def dest!: build_result_recorded)
  qed
qed

lemma dispatch_accepts_or_rejects:
  "dispatch_command env cmd action c = (c', r) \<Longrightarrow> ar_action r = action"
  by (auto simp: dispatch_command_def build_actuation_result_def Let_def split: if_splits sum.splits)

text \<open>What any single command does to the controller.\<close>

lemma main_drive_cases:
  assumes "set_main_drive_thrust_result env p d c = (c', ro)"
  shows "(ro = None \<and> c' = c) \<or>
         (\<exists>t c1 r. ro = Some r \<and> int32_ok t \<and> \<not> ae_proto_missing env \<and>
            dispatch_command env (thrust_command ''ion_drive_array'' (clamp_percent p) t) ''set_main_drive_thrust'' c = (c1, r) \<and>
            c' = on_success r (thrust_mode (clamp_percent p)) c1)"
  using assms unfolding set_main_drive_thrust_result_def Let_def
  by (auto split: if_split_asm prod.splits)

lemma fire_rcs_cases:
  assumes "fire_rcs_thruster_result env a p d c = (c', ro)"
  shows "(ro = None \<and> c' = c) \<or>
         (\<exists>r. ro = Some r \<and> thruster_map a = None \<and> recorded c r c' \<and> ct_ship c' = ct_ship c \<and>
              ct_mode c' = ct_mode c \<and> ar_status r = A_REJECTED) \<or>
         (\<exists>tid t c1 r. thruster_map a = Some tid \<and> ro = Some r \<and> int32_ok t \<and> \<not> ae_proto_missing env \<and>
            dispatch_command env (thrust_command tid (clamp_percent p) t)
              (''fire_rcs_thruster:'' @ thruster_axis_value a) c = (c1, r) \<and>
            c' = on_success r PM_MANEUVERING c1)"
proof (cases "thruster_map a")
  case None
  with assms show ?thesis
    by (auto simp: fire_rcs_thruster_result_def Let_def dest!: build_result_recorded split: prod.splits)
next
  case (Some tid)
  with assms show ?thesis
    by (auto simp: fire_rcs_thruster_result_def Let_def split: if_split_asm prod.splits)
qed

lemma perform_recorded:
  assumes "perform env cmd c = (c', ro)"
  shows "case ro of None \<Rightarrow> c' = c | Some r \<Rightarrow> recorded c r c'"
proof (cases cmd)
  case (Main_drive p d)
  with assms main_drive_cases [of env p d c c' ro] show ?thesis by (auto dest: dispatch_recorded)
next
  case (Fire_rcs a p d)
  with assms fire_rcs_cases [of env a p d c c' ro] show ?thesis by (auto dest: dispatch_recorded)
next
  case (Activate s)
  with assms show ?thesis
    by (auto simp: activate_sensor_result_def dest: dispatch_recorded split: if_splits prod.splits)
next
  case (Deactivate s)
  with assms show ?thesis
    by (auto simp: deactivate_sensor_result_def dest: dispatch_recorded split: if_splits prod.splits)
qed

subsection \<open>Runs of thruster commands\<close>

definition receipts :: "actuation_result list \<Rightarrow> ship_event list" where
  "receipts rs = map (\<lambda>r. Actuation_receipt r (truth_state_for_result r)) rs"

definition successes :: "actuation_result list \<Rightarrow> nat" where
  "successes rs = length (filter (\<lambda>r. success_status (ar_status r)) rs)"

definition rcs_action :: "thruster_axis \<times> real \<Rightarrow> string" where
  "rcs_action x = ''fire_rcs_thruster:'' @ thruster_axis_value (fst x)"

lemma successes_simps [simp]:
  "successes [] = 0" "successes (r # rs) = (if success_status (ar_status r) then Suc (successes rs) else successes rs)"
  by (simp_all add: successes_def)

lemma receipts_simps [simp]:
  "receipts [] = []" "receipts (r # rs) = Actuation_receipt r (truth_state_for_result r) # receipts rs"
  by (simp_all add: receipts_def)

lemma receipts_append: "receipts rs @ receipts qs = receipts (rs @ qs)"
  by (simp add: receipts_def)

lemma fire_mapped:
  assumes "\<not> ae_proto_missing env" "int32_ok (trunc (d * 1000))" "thruster_map a \<noteq> None"
  obtains c' r where "fire_rcs_thruster_result env a p d c = (c', Some r)" "recorded c r c'"
    "ar_action r = ''fire_rcs_thruster:'' @ thruster_axis_value a"
proof -
  obtain tid where t: "thruster_map a = Some tid" using assms(3) by blast
  let ?cmd = "thrust_command tid (clamp_percent p) (trunc (d * 1000))"
  let ?act = "''fire_rcs_thruster:'' @ thruster_axis_value a"
  obtain c1 r where dr: "dispatch_command env ?cmd ?act c = (c1, r)" by fastforce
  with assms t have "fire_rcs_thruster_result env a p d c = (on_success r PM_MANEUVERING c1, Some r)"
    by (simp add: fire_rcs_thruster_result_def)
  moreover have "recorded c r (on_success r PM_MANEUVERING c1)" using dispatch_recorded [OF dr] by simp
  ultimately show thesis using dispatch_accepts_or_rejects [OF dr] by (rule that)
qed

lemma fire_all_records:
  assumes "\<not> ae_proto_missing env" "int32_ok (trunc (d * 1000))" "list_all (\<lambda>x. thruster_map (fst x) \<noteq> None) plan"
  shows "\<exists>c' rs. fire_all env d plan c n = (c', Some (n + successes rs)) \<and> map ar_action rs = map rcs_action plan \<and>
           ct_journal c' = ct_journal c @ receipts rs \<and> (rs \<noteq> [] \<longrightarrow> ct_last c' = Some (last rs))"
  using assms(3)
proof (induction plan arbitrary: c n)
  case Nil
  show ?case by (rule exI [of _ c], rule exI [of _ "[]"]) simp
next
  case (Cons x plan)
  obtain a p where x: "x = (a, p)" by fastforce
  with Cons.prems have "thruster_map a \<noteq> None" by simp
  from fire_mapped [OF assms(1,2) this, of p c] obtain c1 r where
    f: "fire_rcs_thruster_result env a p d c = (c1, Some r)" "recorded c r c1"
    and "ar_action r = ''fire_rcs_thruster:'' @ thruster_axis_value a" .
  then have act: "ar_action r = rcs_action x" by (simp add: x rcs_action_def)
  have "list_all (\<lambda>x. thruster_map (fst x) \<noteq> None) plan" using Cons.prems by simp
  from Cons.IH [OF this] obtain c' rs where ih:
    "fire_all env d plan c1 (if success_status (ar_status r) then n + 1 else n) =
       (c', Some ((if success_status (ar_status r) then n + 1 else n) + successes rs))"
    "map ar_action rs = map rcs_action plan" "ct_journal c' = ct_journal c1 @ receipts rs"
    "rs \<noteq> [] \<longrightarrow> ct_last c' = Some (last rs)" by blast
  have "fire_all env d (x # plan) c n = (c', Some (n + successes (r # rs)))"
    using f(1) ih(1) by (simp add: x)
  moreover have "ct_journal c' = ct_journal c @ receipts (r # rs)" using f(2) ih(3) by (simp add: recorded_def)
  moreover have "ct_last c' = Some (last (r # rs))"
  proof (cases "rs = []")
    case True
    with ih(1) ih(2) have "c' = c1" by simp
    with True f(2) show ?thesis by (simp add: recorded_def)
  qed (use ih(4) in simp)
  ultimately show ?case using act ih(2) by (intro exI [of _ c'] exI [of _ "r # rs"]) simp
qed

lemma receipts_inj: "receipts rs = receipts qs \<Longrightarrow> rs = qs"
proof (induction rs arbitrary: qs)
  case (Cons r rs)
  then show ?case by (cases qs) auto
qed (auto simp: receipts_def)

lemma fire_all_journal: "fire_all env d plan c n = (c', Some k) \<Longrightarrow> \<exists>rs. ct_journal c' = ct_journal c @ receipts rs"
proof (induction plan arbitrary: c n)
  case Nil
  then show ?case by (auto intro: exI [of _ "[]"])
next
  case (Cons x plan)
  obtain a p where x: "x = (a, p)" by fastforce
  from Cons.prems obtain c1 r where f: "fire_rcs_thruster_result env a p d c = (c1, Some r)"
    and all: "fire_all env d plan c1 (if success_status (ar_status r) then n + 1 else n) = (c', Some k)"
    by (auto simp: x split: prod.splits option.splits)
  have "ct_journal c1 = ct_journal c @ receipts [r]"
    using perform_recorded [of env "Fire_rcs a p d" c c1 "Some r"] f by (simp add: recorded_def)
  with Cons.IH [OF all] show ?case by (metis append.assoc receipts_append)
qed

text \<open>
  A system at rest: the command the ship last accepted for it asks for no thrust. A zero command that the
  ship's own channel accepts puts its system at rest and disturbs no other.
\<close>

definition at_rest :: "ship \<Rightarrow> string \<Rightarrow> bool" where
  "at_rest s i \<longleftrightarrow> (case dict_get (sh_last_commands s) i of None \<Rightarrow> False | Some cmd \<Rightarrow> cmd_value cmd = Inl 0)"

definition sent :: "actuation_result \<Rightarrow> bool" where
  "sent r \<longleftrightarrow> success_status (ar_status r) \<and> \<not> ar_is_fallback r"

lemma sent_status [simp]: "ar_is_fallback r \<Longrightarrow> \<not> sent r" "\<not> success_status (ar_status r) \<Longrightarrow> \<not> sent r"
  by (simp_all add: sent_def)

lemma zero_dispatch:
  assumes d: "dispatch_command env (thrust_command i 0 t) a c = (c', r)" and env: "ae_send env = ship_send"
  shows "(sent r \<longrightarrow> at_rest (ct_ship c') i) \<and> (\<forall>j. at_rest (ct_ship c) j \<longrightarrow> at_rest (ct_ship c') j)"
proof (cases "ae_proto_missing env \<or> is_minimal (sh_config (ct_ship c))")
  case True
  with d show ?thesis
    by (auto simp: dispatch_command_def build_actuation_result_def record_event_def sent_def success_status_def Let_def
        split: if_split_asm)
next
  case False
  let ?cmd = "(thrust_command i 0 t)\<lparr>cmd_id := ae_fresh env (ct_ids c)\<rparr>"
  show ?thesis
  proof (cases "ship_send ?cmd (ct_ship c)")
    case (Inl e)
    have "fst (send_outcome e) \<notin> {A_ACCEPTED, A_EXECUTED}" by (rule send_outcome_not_executed)
    with d False Inl env show ?thesis
      by (auto simp: dispatch_command_def build_actuation_result_def record_event_def sent_def success_status_def Let_def)
  next
    case (Inr s)
    then have "ct_ship c' = s" using d False env
      by (auto simp: dispatch_command_def build_actuation_result_def record_event_def Let_def)
    moreover have "sh_last_commands s = dict_set (sh_last_commands (ct_ship c)) i ?cmd"
      using ship_send_stored [OF Inr] False by (simp add: thrust_command_def)
    ultimately show ?thesis by (simp add: at_rest_def thrust_command_def)
  qed
qed

lemma zero_main_drive:
  assumes "set_main_drive_thrust_result env 0 None c = (c', Some r)" "ae_send env = ship_send"
  shows "(sent r \<longrightarrow> at_rest (ct_ship c') ''ion_drive_array'') \<and> (\<forall>j. at_rest (ct_ship c) j \<longrightarrow> at_rest (ct_ship c') j)"
proof -
  obtain t c1 where "dispatch_command env (thrust_command ''ion_drive_array'' (clamp_percent 0) t) ''set_main_drive_thrust'' c = (c1, r)"
    "c' = on_success r (thrust_mode (clamp_percent 0)) c1"
    using main_drive_cases [OF assms(1)] by auto
  then show ?thesis using zero_dispatch [of env "''ion_drive_array''" t _ c c1 r] assms(2) by (simp add: clamp_percent_def)
qed

lemma zero_thruster:
  assumes "fire_rcs_thruster_result env a 0 d c = (c', Some r)" "thruster_map a = Some tid" "ae_send env = ship_send"
  shows "(sent r \<longrightarrow> at_rest (ct_ship c') tid) \<and> (\<forall>j. at_rest (ct_ship c) j \<longrightarrow> at_rest (ct_ship c') j)"
proof -
  obtain t c1 act where "dispatch_command env (thrust_command tid (clamp_percent 0) t) act c = (c1, r)"
    "c' = on_success r PM_MANEUVERING c1"
    using fire_rcs_cases [OF assms(1)] assms(2) by auto
  then show ?thesis using zero_dispatch [of env tid t act c c1 r] assms(3) by (simp add: clamp_percent_def)
qed

lemma fire_all_cons:
  "fire_all env d ((a, p) # plan) c n = (c', Some k) \<Longrightarrow>
   \<exists>c1 r. fire_rcs_thruster_result env a p d c = (c1, Some r) \<and> ct_journal c1 = ct_journal c @ receipts [r] \<and>
     fire_all env d plan c1 (if success_status (ar_status r) then n + 1 else n) = (c', Some k)"
  using perform_recorded [of env "Fire_rcs a p d" c]
  by (fastforce simp: recorded_def split: prod.splits option.splits)

lemma fire_all_rest:
  assumes env: "ae_send env = ship_send"
  shows "fire_all env d (map (\<lambda>a. (a, 0)) axes) c n = (c', Some k) \<Longrightarrow> ct_journal c' = ct_journal c @ receipts rs \<Longrightarrow>
   map thruster_map axes = map Some tids \<Longrightarrow>
   (\<forall>j. at_rest (ct_ship c) j \<longrightarrow> at_rest (ct_ship c') j) \<and>
   list_all (\<lambda>(r, i). sent r \<longrightarrow> at_rest (ct_ship c') i) (zip rs tids)"
proof (induction axes arbitrary: c n rs tids)
  case Nil
  then show ?case by simp
next
  case (Cons a axes)
  obtain tid tids' where tids: "tids = tid # tids'" "thruster_map a = Some tid" "map thruster_map axes = map Some tids'"
    using Cons.prems(3) by (cases tids) auto
  from fire_all_cons [of env d a 0 "map (\<lambda>a. (a, 0)) axes" c n c' k] Cons.prems(1) obtain c1 r where
    f: "fire_rcs_thruster_result env a 0 d c = (c1, Some r)" and j: "ct_journal c1 = ct_journal c @ receipts [r]"
    and all: "fire_all env d (map (\<lambda>a. (a, 0)) axes) c1 (if success_status (ar_status r) then n + 1 else n) = (c', Some k)"
    by auto
  obtain ext where ext: "ct_journal c' = ct_journal c1 @ receipts ext"
    using fire_all_journal [OF all] by blast
  then have "receipts (r # ext) = receipts rs" using Cons.prems(2) j by simp
  then have rs: "rs = r # ext" by (rule receipts_inj [symmetric])
  note ih = Cons.IH [OF all ext tids(3)]
  note head = zero_thruster [OF f tids(2) env]
  show ?case using ih head by (auto simp: rs tids(1))
qed

definition stop_actions :: "string list" where
  "stop_actions = ''set_main_drive_thrust'' # map rcs_action stop_plan"

lemma emergency_stop_missing: "ae_proto_missing env \<Longrightarrow> emergency_stop env c = (c, False)"
  by (simp add: emergency_stop_def set_main_drive_thrust_result_def Let_def)

lemma emergency_stop_records:
  assumes env: "\<not> ae_proto_missing env"
  shows "\<exists>c' rs. emergency_stop env c = (c', 0 < successes rs) \<and> map ar_action rs = stop_actions \<and>
           ct_journal c' = ct_journal c @ receipts rs \<and> ct_last c' = Some (last rs) \<and> ct_mode c' = PM_EMERGENCY"
proof -
  let ?act = "''set_main_drive_thrust''"
  obtain c0 r where dr: "dispatch_command env (thrust_command ''ion_drive_array'' (clamp_percent 0) 0) ?act c = (c0, r)"
    by fastforce
  define c1 where "c1 = on_success r (thrust_mode (clamp_percent 0)) c0"
  have md: "set_main_drive_thrust_result env 0 None c = (c1, Some r)"
    using env dr by (simp add: set_main_drive_thrust_result_def c1_def int32_ok_def)
  have rec: "recorded c r c1" using dispatch_recorded [OF dr] by (simp add: c1_def)
  let ?n = "if success_status (ar_status r) then 1 else 0 :: nat"
  have "int32_ok (trunc (1 / 10 * 1000))" by (simp add: trunc_def int32_ok_def)
  note int32 = this
  have "list_all (\<lambda>x. thruster_map (fst x) \<noteq> None) stop_plan" by (simp add: stop_plan_def)
  from fire_all_records [OF env int32 this, of c1 ?n]
  obtain c2 rs where f: "fire_all env (1 / 10) stop_plan c1 ?n = (c2, Some (?n + successes rs))"
    "map ar_action rs = map rcs_action stop_plan" "ct_journal c2 = ct_journal c1 @ receipts rs"
    "rs \<noteq> [] \<longrightarrow> ct_last c2 = Some (last rs)" by blast
  have "rs \<noteq> []" using f(2) by (auto simp: stop_plan_def)
  then have last: "ct_last c2 = Some (last (r # rs))" using f(4) by simp
  have "emergency_stop env c = (c2\<lparr>ct_mode := PM_EMERGENCY\<rparr>, 0 < successes (r # rs))"
    unfolding emergency_stop_def md using f(1) by simp
  then show ?thesis
    using rec f last dispatch_accepts_or_rejects [OF dr]
    by (intro exI [of _ "c2\<lparr>ct_mode := PM_EMERGENCY\<rparr>"] exI [of _ "r # rs"]) (simp add: stop_actions_def recorded_def)
qed

text \<open>The systems in the order in which the stop addresses them.\<close>

definition stop_ids :: "string list" where
  "stop_ids = [''ion_drive_array'', RCS_FORWARD_ID, RCS_AFT_ID, RCS_PORT_ID, RCS_STARBOARD_ID]"

lemma emergency_stop_rest:
  assumes env: "\<not> ae_proto_missing env" "ae_send env = ship_send"
    and j: "ct_journal (fst (emergency_stop env c)) = ct_journal c @ receipts rs"
  shows "list_all (\<lambda>(r, i). sent r \<longrightarrow> at_rest (ct_ship (fst (emergency_stop env c))) i) (zip rs stop_ids)"
proof -
  have "int32_ok (trunc (1 / 10 * 1000))" by (simp add: trunc_def int32_ok_def)
  note int32 = this
  obtain c1 r where md: "set_main_drive_thrust_result env 0 None c = (c1, Some r)"
    using env(1) that
    by (cases "dispatch_command env (thrust_command ''ion_drive_array'' (clamp_percent 0) 0) ''set_main_drive_thrust'' c")
      (simp add: set_main_drive_thrust_result_def int32_ok_def)
  have j1: "ct_journal c1 = ct_journal c @ receipts [r]"
    using perform_recorded [of env "Main_drive 0 None" c c1 "Some r"] md by (simp add: recorded_def)
  let ?n = "if success_status (ar_status r) then 1 else 0 :: nat"
  have "list_all (\<lambda>x. thruster_map (fst x) \<noteq> None) stop_plan" by (simp add: stop_plan_def)
  from fire_all_records [OF env(1) int32 this, of c1 ?n]
  obtain c2 qs where f: "fire_all env (1 / 10) stop_plan c1 ?n = (c2, Some (?n + successes qs))"
    "ct_journal c2 = ct_journal c1 @ receipts qs" by blast
  have e: "fst (emergency_stop env c) = c2\<lparr>ct_mode := PM_EMERGENCY\<rparr>"
    unfolding emergency_stop_def md using f(1) by simp
  then have "receipts (r # qs) = receipts rs" using j f(2) j1 by simp
  then have rs: "rs = r # qs" by (rule receipts_inj [symmetric])
  have "(\<forall>j. at_rest (ct_ship c1) j \<longrightarrow> at_rest (ct_ship c2) j) \<and>
      list_all (\<lambda>(r, i). sent r \<longrightarrow> at_rest (ct_ship c2) i) (zip qs [RCS_FORWARD_ID, RCS_AFT_ID, RCS_PORT_ID, RCS_STARBOARD_ID])"
    by (rule fire_all_rest [OF env(2) f(1) [unfolded stop_plan_def] f(2)]) simp
  then show ?thesis using zero_main_drive [OF md env(2)] by (auto simp: rs e stop_ids_def)
qed

subsection \<open>The ship's last commands\<close>

text \<open>
  What a stored command satisfies: it is filed under its actuator, which the configuration knows,
  its thrust is a percentage and its timeout fits its field.
\<close>

fun value_ok :: "real + bool \<Rightarrow> bool" where
  "value_ok (Inl x) = (0 \<le> x \<and> x \<le> 100)"
| "value_ok (Inr b) = True"

definition command_ok :: "ship_config \<Rightarrow> string \<times> ship_command \<Rightarrow> bool" where
  "command_ok cfg e \<longleftrightarrow>
     fst e = cmd_actuator (snd e) \<and> Some (fst e) \<in> set (ship_systems cfg) \<and> value_ok (cmd_value (snd e)) \<and>
     int32_ok (cmd_timeout_ms (snd e))"

definition commands_ok :: "ship \<Rightarrow> bool" where
  "commands_ok s \<longleftrightarrow> wf_dict (sh_last_commands s) \<and> list_all (command_ok (sh_config s)) (sh_last_commands s)"

definition real_env :: "bool \<Rightarrow> bool \<Rightarrow> (nat \<Rightarrow> string) \<Rightarrow> real \<Rightarrow> actuator_env" where
  "real_env allow missing fresh now =
     \<lparr>ae_allow_fallback = allow, ae_proto_missing = missing, ae_fresh = fresh, ae_now = now, ae_send = ship_send\<rparr>"

lemma real_env_simps [simp]:
  "ae_send (real_env a m f t) = ship_send" "ae_proto_missing (real_env a m f t) = m"
  "ae_allow_fallback (real_env a m f t) = a" "ae_now (real_env a m f t) = t" "ae_fresh (real_env a m f t) = f"
  by (simp_all add: real_env_def)

lemma clamp_percent_ok [simp]: "value_ok (Inl (clamp_percent x))"
  by (simp add: clamp_percent_def)

lemma thrust_command_ok [simp]:
  "value_ok (cmd_value (thrust_command i (clamp_percent x) t))" "cmd_timeout_ms (thrust_command i p t) = t"
  by (simp_all add: thrust_command_def clamp_percent_def)

lemma sensor_command_ok [simp]:
  "value_ok (cmd_value (sensor_command i b))" "int32_ok (cmd_timeout_ms (sensor_command i b))"
  by (simp_all add: sensor_command_def int32_ok_def)

lemma list_all_dict_set: "list_all P m \<Longrightarrow> P (k, v) \<Longrightarrow> list_all P (dict_set m k v)"
  by (induction m) auto

lemma ship_send_commands_ok:
  assumes "ship_send cmd s = Inr s'" "commands_ok s" "value_ok (cmd_value cmd)" "int32_ok (cmd_timeout_ms cmd)"
  shows "commands_ok s'"
proof (cases "is_minimal (sh_config s)")
  case True
  with assms show ?thesis by (simp add: ship_send_def)
next
  case False
  from ship_send_stored [OF assms(1) False] ship_send_config [OF assms(1)] assms show ?thesis
    by (auto simp: commands_ok_def command_ok_def intro!: list_all_dict_set)
qed

lemma dispatch_commands_ok:
  assumes d: "dispatch_command env cmd action c = (c', r)" and env: "ae_send env = ship_send"
    and ok: "commands_ok (ct_ship c)" "value_ok (cmd_value cmd)" "int32_ok (cmd_timeout_ms cmd)"
  shows "commands_ok (ct_ship c')"
proof -
  consider "ct_ship c' = ct_ship c" | i where "ship_send (cmd\<lparr>cmd_id := i\<rparr>) (ct_ship c) = Inr (ct_ship c')"
    using dispatch_recorded [OF d] env by auto
  then show ?thesis
  proof cases
    case 2
    show ?thesis by (rule ship_send_commands_ok [OF 2]) (simp_all add: ok)
  qed (use ok in simp)
qed

lemma perform_commands_ok:
  assumes env: "ae_send env = ship_send" and ok: "commands_ok (ct_ship c)"
  shows "commands_ok (ct_ship (fst (perform env cmd c)))"
proof -
  obtain c' ro where p: "perform env cmd c = (c', ro)" by fastforce
  have "commands_ok (ct_ship c')"
  proof (cases cmd)
    case (Main_drive q d)
    with p main_drive_cases [of env q d c c' ro] ok env show ?thesis
      by (auto elim!: dispatch_commands_ok)
  next
    case (Fire_rcs a q d)
    with p fire_rcs_cases [of env a q d c c' ro] ok env show ?thesis
      by (auto elim!: dispatch_commands_ok)
  next
    case (Activate s)
    with p ok env show ?thesis
      by (auto simp: activate_sensor_result_def elim!: dispatch_commands_ok
          split: if_splits prod.splits)
  next
    case (Deactivate s)
    with p ok env show ?thesis
      by (auto simp: deactivate_sensor_result_def elim!: dispatch_commands_ok
          split: if_splits prod.splits)
  qed
  with p show ?thesis by simp
qed

section \<open>Properties\<close>

text \<open>
  No command gets lost: whatever the pilot commands, either the method raises and nothing has
  changed, or its result is remembered as the last actuation and written to the journal as a receipt
  with its truth state. A result is never EXECUTED (the controller only ever knows acceptance), and
  the propulsion mode changes on success only.
\<close>

theorem command_leaves_fact:
  "case perform env cmd c of
     (c', None) \<Rightarrow> c' = c
   | (c', Some r) \<Rightarrow>
       ct_last c' = Some r \<and> ct_journal c' = ct_journal c @ [Actuation_receipt r (truth_state_for_result r)] \<and>
       ar_status r \<noteq> A_EXECUTED \<and> (ct_mode c' = ct_mode c \<or> ar_status r = A_ACCEPTED)"
proof -
  obtain c' ro where p: "perform env cmd c = (c', ro)" by fastforce
  show ?thesis
  proof (cases ro)
    case None
    with p perform_recorded [OF p] show ?thesis by simp
  next
    case (Some r)
    have rec: "recorded c r c'" using perform_recorded [OF p] Some by simp
    have "ct_mode c' = ct_mode c \<or> success_status (ar_status r)"
    proof (cases cmd)
      case (Main_drive q d)
      with p Some main_drive_cases [of env q d c c' ro] show ?thesis
        by (auto simp: on_success_def dest: dispatch_recorded)
    next
      case (Fire_rcs a q d)
      with p Some fire_rcs_cases [of env a q d c c' ro] show ?thesis
        by (auto simp: on_success_def dest: dispatch_recorded)
    qed (use p Some in \<open>auto simp: activate_sensor_result_def deactivate_sensor_result_def dest: dispatch_recorded
          split: if_splits prod.splits\<close>)
    with rec show ?thesis by (auto simp: p Some recorded_def success_status_def)
  qed
qed

text \<open>
  After any sequence of pilot commands on a fresh ship, every command the ship holds is filed
  under a system of its configuration, asks for a thrust between 0 and 100 percent and has a timeout
  that fits its \<open>int32\<close> field, however large the requested values were.
\<close>

theorem stored_commands_valid:
  "commands_ok (ct_ship (foldl (\<lambda>c cmd. fst (perform (real_env allow missing fresh now) cmd c))
                            (init_controller (new_ship cfg)) cmds))"
proof (rule foldl_inv)
  show "commands_ok (ct_ship (init_controller (new_ship cfg)))"
    by (simp add: init_controller_def new_ship_def commands_ok_def)
qed (simp add: perform_commands_ok)

text \<open>
  An emergency stop sends exactly five commands, the main drive's and then one for each of the
  four thruster groups, whatever the earlier ones answer; each leaves its receipt, the last one is
  remembered, the mode is EMERGENCY, and the stop reports success when at least one command was
  accepted. Without the protobuf classes it does nothing and reports failure.
\<close>

theorem emergency_stop_effect:
  "if ae_proto_missing env then emergency_stop env c = (c, False)
   else \<exists>c' rs. emergency_stop env c = (c', 0 < successes rs) \<and>
          map ar_action rs = [''set_main_drive_thrust'', ''fire_rcs_thruster:forward'', ''fire_rcs_thruster:backward'',
                              ''fire_rcs_thruster:port'', ''fire_rcs_thruster:starboard''] \<and>
          ct_journal c' = ct_journal c @ receipts rs \<and> ct_last c' = Some (last rs) \<and> ct_mode c' = PM_EMERGENCY"
proof -
  have stop: "stop_actions = [''set_main_drive_thrust'', ''fire_rcs_thruster:forward'', ''fire_rcs_thruster:backward'',
                              ''fire_rcs_thruster:port'', ''fire_rcs_thruster:starboard'']"
    by (simp add: stop_actions_def stop_plan_def rcs_action_def)
  show ?thesis
    using emergency_stop_missing [of env c] emergency_stop_records [of env c]
    unfolding stop by (cases "ae_proto_missing env") (simp_all only: if_True if_False not_False_eq_True)
qed

text \<open>
  The thruster commands address the groups by fixed UUIDs, so a ship whose configuration lists
  none of them rejects every thruster command that gets as far as being sent: nothing is stored and
  the mode does not change.
\<close>

definition rcs_ids :: "string list" where
  "rcs_ids = [RCS_FORWARD_ID, RCS_AFT_ID, RCS_PORT_ID, RCS_STARBOARD_ID]"

theorem unlisted_thrusters_reject:
  assumes ids: "list_all (\<lambda>i. Some i \<notin> set (ship_systems (sh_config (ct_ship c)))) rcs_ids"
    and full: "\<not> is_minimal (sh_config (ct_ship c))"
  shows "case fire_rcs_thruster_result (real_env allow missing fresh now) axis pct d c of
           (c', None) \<Rightarrow> c' = c
         | (c', Some r) \<Rightarrow> ar_status r = A_REJECTED \<and> ct_ship c' = ct_ship c \<and> ct_mode c' = ct_mode c"
proof -
  let ?env = "real_env allow missing fresh now"
  obtain c' ro where f: "fire_rcs_thruster_result ?env axis pct d c = (c', ro)" by fastforce
  from fire_rcs_cases [OF f] show ?thesis
  proof (elim disjE exE conjE)
    fix tid t c1 r
    assume tid: "thruster_map axis = Some tid" and ro: "ro = Some r" and env: "\<not> ae_proto_missing ?env"
      and dr: "dispatch_command ?env (thrust_command tid (clamp_percent pct) t)
                 (''fire_rcs_thruster:'' @ thruster_axis_value axis) c = (c1, r)"
      and c': "c' = on_success r PM_MANEUVERING c1"
    have "tid \<in> set rcs_ids" using tid by (cases axis) (auto simp: rcs_ids_def)
    then have "Some tid \<notin> set (ship_systems (sh_config (ct_ship c)))" using ids by (auto simp: list_all_iff)
    with dr env full have "ar_status r = A_REJECTED \<and> ct_ship c1 = ct_ship c \<and> ct_mode c1 = ct_mode c"
      by (auto simp: dispatch_command_def Let_def thrust_command_def ship_send_def dest!: build_result_recorded)
    with c' ro show ?thesis by (simp add: f on_success_def success_status_def)
  qed (simp_all add: f)
qed

lemma shipped_has_no_rcs_ids:
  "list_all (\<lambda>i. Some i \<notin> set (ship_systems shipped_config)) rcs_ids \<and> \<not> is_minimal shipped_config"
  by (simp add: shipped_config_def shipped_propulsion_def shipped_sensors_def rcs_ids_def ship_systems_def sensor_list_def main_drive_def thruster_list_def
      opt_or_def cfg_get_def is_minimal_def RCS_FORWARD_ID_def RCS_AFT_ID_def RCS_PORT_ID_def RCS_STARBOARD_ID_def)

theorem unlisted_thrusters_reject_witness:
  "let c = init_controller (new_ship shipped_config)
   in case fire_rcs_thruster_result (real_env False False (\<lambda>n. show_int (int n)) 0) TA_PORT 50 2 c of
        (c', None) \<Rightarrow> c' = c
      | (c', Some r) \<Rightarrow> ar_status r = A_REJECTED \<and> ct_ship c' = ct_ship c \<and> ct_mode c' = ct_mode c"
proof -
  have "sh_config (ct_ship (init_controller (new_ship shipped_config))) = shipped_config"
    by (simp add: init_controller_def new_ship_def)
  with shipped_has_no_rcs_ids show ?thesis
    unfolding Let_def by (intro unlisted_thrusters_reject) simp_all
qed

end
