(* ===== verification/Ship_Bios.thy ===== *)
theory Ship_Bios
  imports Ship_Core
begin

text \<open>
  The ship's BIOS handler (\<open>src/qiki/services/q_core_agent/core/ship_bios_handler.py\<close>): six
  diagnoses over the ship's status, the report they make and the checks around it. The texts of the
  issues are left out. The ship's getters return for every configuration of the model, so the
  handlers of \<open>TimeoutError\<close> and its kin are never entered.
\<close>

section \<open>Reports\<close>

datatype device_state = DV_UNSPECIFIED | DV_OK | DV_WARNING | DV_ERROR | DV_NOT_FOUND

datatype device_code =
    DC_UNSPECIFIED | DC_COMPONENT_NOT_FOUND | DC_UNSTABLE_READINGS | DC_TIMEOUT_RESPONSE | DC_CRITICAL_BOOT_FAILURE

record issue =
  is_device :: string
  is_state :: device_state
  is_code :: device_code

record bios_report =
  br_timestamp :: "real option"
  br_firmware :: string
  br_post_results :: "issue list"
  br_all_systems_go :: bool
  br_health_score :: real
  br_uptime_sec :: int

definition mk_issue :: "string \<Rightarrow> device_state \<Rightarrow> device_code \<Rightarrow> issue" where
  "mk_issue d s c = \<lparr>is_device = d, is_state = s, is_code = c\<rparr>"

text \<open>\<open>if b: issues.append(i)\<close>\<close>

definition issue_if :: "bool \<Rightarrow> issue \<Rightarrow> issue list" where
  "issue_if b i = (if b then [i] else [])"

lemma issue_if_Nil [simp]: "issue_if b i = [] \<longleftrightarrow> \<not> b"
  by (simp add: issue_if_def)

section \<open>Diagnoses\<close>

definition compartment_issues :: "string \<times> compartment_config \<Rightarrow> issue list" where
  "compartment_issues e =
     (let name = fst e; pressure = opt_or 0 (cp_pressure (snd e)); temp = opt_or 0 (cp_temperature (snd e))
      in issue_if (pressure < 8 / 10 \<and> name \<noteq> ''cargo_bay'')
           (mk_issue (''compartment_'' @ name) DV_ERROR DC_CRITICAL_BOOT_FAILURE) @
         issue_if (temp < 250 \<or> temp > 350) (mk_issue (''thermal_'' @ name) DV_WARNING DC_UNSTABLE_READINGS))"

definition diagnose_hull :: "ship_config \<Rightarrow> issue list" where
  "diagnose_hull c =
     (let h = get_hull_status c
      in issue_if (hu_integrity h < 90)
           (mk_issue ''hull_structure'' (if hu_integrity h > 50 then DV_WARNING else DV_ERROR) DC_UNSTABLE_READINGS) @
         concat (map compartment_issues (hu_compartments h)))"

definition ratio_or_zero :: "real \<Rightarrow> real \<Rightarrow> real" where
  "ratio_or_zero x m = (if m > 0 then x / m else 0)"

definition diagnose_power_systems :: "ship_config \<Rightarrow> issue list" where
  "diagnose_power_systems c =
     (let p = get_power_status c;
          efficiency = ratio_or_zero (po_output p) (po_max_output p);
          charge = ratio_or_zero (po_battery_charge p) (po_battery_capacity p)
      in issue_if (efficiency < 1 / 2) (mk_issue ''fusion_reactor'' DV_WARNING DC_UNSTABLE_READINGS) @
         issue_if (po_fuel_hours p < 24)
           (mk_issue ''reactor_fuel'' (if po_fuel_hours p > 8 then DV_WARNING else DV_ERROR) DC_UNSTABLE_READINGS) @
         issue_if (po_temperature p > 3000) (mk_issue ''reactor_cooling'' DV_ERROR DC_CRITICAL_BOOT_FAILURE) @
         issue_if (charge < 2 / 10)
           (mk_issue ''battery_bank'' (if charge > 1 / 10 then DV_WARNING else DV_ERROR) DC_UNSTABLE_READINGS))"

definition thruster_issues :: "string \<times> rcs_status \<Rightarrow> issue list" where
  "thruster_issues e =
     issue_if (rs_status (snd e) \<notin> {''ready'', ''active''}) (mk_issue (fst e) DV_WARNING DC_COMPONENT_NOT_FOUND) @
     issue_if (rs_fuel_kg (snd e) < 5) (mk_issue (fst e @ ''_fuel'') DV_WARNING DC_UNSTABLE_READINGS)"

definition diagnose_propulsion :: "ship_config \<Rightarrow> issue list" where
  "diagnose_propulsion c =
     (let p = get_propulsion_status c
      in issue_if (pp_status p \<notin> {''ready'', ''idle'', ''active''}) (mk_issue ''main_drive'' DV_ERROR DC_COMPONENT_NOT_FOUND) @
         issue_if (pp_fuel_kg p < 50)
           (mk_issue ''main_drive_fuel'' (if pp_fuel_kg p > 20 then DV_WARNING else DV_ERROR) DC_UNSTABLE_READINGS) @
         concat (map thruster_issues (pp_rcs p)))"

definition critical_sensors :: "string list" where
  "critical_sensors = [''long_range_radar'', ''navigation_computer'']"

definition diagnose_sensors :: "ship_config \<Rightarrow> issue list" where
  "diagnose_sensors c =
     (let s = get_sensor_status c
      in concat (map (\<lambda>i. issue_if (i \<notin> set (ss_active s)) (mk_issue i DV_ERROR DC_COMPONENT_NOT_FOUND)) critical_sensors) @
         issue_if (ss_power_kw s > 2000) (mk_issue ''sensor_power'' DV_WARNING DC_UNSTABLE_READINGS))"

definition diagnose_life_support :: "ship_config \<Rightarrow> issue list" where
  "diagnose_life_support c =
     (let l = get_life_support_status c;
          oxygen = dict_getd (li_atmosphere l) ''oxygen_percent'' 0; co2 = dict_getd (li_atmosphere l) ''co2_ppm'' 0;
          pressure = dict_getd (li_atmosphere l) ''pressure_kpa'' 0;
          efficiency = dict_getd (li_water l) ''recycling_efficiency'' 0
      in issue_if (oxygen < 18 \<or> oxygen > 25)
           (mk_issue ''atmosphere_oxygen'' (if oxygen < 16 \<or> oxygen > 30 then DV_ERROR else DV_WARNING)
              DC_CRITICAL_BOOT_FAILURE) @
         issue_if (co2 > 1000)
           (mk_issue ''co2_scrubbers'' (if co2 > 5000 then DV_ERROR else DV_WARNING) DC_UNSTABLE_READINGS) @
         issue_if (pressure < 80 \<or> pressure > 120)
           (mk_issue ''atmospheric_pressure'' DV_ERROR DC_CRITICAL_BOOT_FAILURE) @
         issue_if (efficiency < 9 / 10) (mk_issue ''water_recycling'' DV_WARNING DC_UNSTABLE_READINGS))"

definition diagnose_computing :: "ship_config \<Rightarrow> issue list" where
  "diagnose_computing c =
     (let m = get_computing_status c
      in issue_if (co_core_status m \<noteq> ''active'') (mk_issue ''qiki_core'' DV_ERROR DC_CRITICAL_BOOT_FAILURE) @
         issue_if (co_temperature m > 300)
           (mk_issue ''qiki_cooling'' (if co_temperature m < 320 then DV_WARNING else DV_ERROR) DC_UNSTABLE_READINGS) @
         issue_if (dict_getd (co_backups m) ''life_support_backup'' ''unknown'' \<notin> {''active'', ''standby''})
           (mk_issue ''life_support_backup'' DV_WARNING DC_COMPONENT_NOT_FOUND))"

section \<open>The report\<close>

text \<open>Each diagnosis: its issues, the factor of the health score, whether it stops the go.\<close>

definition diagnoses :: "ship_config \<Rightarrow> (issue list \<times> real \<times> bool) list" where
  "diagnoses c =
     [(diagnose_hull c, 9 / 10, True), (diagnose_power_systems c, 8 / 10, True),
      (diagnose_propulsion c, 7 / 10, True), (diagnose_sensors c, 95 / 100, False),
      (diagnose_life_support c, 6 / 10, True), (diagnose_computing c, 85 / 100, False)]"

fun run_diagnoses :: "(issue list \<times> real \<times> bool) list \<Rightarrow> bool \<Rightarrow> real \<Rightarrow> issue list \<Rightarrow> bool \<times> real \<times> issue list" where
  "run_diagnoses [] go health acc = (go, health, acc)"
| "run_diagnoses ((issues, factor, stops) # ds) go health acc =
     (if issues \<noteq> [] then run_diagnoses ds (if stops then False else go) (health * factor) (acc @ issues)
      else run_diagnoses ds go health acc)"

definition build_bios_report :: "real \<Rightarrow> ship_config \<Rightarrow> bios_report \<Rightarrow> bios_report" where
  "build_bios_report now c b =
     (let (go, health, issues) = run_diagnoses (diagnoses c) True 1 []
      in b\<lparr>br_timestamp := Some now, br_post_results := issues, br_all_systems_go := go,
           br_health_score := max 0 health\<rparr>)"

fun invalid_status_at :: "nat \<Rightarrow> issue list \<Rightarrow> nat option" where
  "invalid_status_at n [] = None"
| "invalid_status_at n (i # is) = (if is_state i = DV_UNSPECIFIED then Some n else invalid_status_at (n + 1) is)"

text \<open>A message always has its fields; an unset timestamp reads as the epoch, so it is not \<open>None\<close>.\<close>

definition validate_bios_report :: "bios_report \<Rightarrow> string option" where
  "validate_bios_report b =
     map_option (\<lambda>n. ''device_status_invalid_status_at_'' @ show_int (int n)) (invalid_status_at 0 (br_post_results b))"

record bios_fetch =
  bf_ok :: bool
  bf_report :: "bios_report option"
  bf_reason :: string
  bf_is_fallback :: bool

definition ship_bios_status_result ::
  "bool \<Rightarrow> bool \<Rightarrow> real \<Rightarrow> ship_config \<Rightarrow> bios_report option \<Rightarrow> bios_fetch" where
  "ship_bios_status_result proto_missing allow_fallback now c b =
     (case b of
        None \<Rightarrow> \<lparr>bf_ok = False, bf_report = None, bf_reason = ''BIOS_UNAVAILABLE'', bf_is_fallback = False\<rparr>
      | Some b0 \<Rightarrow>
          (let report = build_bios_report now c b0
           in case validate_bios_report report of
                Some why \<Rightarrow> \<lparr>bf_ok = False, bf_report = None, bf_reason = ''BIOS_INVALID_REPORT:'' @ why,
                             bf_is_fallback = False\<rparr>
              | None \<Rightarrow>
                  if proto_missing \<and> allow_fallback
                  then \<lparr>bf_ok = True, bf_report = Some (report\<lparr>br_all_systems_go := False\<rparr>),
                        bf_reason = ''SIMULATED_BIOS'', bf_is_fallback = True\<rparr>
                  else \<lparr>bf_ok = True, bf_report = Some report, bf_reason = ''OK'', bf_is_fallback = False\<rparr>))"

text \<open>\<open>RuntimeError\<close> is \<open>Inl\<close> of its text.\<close>

definition ship_bios_status ::
  "bool \<Rightarrow> bool \<Rightarrow> real \<Rightarrow> ship_config \<Rightarrow> bios_report option \<Rightarrow> string + bios_report" where
  "ship_bios_status proto_missing allow_fallback now c b =
     (let r = ship_bios_status_result proto_missing allow_fallback now c b
      in case bf_report r of
           Some report \<Rightarrow> if bf_ok r then Inr report else Inl (''BIOS data unavailable: '' @ bf_reason r)
         | None \<Rightarrow> Inl (''BIOS data unavailable: '' @ bf_reason r))"

section \<open>The short summary\<close>

record health_summary =
  hs_hull :: real
  hs_reactor_percent :: real
  hs_battery_percent :: real
  hs_main_drive :: string
  hs_active_sensors :: nat
  hs_oxygen :: real
  hs_core :: string
  hs_overall :: string

definition get_system_health_summary :: "ship_config \<Rightarrow> health_summary" where
  "get_system_health_summary c =
     (let h = get_hull_status c; p = get_power_status c; d = get_propulsion_status c; s = get_sensor_status c;
          oxygen = dict_getd (li_atmosphere (get_life_support_status c)) ''oxygen_percent'' 0;
          core = co_core_status (get_computing_status c)
      in \<lparr>hs_hull = hu_integrity h, hs_reactor_percent = percent_of (po_output p) (po_max_output p),
          hs_battery_percent = percent_of (po_battery_charge p) (po_battery_capacity p),
          hs_main_drive = pp_status d, hs_active_sensors = length (ss_active s), hs_oxygen = oxygen, hs_core = core,
          hs_overall =
            (if hu_integrity h > 80 \<and> po_output p > 0 \<and> pp_status d \<in> {''ready'', ''idle''} \<and>
                length (ss_active s) \<ge> 2 \<and> 18 \<le> oxygen \<and> oxygen \<le> 25 \<and> core = ''active''
             then ''NOMINAL'' else ''DEGRADED'')\<rparr>)"

section \<open>Lemmas\<close>

definition reported :: "issue list \<Rightarrow> bool" where
  "reported xs \<longleftrightarrow> list_all (\<lambda>i. is_state i \<noteq> DV_UNSPECIFIED) xs"

lemma reported_simps [simp]:
  "reported []" "reported (xs @ ys) \<longleftrightarrow> reported xs \<and> reported ys"
  "reported (i # xs) \<longleftrightarrow> is_state i \<noteq> DV_UNSPECIFIED \<and> reported xs"
  "reported (issue_if b i) \<longleftrightarrow> b \<longrightarrow> is_state i \<noteq> DV_UNSPECIFIED"
  "is_state (mk_issue d st co) = st"
  by (auto simp: reported_def issue_if_def mk_issue_def)

lemma reported_concat: "(\<And>x. reported (f x)) \<Longrightarrow> reported (concat (map f xs))"
  by (induction xs) simp_all

lemma diagnoses_reported:
  "reported (diagnose_hull c)" "reported (diagnose_power_systems c)" "reported (diagnose_propulsion c)"
  "reported (diagnose_sensors c)" "reported (diagnose_life_support c)" "reported (diagnose_computing c)"
  by (simp_all add: diagnose_hull_def diagnose_power_systems_def diagnose_propulsion_def diagnose_sensors_def
      diagnose_life_support_def diagnose_computing_def compartment_issues_def thruster_issues_def Let_def reported_concat)

lemma reported_valid: "reported xs \<Longrightarrow> invalid_status_at n xs = None"
  by (induction xs arbitrary: n) simp_all

definition factor_if :: "issue list \<Rightarrow> real \<Rightarrow> real" where
  "factor_if xs f = (if xs = [] then 1 else f)"

lemma run_diagnoses_spec:
  "run_diagnoses ds go health acc =
     (go \<and> list_all (\<lambda>(xs, f, stops). xs = [] \<or> \<not> stops) ds,
      health * prod_list (map (\<lambda>(xs, f, stops). factor_if xs f) ds),
      acc @ concat (map fst ds))"
proof (induction ds arbitrary: go health acc)
  case (Cons d ds)
  obtain xs f stops where d: "d = (xs, f, stops)" by (metis prod_cases3)
  show ?case by (cases "xs = []"; cases stops) (simp_all add: d Cons.IH factor_if_def mult.assoc)
qed simp

definition health_of :: "ship_config \<Rightarrow> real" where
  "health_of c =
     factor_if (diagnose_hull c) (9 / 10) * factor_if (diagnose_power_systems c) (8 / 10) *
     factor_if (diagnose_propulsion c) (7 / 10) * factor_if (diagnose_sensors c) (95 / 100) *
     factor_if (diagnose_life_support c) (6 / 10) * factor_if (diagnose_computing c) (85 / 100)"

definition all_issues :: "ship_config \<Rightarrow> issue list" where
  "all_issues c = diagnose_hull c @ diagnose_power_systems c @ diagnose_propulsion c @ diagnose_sensors c @
                  diagnose_life_support c @ diagnose_computing c"

lemma health_of_bounds: "244188 / 1000000 \<le> health_of c \<and> health_of c \<le> 1 \<and> (health_of c = 1 \<longleftrightarrow> all_issues c = [])"
  unfolding health_of_def factor_if_def all_issues_def by (simp split: if_split)

definition flight_issues :: "ship_config \<Rightarrow> issue list" where
  "flight_issues c = diagnose_hull c @ diagnose_power_systems c @ diagnose_propulsion c @ diagnose_life_support c"

lemma build_report:
  "build_bios_report now c b =
     b\<lparr>br_timestamp := Some now, br_post_results := all_issues c,
       br_all_systems_go := (flight_issues c = []), br_health_score := health_of c\<rparr>"
proof -
  have run: "run_diagnoses (diagnoses c) True 1 [] = (flight_issues c = [], health_of c, all_issues c)"
    by (simp add: run_diagnoses_spec diagnoses_def flight_issues_def health_of_def all_issues_def mult.assoc)
  have "max 0 (health_of c) = health_of c" using health_of_bounds [of c] by simp
  then show ?thesis by (simp add: build_bios_report_def run)
qed

lemma report_valid: "validate_bios_report (build_bios_report now c b) = None"
  by (simp add: validate_bios_report_def build_report reported_valid all_issues_def diagnoses_reported)

section \<open>Properties\<close>

text \<open>
  What a BIOS report says: it lists the issues of all six diagnoses in their order, it gives
  the go exactly when hull, power, propulsion and life support have none (issues of sensors and
  computing, a dead core included, do not stop it), and its health score is between 0.244188 and 1
  and is 1 exactly when there is no issue at all.
\<close>

theorem bios_report_meaning:
  "let r = build_bios_report now c b
   in br_post_results r = diagnose_hull c @ diagnose_power_systems c @ diagnose_propulsion c @
        diagnose_sensors c @ diagnose_life_support c @ diagnose_computing c \<and>
      (br_all_systems_go r \<longleftrightarrow>
         diagnose_hull c = [] \<and> diagnose_power_systems c = [] \<and> diagnose_propulsion c = [] \<and>
         diagnose_life_support c = []) \<and>
      244188 / 1000000 \<le> br_health_score r \<and> br_health_score r \<le> 1 \<and>
      (br_health_score r = 1 \<longleftrightarrow> br_post_results r = [])"
  using health_of_bounds [of c] by (simp add: build_report flight_issues_def all_issues_def)

text \<open>
  A diagnosis always yields a valid report: the handler fails only without an input report, the
  invalid-report error never occurs, and a simulated report never gives the go.
\<close>

theorem bios_status_outcome:
  "ship_bios_status proto_missing allow now c b =
     (case b of
        None \<Rightarrow> Inl ''BIOS data unavailable: BIOS_UNAVAILABLE''
      | Some b0 \<Rightarrow>
          Inr (if proto_missing \<and> allow then (build_bios_report now c b0)\<lparr>br_all_systems_go := False\<rparr>
               else build_bios_report now c b0))"
  by (cases b; cases proto_missing; cases allow) (simp_all add: ship_bios_status_def ship_bios_status_result_def report_valid Let_def)

end
