(* ===== verification/Ship_Fsm.thy ===== *)
theory Ship_Fsm
  imports Ship_Actuators Ship_Bios Fsm_Conv
begin

text \<open>
  The ship's state machine (\<open>src/qiki/services/q_core_agent/core/ship_fsm_handler.py\<close>). It
  keeps its state in the string map of a protobuf snapshot, reads the ship, the controller and the
  radar tracks, and may execute an emergency stop on the way. One reading of the clock serves a whole
  step; the thresholds of the environment are numbers of a record. Ship states are strings, as in the
  code: a snapshot may name a state that is none of them.
\<close>

section \<open>States, reasons, environment\<close>

datatype ship_state =
    SHIP_STARTUP | SHIP_IDLE | FLIGHT_CRUISE | FLIGHT_MANEUVERING | DOCKING_APPROACH | DOCKING_ENGAGED
  | SAFE_MODE | EMERGENCY_STOP | SYSTEMS_ERROR

fun ship_state_value :: "ship_state \<Rightarrow> string" where
  "ship_state_value SHIP_STARTUP = ''SHIP_STARTUP''"
| "ship_state_value SHIP_IDLE = ''SHIP_IDLE''"
| "ship_state_value FLIGHT_CRUISE = ''FLIGHT_CRUISE''"
| "ship_state_value FLIGHT_MANEUVERING = ''FLIGHT_MANEUVERING''"
| "ship_state_value DOCKING_APPROACH = ''DOCKING_APPROACH''"
| "ship_state_value DOCKING_ENGAGED = ''DOCKING_ENGAGED''"
| "ship_state_value SAFE_MODE = ''SAFE_MODE''"
| "ship_state_value EMERGENCY_STOP = ''EMERGENCY_STOP''"
| "ship_state_value SYSTEMS_ERROR = ''SYSTEMS_ERROR''"

definition safe_mode_reasons :: "string list" where
  "safe_mode_reasons =
     [''BIOS_UNAVAILABLE'', ''BIOS_INVALID'', ''SENSORS_UNAVAILABLE'', ''SENSORS_STALE'', ''ACTUATOR_UNAVAILABLE'',
      ''PROVIDER_UNAVAILABLE'', ''UNKNOWN'']"

fun trust_reason_value :: "trust_reason \<Rightarrow> string" where
  "trust_reason_value TR_OK = ''OK''"
| "trust_reason_value TR_NO_DATA = ''NO_DATA''"
| "trust_reason_value TR_STALE = ''STALE''"
| "trust_reason_value TR_LOW_QUALITY = ''LOW_QUALITY''"
| "trust_reason_value TR_INVALID = ''INVALID''"
| "trust_reason_value TR_MISSING_FIELDS = ''MISSING_FIELDS''"

record ship_env =
  ev_actuator :: actuator_env
  ev_target_range_m :: real
  ev_max_age_s :: real
  ev_min_quality :: real
  ev_engaged_range_m :: real
  ev_max_abs_vr :: real
  ev_confirmations :: int
  ev_safe_exit_confirmations :: int

definition ev_now :: "ship_env \<Rightarrow> real" where "ev_now env = ae_now (ev_actuator env)"

type_synonym ctx_map = "(string, string) dict"

record last_actuation =
  la_command_id :: string
  la_status :: actuation_status
  la_timestamp :: pyfloat
  la_reason :: string
  la_is_fallback :: bool
  la_action :: string

section \<open>The context map\<close>

definition ctx_get :: "ctx_map \<Rightarrow> string \<Rightarrow> string" where
  "ctx_get m k = dict_getd m k []"

definition parse_bool :: "string \<Rightarrow> bool option" where
  "parse_bool raw =
     (let normalized = py_lower (py_strip raw)
      in if normalized \<in> {''1'', ''true'', ''yes'', ''on''} then Some True
         else if normalized \<in> {''0'', ''false'', ''no'', ''off''} then Some False
         else None)"

definition is_truthy :: "string \<Rightarrow> bool" where
  "is_truthy raw \<longleftrightarrow> py_lower (py_strip raw) \<in> {''1'', ''true'', ''yes'', ''on''}"

definition parse_float_or :: "pyfloat \<Rightarrow> string \<Rightarrow> pyfloat" where
  "parse_float_or d raw = opt_or d (py_float raw)"

definition all_actuation_statuses :: "actuation_status list" where
  "all_actuation_statuses = [A_ACCEPTED, A_EXECUTED, A_REJECTED, A_FAILED, A_TIMEOUT, A_UNAVAILABLE]"

definition parse_actuation_status :: "string \<Rightarrow> actuation_status option" where
  "parse_actuation_status raw =
     (let normalized = py_lower (py_strip raw)
      in find (\<lambda>s. normalized = actuation_status_value s) all_actuation_statuses)"

text \<open>\<open>f"{x:.6f}"\<close> of any float.\<close>

fun fmt6 :: "pyfloat \<Rightarrow> string" where
  "fmt6 (Fin x) = fmt_fixed 6 x"
| "fmt6 PosInf = ''inf''"
| "fmt6 NegInf = ''-inf''"
| "fmt6 NaN = ''nan''"

definition serialize_last_actuation :: "last_actuation \<Rightarrow> ctx_map \<Rightarrow> ctx_map" where
  "serialize_last_actuation a m =
     dict_set (dict_set (dict_set (dict_set (dict_set (dict_set m
       ''last_actuation_command_id'' (la_command_id a))
       ''last_actuation_status'' (actuation_status_value (la_status a)))
       ''last_actuation_timestamp'' (fmt6 (la_timestamp a)))
       ''last_actuation_reason'' (la_reason a))
       ''last_actuation_is_fallback'' (if la_is_fallback a then ''1'' else ''0''))
       ''last_actuation_action'' (la_action a)"

definition deserialize_last_actuation :: "ctx_map \<Rightarrow> last_actuation option" where
  "deserialize_last_actuation m =
     (case parse_actuation_status (ctx_get m ''last_actuation_status'') of
        None \<Rightarrow> None
      | Some st \<Rightarrow>
          Some \<lparr>la_command_id = ctx_get m ''last_actuation_command_id'', la_status = st,
                la_timestamp = parse_float_or (Fin 0) (ctx_get m ''last_actuation_timestamp''),
                la_reason = ctx_get m ''last_actuation_reason'',
                la_is_fallback = is_truthy (ctx_get m ''last_actuation_is_fallback''),
                la_action = ctx_get m ''last_actuation_action''\<rparr>)"

definition normalize_safe_mode_reason :: "string \<Rightarrow> string" where
  "normalize_safe_mode_reason raw =
     (let normalized = py_upper (py_strip raw)
      in if normalized \<in> set safe_mode_reasons then normalized else ''UNKNOWN'')"

text \<open>Numbers of \<open>FSMStateEnum\<close>: BOOTING, IDLE, ERROR_STATE, ACTIVE.\<close>

definition map_ship_state :: "string \<Rightarrow> int" where
  "map_ship_state name =
     (if name = ''SHIP_STARTUP'' then 1
      else if name = ''SHIP_IDLE'' then 2
      else if name \<in> {''EMERGENCY_STOP'', ''SYSTEMS_ERROR'', ''SAFE_MODE''} then 4
      else 3)"

definition get_ship_state_name :: "ctx_map \<Rightarrow> string" where
  "get_ship_state_name m =
     (let name = ctx_get m ''ship_state_name'' in if name = [] then ''SHIP_STARTUP'' else name)"

section \<open>What the machine reads\<close>

definition is_ship_systems_ok :: "ship_config \<Rightarrow> bool" where
  "is_ship_systems_ok c \<longleftrightarrow>
     hu_integrity (get_hull_status c) > 50 \<and> po_output (get_power_status c) > 0 \<and>
     po_battery_charge (get_power_status c) > 0 \<and>
     18 \<le> dict_getd (li_atmosphere (get_life_support_status c)) ''oxygen_percent'' 0 \<and>
     dict_getd (li_atmosphere (get_life_support_status c)) ''oxygen_percent'' 0 \<le> 25 \<and>
     dict_getd (li_atmosphere (get_life_support_status c)) ''co2_ppm'' 0 < 5000 \<and>
     co_core_status (get_computing_status c) = ''active''"

definition has_navigation_capability :: "ship_config \<Rightarrow> bool" where
  "has_navigation_capability c \<longleftrightarrow>
     ''long_range_radar'' \<in> set (ss_active (get_sensor_status c)) \<and>
     ''navigation_computer'' \<in> set (ss_active (get_sensor_status c)) \<and>
     pp_status (get_propulsion_status c) \<in> {''ready'', ''idle'', ''active''} \<and>
     pp_fuel_kg (get_propulsion_status c) > 10"

fun best_station_loop :: "(station_track \<times> pyfloat) option \<Rightarrow> reading list \<Rightarrow> (station_track \<times> pyfloat) option" where
  "best_station_loop best [] = best"
| "best_station_loop best (r # rs) =
     (case rd_track r of
        None \<Rightarrow> best_station_loop best rs
      | Some t \<Rightarrow>
          (let range_m = opt_or (Fin 0) (tk_range_m t)
           in if \<not> tk_is_station t \<or> fl_nonpos range_m then best_station_loop best rs
              else if (case best of None \<Rightarrow> True | Some (bt, br) \<Rightarrow> fl_less range_m br)
              then best_station_loop (Some (t, range_m)) rs
              else best_station_loop best rs))"

definition get_best_station_track :: "ship \<Rightarrow> station_track option" where
  "get_best_station_track s = map_option fst (best_station_loop None (iter_latest_sensor_readings s))"

definition track_age_seconds :: "real \<Rightarrow> station_track \<Rightarrow> real option" where
  "track_age_seconds now t =
     (case tk_timestamp t of
        Some ts \<Rightarrow> Some (max 0 (now - ts))
      | None \<Rightarrow> (case tk_age_s t of Some (Fin a) \<Rightarrow> if a \<ge> 0 then Some a else None | _ \<Rightarrow> None))"

definition untrusted :: "trust_reason \<Rightarrow> real option \<Rightarrow> real option \<Rightarrow> trusted_frame" where
  "untrusted why age q = \<lparr>tf_ok = False, tf_reason = why, tf_age_s = age, tf_quality = q, tf_data = None\<rparr>"

text \<open>The verdict on a quality, once range, velocity and age have passed.\<close>

definition judge_quality :: "ship_env \<Rightarrow> station_track \<Rightarrow> real \<Rightarrow> real \<Rightarrow> real option \<Rightarrow> trusted_frame" where
  "judge_quality env t range_m vr age =
     (case tk_quality t of
        None \<Rightarrow> \<lparr>tf_ok = True, tf_reason = TR_OK, tf_age_s = age, tf_quality = None, tf_data = Some (range_m, vr)\<rparr>
      | Some (Fin q) \<Rightarrow>
          if q < ev_min_quality env then untrusted TR_LOW_QUALITY age (Some q)
          else \<lparr>tf_ok = True, tf_reason = TR_OK, tf_age_s = age, tf_quality = Some q, tf_data = Some (range_m, vr)\<rparr>
      | Some _ \<Rightarrow> untrusted TR_INVALID age None)"

definition judge_track :: "ship_env \<Rightarrow> station_track option \<Rightarrow> trusted_frame" where
  "judge_track env raw =
     (case raw of
        None \<Rightarrow> untrusted TR_NO_DATA None None
      | Some t \<Rightarrow>
          (case (tk_range_m t, tk_vr_mps t) of
             (Some (Fin range_m), Some (Fin vr)) \<Rightarrow>
               if range_m \<le> 0 then untrusted TR_INVALID None None
               else (let age = track_age_seconds (ev_now env) t
                     in if opt_test age (\<lambda>a. a > ev_max_age_s env) then untrusted TR_STALE age None
                        else judge_quality env t range_m vr age)
           | (Some _, Some _) \<Rightarrow> untrusted TR_INVALID None None
           | _ \<Rightarrow> untrusted TR_MISSING_FIELDS None None))"

definition truth_of_frame :: "trusted_frame \<Rightarrow> truth_state" where
  "truth_of_frame t =
     (if tf_ok t then T_OK
      else if tf_reason t \<in> {TR_INVALID, TR_MISSING_FIELDS} then T_INVALID else T_NO_DATA)"

definition evaluate_sensor_frame :: "ship_env \<Rightarrow> station_track option \<Rightarrow> controller \<Rightarrow> controller \<times> trusted_frame" where
  "evaluate_sensor_frame env raw c =
     (let t = judge_track env raw in (record_event (Sensor_verdict t (truth_of_frame t)) c, t))"

definition get_trusted_station_track :: "ship_env \<Rightarrow> controller \<Rightarrow> controller \<times> trusted_frame" where
  "get_trusted_station_track env c = evaluate_sensor_frame env (get_best_station_track (ct_ship c)) c"

definition is_docking_target_in_range :: "ship_env \<Rightarrow> controller \<Rightarrow> controller \<times> bool" where
  "is_docking_target_in_range env c =
     (let (c', t) = get_trusted_station_track env c
      in (c', tf_ok t \<and> opt_test (tf_data t) (\<lambda>d. fst d \<le> ev_target_range_m env)))"

definition confirming_reason :: "int \<Rightarrow> int \<Rightarrow> string" where
  "confirming_reason n m = ''DOCKING_CONFIRMING_'' @ show_int n @ ''_OF_'' @ show_int m"

definition required_confirmations :: "ship_env \<Rightarrow> trusted_frame \<Rightarrow> int" where
  "required_confirmations env t =
     max 1 (ev_confirmations env) + (if tf_age_s t = None \<or> tf_quality t = None then 1 else 0)"

definition judge_docking :: "ship_env \<Rightarrow> int \<Rightarrow> trusted_frame \<Rightarrow> bool \<times> string \<times> int" where
  "judge_docking env hits t =
     (case (tf_ok t, tf_data t) of
        (True, Some (range_m, vr)) \<Rightarrow>
          if range_m > ev_engaged_range_m env \<or> \<bar>vr\<bar> > ev_max_abs_vr env then (False, ''INVALID'', 0)
          else if hits + 1 < required_confirmations env t
          then (False, confirming_reason (hits + 1) (required_confirmations env t), hits + 1)
          else (True, ''DOCKING_CONFIRMED'', hits + 1)
      | _ \<Rightarrow> (False, trust_reason_value (tf_reason t), 0))"

definition is_docking_engaged :: "ship_env \<Rightarrow> int \<Rightarrow> controller \<Rightarrow> controller \<times> bool \<times> string \<times> int" where
  "is_docking_engaged env hits c =
     (let (c', t) = get_trusted_station_track env c in (c', judge_docking env hits t))"

definition fact_of_result :: "actuation_result \<Rightarrow> last_actuation" where
  "fact_of_result r =
     \<lparr>la_command_id = ar_command_id r, la_status = ar_status r, la_timestamp = Fin (ar_timestamp r),
      la_reason = ar_reason r, la_is_fallback = ar_is_fallback r, la_action = ar_action r\<rparr>"

definition get_last_actuation :: "controller \<Rightarrow> last_actuation option" where
  "get_last_actuation c = map_option fact_of_result (ct_last c)"

section \<open>The step\<close>

text \<open>Everything read before a decision is taken.\<close>

record ship_facts =
  sf_state :: string
  sf_systems_ok :: bool
  sf_nav :: bool
  sf_docking :: bool
  sf_mode :: propulsion_mode
  sf_request :: string
  sf_reason :: string
  sf_bios :: "bool option"
  sf_sensors :: "bool option"
  sf_provider :: "bool option"
  sf_last :: "last_actuation option"

definition ship_facts_of :: "controller \<Rightarrow> bool \<Rightarrow> ctx_map \<Rightarrow> ship_facts" where
  "ship_facts_of c docking m =
     \<lparr>sf_state = get_ship_state_name m, sf_systems_ok = is_ship_systems_ok (sh_config (ct_ship c)),
      sf_nav = has_navigation_capability (sh_config (ct_ship c)), sf_docking = docking, sf_mode = ct_mode c,
      sf_request = normalize_safe_mode_reason (ctx_get m ''safe_mode_request_reason''),
      sf_reason = normalize_safe_mode_reason (ctx_get m ''safe_mode_reason''),
      sf_bios = parse_bool (ctx_get m ''safe_bios_ok''), sf_sensors = parse_bool (ctx_get m ''safe_sensors_ok''),
      sf_provider = parse_bool (ctx_get m ''safe_provider_ok''),
      sf_last = (case get_last_actuation c of None \<Rightarrow> deserialize_last_actuation m | Some a \<Rightarrow> Some a)\<rparr>"

definition starts_with :: "string \<Rightarrow> string \<Rightarrow> bool" where
  "starts_with s p \<longleftrightarrow> take (length p) s = p"

fun status_name :: "actuation_status \<Rightarrow> string" where
  "status_name A_ACCEPTED = ''ACCEPTED''"
| "status_name A_EXECUTED = ''EXECUTED''"
| "status_name A_REJECTED = ''REJECTED''"
| "status_name A_FAILED = ''FAILED''"
| "status_name A_TIMEOUT = ''TIMEOUT''"
| "status_name A_UNAVAILABLE = ''UNAVAILABLE''"

definition actuation_gate ::
  "last_actuation option \<Rightarrow> string \<Rightarrow> string \<Rightarrow> string \<Rightarrow> string \<Rightarrow> bool \<times> string" where
  "actuation_gate la expected pending missing rejected =
     (case la of
        None \<Rightarrow> (False, missing)
      | Some a \<Rightarrow>
          if \<not> starts_with (la_action a) expected then (False, missing)
          else case la_status a of
                 A_EXECUTED \<Rightarrow> (True, [])
               | A_ACCEPTED \<Rightarrow> (False, pending)
               | A_REJECTED \<Rightarrow> (False, rejected)
               | st \<Rightarrow> (False, pending @ ''_'' @ status_name st))"

definition drive_gate :: "last_actuation option \<Rightarrow> bool \<times> string" where
  "drive_gate la = actuation_gate la ''set_main_drive_thrust'' ''MAIN_DRIVE_ACCEPTED_PENDING_EXECUTION''
                       ''MAIN_DRIVE_NO_ACTUATION_FACT'' ''MAIN_DRIVE_REJECTED''"

definition rcs_gate :: "last_actuation option \<Rightarrow> bool \<times> string" where
  "rcs_gate la = actuation_gate la ''fire_rcs_thruster:'' ''RCS_ACCEPTED_PENDING_EXECUTION''
                     ''RCS_NO_ACTUATION_FACT'' ''RCS_COMMAND_REJECTED''"

definition actuator_failed :: "last_actuation option \<Rightarrow> bool" where
  "actuator_failed la \<longleftrightarrow>
     opt_test la (\<lambda>a. la_status a \<in> {A_TIMEOUT, A_UNAVAILABLE, A_FAILED} \<and>
       (starts_with (la_action a) ''set_main_drive_thrust'' \<or> starts_with (la_action a) ''fire_rcs_thruster:''))"

text \<open>Whether safe mode is forced, and the reason it would be entered with.\<close>

definition forced_safe_mode :: "ship_facts \<Rightarrow> bool \<times> string" where
  "forced_safe_mode f =
     (if sf_request f \<noteq> ''UNKNOWN''
      then (True, if sf_reason f = ''UNKNOWN'' then sf_request f else sf_reason f)
      else if sf_bios f = Some False then (True, ''BIOS_UNAVAILABLE'')
      else if sf_sensors f = Some False then (True, ''SENSORS_UNAVAILABLE'')
      else if sf_provider f = Some False then (True, ''PROVIDER_UNAVAILABLE'')
      else if actuator_failed (sf_last f) then (True, ''ACTUATOR_UNAVAILABLE'')
      else (False, sf_reason f))"

text \<open>The result of a decision: the next context and controller, the new state and the trigger.\<close>

record decision =
  de_ctx :: ctx_map
  de_ctrl :: controller
  de_state :: string
  de_trigger :: string

definition decide :: "ctx_map \<Rightarrow> controller \<Rightarrow> string \<Rightarrow> string \<Rightarrow> decision" where
  "decide m c st tr = \<lparr>de_ctx = m, de_ctrl = c, de_state = st, de_trigger = tr\<rparr>"

definition stop_now :: "ship_env \<Rightarrow> controller \<Rightarrow> controller" where
  "stop_now env c = fst (emergency_stop (ev_actuator env) c)"

definition set_safe_mode_keys :: "string \<Rightarrow> string \<Rightarrow> ctx_map \<Rightarrow> ctx_map" where
  "set_safe_mode_keys hits reason m =
     dict_set (dict_set (dict_set m ''safe_mode_exit_hits'' hits) ''safe_mode_reason'' reason)
       ''safe_mode_request_reason'' []"

definition enter_safe_mode :: "ship_env \<Rightarrow> string \<Rightarrow> ctx_map \<Rightarrow> controller \<Rightarrow> decision" where
  "enter_safe_mode env reason m c =
     decide (set_safe_mode_keys ''0'' reason m)
       (record_event (Safe_mode ''enter'' reason ''0'' (max 1 (ev_safe_exit_confirmations env)) T_NO_DATA) (stop_now env c))
       ''SAFE_MODE'' (''SAFE_MODE_ENTER_'' @ reason)"

definition exit_hits_of :: "ctx_map \<Rightarrow> int" where
  "exit_hits_of m = opt_or 0 (py_int (dict_getd m ''safe_mode_exit_hits'' ''0''))"

definition in_safe_mode :: "ship_env \<Rightarrow> ship_facts \<Rightarrow> ctx_map \<Rightarrow> ctx_map \<Rightarrow> controller \<Rightarrow> decision" where
  "in_safe_mode env f old m c =
     (let required = max 1 (ev_safe_exit_confirmations env);
          bios_ok = opt_or (sf_systems_ok f) (sf_bios f); sensors_ok = opt_or (sf_nav f) (sf_sensors f);
          provider_ok = opt_or True (sf_provider f); reason = snd (forced_safe_mode f)
      in if bios_ok \<and> sensors_ok \<and> provider_ok
         then let hits = exit_hits_of old + 1; m' = set_safe_mode_keys (show_int hits) reason m
              in if hits \<ge> required
                 then decide m' (record_event (Safe_mode ''exit'' reason (show_int hits) required T_OK) c)
                        ''SHIP_IDLE'' ''SAFE_MODE_EXIT_CONFIRMED''
                 else decide m' (record_event (Safe_mode ''recovering'' reason (show_int hits) required T_OK) c)
                        ''SAFE_MODE'' (''SAFE_MODE_RECOVERING_'' @ show_int hits @ ''_OF_'' @ show_int required)
         else let why = (if \<not> bios_ok then ''BIOS_UNAVAILABLE'' else if \<not> sensors_ok then ''SENSORS_UNAVAILABLE''
                         else ''PROVIDER_UNAVAILABLE'')
              in decide (set_safe_mode_keys ''0'' why m)
                   (record_event (Safe_mode ''hold'' why ''0'' required T_NO_DATA) c) ''SAFE_MODE''
                   (''SAFE_MODE_HOLD_'' @ why))"

text \<open>Take a transition when its gate is open, else only note the gate's trigger.\<close>

definition gated :: "bool \<times> string \<Rightarrow> string \<Rightarrow> string \<Rightarrow> string \<Rightarrow> string \<times> string" where
  "gated gate here target trigger = (if fst gate then (target, trigger) else (here, snd gate))"

definition from_startup :: "ship_facts \<Rightarrow> string \<times> string" where
  "from_startup f =
     (if sf_systems_ok f \<and> sf_nav f then (''SHIP_IDLE'', ''SHIP_SYSTEMS_ONLINE'')
      else if sf_systems_ok f then (''SHIP_IDLE'', ''SHIP_SYSTEMS_PARTIAL'')
      else (''SYSTEMS_ERROR'', ''CRITICAL_SYSTEMS_FAILURE''))"

definition from_idle :: "ship_facts \<Rightarrow> string \<times> string" where
  "from_idle f =
     (if \<not> sf_systems_ok f then (''SYSTEMS_ERROR'', ''SYSTEMS_DEGRADED'')
      else if sf_mode f = PM_CRUISE then gated (drive_gate (sf_last f)) ''SHIP_IDLE'' ''FLIGHT_CRUISE'' ''MAIN_DRIVE_EXECUTED''
      else if sf_mode f = PM_MANEUVERING
           then gated (rcs_gate (sf_last f)) ''SHIP_IDLE'' ''FLIGHT_MANEUVERING'' ''RCS_EXECUTED_MANEUVERING_ACTIVE''
      else if sf_docking f then (''DOCKING_APPROACH'', ''DOCKING_TARGET_ACQUIRED'')
      else (''SHIP_IDLE'', []))"

text \<open>In flight, with working systems.\<close>

definition from_cruise :: "ship_facts \<Rightarrow> string \<times> string" where
  "from_cruise f =
     (if sf_mode f = PM_MANEUVERING
      then gated (rcs_gate (sf_last f)) ''FLIGHT_CRUISE'' ''FLIGHT_MANEUVERING'' ''SWITCHING_TO_MANEUVERING_EXECUTED''
      else if sf_mode f = PM_IDLE then (''SHIP_IDLE'', ''FLIGHT_COMPLETED'')
      else (''FLIGHT_CRUISE'', []))"

definition from_maneuvering :: "ship_facts \<Rightarrow> string \<times> string" where
  "from_maneuvering f =
     (if sf_mode f = PM_CRUISE
      then gated (drive_gate (sf_last f)) ''FLIGHT_MANEUVERING'' ''FLIGHT_CRUISE'' ''SWITCHING_TO_CRUISE_EXECUTED''
      else if sf_mode f = PM_IDLE then (''SHIP_IDLE'', ''MANEUVERING_COMPLETED'')
      else if sf_docking f then (''DOCKING_APPROACH'', ''DOCKING_TARGET_IN_RANGE'')
      else (''FLIGHT_MANEUVERING'', []))"

definition docking_hits_of :: "ctx_map \<Rightarrow> int" where
  "docking_hits_of m = opt_or 0 (py_int (dict_getd m ''docking_confirm_hits'' ''0''))"

text \<open>Every branch sets a trigger, so the branch on an empty one is never taken.\<close>

definition from_approach :: "ship_env \<Rightarrow> ship_facts \<Rightarrow> ctx_map \<Rightarrow> ctx_map \<Rightarrow> controller \<Rightarrow> decision" where
  "from_approach env f old m c =
     (let set_hits = (\<lambda>n. dict_set m ''docking_confirm_hits'' (show_int n))
      in if \<not> sf_systems_ok f
         then decide (set_hits 0) (stop_now env c) ''EMERGENCY_STOP'' ''EMERGENCY_DURING_DOCKING''
         else let (c', engaged, reason, hits) = is_docking_engaged env (docking_hits_of old) c
              in if engaged then decide (set_hits hits) c' ''DOCKING_ENGAGED'' ''DOCKING_CONFIRMED''
                 else if \<not> sf_docking f then decide (set_hits 0) c' ''FLIGHT_MANEUVERING'' ''DOCKING_TARGET_LOST''
                 else if starts_with reason ''DOCKING_CONFIRMING_''
                 then decide (set_hits hits) c' ''DOCKING_APPROACH'' reason
                 else decide (set_hits 0) c' ''DOCKING_APPROACH'' ''DOCKING_SENSOR_VALIDATION_FAILED'')"

definition in_flight :: "ship_env \<Rightarrow> ship_facts \<Rightarrow> (ship_facts \<Rightarrow> string \<times> string) \<Rightarrow> ctx_map \<Rightarrow> controller \<Rightarrow> decision" where
  "in_flight env f next m c =
     (if \<not> sf_systems_ok f then decide m (stop_now env c) ''EMERGENCY_STOP'' ''EMERGENCY_SYSTEMS_FAILURE''
      else decide m c (fst (next f)) (snd (next f)))"

definition normal_decision :: "ship_env \<Rightarrow> ship_facts \<Rightarrow> ctx_map \<Rightarrow> ctx_map \<Rightarrow> controller \<Rightarrow> decision" where
  "normal_decision env f old m c =
     (let pure = (\<lambda>r. decide m c (fst r) (snd r))
      in if sf_state f = ''SHIP_STARTUP'' then pure (from_startup f)
         else if sf_state f = ''SHIP_IDLE'' then pure (from_idle f)
         else if sf_state f = ''FLIGHT_CRUISE'' then in_flight env f from_cruise m c
         else if sf_state f = ''FLIGHT_MANEUVERING'' then in_flight env f from_maneuvering m c
         else if sf_state f = ''DOCKING_APPROACH'' then from_approach env f old m c
         else if sf_state f = ''EMERGENCY_STOP''
         then pure (if sf_systems_ok f \<and> sf_mode f = PM_EMERGENCY then (''SHIP_IDLE'', ''EMERGENCY_CLEARED'')
                    else (''EMERGENCY_STOP'', []))
         else if sf_state f = ''SYSTEMS_ERROR''
         then pure (if sf_systems_ok f then (''SHIP_IDLE'', ''SYSTEMS_RECOVERED'') else (''SYSTEMS_ERROR'', []))
         else pure (sf_state f, []))"

definition ship_decision :: "ship_env \<Rightarrow> ship_facts \<Rightarrow> ctx_map \<Rightarrow> ctx_map \<Rightarrow> controller \<Rightarrow> decision" where
  "ship_decision env f old m c =
     (if sf_state f \<noteq> ''SAFE_MODE'' \<and> fst (forced_safe_mode f) then enter_safe_mode env (snd (forced_safe_mode f)) m c
      else if sf_state f = ''SAFE_MODE'' then in_safe_mode env f old m c
      else normal_decision env f old m c)"

text \<open>\<open>GetCurrentTime\<close>: whole seconds and nanoseconds.\<close>

definition stamp :: "real \<Rightarrow> proto_timestamp" where
  "stamp now = (\<lfloor>now\<rfloor>, \<lfloor>(now - of_int \<lfloor>now\<rfloor>) * 10 ^ 9\<rfloor>)"

definition transition_record :: "real \<Rightarrow> string \<Rightarrow> string \<Rightarrow> string \<Rightarrow> int \<Rightarrow> proto_transition" where
  "transition_record now from_state to_state trigger status =
     \<lparr>pt_from = map_ship_state from_state, pt_to = map_ship_state to_state, pt_trigger = trigger,
      pt_status = status, pt_error = [], pt_ts = Some (stamp now)\<rparr>"

definition fsm_event :: "string \<Rightarrow> string \<Rightarrow> string \<Rightarrow> string \<Rightarrow> ctx_map \<Rightarrow> ship_event" where
  "fsm_event from_state to_state trigger status m =
     Fsm_transition from_state to_state trigger status
       (ctx_get m ''safe_mode_reason'', ctx_get m ''safe_mode_exit_hits'', ctx_get m ''docking_confirm_hits'')"

definition commit_decision :: "real \<Rightarrow> proto_snapshot \<Rightarrow> string \<Rightarrow> decision \<Rightarrow> proto_snapshot \<times> controller" where
  "commit_decision now p cur d =
     (let (entries, c) =
            (if de_state d \<noteq> cur
             then ([transition_record now cur (de_state d) (de_trigger d) 1],
                   record_event (fsm_event cur (de_state d) (de_trigger d) ''SUCCESS'' (de_ctx d)) (de_ctrl d))
             else if de_trigger d \<noteq> []
             then ([transition_record now cur cur (de_trigger d) 3],
                   record_event (fsm_event cur cur (de_trigger d) ''PENDING'' (de_ctx d)) (de_ctrl d))
             else ([], de_ctrl d))
      in (p\<lparr>ps_history := ps_history p @ entries,
            ps_context := dict_set (de_ctx d) ''ship_state_name'' (de_state d),
            ps_state := map_ship_state (de_state d), ps_ts := Some (stamp now)\<rparr>, c))"

definition process_ship_state :: "ship_env \<Rightarrow> proto_snapshot \<Rightarrow> controller \<Rightarrow> proto_snapshot \<times> controller" where
  "process_ship_state env p c =
     (let (c1, docking) = is_docking_target_in_range env c; old = ps_context p;
          f = ship_facts_of c1 docking old;
          m = (case sf_last f of None \<Rightarrow> old | Some a \<Rightarrow> serialize_last_actuation a old)
      in commit_decision (ev_now env) p (sf_state f) (ship_decision env f old m c1))"

record ship_state_summary =
  sy_operational :: bool
  sy_navigation :: bool
  sy_mode :: string
  sy_ready :: bool

definition get_ship_state_summary :: "controller \<Rightarrow> ship_state_summary" where
  "get_ship_state_summary c =
     (let ok = is_ship_systems_ok (sh_config (ct_ship c)); nav = has_navigation_capability (sh_config (ct_ship c))
      in \<lparr>sy_operational = ok, sy_navigation = nav, sy_mode = propulsion_mode_value (ct_mode c), sy_ready = ok \<and> nav\<rparr>)"

end
