(* ===== verification/Ship_Mission.thy ===== *)
theory Ship_Mission
  imports Ship_Fsm
begin

text \<open>
  What the ship's state machine does over a tick and over a run of ticks and pilot commands: which
  states follow which, when safe mode is entered and left, what docking needs, and what happens to
  the facts it keeps in its context.
\<close>

section \<open>Initial values\<close>

definition blank_snapshot :: proto_snapshot where
  "blank_snapshot =
     \<lparr>ps_snapshot_id = None, ps_instance_id = None, ps_ts = None, ps_state = 0, ps_source = [], ps_attempts = 0,
      ps_history = [], ps_context = [], ps_metadata = []\<rparr>"

definition sample_env :: ship_env where
  "sample_env =
     \<lparr>ev_actuator = real_env False False (\<lambda>n. show_int (int n)) 0, ev_target_range_m = 5000, ev_max_age_s = 2,
      ev_min_quality = 1 / 2, ev_engaged_range_m = 20, ev_max_abs_vr = 1 / 2, ev_confirmations = 3,
      ev_safe_exit_confirmations = 3\<rparr>"

section \<open>One tick\<close>

definition ship_state_of :: "proto_snapshot \<Rightarrow> string" where
  "ship_state_of p = get_ship_state_name (ps_context p)"

text \<open>The facts of a tick, the context with the last actuation written to it, the controller.\<close>

definition tick_facts :: "ship_env \<Rightarrow> proto_snapshot \<Rightarrow> controller \<Rightarrow> ship_facts" where
  "tick_facts env p c =
     ship_facts_of (fst (is_docking_target_in_range env c)) (snd (is_docking_target_in_range env c)) (ps_context p)"

definition tick_ctx :: "ship_env \<Rightarrow> proto_snapshot \<Rightarrow> controller \<Rightarrow> ctx_map" where
  "tick_ctx env p c =
     (case sf_last (tick_facts env p c) of
        None \<Rightarrow> ps_context p | Some a \<Rightarrow> serialize_last_actuation a (ps_context p))"

definition tick_decision :: "ship_env \<Rightarrow> proto_snapshot \<Rightarrow> controller \<Rightarrow> decision" where
  "tick_decision env p c =
     ship_decision env (tick_facts env p c) (ps_context p) (tick_ctx env p c) (fst (is_docking_target_in_range env c))"

lemma process_ship_state_eq:
  "process_ship_state env p c = commit_decision (ev_now env) p (ship_state_of p) (tick_decision env p c)"
proof -
  obtain c1 d where "is_docking_target_in_range env c = (c1, d)" by fastforce
  then show ?thesis
    by (simp add: process_ship_state_def tick_decision_def tick_facts_def tick_ctx_def ship_facts_of_def ship_state_of_def Let_def)
qed

lemma record_event_fields [simp]:
  "ct_ship (record_event e c) = ct_ship c" "ct_mode (record_event e c) = ct_mode c"
  "ct_last (record_event e c) = ct_last c" "ct_ids (record_event e c) = ct_ids c"
  "ct_journal (record_event e c) = ct_journal c @ [e]"
  by (simp_all add: record_event_def)

lemma docking_target_fields [simp]:
  "ct_ship (fst (is_docking_target_in_range env c)) = ct_ship c"
  "ct_mode (fst (is_docking_target_in_range env c)) = ct_mode c"
  "ct_last (fst (is_docking_target_in_range env c)) = ct_last c"
  by (simp_all add: is_docking_target_in_range_def get_trusted_station_track_def evaluate_sensor_frame_def Let_def)

lemma docking_engaged_fields [simp]:
  "ct_ship (fst (is_docking_engaged env n c)) = ct_ship c" "ct_mode (fst (is_docking_engaged env n c)) = ct_mode c"
  "ct_last (fst (is_docking_engaged env n c)) = ct_last c"
  by (simp_all add: is_docking_engaged_def get_trusted_station_track_def evaluate_sensor_frame_def Let_def)

lemma tick_facts_simps [simp]:
  "sf_state (tick_facts env p c) = ship_state_of p" "sf_mode (tick_facts env p c) = ct_mode c"
  "sf_systems_ok (tick_facts env p c) = is_ship_systems_ok (sh_config (ct_ship c))"
  "sf_nav (tick_facts env p c) = has_navigation_capability (sh_config (ct_ship c))"
  "sf_request (tick_facts env p c) = normalize_safe_mode_reason (ctx_get (ps_context p) ''safe_mode_request_reason'')"
  "sf_reason (tick_facts env p c) = normalize_safe_mode_reason (ctx_get (ps_context p) ''safe_mode_reason'')"
  "sf_bios (tick_facts env p c) = parse_bool (ctx_get (ps_context p) ''safe_bios_ok'')"
  "sf_sensors (tick_facts env p c) = parse_bool (ctx_get (ps_context p) ''safe_sensors_ok'')"
  "sf_provider (tick_facts env p c) = parse_bool (ctx_get (ps_context p) ''safe_provider_ok'')"
  "sf_docking (tick_facts env p c) = snd (is_docking_target_in_range env c)"
  by (simp_all add: tick_facts_def ship_facts_of_def ship_state_of_def)

lemma tick_last [simp]:
  "sf_last (tick_facts env p c) =
     (case get_last_actuation c of None \<Rightarrow> deserialize_last_actuation (ps_context p) | Some a \<Rightarrow> Some a)"
  by (simp add: tick_facts_def ship_facts_of_def get_last_actuation_def)

lemma decide_simps [simp]:
  "de_ctx (decide m c st tr) = m" "de_ctrl (decide m c st tr) = c" "de_state (decide m c st tr) = st"
  "de_trigger (decide m c st tr) = tr"
  by (simp_all add: decide_def)

lemma commit_fields:
  "ps_context (fst (commit_decision now p cur d)) = dict_set (de_ctx d) ''ship_state_name'' (de_state d)"
  "ps_state (fst (commit_decision now p cur d)) = map_ship_state (de_state d)"
  "ct_ship (snd (commit_decision now p cur d)) = ct_ship (de_ctrl d)"
  "ct_mode (snd (commit_decision now p cur d)) = ct_mode (de_ctrl d)"
  "ct_last (snd (commit_decision now p cur d)) = ct_last (de_ctrl d)"
  by (simp_all add: commit_decision_def)

lemma state_name_never_empty [simp]: "get_ship_state_name m \<noteq> []" "ship_state_of p \<noteq> []"
  by (simp_all add: get_ship_state_name_def ship_state_of_def Let_def)

lemma ctx_get_set [simp]: "ctx_get (dict_set m k v) k' = (if k = k' then v else ctx_get m k')"
  by (simp add: ctx_get_def)

text \<open>The states a decision can lead to.\<close>

fun successors :: "string \<Rightarrow> string list" where
  "successors s =
     (if s = ''SHIP_STARTUP'' then [''SHIP_IDLE'', ''SYSTEMS_ERROR'', ''SAFE_MODE'']
      else if s = ''SHIP_IDLE''
      then [s, ''SYSTEMS_ERROR'', ''FLIGHT_CRUISE'', ''FLIGHT_MANEUVERING'', ''DOCKING_APPROACH'', ''SAFE_MODE'']
      else if s = ''FLIGHT_CRUISE'' then [s, ''EMERGENCY_STOP'', ''FLIGHT_MANEUVERING'', ''SHIP_IDLE'', ''SAFE_MODE'']
      else if s = ''FLIGHT_MANEUVERING''
      then [s, ''EMERGENCY_STOP'', ''FLIGHT_CRUISE'', ''SHIP_IDLE'', ''DOCKING_APPROACH'', ''SAFE_MODE'']
      else if s = ''DOCKING_APPROACH''
      then [s, ''EMERGENCY_STOP'', ''DOCKING_ENGAGED'', ''FLIGHT_MANEUVERING'', ''SAFE_MODE'']
      else if s = ''EMERGENCY_STOP'' then [s, ''SHIP_IDLE'', ''SAFE_MODE'']
      else if s = ''SYSTEMS_ERROR'' then [s, ''SHIP_IDLE'', ''SAFE_MODE'']
      else if s = ''SAFE_MODE'' then [s, ''SHIP_IDLE'']
      else [s, ''SAFE_MODE''])"

declare successors.simps [simp del]

lemma fst_gated: "fst (gated g here target trigger) = (if fst g then target else here)"
  by (simp add: gated_def)

lemma in_safe_mode_states: "de_state (in_safe_mode env f old m c) \<in> {''SAFE_MODE'', ''SHIP_IDLE''}"
  by (simp add: in_safe_mode_def Let_def)

lemma from_approach_states:
  "de_state (from_approach env f old m c) \<in>
     {''EMERGENCY_STOP'', ''DOCKING_ENGAGED'', ''FLIGHT_MANEUVERING'', ''DOCKING_APPROACH''}"
proof -
  obtain c' e r h where "is_docking_engaged env (docking_hits_of old) c = (c', e, r, h)" by (metis prod_cases4)
  then show ?thesis by (simp add: from_approach_def Let_def)
qed

lemma normal_decision_states: "sf_state f \<noteq> ''SAFE_MODE'' \<Longrightarrow> de_state (normal_decision env f old m c) \<in> set (successors (sf_state f))"
  using from_approach_states [of env f old m c]
  by (auto simp: normal_decision_def Let_def successors.simps from_startup_def from_idle_def in_flight_def
      from_cruise_def from_maneuvering_def fst_gated)

lemma decision_states: "de_state (ship_decision env f old m c) \<in> set (successors (sf_state f))"
proof (cases "sf_state f = ''SAFE_MODE''")
  case True
  then show ?thesis using in_safe_mode_states [of env f old m c] by (auto simp: ship_decision_def successors.simps)
next
  case False
  have "''SAFE_MODE'' \<in> set (successors (sf_state f))" by (simp add: successors.simps)
  then show ?thesis using False normal_decision_states [OF False] by (simp add: ship_decision_def enter_safe_mode_def)
qed

lemma successors_nonempty: "s \<noteq> [] \<Longrightarrow> t \<in> set (successors s) \<Longrightarrow> t \<noteq> []"
  by (auto simp: successors.simps split: if_splits)

lemma tick_state: "ship_state_of (fst (process_ship_state env p c)) = de_state (tick_decision env p c)"
proof -
  have "de_state (tick_decision env p c) \<in> set (successors (ship_state_of p))"
    unfolding tick_decision_def using decision_states [of env "tick_facts env p c"] by simp
  then have "de_state (tick_decision env p c) \<noteq> []" by (rule successors_nonempty [rotated]) simp
  then show ?thesis
    unfolding process_ship_state_eq ship_state_of_def [of "fst _"] commit_fields
    by (simp add: get_ship_state_name_def)
qed

lemma tick_successor: "ship_state_of (fst (process_ship_state env p c)) \<in> set (successors (ship_state_of p))"
  unfolding tick_state tick_decision_def using decision_states [of env "tick_facts env p c"] by simp

section \<open>Safe mode\<close>

definition other_key :: "string \<Rightarrow> bool" where
  "other_key k \<longleftrightarrow> \<not> starts_with k ''last_actuation_''"

lemma actuation_keys:
  "\<not> other_key ''last_actuation_command_id''" "\<not> other_key ''last_actuation_status''"
  "\<not> other_key ''last_actuation_timestamp''" "\<not> other_key ''last_actuation_reason''"
  "\<not> other_key ''last_actuation_is_fallback''" "\<not> other_key ''last_actuation_action''"
  by (simp_all add: other_key_def starts_with_def)

lemma serialize_other [simp]: "other_key k \<Longrightarrow> dict_get (serialize_last_actuation a m) k = dict_get m k"
proof -
  assume "other_key k"
  then have k: "k \<noteq> ''last_actuation_command_id''" "k \<noteq> ''last_actuation_status''" "k \<noteq> ''last_actuation_timestamp''"
    "k \<noteq> ''last_actuation_reason''" "k \<noteq> ''last_actuation_is_fallback''" "k \<noteq> ''last_actuation_action''"
    using actuation_keys by metis+
  show ?thesis unfolding serialize_last_actuation_def using k by (simp only: dict_get_set if_False)
qed

lemma other_keys [simp]:
  "other_key ''safe_mode_exit_hits''" "other_key ''safe_mode_reason''" "other_key ''safe_mode_request_reason''"
  "other_key ''safe_bios_ok''" "other_key ''safe_sensors_ok''" "other_key ''safe_provider_ok''"
  "other_key ''docking_confirm_hits''" "other_key ''ship_state_name''"
  by (simp_all add: other_key_def starts_with_def)

lemma tick_ctx_other [simp]: "other_key k \<Longrightarrow> dict_get (tick_ctx env p c) k = dict_get (ps_context p) k"
  by (simp add: tick_ctx_def split: option.splits)

lemma set_safe_mode_keys_get:
  "dict_get (set_safe_mode_keys h r m) k =
     (if k = ''safe_mode_request_reason'' then Some [] else if k = ''safe_mode_reason'' then Some r
      else if k = ''safe_mode_exit_hits'' then Some h else dict_get m k)"
  by (simp add: set_safe_mode_keys_def)

definition recovering :: "proto_snapshot \<Rightarrow> controller \<Rightarrow> bool" where
  "recovering p c \<longleftrightarrow>
     opt_or (is_ship_systems_ok (sh_config (ct_ship c))) (parse_bool (ctx_get (ps_context p) ''safe_bios_ok'')) \<and>
     opt_or (has_navigation_capability (sh_config (ct_ship c))) (parse_bool (ctx_get (ps_context p) ''safe_sensors_ok'')) \<and>
     opt_or True (parse_bool (ctx_get (ps_context p) ''safe_provider_ok''))"

definition exits_needed :: "ship_env \<Rightarrow> int" where
  "exits_needed env = max 1 (ev_safe_exit_confirmations env)"

lemma safe_mode_decision:
  "ship_state_of p = ''SAFE_MODE'' \<Longrightarrow>
   tick_decision env p c =
     in_safe_mode env (tick_facts env p c) (ps_context p) (tick_ctx env p c) (fst (is_docking_target_in_range env c))"
  by (simp add: tick_decision_def ship_decision_def)

lemma in_safe_mode_keeps [simp]:
  "ct_ship (de_ctrl (in_safe_mode env f old m c)) = ct_ship c" "ct_mode (de_ctrl (in_safe_mode env f old m c)) = ct_mode c"
  "ct_last (de_ctrl (in_safe_mode env f old m c)) = ct_last c"
  by (simp_all add: in_safe_mode_def Let_def)

lemma in_safe_mode_ctx:
  "\<exists>h r. de_ctx (in_safe_mode env f old m c) = set_safe_mode_keys h r m"
  by (auto simp: in_safe_mode_def Let_def)

lemma tick_keeps_hints:
  assumes "ship_state_of p = ''SAFE_MODE''" "k \<in> {''safe_bios_ok'', ''safe_sensors_ok'', ''safe_provider_ok''}"
  shows "dict_get (ps_context (fst (process_ship_state env p c))) k = dict_get (ps_context p) k"
proof -
  have other: "other_key k" using assms(2) by auto
  obtain h r where ctx: "de_ctx (tick_decision env p c) = set_safe_mode_keys h r (tick_ctx env p c)"
    using in_safe_mode_ctx unfolding safe_mode_decision [OF assms(1)] by blast
  show ?thesis
    unfolding process_ship_state_eq commit_fields ctx using assms(2) other by (auto simp: set_safe_mode_keys_get)
qed

lemma tick_keeps_ship:
  "ship_state_of p = ''SAFE_MODE'' \<Longrightarrow>
   ct_ship (snd (process_ship_state env p c)) = ct_ship c \<and> ct_last (snd (process_ship_state env p c)) = ct_last c \<and>
   ct_mode (snd (process_ship_state env p c)) = ct_mode c"
  by (simp add: process_ship_state_eq commit_fields safe_mode_decision)

lemma recovering_stays:
  assumes "ship_state_of p = ''SAFE_MODE''"
  shows "recovering (fst (process_ship_state env p c)) (snd (process_ship_state env p c)) = recovering p c"
  using tick_keeps_hints [OF assms] tick_keeps_ship [OF assms] by (simp add: recovering_def ctx_get_def dict_getd_def)

lemma exit_hits_keys: "exit_hits_of (dict_set (set_safe_mode_keys (show_int h) r m) ''ship_state_name'' st) = h"
  by (simp add: exit_hits_of_def dict_getd_def set_safe_mode_keys_get opt_or_def)

lemma show_zero: "show_int 0 = ''0''"
  by code_simp

text \<open>One tick in safe mode: a good one counts, a bad one starts over.\<close>

lemma safe_mode_tick:
  assumes st: "ship_state_of p = ''SAFE_MODE''"
  shows "ship_state_of (fst (process_ship_state env p c)) =
           (if recovering p c \<and> exit_hits_of (ps_context p) + 1 \<ge> exits_needed env then ''SHIP_IDLE'' else ''SAFE_MODE'') \<and>
         exit_hits_of (ps_context (fst (process_ship_state env p c))) =
           (if recovering p c then exit_hits_of (ps_context p) + 1 else 0)"
proof -
  let ?f = "tick_facts env p c"
  have rec: "opt_or (sf_systems_ok ?f) (sf_bios ?f) \<and> opt_or (sf_nav ?f) (sf_sensors ?f) \<and> opt_or True (sf_provider ?f) \<longleftrightarrow>
               recovering p c"
    by (simp add: recovering_def)
  show ?thesis
  proof (cases "recovering p c")
    case True
    let ?h = "exit_hits_of (ps_context p) + 1"
    obtain tr c' where "tick_decision env p c =
        decide (set_safe_mode_keys (show_int ?h) (snd (forced_safe_mode ?f)) (tick_ctx env p c)) c'
          (if ?h \<ge> exits_needed env then ''SHIP_IDLE'' else ''SAFE_MODE'') tr"
      unfolding safe_mode_decision [OF st] in_safe_mode_def Let_def rec exits_needed_def
      using True by (simp only: if_True rec) (cases "?h \<ge> max 1 (ev_safe_exit_confirmations env)"; auto)
    with True show ?thesis
      unfolding tick_state by (simp add: process_ship_state_eq commit_fields exit_hits_keys)
  next
    case False
    then obtain tr c' why where d: "tick_decision env p c =
        decide (set_safe_mode_keys (show_int 0) why (tick_ctx env p c)) c' ''SAFE_MODE'' tr"
      unfolding safe_mode_decision [OF st] in_safe_mode_def Let_def rec show_zero
      by (simp only: if_False rec)
    with False show ?thesis
      unfolding tick_state by (simp add: process_ship_state_eq commit_fields exit_hits_keys)
  qed
qed

definition ticks :: "ship_env \<Rightarrow> nat \<Rightarrow> proto_snapshot \<times> controller \<Rightarrow> proto_snapshot \<times> controller" where
  "ticks env n pc = ((\<lambda>pc. process_ship_state env (fst pc) (snd pc)) ^^ n) pc"

lemma ticks_simps [simp]:
  "ticks env 0 pc = pc" "ticks env (Suc n) pc = process_ship_state env (fst (ticks env n pc)) (snd (ticks env n pc))"
  by (simp_all add: ticks_def)

lemma recovery_run:
  assumes "ship_state_of p = ''SAFE_MODE''" "exit_hits_of (ps_context p) = 0" "recovering p c" "int n < exits_needed env"
  shows "ship_state_of (fst (ticks env n (p, c))) = ''SAFE_MODE'' \<and>
         exit_hits_of (ps_context (fst (ticks env n (p, c)))) = int n \<and>
         recovering (fst (ticks env n (p, c))) (snd (ticks env n (p, c)))"
  using assms(4)
proof (induction n)
  case 0
  with assms show ?case by simp
next
  case (Suc n)
  let ?q = "fst (ticks env n (p, c))" and ?d = "snd (ticks env n (p, c))"
  from Suc have q: "ship_state_of ?q = ''SAFE_MODE''" "exit_hits_of (ps_context ?q) = int n" "recovering ?q ?d" by auto
  with safe_mode_tick [OF q(1), of env ?d] recovering_stays [OF q(1), of env ?d] Suc.prems show ?case by simp
qed

text \<open>
  C15. Safe mode is left by patience alone and in bounded time: starting with no hits, while BIOS,
  sensors and provider stay good the machine remains in safe mode for one tick less than the number
  of confirmations asked for (at least one), and is in SHIP_IDLE right after the last of them.
\<close>

theorem safe_mode_release:
  assumes "ship_state_of p = ''SAFE_MODE''" "exit_hits_of (ps_context p) = 0" "recovering p c"
    and "int n \<le> exits_needed env"
  shows "ship_state_of (fst (ticks env n (p, c))) = (if int n < exits_needed env then ''SAFE_MODE'' else ''SHIP_IDLE'')"
proof (cases "int n < exits_needed env")
  case True
  with recovery_run [OF assms(1-3)] show ?thesis by simp
next
  case False
  then have n: "int n = exits_needed env" using assms(4) by simp
  then have "n \<noteq> 0" by (auto simp: exits_needed_def)
  then obtain m where m: "n = Suc m" by (cases n) auto
  with n have m: "n = Suc m" "int m < exits_needed env" "int m + 1 = exits_needed env" by auto
  let ?q = "fst (ticks env m (p, c))" and ?d = "snd (ticks env m (p, c))"
  from recovery_run [OF assms(1-3) m(2)] have q: "ship_state_of ?q = ''SAFE_MODE''"
    "exit_hits_of (ps_context ?q) = int m" "recovering ?q ?d" by auto
  with safe_mode_tick [OF q(1), of env ?d] m False show ?thesis by simp
qed

definition held_snapshot :: proto_snapshot where
  "held_snapshot = blank_snapshot\<lparr>ps_context :=
     [(''ship_state_name'', ''SAFE_MODE''), (''safe_bios_ok'', ''1''), (''safe_sensors_ok'', ''1'')]\<rparr>"

lemma parse_bool_digits: "parse_bool ''1'' = Some True" "parse_bool ''0'' = Some False" "parse_bool [] = None"
  by code_simp+

lemma held_facts:
  "ship_state_of held_snapshot = ''SAFE_MODE''" "exit_hits_of (ps_context held_snapshot) = 0" "recovering held_snapshot c"
proof -
  show "ship_state_of held_snapshot = ''SAFE_MODE''"
    by (simp add: ship_state_of_def held_snapshot_def blank_snapshot_def get_ship_state_name_def ctx_get_def dict_getd_def)
  show "exit_hits_of (ps_context held_snapshot) = 0"
    by (simp add: held_snapshot_def blank_snapshot_def exit_hits_of_def dict_getd_def show_zero [symmetric] opt_or_def)
  show "recovering held_snapshot c"
    by (simp add: recovering_def held_snapshot_def blank_snapshot_def ctx_get_def dict_getd_def parse_bool_digits opt_or_def)
qed

theorem safe_mode_release_witness:
  "ship_state_of (fst (ticks sample_env 3 (held_snapshot, init_controller (new_ship shipped_config)))) = ''SHIP_IDLE''"
proof -
  have "int 3 \<le> exits_needed sample_env" by (simp add: exits_needed_def sample_env_def)
  from safe_mode_release [OF held_facts this] show ?thesis by (simp add: exits_needed_def sample_env_def)
qed

section \<open>Entering safe mode\<close>

lemma stop_now_mode: "\<not> ae_proto_missing (ev_actuator env) \<Longrightarrow> ct_mode (stop_now env c) = PM_EMERGENCY"
  using emergency_stop_records [of "ev_actuator env" c] by (auto simp: stop_now_def)

text \<open>What makes the machine ask for safe mode in a tick.\<close>

definition safe_mode_asked :: "proto_snapshot \<Rightarrow> controller \<Rightarrow> bool" where
  "safe_mode_asked p c \<longleftrightarrow>
     normalize_safe_mode_reason (ctx_get (ps_context p) ''safe_mode_request_reason'') \<noteq> ''UNKNOWN'' \<or>
     parse_bool (ctx_get (ps_context p) ''safe_bios_ok'') = Some False \<or>
     parse_bool (ctx_get (ps_context p) ''safe_sensors_ok'') = Some False \<or>
     parse_bool (ctx_get (ps_context p) ''safe_provider_ok'') = Some False \<or>
     actuator_failed (case get_last_actuation c of None \<Rightarrow> deserialize_last_actuation (ps_context p) | Some a \<Rightarrow> Some a)"

lemma forced_iff: "fst (forced_safe_mode (tick_facts env p c)) \<longleftrightarrow> safe_mode_asked p c"
  by (simp add: forced_safe_mode_def safe_mode_asked_def)

lemma forced_reason:
  "sf_request f \<noteq> ''UNKNOWN'' \<Longrightarrow>
   snd (forced_safe_mode f) = (if sf_reason f = ''UNKNOWN'' then sf_request f else sf_reason f)"
  by (simp add: forced_safe_mode_def)

lemma entering:
  "ship_state_of p \<noteq> ''SAFE_MODE'' \<Longrightarrow> safe_mode_asked p c \<Longrightarrow>
   tick_decision env p c =
     enter_safe_mode env (snd (forced_safe_mode (tick_facts env p c))) (tick_ctx env p c)
       (fst (is_docking_target_in_range env c))"
  by (simp add: tick_decision_def ship_decision_def forced_iff)

text \<open>The receipts of actuator commands in a journal.\<close>

definition receipts_in :: "ship_event list \<Rightarrow> actuation_result list" where
  "receipts_in j = List.map_filter (\<lambda>e. case e of Actuation_receipt r _ \<Rightarrow> Some r | _ \<Rightarrow> None) j"

lemma receipts_in_simps [simp]:
  "receipts_in [] = []" "receipts_in (j @ k) = receipts_in j @ receipts_in k" "receipts_in (receipts rs) = rs"
  "receipts_in [Sensor_verdict t ts] = []" "receipts_in [Safe_mode a b d n ts] = []"
  "receipts_in [Fsm_transition x y z w v] = []"
  by (simp_all add: receipts_in_def receipts_def List.map_filter_def o_def)

lemma docking_target_receipts: "receipts_in (ct_journal (fst (is_docking_target_in_range env c))) = receipts_in (ct_journal c)"
  by (simp add: is_docking_target_in_range_def get_trusted_station_track_def evaluate_sensor_frame_def Let_def
      record_event_def)

lemma commit_receipts:
  "receipts_in (ct_journal (snd (commit_decision now p cur d))) = receipts_in (ct_journal (de_ctrl d))"
  by (simp add: commit_decision_def fsm_event_def Let_def)

lemma entering_receipts:
  assumes "ship_state_of p \<noteq> ''SAFE_MODE''" "safe_mode_asked p c" "\<not> ae_proto_missing (ev_actuator env)"
    "ae_send (ev_actuator env) = ship_send"
  obtains rs where "map ar_action rs = stop_actions"
    "receipts_in (ct_journal (snd (process_ship_state env p c))) = receipts_in (ct_journal c) @ rs"
    "list_all (\<lambda>(r, i). sent r \<longrightarrow> at_rest (ct_ship (snd (process_ship_state env p c))) i) (zip rs stop_ids)"
proof -
  let ?c1 = "fst (is_docking_target_in_range env c)"
  obtain c' rs where e: "emergency_stop (ev_actuator env) ?c1 = (c', 0 < successes rs)" "map ar_action rs = stop_actions"
    "ct_journal c' = ct_journal ?c1 @ receipts rs"
    using emergency_stop_records [OF assms(3), of ?c1] by blast
  have c: "de_ctrl (tick_decision env p c) =
      record_event (Safe_mode ''enter'' (snd (forced_safe_mode (tick_facts env p c))) ''0''
        (max 1 (ev_safe_exit_confirmations env)) T_NO_DATA) c'"
    by (simp add: entering [OF assms(1,2)] enter_safe_mode_def stop_now_def e(1))
  show thesis
  proof (rule that [OF e(2)])
    show "receipts_in (ct_journal (snd (process_ship_state env p c))) = receipts_in (ct_journal c) @ rs"
      by (simp add: process_ship_state_eq commit_receipts c e(3) docking_target_receipts)
    have "ct_ship (snd (process_ship_state env p c)) = ct_ship c'" by (simp add: process_ship_state_eq commit_fields c)
    then show "list_all (\<lambda>(r, i). sent r \<longrightarrow> at_rest (ct_ship (snd (process_ship_state env p c))) i) (zip rs stop_ids)"
      using emergency_stop_rest [OF assms(3,4), of ?c1 rs] e by simp
  qed
qed

text \<open>
  C14. In any state but SAFE_MODE, a pending request with one of the six known reasons, a negative BIOS,
  sensor or provider hint, or a propulsion command that timed out, failed or found no channel puts the
  ship into SAFE_MODE within the tick. In it exactly five actuator commands are sent, the main drive's
  and one for each of the four thruster groups, each with a receipt; every system whose command the
  ship accepted is left with a command for zero thrust (a rejected stop leaves only its receipt). The mode is
  EMERGENCY, the hit counter zero, the request erased and the published state ERROR_STATE. A request's
  reason is recorded only when no reason of an earlier safe mode is left over. (The protobuf classes are
  present and the commands go to the ship itself.)
\<close>

theorem safe_mode_entry:
  assumes "ship_state_of p \<noteq> ''SAFE_MODE''" "safe_mode_asked p c" "\<not> ae_proto_missing (ev_actuator env)"
    and "ae_send (ev_actuator env) = ship_send"
  shows "let (p', c') = process_ship_state env p c;
             request = normalize_safe_mode_reason (ctx_get (ps_context p) ''safe_mode_request_reason'');
             left_over = normalize_safe_mode_reason (ctx_get (ps_context p) ''safe_mode_reason'')
         in ship_state_of p' = ''SAFE_MODE'' \<and> ps_state p' = 4 \<and> ct_mode c' = PM_EMERGENCY \<and>
            (\<exists>rs. map ar_action rs = [''set_main_drive_thrust'', ''fire_rcs_thruster:forward'',
                ''fire_rcs_thruster:backward'', ''fire_rcs_thruster:port'', ''fire_rcs_thruster:starboard''] \<and>
              receipts_in (ct_journal c') = receipts_in (ct_journal c) @ rs \<and>
              list_all (\<lambda>(r, i). sent r \<longrightarrow> at_rest (ct_ship c') i)
                (zip rs [''ion_drive_array'', RCS_FORWARD_ID, RCS_AFT_ID, RCS_PORT_ID, RCS_STARBOARD_ID])) \<and>
            exit_hits_of (ps_context p') = 0 \<and> ctx_get (ps_context p') ''safe_mode_request_reason'' = [] \<and>
            (request = ''UNKNOWN'' \<or>
             ctx_get (ps_context p') ''safe_mode_reason'' = (if left_over = ''UNKNOWN'' then request else left_over))"
proof -
  note d = entering [OF assms(1,2)]
  obtain p' c' where pc: "process_ship_state env p c = (p', c')" by fastforce
  have fields: "ps_context p' = dict_set (de_ctx (tick_decision env p c)) ''ship_state_name'' (de_state (tick_decision env p c))"
    "ps_state p' = map_ship_state (de_state (tick_decision env p c))" "ct_mode c' = ct_mode (de_ctrl (tick_decision env p c))"
    using pc commit_fields [of "ev_now env" p "ship_state_of p" "tick_decision env p c"]
    by (simp_all add: process_ship_state_eq)
  have ctx: "de_ctx (tick_decision env p c) =
      set_safe_mode_keys (show_int 0) (snd (forced_safe_mode (tick_facts env p c))) (tick_ctx env p c)"
    by (simp add: d enter_safe_mode_def show_zero)
  have "ship_state_of p' = ''SAFE_MODE''" using tick_state [of env p c] by (simp add: pc d enter_safe_mode_def)
  moreover have "ps_state p' = 4" by (simp add: fields d enter_safe_mode_def map_ship_state_def)
  moreover have "ct_mode c' = PM_EMERGENCY" using assms(3) by (simp add: fields d enter_safe_mode_def stop_now_mode)
  moreover obtain rs where "map ar_action rs = stop_actions"
    "receipts_in (ct_journal c') = receipts_in (ct_journal c) @ rs"
    "list_all (\<lambda>(r, i). sent r \<longrightarrow> at_rest (ct_ship c') i) (zip rs stop_ids)"
    using entering_receipts [OF assms] pc by (metis snd_conv)
  moreover have "stop_actions = [''set_main_drive_thrust'', ''fire_rcs_thruster:forward'', ''fire_rcs_thruster:backward'',
      ''fire_rcs_thruster:port'', ''fire_rcs_thruster:starboard'']"
    by (simp add: stop_actions_def stop_plan_def rcs_action_def)
  moreover have "exit_hits_of (ps_context p') = 0" unfolding fields ctx by (rule exit_hits_keys)
  moreover have "ctx_get (ps_context p') ''safe_mode_request_reason'' = []"
    "ctx_get (ps_context p') ''safe_mode_reason'' = snd (forced_safe_mode (tick_facts env p c))"
    unfolding fields ctx by (simp_all add: ctx_get_def dict_getd_def set_safe_mode_keys_get)
  moreover have "sf_request (tick_facts env p c) = ''UNKNOWN'' \<or> snd (forced_safe_mode (tick_facts env p c)) =
      (if sf_reason (tick_facts env p c) = ''UNKNOWN'' then sf_request (tick_facts env p c) else sf_reason (tick_facts env p c))"
    using forced_reason by blast
  ultimately show ?thesis unfolding pc Let_def prod.case tick_facts_simps stop_ids_def by metis
qed

definition warned_snapshot :: proto_snapshot where
  "warned_snapshot = blank_snapshot\<lparr>ps_context := [(''ship_state_name'', ''SHIP_IDLE''), (''safe_bios_ok'', ''0'')]\<rparr>"

theorem safe_mode_entry_witness:
  "let (p', c') = process_ship_state sample_env warned_snapshot (init_controller (new_ship shipped_config))
   in ship_state_of p' = ''SAFE_MODE'' \<and> ct_mode c' = PM_EMERGENCY \<and> length (receipts_in (ct_journal c')) = 5"
proof -
  let ?c = "init_controller (new_ship shipped_config)"
  have "ship_state_of warned_snapshot \<noteq> ''SAFE_MODE''"
    by (simp add: ship_state_of_def warned_snapshot_def blank_snapshot_def get_ship_state_name_def ctx_get_def dict_getd_def)
  moreover have "safe_mode_asked warned_snapshot ?c"
    by (simp add: safe_mode_asked_def warned_snapshot_def blank_snapshot_def ctx_get_def dict_getd_def parse_bool_digits)
  moreover have "\<not> ae_proto_missing (ev_actuator sample_env)" "ae_send (ev_actuator sample_env) = ship_send"
    by (simp_all add: sample_env_def)
  moreover have "receipts_in (ct_journal ?c) = []" by (simp add: init_controller_def)
  moreover have "length (xs :: actuation_result list) = 5" if "map ar_action xs = [a1, a2, a3, a4, a5]" for xs a1 a2 a3 a4 a5
    using that by (metis length_map length_Cons list.size(3) numeral_nat(2) One_nat_def Suc_numeral semiring_norm)
  ultimately show ?thesis using safe_mode_entry [of warned_snapshot ?c sample_env]
    by (auto simp: Let_def split: prod.splits)
qed

section \<open>The map of states\<close>

text \<open>
  From every state only the listed states are reached in a tick, whatever the ship, the context
  and the radar say. So SAFE_MODE releases to SHIP_IDLE only, flight is never entered from startup, an
  error or safe mode, and DOCKING_ENGAGED (like a state the machine does not know) has no way out but
  safe mode.
\<close>

theorem ship_state_map:
  "ship_state_of (fst (process_ship_state env p c)) \<in> set
     (let s = ship_state_of p
      in if s = ''SHIP_STARTUP'' then [''SHIP_IDLE'', ''SYSTEMS_ERROR'', ''SAFE_MODE'']
         else if s = ''SHIP_IDLE''
         then [s, ''SYSTEMS_ERROR'', ''FLIGHT_CRUISE'', ''FLIGHT_MANEUVERING'', ''DOCKING_APPROACH'', ''SAFE_MODE'']
         else if s = ''FLIGHT_CRUISE'' then [s, ''EMERGENCY_STOP'', ''FLIGHT_MANEUVERING'', ''SHIP_IDLE'', ''SAFE_MODE'']
         else if s = ''FLIGHT_MANEUVERING''
         then [s, ''EMERGENCY_STOP'', ''FLIGHT_CRUISE'', ''SHIP_IDLE'', ''DOCKING_APPROACH'', ''SAFE_MODE'']
         else if s = ''DOCKING_APPROACH''
         then [s, ''EMERGENCY_STOP'', ''DOCKING_ENGAGED'', ''FLIGHT_MANEUVERING'', ''SAFE_MODE'']
         else if s = ''EMERGENCY_STOP'' then [s, ''SHIP_IDLE'', ''SAFE_MODE'']
         else if s = ''SYSTEMS_ERROR'' then [s, ''SHIP_IDLE'', ''SAFE_MODE'']
         else if s = ''SAFE_MODE'' then [s, ''SHIP_IDLE'']
         else [s, ''SAFE_MODE''])"
  using tick_successor [of env p c] unfolding successors.simps Let_def .

section \<open>Docking\<close>

lemma normal_ctx: "sf_state f \<noteq> ''DOCKING_APPROACH'' \<Longrightarrow> de_ctx (normal_decision env f old m c) = m"
  unfolding normal_decision_def in_flight_def Let_def by (simp split del: if_split cong: if_cong add: if_distrib [of de_ctx])

text \<open>Outside the approach a decision writes the keys of safe mode or nothing.\<close>

lemma decision_ctx_cases:
  "sf_state f \<noteq> ''DOCKING_APPROACH'' \<Longrightarrow>
   (\<exists>h r. de_ctx (ship_decision env f old m c) = set_safe_mode_keys h r m) \<or> de_ctx (ship_decision env f old m c) = m"
  using in_safe_mode_ctx [of env f old m c] by (auto simp: ship_decision_def enter_safe_mode_def normal_ctx)

lemma docking_key_untouched:
  assumes "ship_state_of p \<noteq> ''DOCKING_APPROACH''"
  shows "dict_get (ps_context (fst (process_ship_state env p c))) ''docking_confirm_hits'' =
         dict_get (ps_context p) ''docking_confirm_hits''"
proof -
  have key: "dict_get (tick_ctx env p c) ''docking_confirm_hits'' = dict_get (ps_context p) ''docking_confirm_hits''"
    by simp
  consider h r where "de_ctx (tick_decision env p c) = set_safe_mode_keys h r (tick_ctx env p c)"
    | "de_ctx (tick_decision env p c) = tick_ctx env p c"
    using decision_ctx_cases [of "tick_facts env p c" env "ps_context p" "tick_ctx env p c" "fst (is_docking_target_in_range env c)"] assms
    unfolding tick_decision_def tick_facts_simps by blast
  then have "dict_get (de_ctx (tick_decision env p c)) ''docking_confirm_hits'' =
        dict_get (tick_ctx env p c) ''docking_confirm_hits''"
    by cases (simp_all add: set_safe_mode_keys_get)
  with key show ?thesis by (simp add: process_ship_state_eq commit_fields)
qed

text \<open>What the nearest station's track must show to count as a hit.\<close>

definition docking_frame_ok :: "ship_env \<Rightarrow> controller \<Rightarrow> bool" where
  "docking_frame_ok env c \<longleftrightarrow>
     (let t = judge_track env (get_best_station_track (ct_ship c))
      in tf_ok t \<and> opt_test (tf_data t) (\<lambda>d. fst d \<le> ev_engaged_range_m env \<and> \<bar>snd d\<bar> \<le> ev_max_abs_vr env))"

definition docking_hits_needed :: "ship_env \<Rightarrow> controller \<Rightarrow> int" where
  "docking_hits_needed env c = required_confirmations env (judge_track env (get_best_station_track (ct_ship c)))"

lemma judge_ok_data: "tf_ok (judge_track env raw) \<longleftrightarrow> tf_data (judge_track env raw) \<noteq> None"
  by (auto simp: judge_track_def judge_quality_def untrusted_def Let_def split: option.splits pyfloat.splits)

lemma docking_engaged_iff:
  "fst (snd (is_docking_engaged env n c)) \<longleftrightarrow> docking_frame_ok env c \<and> docking_hits_needed env c \<le> n + 1"
  "snd (snd (snd (is_docking_engaged env n c))) = (if docking_frame_ok env c then n + 1 else 0)"
proof -
  define t where "t = judge_track env (get_best_station_track (ct_ship c))"
  have e: "snd (is_docking_engaged env n c) = judge_docking env n t"
    by (simp add: is_docking_engaged_def get_trusted_station_track_def evaluate_sensor_frame_def t_def Let_def)
  show "fst (snd (is_docking_engaged env n c)) \<longleftrightarrow> docking_frame_ok env c \<and> docking_hits_needed env c \<le> n + 1"
    "snd (snd (snd (is_docking_engaged env n c))) = (if docking_frame_ok env c then n + 1 else 0)"
    unfolding e docking_frame_ok_def docking_hits_needed_def t_def [symmetric] Let_def judge_docking_def
    by (auto split: option.splits bool.splits)
qed

end
