(* ===== verification/Ship_Runs.thy ===== *)
theory Ship_Runs
  imports Ship_Mission
begin

text \<open>
  Runs of the ship's machine interleaved with pilot commands, hints written by the agent and new
  radar readings, and the facts that survive from one tick to the next.
\<close>

section \<open>Docking\<close>

lemma approach_decision:
  assumes "ship_state_of p = ''DOCKING_APPROACH''" "\<not> safe_mode_asked p c"
  shows "tick_decision env p c =
           from_approach env (tick_facts env p c) (ps_context p) (tick_ctx env p c) (fst (is_docking_target_in_range env c))"
  using assms by (simp add: tick_decision_def ship_decision_def forced_iff normal_decision_def)

text \<open>
  Docking is confirmed by evidence only: the machine goes from DOCKING_APPROACH to
  DOCKING_ENGAGED exactly when nothing asks for safe mode, the ship's systems are in order, the
  nearest station's track is trusted, close and slow enough, and with this tick the hits reach the
  required number (one more when the track carries no age or no quality).
\<close>

theorem docking_needs_confirmations:
  "ship_state_of p = ''DOCKING_APPROACH'' \<and>
   ship_state_of (fst (process_ship_state env p c)) = ''DOCKING_ENGAGED'' \<longleftrightarrow>
   ship_state_of p = ''DOCKING_APPROACH'' \<and> \<not> safe_mode_asked p c \<and> is_ship_systems_ok (sh_config (ct_ship c)) \<and>
   docking_frame_ok env c \<and> docking_hits_needed env c \<le> docking_hits_of (ps_context p) + 1"
proof (cases "ship_state_of p = ''DOCKING_APPROACH''")
  case st: True
  show ?thesis
  proof (cases "safe_mode_asked p c")
    case True
    with st show ?thesis by (simp add: tick_state entering enter_safe_mode_def)
  next
    case False
    let ?c1 = "fst (is_docking_target_in_range env c)"
    obtain c2 e r h where d: "is_docking_engaged env (docking_hits_of (ps_context p)) ?c1 = (c2, e, r, h)"
      by (metis prod_cases4)
    have "e \<longleftrightarrow> docking_frame_ok env c \<and> docking_hits_needed env c \<le> docking_hits_of (ps_context p) + 1"
      using docking_engaged_iff(1) [of env "docking_hits_of (ps_context p)" ?c1]
      by (simp add: d docking_frame_ok_def docking_hits_needed_def)
    with st False show ?thesis
      by (simp add: tick_state approach_decision from_approach_def d Let_def)
  qed
qed simp

text \<open>
  The hits toward docking are counted in DOCKING_APPROACH and touched nowhere else, so they
  survive a detour: entering safe mode, recovering and approaching again go on with the old count.
\<close>

theorem docking_hits_survive:
  "ship_state_of p = ''DOCKING_APPROACH'' \<or>
   docking_hits_of (ps_context (fst (process_ship_state env p c))) = docking_hits_of (ps_context p)"
  by (cases "ship_state_of p = ''DOCKING_APPROACH''") (simp_all add: docking_key_untouched docking_hits_of_def dict_getd_def)

section \<open>Facts about the actuators\<close>

lemma fire_all_inv:
  assumes step: "\<And>a p c. thruster_map a \<noteq> None \<Longrightarrow> I c \<Longrightarrow> I (fst (fire_rcs_thruster_result env a p d c))"
    and I: "I c" and plan: "list_all (\<lambda>x. thruster_map (fst x) \<noteq> None) plan"
  shows "I (fst (fire_all env d plan c n))"
  using I plan
proof (induction plan arbitrary: c n)
  case (Cons x plan)
  obtain a p where x: "x = (a, p)" by fastforce
  obtain c' ro where f: "fire_rcs_thruster_result env a p d c = (c', ro)" by fastforce
  have "I c'" using step [of a c p] Cons.prems f x by simp
  moreover have "list_all (\<lambda>x. thruster_map (fst x) \<noteq> None) plan" using Cons.prems by simp
  ultimately show ?case using Cons.IH [of c'] by (cases ro) (simp_all add: x f)
qed simp

lemma emergency_stop_inv:
  assumes drive: "\<And>c. I c \<Longrightarrow> I (fst (set_main_drive_thrust_result env 0 None c))"
    and fire: "\<And>a p c. thruster_map a \<noteq> None \<Longrightarrow> I c \<Longrightarrow> I (fst (fire_rcs_thruster_result env a p (1 / 10) c))"
    and mode: "\<And>c m. I c \<Longrightarrow> I (c\<lparr>ct_mode := m\<rparr>)" and I: "I c"
  shows "I (fst (emergency_stop env c))"
proof -
  obtain c1 ro where md: "set_main_drive_thrust_result env 0 None c = (c1, ro)" by fastforce
  with drive [OF I] have I1: "I c1" by simp
  show ?thesis
  proof (cases ro)
    case (Some r)
    let ?n = "if success_status (ar_status r) then 1 else 0 :: nat"
    obtain c2 k where f: "fire_all env (1 / 10) stop_plan c1 ?n = (c2, k)" by fastforce
    have "list_all (\<lambda>x. thruster_map (fst x) \<noteq> None) stop_plan" by (simp add: stop_plan_def)
    from fire_all_inv [of I env "1 / 10" c1 stop_plan ?n, OF fire I1 this] f have "I c2" by simp
    with mode [OF this] show ?thesis
      unfolding emergency_stop_def md prod.case Some option.case f by (cases k) simp_all
  qed (use I1 in \<open>simp add: emergency_stop_def md\<close>)
qed

definition not_executed :: "controller \<Rightarrow> bool" where
  "not_executed c \<longleftrightarrow> \<not> opt_test (ct_last c) (\<lambda>r. ar_status r = A_EXECUTED)"

lemma not_executed_mode [simp]: "not_executed (c\<lparr>ct_mode := m\<rparr>) = not_executed c"
  by (simp add: not_executed_def)

lemma perform_not_executed: "not_executed c \<Longrightarrow> not_executed (fst (perform env cmd c))"
  using perform_recorded [of env cmd c "fst (perform env cmd c)" "snd (perform env cmd c)"]
  by (auto simp: not_executed_def recorded_def split: option.splits)

lemma stop_not_executed: "not_executed c \<Longrightarrow> not_executed (stop_now env c)"
  unfolding stop_now_def
proof (rule emergency_stop_inv [where I = not_executed])
  fix c a p
  assume "not_executed c"
  then show "not_executed (fst (set_main_drive_thrust_result (ev_actuator env) 0 None c))"
    "not_executed (fst (fire_rcs_thruster_result (ev_actuator env) a p (1 / 10) c))"
    using perform_not_executed [of c "ev_actuator env" "Main_drive 0 None"]
      perform_not_executed [of c "ev_actuator env" "Fire_rcs a p (1 / 10)"] by simp_all
qed simp_all

lemma parse_status_names:
  "parse_actuation_status ''accepted'' = Some A_ACCEPTED" "parse_actuation_status ''executed'' = Some A_EXECUTED"
  "parse_actuation_status ''rejected'' = Some A_REJECTED" "parse_actuation_status ''failed'' = Some A_FAILED"
  "parse_actuation_status ''timeout'' = Some A_TIMEOUT" "parse_actuation_status ''unavailable'' = Some A_UNAVAILABLE"
  by code_simp+

lemma parse_status_value [simp]: "parse_actuation_status (actuation_status_value st) = Some st"
  by (cases st) (simp_all only: actuation_status_value.simps parse_status_names)

lemma parse_status_empty: "parse_actuation_status [] = None"
  by code_simp

section \<open>The context keeps the last actuation\<close>

lemma serialize_get:
  "ctx_get (serialize_last_actuation a m) ''last_actuation_command_id'' = la_command_id a"
  "ctx_get (serialize_last_actuation a m) ''last_actuation_status'' = actuation_status_value (la_status a)"
  "ctx_get (serialize_last_actuation a m) ''last_actuation_timestamp'' = fmt6 (la_timestamp a)"
  "ctx_get (serialize_last_actuation a m) ''last_actuation_reason'' = la_reason a"
  "ctx_get (serialize_last_actuation a m) ''last_actuation_is_fallback'' = (if la_is_fallback a then ''1'' else ''0'')"
  "ctx_get (serialize_last_actuation a m) ''last_actuation_action'' = la_action a"
  by (simp_all add: serialize_last_actuation_def)

lemma truthy_digits: "is_truthy ''1''" "\<not> is_truthy ''0''"
  by code_simp+

lemma parse_special: "py_float ''inf'' = Some PosInf" "py_float ''-inf'' = Some NegInf" "py_float ''nan'' = Some NaN"
  by code_simp+

text \<open>Equal floats, or finite ones that differ by at most half a microsecond.\<close>

definition same_time :: "pyfloat \<Rightarrow> pyfloat \<Rightarrow> bool" where
  "same_time x y \<longleftrightarrow> (case (x, y) of (Fin a, Fin b) \<Rightarrow> \<bar>a - b\<bar> \<le> 1 / 2 / 10 ^ 6 | _ \<Rightarrow> x = y)"

lemma fmt6_parse: "same_time (parse_float_or (Fin 0) (fmt6 x)) x"
proof (cases x)
  case (Fin r)
  obtain y where "py_float (fmt_fixed 6 r) = Some (Fin y)" "\<bar>y - r\<bar> \<le> 1 / 2 / 10 ^ 6"
    using fmt_fixed_roundtrip [of 6 r] by auto
  then show ?thesis by (simp add: Fin parse_float_or_def opt_or_def same_time_def)
qed (simp_all add: parse_float_or_def opt_or_def same_time_def parse_special)

text \<open>
  The last actuation survives the snapshot: what the machine writes into the context it reads
  back, every text exactly and the time to half a microsecond, so a restarted controller decides on
  the same fact.
\<close>

theorem last_actuation_roundtrip:
  "\<exists>b. deserialize_last_actuation (serialize_last_actuation a m) = Some b \<and>
       b\<lparr>la_timestamp := la_timestamp a\<rparr> = a \<and> same_time (la_timestamp b) (la_timestamp a)"
proof -
  let ?b = "a\<lparr>la_timestamp := parse_float_or (Fin 0) (fmt6 (la_timestamp a))\<rparr>"
  have "is_truthy (if la_is_fallback a then ''1'' else ''0'') = la_is_fallback a" using truthy_digits by simp
  then have "deserialize_last_actuation (serialize_last_actuation a m) = Some ?b"
    by (simp add: deserialize_last_actuation_def serialize_get)
  then show ?thesis using fmt6_parse [of "la_timestamp a"] by (intro exI [of _ ?b]) simp
qed

section \<open>Cruise is out of reach\<close>

text \<open>A tick, a command of the pilot, a hint of the agent, new radar readings.\<close>

datatype mission_event =
    Tick ship_env
  | Pilot actuator_env pilot_command
  | Hint string string
  | Sense "(string, reading) dict"

definition hint_keys :: "string list" where
  "hint_keys = [''safe_mode_request_reason'', ''safe_bios_ok'', ''safe_sensors_ok'', ''safe_provider_ok'']"

fun mission_step :: "proto_snapshot \<times> controller \<Rightarrow> mission_event \<Rightarrow> proto_snapshot \<times> controller" where
  "mission_step (p, c) (Tick env) = process_ship_state env p c"
| "mission_step (p, c) (Pilot env cmd) = (p, fst (perform env cmd c))"
| "mission_step (p, c) (Hint k v) =
     (if k \<in> set hint_keys then (p\<lparr>ps_context := dict_set (ps_context p) k v\<rparr>, c) else (p, c))"
| "mission_step (p, c) (Sense rs) = (p, c\<lparr>ct_ship := (ct_ship c)\<lparr>sh_readings := rs\<rparr>\<rparr>)"

definition mission :: "ship_config \<Rightarrow> mission_event list \<Rightarrow> proto_snapshot \<times> controller" where
  "mission cfg es = foldl mission_step (blank_snapshot, init_controller (new_ship cfg)) es"

definition status_key :: string where "status_key = ''last_actuation_status''"

definition grounded :: "proto_snapshot \<times> controller \<Rightarrow> bool" where
  "grounded pc \<longleftrightarrow>
     ship_state_of (fst pc) \<noteq> ''FLIGHT_CRUISE'' \<and> not_executed (snd pc) \<and>
     parse_actuation_status (ctx_get (ps_context (fst pc)) status_key) \<noteq> Some A_EXECUTED"

definition fact_pending :: "last_actuation option \<Rightarrow> bool" where
  "fact_pending la \<longleftrightarrow> \<not> opt_test la (\<lambda>a. la_status a = A_EXECUTED)"

lemma gates_closed: "fact_pending la \<Longrightarrow> \<not> fst (drive_gate la) \<and> \<not> fst (rcs_gate la)"
  by (auto simp: fact_pending_def drive_gate_def rcs_gate_def actuation_gate_def split: option.splits actuation_status.splits)

lemma grounded_fact: "grounded (p, c) \<Longrightarrow> fact_pending (sf_last (tick_facts env p c))"
  by (auto simp: grounded_def not_executed_def fact_pending_def get_last_actuation_def fact_of_result_def status_key_def
      deserialize_last_actuation_def split: option.splits)

lemma grounded_ctx:
  assumes "grounded (p, c)"
  shows "parse_actuation_status (ctx_get (tick_ctx env p c) status_key) \<noteq> Some A_EXECUTED"
proof (cases "sf_last (tick_facts env p c)")
  case None
  then show ?thesis using assms by (simp add: tick_ctx_def grounded_def del: tick_last)
next
  case (Some a)
  then have "la_status a \<noteq> A_EXECUTED" using grounded_fact [OF assms, of env] by (simp add: fact_pending_def del: tick_last)
  with Some show ?thesis by (simp add: tick_ctx_def serialize_get status_key_def del: tick_last)
qed

text \<open>A decision writes no key of the actuation.\<close>

lemma status_key_other:
  "''safe_mode_exit_hits'' \<noteq> status_key" "''safe_mode_reason'' \<noteq> status_key" "''safe_mode_request_reason'' \<noteq> status_key"
  "''docking_confirm_hits'' \<noteq> status_key" "''ship_state_name'' \<noteq> status_key" "status_key \<notin> set hint_keys"
  by (simp_all add: status_key_def hint_keys_def)

lemma approach_ctx: "ctx_get (de_ctx (from_approach env f old m c)) status_key = ctx_get m status_key"
proof -
  obtain c' e r h where "is_docking_engaged env (docking_hits_of old) c = (c', e, r, h)" by (metis prod_cases4)
  then show ?thesis by (simp add: from_approach_def Let_def status_key_other)
qed

lemma decision_ctx: "ctx_get (de_ctx (ship_decision env f old m c)) status_key = ctx_get m status_key"
proof (cases "sf_state f = ''DOCKING_APPROACH''")
  case True
  then show ?thesis
    by (simp add: ship_decision_def enter_safe_mode_def normal_decision_def approach_ctx set_safe_mode_keys_def status_key_other)
next
  case False
  from decision_ctx_cases [OF this, of env old m c] show ?thesis
    by (auto simp: set_safe_mode_keys_def status_key_other)
qed

lemma approach_last: "not_executed c \<Longrightarrow> not_executed (de_ctrl (from_approach env f old m c))"
proof -
  assume c: "not_executed c"
  obtain c' e r h where d: "is_docking_engaged env (docking_hits_of old) c = (c', e, r, h)" by (metis prod_cases4)
  then have "ct_last c' = ct_last c" using docking_engaged_fields(3) [of env "docking_hits_of old" c] by simp
  with c have "not_executed c'" by (simp add: not_executed_def)
  with c d show ?thesis by (simp add: from_approach_def Let_def stop_not_executed)
qed

lemma decision_last: "not_executed c \<Longrightarrow> not_executed (de_ctrl (ship_decision env f old m c))"
  using stop_not_executed [of c env] approach_last [of c env f old m]
  by (simp add: ship_decision_def enter_safe_mode_def normal_decision_def in_flight_def not_executed_def Let_def)

lemma decision_not_cruise:
  assumes "fact_pending (sf_last f)" "sf_state f \<noteq> ''FLIGHT_CRUISE''"
  shows "de_state (ship_decision env f old m c) \<noteq> ''FLIGHT_CRUISE''"
  using assms gates_closed [OF assms(1)] in_safe_mode_states [of env f old m c] from_approach_states [of env f old m c]
  by (auto simp: ship_decision_def enter_safe_mode_def normal_decision_def in_flight_def from_startup_def from_idle_def
      from_maneuvering_def fst_gated Let_def)

lemma grounded_tick:
  assumes "grounded (p, c)"
  shows "grounded (process_ship_state env p c)"
proof -
  let ?c1 = "fst (is_docking_target_in_range env c)"
  have c1: "not_executed ?c1" using assms by (simp add: grounded_def not_executed_def)
  have "ship_state_of (fst (process_ship_state env p c)) \<noteq> ''FLIGHT_CRUISE''"
    unfolding tick_state tick_decision_def
    by (rule decision_not_cruise [OF grounded_fact [OF assms]]) (use assms in \<open>simp add: grounded_def\<close>)
  moreover have "not_executed (snd (process_ship_state env p c))"
    using decision_last [OF c1, of env "tick_facts env p c" "ps_context p" "tick_ctx env p c"]
    by (simp add: process_ship_state_eq not_executed_def commit_fields tick_decision_def del: tick_last)
  moreover have "ctx_get (ps_context (fst (process_ship_state env p c))) status_key = ctx_get (tick_ctx env p c) status_key"
    by (simp add: process_ship_state_eq commit_fields tick_decision_def decision_ctx status_key_other)
  ultimately show ?thesis
    using grounded_ctx [OF assms, of env] by (simp add: grounded_def)
qed

lemma grounded_step: "grounded pc \<Longrightarrow> grounded (mission_step pc e)"
proof -
  assume g: "grounded pc"
  obtain p c where pc: "pc = (p, c)" by fastforce
  show ?thesis
  proof (cases e)
    case (Tick env)
    then show ?thesis using grounded_tick g pc by simp
  next
    case (Pilot env cmd)
    then show ?thesis using g perform_not_executed [of c env cmd] by (simp add: pc grounded_def)
  next
    case (Hint k v)
    have "k \<in> set hint_keys \<Longrightarrow> k \<noteq> status_key \<and> k \<noteq> ''ship_state_name''"
      by (auto simp: hint_keys_def status_key_def)
    then show ?thesis using g Hint by (simp add: pc grounded_def ship_state_of_def get_ship_state_name_def)
  next
    case (Sense rs)
    then show ?thesis using g by (simp add: pc grounded_def not_executed_def)
  qed
qed

text \<open>
  C16. Cruise flight is never reached. In no run from a new ship, whatever the pilot commands, the
  agent hints and the radar shows, is the machine in FLIGHT_CRUISE: its gate asks for an EXECUTED fact,
  and the controller, the only source of such facts, never produces one.
\<close>

theorem cruise_unreachable: "ship_state_of (fst (mission cfg es)) \<noteq> ''FLIGHT_CRUISE''"
proof -
  have "grounded (mission cfg es)"
    unfolding mission_def
  proof (rule foldl_inv)
    show "grounded (blank_snapshot, init_controller (new_ship cfg))"
      by (simp add: grounded_def blank_snapshot_def init_controller_def not_executed_def ship_state_of_def
          get_ship_state_name_def ctx_get_def dict_getd_def parse_status_empty)
  qed (rule grounded_step)
  then show ?thesis by (simp add: grounded_def)
qed

section \<open>A dead actuator channel\<close>

definition channel_dead :: "actuator_env \<Rightarrow> controller \<Rightarrow> bool" where
  "channel_dead env c \<longleftrightarrow>
     is_minimal (sh_config (ct_ship c)) \<and> \<not> ae_allow_fallback env \<and> \<not> ae_proto_missing env"

definition propulsion_failed :: "controller \<Rightarrow> bool" where
  "propulsion_failed c \<longleftrightarrow> actuator_failed (get_last_actuation c)"

lemma dispatch_dead:
  "channel_dead env c \<Longrightarrow> dispatch_command env cmd action c = (c', r) \<Longrightarrow>
   ct_last c' = Some r \<and> ct_ship c' = ct_ship c \<and> ar_status r = A_UNAVAILABLE \<and> ar_action r = action"
  by (auto simp: channel_dead_def dispatch_command_def build_actuation_result_def record_event_def Let_def)

lemma failed_result:
  "ct_last c = Some r \<Longrightarrow> ar_status r = A_UNAVAILABLE \<Longrightarrow>
   starts_with (ar_action r) ''set_main_drive_thrust'' \<or> starts_with (ar_action r) ''fire_rcs_thruster:'' \<Longrightarrow>
   propulsion_failed c"
  by (simp add: propulsion_failed_def actuator_failed_def get_last_actuation_def fact_of_result_def)

definition dead_state :: "actuator_env \<Rightarrow> controller \<Rightarrow> bool" where
  "dead_state env c \<longleftrightarrow> channel_dead env c \<and> propulsion_failed c"

lemma dead_state_fields [simp]:
  "dead_state env (c\<lparr>ct_mode := m\<rparr>) = dead_state env c"
  by (simp add: dead_state_def channel_dead_def propulsion_failed_def get_last_actuation_def)

lemma on_success_dead [simp]: "dead_state env (on_success r m c) = dead_state env c"
  by (simp add: on_success_def)

lemma prefix_self: "starts_with (p @ x) p"
  by (simp add: starts_with_def)

lemma dead_dispatch:
  assumes "channel_dead env c" "dispatch_command env cmd action c = (c', r)"
    "starts_with action ''set_main_drive_thrust'' \<or> starts_with action ''fire_rcs_thruster:''"
  shows "dead_state env c'"
  using dispatch_dead [OF assms(1,2)] assms failed_result [of c' r] by (simp add: dead_state_def channel_dead_def)

lemma dead_drive: "dead_state env c \<Longrightarrow> dead_state env (fst (set_main_drive_thrust_result env p d c))"
  using main_drive_cases [of env p d c "fst (set_main_drive_thrust_result env p d c)"
      "snd (set_main_drive_thrust_result env p d c)"]
    prefix_self [of "''set_main_drive_thrust''" "[]"]
  by (auto simp: dead_state_def [of env c] intro: dead_dispatch)

lemma dead_fire:
  assumes "thruster_map a \<noteq> None" "dead_state env c"
  shows "dead_state env (fst (fire_rcs_thruster_result env a p d c))"
proof -
  obtain c' ro where f: "fire_rcs_thruster_result env a p d c = (c', ro)" by fastforce
  have ch: "channel_dead env c" using assms(2) by (simp add: dead_state_def)
  from fire_rcs_cases [OF f] have "dead_state env c'"
  proof (elim disjE exE conjE)
    fix tid t c1 r
    assume dr: "dispatch_command env (thrust_command tid (clamp_percent p) t)
        (''fire_rcs_thruster:'' @ thruster_axis_value a) c = (c1, r)"
      and c': "c' = on_success r PM_MANEUVERING c1"
    have "dead_state env c1" by (rule dead_dispatch [OF ch dr]) (rule disjI2, rule prefix_self)
    with c' show ?thesis by simp
  qed (use assms in simp_all)
  with f show ?thesis by simp
qed

lemma dead_stop: "dead_state (ev_actuator env) c \<Longrightarrow> dead_state (ev_actuator env) (stop_now env c)"
  unfolding stop_now_def by (rule emergency_stop_inv) (simp_all add: dead_drive dead_fire)

lemma dead_asks: "dead_state env c \<Longrightarrow> safe_mode_asked p c"
  by (auto simp: dead_state_def propulsion_failed_def safe_mode_asked_def actuator_failed_def split: option.splits)

lemma dead_state_cong:
  "ct_ship c' = ct_ship c \<Longrightarrow> ct_last c' = ct_last c \<Longrightarrow> dead_state env c' = dead_state env c"
  by (simp add: dead_state_def channel_dead_def propulsion_failed_def get_last_actuation_def)

lemma dead_tick:
  assumes dead: "dead_state (ev_actuator env) c"
  shows "dead_state (ev_actuator env) (snd (process_ship_state env p c)) \<and>
         (ship_state_of p = ''SAFE_MODE'' \<or> ship_state_of (fst (process_ship_state env p c)) = ''SAFE_MODE'')"
proof (cases "ship_state_of p = ''SAFE_MODE''")
  case True
  with dead tick_keeps_ship [OF True, of env c] dead_state_cong [of "snd (process_ship_state env p c)" c "ev_actuator env"]
  show ?thesis by simp
next
  case False
  let ?c1 = "fst (is_docking_target_in_range env c)"
  note d = entering [OF False dead_asks [OF dead], of env]
  have "dead_state (ev_actuator env) ?c1" using dead dead_state_cong [of ?c1 c "ev_actuator env"] by simp
  note stopped = dead_stop [OF this]
  have "ct_ship (snd (process_ship_state env p c)) = ct_ship (stop_now env ?c1)"
    "ct_last (snd (process_ship_state env p c)) = ct_last (stop_now env ?c1)"
    by (simp_all add: process_ship_state_eq commit_fields d enter_safe_mode_def)
  from dead_state_cong [OF this] stopped have "dead_state (ev_actuator env) (snd (process_ship_state env p c))" by blast
  moreover have "ship_state_of (fst (process_ship_state env p c)) = ''SAFE_MODE''"
    by (simp add: tick_state d enter_safe_mode_def)
  ultimately show ?thesis by blast
qed

text \<open>
  A command of the main drive or of a thruster group: it is sent to the actuator channel, or raises and
  changes nothing; it is certainly sent when its timeout fits the field.
\<close>

definition propulsion_command :: "pilot_command \<Rightarrow> bool" where
  "propulsion_command cmd =
     (case cmd of Main_drive _ _ \<Rightarrow> True | Fire_rcs a _ _ \<Rightarrow> thruster_map a \<noteq> None | _ \<Rightarrow> False)"

definition timeout_fits :: "pilot_command \<Rightarrow> bool" where
  "timeout_fits cmd =
     (case cmd of
        Main_drive _ None \<Rightarrow> True
      | Main_drive _ (Some d) \<Rightarrow> int32_ok (trunc (d * 1000))
      | Fire_rcs _ _ d \<Rightarrow> int32_ok (trunc (d * 1000))
      | _ \<Rightarrow> True)"

definition no_channel :: "actuator_env \<Rightarrow> bool" where
  "no_channel env \<longleftrightarrow> \<not> ae_allow_fallback env \<and> \<not> ae_proto_missing env"

definition dead_event :: "mission_event \<Rightarrow> bool" where
  "dead_event e =
     (case e of
        Tick env \<Rightarrow> no_channel (ev_actuator env)
      | Pilot env cmd \<Rightarrow> no_channel env \<and> propulsion_command cmd
      | _ \<Rightarrow> True)"

definition stranded :: "controller \<Rightarrow> bool" where
  "stranded c \<longleftrightarrow> is_minimal (sh_config (ct_ship c)) \<and> propulsion_failed c"

lemma stranded_dead: "no_channel env \<Longrightarrow> stranded c \<longleftrightarrow> dead_state env c"
  by (auto simp: stranded_def dead_state_def channel_dead_def no_channel_def)

lemma dead_command_strands:
  assumes "is_minimal (sh_config (ct_ship c))" "no_channel env" "propulsion_command cmd" "timeout_fits cmd"
  shows "stranded (fst (perform env cmd c))"
proof -
  have ch: "channel_dead env c" using assms(1,2) by (simp add: channel_dead_def no_channel_def)
  have env: "\<not> ae_proto_missing env" using assms(2) by (simp add: no_channel_def)
  have "dead_state env (fst (perform env cmd c))"
  proof (cases cmd)
    case (Main_drive p d)
    let ?t = "case d of None \<Rightarrow> 0 | Some d \<Rightarrow> if d = 0 then 0 else trunc (d * 1000)"
    obtain c1 r where dr: "dispatch_command env (thrust_command ''ion_drive_array'' (clamp_percent p) ?t)
        ''set_main_drive_thrust'' c = (c1, r)" by fastforce
    have "int32_ok ?t" using assms(4) Main_drive by (simp add: timeout_fits_def int32_ok_def split: option.splits)
    then have "fst (perform env cmd c) = on_success r (thrust_mode (clamp_percent p)) c1"
      using dr env by (simp add: Main_drive set_main_drive_thrust_result_def Let_def)
    moreover have "dead_state env c1"
      by (rule dead_dispatch [OF ch dr]) (use prefix_self [of "''set_main_drive_thrust''" "[]"] in simp)
    ultimately show ?thesis by simp
  next
    case (Fire_rcs a p d)
    then obtain tid where tid: "thruster_map a = Some tid" using assms(3) by (auto simp: propulsion_command_def)
    obtain c1 r where dr: "dispatch_command env (thrust_command tid (clamp_percent p) (trunc (d * 1000)))
        (''fire_rcs_thruster:'' @ thruster_axis_value a) c = (c1, r)" by fastforce
    have "fst (perform env cmd c) = on_success r PM_MANEUVERING c1"
      using dr env tid assms(4) by (simp add: Fire_rcs fire_rcs_thruster_result_def Let_def timeout_fits_def)
    moreover have "dead_state env c1" by (rule dead_dispatch [OF ch dr]) (rule disjI2, rule prefix_self)
    ultimately show ?thesis by simp
  qed (use assms(3) in \<open>simp_all add: propulsion_command_def\<close>)
  then show ?thesis using stranded_dead [OF assms(2)] by blast
qed

lemma stranded_step:
  assumes "stranded (snd pc)" "dead_event e"
  shows "stranded (snd (mission_step pc e))"
proof (cases e)
  case (Tick env)
  then have "no_channel (ev_actuator env)" using assms(2) by (simp add: dead_event_def)
  with assms(1) dead_tick [of env "snd pc" "fst pc"] show ?thesis
    by (cases pc) (simp add: Tick stranded_dead)
next
  case (Pilot env cmd)
  then have env: "no_channel env" and cmd: "propulsion_command cmd" using assms(2) by (simp_all add: dead_event_def)
  have "dead_state env (snd pc)" using assms(1) stranded_dead [OF env] by blast
  then have "dead_state env (fst (perform env cmd (snd pc)))"
    using cmd by (cases cmd) (simp_all add: propulsion_command_def dead_drive dead_fire)
  then show ?thesis using stranded_dead [OF env] by (cases pc) (simp add: Pilot)
next
  case (Hint k v)
  then show ?thesis using assms(1) by (cases pc) simp
next
  case (Sense rs)
  then show ?thesis using assms(1)
    by (cases pc) (simp add: stranded_def propulsion_failed_def get_last_actuation_def is_minimal_def)
qed

text \<open>
  C17. A dead actuator channel keeps the ship in safe mode once it was used. On a ship in minimal mode without
  simulated actuation, in any state: after one main drive or thruster command, and then any run of ticks, of
  further such commands, of hints and of radar readings, each tick starts in SAFE_MODE or ends in it. The
  emergency stop executed on entry fails too, and that failure forces safe mode right after the next
  release. (A sensor command or one for an axis without thrusters would put another last actuation in
  its place.)
\<close>

theorem dead_channel_keeps_safe_mode:
  assumes "is_minimal (sh_config (ct_ship c))" "no_channel aenv" "propulsion_command cmd" "timeout_fits cmd"
    and "list_all dead_event es" "no_channel (ev_actuator env)"
  shows "let (p', c') = foldl mission_step (p, c) (Pilot aenv cmd # es)
         in ship_state_of p' = ''SAFE_MODE'' \<or> ship_state_of (fst (process_ship_state env p' c')) = ''SAFE_MODE''"
proof -
  have "stranded (snd (foldl mission_step (p, fst (perform aenv cmd c)) es))"
    by (rule foldl_inv [where P = "\<lambda>pc. stranded (snd pc)"])
      (use assms(5) stranded_step dead_command_strands [OF assms(1-4)] in \<open>auto simp: list_all_iff\<close>)
  then have "dead_state (ev_actuator env) (snd (foldl mission_step (p, fst (perform aenv cmd c)) es))"
    using stranded_dead [OF assms(6)] by blast
  from dead_tick [OF this, of "fst (foldl mission_step (p, fst (perform aenv cmd c)) es)"] show ?thesis
    by (cases "foldl mission_step (p, fst (perform aenv cmd c)) es") (simp add: disj_commute)
qed

section \<open>BIOS and the machine\<close>

lemma ratio_pos: "1 / 2 \<le> ratio_or_zero x m \<or> 2 / 10 \<le> ratio_or_zero x m \<Longrightarrow> 0 < x"
  by (auto simp: ratio_or_zero_def field_simps split: if_splits)

text \<open>
  A BIOS report with the go and an active core is enough for the state machine: the thresholds
  of the diagnoses are stricter than those of its own check of the ship's systems.
\<close>

theorem bios_go_covers_systems:
  assumes "br_all_systems_go (build_bios_report now c b)" "co_core_status (get_computing_status c) = ''active''"
  shows "is_ship_systems_ok c"
proof -
  have empty: "diagnose_hull c = []" "diagnose_power_systems c = []" "diagnose_life_support c = []"
    using assms(1) by (simp_all add: build_report flight_issues_def)
  have "hu_integrity (get_hull_status c) \<ge> 90" using empty(1) by (simp add: diagnose_hull_def Let_def)
  moreover have "0 < po_output (get_power_status c)" "0 < po_battery_charge (get_power_status c)"
    using empty(2) ratio_pos [of "po_output (get_power_status c)" "po_max_output (get_power_status c)"]
      ratio_pos [of "po_battery_charge (get_power_status c)" "po_battery_capacity (get_power_status c)"]
    by (simp_all add: diagnose_power_systems_def Let_def)
  ultimately show ?thesis
    using empty(3) assms(2) by (simp add: is_ship_systems_ok_def diagnose_life_support_def Let_def)
qed

section \<open>Witnesses\<close>

theorem dead_channel_keeps_safe_mode_witness:
  "let c = init_controller (new_ship (shipped_config\<lparr>sc_mode := Some ''minimal''\<rparr>));
       (p', c') = foldl mission_step (blank_snapshot, c)
         [Pilot (ev_actuator sample_env) (Main_drive 50 None), Tick sample_env, Hint ''safe_bios_ok'' ''1'', Tick sample_env]
   in ship_state_of p' = ''SAFE_MODE'' \<or> ship_state_of (fst (process_ship_state sample_env p' c')) = ''SAFE_MODE''"
proof -
  have "no_channel (ev_actuator sample_env)" by (simp add: no_channel_def sample_env_def)
  then show ?thesis
    unfolding Let_def
    by (intro dead_channel_keeps_safe_mode [unfolded Let_def])
      (simp_all add: init_controller_def new_ship_def is_minimal_def propulsion_command_def timeout_fits_def dead_event_def)
qed

lemmas config_simps = Let_def shipped_config_def shipped_propulsion_def shipped_sensors_def cfg_get_def opt_or_def dict_getd_def

lemma shipped_hull: "diagnose_hull shipped_config = []"
  by (simp add: diagnose_hull_def get_hull_status_def compartment_issues_def config_simps)

lemma shipped_power: "diagnose_power_systems shipped_config = []"
  by (simp add: diagnose_power_systems_def get_power_status_def ratio_or_zero_def config_simps)

lemma shipped_drive: "diagnose_propulsion shipped_config = []"
  by (simp add: diagnose_propulsion_def get_propulsion_status_def main_drive_def thruster_list_def thruster_issues_def
      rcs_row_def config_simps)

lemma shipped_life: "diagnose_life_support shipped_config = []"
  by (simp add: diagnose_life_support_def get_life_support_status_def config_simps)

theorem bios_go_covers_systems_witness: "is_ship_systems_ok shipped_config"
proof (rule bios_go_covers_systems [of 0 shipped_config])
  show "br_all_systems_go (build_bios_report 0 shipped_config
      \<lparr>br_timestamp = None, br_firmware = [], br_post_results = [], br_all_systems_go = False, br_health_score = 0,
       br_uptime_sec = 0\<rparr>)"
    by (simp add: build_report flight_issues_def shipped_hull shipped_power shipped_drive shipped_life)
  show "co_core_status (get_computing_status shipped_config) = ''active''"
    by (simp add: get_computing_status_def config_simps)
qed

end
