(* ===== verification/Radar_Fusion.thy ===== *)
theory Radar_Fusion
  imports Py_Numbers "HOL-Library.Multiset" "HOL-Library.Product_Lexorder" "HOL-Library.List_Lexorder"
begin

text \<open>
  Observations of several radar sources and their fusion
  (\<open>src/qiki/services/q_core_agent/core/radar_ingestion.py\<close> and \<open>radar_fusion.py\<close>):
  validation and latest track per source, association of tracks of different sources around a seed,
  the weighted average of a cluster, and the store that confirms, keeps and drops fused tracks.
  SHA-1 is an argument. Error radius, covariance, metadata for display and the unused field
  \<open>first_seen_t\<close> of a pending candidate are left out.
\<close>

section \<open>Observations\<close>

record observation =
  ob_source :: string
  ob_t :: pyfloat
  ob_key :: string
  ob_pos :: "pyfloat list"
  ob_vel :: "pyfloat list option"
  ob_quality :: pyfloat

type_synonym point2 = "real \<times> real"

record source_track =
  so_source :: string
  so_id :: string
  so_t :: real
  so_pos :: point2
  so_vel :: "point2 option"
  so_quality :: real
  so_trust :: real

fun clamp_quality :: "pyfloat \<Rightarrow> real" where
  "clamp_quality (Fin x) = max 0 (min 1 x)"
| "clamp_quality y = 0"

definition validate_observation :: "observation \<Rightarrow> bool \<times> string" where
  "validate_observation ob =
     (if py_strip (ob_source ob) = [] then (False, ''MISSING_SOURCE_ID'')
      else if py_strip (ob_key ob) = [] then (False, ''MISSING_TRACK_KEY'')
      else if \<not> isfinite (ob_t ob) then (False, ''INVALID_TIMESTAMP'')
      else if length (ob_pos ob) \<noteq> 2 then (False, ''MISSING_POSITION'')
      else if \<not> list_all isfinite (ob_pos ob) then (False, ''INVALID_POSITION'')
      else if opt_test (ob_vel ob) (\<lambda>v. length v \<noteq> 2 \<or> \<not> list_all isfinite v) then (False, ''INVALID_VELOCITY'')
      else (True, ''OK''))"

text \<open>Of a finite float, and of a list of two of them.\<close>

fun fin_of :: "pyfloat \<Rightarrow> real" where
  "fin_of (Fin x) = x"
| "fin_of y = 0"

definition pair_of :: "pyfloat list \<Rightarrow> point2" where
  "pair_of v = (fin_of (hd v), fin_of (hd (tl v)))"

definition observation_to_source_track :: "observation \<Rightarrow> source_track" where
  "observation_to_source_track ob =
     \<lparr>so_source = ob_source ob, so_id = ob_key ob, so_t = fin_of (ob_t ob), so_pos = pair_of (ob_pos ob),
      so_vel = map_option pair_of (ob_vel ob), so_quality = clamp_quality (ob_quality ob),
      so_trust = clamp_quality (ob_quality ob)\<rparr>"

datatype ingest_event = Dropped string string pyfloat string | Observation_rx source_track | Track_updated source_track

type_synonym buckets = "(string, (string, source_track) dict) dict"

text \<open>\<open>tracks_by_source.setdefault(source, {})[track_id] = track\<close>\<close>

definition put_track :: "source_track \<Rightarrow> buckets \<Rightarrow> buckets" where
  "put_track t b = dict_set b (so_source t) (dict_set (dict_getd b (so_source t) []) (so_id t) t)"

definition ingest_step :: "bool \<Rightarrow> bool \<Rightarrow> buckets \<times> ingest_event list \<Rightarrow> observation \<Rightarrow> buckets \<times> ingest_event list" where
  "ingest_step has_store emit_rx s ob =
     (let (ok, reason) = validate_observation ob; t = observation_to_source_track ob
      in if \<not> ok
         then (fst s, snd s @ (if has_store then [Dropped (ob_source ob) (ob_key ob) (ob_t ob) reason] else []))
         else (put_track t (fst s),
               snd s @ (if has_store \<and> emit_rx then [Observation_rx t] else []) @
                       (if has_store then [Track_updated t] else [])))"

definition ingest_buckets :: "bool \<Rightarrow> bool \<Rightarrow> observation list \<Rightarrow> buckets \<times> ingest_event list" where
  "ingest_buckets has_store emit_rx obs = foldl (ingest_step has_store emit_rx) ([], []) obs"

type_synonym tracks_by_source = "(string, source_track list) dict"

definition ingest_observations ::
  "bool \<Rightarrow> bool \<Rightarrow> observation list \<Rightarrow> tracks_by_source \<times> ingest_event list" where
  "ingest_observations has_store emit_rx obs =
     (let (b, es) = ingest_buckets has_store emit_rx obs in (map (\<lambda>(s, m). (s, dict_values m)) b, es))"

section \<open>Configuration\<close>

record fusion_config =
  fc_enabled :: bool
  fc_gate_dist :: real
  fc_gate_vel :: real
  fc_min_support :: int
  fc_max_age :: real
  fc_conflict_dist :: real
  fc_confirm_frames :: int
  fc_cooldown :: real

definition fusion_truthy :: "string \<Rightarrow> bool" where
  "fusion_truthy raw \<longleftrightarrow> py_lower (py_strip raw) \<in> {''1'', ''true'', ''yes'', ''on''}"

definition safe_float :: "string \<Rightarrow> real \<Rightarrow> real" where
  "safe_float raw d = (case py_float raw of Some (Fin x) \<Rightarrow> x | _ \<Rightarrow> d)"

definition safe_int :: "string \<Rightarrow> int \<Rightarrow> int" where
  "safe_int raw d = (case py_int raw of Some n \<Rightarrow> n | None \<Rightarrow> d)"

text \<open>\<open>os.getenv\<close> with a default: an unset variable yields the default's own value.\<close>

definition env_float :: "(string \<Rightarrow> string option) \<Rightarrow> string \<Rightarrow> real \<Rightarrow> real" where
  "env_float env name d = (case env name of None \<Rightarrow> d | Some raw \<Rightarrow> safe_float raw d)"

definition env_int :: "(string \<Rightarrow> string option) \<Rightarrow> string \<Rightarrow> int \<Rightarrow> int" where
  "env_int env name d = (case env name of None \<Rightarrow> d | Some raw \<Rightarrow> safe_int raw d)"

definition fusion_config_from_env :: "(string \<Rightarrow> string option) \<Rightarrow> fusion_config" where
  "fusion_config_from_env env =
     (let gate_dist = max 0 (env_float env ''RADAR_FUSION_GATE_DIST_M'' 50)
      in \<lparr>fc_enabled = (case env ''RADAR_FUSION_ENABLED'' of None \<Rightarrow> False | Some raw \<Rightarrow> fusion_truthy raw),
          fc_gate_dist = gate_dist,
          fc_gate_vel = max 0 (env_float env ''RADAR_FUSION_GATE_VEL_MPS'' 20),
          fc_min_support = max 1 (env_int env ''RADAR_FUSION_MIN_SUPPORT'' 2),
          fc_max_age = max 0 (env_float env ''RADAR_FUSION_MAX_AGE_S'' 2),
          fc_conflict_dist = max 0 (env_float env ''RADAR_FUSION_CONFLICT_DIST_M'' (gate_dist * 2)),
          fc_confirm_frames = max 1 (env_int env ''RADAR_FUSION_CONFIRM_FRAMES'' 3),
          fc_cooldown = max 0 (env_float env ''RADAR_FUSION_COOLDOWN_S'' 2)\<rparr>)"

section \<open>Association\<close>

record contributor =
  cb_source :: string
  cb_id :: string
  cb_quality :: real
  cb_trust :: real
  cb_pos :: point2
  cb_vel :: "point2 option"
  cb_dt :: real
  cb_t :: real

definition cb_key :: "contributor \<Rightarrow> string" where
  "cb_key c = cb_source c @ '':'' @ cb_id c"

record fusion_cluster =
  cl_contributors :: "contributor list"
  cl_support_ok :: bool
  cl_spread :: real

record fused_track =
  fu_id :: string
  fu_t :: real
  fu_pos :: point2
  fu_vel :: "point2 option"
  fu_trust :: real
  fu_contributors :: "contributor list"
  fu_flags :: "string list"

record pending_candidate =
  pn_track :: fused_track
  pn_hits :: int

record fusion_state =
  fs_active :: "(string, fused_track) dict"
  fs_pending :: "(string, pending_candidate) dict"
  fs_cooldown :: "(string, real) dict"

definition empty_fusion :: fusion_state where
  "empty_fusion = \<lparr>fs_active = [], fs_pending = [], fs_cooldown = []\<rparr>"

definition dist2 :: "point2 \<Rightarrow> point2 \<Rightarrow> real" where
  "dist2 a b = (fst a - fst b) * (fst a - fst b) + (snd a - snd b) * (snd a - snd b)"

definition pdist :: "point2 \<Rightarrow> point2 \<Rightarrow> real" where
  "pdist a b = sqrt (dist2 a b)"

definition sorted_keys :: "contributor list \<Rightarrow> string list" where
  "sorted_keys cs = sort (map cb_key cs)"

text \<open>\<open>','.join(...)\<close>\<close>

fun join_comma :: "string list \<Rightarrow> string" where
  "join_comma [] = []"
| "join_comma [x] = x"
| "join_comma (x # xs) = x @ '','' @ join_comma xs"

definition stable_support_id :: "(string \<Rightarrow> string) \<Rightarrow> contributor list \<Rightarrow> string" where
  "stable_support_id sha1 cs = ''fused:'' @ take 12 (sha1 (join_comma (sorted_keys cs)))"

definition reference_t :: "tracks_by_source \<Rightarrow> real" where
  "reference_t m = foldl (\<lambda>acc t. max acc (so_t t)) 0 (concat (dict_values m))"

definition contributor_of :: "real \<Rightarrow> source_track \<Rightarrow> contributor" where
  "contributor_of ref t =
     \<lparr>cb_source = so_source t, cb_id = so_id t, cb_quality = so_quality t, cb_trust = so_trust t,
      cb_pos = so_pos t, cb_vel = so_vel t, cb_dt = max 0 (ref - so_t t), cb_t = so_t t\<rparr>"

text \<open>The second list that the code returns is the same list again and not used.\<close>

definition to_contributors :: "tracks_by_source \<Rightarrow> contributor list" where
  "to_contributors m =
     concat (map (\<lambda>s. map (contributor_of (reference_t m))
                        (sort_key (\<lambda>t. (- so_trust t, so_id t)) (dict_getd m s [])))
                 (sort (dict_keys m)))"

definition passes_gate :: "fusion_config \<Rightarrow> contributor \<Rightarrow> contributor \<Rightarrow> bool" where
  "passes_gate cfg seed c \<longleftrightarrow>
     \<not> pdist (cb_pos seed) (cb_pos c) > fc_gate_dist cfg \<and>
     (case (cb_vel seed, cb_vel c) of
        (Some v, Some w) \<Rightarrow> \<not> pdist v w > fc_gate_vel cfg
      | _ \<Rightarrow> True)"

text \<open>The largest distance between two of them.\<close>

fun spread :: "contributor list \<Rightarrow> real" where
  "spread [] = 0"
| "spread (c # cs) = foldl (\<lambda>m d. max m (pdist (cb_pos c) (cb_pos d))) (spread cs) cs"

text \<open>\<open>min(..., key=...)\<close> is the first of the least.\<close>

definition nearest_to :: "contributor \<Rightarrow> contributor list \<Rightarrow> contributor" where
  "nearest_to seed cs = hd (sort_key (\<lambda>c. (pdist (cb_pos seed) (cb_pos c), - cb_trust c, cb_id c)) cs)"

record selection =
  sl_selected :: "contributor list"
  sl_used :: "string list"
  sl_seen :: "string list"

definition select_step :: "fusion_config \<Rightarrow> contributor \<Rightarrow> contributor list \<Rightarrow> selection \<Rightarrow> string \<Rightarrow> selection" where
  "select_step cfg seed ordered sel source =
     (if source \<in> set (sl_seen sel) then sel
      else let cands = filter (\<lambda>c. cb_source c = source \<and> cb_key c \<notin> set (sl_used sel) \<and> passes_gate cfg seed c) ordered
           in if cands = [] then sel
              else let n = nearest_to seed cands
                   in \<lparr>sl_selected = sl_selected sel @ [n], sl_used = cb_key n # sl_used sel,
                       sl_seen = cb_source n # sl_seen sel\<rparr>)"

definition select_around :: "fusion_config \<Rightarrow> contributor \<Rightarrow> contributor list \<Rightarrow> string list \<Rightarrow> selection" where
  "select_around cfg seed ordered used =
     foldl (select_step cfg seed ordered)
       \<lparr>sl_selected = [seed], sl_used = cb_key seed # used, sl_seen = [cb_source seed]\<rparr>
       (sort (remdups (map cb_source ordered)))"

definition make_cluster :: "fusion_config \<Rightarrow> contributor list \<Rightarrow> fusion_cluster" where
  "make_cluster cfg selected =
     (let cs = sort_key (\<lambda>c. (cb_source c, cb_id c)) selected
      in \<lparr>cl_contributors = cs, cl_support_ok = (int (length cs) \<ge> fc_min_support cfg), cl_spread = spread cs\<rparr>)"

fun seed_loop ::
  "fusion_config \<Rightarrow> contributor list \<Rightarrow> contributor list \<Rightarrow> string list \<Rightarrow> fusion_cluster list" where
  "seed_loop cfg ordered [] used = []"
| "seed_loop cfg ordered (seed # seeds) used =
     (if cb_key seed \<in> set used then seed_loop cfg ordered seeds used
      else let sel = select_around cfg seed ordered used
           in make_cluster cfg (sl_selected sel) # seed_loop cfg ordered seeds (sl_used sel))"

definition fresh_ordered :: "tracks_by_source \<Rightarrow> fusion_config \<Rightarrow> contributor list" where
  "fresh_ordered m cfg =
     sort_key (\<lambda>c. (- cb_trust c, cb_source c, cb_id c)) (filter (\<lambda>c. cb_dt c \<le> fc_max_age cfg) (to_contributors m))"

definition fusion_associate :: "tracks_by_source \<Rightarrow> fusion_config \<Rightarrow> fusion_cluster list \<times> nat" where
  "fusion_associate m cfg =
     (let ordered = fresh_ordered m cfg
      in (sort_key (\<lambda>cl. sorted_keys (cl_contributors cl)) (seed_loop cfg ordered ordered []),
          length (to_contributors m) - length ordered))"

section \<open>Fusing a cluster\<close>

definition weighted_average :: "(point2 \<times> real) list \<Rightarrow> point2" where
  "weighted_average vs =
     (let wsum = sum_list (map snd vs)
      in if wsum \<le> 0
         then (sum_list (map (\<lambda>v. fst (fst v)) vs) / real (length vs), sum_list (map (\<lambda>v. snd (fst v)) vs) / real (length vs))
         else (sum_list (map (\<lambda>v. fst (fst v) * snd v) vs) / wsum, sum_list (map (\<lambda>v. snd (fst v) * snd v) vs) / wsum))"

definition fused_velocity :: "contributor list \<Rightarrow> point2 option" where
  "fused_velocity cs =
     (let vs = concat (map (\<lambda>c. case cb_vel c of None \<Rightarrow> [] | Some v \<Rightarrow> [(v, max 0 (cb_trust c))]) cs)
      in if length vs \<ge> 2 then Some (weighted_average vs) else None)"

definition fuse_cluster :: "(string \<Rightarrow> string) \<Rightarrow> fusion_config \<Rightarrow> fusion_cluster \<Rightarrow> fused_track" where
  "fuse_cluster sha1 cfg cl =
     (let cs = cl_contributors cl;
          avg = sum_list (map (\<lambda>c. max 0 (cb_trust c)) cs) / real (length cs);
          support = (int (length cs) \<ge> fc_min_support cfg);
          trust1 = (if support then min 1 (avg + 1 / 10) else min avg (49 / 100));
          lead = hd (sort_key (\<lambda>c. (cb_source c, cb_id c)) cs);
          conflict = (cl_spread cl > fc_conflict_dist cfg);
          trust2 = (if conflict then trust1 * (1 / 2) else trust1)
      in \<lparr>fu_id = (if support then stable_support_id sha1 cs else cb_key lead),
          fu_t = Max (set (map cb_t cs)),
          fu_pos = weighted_average (map (\<lambda>c. (cb_pos c, max 0 (cb_trust c))) cs),
          fu_vel = fused_velocity cs, fu_trust = max 0 (min 1 trust2), fu_contributors = cs,
          fu_flags = (if conflict then [''CONFLICT''] else []) @ (if support then [] else [''LOW_SUPPORT''])\<rparr>)"

definition fuse :: "(string \<Rightarrow> string) \<Rightarrow> fusion_config \<Rightarrow> fusion_cluster list \<Rightarrow> fused_track list" where
  "fuse sha1 cfg cls = sort_key fu_id (map (fuse_cluster sha1 cfg) cls)"

section \<open>Confirmation, retention, cooldown\<close>

definition track_similarity :: "fusion_config \<Rightarrow> fused_track \<Rightarrow> fused_track \<Rightarrow> real" where
  "track_similarity cfg cand prev =
     (let ck = remdups (map cb_key (fu_contributors cand)); pk = remdups (map cb_key (fu_contributors prev));
          overlap = real (length (filter (\<lambda>k. k \<in> set pk) ck)) / max 1 (real (length pk))
      in if overlap \<ge> 1 / 2 then overlap + 1
         else if pdist (fu_pos cand) (fu_pos prev) \<le> fc_gate_dist cfg then 3 / 4
         else 0)"

definition fused_key :: "fused_track \<Rightarrow> string" where
  "fused_key t = join_comma (sorted_keys (fu_contributors t))"

fun best_match :: "fusion_config \<Rightarrow> fused_track \<Rightarrow> (string, fused_track) dict \<Rightarrow> string option \<Rightarrow> real \<Rightarrow> string option" where
  "best_match cfg cand [] best score = best"
| "best_match cfg cand ((i, prev) # rest) best score =
     (if track_similarity cfg cand prev > score
      then best_match cfg cand rest (Some i) (track_similarity cfg cand prev)
      else best_match cfg cand rest best score)"

record fusion_next =
  fn_active :: "(string, fused_track) dict"
  fn_pending :: "(string, pending_candidate) dict"
  fn_matched :: "string list"

definition place_candidate ::
  "fusion_config \<Rightarrow> fusion_state \<Rightarrow> real \<Rightarrow> fusion_next \<Rightarrow> fused_track \<Rightarrow> fusion_next" where
  "place_candidate cfg st now nx cand =
     (case best_match cfg cand (fs_active st) None 0 of
        Some i \<Rightarrow> nx\<lparr>fn_matched := i # fn_matched nx, fn_active := dict_set (fn_active nx) i (cand\<lparr>fu_id := i\<rparr>)\<rparr>
      | None \<Rightarrow>
          (let k = fused_key cand
           in if now < dict_getd (fs_cooldown st) k 0 then nx
              else let hits = (case dict_get (fs_pending st) k of None \<Rightarrow> 1 | Some pn \<Rightarrow> pn_hits pn + 1)
                   in if hits \<ge> fc_confirm_frames cfg
                      then nx\<lparr>fn_active := dict_set (fn_active nx) (fu_id cand) cand\<rparr>
                      else nx\<lparr>fn_pending := dict_set (fn_pending nx) k \<lparr>pn_track = cand, pn_hits = hits\<rparr>\<rparr>))"

definition place_all :: "fusion_config \<Rightarrow> fusion_state \<Rightarrow> real \<Rightarrow> fused_track list \<Rightarrow> fusion_next" where
  "place_all cfg st now cands =
     foldl (place_candidate cfg st now) \<lparr>fn_active = [], fn_pending = [], fn_matched = []\<rparr> cands"

definition retain_step ::
  "fusion_config \<Rightarrow> real \<Rightarrow> string list \<Rightarrow> (string, fused_track) dict \<times> (string, real) dict \<Rightarrow>
   string \<times> fused_track \<Rightarrow> (string, fused_track) dict \<times> (string, real) dict" where
  "retain_step cfg now matched s e =
     (if fst e \<in> set matched then s
      else if now - fu_t (snd e) \<le> fc_max_age cfg then (dict_set (fst s) (fst e) (snd e), snd s)
      else (fst s, dict_set (snd s) (fused_key (snd e)) (now + fc_cooldown cfg)))"

definition update_fusion_state :: "fusion_config \<Rightarrow> real \<Rightarrow> fused_track list \<Rightarrow> fusion_state \<Rightarrow> fusion_state" where
  "update_fusion_state cfg now cands st =
     (let nx = place_all cfg st now cands;
          (active, cooldown) = foldl (retain_step cfg now (fn_matched nx)) (fn_active nx, fs_cooldown st) (fs_active st)
      in \<lparr>fs_active = active, fs_pending = fn_pending nx, fs_cooldown = filter (\<lambda>e. snd e > now) cooldown\<rparr>)"

record fused_set =
  fz_tracks :: "fused_track list"
  fz_clusters :: "fusion_cluster list"
  fz_cluster_count :: nat
  fz_stale :: nat
  fz_active :: nat
  fz_pending :: nat

definition fuse_tracks ::
  "(string \<Rightarrow> string) \<Rightarrow> fusion_config \<Rightarrow> real \<Rightarrow> tracks_by_source \<Rightarrow> fusion_state \<Rightarrow> fused_set \<times> fusion_state" where
  "fuse_tracks sha1 cfg now m st =
     (let (clusters, stale) = fusion_associate m cfg; st' = update_fusion_state cfg now (fuse sha1 cfg clusters) st;
          active = sort_key fu_id (dict_values (fs_active st'))
      in (\<lparr>fz_tracks = active, fz_clusters = clusters, fz_cluster_count = length clusters, fz_stale = stale,
           fz_active = length active, fz_pending = length (fs_pending st')\<rparr>, st'))"

section \<open>Scenes\<close>

text \<open>A point of a scene, with the metadata that other components read.\<close>

record radar_point =
  rp_x :: real
  rp_y :: real
  rp_z :: real
  rp_vr :: real
  rp_target_id :: "string option"
  rp_id :: "string option"
  rp_iff :: "string option"
  rp_object :: "string option"
  rp_age :: "pyfloat option"

record radar_scene =
  rs_ok :: bool
  rs_reason :: string
  rs_truth :: string
  rs_is_fallback :: bool
  rs_points :: "radar_point list"

definition hypot2 :: "point2 option \<Rightarrow> real" where
  "hypot2 v = (case v of None \<Rightarrow> 0 | Some (x, y) \<Rightarrow> sqrt (x * x + y * y))"

definition target_point :: "point2 \<Rightarrow> point2 option \<Rightarrow> string \<Rightarrow> radar_point" where
  "target_point pos vel tid =
     \<lparr>rp_x = fst pos, rp_y = snd pos, rp_z = 0, rp_vr = hypot2 vel, rp_target_id = Some tid, rp_id = None,
      rp_iff = None, rp_object = None, rp_age = None\<rparr>"

definition make_scene :: "radar_point list \<Rightarrow> string \<Rightarrow> string \<Rightarrow> bool \<Rightarrow> radar_scene" where
  "make_scene pts truth reason fallback =
     \<lparr>rs_ok = (pts \<noteq> []), rs_reason = (if pts \<noteq> [] then reason else ''NO_DATA''),
      rs_truth = (if pts \<noteq> [] then truth else ''NO_DATA''), rs_is_fallback = fallback, rs_points = pts\<rparr>"

definition source_tracks_to_scene :: "string \<Rightarrow> string \<Rightarrow> bool \<Rightarrow> tracks_by_source \<Rightarrow> radar_scene" where
  "source_tracks_to_scene truth reason fallback m =
     make_scene
       (concat (map (\<lambda>(s, ts). map (\<lambda>t. target_point (so_pos t) (so_vel t)
                                       (if length m = 1 then so_id t else s @ '':'' @ so_id t)) ts) m))
       truth reason fallback"

definition fused_tracks_to_scene :: "string \<Rightarrow> string \<Rightarrow> bool \<Rightarrow> fused_set \<Rightarrow> radar_scene" where
  "fused_tracks_to_scene truth reason fallback z =
     (let pts = map (\<lambda>t. target_point (fu_pos t) (fu_vel t) (fu_id t)) (fz_tracks z)
      in make_scene pts truth (if pts \<noteq> [] \<and> fz_stale z \<noteq> 0 then ''OK_WITH_STALE'' else reason) fallback)"

section \<open>What association guarantees\<close>

text \<open>
  A cluster around a seed: the seed leads, every other member passes its gate and comes from a source of its
  own.
\<close>

definition around_seed :: "fusion_config \<Rightarrow> contributor list \<Rightarrow> bool" where
  "around_seed cfg cs \<longleftrightarrow>
     distinct (map cb_source cs) \<and>
     list_ex (\<lambda>seed. list_all (\<lambda>c. c = seed \<or> passes_gate cfg seed c) cs) cs"

definition cluster_keys :: "fusion_cluster list \<Rightarrow> string list" where
  "cluster_keys cls = concat (map (\<lambda>cl. map cb_key (cl_contributors cl)) cls)"

lemma distinct_map_sort_key [simp]: "distinct (map f (sort_key g xs)) = distinct (map f xs)"
  by (rule mset_eq_imp_distinct_iff) simp

lemma sort_key_eq_Nil [simp]: "sort_key g xs = [] \<longleftrightarrow> xs = []"
  by (metis mset_sort mset_zero_iff)

lemma nearest_to_in: "cs \<noteq> [] \<Longrightarrow> nearest_to seed cs \<in> set cs"
  unfolding nearest_to_def by (metis hd_in_set set_sort sort_key_eq_Nil)

text \<open>The state of a selection, with the keys used before it.\<close>

definition selection_inv ::
  "fusion_config \<Rightarrow> contributor \<Rightarrow> contributor list \<Rightarrow> string list \<Rightarrow> selection \<Rightarrow> bool" where
  "selection_inv cfg seed ordered used sel \<longleftrightarrow>
     seed \<in> set (sl_selected sel) \<and> set (sl_selected sel) \<subseteq> set ordered \<and>
     set (sl_seen sel) = cb_source ` set (sl_selected sel) \<and>
     set (sl_used sel) = set used \<union> cb_key ` set (sl_selected sel) \<and>
     distinct (map cb_source (sl_selected sel)) \<and> distinct (map cb_key (sl_selected sel)) \<and>
     set used \<inter> cb_key ` set (sl_selected sel) = {} \<and>
     (\<forall>c\<in>set (sl_selected sel). c = seed \<or> passes_gate cfg seed c)"

lemma selection_step:
  assumes "selection_inv cfg seed ordered used sel"
  shows "selection_inv cfg seed ordered used (select_step cfg seed ordered sel source)"
proof -
  let ?cands = "filter (\<lambda>c. cb_source c = source \<and> cb_key c \<notin> set (sl_used sel) \<and> passes_gate cfg seed c) ordered"
  show ?thesis
  proof (cases "source \<in> set (sl_seen sel) \<or> ?cands = []")
    case True then show ?thesis using assms by (auto simp: select_step_def)
  next
    case False
    then have "nearest_to seed ?cands \<in> set ?cands" by (intro nearest_to_in) simp
    moreover have "select_step cfg seed ordered sel source =
      \<lparr>sl_selected = sl_selected sel @ [nearest_to seed ?cands], sl_used = cb_key (nearest_to seed ?cands) # sl_used sel,
       sl_seen = cb_source (nearest_to seed ?cands) # sl_seen sel\<rparr>"
      using False by (simp add: select_step_def Let_def)
    ultimately show ?thesis using assms False unfolding selection_inv_def by auto
  qed
qed

lemma select_around_inv:
  assumes "seed \<in> set ordered" "cb_key seed \<notin> set used"
  shows "selection_inv cfg seed ordered used (select_around cfg seed ordered used)"
  unfolding select_around_def
proof (rule foldl_inv)
  show "selection_inv cfg seed ordered used
    \<lparr>sl_selected = [seed], sl_used = cb_key seed # used, sl_seen = [cb_source seed]\<rparr>"
    using assms by (auto simp: selection_inv_def)
qed (rule selection_step)

lemma make_cluster_mset: "mset (cl_contributors (make_cluster cfg sel)) = mset sel"
  by (simp add: make_cluster_def Let_def)

lemma make_cluster_around:
  assumes "selection_inv cfg seed ordered used sel"
  shows "around_seed cfg (cl_contributors (make_cluster cfg (sl_selected sel)))"
  using assms by (auto simp: around_seed_def make_cluster_def Let_def selection_inv_def list_ex_iff list_all_iff)

text \<open>The clusters that the loop over the seeds makes: their keys are new, unlike, and cover the seeds.\<close>

lemma seed_loop_keys:
  assumes "set seeds \<subseteq> set ordered"
  shows "distinct (cluster_keys (seed_loop cfg ordered seeds used)) \<and>
         set (cluster_keys (seed_loop cfg ordered seeds used)) \<inter> set used = {} \<and>
         cb_key ` set seeds \<subseteq> set used \<union> set (cluster_keys (seed_loop cfg ordered seeds used)) \<and>
         (\<forall>cl\<in>set (seed_loop cfg ordered seeds used).
            set (cl_contributors cl) \<subseteq> set ordered \<and> around_seed cfg (cl_contributors cl))"
  using assms
proof (induction cfg ordered seeds used rule: seed_loop.induct)
  case (1 cfg ordered used) then show ?case by (simp add: cluster_keys_def)
next
  case (2 cfg ordered seed seeds used)
  show ?case
  proof (cases "cb_key seed \<in> set used")
    case True with 2 show ?thesis by auto
  next
    case False
    let ?sel = "select_around cfg seed ordered used"
    let ?cl = "make_cluster cfg (sl_selected ?sel)" and ?rest = "seed_loop cfg ordered seeds (sl_used ?sel)"
    let ?K = "cb_key ` set (sl_selected ?sel)"
    have inv: "selection_inv cfg seed ordered used ?sel" using 2(3) False by (intro select_around_inv) auto
    have K: "set (map cb_key (cl_contributors ?cl)) = ?K" "distinct (map cb_key (cl_contributors ?cl))"
      "set (cl_contributors ?cl) \<subseteq> set ordered" "cb_key seed \<in> ?K" "set used \<inter> ?K = {}"
      and used: "set (sl_used ?sel) = set used \<union> ?K"
      using inv by (auto simp: make_cluster_def Let_def selection_inv_def)
    have rest: "distinct (cluster_keys ?rest)" "set (cluster_keys ?rest) \<inter> (set used \<union> ?K) = {}"
      "cb_key ` set seeds \<subseteq> set used \<union> ?K \<union> set (cluster_keys ?rest)"
      "\<forall>cl\<in>set ?rest. set (cl_contributors cl) \<subseteq> set ordered \<and> around_seed cfg (cl_contributors cl)"
      using 2(2) [OF False refl] 2(3) used by auto
    have loop: "seed_loop cfg ordered (seed # seeds) used = ?cl # ?rest" using False by (simp add: Let_def)
    have "cluster_keys (?cl # ?rest) = map cb_key (cl_contributors ?cl) @ cluster_keys ?rest"
      by (simp add: cluster_keys_def)
    then have keys: "set (cluster_keys (?cl # ?rest)) = ?K \<union> set (cluster_keys ?rest)"
      "distinct (cluster_keys (?cl # ?rest))"
      using K(1,2) rest(1,2) by (auto simp del: set_map)
    show ?thesis unfolding loop
      using keys rest K(3-5) make_cluster_around [OF inv] by auto
  qed
qed

text \<open>
  Association loses nothing and counts nothing twice: the keys in the clusters are, each once, the keys of
  the contributors that are young enough, and every cluster holds at most one track per source, all of them
  inside the position and velocity gates of one of its members. (Two tracks whose source and identifier run
  together into one key are one to it.)
\<close>

theorem fusion_partitions_contributors:
  "distinct (cluster_keys (fst (fusion_associate m cfg))) \<and>
   set (cluster_keys (fst (fusion_associate m cfg))) = cb_key ` set (fresh_ordered m cfg) \<and>
   list_all (\<lambda>cl. list_all (\<lambda>c. cb_dt c \<le> fc_max_age cfg) (cl_contributors cl) \<and> around_seed cfg (cl_contributors cl))
     (fst (fusion_associate m cfg))"
proof -
  let ?o = "fresh_ordered m cfg"
  let ?l = "seed_loop cfg ?o ?o []"
  have *: "fst (fusion_associate m cfg) = sort_key (\<lambda>cl. sorted_keys (cl_contributors cl)) ?l"
    by (simp add: fusion_associate_def Let_def)
  have mset: "mset (cluster_keys (sort_key f ?l)) = mset (cluster_keys ?l)" for f :: "fusion_cluster \<Rightarrow> string list"
    by (simp add: cluster_keys_def mset_concat flip: sum_mset_sum_list)
  have "set (cluster_keys ?l) \<subseteq> cb_key ` set ?o"
    using seed_loop_keys [of ?o ?o cfg "[]"] by (fastforce simp: cluster_keys_def)
  moreover have "\<forall>c\<in>set ?o. cb_dt c \<le> fc_max_age cfg" by (auto simp: fresh_ordered_def)
  ultimately show ?thesis
    using seed_loop_keys [of ?o ?o cfg "[]"] mset_eq_setD [OF mset] mset_eq_imp_distinct_iff [OF mset]
    unfolding * list_all_iff by (auto 0 3)
qed

section \<open>What a fused track is\<close>

lemma foldl_max_gt:
  fixes f :: "'a \<Rightarrow> real"
  shows "foldl (\<lambda>m d. max m (f d)) a xs > x \<longleftrightarrow> a > x \<or> (\<exists>d\<in>set xs. f d > x)"
  by (induction xs arbitrary: a) (auto simp: less_max_iff_disj)

text \<open>Two contributors of the list, in their order.\<close>

fun some_pair :: "('a \<Rightarrow> 'a \<Rightarrow> bool) \<Rightarrow> 'a list \<Rightarrow> bool" where
  "some_pair P [] = False"
| "some_pair P (x # xs) \<longleftrightarrow> list_ex (P x) xs \<or> some_pair P xs"

lemma spread_gt: "0 \<le> x \<Longrightarrow> spread cs > x \<longleftrightarrow> some_pair (\<lambda>c d. pdist (cb_pos c) (cb_pos d) > x) cs"
  by (induction cs) (auto simp: foldl_max_gt list_ex_iff)

lemma weighted_sum_bounds:
  fixes f :: "'a \<Rightarrow> real"
  assumes "\<forall>v\<in>set vs. lo \<le> f v \<and> f v \<le> hi \<and> 0 \<le> w v"
  shows "lo * sum_list (map w vs) \<le> sum_list (map (\<lambda>v. f v * w v) vs) \<and>
         sum_list (map (\<lambda>v. f v * w v) vs) \<le> hi * sum_list (map w vs)"
  using assms by (induction vs) (auto simp: distrib_left intro!: add_mono mult_right_mono)

lemma mean_bounds:
  fixes f :: "'a \<Rightarrow> real"
  assumes "vs \<noteq> []" "\<forall>v\<in>set vs. lo \<le> f v \<and> f v \<le> hi"
  shows "lo \<le> sum_list (map f vs) / real (length vs) \<and> sum_list (map f vs) / real (length vs) \<le> hi"
  using weighted_sum_bounds [of vs lo f hi "\<lambda>v. 1"] assms
  by (simp add: sum_list_triv pos_le_divide_eq pos_divide_le_eq)

lemma weighted_average_bounds:
  assumes "vs \<noteq> []" "\<forall>v\<in>set vs. 0 \<le> snd v"
    and "\<forall>v\<in>set vs. lo \<le> fst (fst v) \<and> fst (fst v) \<le> hi"
    and "\<forall>v\<in>set vs. lo' \<le> snd (fst v) \<and> snd (fst v) \<le> hi'"
  shows "lo \<le> fst (weighted_average vs) \<and> fst (weighted_average vs) \<le> hi \<and>
         lo' \<le> snd (weighted_average vs) \<and> snd (weighted_average vs) \<le> hi'"
proof (cases "sum_list (map snd vs) \<le> 0")
  case True
  then show ?thesis
    using mean_bounds [of vs lo "\<lambda>v. fst (fst v)" hi] mean_bounds [of vs lo' "\<lambda>v. snd (fst v)" hi'] assms
    by (simp add: weighted_average_def Let_def)
next
  case False
  then show ?thesis
    using weighted_sum_bounds [of vs lo "\<lambda>v. fst (fst v)" hi snd]
      weighted_sum_bounds [of vs lo' "\<lambda>v. snd (fst v)" hi' snd] assms
    by (simp add: weighted_average_def Let_def pos_le_divide_eq pos_divide_le_eq)
qed

text \<open>The smallest rectangle around the contributors holds the point.\<close>

definition in_box :: "contributor list \<Rightarrow> point2 \<Rightarrow> bool" where
  "in_box cs p \<longleftrightarrow>
     Min (set (map (fst \<circ> cb_pos) cs)) \<le> fst p \<and> fst p \<le> Max (set (map (fst \<circ> cb_pos) cs)) \<and>
     Min (set (map (snd \<circ> cb_pos) cs)) \<le> snd p \<and> snd p \<le> Max (set (map (snd \<circ> cb_pos) cs))"

definition fused_track_ok :: "fusion_config \<Rightarrow> fused_track \<Rightarrow> bool" where
  "fused_track_ok cfg t \<longleftrightarrow>
     (let cs = fu_contributors t; low = int (length cs) < fc_min_support cfg;
          conflict = some_pair (\<lambda>c d. pdist (cb_pos c) (cb_pos d) > fc_conflict_dist cfg) cs
      in set (fu_flags t) = (if conflict then {''CONFLICT''} else {}) \<union> (if low then {''LOW_SUPPORT''} else {}) \<and>
         0 \<le> fu_trust t \<and> fu_trust t \<le> (if low then 49 / 100 else 1) * (if conflict then 1 / 2 else 1) \<and>
         in_box cs (fu_pos t) \<and>
         (fu_vel t = None \<longleftrightarrow> length (filter (\<lambda>c. cb_vel c \<noteq> None) cs) < 2) \<and>
         list_all (\<lambda>c. cb_t c \<le> fu_t t) cs \<and> list_ex (\<lambda>c. cb_t c = fu_t t) cs)"

lemma velocities_count:
  "length (concat (map (\<lambda>c. case cb_vel c of None \<Rightarrow> [] | Some v \<Rightarrow> [(v, max 0 (cb_trust c))]) cs)) =
   length (filter (\<lambda>c. cb_vel c \<noteq> None) cs)"
  by (induction cs) (auto split: option.splits)

lemma fused_in_box:
  assumes "cs \<noteq> []"
  shows "in_box cs (weighted_average (map (\<lambda>c. (cb_pos c, max 0 (cb_trust c))) cs))"
  using weighted_average_bounds [of "map (\<lambda>c. (cb_pos c, max 0 (cb_trust c))) cs"
      "Min (set (map (fst \<circ> cb_pos) cs))" "Max (set (map (fst \<circ> cb_pos) cs))"
      "Min (set (map (snd \<circ> cb_pos) cs))" "Max (set (map (snd \<circ> cb_pos) cs))"] assms
  unfolding in_box_def by (simp add: Min_le_iff Max_ge_iff) blast

lemma newest_contributor:
  assumes "cs \<noteq> []"
  shows "list_all (\<lambda>c. cb_t c \<le> Max (set (map cb_t cs))) cs \<and> list_ex (\<lambda>c. cb_t c = Max (set (map cb_t cs))) cs"
proof -
  have "Max (set (map cb_t cs)) \<in> set (map cb_t cs)" using assms by (intro Max_in) auto
  then show ?thesis by (force simp: list_all_iff list_ex_iff)
qed

lemma fused_trust_range:
  fixes a :: real
  assumes "0 \<le> a"
  shows "max 0 (min 1 (let t = (if support then min 1 (a + 1 / 10) else min a (49 / 100)) in
           if conflict then t * (1 / 2) else t))
         \<le> (if \<not> support then 49 / 100 else 1) * (if conflict then 1 / 2 else 1)"
  using assms by (simp add: min_def max_def Let_def)

lemma fuse_cluster_ok:
  assumes "cl_contributors cl \<noteq> []" "cl_spread cl = spread (cl_contributors cl)" "0 \<le> fc_conflict_dist cfg"
  shows "fused_track_ok cfg (fuse_cluster sha1 cfg cl)"
proof -
  let ?cs = "cl_contributors cl"
  let ?conflict = "some_pair (\<lambda>c d. pdist (cb_pos c) (cb_pos d) > fc_conflict_dist cfg) ?cs"
  let ?support = "int (length ?cs) \<ge> fc_min_support cfg"
  have avg: "0 \<le> sum_list (map (\<lambda>c. max 0 (cb_trust c)) ?cs) / real (length ?cs)"
    by (intro divide_nonneg_nonneg sum_list_nonneg) auto
  have conflict: "(cl_spread cl > fc_conflict_dist cfg) = ?conflict"
    unfolding assms(2) by (rule spread_gt [OF assms(3)])
  let ?t = "fuse_cluster sha1 cfg cl"
  have parts: "fu_contributors ?t = ?cs" "fu_pos ?t = weighted_average (map (\<lambda>c. (cb_pos c, max 0 (cb_trust c))) ?cs)"
    "fu_vel ?t = fused_velocity ?cs" "fu_t ?t = Max (set (map cb_t ?cs))"
    by (simp_all only: fuse_cluster_def Let_def fused_track.simps)
  have flags: "set (fu_flags ?t) = (if ?conflict then {''CONFLICT''} else {}) \<union> (if \<not> ?support then {''LOW_SUPPORT''} else {})"
    unfolding fuse_cluster_def Let_def fused_track.simps conflict by (cases ?conflict; cases ?support) (simp_all add: insert_commute)
  have nonneg: "0 \<le> fu_trust ?t"
    unfolding fuse_cluster_def Let_def fused_track.simps by (rule max.cobounded1)
  have "fu_trust ?t \<le> (if \<not> ?support then 49 / 100 else 1) * (if ?conflict then 1 / 2 else 1)"
    using fused_trust_range [OF avg, of ?support ?conflict]
    unfolding fuse_cluster_def Let_def fused_track.simps conflict .
  moreover have "fu_vel ?t = None \<longleftrightarrow> length (filter (\<lambda>c. cb_vel c \<noteq> None) ?cs) < 2"
    unfolding parts fused_velocity_def Let_def velocities_count by auto
  ultimately show ?thesis
    using fused_in_box [OF assms(1)] newest_contributor [OF assms(1)] nonneg
    unfolding fused_track_ok_def Let_def parts flags not_le by blast
qed

lemma associate_clusters:
  "cl \<in> set (fst (fusion_associate m cfg)) \<Longrightarrow> cl_contributors cl \<noteq> [] \<and> cl_spread cl = spread (cl_contributors cl)"
proof -
  have "cl \<in> set (seed_loop cfg ordered seeds used) \<Longrightarrow> \<exists>sel. cl = make_cluster cfg sel" for ordered seeds used
    by (induction cfg ordered seeds used rule: seed_loop.induct) (auto simp: Let_def split: if_splits)
  moreover assume cl: "cl \<in> set (fst (fusion_associate m cfg))"
  ultimately have "cl_spread cl = spread (cl_contributors cl)"
    by (fastforce simp: fusion_associate_def Let_def make_cluster_def)
  moreover have "around_seed cfg (cl_contributors cl)"
    using cl seed_loop_keys [of "fresh_ordered m cfg" "fresh_ordered m cfg" cfg "[]"]
    by (simp add: fusion_associate_def Let_def)
  ultimately show ?thesis by (auto simp: around_seed_def)
qed

text \<open>
  Every fused track is bounded by what it was made of: it lies in the rectangle around its contributors,
  carries the time of the newest, a velocity only when two of them measured one, a trust of at most 0.49
  without support and of half as much in a conflict, and the flags that say so.
\<close>

theorem fused_tracks_bounded:
  assumes "0 \<le> fc_conflict_dist cfg"
  shows "list_all (fused_track_ok cfg) (fuse sha1 cfg (fst (fusion_associate m cfg)))"
  using fuse_cluster_ok [OF _ _ assms] associate_clusters [of _ m cfg] by (auto simp: fuse_def list_all_iff)

text \<open>Two sensors see one ship, a third something else.\<close>

definition example_fusion_config :: fusion_config where
  "example_fusion_config =
     \<lparr>fc_enabled = True, fc_gate_dist = 50, fc_gate_vel = 20, fc_min_support = 2, fc_max_age = 2,
      fc_conflict_dist = 100, fc_confirm_frames = 3, fc_cooldown = 2\<rparr>"

definition example_sources :: tracks_by_source where
  "example_sources =
     [(''radar'', [\<lparr>so_source = ''radar'', so_id = ''t1'', so_t = 10, so_pos = (100, 0), so_vel = Some (1, 0),
                    so_quality = 1, so_trust = 1\<rparr>]),
      (''lidar'', [\<lparr>so_source = ''lidar'', so_id = ''t7'', so_t = 10, so_pos = (103, 4), so_vel = Some (1, 0),
                    so_quality = 1, so_trust = 1\<rparr>])]"

theorem fused_tracks_bounded_witness:
  "list_all (fused_track_ok example_fusion_config)
     (fuse (\<lambda>s. s) example_fusion_config (fst (fusion_associate example_sources example_fusion_config)))"
  by (rule fused_tracks_bounded) (simp add: example_fusion_config_def)

end
