(* ===== verification/Fusion_Runs.thy ===== *)
theory Fusion_Runs
  imports Radar_Fusion
begin

text \<open>
  Runs of the fusion (\<open>src/qiki/services/q_core_agent/core/radar_fusion.py\<close>, \<open>fuse_tracks\<close>): frame after
  frame the same store confirms, keeps and drops fused tracks. Nothing is modelled here; the theory proves
  when a track appears and when it may not.
\<close>

section \<open>One frame\<close>

type_synonym fusion_frame = "real \<times> tracks_by_source"

definition frame_tracks :: "(string \<Rightarrow> string) \<Rightarrow> fusion_config \<Rightarrow> fusion_frame \<Rightarrow> fused_track list" where
  "frame_tracks sha1 cfg f = fuse sha1 cfg (fst (fusion_associate (snd f) cfg))"

definition fuse_frame :: "(string \<Rightarrow> string) \<Rightarrow> fusion_config \<Rightarrow> fusion_state \<Rightarrow> fusion_frame \<Rightarrow> fusion_state" where
  "fuse_frame sha1 cfg st f = snd (fuse_tracks sha1 cfg (fst f) (snd f) st)"

definition fusion_run :: "(string \<Rightarrow> string) \<Rightarrow> fusion_config \<Rightarrow> fusion_frame list \<Rightarrow> fusion_state" where
  "fusion_run sha1 cfg fs = foldl (fuse_frame sha1 cfg) empty_fusion fs"

lemma fuse_frame_eq: "fuse_frame sha1 cfg st f = update_fusion_state cfg (fst f) (frame_tracks sha1 cfg f) st"
  by (simp add: fuse_frame_def frame_tracks_def fuse_tracks_def Let_def split: prod.splits)

lemma fusion_run_snoc: "fusion_run sha1 cfg (fs @ [f]) = fuse_frame sha1 cfg (fusion_run sha1 cfg fs) f"
  by (simp add: fusion_run_def)

section \<open>Placing the candidates of a frame\<close>

definition hits_of :: "fusion_state \<Rightarrow> string \<Rightarrow> int" where
  "hits_of st k = (case dict_get (fs_pending st) k of None \<Rightarrow> 1 | Some pn \<Rightarrow> pn_hits pn + 1)"

definition placed :: "fusion_config \<Rightarrow> fusion_state \<Rightarrow> real \<Rightarrow> fused_track list \<Rightarrow> fusion_next \<Rightarrow> bool" where
  "placed cfg st now cands nx \<longleftrightarrow>
     (\<forall>i t. dict_get (fn_active nx) i = Some t \<longrightarrow>
        dict_get (fs_active st) i \<noteq> None \<or>
        (t \<in> set cands \<and> fu_id t = i \<and> fc_confirm_frames cfg \<le> hits_of st (fused_key t) \<and>
         \<not> now < dict_getd (fs_cooldown st) (fused_key t) 0)) \<and>
     (\<forall>k pn. dict_get (fn_pending nx) k = Some pn \<longrightarrow>
        pn_hits pn = hits_of st k \<and> (\<exists>c\<in>set cands. fused_key c = k)) \<and>
     (\<forall>i\<in>set (fn_matched nx). dict_get (fn_active nx) i \<noteq> None)"

lemma best_match_known:
  "best_match cfg cand m b s = Some i \<Longrightarrow> b = Some i \<or> i \<in> fst ` set m"
  by (induction cfg cand m b s rule: best_match.induct) (auto split: if_splits)

lemma place_candidate_placed:
  assumes "placed cfg st now cands nx" "c \<in> set cands"
  shows "placed cfg st now cands (place_candidate cfg st now nx c)"
proof (cases "best_match cfg c (fs_active st) None 0")
  case (Some i)
  then have "dict_get (fs_active st) i \<noteq> None"
    using best_match_known [OF Some] by (auto simp: map_of_eq_None_iff)
  with Some assms show ?thesis by (auto simp: placed_def place_candidate_def)
next
  case None
  then show ?thesis using assms
    by (auto simp: placed_def place_candidate_def Let_def hits_of_def split: if_splits)
qed

lemma place_all_placed: "placed cfg st now cands (place_all cfg st now cands)"
  unfolding place_all_def
proof (rule foldl_inv [where P = "placed cfg st now cands"])
  show "placed cfg st now cands \<lparr>fn_active = [], fn_pending = [], fn_matched = []\<rparr>"
    by (simp add: placed_def)
qed (rule place_candidate_placed)

section \<open>Keeping and dropping the others\<close>

definition dropped :: "fusion_config \<Rightarrow> real \<Rightarrow> string list \<Rightarrow> string \<times> fused_track \<Rightarrow> bool" where
  "dropped cfg now matched e \<longleftrightarrow> fst e \<notin> set matched \<and> \<not> now - fu_t (snd e) \<le> fc_max_age cfg"

lemma retain_active:
  "dict_get (fst (foldl (retain_step cfg now matched) s m)) i = Some t \<Longrightarrow>
   dict_get (fst s) i = Some t \<or> (i, t) \<in> set m"
proof (induction m arbitrary: s)
  case (Cons e m)
  have "dict_get (fst (retain_step cfg now matched s e)) i = Some t \<Longrightarrow> dict_get (fst s) i = Some t \<or> (i, t) = e"
    by (cases e) (auto simp: retain_step_def split: if_splits)
  with Cons.IH [of "retain_step cfg now matched s e"] Cons.prems show ?case by auto
qed simp

lemma retain_keeps:
  "dict_get (fst s) i \<noteq> None \<Longrightarrow> dict_get (fst (foldl (retain_step cfg now matched) s m)) i \<noteq> None"
  by (induction m arbitrary: s) (auto simp: retain_step_def)

lemma retain_kept:
  "e \<in> set m \<Longrightarrow> fst e \<notin> set matched \<Longrightarrow> now - fu_t (snd e) \<le> fc_max_age cfg \<Longrightarrow>
   dict_get (fst (foldl (retain_step cfg now matched) s m)) (fst e) \<noteq> None"
proof (induction m arbitrary: s)
  case (Cons a m)
  show ?case
  proof (cases "a = e")
    case True with Cons.prems have "dict_get (fst (retain_step cfg now matched s a)) (fst e) \<noteq> None"
      by (simp add: retain_step_def)
    from retain_keeps [OF this] show ?thesis by simp
  next
    case False with Cons show ?thesis by simp
  qed
qed simp

lemma retain_cooldown:
  "u \<le> now + fc_cooldown cfg \<Longrightarrow> (\<exists>v. dict_get (snd s) k = Some v \<and> u \<le> v) \<Longrightarrow>
   \<exists>v. dict_get (snd (foldl (retain_step cfg now matched) s m)) k = Some v \<and> u \<le> v"
  by (induction m arbitrary: s) (auto simp: retain_step_def)

lemma retain_drops:
  "e \<in> set m \<Longrightarrow> dropped cfg now matched e \<Longrightarrow>
   \<exists>v. dict_get (snd (foldl (retain_step cfg now matched) s m)) (fused_key (snd e)) = Some v \<and>
       now + fc_cooldown cfg \<le> v"
proof (induction m arbitrary: s)
  case (Cons a m)
  show ?case
  proof (cases "a = e")
    case True
    with Cons.prems have "\<exists>v. dict_get (snd (retain_step cfg now matched s a)) (fused_key (snd e)) = Some v \<and>
        now + fc_cooldown cfg \<le> v"
      by (simp add: retain_step_def dropped_def)
    from retain_cooldown [OF _ this] show ?thesis by simp
  next
    case False with Cons show ?thesis by simp
  qed
qed simp

lemma map_of_filter_keep: "map_of m k = Some v \<Longrightarrow> P (k, v) \<Longrightarrow> map_of (filter P m) k = Some v"
  by (induction m) (auto split: if_splits)

section \<open>The step of the store\<close>

lemma update_active:
  assumes "dict_get (fs_active (update_fusion_state cfg now cands st)) i = Some t" "dict_get (fs_active st) i = None"
  shows "t \<in> set cands \<and> fu_id t = i \<and> fc_confirm_frames cfg \<le> hits_of st (fused_key t) \<and>
         \<not> now < dict_getd (fs_cooldown st) (fused_key t) 0"
proof -
  let ?nx = "place_all cfg st now cands"
  have "dict_get (fst (foldl (retain_step cfg now (fn_matched ?nx)) (fn_active ?nx, fs_cooldown st) (fs_active st))) i = Some t"
    using assms(1) by (simp add: update_fusion_state_def Let_def split: prod.splits)
  from retain_active [OF this] have "dict_get (fn_active ?nx) i = Some t"
    using assms(2) by (force simp: map_of_eq_None_iff)
  with place_all_placed [of cfg st now cands] assms(2) show ?thesis unfolding placed_def by blast
qed

lemma update_pending:
  assumes "dict_get (fs_pending (update_fusion_state cfg now cands st)) k = Some pn"
  shows "pn_hits pn = hits_of st k \<and> (\<exists>c\<in>set cands. fused_key c = k)"
proof -
  have "dict_get (fn_pending (place_all cfg st now cands)) k = Some pn"
    using assms by (simp add: update_fusion_state_def Let_def split: prod.splits)
  then show ?thesis using place_all_placed [of cfg st now cands] by (auto simp: placed_def)
qed

lemma update_drops:
  assumes "dict_get (fs_active st) i = Some t" "dict_get (fs_active (update_fusion_state cfg now cands st)) i = None"
    and "0 < fc_cooldown cfg"
  shows "\<exists>v. dict_get (fs_cooldown (update_fusion_state cfg now cands st)) (fused_key t) = Some v \<and>
             now + fc_cooldown cfg \<le> v"
proof -
  let ?nx = "place_all cfg st now cands"
  let ?s = "foldl (retain_step cfg now (fn_matched ?nx)) (fn_active ?nx, fs_cooldown st) (fs_active st)"
  have i: "dict_get (fst ?s) i = None"
    using assms(2) by (simp add: update_fusion_state_def Let_def split: prod.splits)
  have e: "(i, t) \<in> set (fs_active st)" using assms(1) by (rule map_of_SomeD)
  have "i \<notin> set (fn_matched ?nx)"
    using place_all_placed [of cfg st now cands]
      retain_keeps [of "(fn_active ?nx, fs_cooldown st)" i cfg now "fn_matched ?nx" "fs_active st"] i
    by (auto simp: placed_def)
  then have "dropped cfg now (fn_matched ?nx) (i, t)"
    using retain_kept [OF e, of "fn_matched ?nx" now cfg "(fn_active ?nx, fs_cooldown st)"] i
    by (auto simp: dropped_def)
  from retain_drops [OF e this, of "(fn_active ?nx, fs_cooldown st)"] assms(3) show ?thesis
    by (auto simp: update_fusion_state_def Let_def split: prod.splits intro!: map_of_filter_keep)
qed

lemma update_keeps_cooldown:
  assumes "dict_get (fs_cooldown st) k = Some v" "u \<le> v" "u \<le> now + fc_cooldown cfg" "now < u"
  shows "\<exists>v. dict_get (fs_cooldown (update_fusion_state cfg now cands st)) k = Some v \<and> u \<le> v"
proof -
  let ?nx = "place_all cfg st now cands"
  have "\<exists>v. dict_get (snd (foldl (retain_step cfg now (fn_matched ?nx)) (fn_active ?nx, fs_cooldown st) (fs_active st))) k
            = Some v \<and> u \<le> v"
    by (rule retain_cooldown) (use assms in auto)
  with assms(4) show ?thesis
    by (auto simp: update_fusion_state_def Let_def split: prod.splits intro!: map_of_filter_keep)
qed

section \<open>Runs\<close>

text \<open>The last \<open>n\<close> frames all have a candidate with this key.\<close>

definition seen_in_last :: "(string \<Rightarrow> string) \<Rightarrow> fusion_config \<Rightarrow> nat \<Rightarrow> fusion_frame list \<Rightarrow> string \<Rightarrow> bool" where
  "seen_in_last sha1 cfg n fs k \<longleftrightarrow> in_last (\<lambda>f. list_ex (\<lambda>c. fused_key c = k) (frame_tracks sha1 cfg f)) n fs"

lemma seen_in_last_Suc:
  "seen_in_last sha1 cfg n fs k \<Longrightarrow> c \<in> set (frame_tracks sha1 cfg f) \<Longrightarrow> fused_key c = k \<Longrightarrow>
   seen_in_last sha1 cfg (Suc n) (fs @ [f]) k"
  by (auto simp: seen_in_last_def list_ex_iff intro: in_last_Suc)

lemma seen_in_last_mono: "seen_in_last sha1 cfg n fs k \<Longrightarrow> m \<le> n \<Longrightarrow> seen_in_last sha1 cfg m fs k"
  by (simp add: seen_in_last_def in_last_mono)

lemma pending_hits:
  "dict_get (fs_pending (fusion_run sha1 cfg fs)) k = Some pn \<Longrightarrow>
   0 \<le> pn_hits pn \<and> seen_in_last sha1 cfg (nat (pn_hits pn)) fs k"
proof (induction fs arbitrary: pn rule: rev_induct)
  case Nil then show ?case by (simp add: fusion_run_def empty_fusion_def)
next
  case (snoc f fs)
  then obtain c where c: "pn_hits pn = hits_of (fusion_run sha1 cfg fs) k" "c \<in> set (frame_tracks sha1 cfg f)" "fused_key c = k"
    using update_pending [of cfg "fst f"] by (fastforce simp: fusion_run_snoc fuse_frame_eq)
  show ?case
  proof (cases "dict_get (fs_pending (fusion_run sha1 cfg fs)) k")
    case None
    have "seen_in_last sha1 cfg 0 fs k" by (simp add: seen_in_last_def)
    from seen_in_last_Suc [OF this c(2,3)] show ?thesis using c(1) None by (simp add: hits_of_def)
  next
    case (Some p)
    note ih = snoc.IH [OF Some]
    then have "seen_in_last sha1 cfg (Suc (nat (pn_hits p))) (fs @ [f]) k" using seen_in_last_Suc c(2,3) by blast
    then show ?thesis using c(1) Some ih by (simp add: hits_of_def nat_add_distrib)
  qed
qed

text \<open>
  C18. A fused track appears only confirmed: when a frame of a run makes an identifier active that was not, its
  track is one of the frame, and each of the last \<open>confirm_frames\<close> frames had a candidate of the same
  contributors.
\<close>

theorem fused_track_confirmed:
  assumes "dict_get (fs_active (fusion_run sha1 cfg fs)) i = None"
    and "dict_get (fs_active (fusion_run sha1 cfg (fs @ [f]))) i = Some t"
  shows "t \<in> set (frame_tracks sha1 cfg f) \<and> fu_id t = i \<and>
         seen_in_last sha1 cfg (nat (fc_confirm_frames cfg)) (fs @ [f]) (fused_key t)"
proof -
  let ?st = "fusion_run sha1 cfg fs"
  have t: "t \<in> set (frame_tracks sha1 cfg f)" "fu_id t = i" "fc_confirm_frames cfg \<le> hits_of ?st (fused_key t)"
    using update_active [of cfg "fst f" _ ?st i t] assms by (auto simp: fusion_run_snoc fuse_frame_eq)
  have "seen_in_last sha1 cfg (nat (hits_of ?st (fused_key t))) (fs @ [f]) (fused_key t)"
  proof (cases "dict_get (fs_pending ?st) (fused_key t)")
    case None
    have "seen_in_last sha1 cfg 0 fs (fused_key t)" by (simp add: seen_in_last_def)
    from seen_in_last_Suc [OF this t(1)] show ?thesis using None by (simp add: hits_of_def)
  next
    case (Some p)
    from pending_hits [OF Some] seen_in_last_Suc [OF _ t(1)] show ?thesis
      using Some by (auto simp: hits_of_def nat_add_distrib)
  qed
  with t seen_in_last_mono show ?thesis by (meson nat_mono)
qed

lemma cooldown_lasts:
  assumes "dict_get (fs_cooldown (fusion_run sha1 cfg fs)) k = Some v" "u \<le> v"
    and "\<forall>f\<in>set gs. fst f < u \<and> u \<le> fst f + fc_cooldown cfg"
  shows "\<exists>v. dict_get (fs_cooldown (fusion_run sha1 cfg (fs @ gs))) k = Some v \<and> u \<le> v"
  using assms(3)
proof (induction gs rule: rev_induct)
  case Nil with assms(1,2) show ?case by simp
next
  case (snoc g gs)
  then obtain v where "dict_get (fs_cooldown (fusion_run sha1 cfg (fs @ gs))) k = Some v" "u \<le> v" by auto
  from update_keeps_cooldown [OF this] snoc.prems show ?case
    unfolding append_assoc [symmetric] fusion_run_snoc fuse_frame_eq by simp
qed

text \<open>
  A dropped track stays away: in a run with times that do not go back, after a frame that dropped a track
  no frame within the cooldown makes a track of the same contributors active under an identifier that was not.
\<close>

theorem dropped_track_cools_down:
  assumes "sorted (map fst (g # gs @ [f]))"
    and "dict_get (fs_active (fusion_run sha1 cfg fs)) j = Some p"
    and "dict_get (fs_active (fusion_run sha1 cfg (fs @ [g]))) j = None"
    and "fst f < fst g + fc_cooldown cfg"
    and "dict_get (fs_active (fusion_run sha1 cfg (fs @ g # gs))) i = None"
    and "dict_get (fs_active (fusion_run sha1 cfg (fs @ g # gs @ [f]))) i = Some t"
  shows "fused_key t \<noteq> fused_key p"
proof
  let ?u = "fst g + fc_cooldown cfg"
  assume same: "fused_key t = fused_key p"
  have times: "fst g \<le> fst f" "\<forall>h\<in>set gs. fst g \<le> fst h \<and> fst h \<le> fst f"
    using assms(1) by (auto simp: sorted_append)
  obtain v where "dict_get (fs_cooldown (fusion_run sha1 cfg (fs @ [g]))) (fused_key p) = Some v" "?u \<le> v"
    using update_drops [OF assms(2), of cfg "fst g" "frame_tracks sha1 cfg g"] assms(3,4) times(1)
    by (auto simp: fusion_run_snoc fuse_frame_eq)
  from cooldown_lasts [OF this, of gs] obtain v where
    "dict_get (fs_cooldown (fusion_run sha1 cfg (fs @ g # gs))) (fused_key p) = Some v" "?u \<le> v"
    using times assms(4) by fastforce
  moreover have "\<not> fst f < dict_getd (fs_cooldown (fusion_run sha1 cfg (fs @ g # gs))) (fused_key t) 0"
    using update_active [of cfg "fst f" _ "fusion_run sha1 cfg (fs @ g # gs)" i t] assms(5,6)
      fusion_run_snoc [of sha1 cfg "fs @ g # gs" f] by (simp add: fuse_frame_eq)
  ultimately show False using assms(4) same by (simp add: dict_getd_def)
qed

section \<open>A run\<close>

definition one_track :: "string \<Rightarrow> real \<Rightarrow> tracks_by_source" where
  "one_track i t =
     [(''radar'', [\<lparr>so_source = ''radar'', so_id = i, so_t = t, so_pos = (100, 0), so_vel = None, so_quality = 1,
                    so_trust = 1\<rparr>])]"

definition one_fused :: "string \<Rightarrow> real \<Rightarrow> fused_track" where
  "one_fused i t =
     \<lparr>fu_id = ''radar:'' @ i, fu_t = t, fu_pos = (100, 0), fu_vel = None, fu_trust = 49 / 100,
      fu_contributors =
        [\<lparr>cb_source = ''radar'', cb_id = i, cb_quality = 1, cb_trust = 1, cb_pos = (100, 0), cb_vel = None,
          cb_dt = 0, cb_t = t\<rparr>],
      fu_flags = [''LOW_SUPPORT'']\<rparr>"

definition quick_fusion :: fusion_config where
  "quick_fusion = example_fusion_config\<lparr>fc_confirm_frames := 1\<rparr>"

lemmas example_fusion_defs = example_fusion_config_def quick_fusion_def one_fused_def fused_key_def sorted_keys_def
  cb_key_def dict_getd_def empty_fusion_def update_fusion_state_def place_all_def place_candidate_def
  retain_step_def Let_def

lemma one_track_fused:
  "0 \<le> t \<Longrightarrow> frame_tracks sha1 example_fusion_config (x, one_track i t) = [one_fused i t]"
  "0 \<le> t \<Longrightarrow> frame_tracks sha1 quick_fusion (x, one_track i t) = [one_fused i t]"
  by (simp_all add: frame_tracks_def one_track_def one_fused_def fuse_def fusion_associate_def fresh_ordered_def
      to_contributors_def Let_def example_fusion_config_def quick_fusion_def dict_getd_def reference_t_def
      contributor_of_def select_around_def select_step_def make_cluster_def fuse_cluster_def weighted_average_def
      fused_velocity_def cb_key_def)

lemma no_track_fused: "frame_tracks sha1 cfg (x, []) = []"
  by (simp add: frame_tracks_def fuse_def fusion_associate_def fresh_ordered_def to_contributors_def Let_def)

lemma confirming_run:
  "fs_active (fusion_run sha1 example_fusion_config [(1, one_track ''t1'' 1), (2, one_track ''t1'' 2)]) = []"
  "fs_active (fusion_run sha1 example_fusion_config
     ([(1, one_track ''t1'' 1), (2, one_track ''t1'' 2)] @ [(3, one_track ''t1'' 3)])) = [(''radar:t1'', one_fused ''t1'' 3)]"
  by (simp_all add: fusion_run_def fuse_frame_eq one_track_fused) (simp_all add: example_fusion_defs)

lemma dropping_run:
  "fs_active (fusion_run sha1 quick_fusion [(1, one_track ''t1'' 1)]) = [(''radar:t1'', one_fused ''t1'' 1)]"
  "fs_active (fusion_run sha1 quick_fusion ([(1, one_track ''t1'' 1)] @ [(6, [])])) = []"
  "fs_active (fusion_run sha1 quick_fusion ([(1, one_track ''t1'' 1)] @ (6, []) # [])) = []"
  "fs_active (fusion_run sha1 quick_fusion ([(1, one_track ''t1'' 1)] @ (6, []) # [] @ [(7, one_track ''t9'' 7)])) =
     [(''radar:t9'', one_fused ''t9'' 7)]"
  by (simp_all add: fusion_run_def fuse_frame_eq one_track_fused no_track_fused) (simp_all add: example_fusion_defs)

theorem fused_track_confirmed_witness:
  "one_fused ''t1'' 3 \<in> set (frame_tracks (\<lambda>s. s) example_fusion_config (3, one_track ''t1'' 3)) \<and>
   fu_id (one_fused ''t1'' 3) = ''radar:t1'' \<and>
   seen_in_last (\<lambda>s. s) example_fusion_config (nat (fc_confirm_frames example_fusion_config))
     ([(1, one_track ''t1'' 1), (2, one_track ''t1'' 2)] @ [(3, one_track ''t1'' 3)]) (fused_key (one_fused ''t1'' 3))"
  by (rule fused_track_confirmed) (simp_all only: confirming_run map_of.simps fst_conv snd_conv fun_upd_same)

theorem dropped_track_cools_down_witness: "fused_key (one_fused ''t9'' 7) \<noteq> fused_key (one_fused ''t1'' 1)"
  by (rule dropped_track_cools_down [of "(6, [])" "[]" "(7, one_track ''t9'' 7)" "\<lambda>s. s" quick_fusion
        "[(1, one_track ''t1'' 1)]" "''radar:t1''" _ "''radar:t9''"])
    (simp_all only: dropping_run map_of.simps fst_conv snd_conv fun_upd_same,
     simp_all add: quick_fusion_def example_fusion_config_def)

end
