(* ===== verification/Radar_Situation.thy ===== *)
theory Radar_Situation
  imports Radar_Fusion
begin

text \<open>
  Situations on the radar (\<open>src/qiki/services/q_core_agent/core/radar_situation_engine.py\<close>,
  \<open>radar_trail_store.py\<close>, \<open>radar_situation_config.py\<close>) and the stateless classification of an approach
  (\<open>src/qiki/shared/radar_risk.py\<close>): candidates of a scene, their confirmation, loss, resolution and
  cooldown. The clock is read once per evaluation. Distances, speeds and thresholds are finite numbers.
\<close>

section \<open>Trails\<close>

record trail_store =
  ts_max_len :: int
  ts_tracks :: "(string, radar_point list) dict"

definition new_trail_store :: "int \<Rightarrow> trail_store" where
  "new_trail_store n = \<lparr>ts_max_len = max 1 n, ts_tracks = []\<rparr>"

text \<open>\<open>metadata.get("target_id") or metadata.get("id") or f"target-{idx}"\<close>\<close>

definition or_else :: "string option \<Rightarrow> string \<Rightarrow> string" where
  "or_else x d = (case x of None \<Rightarrow> d | Some s \<Rightarrow> if s = [] then d else s)"

definition point_track_id :: "nat \<Rightarrow> radar_point \<Rightarrow> string" where
  "point_track_id idx p = or_else (rp_target_id p) (or_else (rp_id p) (''target-'' @ digits idx))"

definition trail_append :: "trail_store \<Rightarrow> string \<Rightarrow> radar_point \<Rightarrow> trail_store" where
  "trail_append ts i p =
     ts\<lparr>ts_tracks := dict_set (ts_tracks ts) i (deque_append (nat (ts_max_len ts)) (dict_getd (ts_tracks ts) i []) p)\<rparr>"

definition update_from_scene :: "trail_store \<Rightarrow> radar_scene \<Rightarrow> trail_store" where
  "update_from_scene ts sc =
     (if \<not> rs_ok sc then ts
      else foldl (\<lambda>ts (idx, p). trail_append ts (point_track_id idx p) p) ts (enumerate 0 (rs_points sc)))"

definition get_trail :: "trail_store \<Rightarrow> string \<Rightarrow> radar_point list" where
  "get_trail ts i = (if i = [] then [] else dict_getd (ts_tracks ts) i [])"

section \<open>Configuration\<close>

record situation_config =
  sg_enabled :: bool
  sg_cpa_warn_t :: real
  sg_cpa_crit_t :: real
  sg_cpa_crit_dist :: real
  sg_closing_warn :: real
  sg_near_dist :: real
  sg_near_recent :: real
  sg_confirm_frames :: int
  sg_cooldown :: real
  sg_lost_window :: real
  sg_auto_resolve :: real

text \<open>A threshold of the environment; no result for the numbers the model leaves out, infinity and NaN.\<close>

definition env_finite :: "(string \<Rightarrow> string option) \<Rightarrow> string \<Rightarrow> real \<Rightarrow> real option" where
  "env_finite env name d =
     (case env name of
        None \<Rightarrow> Some d
      | Some raw \<Rightarrow> (case py_float raw of None \<Rightarrow> Some d | Some (Fin x) \<Rightarrow> Some x | Some y \<Rightarrow> None))"

definition situation_enabled_env :: "(string \<Rightarrow> string option) \<Rightarrow> bool" where
  "situation_enabled_env env \<longleftrightarrow>
     (case env ''RADAR_SITUATION_ENABLE'' of
        None \<Rightarrow> True
      | Some raw \<Rightarrow> py_lower (py_strip raw) \<notin> {''0'', ''false'', ''no'', ''off''})"

record situation_runtime =
  sr_confirm_frames :: int
  sr_cooldown :: real
  sr_lost_window :: real
  sr_auto_resolve :: real
  sr_ack_snooze :: real

definition situation_runtime_from_env :: "(string \<Rightarrow> string option) \<Rightarrow> situation_runtime option" where
  "situation_runtime_from_env env =
     (case (env_finite env ''SITUATION_COOLDOWN_S'' 5, env_finite env ''LOST_CONTACT_WINDOW_S'' 2,
            env_finite env ''SITUATION_AUTO_RESOLVE_AFTER_LOST_S'' 2, env_finite env ''SITUATION_ACK_S'' 10) of
        (Some c, Some w, Some r, Some a) \<Rightarrow>
          Some \<lparr>sr_confirm_frames = max 1 (env_int env ''SITUATION_CONFIRM_FRAMES'' 3), sr_cooldown = max 0 c,
                sr_lost_window = max 0 w, sr_auto_resolve = max 0 r, sr_ack_snooze = max 0 a\<rparr>
      | _ \<Rightarrow> None)"

definition situation_config_from_env :: "(string \<Rightarrow> string option) \<Rightarrow> situation_config option" where
  "situation_config_from_env env =
     (case (situation_runtime_from_env env, env_finite env ''RADAR_CPA_WARN_T'' 20, env_finite env ''RADAR_CPA_CRIT_T'' 8,
            env_finite env ''RADAR_CPA_CRIT_DIST'' 150, env_finite env ''RADAR_CLOSING_SPEED_WARN'' 5,
            env_finite env ''RADAR_NEAR_DIST'' 300, env_finite env ''RADAR_NEAR_RECENT_S'' 8) of
        (Some r, Some wt, Some ct, Some cd, Some cw, Some nd, Some nr) \<Rightarrow>
          Some \<lparr>sg_enabled = situation_enabled_env env, sg_cpa_warn_t = wt, sg_cpa_crit_t = ct, sg_cpa_crit_dist = cd,
                sg_closing_warn = cw, sg_near_dist = nd, sg_near_recent = nr, sg_confirm_frames = sr_confirm_frames r,
                sg_cooldown = sr_cooldown r, sg_lost_window = sr_lost_window r, sg_auto_resolve = sr_auto_resolve r\<rparr>
      | _ \<Rightarrow> None)"

section \<open>Situations\<close>

datatype situation_type = CPA_RISK | CLOSING_FAST | ZONE_VIOLATION | LOST_CONTACT | UNKNOWN_NEARBY
datatype situation_severity = Sev_INFO | Sev_WARN | Sev_CRITICAL
datatype situation_status = Sit_ACTIVE | Sit_LOST | Sit_RESOLVED

datatype metric = MNum real | MText string

record situation =
  st_id :: string
  st_type :: situation_type
  st_severity :: situation_severity
  st_status :: situation_status
  st_reason :: string
  st_tracks :: "string list"
  st_metrics :: "(string, metric) dict"
  st_created :: real
  st_updated :: real
  st_is_active :: bool

record situation_candidate =
  sc_id :: string
  sc_type :: situation_type
  sc_severity :: situation_severity
  sc_reason :: string
  sc_tracks :: "string list"
  sc_metrics :: "(string, metric) dict"

datatype delta_event = D_created | D_updated | D_lost_contact | D_resolved

type_synonym situation_delta = "delta_event \<times> situation"

definition point_distance :: "radar_point \<Rightarrow> real" where
  "point_distance p = sqrt (rp_x p * rp_x p + rp_y p * rp_y p + rp_z p * rp_z p)"

definition closing_speed :: "radar_point \<Rightarrow> real" where
  "closing_speed p = max 0 (- rp_vr p)"

definition meta_text :: "string option \<Rightarrow> string" where
  "meta_text x = py_upper (py_strip (case x of None \<Rightarrow> [] | Some s \<Rightarrow> s))"

definition is_unknown :: "radar_point \<Rightarrow> bool" where
  "is_unknown p \<longleftrightarrow>
     meta_text (rp_iff p) \<in> {''UNKNOWN'', ''UNIDENTIFIED'', ''U''} \<or>
     meta_text (rp_object p) \<in> {''UNKNOWN'', ''UNIDENTIFIED'', ''UNSPECIFIED'', ''''}"

definition point_age :: "radar_point \<Rightarrow> real option" where
  "point_age p = (case rp_age p of Some (Fin a) \<Rightarrow> Some (max 0 a) | _ \<Rightarrow> None)"

text \<open>\<open>round(x, 3)\<close>\<close>

definition round3 :: "real \<Rightarrow> real" where
  "round3 x = of_int (round_half_even (x * 1000)) / 1000"

definition points_by_track :: "radar_point list \<Rightarrow> (string, radar_point) dict" where
  "points_by_track ps = foldl (\<lambda>m (idx, p). dict_set m (point_track_id idx p) p) [] (enumerate 0 ps)"

text \<open>The time to the closest approach; \<open>None\<close>: infinite.\<close>

definition time_to_cpa :: "radar_point \<Rightarrow> real option" where
  "time_to_cpa p =
     (if closing_speed p > 1 / 10 ^ 9 then Some (point_distance p / closing_speed p) else None)"

definition cpa_candidate :: "situation_config \<Rightarrow> string \<Rightarrow> radar_point \<Rightarrow> situation_candidate option" where
  "cpa_candidate cfg i p =
     (case time_to_cpa p of
        None \<Rightarrow> None
      | Some t \<Rightarrow>
          if closing_speed p > 0 \<and> t < sg_cpa_warn_t cfg
          then Some \<lparr>sc_id = ''cpa:'' @ i, sc_type = CPA_RISK,
                     sc_severity = (if t < sg_cpa_crit_t cfg \<and> point_distance p < sg_cpa_crit_dist cfg
                                    then Sev_CRITICAL else Sev_WARN),
                     sc_reason = ''CPA_THRESHOLD_EXCEEDED'', sc_tracks = [i],
                     sc_metrics = [(''distance_m'', MNum (round3 (point_distance p))),
                                   (''time_to_cpa_s'', MNum (round3 t)),
                                   (''closing_speed_mps'', MNum (round3 (closing_speed p)))]\<rparr>
          else None)"

text \<open>\<open>xs[-n:]\<close>\<close>

definition py_tail :: "int \<Rightarrow> 'a list \<Rightarrow> 'a list" where
  "py_tail n xs = (if 0 < n then drop (length xs - nat n) xs else drop (nat (- n)) xs)"

fun falling :: "real list \<Rightarrow> bool" where
  "falling (x # y # xs) \<longleftrightarrow> y < x \<and> falling (y # xs)"
| "falling xs = True"

definition is_distance_decreasing :: "situation_config \<Rightarrow> trail_store \<Rightarrow> string \<Rightarrow> bool" where
  "is_distance_decreasing cfg ts i \<longleftrightarrow>
     (let trail = get_trail ts i
      in \<not> int (length trail) < sg_confirm_frames cfg \<and>
         falling (map point_distance (py_tail (sg_confirm_frames cfg) trail)))"

definition closing_candidate ::
  "situation_config \<Rightarrow> trail_store \<Rightarrow> string \<Rightarrow> radar_point \<Rightarrow> situation_candidate option" where
  "closing_candidate cfg ts i p =
     (if closing_speed p > sg_closing_warn cfg \<and> is_distance_decreasing cfg ts i
      then Some \<lparr>sc_id = ''closing:'' @ i, sc_type = CLOSING_FAST, sc_severity = Sev_WARN,
                 sc_reason = ''CLOSING_SPEED_EXCEEDED'', sc_tracks = [i],
                 sc_metrics = [(''distance_m'', MNum (round3 (point_distance p))),
                               (''closing_speed_mps'', MNum (round3 (closing_speed p)))]\<rparr>
      else None)"

definition unknown_candidate :: "situation_config \<Rightarrow> string \<Rightarrow> radar_point \<Rightarrow> situation_candidate option" where
  "unknown_candidate cfg i p =
     (if is_unknown p \<and> point_distance p < sg_near_dist cfg \<and>
         (case point_age p of None \<Rightarrow> True | Some a \<Rightarrow> a \<le> sg_near_recent cfg)
      then Some \<lparr>sc_id = ''unknown:'' @ i, sc_type = UNKNOWN_NEARBY, sc_severity = Sev_WARN,
                 sc_reason = ''UNKNOWN_NEARBY'', sc_tracks = [i],
                 sc_metrics = [(''distance_m'', MNum (round3 (point_distance p))),
                               (''age_s'', case point_age p of Some a \<Rightarrow> MNum (round3 a) | None \<Rightarrow> MText ''n/a'')]\<rparr>
      else None)"

definition add_candidate ::
  "situation_candidate option \<Rightarrow> (string, situation_candidate) dict \<Rightarrow> (string, situation_candidate) dict" where
  "add_candidate c m = (case c of None \<Rightarrow> m | Some c \<Rightarrow> dict_set m (sc_id c) c)"

definition collect_step ::
  "situation_config \<Rightarrow> trail_store \<Rightarrow> (string, situation_candidate) dict \<Rightarrow> string \<times> radar_point \<Rightarrow>
   (string, situation_candidate) dict" where
  "collect_step cfg ts m e =
     add_candidate (unknown_candidate cfg (fst e) (snd e))
       (add_candidate (closing_candidate cfg ts (fst e) (snd e))
         (add_candidate (cpa_candidate cfg (fst e) (snd e)) m))"

definition collect_candidates ::
  "situation_config \<Rightarrow> radar_scene \<Rightarrow> trail_store \<Rightarrow> (string, situation_candidate) dict" where
  "collect_candidates cfg sc ts =
     (if \<not> rs_ok sc then [] else foldl (collect_step cfg ts) [] (points_by_track (rs_points sc)))"

section \<open>Evaluation\<close>

record situation_engine =
  se_active :: "(string, situation) dict"
  se_confirm :: "(string, int) dict"
  se_cooldown :: "(string, real) dict"

definition new_engine :: situation_engine where
  "new_engine = \<lparr>se_active = [], se_confirm = [], se_cooldown = []\<rparr>"

definition set_confirm :: "string \<Rightarrow> int \<Rightarrow> situation_engine \<Rightarrow> situation_engine" where
  "set_confirm i n e = e\<lparr>se_confirm := dict_set (se_confirm e) i n\<rparr>"

definition set_active :: "string \<Rightarrow> situation \<Rightarrow> situation_engine \<Rightarrow> situation_engine" where
  "set_active i s e = e\<lparr>se_active := dict_set (se_active e) i s\<rparr>"

text \<open>Equality of dictionaries does not depend on their order.\<close>

definition dict_eq :: "('k, 'v) dict \<Rightarrow> ('k, 'v) dict \<Rightarrow> bool" where
  "dict_eq a b \<longleftrightarrow>
     list_all (\<lambda>k. dict_get a k = dict_get b k) (dict_keys a) \<and> list_all (\<lambda>k. dict_get a k = dict_get b k) (dict_keys b)"

definition situation_changed :: "situation \<Rightarrow> situation \<Rightarrow> bool" where
  "situation_changed old new \<longleftrightarrow>
     st_severity old \<noteq> st_severity new \<or> \<not> dict_eq (st_metrics old) (st_metrics new) \<or> st_tracks old \<noteq> st_tracks new \<or>
     st_status old \<noteq> st_status new \<or> st_reason old \<noteq> st_reason new"

definition create_situation :: "real \<Rightarrow> situation_candidate \<Rightarrow> situation" where
  "create_situation now c =
     \<lparr>st_id = sc_id c, st_type = sc_type c, st_severity = sc_severity c, st_status = Sit_ACTIVE, st_reason = sc_reason c,
      st_tracks = sc_tracks c, st_metrics = sc_metrics c, st_created = now, st_updated = now, st_is_active = True\<rparr>"

definition refresh_situation :: "real \<Rightarrow> situation_candidate \<Rightarrow> situation \<Rightarrow> situation" where
  "refresh_situation now c prev =
     \<lparr>st_id = st_id prev, st_type = sc_type c, st_severity = sc_severity c, st_status = Sit_ACTIVE,
      st_reason = (if st_status prev = Sit_LOST then ''CONTACT_RESTORED'' else sc_reason c),
      st_tracks = sc_tracks c, st_metrics = sc_metrics c, st_created = st_created prev, st_updated = now,
      st_is_active = True\<rparr>"

definition candidate_step ::
  "situation_config \<Rightarrow> real \<Rightarrow> situation_engine \<times> situation_delta list \<Rightarrow> string \<times> situation_candidate \<Rightarrow>
   situation_engine \<times> situation_delta list" where
  "candidate_step cfg now s e =
     (let i = fst e; c = snd e; en = fst s
      in case dict_get (se_active en) i of
           None \<Rightarrow>
             if dict_getd (se_cooldown en) i 0 > now then (set_confirm i 0 en, snd s)
             else let hit = dict_getd (se_confirm en) i 0 + 1
                  in if hit < sg_confirm_frames cfg then (set_confirm i hit en, snd s)
                     else (set_active i (create_situation now c) (set_confirm i hit en),
                           snd s @ [(D_created, create_situation now c)])
         | Some prev \<Rightarrow>
             (set_active i (refresh_situation now c prev) (set_confirm i (sg_confirm_frames cfg) en),
              snd s @ (if situation_changed prev (refresh_situation now c prev)
                       then [(D_updated, refresh_situation now c prev)] else [])))"

definition mark_absent :: "situation_status \<Rightarrow> string \<Rightarrow> real \<Rightarrow> situation \<Rightarrow> situation" where
  "mark_absent status reason now prev =
     prev\<lparr>st_status := status, st_reason := reason,
          st_metrics := dict_set (st_metrics prev) ''absent_for_s'' (MNum (round3 (now - st_updated prev))),
          st_updated := now, st_is_active := (status = Sit_LOST)\<rparr>"

definition drop_situation :: "string \<Rightarrow> real \<Rightarrow> situation_engine \<Rightarrow> situation_engine" where
  "drop_situation i until_ts e =
     e\<lparr>se_active := dict_pop (se_active e) i, se_cooldown := dict_set (se_cooldown e) i until_ts\<rparr>"

definition missing_step ::
  "situation_config \<Rightarrow> real \<Rightarrow> string list \<Rightarrow> situation_engine \<times> situation_delta list \<Rightarrow> string \<Rightarrow>
   situation_engine \<times> situation_delta list" where
  "missing_step cfg now cands s i =
     (if i \<in> set cands then s
      else case dict_get (se_active (fst s)) i of
        None \<Rightarrow> s
      | Some prev \<Rightarrow>
          let en = set_confirm i 0 (fst s); absent = now - st_updated prev;
              lost = mark_absent Sit_LOST ''CONTACT_LOST'' now prev;
              resolved = mark_absent Sit_RESOLVED ''AUTO_RESOLVED_AFTER_LOST'' now prev
          in if st_status prev = Sit_ACTIVE
             then if absent < sg_lost_window cfg then (en, snd s)
                  else (set_active i lost en, snd s @ [(D_lost_contact, lost)])
             else if st_status prev = Sit_LOST \<and> absent \<ge> sg_auto_resolve cfg
                  then (drop_situation i (now + sg_cooldown cfg) en, snd s @ [(D_resolved, resolved)])
                  else (en, snd s))"

definition clean_confirm :: "string list \<Rightarrow> situation_engine \<Rightarrow> situation_engine" where
  "clean_confirm cands e =
     e\<lparr>se_confirm := map (\<lambda>(i, n). (i, if i \<notin> set cands \<and> dict_get (se_active e) i = None then 0 else n)) (se_confirm e)\<rparr>"

fun severity_rank :: "situation_severity \<Rightarrow> nat" where
  "severity_rank Sev_CRITICAL = 0"
| "severity_rank Sev_WARN = 1"
| "severity_rank Sev_INFO = 2"

fun status_rank :: "situation_status \<Rightarrow> nat" where
  "status_rank Sit_ACTIVE = 0"
| "status_rank Sit_LOST = 1"
| "status_rank Sit_RESOLVED = 2"

definition evaluate_candidates ::
  "situation_config \<Rightarrow> real \<Rightarrow> (string, situation_candidate) dict \<Rightarrow> situation_engine \<Rightarrow>
   situation_engine \<times> situation_delta list" where
  "evaluate_candidates cfg now cands e =
     (let s1 = foldl (candidate_step cfg now) (e, []) cands;
          s2 = foldl (missing_step cfg now (dict_keys cands)) s1 (sort (dict_keys (se_active (fst s1))))
      in (clean_confirm (dict_keys cands) (fst s2), snd s2))"

definition situation_evaluate ::
  "situation_config \<Rightarrow> real \<Rightarrow> radar_scene \<Rightarrow> trail_store \<Rightarrow> situation_engine \<Rightarrow>
   situation_engine \<times> situation list \<times> situation_delta list" where
  "situation_evaluate cfg now sc ts e =
     (if \<not> sg_enabled cfg then (e, [], [])
      else let (e', ds) = evaluate_candidates cfg now (collect_candidates cfg sc ts) e
           in (e', sort_key (\<lambda>s. (severity_rank (st_severity s), status_rank (st_status s), st_id s)) (dict_values (se_active e')), ds))"

fun severity_name :: "situation_severity \<Rightarrow> string" where
  "severity_name Sev_INFO = ''INFO''"
| "severity_name Sev_WARN = ''WARN''"
| "severity_name Sev_CRITICAL = ''CRITICAL''"

definition summarize_situations :: "situation list \<Rightarrow> (string, int) dict" where
  "summarize_situations ss =
     foldl (\<lambda>m s. dict_set m (severity_name (st_severity s)) (dict_getd m (severity_name (st_severity s)) 0 + 1))
       [(''CRITICAL'', 0), (''WARN'', 0), (''INFO'', 0)] ss"

section \<open>The stateless classification\<close>

definition RADAR_CPA_WARN_T_S :: real where "RADAR_CPA_WARN_T_S = 20"
definition RADAR_CPA_CRIT_T_S :: real where "RADAR_CPA_CRIT_T_S = 8"
definition RADAR_CPA_CRIT_DIST_M :: real where "RADAR_CPA_CRIT_DIST_M = 150"
definition RADAR_CLOSING_SPEED_WARN_MPS :: real where "RADAR_CLOSING_SPEED_WARN_MPS = 5"

definition classify_approach_risk :: "pyfloat \<Rightarrow> pyfloat \<Rightarrow> string \<times> real option" where
  "classify_approach_risk range_m vr_mps =
     (case (range_m, vr_mps) of
        (Fin r, Fin v) \<Rightarrow>
          (let closing = max 0 (- v); t = r / closing
           in if r < 0 \<or> closing \<le> 1 / 10 ^ 9 then (''ok'', None)
              else if t < RADAR_CPA_CRIT_T_S \<and> r < RADAR_CPA_CRIT_DIST_M then (''crit'', Some t)
              else if t < RADAR_CPA_WARN_T_S \<or> closing > RADAR_CLOSING_SPEED_WARN_MPS then (''warn'', Some t)
              else (''ok'', Some t))
      | _ \<Rightarrow> (''ok'', None))"

end
