(* ===== verification/Situation_Runs.thy ===== *)
theory Situation_Runs
  imports Radar_Situation
begin

text \<open>
  The situation engine over many evaluations (\<open>radar_situation_engine.py\<close>, \<open>evaluate\<close>). The engine keeps
  three dictionaries and walks over them in three loops; the specification here is one small machine per
  situation identifier, and the engine is shown to be their product. What holds of the machine (confirmation,
  cooldown, the stream of events) then holds of the engine.
\<close>

section \<open>The specification: one situation\<close>

record life =
  lf_situation :: "situation option"
  lf_hits :: int
  lf_until :: real

definition new_life :: life where
  "new_life = \<lparr>lf_situation = None, lf_hits = 0, lf_until = 0\<rparr>"

definition life_present ::
  "situation_config \<Rightarrow> real \<Rightarrow> situation_candidate \<Rightarrow> life \<Rightarrow> life \<times> situation_delta list" where
  "life_present cfg now c l =
     (case lf_situation l of
        None \<Rightarrow>
          if lf_until l > now then (l\<lparr>lf_hits := 0\<rparr>, [])
          else if lf_hits l + 1 < sg_confirm_frames cfg then (l\<lparr>lf_hits := lf_hits l + 1\<rparr>, [])
          else (l\<lparr>lf_situation := Some (create_situation now c), lf_hits := lf_hits l + 1\<rparr>,
                [(D_created, create_situation now c)])
      | Some prev \<Rightarrow>
          (l\<lparr>lf_situation := Some (refresh_situation now c prev), lf_hits := sg_confirm_frames cfg\<rparr>,
           if situation_changed prev (refresh_situation now c prev) then [(D_updated, refresh_situation now c prev)] else []))"

definition life_absent :: "situation_config \<Rightarrow> real \<Rightarrow> life \<Rightarrow> life \<times> situation_delta list" where
  "life_absent cfg now l0 =
     (let l = l0\<lparr>lf_hits := 0\<rparr>
      in case lf_situation l of
           None \<Rightarrow> (l, [])
         | Some prev \<Rightarrow>
             let lost = mark_absent Sit_LOST ''CONTACT_LOST'' now prev;
                 resolved = mark_absent Sit_RESOLVED ''AUTO_RESOLVED_AFTER_LOST'' now prev
             in if st_status prev = Sit_ACTIVE
                then if now - st_updated prev < sg_lost_window cfg then (l, [])
                     else (l\<lparr>lf_situation := Some lost\<rparr>, [(D_lost_contact, lost)])
                else if st_status prev = Sit_LOST \<and> now - st_updated prev \<ge> sg_auto_resolve cfg
                then (l\<lparr>lf_situation := None, lf_until := now + sg_cooldown cfg\<rparr>, [(D_resolved, resolved)])
                else (l, []))"

definition life_step ::
  "situation_config \<Rightarrow> life \<Rightarrow> real \<times> situation_candidate option \<Rightarrow> life \<times> situation_delta list" where
  "life_step cfg l f =
     (if \<not> sg_enabled cfg then (l, [])
      else case snd f of None \<Rightarrow> life_absent cfg (fst f) l | Some c \<Rightarrow> life_present cfg (fst f) c l)"

section \<open>Each identifier on its own\<close>

text \<open>A loop whose step for another key leaves a view of the state alone.\<close>

lemma foldl_other_keys:
  assumes "\<forall>s e. I s \<longrightarrow> e \<in> set xs \<longrightarrow> I (step s e)"
    and "\<forall>s e. I s \<longrightarrow> e \<in> set xs \<longrightarrow> key e \<noteq> i \<longrightarrow> view (step s e) = view s"
    and "I s" "i \<notin> key ` set xs"
  shows "view (foldl step s xs) = view s"
  using assms
proof (induction xs arbitrary: s)
  case (Cons e xs)
  have "view (foldl step (step s e) xs) = view (step s e)"
    by (rule Cons.IH) (use Cons.prems in simp_all)
  moreover have "view (step s e) = view s" using Cons.prems(2-4) by auto
  ultimately show ?case by simp
qed simp

lemma foldl_one_key:
  assumes "\<forall>s e. I s \<longrightarrow> e \<in> set xs \<longrightarrow> I (step s e)"
    and "\<forall>s e. I s \<longrightarrow> e \<in> set xs \<longrightarrow> key e \<noteq> i \<longrightarrow> view (step s e) = view s"
    and "\<forall>s e. I s \<longrightarrow> e \<in> set xs \<longrightarrow> key e = i \<longrightarrow> view (step s e) = g e (view s)"
    and "I s" "e \<in> set xs" "key e = i" "distinct (map key xs)"
  shows "view (foldl step s xs) = g e (view s)"
proof -
  from split_list [OF assms(5)] obtain ys zs where xs: "xs = ys @ e # zs" by blast
  then have other: "i \<notin> key ` set ys" "i \<notin> key ` set zs" using assms(6,7) by auto
  have I: "I (foldl step s ys)"
    by (rule foldl_inv [where P = I]) (use assms(1,4) xs in simp_all)
  have "view (foldl step s ys) = view s"
    by (rule foldl_other_keys [where I = I and key = key and i = i]) (use assms(1,2,4) xs other in simp_all)
  moreover have "view (foldl step (step (foldl step s ys) e) zs) = view (step (foldl step s ys) e)"
    by (rule foldl_other_keys [where I = I and key = key and i = i]) (use assms(1,2) xs other I in simp_all)
  moreover have "view (step (foldl step s ys) e) = g e (view (foldl step s ys))" using assms(3,5,6) I by simp
  ultimately show ?thesis using xs by simp
qed

definition deltas_of :: "string \<Rightarrow> situation_delta list \<Rightarrow> situation_delta list" where
  "deltas_of i ds = filter (\<lambda>d. st_id (snd d) = i) ds"

lemma deltas_of_append [simp]: "deltas_of i (xs @ ys) = deltas_of i xs @ deltas_of i ys"
  and deltas_of_Nil [simp]: "deltas_of i [] = []"
  by (simp_all add: deltas_of_def)

definition life_of :: "situation_engine \<Rightarrow> string \<Rightarrow> life" where
  "life_of e i =
     \<lparr>lf_situation = dict_get (se_active e) i, lf_hits = dict_getd (se_confirm e) i 0,
      lf_until = dict_getd (se_cooldown e) i 0\<rparr>"

definition life_view :: "string \<Rightarrow> situation_engine \<times> situation_delta list \<Rightarrow> life \<times> situation_delta list" where
  "life_view i s = (life_of (fst s) i, deltas_of i (snd s))"

definition engine_ok :: "situation_engine \<Rightarrow> bool" where
  "engine_ok e \<longleftrightarrow>
     wf_dict (se_active e) \<and> wf_dict (se_confirm e) \<and>
     (\<forall>i s. dict_get (se_active e) i = Some s \<longrightarrow> st_id s = i)"

definition candidates_ok :: "(string, situation_candidate) dict \<Rightarrow> bool" where
  "candidates_ok m \<longleftrightarrow> wf_dict m \<and> (\<forall>e\<in>set m. sc_id (snd e) = fst e)"

definition tail_view :: "life \<times> situation_delta list \<Rightarrow> (life \<Rightarrow> life \<times> situation_delta list) \<Rightarrow> life \<times> situation_delta list" where
  "tail_view v f = (let (l, ds) = f (fst v) in (l, snd v @ ds))"

lemma situation_ids [simp]:
  "st_id (create_situation now c) = sc_id c" "st_id (refresh_situation now c prev) = st_id prev"
  "st_id (mark_absent st r now prev) = st_id prev"
  by (simp_all add: create_situation_def refresh_situation_def mark_absent_def)

lemmas engine_defs = set_confirm_def set_active_def drop_situation_def

lemma candidate_step_ok:
  assumes "engine_ok (fst s)" "sc_id (snd e) = fst e"
  shows "engine_ok (fst (candidate_step cfg now s e))"
  using assms by (auto simp: candidate_step_def engine_ok_def engine_defs Let_def split: option.splits)

lemma candidate_step_other:
  assumes "engine_ok (fst s)" "sc_id (snd e) = fst e" "fst e \<noteq> i"
  shows "life_view i (candidate_step cfg now s e) = life_view i s"
  using assms by (auto simp: candidate_step_def engine_ok_def engine_defs Let_def life_view_def life_of_def deltas_of_def
      split: option.splits)

lemma candidate_step_own:
  assumes "engine_ok (fst s)" "sc_id (snd e) = fst e" "fst e = i"
  shows "life_view i (candidate_step cfg now s e) = tail_view (life_view i s) (life_present cfg now (snd e))"
  using assms by (auto simp: candidate_step_def engine_ok_def engine_defs Let_def life_view_def life_of_def deltas_of_def
      tail_view_def life_present_def split: option.splits)

lemma missing_step_ok: "engine_ok (fst s) \<Longrightarrow> engine_ok (fst (missing_step cfg now cands s i))"
  by (auto simp: missing_step_def engine_ok_def engine_defs Let_def split: option.splits)

lemma missing_step_other:
  "engine_ok (fst s) \<Longrightarrow> j \<noteq> i \<Longrightarrow> life_view i (missing_step cfg now cands s j) = life_view i s"
  by (auto simp: missing_step_def engine_ok_def engine_defs Let_def life_view_def life_of_def deltas_of_def
      split: option.splits)

lemma missing_step_own:
  assumes "engine_ok (fst s)" "i \<notin> set cands" "dict_get (se_active (fst s)) i \<noteq> None"
  shows "life_view i (missing_step cfg now cands s i) = tail_view (life_view i s) (life_absent cfg now)"
  using assms by (auto simp: missing_step_def engine_ok_def engine_defs Let_def life_view_def life_of_def deltas_of_def
      tail_view_def life_absent_def split: option.splits)

lemma candidates_loop_ok:
  assumes "engine_ok (fst s)" "candidates_ok m"
  shows "engine_ok (fst (foldl (candidate_step cfg now) s m))"
  by (rule foldl_inv [where P = "\<lambda>s. engine_ok (fst s)"])
    (use assms in \<open>auto simp: candidates_ok_def intro: candidate_step_ok\<close>)

lemma candidates_loop_view:
  assumes "engine_ok (fst s)" "candidates_ok m"
  shows "life_view i (foldl (candidate_step cfg now) s m) =
         (case dict_get m i of None \<Rightarrow> life_view i s | Some c \<Rightarrow> tail_view (life_view i s) (life_present cfg now c))"
proof -
  have ok: "\<forall>s e. engine_ok (fst s) \<longrightarrow> e \<in> set m \<longrightarrow> engine_ok (fst (candidate_step cfg now s e))"
    and other: "\<forall>s e. engine_ok (fst s) \<longrightarrow> e \<in> set m \<longrightarrow> fst e \<noteq> i \<longrightarrow>
      life_view i (candidate_step cfg now s e) = life_view i s"
    and own: "\<forall>s e. engine_ok (fst s) \<longrightarrow> e \<in> set m \<longrightarrow> fst e = i \<longrightarrow>
      life_view i (candidate_step cfg now s e) = tail_view (life_view i s) (life_present cfg now (snd e))"
    using assms(2) by (auto simp: candidates_ok_def candidate_step_ok candidate_step_other candidate_step_own)
  show ?thesis
  proof (cases "dict_get m i")
    case None
    then have "i \<notin> fst ` set m" by (simp add: map_of_eq_None_iff)
    from foldl_other_keys [OF ok other assms(1) this] None show ?thesis by simp
  next
    case (Some c)
    then show ?thesis
      using foldl_one_key [OF ok other own assms(1) map_of_SomeD [OF Some]] assms(2)
      by (simp add: candidates_ok_def wf_dict_def)
  qed
qed

lemma missing_loop_ok:
  "engine_ok (fst s) \<Longrightarrow> engine_ok (fst (foldl (missing_step cfg now cands) s is))"
  by (rule foldl_inv [where P = "\<lambda>s. engine_ok (fst s)"]) (auto intro: missing_step_ok)

lemma missing_loop_view:
  assumes "engine_ok (fst s)"
  shows "life_view i (foldl (missing_step cfg now cands) s (sort (dict_keys (se_active (fst s))))) =
         (if i \<in> set cands \<or> dict_get (se_active (fst s)) i = None then life_view i s
          else tail_view (life_view i s) (life_absent cfg now))"
proof -
  let ?ids = "sort (dict_keys (se_active (fst s)))"
  let ?I = "\<lambda>t. engine_ok (fst t)"
  show ?thesis
  proof (cases "i \<in> set ?ids")
    case False
    have "life_view i (foldl (missing_step cfg now cands) s ?ids) = life_view i s"
      by (rule foldl_other_keys [where I = ?I and key = "\<lambda>x. x" and i = i])
        (use assms False in \<open>auto simp: missing_step_ok missing_step_other\<close>)
    with False show ?thesis by (simp add: map_of_eq_None_iff)
  next
    case True
    then have active: "dict_get (se_active (fst s)) i \<noteq> None" by (simp add: map_of_eq_None_iff)
    obtain ys zs where ids: "?ids = ys @ i # zs" using split_list [OF True] by blast
    have "distinct ?ids" using assms by (simp add: engine_ok_def wf_dict_def)
    then have other: "i \<notin> set ys" "i \<notin> set zs" using ids by auto
    let ?f = "foldl (missing_step cfg now cands)"
    have ys: "life_view i (?f s ys) = life_view i s" and ok: "engine_ok (fst (?f s ys))"
      by (rule foldl_other_keys [where I = ?I and key = "\<lambda>x. x" and i = i])
        (use assms other in \<open>auto simp: missing_step_ok missing_step_other missing_loop_ok\<close>)
    have zs: "life_view i (?f (missing_step cfg now cands (?f s ys) i) zs) = life_view i (missing_step cfg now cands (?f s ys) i)"
      by (rule foldl_other_keys [where I = ?I and key = "\<lambda>x. x" and i = i])
        (use ok other in \<open>auto simp: missing_step_ok missing_step_other\<close>)
    have "dict_get (se_active (fst (?f s ys))) i \<noteq> None"
      using ys active by (simp add: life_view_def life_of_def)
    then have "life_view i (missing_step cfg now cands (?f s ys) i) =
      (if i \<in> set cands then life_view i s else tail_view (life_view i s) (life_absent cfg now))"
      using missing_step_own [OF ok] ys by (simp add: missing_step_def)
    with zs ids active show ?thesis by auto
  qed
qed

lemma dict_getd_map_value:
  "dict_getd (map (\<lambda>(k, v). (k, f k v)) m) k d = (case dict_get m k of None \<Rightarrow> d | Some v \<Rightarrow> f k v)"
  by (induction m) (auto simp: dict_getd_def)

lemma clean_confirm_view:
  "life_view i (clean_confirm cands e, ds) =
     (if i \<notin> set cands \<and> dict_get (se_active e) i = None
      then ((fst (life_view i (e, ds)))\<lparr>lf_hits := 0\<rparr>, snd (life_view i (e, ds))) else life_view i (e, ds))"
  by (simp add: life_view_def life_of_def clean_confirm_def dict_getd_map_value)
    (auto simp: dict_getd_def split: option.splits)

lemma clean_confirm_ok: "engine_ok e \<Longrightarrow> engine_ok (clean_confirm cands e)"
  by (auto simp: engine_ok_def clean_confirm_def wf_dict_def comp_def case_prod_beta)

lemma evaluate_view:
  assumes "engine_ok e" "candidates_ok m" "sg_enabled cfg"
  shows "engine_ok (fst (evaluate_candidates cfg now m e))"
    and "life_view i (evaluate_candidates cfg now m e) = life_step cfg (life_of e i) (now, dict_get m i)"
proof -
  let ?s1 = "foldl (candidate_step cfg now) (e, []) m"
  let ?s2 = "foldl (missing_step cfg now (dict_keys m)) ?s1 (sort (dict_keys (se_active (fst ?s1))))"
  have ok1: "engine_ok (fst ?s1)" by (rule candidates_loop_ok) (use assms in auto)
  then have ok2: "engine_ok (fst ?s2)" by (rule missing_loop_ok)
  have ev: "evaluate_candidates cfg now m e = (clean_confirm (dict_keys m) (fst ?s2), snd ?s2)"
    by (simp add: evaluate_candidates_def Let_def)
  from ok2 show "engine_ok (fst (evaluate_candidates cfg now m e))" by (simp add: ev clean_confirm_ok)
  have v1: "life_view i ?s1 = (case dict_get m i of None \<Rightarrow> (life_of e i, [])
      | Some c \<Rightarrow> life_present cfg now c (life_of e i))"
    using candidates_loop_view [of "(e, [])" m i cfg now] assms
    by (simp add: life_view_def tail_view_def split: option.splits prod.splits)
  show "life_view i (evaluate_candidates cfg now m e) = life_step cfg (life_of e i) (now, dict_get m i)"
  proof (cases "dict_get m i")
    case (Some c)
    then have "i \<in> set (dict_keys m)" using dict_in_keys_iff by fastforce
    then show ?thesis
      using missing_loop_view [OF ok1, of i cfg now "dict_keys m"] v1 Some assms(3)
        clean_confirm_view [of i "dict_keys m" "fst ?s2" "snd ?s2"] by (simp add: ev life_step_def)
  next
    case None
    then have out: "i \<notin> set (dict_keys m)" by (simp add: map_of_eq_None_iff)
    have v1': "life_view i ?s1 = (life_of e i, [])" using v1 None by simp
    then have active: "dict_get (se_active (fst ?s1)) i = lf_situation (life_of e i)"
      by (simp add: life_view_def life_of_def)
    have v2: "life_view i ?s2 = (if lf_situation (life_of e i) = None then (life_of e i, [])
        else life_absent cfg now (life_of e i))"
      using missing_loop_view [OF ok1, of i cfg now "dict_keys m"] v1' out active
      by (simp add: tail_view_def split: prod.splits)
    have sit2: "dict_get (se_active (fst ?s2)) i = lf_situation (fst (life_view i ?s2))"
      by (simp add: life_view_def life_of_def)
    have "life_view i (clean_confirm (dict_keys m) (fst ?s2), snd ?s2) = life_absent cfg now (life_of e i)"
      using clean_confirm_view [of i "dict_keys m" "fst ?s2" "snd ?s2"] out v2 sit2
      by (cases "lf_situation (life_of e i)") (auto simp: life_absent_def Let_def split: if_splits)
    then show ?thesis using None assms(3) by (simp add: ev life_step_def)
  qed
qed

lemma add_candidate_ok: "candidates_ok m \<Longrightarrow> candidates_ok (add_candidate c m)"
  using set_dict_set [of "sc_id (the c)" "the c" m]
  by (cases c) (auto simp: add_candidate_def candidates_ok_def)

lemma collect_candidates_ok: "candidates_ok (collect_candidates cfg sc ts)"
proof -
  have "candidates_ok (foldl (collect_step cfg ts) [] ps)" for ps
    by (rule foldl_inv [where P = candidates_ok])
      (simp_all add: collect_step_def add_candidate_ok, simp add: candidates_ok_def)
  then show ?thesis by (simp add: collect_candidates_def) (simp add: candidates_ok_def)
qed

section \<open>Runs\<close>

text \<open>Evaluations at some times, of any scenes, with any trails.\<close>

type_synonym situation_frame = "real \<times> radar_scene \<times> trail_store"

definition frame_candidates :: "situation_config \<Rightarrow> situation_frame \<Rightarrow> (string, situation_candidate) dict" where
  "frame_candidates cfg f = collect_candidates cfg (fst (snd f)) (snd (snd f))"

definition engine_frame ::
  "situation_config \<Rightarrow> situation_engine \<times> situation_delta list \<Rightarrow> situation_frame \<Rightarrow> situation_engine \<times> situation_delta list" where
  "engine_frame cfg s f =
     (let (e, ss, ds) = situation_evaluate cfg (fst f) (fst (snd f)) (snd (snd f)) (fst s) in (e, snd s @ ds))"

definition engine_run :: "situation_config \<Rightarrow> situation_frame list \<Rightarrow> situation_engine \<times> situation_delta list" where
  "engine_run cfg fs = foldl (engine_frame cfg) (new_engine, []) fs"

definition life_frame ::
  "situation_config \<Rightarrow> string \<Rightarrow> life \<times> situation_delta list \<Rightarrow> situation_frame \<Rightarrow> life \<times> situation_delta list" where
  "life_frame cfg i s f = tail_view s (\<lambda>l. life_step cfg l (fst f, dict_get (frame_candidates cfg f) i))"

definition life_run :: "situation_config \<Rightarrow> string \<Rightarrow> situation_frame list \<Rightarrow> life \<times> situation_delta list" where
  "life_run cfg i fs = foldl (life_frame cfg i) (new_life, []) fs"

lemma run_snoc:
  "engine_run cfg (fs @ [f]) = engine_frame cfg (engine_run cfg fs) f"
  "life_run cfg i (fs @ [f]) = life_frame cfg i (life_run cfg i fs) f"
  by (simp_all add: engine_run_def life_run_def)

lemma engine_frame_view:
  assumes "engine_ok (fst s)"
  shows "engine_ok (fst (engine_frame cfg s f)) \<and> life_view i (engine_frame cfg s f) = life_frame cfg i (life_view i s) f"
proof (cases "sg_enabled cfg")
  case True
  obtain e ds where ev: "evaluate_candidates cfg (fst f) (frame_candidates cfg f) (fst s) = (e, ds)" by (cases rule: prod.exhaust)
  have c: "candidates_ok (frame_candidates cfg f)" by (simp add: frame_candidates_def collect_candidates_ok)
  have *: "engine_ok e" "life_view i (e, ds) = life_step cfg (life_of (fst s) i) (fst f, dict_get (frame_candidates cfg f) i)"
    using evaluate_view(1) [OF assms c True, of "fst f"] evaluate_view(2) [OF assms c True, of i "fst f"] ev by simp_all
  have "engine_frame cfg s f = (e, snd s @ ds)"
    using ev True by (simp add: engine_frame_def situation_evaluate_def frame_candidates_def)
  with * show ?thesis
    by (simp add: life_frame_def tail_view_def life_view_def *(2) [symmetric])
next
  case False
  then show ?thesis using assms
    by (simp add: engine_frame_def situation_evaluate_def life_frame_def life_step_def tail_view_def)
qed

lemma engine_run_ok: "engine_ok (fst (engine_run cfg fs))"
  by (induction fs rule: rev_induct)
    (simp_all add: run_snoc engine_frame_view, simp add: engine_run_def new_engine_def engine_ok_def)

lemma situation_engine_refines_lives_view: "life_view i (engine_run cfg fs) = life_run cfg i fs"
proof (induction fs rule: rev_induct)
  case Nil
  show ?case by (simp add: engine_run_def life_run_def life_view_def new_engine_def life_of_def new_life_def dict_getd_def)
next
  case (snoc f fs)
  then show ?case using engine_frame_view [OF engine_run_ok] by (simp add: run_snoc)
qed

text \<open>
  C19. The situation engine is the product of one machine per situation: whatever scenes, trails and times it
  is given, the active situation, the confirmations, the cooldown and the events of every identifier are those
  of its own machine, which sees only whether the identifier is a candidate of the frame.
\<close>

theorem situation_engine_refines_lives:
  "life_view i (engine_run cfg fs) = life_run cfg i fs"
  by (rule situation_engine_refines_lives_view)

section \<open>Confirmation and cooldown\<close>

text \<open>The events of one more evaluation.\<close>

definition frame_deltas :: "situation_config \<Rightarrow> situation_frame list \<Rightarrow> situation_frame \<Rightarrow> situation_delta list" where
  "frame_deltas cfg fs f =
     (let (e, ss, ds) = situation_evaluate cfg (fst f) (fst (snd f)) (snd (snd f)) (fst (engine_run cfg fs)) in ds)"

definition life_at :: "situation_config \<Rightarrow> string \<Rightarrow> situation_frame list \<Rightarrow> life" where
  "life_at cfg i fs = fst (life_run cfg i fs)"

lemma life_at_snoc:
  "life_at cfg i (fs @ [f]) = fst (life_step cfg (life_at cfg i fs) (fst f, dict_get (frame_candidates cfg f) i))"
  by (simp add: life_at_def run_snoc life_frame_def tail_view_def split: prod.splits)

lemma life_at_Nil: "life_at cfg i [] = new_life"
  by (simp add: life_at_def life_run_def)

lemma engine_run_snd: "snd (engine_run cfg (fs @ [f])) = snd (engine_run cfg fs) @ frame_deltas cfg fs f"
  by (simp add: run_snoc engine_frame_def frame_deltas_def split: prod.splits)

lemma life_of_engine: "life_of (fst (engine_run cfg fs)) i = life_at cfg i fs"
  using situation_engine_refines_lives_view [of i cfg fs] by (metis fst_conv life_at_def life_view_def)

lemma frame_deltas_life:
  "deltas_of i (frame_deltas cfg fs f) = snd (life_step cfg (life_at cfg i fs) (fst f, dict_get (frame_candidates cfg f) i))"
proof -
  have "deltas_of i (snd (engine_run cfg (fs @ [f]))) = snd (life_run cfg i (fs @ [f]))"
    "deltas_of i (snd (engine_run cfg fs)) = snd (life_run cfg i fs)"
    by (simp_all flip: situation_engine_refines_lives_view add: life_view_def)
  then show ?thesis
    by (simp add: engine_run_snd run_snoc(2) life_frame_def tail_view_def life_at_def split: prod.splits)
qed

lemma delta_of_life:
  "d \<in> set (frame_deltas cfg fs f) \<Longrightarrow>
   d \<in> set (snd (life_step cfg (life_at cfg (st_id (snd d)) fs) (fst f, dict_get (frame_candidates cfg f) (st_id (snd d)))))"
  by (simp flip: frame_deltas_life add: deltas_of_def)

lemma life_step_created:
  assumes "(D_created, s) \<in> set (snd (life_step cfg l f))"
  shows "snd f \<noteq> None \<and> lf_situation l = None \<and> \<not> lf_until l > fst f \<and> sg_confirm_frames cfg \<le> lf_hits l + 1"
  using assms by (auto simp: life_step_def life_present_def life_absent_def Let_def split: if_splits option.splits)

lemma life_step_resolved:
  assumes "(D_resolved, s) \<in> set (snd (life_step cfg l f))"
  shows "lf_until (fst (life_step cfg l f)) = fst f + sg_cooldown cfg"
  using assms by (auto simp: life_step_def life_present_def life_absent_def Let_def split: if_splits option.splits)

lemma life_step_hits:
  assumes "lf_situation (fst (life_step cfg l f)) = None"
  shows "lf_hits (fst (life_step cfg l f)) = 0 \<or> \<not> sg_enabled cfg \<or>
         snd f \<noteq> None \<and> lf_situation l = None \<and> lf_hits (fst (life_step cfg l f)) = lf_hits l + 1"
  using assms by (auto simp: life_step_def life_present_def life_absent_def Let_def split: if_splits option.splits)

lemma life_step_disabled: "\<not> sg_enabled cfg \<Longrightarrow> life_step cfg l f = (l, [])"
  by (simp add: life_step_def)

lemma hits_are_frames:
  "lf_situation (life_at cfg i fs) = None \<Longrightarrow>
   0 \<le> lf_hits (life_at cfg i fs) \<and>
   in_last (\<lambda>f. dict_get (frame_candidates cfg f) i \<noteq> None) (nat (lf_hits (life_at cfg i fs))) fs"
proof (induction fs rule: rev_induct)
  case Nil then show ?case by (simp add: life_at_Nil new_life_def)
next
  case (snoc f fs)
  let ?l = "life_at cfg i fs" and ?f = "(fst f, dict_get (frame_candidates cfg f) i)"
  consider "sg_enabled cfg" "lf_hits (life_at cfg i (fs @ [f])) = 0"
    | "sg_enabled cfg" "snd ?f \<noteq> None" "lf_situation ?l = None" "lf_hits (life_at cfg i (fs @ [f])) = lf_hits ?l + 1"
    | "\<not> sg_enabled cfg"
    using life_step_hits [of cfg ?l ?f] snoc.prems by (auto simp: life_at_snoc)
  then show ?case
  proof cases
    case 1 then show ?thesis by simp
  next
    case 2
    with snoc.IH in_last_Suc [of "\<lambda>f. dict_get (frame_candidates cfg f) i \<noteq> None" "nat (lf_hits ?l)" fs f]
    show ?thesis by (simp add: nat_add_distrib)
  next
    case 3
    then have "life_at cfg i gs = new_life" for gs
      by (induction gs rule: rev_induct) (simp_all add: life_at_Nil life_at_snoc life_step_disabled)
    then show ?thesis by (simp add: new_life_def)
  qed
qed

text \<open>
  No single frame raises an alarm: when an evaluation creates a situation, its identifier was a candidate
  in each of the last \<open>confirm_frames\<close> evaluations.
\<close>

theorem situation_created_confirmed:
  assumes "(D_created, s) \<in> set (frame_deltas cfg fs f)"
  shows "in_last (\<lambda>g. dict_get (frame_candidates cfg g) (st_id s) \<noteq> None) (nat (sg_confirm_frames cfg)) (fs @ [f])"
proof -
  let ?i = "st_id s"
  have c: "dict_get (frame_candidates cfg f) ?i \<noteq> None" "lf_situation (life_at cfg ?i fs) = None"
    "sg_confirm_frames cfg \<le> lf_hits (life_at cfg ?i fs) + 1"
    using life_step_created [OF delta_of_life [OF assms, simplified]] by auto
  from hits_are_frames [OF c(2)] in_last_Suc [of _ _ fs f] c(1)
  have "in_last (\<lambda>g. dict_get (frame_candidates cfg g) ?i \<noteq> None) (Suc (nat (lf_hits (life_at cfg ?i fs)))) (fs @ [f])"
    by blast
  then show ?thesis
    by (rule in_last_mono) (use c(3) hits_are_frames [OF c(2)] in linarith)
qed

lemma until_grows:
  assumes "u \<le> lf_until (life_at cfg i fs)" "\<forall>g\<in>set gs. u \<le> fst g + sg_cooldown cfg"
  shows "u \<le> lf_until (life_at cfg i (fs @ gs))"
  using assms(2)
proof (induction gs rule: rev_induct)
  case Nil with assms(1) show ?case by simp
next
  case (snoc g gs)
  have "lf_until (fst (life_step cfg l f)) = lf_until l \<or> lf_until (fst (life_step cfg l f)) = fst f + sg_cooldown cfg" for l f
    by (auto simp: life_step_def life_present_def life_absent_def Let_def split: option.splits)
  from this [of "life_at cfg i (fs @ gs)" "(fst g, dict_get (frame_candidates cfg g) i)"] snoc
  show ?case by (auto simp flip: append_assoc simp: life_at_snoc)
qed

text \<open>
  A resolved situation rests: with times that do not go back, it is created again no earlier than the
  cooldown after the evaluation that resolved it.
\<close>

theorem resolved_situation_rests:
  assumes "sorted (map fst (g # gs @ [f]))"
    and "(D_resolved, s) \<in> set (frame_deltas cfg fs g)"
    and "(D_created, s') \<in> set (frame_deltas cfg (fs @ g # gs) f)" "st_id s' = st_id s"
  shows "fst g + sg_cooldown cfg \<le> fst f"
proof -
  have "lf_until (life_at cfg (st_id s) (fs @ [g])) = fst g + sg_cooldown cfg"
    using life_step_resolved [OF delta_of_life [OF assms(2), simplified]] by (simp add: life_at_snoc)
  moreover have "\<forall>h\<in>set gs. fst g + sg_cooldown cfg \<le> fst h + sg_cooldown cfg"
    using assms(1) by (simp add: sorted_append)
  ultimately have "fst g + sg_cooldown cfg \<le> lf_until (life_at cfg (st_id s) ((fs @ [g]) @ gs))"
    by - (rule until_grows, simp_all)
  moreover have "\<not> lf_until (life_at cfg (st_id s) (fs @ g # gs)) > fst f"
    using life_step_created [OF delta_of_life [OF assms(3), simplified]] assms(4) by auto
  ultimately show ?thesis by simp
qed

section \<open>The stream of events\<close>

text \<open>What an observer of the events alone knows.\<close>

definition observe :: "(string, situation) dict \<Rightarrow> situation_delta \<Rightarrow> (string, situation) dict" where
  "observe m d =
     (if fst d = D_resolved then dict_pop m (st_id (snd d)) else dict_set m (st_id (snd d)) (snd d))"

definition observed :: "situation_delta list \<Rightarrow> (string, situation) dict" where
  "observed ds = foldl observe [] ds"

fun observe_one :: "situation option \<Rightarrow> situation_delta list \<Rightarrow> situation option" where
  "observe_one x [] = x"
| "observe_one x ((ev, s) # ds) = observe_one (if ev = D_resolved then None else Some s) ds"

lemma observe_one_append: "observe_one x (xs @ ys) = observe_one (observe_one x xs) ys"
  by (induction x xs rule: observe_one.induct) simp_all

lemma observed_one: "dict_get (observed ds) i = observe_one None (deltas_of i ds)"
proof -
  have "dict_get (foldl observe m ds) i = observe_one (dict_get m i) (deltas_of i ds)" for m
    by (induction ds arbitrary: m) (auto simp: observe_def deltas_of_def)
  from this [of "[]"] show ?thesis by (simp add: observed_def)
qed

text \<open>The states an identifier goes through, event by event.\<close>

fun stream_next :: "situation_status option \<Rightarrow> delta_event \<Rightarrow> situation_status \<Rightarrow> situation_status option option" where
  "stream_next None D_created Sit_ACTIVE = Some (Some Sit_ACTIVE)"
| "stream_next (Some Sit_ACTIVE) D_updated Sit_ACTIVE = Some (Some Sit_ACTIVE)"
| "stream_next (Some Sit_ACTIVE) D_lost_contact Sit_LOST = Some (Some Sit_LOST)"
| "stream_next (Some Sit_LOST) D_updated Sit_ACTIVE = Some (Some Sit_ACTIVE)"
| "stream_next (Some Sit_LOST) D_resolved Sit_RESOLVED = Some None"
| "stream_next x ev st = None"

fun stream_end :: "situation_status option \<Rightarrow> situation_delta list \<Rightarrow> situation_status option option" where
  "stream_end x [] = Some x"
| "stream_end x ((ev, s) # ds) =
     (case stream_next x ev (st_status s) of None \<Rightarrow> None | Some y \<Rightarrow> stream_end y ds)"

lemma stream_end_append:
  "stream_end x (xs @ ys) = (case stream_end x xs of None \<Rightarrow> None | Some y \<Rightarrow> stream_end y ys)"
  by (induction x xs rule: stream_end.induct) (auto split: option.splits)

lemma dict_eq_iff: "dict_eq a b \<longleftrightarrow> map_of a = map_of b"
proof
  assume *: "dict_eq a b"
  show "map_of a = map_of b"
  proof
    fix k
    show "map_of a k = map_of b k"
      using * by (cases "k \<in> fst ` set a \<or> k \<in> fst ` set b")
        (auto simp: dict_eq_def list_all_iff map_of_eq_None_iff [symmetric])
  qed
qed (simp add: dict_eq_def list_all_iff)

text \<open>What an operator reads of a situation: all of it but its times, its metrics without their order.\<close>

definition situation_view ::
  "situation \<Rightarrow> situation_severity \<times> situation_status \<times> string \<times> string list \<times> (string \<Rightarrow> metric option)" where
  "situation_view s = (st_severity s, st_status s, st_reason s, st_tracks s, map_of (st_metrics s))"

lemma changed_iff_view: "situation_changed a b \<longleftrightarrow> situation_view a \<noteq> situation_view b"
  by (auto simp: situation_changed_def situation_view_def dict_eq_iff)

lemma situation_stages [simp]:
  "st_status (create_situation now c) = Sit_ACTIVE" "st_status (refresh_situation now c prev) = Sit_ACTIVE"
  "st_status (mark_absent st r now prev) = st"
  "st_is_active (create_situation now c)" "st_is_active (refresh_situation now c prev)"
  "st_is_active (mark_absent st r now prev) = (st = Sit_LOST)"
  "st_updated (create_situation now c) = now" "st_updated (refresh_situation now c prev) = now"
  "st_updated (mark_absent st r now prev) = now"
  by (simp_all add: create_situation_def refresh_situation_def mark_absent_def)

definition live_status :: "situation option \<Rightarrow> bool" where
  "live_status x \<longleftrightarrow> opt_test x (\<lambda>s. st_status s = Sit_ACTIVE \<or> st_status s = Sit_LOST) \<or> x = None"

lemma life_step_stream:
  assumes "live_status (lf_situation l)"
  shows "live_status (lf_situation (fst (life_step cfg l f))) \<and>
         stream_end (map_option st_status (lf_situation l)) (snd (life_step cfg l f)) =
         Some (map_option st_status (lf_situation (fst (life_step cfg l f))))"
proof (cases "lf_situation l")
  case None
  then show ?thesis
    by (auto simp: life_step_def life_present_def life_absent_def Let_def live_status_def split: option.splits)
next
  case (Some s)
  with assms consider "st_status s = Sit_ACTIVE" | "st_status s = Sit_LOST" by (auto simp: live_status_def)
  then show ?thesis
  proof cases
    case 1 with Some show ?thesis
      by (auto simp: life_step_def life_present_def life_absent_def Let_def live_status_def split: option.splits)
  next
    case 2
    then have "situation_changed s (refresh_situation now c s)" for now c
      by (auto simp: changed_iff_view situation_view_def)
    with 2 Some show ?thesis
      by (auto simp: life_step_def life_present_def life_absent_def Let_def live_status_def split: option.splits)
  qed
qed

definition same_situation :: "situation option \<Rightarrow> situation option \<Rightarrow> bool" where
  "same_situation x y \<longleftrightarrow> map_option situation_view x = map_option situation_view y"

lemma life_step_observed:
  assumes "same_situation x (lf_situation l)"
  shows "same_situation (observe_one x (snd (life_step cfg l f))) (lf_situation (fst (life_step cfg l f)))"
proof (cases "lf_situation l")
  case None
  with assms show ?thesis
    by (auto simp: same_situation_def life_step_def life_present_def life_absent_def Let_def split: option.splits)
next
  case (Some s)
  with assms obtain a where "x = Some a" "situation_view a = situation_view s" by (auto simp: same_situation_def)
  with Some show ?thesis
    by (auto simp: same_situation_def changed_iff_view life_step_def life_present_def life_absent_def Let_def split: option.splits)
qed

lemma life_run_stream:
  "live_status (lf_situation (life_at cfg i fs)) \<and>
   stream_end None (snd (life_run cfg i fs)) = Some (map_option st_status (lf_situation (life_at cfg i fs))) \<and>
   same_situation (observe_one None (snd (life_run cfg i fs))) (lf_situation (life_at cfg i fs))"
proof (induction fs rule: rev_induct)
  case Nil
  show ?case by (simp add: life_at_Nil life_run_def new_life_def live_status_def same_situation_def)
next
  case (snoc f fs)
  let ?f = "(fst f, dict_get (frame_candidates cfg f) i)"
  have "snd (life_run cfg i (fs @ [f])) = snd (life_run cfg i fs) @ snd (life_step cfg (life_at cfg i fs) ?f)"
    by (simp add: run_snoc(2) life_frame_def tail_view_def life_at_def split: prod.splits)
  with snoc life_step_stream [of "life_at cfg i fs" cfg ?f] life_step_observed [of _ "life_at cfg i fs" cfg ?f]
  show ?case by (simp add: life_at_snoc observe_one_append stream_end_append)
qed

lemma engine_events: "deltas_of i (snd (engine_run cfg fs)) = snd (life_run cfg i fs)"
  using situation_engine_refines_lives_view [of i cfg fs] by (metis snd_conv life_view_def)

lemma engine_situation: "dict_get (se_active (fst (engine_run cfg fs))) i = lf_situation (life_at cfg i fs)"
  by (simp flip: life_of_engine add: life_of_def)

text \<open>
  C20. The events tell everything: an observer who keeps the latest event of every identifier and forgets the
  resolved ones holds, after any run, exactly the active situations, each with its current severity, status,
  reason, tracks and metrics: no change of any of them goes unreported.
\<close>

theorem situation_events_replay:
  "map_option situation_view (dict_get (observed (snd (engine_run cfg fs))) i) =
   map_option situation_view (dict_get (se_active (fst (engine_run cfg fs))) i)"
  using life_run_stream [of cfg i fs] by (simp add: observed_one engine_events engine_situation same_situation_def)

text \<open>
  The events of one identifier are a word of the life cycle: created, then updates, loss of contact and its
  restoration, and resolved only out of a loss; the state they lead to is the status the engine holds.
\<close>

theorem situation_events_lifecycle:
  "stream_end None (deltas_of i (snd (engine_run cfg fs))) =
   Some (map_option st_status (dict_get (se_active (fst (engine_run cfg fs))) i))"
  using life_run_stream [of cfg i fs] by (simp add: engine_events engine_situation)

section \<open>A lost target is resolved\<close>

lemma life_absent_step:
  "sg_enabled cfg \<Longrightarrow> dict_get (frame_candidates cfg f) i = None \<Longrightarrow>
   life_at cfg i (fs @ [f]) = fst (life_absent cfg (fst f) (life_at cfg i fs))"
  by (simp add: life_at_snoc life_step_def)

text \<open>
  What is left of a situation without candidates: a loss not later than \<open>u\<close>, or an activity seen no later
  than \<open>t\<close>, or nothing.
\<close>

definition left_over :: "real \<Rightarrow> real \<Rightarrow> situation option \<Rightarrow> bool" where
  "left_over t u x \<longleftrightarrow>
     x = None \<or> opt_test x (\<lambda>s. st_status s = Sit_LOST \<and> st_updated s \<le> u \<or> st_status s = Sit_ACTIVE \<and> st_updated s \<le> t)"

definition lost_since :: "real \<Rightarrow> situation option \<Rightarrow> bool" where
  "lost_since u x \<longleftrightarrow> x = None \<or> opt_test x (\<lambda>s. st_status s = Sit_LOST \<and> st_updated s \<le> u)"

lemma left_over_absent:
  assumes "left_over t u (lf_situation l)" "u \<le> now"
  shows "left_over t now (lf_situation (fst (life_absent cfg now l)))"
  using assms by (auto simp: left_over_def life_absent_def Let_def split: option.splits)

lemma left_over_lost:
  assumes "left_over t u (lf_situation l)" "u \<le> now" "t + sg_lost_window cfg \<le> now"
  shows "lost_since now (lf_situation (fst (life_absent cfg now l)))"
  using assms by (auto simp: left_over_def lost_since_def life_absent_def Let_def split: option.splits)

lemma lost_since_absent:
  "lost_since u (lf_situation l) \<Longrightarrow> lost_since u (lf_situation (fst (life_absent cfg now l)))"
  by (auto simp: lost_since_def life_absent_def Let_def split: option.splits)

lemma lost_since_resolved:
  "lost_since u (lf_situation l) \<Longrightarrow> u + sg_auto_resolve cfg \<le> now \<Longrightarrow>
   lf_situation (fst (life_absent cfg now l)) = None"
  by (auto simp: lost_since_def life_absent_def Let_def split: option.splits)

lemma stays_left_over:
  assumes "sg_enabled cfg" "left_over t u (lf_situation (life_at cfg i fs))"
    and "\<forall>g\<in>set gs. dict_get (frame_candidates cfg g) i = None" "sorted (u # map fst gs)"
  shows "left_over t (last (u # map fst gs)) (lf_situation (life_at cfg i (fs @ gs)))"
  using assms(2-4)
proof (induction gs arbitrary: fs u)
  case (Cons g gs)
  have "left_over t (fst g) (lf_situation (life_at cfg i (fs @ [g])))"
    using Cons.prems assms(1) by (simp add: life_absent_step left_over_absent)
  with Cons.IH [of "fst g" "fs @ [g]"] Cons.prems show ?case by simp
qed simp

lemma stays_lost:
  assumes "sg_enabled cfg" "lost_since u (lf_situation (life_at cfg i fs))"
    and "\<forall>g\<in>set gs. dict_get (frame_candidates cfg g) i = None"
  shows "lost_since u (lf_situation (life_at cfg i (fs @ gs)))"
  using assms(3)
proof (induction gs rule: rev_induct)
  case Nil with assms(2) show ?case by simp
next
  case (snoc g gs)
  then show ?case using life_absent_step [OF assms(1), of g i "fs @ gs"] by (simp add: lost_since_absent)
qed

text \<open>
  Nothing stays on the list for ever: once the identifier of a situation is no candidate any more, the first
  evaluation at least \<open>lost_contact_window_s\<close> after the last sight and a further one at least
  \<open>auto_resolve_after_lost_s\<close> later leave it neither active nor lost, whatever evaluations lie between.
\<close>

theorem absent_situation_resolved:
  assumes "sg_enabled cfg"
    and "dict_get (se_active (fst (engine_run cfg fs))) i = Some s" "st_updated s \<le> t"
    and "\<forall>g\<in>set (gs @ h # gs' @ [h']). dict_get (frame_candidates cfg g) i = None"
    and "sorted (t # map fst (gs @ [h]))"
    and "t + sg_lost_window cfg \<le> fst h" "fst h + sg_auto_resolve cfg \<le> fst h'"
  shows "dict_get (se_active (fst (engine_run cfg (fs @ gs @ h # gs' @ [h'])))) i = None"
proof -
  have "left_over t t (lf_situation (life_at cfg i fs))"
    using life_run_stream [of cfg i fs] assms(2,3) by (auto simp: engine_situation live_status_def left_over_def)
  then have "left_over t (last (t # map fst gs)) (lf_situation (life_at cfg i (fs @ gs)))"
    by (rule stays_left_over [OF assms(1)]) (use assms(4,5) in \<open>auto simp: sorted_append\<close>)
  moreover have "last (t # map fst gs) \<le> fst h"
    using assms(5) by (cases gs rule: rev_cases) (auto simp: sorted_append)
  ultimately have "lost_since (fst h) (lf_situation (life_at cfg i ((fs @ gs) @ [h])))"
    using assms(4,6) by (simp add: life_absent_step [OF assms(1)] left_over_lost del: append_assoc)
  then have "lost_since (fst h) (lf_situation (life_at cfg i (((fs @ gs) @ [h]) @ gs')))"
    by (rule stays_lost [OF assms(1)]) (use assms(4) in simp)
  then have "lf_situation (life_at cfg i ((((fs @ gs) @ [h]) @ gs') @ [h'])) = None"
    using assms(4,7) by (simp add: life_absent_step [OF assms(1)] lost_since_resolved del: append_assoc)
  then show ?thesis by (simp add: engine_situation)
qed

section \<open>A run\<close>

definition default_situation_config :: situation_config where
  "default_situation_config =
     \<lparr>sg_enabled = True, sg_cpa_warn_t = 20, sg_cpa_crit_t = 8, sg_cpa_crit_dist = 150, sg_closing_warn = 5,
      sg_near_dist = 300, sg_near_recent = 8, sg_confirm_frames = 3, sg_cooldown = 5, sg_lost_window = 2,
      sg_auto_resolve = 2\<rparr>"

lemma default_config_from_env: "situation_config_from_env (\<lambda>_. None) = Some default_situation_config"
  by (simp add: situation_config_from_env_def situation_runtime_from_env_def env_finite_def env_int_def
      situation_enabled_env_def default_situation_config_def)

definition near_point :: radar_point where
  "near_point =
     \<lparr>rp_x = 0, rp_y = 0, rp_z = 0, rp_vr = 0, rp_target_id = Some ''t'', rp_id = None, rp_iff = None, rp_object = None,
      rp_age = None\<rparr>"

definition near_scene :: "radar_point list \<Rightarrow> radar_scene" where
  "near_scene ps = \<lparr>rs_ok = True, rs_reason = ''OK'', rs_truth = ''OK'', rs_is_fallback = False, rs_points = ps\<rparr>"

definition seen :: "real \<Rightarrow> situation_frame" where
  "seen t = (t, near_scene [near_point], new_trail_store 20)"

definition unseen :: "real \<Rightarrow> situation_frame" where
  "unseen t = (t, near_scene [], new_trail_store 20)"

definition near_candidate :: situation_candidate where
  "near_candidate =
     \<lparr>sc_id = ''unknown:t'', sc_type = UNKNOWN_NEARBY, sc_severity = Sev_WARN, sc_reason = ''UNKNOWN_NEARBY'',
      sc_tracks = [''t''], sc_metrics = [(''distance_m'', MNum 0), (''age_s'', MText ''n/a'')]\<rparr>"

lemma near_frames:
  "frame_candidates default_situation_config (seen t) = [(''unknown:t'', near_candidate)]"
  "frame_candidates default_situation_config (unseen t) = []"
  by (simp_all add: frame_candidates_def seen_def unseen_def near_scene_def near_point_def collect_candidates_def
      points_by_track_def point_track_id_def or_else_def collect_step_def add_candidate_def cpa_candidate_def
      closing_candidate_def unknown_candidate_def time_to_cpa_def closing_speed_def point_distance_def is_unknown_def
      meta_text_def py_strip_def py_upper_def point_age_def default_situation_config_def near_candidate_def round3_def
      round_half_even_def)

lemma frame_deltas_of_life:
  "snd (life_step cfg (life_at cfg i fs) (fst f, dict_get (frame_candidates cfg f) i)) = d # ds \<Longrightarrow>
   d \<in> set (frame_deltas cfg fs f)"
  using frame_deltas_life [of i cfg fs f] by (auto simp: deltas_of_def dest!: filter_eq_ConsD)

lemma life_at_foldl:
  "life_at cfg i fs = foldl (\<lambda>l f. fst (life_step cfg l (fst f, dict_get (frame_candidates cfg f) i))) new_life fs"
  by (induction fs rule: rev_induct) (simp_all add: life_at_Nil life_at_snoc)

lemma frame_times [simp]: "fst (seen t) = t" "fst (unseen t) = t"
  by (simp_all add: seen_def unseen_def)

lemmas near_life = life_at_foldl near_frames new_life_def life_step_def life_present_def life_absent_def Let_def
  default_situation_config_def [THEN arg_cong [of _ _ sg_enabled]] default_situation_config_def [THEN arg_cong [of _ _ sg_confirm_frames]]
  default_situation_config_def [THEN arg_cong [of _ _ sg_cooldown]] default_situation_config_def [THEN arg_cong [of _ _ sg_lost_window]]
  default_situation_config_def [THEN arg_cong [of _ _ sg_auto_resolve]]

lemma near_created:
  "(D_created, create_situation 3 near_candidate) \<in> set (frame_deltas default_situation_config [seen 1, seen 2] (seen 3))"
  by (rule frame_deltas_of_life [where i = "''unknown:t''"]) (simp add: near_life)

lemma near_lost:
  "\<exists>s. (D_resolved, s) \<in> set (frame_deltas default_situation_config [seen 1, seen 2, seen 3, unseen 6] (unseen 9)) \<and>
       st_id s = ''unknown:t''"
proof -
  let ?s = "mark_absent Sit_RESOLVED ''AUTO_RESOLVED_AFTER_LOST'' 9
    (mark_absent Sit_LOST ''CONTACT_LOST'' 6 (create_situation 3 near_candidate))"
  have "(D_resolved, ?s) \<in> set (frame_deltas default_situation_config [seen 1, seen 2, seen 3, unseen 6] (unseen 9))"
    by (rule frame_deltas_of_life [where i = "''unknown:t''"]) (simp add: near_life)
  moreover have "st_id ?s = ''unknown:t''" by (simp add: near_candidate_def)
  ultimately show ?thesis by blast
qed

theorem situation_created_confirmed_witness:
  "in_last (\<lambda>g. dict_get (frame_candidates default_situation_config g) (st_id (create_situation 3 near_candidate)) \<noteq> None)
     (nat (sg_confirm_frames default_situation_config)) ([seen 1, seen 2] @ [seen 3])"
  by (rule situation_created_confirmed) (rule near_created)

theorem resolved_situation_rests_witness:
  "fst (unseen 9) + sg_cooldown default_situation_config \<le> fst (seen 16)"
proof -
  have "(D_created, create_situation 16 near_candidate) \<in>
    set (frame_deltas default_situation_config ([seen 1, seen 2, seen 3, unseen 6] @ unseen 9 # [seen 14, seen 15]) (seen 16))"
    by (rule frame_deltas_of_life [where i = "''unknown:t''"]) (simp add: near_life)
  moreover obtain s where "(D_resolved, s) \<in>
    set (frame_deltas default_situation_config [seen 1, seen 2, seen 3, unseen 6] (unseen 9))" "st_id s = ''unknown:t''"
    using near_lost by blast
  ultimately show ?thesis
    using resolved_situation_rests [of "unseen 9" "[seen 14, seen 15]" "seen 16" s default_situation_config
        "[seen 1, seen 2, seen 3, unseen 6]" "create_situation 16 near_candidate"] by (simp add: near_candidate_def)
qed

theorem absent_situation_resolved_witness:
  "dict_get (se_active (fst (engine_run default_situation_config
     ([seen 1, seen 2, seen 3] @ [] @ unseen 6 # [] @ [unseen 9])))) ''unknown:t'' = None"
  by (rule absent_situation_resolved [where s = "create_situation 3 near_candidate" and t = 3])
    (simp_all add: engine_situation near_life near_candidate_def)

section \<open>The two classifications of an approach\<close>

text \<open>
  The stateless classification agrees with the engine under its default thresholds: critical and warning
  are those of the engine's closest-approach candidate, and a point without one is a warning exactly when it
  closes faster than the engine's closing threshold.
\<close>

theorem risk_matches_engine:
  "fst (classify_approach_risk (Fin (point_distance p)) (Fin (rp_vr p))) =
   (case cpa_candidate default_situation_config i p of
      Some c \<Rightarrow> if sc_severity c = Sev_CRITICAL then ''crit'' else ''warn''
    | None \<Rightarrow> if closing_speed p > sg_closing_warn default_situation_config then ''warn'' else ''ok'')"
proof -
  have "\<not> point_distance p < 0" by (simp add: point_distance_def not_less)
  then show ?thesis
    by (auto simp: classify_approach_risk_def cpa_candidate_def time_to_cpa_def default_situation_config_def
        closing_speed_def Let_def RADAR_CPA_WARN_T_S_def RADAR_CPA_CRIT_T_S_def RADAR_CPA_CRIT_DIST_M_def
        RADAR_CLOSING_SPEED_WARN_MPS_def)
qed

end
