(* ===== verification/Radar_View.thy ===== *)
theory Radar_View
  imports Radar_Situation
begin

text \<open>
  The operator's view of the radar and the render policy
  (\<open>src/qiki/services/q_core_agent/core/radar_view_state.py\<close>, \<open>radar_controls.py\<close>,
  \<open>radar_render_policy.py\<close>, \<open>radar_backends/geometry.py\<close>): keys and mouse to actions, actions to
  view states, and the plan of a frame with its degradation level. Environment variables are arguments; the
  clock of an acknowledgement is an argument.
\<close>

section \<open>View state\<close>

record overlay_state =
  ov_grid :: bool
  ov_range_rings :: bool
  ov_vectors :: bool
  ov_trails :: bool
  ov_labels :: bool
  ov_selection :: bool

record inspector_state =
  in_mode :: string
  in_pinned :: "string option"
  in_details :: int

record alert_state =
  al_enabled :: bool
  al_cursor :: int
  al_selected :: "string option"
  al_focus :: "string option"
  al_acked :: "(string \<times> real) list"

record view_state =
  vs_zoom :: real
  vs_pan_x :: real
  vs_pan_y :: real
  vs_rot_yaw :: real
  vs_rot_pitch :: real
  vs_view :: string
  vs_selected :: "string option"
  vs_overlays_enabled :: bool
  vs_color :: bool
  vs_overlays :: overlay_state
  vs_inspector :: inspector_state
  vs_alerts :: alert_state

definition VIEWS :: "string list" where
  "VIEWS = [''top'', ''side'', ''front'', ''iso'']"

definition all_overlays :: overlay_state where
  "all_overlays =
     \<lparr>ov_grid = True, ov_range_rings = True, ov_vectors = True, ov_trails = True, ov_labels = True, ov_selection = True\<rparr>"

definition default_view :: view_state where
  "default_view =
     \<lparr>vs_zoom = 1, vs_pan_x = 0, vs_pan_y = 0, vs_rot_yaw = 0, vs_rot_pitch = 0, vs_view = ''top'', vs_selected = None,
      vs_overlays_enabled = True, vs_color = True, vs_overlays = all_overlays,
      vs_inspector = \<lparr>in_mode = ''off'', in_pinned = None, in_details = 1\<rparr>,
      vs_alerts = \<lparr>al_enabled = True, al_cursor = 0, al_selected = None, al_focus = None, al_acked = []\<rparr>\<rparr>"

definition view_from_env :: "(string \<Rightarrow> string option) \<Rightarrow> view_state" where
  "view_from_env env =
     (let raw = py_lower (py_strip (case env ''RADAR_VIEW'' of None \<Rightarrow> ''top'' | Some s \<Rightarrow> s));
          view = (if raw \<in> set VIEWS then raw else ''top'');
          color = py_lower (py_strip (case env ''RADAR_COLOR'' of None \<Rightarrow> ''1'' | Some s \<Rightarrow> s))
      in default_view\<lparr>vs_view := view, vs_color := (color \<notin> {''0'', ''false'', ''no'', ''off''})\<rparr>)"

section \<open>Keys and mouse\<close>

datatype action_kind =
    SET_VIEW | RESET_VIEW | TOGGLE_OVERLAYS | TOGGLE_GRID | TOGGLE_RANGE_RINGS | TOGGLE_VECTORS | TOGGLE_TRAILS
  | TOGGLE_LABELS | TOGGLE_INSPECTOR | TOGGLE_COLOR | TOGGLE_SITUATIONS | QUIT | ALERT_ACK | ALERT_FOCUS | ALERT_NEXT
  | ALERT_PREV | ZOOM_IN | ZOOM_OUT | PAN_LEFT | PAN_RIGHT | PAN_UP | PAN_DOWN | SELECT_TARGET | DRAG | NOOP

record radar_action =
  ra_kind :: action_kind
  ra_value :: string
  ra_x :: real
  ra_y :: real
  ra_dx :: real
  ra_dy :: real

definition act :: "action_kind \<Rightarrow> radar_action" where
  "act k = \<lparr>ra_kind = k, ra_value = '''', ra_x = 0, ra_y = 0, ra_dx = 0, ra_dy = 0\<rparr>"

record mouse_event =
  me_kind :: string
  me_x :: real
  me_y :: real
  me_delta :: real
  me_button :: string
  me_down :: bool
  me_dx :: real
  me_dy :: real

definition VIEW_KEYS :: "(string, string) dict" where
  "VIEW_KEYS = [(''1'', ''top''), (''2'', ''side''), (''3'', ''front''), (''4'', ''iso'')]"

definition ack_seconds :: "real \<Rightarrow> real" where
  "ack_seconds s = max 0 s"

definition letter_action :: "string \<Rightarrow> string \<Rightarrow> action_kind option" where
  "letter_action raw token =
     (if token = ''r'' then Some RESET_VIEW
      else if token = ''o'' then Some TOGGLE_OVERLAYS
      else if token = ''g'' then Some TOGGLE_GRID
      else if token = ''b'' then Some TOGGLE_RANGE_RINGS
      else if token = ''v'' then Some TOGGLE_VECTORS
      else if token = ''t'' then Some TOGGLE_TRAILS
      else if token = ''l'' then Some TOGGLE_LABELS
      else if token = ''i'' then Some TOGGLE_INSPECTOR
      else if token = ''c'' then Some TOGGLE_COLOR
      else if token = ''q'' then Some QUIT
      else if raw = ''A'' then Some ALERT_ACK
      else if raw = ''F'' then Some ALERT_FOCUS
      else if token = ''a'' \<or> raw = '']'' then Some ALERT_NEXT
      else if raw = ''['' then Some ALERT_PREV
      else if token = ''s'' then Some TOGGLE_SITUATIONS
      else if token = ''j'' then Some ALERT_NEXT
      else if token = ''k'' then Some ALERT_PREV
      else None)"

definition motion_action :: "string \<Rightarrow> action_kind option" where
  "motion_action token =
     (if token \<in> {''+'', ''=''} then Some ZOOM_IN
      else if token \<in> {''-'', ''_''} then Some ZOOM_OUT
      else if token \<in> {''h'', ''left''} then Some PAN_LEFT
      else if token \<in> {''l'', ''right''} then Some PAN_RIGHT
      else if token = ''up'' then Some PAN_UP
      else if token = ''down'' then Some PAN_DOWN
      else None)"

definition handle_key :: "string \<Rightarrow> radar_action" where
  "handle_key key =
     (let raw = py_strip key; token = py_lower raw
      in case dict_get VIEW_KEYS token of
           Some v \<Rightarrow> (act SET_VIEW)\<lparr>ra_value := v\<rparr>
         | None \<Rightarrow>
             (case letter_action raw token of
                Some k \<Rightarrow> act k
              | None \<Rightarrow> (case motion_action token of Some k \<Rightarrow> act k | None \<Rightarrow> act NOOP)))"

definition handle_mouse :: "mouse_event \<Rightarrow> radar_action" where
  "handle_mouse e =
     (if me_kind e = ''wheel''
      then if me_delta e > 0 then act ZOOM_IN else if me_delta e < 0 then act ZOOM_OUT else act NOOP
      else if me_kind e = ''click'' \<and> me_button e = ''left''
      then (act SELECT_TARGET)\<lparr>ra_x := me_x e, ra_y := me_y e\<rparr>
      else if me_kind e = ''drag'' \<and> me_down e
      then if \<bar>me_dx e\<bar> < 1 / 10 ^ 9 \<and> \<bar>me_dy e\<bar> < 1 / 10 ^ 9 then act NOOP
           else if me_button e = ''left'' then (act DRAG)\<lparr>ra_dx := me_dx e, ra_dy := me_dy e\<rparr> else act NOOP
      else act NOOP)"

section \<open>Projection and selection\<close>

record projected =
  pj_u :: real
  pj_v :: real
  pj_depth :: real
  pj_vr :: real

definition project_point :: "radar_point \<Rightarrow> string \<Rightarrow> real \<Rightarrow> real \<Rightarrow> projected" where
  "project_point p view yaw_deg pitch_deg =
     (let x = rp_x p; y = rp_y p; z = rp_z p
      in if view = ''top'' then \<lparr>pj_u = x, pj_v = y, pj_depth = z, pj_vr = rp_vr p\<rparr>
         else if view = ''side'' then \<lparr>pj_u = x, pj_v = z, pj_depth = y, pj_vr = rp_vr p\<rparr>
         else if view = ''front'' then \<lparr>pj_u = y, pj_v = z, pj_depth = x, pj_vr = rp_vr p\<rparr>
         else if view = ''iso'' then
           (let yaw = yaw_deg * pi / 180; pitch = pitch_deg * pi / 180;
                xr = x * cos yaw - y * sin yaw; yr = x * sin yaw + y * cos yaw;
                yp = yr * cos pitch - z * sin pitch; zp = yr * sin pitch + z * cos pitch
            in \<lparr>pj_u = (xr - yp) * sqrt (1 / 2), pj_v = (xr + yp) * (35 / 100) - zp * (75 / 100), pj_depth = zp, pj_vr = rp_vr p\<rparr>)
         else \<lparr>pj_u = x, pj_v = y, pj_depth = z, pj_vr = rp_vr p\<rparr>)"

definition screen_dist2 :: "view_state \<Rightarrow> real \<Rightarrow> real \<Rightarrow> radar_point \<Rightarrow> real" where
  "screen_dist2 vs x y p =
     (let q = project_point p (vs_view vs) (vs_rot_yaw vs) (vs_rot_pitch vs);
          px = pj_u q * vs_zoom vs + vs_pan_x vs; py = pj_v q * vs_zoom vs + vs_pan_y vs
      in (px - x)\<^sup>2 + (py - y)\<^sup>2)"

fun pick_loop :: "(radar_point \<Rightarrow> real) \<Rightarrow> nat \<Rightarrow> radar_point list \<Rightarrow> (real \<times> string) option \<Rightarrow> (real \<times> string) option" where
  "pick_loop f idx [] best = best"
| "pick_loop f idx (p # ps) best =
     pick_loop f (Suc idx) ps
       (case best of
          None \<Rightarrow> Some (f p, point_track_id idx p)
        | Some (d, i) \<Rightarrow> if f p < d then Some (f p, point_track_id idx p) else best)"

definition pick_target :: "radar_scene option \<Rightarrow> view_state \<Rightarrow> real \<Rightarrow> real \<Rightarrow> string option" where
  "pick_target sc vs x y =
     (case sc of None \<Rightarrow> None | Some s \<Rightarrow> map_option snd (pick_loop (screen_dist2 vs x y) 0 (rs_points s) None))"

section \<open>Actions\<close>

definition opt_or :: "string option \<Rightarrow> string option \<Rightarrow> string option" where
  "opt_or a b = (case a of Some s \<Rightarrow> if s = [] then b else a | None \<Rightarrow> b)"

definition map_overlays :: "(overlay_state \<Rightarrow> overlay_state) \<Rightarrow> view_state \<Rightarrow> view_state" where
  "map_overlays f vs = vs\<lparr>vs_overlays := f (vs_overlays vs)\<rparr>"

definition map_alerts :: "(alert_state \<Rightarrow> alert_state) \<Rightarrow> view_state \<Rightarrow> view_state" where
  "map_alerts f vs = vs\<lparr>vs_alerts := f (vs_alerts vs)\<rparr>"

definition toggle_inspector :: "view_state \<Rightarrow> view_state" where
  "toggle_inspector vs =
     (let i = vs_inspector vs
      in vs\<lparr>vs_inspector :=
              (if in_mode i = ''off'' then i\<lparr>in_mode := ''on''\<rparr>
               else if in_mode i = ''on'' then i\<lparr>in_mode := ''pinned'', in_pinned := vs_selected vs\<rparr>
               else i\<lparr>in_mode := ''off'', in_pinned := None\<rparr>)\<rparr>)"

definition acknowledge :: "real \<Rightarrow> real \<Rightarrow> view_state \<Rightarrow> view_state" where
  "acknowledge now ack_s vs =
     (case al_selected (vs_alerts vs) of
        Some (c # cs) \<Rightarrow>
          map_alerts (\<lambda>a. a\<lparr>al_acked := sort (dict_set (dict_update [] (al_acked a)) (c # cs) (now + ack_s))\<rparr>) vs
      | _ \<Rightarrow> vs)"

definition reset_view :: "view_state \<Rightarrow> view_state" where
  "reset_view vs =
     vs\<lparr>vs_zoom := 1, vs_pan_x := 0, vs_pan_y := 0, vs_rot_yaw := 0, vs_rot_pitch := 0, vs_selected := None,
        vs_overlays_enabled := True, vs_overlays := all_overlays,
        vs_inspector := (vs_inspector vs)\<lparr>in_mode := ''off'', in_pinned := None\<rparr>,
        vs_alerts := (vs_alerts vs)\<lparr>al_cursor := 0, al_selected := None, al_focus := None, al_acked := []\<rparr>\<rparr>"

definition drag :: "real \<Rightarrow> real \<Rightarrow> view_state \<Rightarrow> view_state" where
  "drag dx dy vs =
     (if vs_view vs = ''iso''
      then vs\<lparr>vs_rot_yaw := vs_rot_yaw vs + dx * (15 / 2), vs_rot_pitch := max (- 85) (min 85 (vs_rot_pitch vs + dy * (15 / 2)))\<rparr>
      else vs\<lparr>vs_pan_x := vs_pan_x vs + dx, vs_pan_y := vs_pan_y vs + dy\<rparr>)"

definition apply_action :: "real \<Rightarrow> real \<Rightarrow> radar_scene option \<Rightarrow> view_state \<Rightarrow> radar_action \<Rightarrow> view_state" where
  "apply_action now ack_s sc vs a =
     (case ra_kind a of
        SET_VIEW \<Rightarrow> vs\<lparr>vs_view := (if ra_value a \<in> set VIEWS then ra_value a else vs_view vs)\<rparr>
      | ZOOM_IN \<Rightarrow> vs\<lparr>vs_zoom := min 6 (vs_zoom vs + 15 / 100)\<rparr>
      | ZOOM_OUT \<Rightarrow> vs\<lparr>vs_zoom := max (1 / 4) (vs_zoom vs - 15 / 100)\<rparr>
      | PAN_LEFT \<Rightarrow> vs\<lparr>vs_pan_x := vs_pan_x vs - 1 / 5\<rparr>
      | PAN_RIGHT \<Rightarrow> vs\<lparr>vs_pan_x := vs_pan_x vs + 1 / 5\<rparr>
      | PAN_UP \<Rightarrow> vs\<lparr>vs_pan_y := vs_pan_y vs + 1 / 5\<rparr>
      | PAN_DOWN \<Rightarrow> vs\<lparr>vs_pan_y := vs_pan_y vs - 1 / 5\<rparr>
      | DRAG \<Rightarrow> drag (ra_dx a) (ra_dy a) vs
      | SELECT_TARGET \<Rightarrow> vs\<lparr>vs_selected := pick_target sc vs (ra_x a) (ra_y a)\<rparr>
      | TOGGLE_OVERLAYS \<Rightarrow> vs\<lparr>vs_overlays_enabled := \<not> vs_overlays_enabled vs\<rparr>
      | TOGGLE_GRID \<Rightarrow> map_overlays (\<lambda>v. v\<lparr>ov_grid := \<not> ov_grid v\<rparr>) vs
      | TOGGLE_RANGE_RINGS \<Rightarrow> map_overlays (\<lambda>v. v\<lparr>ov_range_rings := \<not> ov_range_rings v\<rparr>) vs
      | TOGGLE_VECTORS \<Rightarrow> map_overlays (\<lambda>v. v\<lparr>ov_vectors := \<not> ov_vectors v\<rparr>) vs
      | TOGGLE_TRAILS \<Rightarrow> map_overlays (\<lambda>v. v\<lparr>ov_trails := \<not> ov_trails v\<rparr>) vs
      | TOGGLE_LABELS \<Rightarrow> map_overlays (\<lambda>v. v\<lparr>ov_labels := \<not> ov_labels v\<rparr>) vs
      | TOGGLE_INSPECTOR \<Rightarrow> toggle_inspector vs
      | TOGGLE_COLOR \<Rightarrow> vs\<lparr>vs_color := \<not> vs_color vs\<rparr>
      | TOGGLE_SITUATIONS \<Rightarrow> map_alerts (\<lambda>al. al\<lparr>al_enabled := \<not> al_enabled al\<rparr>) vs
      | ALERT_NEXT \<Rightarrow> map_alerts (\<lambda>al. al\<lparr>al_cursor := al_cursor al + 1\<rparr>) vs
      | ALERT_PREV \<Rightarrow> map_alerts (\<lambda>al. al\<lparr>al_cursor := max 0 (al_cursor al - 1)\<rparr>) vs
      | ALERT_FOCUS \<Rightarrow> vs\<lparr>vs_selected := opt_or (al_focus (vs_alerts vs)) (vs_selected vs)\<rparr>
      | ALERT_ACK \<Rightarrow> acknowledge now ack_s vs
      | RESET_VIEW \<Rightarrow> reset_view vs
      | QUIT \<Rightarrow> vs
      | NOOP \<Rightarrow> vs)"

definition apply_key :: "real \<Rightarrow> real \<Rightarrow> radar_scene option \<Rightarrow> view_state \<Rightarrow> string \<Rightarrow> view_state" where
  "apply_key now ack_s sc vs key =
     (case dict_get VIEW_KEYS (py_strip key) of
        Some v \<Rightarrow> vs\<lparr>vs_view := v\<rparr>
      | None \<Rightarrow> apply_action now ack_s sc vs (handle_key (py_strip key)))"

section \<open>Bounds of the view\<close>

definition view_ok :: "view_state \<Rightarrow> bool" where
  "view_ok vs \<longleftrightarrow>
     1 / 4 \<le> vs_zoom vs \<and> vs_zoom vs \<le> 6 \<and> - 85 \<le> vs_rot_pitch vs \<and> vs_rot_pitch vs \<le> 85 \<and> vs_view vs \<in> set VIEWS \<and>
     0 \<le> al_cursor (vs_alerts vs) \<and> in_mode (vs_inspector vs) \<in> {''off'', ''on'', ''pinned''} \<and>
     (in_pinned (vs_inspector vs) \<noteq> None \<longrightarrow> in_mode (vs_inspector vs) = ''pinned'')"

lemma view_from_env_ok: "view_ok (view_from_env env)"
  by (simp add: view_ok_def view_from_env_def default_view_def VIEWS_def Let_def)

lemma apply_action_ok: "view_ok vs \<Longrightarrow> view_ok (apply_action now ack_s sc vs a)"
  by (cases "ra_kind a")
    (auto simp: view_ok_def apply_action_def map_overlays_def map_alerts_def reset_view_def drag_def toggle_inspector_def
      acknowledge_def Let_def split: option.splits list.splits)

lemma view_keys_views: "dict_get VIEW_KEYS k = Some v \<Longrightarrow> v \<in> set VIEWS"
  by (auto simp: VIEW_KEYS_def VIEWS_def split: if_splits)

lemma apply_key_ok: "view_ok vs \<Longrightarrow> view_ok (apply_key now ack_s sc vs key)"
  by (auto simp: apply_key_def apply_action_ok dest: view_keys_views split: option.splits) (auto simp: view_ok_def dest: view_keys_views)

text \<open>What an operator does: a key or the mouse, at some time, over some scene.\<close>

datatype operator_input = Key string | Mouse mouse_event

definition apply_input ::
  "real \<Rightarrow> view_state \<Rightarrow> operator_input \<times> real \<times> radar_scene option \<Rightarrow> view_state" where
  "apply_input ack_s vs e =
     (case e of
        (Key k, now, sc) \<Rightarrow> apply_key now ack_s sc vs k
      | (Mouse m, now, sc) \<Rightarrow> apply_action now ack_s sc vs (handle_mouse m))"

text \<open>
  Whatever an operator types, clicks and drags, the view stays in its bounds: zoom between 0.25 and 6, pitch
  within 85 degrees, one of the four projections, a cursor that is not negative, and a pinned target only in the
  pinned mode of the inspector.
\<close>

theorem view_stays_in_bounds: "view_ok (foldl (apply_input ack_s) (view_from_env env) es)"
  by (rule foldl_inv [where P = view_ok])
    (auto simp: apply_input_def view_from_env_ok apply_key_ok apply_action_ok split: operator_input.splits)

text \<open>The key \<open>l\<close> of the pan to the right is taken by the labels.\<close>

lemma pan_right_key: "ra_kind (handle_key k) = PAN_RIGHT \<longleftrightarrow> py_lower (py_strip k) = ''right''"
proof -
  have "py_lower (py_strip k) = ''right'' \<Longrightarrow> py_strip k \<noteq> ''A'' \<and> py_strip k \<noteq> ''F'' \<and> py_strip k \<noteq> '']'' \<and> py_strip k \<noteq> ''[''"
    by (auto simp: py_lower_def)
  then show ?thesis
    by (auto simp: handle_key_def Let_def act_def VIEW_KEYS_def letter_action_def motion_action_def)
qed

end
