(* ===== verification/Radar_Render.thy ===== *)
theory Radar_Render
  imports Radar_View
begin

text \<open>
  The render policy of the radar (\<open>src/qiki/services/q_core_agent/core/radar_render_policy.py\<close>): the plan of
  a frame (what is drawn, why it is cluttered, which bitmap scale) and the degradation level that follows
  overload with confirmation, cooldown and recovery.
\<close>

section \<open>Policy\<close>

record render_policy =
  pc_lod_vector :: real
  pc_lod_label :: real
  pc_lod_detail :: real
  pc_clutter_max :: int
  pc_frame_budget :: real
  pc_trail_len :: int
  pc_scales :: "pyfloat list"
  pc_cooldown_ms :: int
  pc_recovery_frames :: int
  pc_degrade_frames :: int
  pc_manual_lock :: bool

definition default_scales :: "pyfloat list" where
  "default_scales = [Fin 1, Fin (75 / 100), Fin (1 / 2), Fin (35 / 100)]"

definition default_render_policy :: render_policy where
  "default_render_policy =
     \<lparr>pc_lod_vector = 12 / 10, pc_lod_label = 15 / 10, pc_lod_detail = 2, pc_clutter_max = 30, pc_frame_budget = 80,
      pc_trail_len = 20, pc_scales = default_scales, pc_cooldown_ms = 800, pc_recovery_frames = 6, pc_degrade_frames = 2,
      pc_manual_lock = False\<rparr>"

text \<open>\<open>s.split(c)\<close>\<close>

fun py_split :: "char \<Rightarrow> string \<Rightarrow> string list" where
  "py_split c [] = [[]]"
| "py_split c (x # xs) =
     (if x = c then [] # py_split c xs
      else (case py_split c xs of [] \<Rightarrow> [[x]] | y # ys \<Rightarrow> (x # y) # ys))"

fun positive_scale :: "pyfloat \<Rightarrow> bool" where
  "positive_scale (Fin x) \<longleftrightarrow> \<not> x \<le> 0"
| "positive_scale NegInf = False"
| "positive_scale PosInf = True"
| "positive_scale NaN = True"

definition parse_bitmap_scales :: "string \<Rightarrow> pyfloat list" where
  "parse_bitmap_scales raw =
     (let parsed = concat (map (\<lambda>item. if py_strip item = [] then []
                                       else (case py_float (py_strip item) of
                                               None \<Rightarrow> [] | Some v \<Rightarrow> if positive_scale v then [v] else []))
                               (py_split (CHR '','') raw))
      in if parsed = [] then default_scales else parsed)"

definition render_policy_from_env :: "(string \<Rightarrow> string option) \<Rightarrow> render_policy option" where
  "render_policy_from_env env =
     (let scales = (case env ''RADAR_BITMAP_SCALES'' of None \<Rightarrow> default_scales | Some raw \<Rightarrow> parse_bitmap_scales raw);
          lock = (case env ''RADAR_MANUAL_CLUTTER_LOCK'' of None \<Rightarrow> False | Some raw \<Rightarrow> fusion_truthy raw)
      in case (env_finite env ''RADAR_LOD_VECTOR_ZOOM'' (12 / 10), env_finite env ''RADAR_LOD_LABEL_ZOOM'' (15 / 10),
               env_finite env ''RADAR_LOD_DETAIL_ZOOM'' 2, env_finite env ''RADAR_FRAME_BUDGET_MS'' 80) of
           (Some v, Some l, Some d, Some b) \<Rightarrow>
             Some \<lparr>pc_lod_vector = v, pc_lod_label = l, pc_lod_detail = d,
                   pc_clutter_max = max 1 (env_int env ''RADAR_CLUTTER_TARGETS_MAX'' 30), pc_frame_budget = max 1 b,
                   pc_trail_len = max 1 (env_int env ''RADAR_TRAIL_LEN'' 20), pc_scales = scales,
                   pc_cooldown_ms = max 0 (env_int env ''RADAR_DEGRADE_COOLDOWN_MS'' 800),
                   pc_recovery_frames = max 1 (env_int env ''RADAR_RECOVERY_CONFIRM_FRAMES'' 6),
                   pc_degrade_frames = max 1 (env_int env ''RADAR_DEGRADE_CONFIRM_FRAMES'' 2), pc_manual_lock = lock\<rparr>
         | _ \<Rightarrow> None)"

definition lod_level :: "render_policy \<Rightarrow> real \<Rightarrow> nat" where
  "lod_level pc zoom =
     (if zoom < pc_lod_vector pc then 0 else if zoom < pc_lod_label pc then 1 else if zoom < pc_lod_detail pc then 2 else 3)"

section \<open>Degradation\<close>

record degradation =
  dg_level :: int
  dg_last_change :: real
  dg_violations :: int
  dg_ok :: int
  dg_scale :: pyfloat

definition initial_degradation :: "render_policy \<Rightarrow> degradation" where
  "initial_degradation pc = \<lparr>dg_level = 0, dg_last_change = 0, dg_violations = 0, dg_ok = 0, dg_scale = hd (pc_scales pc)\<rparr>"

text \<open>What triggers a degradation, in the order of the code.\<close>

definition clutter_triggers :: "render_policy \<Rightarrow> int \<Rightarrow> real \<Rightarrow> string list" where
  "clutter_triggers pc targets frame_ms =
     (if targets > pc_clutter_max pc then [''TARGET_OVERLOAD''] else []) @
     (if frame_ms > pc_frame_budget pc then [''FRAME_BUDGET_EXCEEDED''] else []) @
     (if pc_manual_lock pc then [''MANUAL_CLUTTER_LOCK''] else [])"

definition elapsed_ms :: "degradation \<Rightarrow> real \<Rightarrow> real" where
  "elapsed_ms dg now = (if dg_last_change dg > 0 \<and> now > 0 then (now - dg_last_change dg) * 1000 else 10000)"

definition max_level :: "render_policy \<Rightarrow> int" where
  "max_level pc = max 0 (int (length (pc_scales pc)) - 1)"

definition next_degradation :: "render_policy \<Rightarrow> bool \<Rightarrow> real \<Rightarrow> degradation \<Rightarrow> degradation" where
  "next_degradation pc trigger now dg =
     (let violations = (if trigger then dg_violations dg + 1 else 0);
          ok = (if trigger then 0 else dg_ok dg + 1);
          can_change = (elapsed_ms dg now \<ge> of_int (pc_cooldown_ms pc));
          (level, v, k, t) =
            (if trigger \<and> can_change \<and> violations \<ge> pc_degrade_frames pc \<and> dg_level dg < max_level pc
             then (dg_level dg + 1, 0, 0, now)
             else if \<not> trigger \<and> can_change \<and> ok \<ge> pc_recovery_frames pc \<and> dg_level dg > 0
             then (dg_level dg - 1, 0, 0, now)
             else (dg_level dg, violations, ok, dg_last_change dg))
      in \<lparr>dg_level = level, dg_last_change = t, dg_violations = v, dg_ok = k,
          dg_scale = pc_scales pc ! nat (min level (int (length (pc_scales pc)) - 1))\<rparr>)"

section \<open>Plan\<close>

record draws =
  dr_grid :: bool
  dr_rings :: bool
  dr_vectors :: bool
  dr_trails :: bool
  dr_labels :: bool
  dr_selection :: bool
  dr_dropped :: "string list"

definition wanted_draws :: "view_state \<Rightarrow> nat \<Rightarrow> draws" where
  "wanted_draws vs lod =
     (let on = vs_overlays_enabled vs; ov = vs_overlays vs
      in \<lparr>dr_grid = (on \<and> ov_grid ov), dr_rings = (on \<and> ov_range_rings ov), dr_vectors = (on \<and> ov_vectors ov \<and> lod \<ge> 1),
          dr_trails = (on \<and> ov_trails ov), dr_labels = (on \<and> ov_labels ov \<and> lod \<ge> 2), dr_selection = ov_selection ov,
          dr_dropped = []\<rparr>)"

definition drop_labels :: "bool \<Rightarrow> string \<Rightarrow> draws \<Rightarrow> draws" where
  "drop_labels b name d = (if b \<and> dr_labels d then d\<lparr>dr_labels := False, dr_dropped := dr_dropped d @ [name]\<rparr> else d)"

definition drop_trails :: "bool \<Rightarrow> string \<Rightarrow> draws \<Rightarrow> draws" where
  "drop_trails b name d = (if b \<and> dr_trails d then d\<lparr>dr_trails := False, dr_dropped := dr_dropped d @ [name]\<rparr> else d)"

definition drop_vectors :: "bool \<Rightarrow> string \<Rightarrow> draws \<Rightarrow> draws" where
  "drop_vectors b name d = (if b \<and> dr_vectors d then d\<lparr>dr_vectors := False, dr_dropped := dr_dropped d @ [name]\<rparr> else d)"

definition level_drops :: "int \<Rightarrow> draws \<Rightarrow> draws" where
  "level_drops level d =
     drop_vectors (level \<ge> 3) ''vectors'' (drop_trails (level \<ge> 2) ''trails'' (drop_labels (level \<ge> 1) ''labels'' d))"

definition lod_drops :: "nat \<Rightarrow> draws \<Rightarrow> draws" where
  "lod_drops lod d =
     (if lod = 0
      then drop_trails True ''trails_lod'' (drop_vectors True ''vectors_lod'' (drop_labels True ''labels_lod'' d))
      else if lod = 1 then drop_labels True ''labels_lod'' d else d)"

record render_plan =
  pl_lod :: nat
  pl_draws :: draws
  pl_clutter_on :: bool
  pl_reasons :: "string list"
  pl_scale :: pyfloat
  pl_level :: int
  pl_targets :: int
  pl_frame_ms :: real

definition build_plan ::
  "render_policy \<Rightarrow> view_state \<Rightarrow> int \<Rightarrow> real \<Rightarrow> string \<Rightarrow> degradation \<Rightarrow> real \<Rightarrow> render_plan \<times> degradation" where
  "build_plan pc vs targets frame_ms backend dg now =
     (let lod = lod_level pc (vs_zoom vs); triggers = clutter_triggers pc targets frame_ms;
          dg' = next_degradation pc (triggers \<noteq> []) now dg;
          reasons = triggers @ (if dg_level dg' > 0 \<and> backend = ''unicode'' then [''LOW_CAPABILITY_BACKEND''] else [])
      in (\<lparr>pl_lod = lod, pl_draws = lod_drops lod (level_drops (dg_level dg') (wanted_draws vs lod)),
           pl_clutter_on = (dg_level dg' > 0), pl_reasons = dedup reasons, pl_scale = dg_scale dg',
           pl_level = dg_level dg', pl_targets = targets, pl_frame_ms = frame_ms\<rparr>, dg'))"

section \<open>What is drawn\<close>

lemma level_drops_draws:
  "dr_labels (level_drops l d) = (dr_labels d \<and> l < 1)" "dr_trails (level_drops l d) = (dr_trails d \<and> l < 2)"
  "dr_vectors (level_drops l d) = (dr_vectors d \<and> l < 3)" "dr_grid (level_drops l d) = dr_grid d"
  "dr_rings (level_drops l d) = dr_rings d" "dr_selection (level_drops l d) = dr_selection d"
  "dr_dropped (level_drops l d) = dr_dropped d @ (if dr_labels d \<and> 1 \<le> l then [''labels''] else []) @
     (if dr_trails d \<and> 2 \<le> l then [''trails''] else []) @ (if dr_vectors d \<and> 3 \<le> l then [''vectors''] else [])"
  by (auto simp: level_drops_def drop_labels_def drop_trails_def drop_vectors_def)

lemma lod_drops_draws:
  "dr_labels (lod_drops n d) = (dr_labels d \<and> n \<ge> 2)" "dr_trails (lod_drops n d) = (dr_trails d \<and> n \<ge> 1)"
  "dr_vectors (lod_drops n d) = (dr_vectors d \<and> n \<ge> 1)" "dr_grid (lod_drops n d) = dr_grid d"
  "dr_rings (lod_drops n d) = dr_rings d" "dr_selection (lod_drops n d) = dr_selection d"
  "dr_dropped (lod_drops n d) = dr_dropped d @ (if dr_labels d \<and> n \<le> 1 then [''labels_lod''] else []) @
     (if dr_vectors d \<and> n = 0 then [''vectors_lod''] else []) @ (if dr_trails d \<and> n = 0 then [''trails_lod''] else [])"
  by (auto simp: lod_drops_def drop_labels_def drop_trails_def drop_vectors_def)

text \<open>What the operator asked for and the zoom allows, whatever the load.\<close>

definition plan_ok :: "view_state \<Rightarrow> render_plan \<Rightarrow> bool" where
  "plan_ok vs pl \<longleftrightarrow>
     (let on = vs_overlays_enabled vs; ov = vs_overlays vs; d = pl_draws pl; lod = pl_lod pl; level = pl_level pl;
          labels = (on \<and> ov_labels ov \<and> 2 \<le> lod); vectors = (on \<and> ov_vectors ov \<and> 1 \<le> lod); trails = (on \<and> ov_trails ov)
      in (dr_labels d \<longleftrightarrow> labels \<and> level < 1) \<and> (dr_vectors d \<longleftrightarrow> vectors \<and> level < 3) \<and>
         (dr_trails d \<longleftrightarrow> trails \<and> level < 2 \<and> 1 \<le> lod) \<and>
         (dr_grid d \<longleftrightarrow> on \<and> ov_grid ov) \<and> (dr_rings d \<longleftrightarrow> on \<and> ov_range_rings ov) \<and>
         (dr_selection d \<longleftrightarrow> ov_selection ov) \<and>
         dr_dropped d = (if labels \<and> 1 \<le> level then [''labels''] else []) @ (if trails \<and> 2 \<le> level then [''trails''] else []) @
                        (if vectors \<and> 3 \<le> level then [''vectors''] else []) @
                        (if trails \<and> level < 2 \<and> lod = 0 then [''trails_lod''] else []))"

text \<open>
  The plan of a frame draws exactly what the operator asked for, the zoom allows and the degradation level
  has not taken away: labels go first, then trails, then vectors; and it lists all that the level or the zoom
  took, in that order. (Of the entries for the zoom only \<open>trails_lod\<close> occurs.)
\<close>

theorem plan_draws_what_is_left: "plan_ok vs (fst (build_plan pc vs targets frame_ms backend dg now))"
proof -
  let ?pl = "fst (build_plan pc vs targets frame_ms backend dg now)"
  have d: "pl_draws ?pl = lod_drops (pl_lod ?pl) (level_drops (pl_level ?pl) (wanted_draws vs (pl_lod ?pl)))"
    by (simp add: build_plan_def Let_def)
  show ?thesis
    unfolding plan_ok_def d Let_def lod_drops_draws level_drops_draws
    by (cases "pl_lod ?pl"; cases "vs_overlays_enabled vs") (auto simp: wanted_draws_def Let_def)
qed

section \<open>Runs of the degradation\<close>

record load =
  ld_view :: view_state
  ld_targets :: int
  ld_frame_ms :: real
  ld_backend :: string
  ld_now :: real

definition load_step :: "render_policy \<Rightarrow> degradation \<Rightarrow> load \<Rightarrow> degradation" where
  "load_step pc dg l = snd (build_plan pc (ld_view l) (ld_targets l) (ld_frame_ms l) (ld_backend l) dg (ld_now l))"

definition degradation_run :: "render_policy \<Rightarrow> load list \<Rightarrow> degradation" where
  "degradation_run pc ls = foldl (load_step pc) (initial_degradation pc) ls"

lemma degradation_run_snoc: "degradation_run pc (ls @ [l]) = load_step pc (degradation_run pc ls) l"
  by (simp add: degradation_run_def)

definition load_triggers :: "render_policy \<Rightarrow> load \<Rightarrow> bool" where
  "load_triggers pc l \<longleftrightarrow> clutter_triggers pc (ld_targets l) (ld_frame_ms l) \<noteq> []"

lemma load_step_eq: "load_step pc dg l = next_degradation pc (load_triggers pc l) (ld_now l) dg"
  by (simp add: load_step_def build_plan_def load_triggers_def Let_def)

text \<open>The three ways of a step.\<close>

lemma next_degradation_cases:
  obtains (up) "trigger" "dg_level dg < max_level pc" "dg_level (next_degradation pc trigger now dg) = dg_level dg + 1"
      "pc_degrade_frames pc \<le> dg_violations dg + 1" "of_int (pc_cooldown_ms pc) \<le> elapsed_ms dg now"
      "dg_last_change (next_degradation pc trigger now dg) = now" "dg_violations (next_degradation pc trigger now dg) = 0"
      "dg_ok (next_degradation pc trigger now dg) = 0"
  | (down) "\<not> trigger" "0 < dg_level dg" "dg_level (next_degradation pc trigger now dg) = dg_level dg - 1"
      "pc_recovery_frames pc \<le> dg_ok dg + 1" "of_int (pc_cooldown_ms pc) \<le> elapsed_ms dg now"
      "dg_last_change (next_degradation pc trigger now dg) = now" "dg_violations (next_degradation pc trigger now dg) = 0"
      "dg_ok (next_degradation pc trigger now dg) = 0"
  | (stay) "dg_level (next_degradation pc trigger now dg) = dg_level dg"
      "dg_last_change (next_degradation pc trigger now dg) = dg_last_change dg"
      "dg_violations (next_degradation pc trigger now dg) = (if trigger then dg_violations dg + 1 else 0)"
      "dg_ok (next_degradation pc trigger now dg) = (if trigger then 0 else dg_ok dg + 1)"
proof -
  let ?can = "of_int (pc_cooldown_ms pc) \<le> elapsed_ms dg now"
  consider (a) "trigger" ?can "pc_degrade_frames pc \<le> dg_violations dg + 1" "dg_level dg < max_level pc"
    | (b) "\<not> trigger" ?can "pc_recovery_frames pc \<le> dg_ok dg + 1" "0 < dg_level dg"
    | (c) "\<not> (trigger \<and> ?can \<and> pc_degrade_frames pc \<le> dg_violations dg + 1 \<and> dg_level dg < max_level pc)"
      "\<not> (\<not> trigger \<and> ?can \<and> pc_recovery_frames pc \<le> dg_ok dg + 1 \<and> 0 < dg_level dg)" by blast
  then show thesis
  proof cases
    case a then show ?thesis by (intro up) (simp_all add: next_degradation_def Let_def)
  next
    case b then show ?thesis by (intro down) (simp_all add: next_degradation_def Let_def)
  next
    case c
    then show ?thesis by (intro stay) (auto simp: next_degradation_def Let_def)
  qed
qed

lemma next_degradation_scale:
  "dg_scale (next_degradation pc trigger now dg) =
   pc_scales pc ! nat (min (dg_level (next_degradation pc trigger now dg)) (int (length (pc_scales pc)) - 1))"
  by (simp add: next_degradation_def Let_def split: prod.splits)

definition degradation_ok :: "render_policy \<Rightarrow> degradation \<Rightarrow> bool" where
  "degradation_ok pc dg \<longleftrightarrow> 0 \<le> dg_level dg \<and> dg_level dg \<le> max_level pc \<and> dg_scale dg \<in> set (pc_scales pc)"

lemma degradation_level_range: "0 \<le> dg_level (degradation_run pc ls) \<and> dg_level (degradation_run pc ls) \<le> max_level pc"
proof (induction ls rule: rev_induct)
  case Nil show ?case by (simp add: degradation_run_def initial_degradation_def max_level_def)
next
  case (snoc l ls)
  show ?case unfolding degradation_run_snoc load_step_eq
    by (rule next_degradation_cases [of "load_triggers pc l" "degradation_run pc ls" pc "ld_now l"]) (use snoc in auto)
qed

definition counters_ok :: "render_policy \<Rightarrow> load list \<Rightarrow> degradation \<Rightarrow> bool" where
  "counters_ok pc ls dg \<longleftrightarrow>
     0 \<le> dg_violations dg \<and> 0 \<le> dg_ok dg \<and> in_last (load_triggers pc) (nat (dg_violations dg)) ls \<and>
     in_last (\<lambda>l. \<not> load_triggers pc l) (nat (dg_ok dg)) ls"

lemma degradation_counters: "counters_ok pc ls (degradation_run pc ls)"
proof (induction ls rule: rev_induct)
  case Nil show ?case by (simp add: degradation_run_def initial_degradation_def counters_ok_def)
next
  case (snoc l ls)
  show ?case unfolding degradation_run_snoc load_step_eq
    by (rule next_degradation_cases [of "load_triggers pc l" "degradation_run pc ls" pc "ld_now l"])
      (use snoc in \<open>auto simp: counters_ok_def nat_add_distrib intro: in_last_Suc\<close>)
qed

text \<open>
  The degradation level moves one step at a time and only confirmed: up when each of the last
  \<open>degrade_confirm_frames\<close> frames was overloaded, down when each of the last \<open>recovery_confirm_frames\<close>
  frames was not.
\<close>

theorem degradation_confirmed:
  assumes "dg_level (degradation_run pc (ls @ [l])) \<noteq> dg_level (degradation_run pc ls)"
  shows "dg_level (degradation_run pc (ls @ [l])) = dg_level (degradation_run pc ls) + 1 \<and>
           in_last (load_triggers pc) (nat (pc_degrade_frames pc)) (ls @ [l]) \<or>
         dg_level (degradation_run pc (ls @ [l])) = dg_level (degradation_run pc ls) - 1 \<and>
           in_last (\<lambda>l. \<not> load_triggers pc l) (nat (pc_recovery_frames pc)) (ls @ [l])"
proof -
  let ?dg = "degradation_run pc ls"
  have c: "counters_ok pc ls ?dg" by (rule degradation_counters)
  show ?thesis
  proof (rule next_degradation_cases [of "load_triggers pc l" ?dg pc "ld_now l"], goal_cases)
    case 1
    then have "in_last (load_triggers pc) (Suc (nat (dg_violations ?dg))) (ls @ [l])"
      using c by (auto simp: counters_ok_def intro: in_last_Suc)
    then have "in_last (load_triggers pc) (nat (pc_degrade_frames pc)) (ls @ [l])"
      by (rule in_last_mono) (use 1 c in \<open>auto simp: counters_ok_def\<close>)
    with 1 show ?case by (simp add: degradation_run_snoc load_step_eq)
  next
    case 2
    then have "in_last (\<lambda>l. \<not> load_triggers pc l) (Suc (nat (dg_ok ?dg))) (ls @ [l])"
      using c by (auto simp: counters_ok_def intro: in_last_Suc)
    then have "in_last (\<lambda>l. \<not> load_triggers pc l) (nat (pc_recovery_frames pc)) (ls @ [l])"
      by (rule in_last_mono) (use 2 c in \<open>auto simp: counters_ok_def\<close>)
    with 2 show ?case by (simp add: degradation_run_snoc load_step_eq)
  next
    case 3
    with assms show ?case by (simp add: degradation_run_snoc load_step_eq)
  qed
qed

lemma last_change_grows:
  assumes "t \<le> dg_last_change (degradation_run pc ls)" "\<forall>l\<in>set ms. t \<le> ld_now l"
  shows "t \<le> dg_last_change (degradation_run pc (ls @ ms))"
  using assms(2)
proof (induction ms rule: rev_induct)
  case Nil with assms(1) show ?case by simp
next
  case (snoc l ms)
  have "dg_last_change (next_degradation pc b now dg) \<in> {dg_last_change dg, now}" for b now dg
    by (rule next_degradation_cases [of b dg pc now]) auto
  from this [of "load_triggers pc l" "ld_now l" "degradation_run pc (ls @ ms)"] snoc show ?case
    by (auto simp flip: append_assoc simp: degradation_run_snoc load_step_eq)
qed

lemma level_change_at:
  assumes "dg_level (degradation_run pc (ls @ [l])) \<noteq> dg_level (degradation_run pc ls)"
  shows "dg_last_change (degradation_run pc (ls @ [l])) = ld_now l \<and>
         of_int (pc_cooldown_ms pc) \<le> elapsed_ms (degradation_run pc ls) (ld_now l)"
  using assms unfolding degradation_run_snoc load_step_eq
  by (rule_tac next_degradation_cases [of "load_triggers pc l" "degradation_run pc ls" pc "ld_now l"]) auto

text \<open>
  The picture does not flicker: with positive times that do not go back, two changes of the degradation
  level are at least \<open>degrade_cooldown_ms\<close> apart.
\<close>

theorem degradation_changes_spaced:
  assumes "0 < ld_now l" "sorted (map ld_now (l # ms @ [m]))"
    and "dg_level (degradation_run pc (ls @ [l])) \<noteq> dg_level (degradation_run pc ls)"
    and "dg_level (degradation_run pc ((ls @ l # ms) @ [m])) \<noteq> dg_level (degradation_run pc (ls @ l # ms))"
  shows "of_int (pc_cooldown_ms pc) \<le> (ld_now m - ld_now l) * 1000"
proof -
  have "ld_now l \<le> dg_last_change (degradation_run pc (ls @ [l]))"
    using level_change_at [OF assms(3)] by simp
  then have "ld_now l \<le> dg_last_change (degradation_run pc ((ls @ [l]) @ ms))"
    by (rule last_change_grows) (use assms(2) in \<open>simp add: sorted_append\<close>)
  moreover have "of_int (pc_cooldown_ms pc) \<le> elapsed_ms (degradation_run pc (ls @ l # ms)) (ld_now m)"
    using level_change_at [OF assms(4)] by simp
  moreover have "ld_now l \<le> ld_now m" using assms(2) by (simp add: sorted_append)
  ultimately show ?thesis using assms(1) by (simp add: elapsed_ms_def)
qed

text \<open>
  A cooldown of more than ten seconds switches the degradation off: before the first change the code takes
  ten seconds as the time since the last one, so under any load the level stays zero.
\<close>

theorem long_cooldown_never_degrades:
  assumes "10000 < pc_cooldown_ms pc"
  shows "dg_level (degradation_run pc ls) = 0"
proof -
  have "dg_level (degradation_run pc ls) = 0 \<and> dg_last_change (degradation_run pc ls) = 0"
  proof (induction ls rule: rev_induct)
    case Nil show ?case by (simp add: degradation_run_def initial_degradation_def)
  next
    case (snoc l ls)
    then have "elapsed_ms (degradation_run pc ls) (ld_now l) = 10000" by (simp add: elapsed_ms_def)
    with snoc assms show ?case unfolding degradation_run_snoc load_step_eq
      by (rule_tac next_degradation_cases [of "load_triggers pc l" "degradation_run pc ls" pc "ld_now l"]) auto
  qed
  then show ?thesis by simp
qed

section \<open>A run\<close>

definition busy :: "real \<Rightarrow> load" where
  "busy t = \<lparr>ld_view = default_view, ld_targets = 100, ld_frame_ms = 10, ld_backend = ''kitty'', ld_now = t\<rparr>"

lemma busy_run:
  "dg_level (degradation_run default_render_policy [busy 1]) = 0"
  "dg_level (degradation_run default_render_policy ([busy 1] @ [busy 2])) = 1"
  "dg_level (degradation_run default_render_policy ([busy 1] @ busy 2 # [busy (21 / 10)])) = 1"
  "dg_level (degradation_run default_render_policy (([busy 1] @ busy 2 # [busy (21 / 10)]) @ [busy 3])) = 2"
  by (simp_all add: degradation_run_def load_step_eq load_triggers_def clutter_triggers_def busy_def
      default_render_policy_def default_scales_def initial_degradation_def next_degradation_def elapsed_ms_def
      max_level_def Let_def)

theorem degradation_confirmed_witness:
  "dg_level (degradation_run default_render_policy ([busy 1] @ [busy 2])) =
     dg_level (degradation_run default_render_policy [busy 1]) + 1 \<and>
     in_last (load_triggers default_render_policy) (nat (pc_degrade_frames default_render_policy)) ([busy 1] @ [busy 2]) \<or>
   dg_level (degradation_run default_render_policy ([busy 1] @ [busy 2])) =
     dg_level (degradation_run default_render_policy [busy 1]) - 1 \<and>
     in_last (\<lambda>l. \<not> load_triggers default_render_policy l) (nat (pc_recovery_frames default_render_policy)) ([busy 1] @ [busy 2])"
  by (rule degradation_confirmed) (use busy_run(1,2) in linarith)

theorem degradation_changes_spaced_witness:
  "of_int (pc_cooldown_ms default_render_policy) \<le> (ld_now (busy 3) - ld_now (busy 2)) * (1000 :: real)"
proof (rule degradation_changes_spaced [of _ "[busy (21 / 10)]" _ _ "[busy 1]"])
  show "0 < ld_now (busy 2)" "sorted (map ld_now (busy 2 # [busy (21 / 10)] @ [busy 3]))"
    by (simp_all add: busy_def)
qed (use busy_run in linarith)+

theorem long_cooldown_never_degrades_witness:
  "dg_level (degradation_run (default_render_policy\<lparr>pc_cooldown_ms := 15000\<rparr>) [busy 1, busy 2, busy 30]) = 0"
  by (rule long_cooldown_never_degrades) simp

end
