(* ===== verification/Radar_Pipeline.thy ===== *)
theory Radar_Pipeline
  imports Situation_Runs Radar_Render
begin

text \<open>
  The radar pipeline (\<open>src/qiki/services/q_core_agent/core/radar_pipeline.py\<close>) with the built-in plugins of
  \<open>radar_plugins.py\<close>: a frame of observations is ingested, fused or passed on, added to the trails, planned,
  searched for situations and drawn by a backend, which may fail; the adaptive policy follows the measured
  load. Every reading of the clock is an argument; the backend is its name and whether it raises. The events
  written to the store, the replay of traces and the choice of plugins are left out here.
\<close>

section \<open>Adaptive policy\<close>

record adaptive_config =
  ac_enabled :: bool
  ac_alpha_frame :: real
  ac_alpha_targets :: real
  ac_high_frame :: real
  ac_low_frame :: real
  ac_overload :: real
  ac_underload :: real
  ac_degrade_frames :: int
  ac_recovery_frames :: int
  ac_cooldown_ms :: int
  ac_max_level :: int
  ac_clutter_reduction :: real
  ac_label_delta :: real
  ac_detail_delta :: real

definition default_adaptive :: adaptive_config where
  "default_adaptive =
     \<lparr>ac_enabled = True, ac_alpha_frame = 35 / 100, ac_alpha_targets = 1 / 4, ac_high_frame = 12 / 10, ac_low_frame = 8 / 10,
      ac_overload = 115 / 100, ac_underload = 3 / 4, ac_degrade_frames = 3, ac_recovery_frames = 5, ac_cooldown_ms = 1200,
      ac_max_level = 2, ac_clutter_reduction = 1 / 5, ac_label_delta = 1 / 5, ac_detail_delta = 15 / 100\<rparr>"

record adaptive_state =
  as_level :: int
  as_ema_frame :: "real option"
  as_ema_targets :: "real option"
  as_high :: int
  as_low :: int
  as_last_change :: real

definition new_adaptive :: adaptive_state where
  "new_adaptive = \<lparr>as_level = 0, as_ema_frame = None, as_ema_targets = None, as_high = 0, as_low = 0, as_last_change = 0\<rparr>"

definition ema :: "real \<Rightarrow> real option \<Rightarrow> real \<Rightarrow> real" where
  "ema a prev x = (case prev of None \<Rightarrow> x | Some y \<Rightarrow> (min 1 (max 0 a)) * x + (1 - min 1 (max 0 a)) * y)"

definition too_busy :: "adaptive_config \<Rightarrow> render_policy \<Rightarrow> real \<Rightarrow> real \<Rightarrow> bool" where
  "too_busy ac pc f t \<longleftrightarrow>
     f > pc_frame_budget pc * ac_high_frame ac \<or> t > of_int (pc_clutter_max pc) * ac_overload ac"

definition too_idle :: "adaptive_config \<Rightarrow> render_policy \<Rightarrow> real \<Rightarrow> real \<Rightarrow> bool" where
  "too_idle ac pc f t \<longleftrightarrow>
     f < pc_frame_budget pc * ac_low_frame ac \<and> t < of_int (pc_clutter_max pc) * ac_underload ac"

definition may_change :: "adaptive_config \<Rightarrow> real \<Rightarrow> adaptive_state \<Rightarrow> bool" where
  "may_change ac now st \<longleftrightarrow>
     (if as_last_change st > 0 then (now - as_last_change st) * 1000 else of_int (ac_cooldown_ms ac) + 1)
       \<ge> of_int (ac_cooldown_ms ac)"

definition update_adaptive ::
  "adaptive_config \<Rightarrow> render_policy \<Rightarrow> real \<Rightarrow> real \<Rightarrow> int \<Rightarrow> adaptive_state \<Rightarrow> adaptive_state" where
  "update_adaptive ac pc now frame_ms targets st =
     (if \<not> ac_enabled ac then st
      else let f = ema (ac_alpha_frame ac) (as_ema_frame st) frame_ms;
               t = ema (ac_alpha_targets ac) (as_ema_targets st) (of_int targets);
               high = too_busy ac pc f t; low = too_idle ac pc f t;
               nh = (if high then as_high st + 1 else 0); nl = (if low then as_low st + 1 else 0);
               (level, h, l, ts) =
                 (if may_change ac now st \<and> high \<and> nh \<ge> ac_degrade_frames ac \<and> as_level st < ac_max_level ac
                  then (as_level st + 1, 0, 0, now)
                  else if may_change ac now st \<and> low \<and> nl \<ge> ac_recovery_frames ac \<and> as_level st > 0
                  then (as_level st - 1, 0, 0, now)
                  else (as_level st, nh, nl, as_last_change st))
           in \<lparr>as_level = level, as_ema_frame = Some f, as_ema_targets = Some t, as_high = h, as_low = l, as_last_change = ts\<rparr>)"

text \<open>\<open>BuiltinRenderPolicyPlugin.effective_policy\<close>\<close>

definition effective_policy :: "adaptive_config \<Rightarrow> render_policy \<Rightarrow> int \<Rightarrow> render_policy" where
  "effective_policy ac base level0 =
     (if \<not> ac_enabled ac \<or> level0 \<le> 0 then base
      else let level = max 0 (min level0 (ac_max_level ac));
               mult = max (5 / 100) (1 - ac_clutter_reduction ac * of_int level)
           in base\<lparr>pc_clutter_max := max 1 (round_half_even (of_int (pc_clutter_max base) * mult)),
                   pc_lod_label := pc_lod_label base + ac_label_delta ac * of_int level,
                   pc_lod_detail := pc_lod_detail base + ac_detail_delta ac * of_int level\<rparr>)"

section \<open>Pipeline\<close>

text \<open>\<open>BuiltinFusionPlugin.fuse\<close>\<close>

definition plugin_fuse ::
  "(string \<Rightarrow> string) \<Rightarrow> fusion_config \<Rightarrow> real \<Rightarrow> string \<Rightarrow> string \<Rightarrow> bool \<Rightarrow> tracks_by_source \<Rightarrow> fusion_state \<Rightarrow>
   radar_scene \<times> fusion_state" where
  "plugin_fuse sha1 cfg now truth reason fallback m st =
     (if fc_enabled cfg
      then (let (z, st') = fuse_tracks sha1 cfg now m st in (fused_tracks_to_scene truth reason fallback z, st'))
      else (source_tracks_to_scene truth reason fallback m, st))"

definition apply_alert_selection :: "view_state \<Rightarrow> situation list \<Rightarrow> view_state" where
  "apply_alert_selection vs ss =
     (let ordered = sort_key (\<lambda>s. (status_rank (st_status s), severity_rank (st_severity s), - st_updated s, st_id s)) ss
      in if ordered = [] then vs
         else let s = ordered ! nat (al_cursor (vs_alerts vs) mod int (length ordered));
                  tr = (case st_tracks s of [] \<Rightarrow> None | t # ts \<Rightarrow> Some t)
              in vs\<lparr>vs_selected := opt_or tr (vs_selected vs),
                    vs_alerts := (vs_alerts vs)\<lparr>al_selected := Some (st_id s), al_focus := tr\<rparr>\<rparr>)"

record pipeline_config =
  pg_sha1 :: "string \<Rightarrow> string"
  pg_fusion :: fusion_config
  pg_situation :: situation_config
  pg_policy :: render_policy
  pg_adaptive :: adaptive_config

record pipeline =
  pp_fusion :: fusion_state
  pp_trails :: trail_store
  pp_engine :: situation_engine
  pp_view :: view_state
  pp_degradation :: degradation
  pp_adaptive :: adaptive_state
  pp_frame_ms :: real
  pp_backend :: string
  pp_situations :: "situation list"

definition new_pipeline :: "pipeline_config \<Rightarrow> view_state \<Rightarrow> string \<Rightarrow> pipeline" where
  "new_pipeline g vs backend =
     \<lparr>pp_fusion = empty_fusion, pp_trails = new_trail_store (pc_trail_len (pg_policy g)), pp_engine = new_engine,
      pp_view = vs, pp_degradation = initial_degradation (pg_policy g), pp_adaptive = new_adaptive, pp_frame_ms = 0,
      pp_backend = backend, pp_situations = []\<rparr>"

text \<open>What the environment answers during a frame: the clock and the backends.\<close>

record frame_env =
  fe_now_fuse :: real
  fe_now_plan :: real
  fe_now_eval :: real
  fe_start :: real
  fe_stop :: real
  fe_now_adapt :: real
  fe_raises :: bool \<comment> \<open>the active backend raises\<close>
  fe_unicode_raises :: bool \<comment> \<open>the text backend, called after another one failed, raises\<close>
  fe_view :: "view_state option"

definition prepare_scene :: "pipeline_config \<Rightarrow> frame_env \<Rightarrow> radar_scene \<Rightarrow> pipeline \<Rightarrow> pipeline \<times> situation_delta list" where
  "prepare_scene g en sc p =
     (let vs = (case fe_view en of Some v \<Rightarrow> v | None \<Rightarrow> pp_view p);
          trails = update_from_scene (pp_trails p) sc;
          pc = effective_policy (pg_adaptive g) (pg_policy g) (as_level (pp_adaptive p));
          (plan, dg) = build_plan pc vs (int (length (rs_points sc))) (pp_frame_ms p) (pp_backend p) (pp_degradation p) (fe_now_plan en);
          (e, ss, ds) = situation_evaluate (pg_situation g) (fe_now_eval en) sc trails (pp_engine p)
      in (p\<lparr>pp_trails := trails, pp_degradation := dg, pp_engine := e, pp_view := apply_alert_selection vs ss,
            pp_situations := ss\<rparr>, ds))"

definition finish_frame :: "pipeline_config \<Rightarrow> frame_env \<Rightarrow> radar_scene \<Rightarrow> pipeline \<Rightarrow> pipeline" where
  "finish_frame g en sc p =
     (let ms = (fe_stop en - fe_start en) * 1000
      in p\<lparr>pp_frame_ms := ms,
           pp_adaptive := update_adaptive (pg_adaptive g) (pg_policy g) (fe_now_adapt en) ms (int (length (rs_points sc))) (pp_adaptive p)\<rparr>)"

datatype render_result = Rendered string | Rendered_fallback string | Render_raised

definition draw_scene :: "pipeline_config \<Rightarrow> frame_env \<Rightarrow> radar_scene \<Rightarrow> pipeline \<Rightarrow> pipeline \<times> render_result" where
  "draw_scene g en sc p =
     (if \<not> fe_raises en then (finish_frame g en sc p, Rendered (pp_backend p))
      else if pp_backend p = ''unicode'' then (p, Render_raised)
      else if fe_unicode_raises en then (p\<lparr>pp_backend := ''unicode''\<rparr>, Render_raised)
      else (finish_frame g en sc (p\<lparr>pp_backend := ''unicode''\<rparr>), Rendered_fallback (pp_backend p)))"

definition render_scene ::
  "pipeline_config \<Rightarrow> frame_env \<Rightarrow> radar_scene \<Rightarrow> pipeline \<Rightarrow> pipeline \<times> situation_delta list \<times> render_result" where
  "render_scene g en sc p =
     (let (p1, ds) = prepare_scene g en sc p; (p2, r) = draw_scene g en sc p1 in (p2, ds, r))"

definition render_observations ::
  "pipeline_config \<Rightarrow> frame_env \<Rightarrow> string \<Rightarrow> string \<Rightarrow> bool \<Rightarrow> observation list \<Rightarrow> pipeline \<Rightarrow>
   pipeline \<times> situation_delta list \<times> render_result" where
  "render_observations g en truth reason fallback obs p =
     (let (m, es) = ingest_observations False False obs;
          (sc, st) = plugin_fuse (pg_sha1 g) (pg_fusion g) (fe_now_fuse en) truth reason fallback m (pp_fusion p)
      in render_scene g en sc (p\<lparr>pp_fusion := st\<rparr>))"

section \<open>Runs\<close>

record pipeline_frame =
  pf_env :: frame_env
  pf_truth :: string
  pf_reason :: string
  pf_fallback :: bool
  pf_observations :: "observation list"

definition pipeline_step ::
  "pipeline_config \<Rightarrow> pipeline \<times> situation_delta list \<Rightarrow> pipeline_frame \<Rightarrow> pipeline \<times> situation_delta list" where
  "pipeline_step g s f =
     (let (p, ds, r) = render_observations g (pf_env f) (pf_truth f) (pf_reason f) (pf_fallback f) (pf_observations f) (fst s)
      in (p, snd s @ ds))"

definition pipeline_run ::
  "pipeline_config \<Rightarrow> view_state \<Rightarrow> string \<Rightarrow> pipeline_frame list \<Rightarrow> pipeline \<times> situation_delta list" where
  "pipeline_run g vs backend fs = foldl (pipeline_step g) (new_pipeline g vs backend, []) fs"

section \<open>The sign of the speed\<close>

text \<open>No point of the scene approaches by the convention of the situation engine.\<close>

definition never_closing :: "radar_scene \<Rightarrow> bool" where
  "never_closing sc \<longleftrightarrow> (\<forall>p\<in>set (rs_points sc). closing_speed p = 0)"

lemma target_point_closing [simp]: "closing_speed (target_point pos vel tid) = 0"
  by (auto simp: closing_speed_def target_point_def hypot2_def split: option.splits prod.splits)

lemma source_scene_never_closing: "never_closing (source_tracks_to_scene truth reason fallback m)"
  by (auto simp: never_closing_def source_tracks_to_scene_def make_scene_def)

lemma fused_scene_never_closing: "never_closing (fused_tracks_to_scene truth reason fallback z)"
  by (auto simp: never_closing_def fused_tracks_to_scene_def make_scene_def Let_def)

lemma plugin_scene_never_closing: "never_closing (fst (plugin_fuse sha1 cfg now truth reason fallback m st))"
  by (simp add: plugin_fuse_def source_scene_never_closing fused_scene_never_closing split: prod.splits)

lemma points_by_track_points: "snd ` set (points_by_track ps) \<subseteq> set ps"
  unfolding points_by_track_def
proof (rule foldl_inv [where P = "\<lambda>m. snd ` set m \<subseteq> set ps"])
  fix m :: "(string, radar_point) dict" and x :: "nat \<times> radar_point"
  assume "x \<in> set (enumerate 0 ps)" "snd ` set m \<subseteq> set ps"
  then show "snd ` set ((\<lambda>m (idx, p). dict_set m (point_track_id idx p) p) m x) \<subseteq> set ps"
  proof (cases x rule: prod.exhaust)
    fix idx q
    assume Pair: "x = (idx, q)"
    with \<open>x \<in> set (enumerate 0 ps)\<close> have "q \<in> set ps" by (auto simp: in_set_enumerate_eq)
    moreover have "snd ` set (dict_set m (point_track_id idx q) q) \<subseteq> insert q (snd ` set m)"
      using image_mono [OF set_dict_set [of "point_track_id idx q" q m], of snd] by simp
    ultimately show ?thesis using \<open>snd ` set m \<subseteq> set ps\<close> Pair by auto
  qed
qed simp

definition only_unknown :: "(string, situation_candidate) dict \<Rightarrow> bool" where
  "only_unknown m \<longleftrightarrow> (\<forall>e\<in>set m. sc_type (snd e) = UNKNOWN_NEARBY)"

lemma add_unknown: "only_unknown m \<Longrightarrow> only_unknown (add_candidate (unknown_candidate cfg i p) m)"
  using set_dict_set [of _ _ m] by (fastforce simp: only_unknown_def add_candidate_def unknown_candidate_def)

lemma never_closing_only_unknown:
  assumes "never_closing sc" "0 \<le> sg_closing_warn cfg"
  shows "only_unknown (collect_candidates cfg sc ts)"
proof -
  have "only_unknown (foldl (collect_step cfg ts) [] (points_by_track (rs_points sc)))"
  proof (rule foldl_inv [where P = only_unknown])
    fix m e
    assume e: "e \<in> set (points_by_track (rs_points sc))" and m: "only_unknown m"
    then have "closing_speed (snd e) = 0" using assms(1) points_by_track_points by (force simp: never_closing_def)
    with assms(2) have "cpa_candidate cfg (fst e) (snd e) = None" "closing_candidate cfg ts (fst e) (snd e) = None"
      by (auto simp: cpa_candidate_def time_to_cpa_def closing_candidate_def)
    then have "collect_step cfg ts m e = add_candidate (unknown_candidate cfg (fst e) (snd e)) m"
      by (simp add: collect_step_def add_candidate_def)
    with m show "only_unknown (collect_step cfg ts m e)" by (simp add: add_unknown)
  qed (simp add: only_unknown_def)
  then show ?thesis by (simp add: collect_candidates_def) (simp add: only_unknown_def)
qed

definition engine_unknown :: "situation_engine \<Rightarrow> bool" where
  "engine_unknown e \<longleftrightarrow> (\<forall>x\<in>set (se_active e). st_type (snd x) = UNKNOWN_NEARBY)"

definition deltas_unknown :: "situation_delta list \<Rightarrow> bool" where
  "deltas_unknown ds \<longleftrightarrow> (\<forall>d\<in>set ds. st_type (snd d) = UNKNOWN_NEARBY)"

definition state_unknown :: "situation_engine \<times> situation_delta list \<Rightarrow> bool" where
  "state_unknown s \<longleftrightarrow> engine_unknown (fst s) \<and> deltas_unknown (snd s)"

lemma situation_types [simp]:
  "st_type (create_situation now c) = sc_type c" "st_type (refresh_situation now c prev) = sc_type c"
  "st_type (mark_absent st r now prev) = st_type prev"
  by (simp_all add: create_situation_def refresh_situation_def mark_absent_def)

lemma set_active_unknown: "engine_unknown e \<Longrightarrow> st_type s = UNKNOWN_NEARBY \<Longrightarrow> engine_unknown (set_active i s e)"
  using set_dict_set [of i s "se_active e"] by (auto simp: engine_unknown_def set_active_def)

lemma set_confirm_unknown [simp]: "engine_unknown (set_confirm i n e) = engine_unknown e"
  by (simp add: engine_unknown_def set_confirm_def)

lemma drop_unknown: "engine_unknown e \<Longrightarrow> engine_unknown (drop_situation i t e)"
  by (auto simp: engine_unknown_def drop_situation_def AList.delete_eq)

lemma active_unknown: "engine_unknown e \<Longrightarrow> dict_get (se_active e) i = Some s \<Longrightarrow> st_type s = UNKNOWN_NEARBY"
  by (auto simp: engine_unknown_def dest!: map_of_SomeD)

lemma candidate_step_unknown:
  "state_unknown s \<Longrightarrow> sc_type (snd e) = UNKNOWN_NEARBY \<Longrightarrow> state_unknown (candidate_step cfg now s e)"
  by (auto simp: state_unknown_def deltas_unknown_def candidate_step_def Let_def set_active_unknown split: option.splits)

lemma missing_step_unknown: "state_unknown s \<Longrightarrow> state_unknown (missing_step cfg now cands s i)"
  by (auto simp: state_unknown_def deltas_unknown_def missing_step_def Let_def set_active_unknown drop_unknown
      active_unknown split: option.splits)

lemma evaluate_unknown:
  assumes "engine_unknown e" "only_unknown m"
  shows "state_unknown (evaluate_candidates cfg now m e)"
proof -
  have "state_unknown (e, [])" using assms(1) by (simp add: state_unknown_def deltas_unknown_def)
  then have "state_unknown (foldl (candidate_step cfg now) (e, []) m)"
    by (rule foldl_inv [where P = state_unknown, rotated]) (use assms(2) in \<open>simp add: only_unknown_def candidate_step_unknown\<close>)
  then have "state_unknown (foldl (missing_step cfg now (dict_keys m)) (foldl (candidate_step cfg now) (e, []) m) is)" for "is"
    by (rule foldl_inv [where P = state_unknown, rotated]) (rule missing_step_unknown)
  then show ?thesis
    by (simp add: evaluate_candidates_def Let_def state_unknown_def engine_unknown_def clean_confirm_def)
qed

lemma finish_frame_engine [simp]: "pp_engine (finish_frame g en sc p) = pp_engine p"
  by (simp add: finish_frame_def Let_def)

lemma draw_scene_engine [simp]: "pp_engine (fst (draw_scene g en sc p)) = pp_engine p"
  by (simp add: draw_scene_def)

lemma render_scene_unknown:
  assumes "engine_unknown (pp_engine p)" "never_closing sc" "0 \<le> sg_closing_warn (pg_situation g)"
  shows "engine_unknown (pp_engine (fst (render_scene g en sc p))) \<and> deltas_unknown (fst (snd (render_scene g en sc p)))"
proof -
  obtain e ss ds where ev: "situation_evaluate (pg_situation g) (fe_now_eval en) sc (update_from_scene (pp_trails p) sc) (pp_engine p) = (e, ss, ds)"
    by (cases rule: prod_cases3)
  have "state_unknown (e, ds)"
  proof (cases "sg_enabled (pg_situation g)")
    case True
    have "only_unknown (collect_candidates (pg_situation g) sc (update_from_scene (pp_trails p) sc))"
      using assms(2,3) by (rule never_closing_only_unknown)
    from evaluate_unknown [OF assms(1) this, of "pg_situation g" "fe_now_eval en"] ev True show ?thesis
      by (auto simp: situation_evaluate_def Let_def split: prod.splits)
  next
    case False
    with ev assms(1) show ?thesis by (simp add: situation_evaluate_def state_unknown_def deltas_unknown_def)
  qed
  moreover have "pp_engine (fst (prepare_scene g en sc p)) = e" "snd (prepare_scene g en sc p) = ds"
    using ev by (simp_all add: prepare_scene_def Let_def split: prod.splits)
  moreover have "pp_engine (fst (render_scene g en sc p)) = pp_engine (fst (prepare_scene g en sc p))"
    "fst (snd (render_scene g en sc p)) = snd (prepare_scene g en sc p)"
    by (simp_all add: render_scene_def case_prod_beta)
  ultimately show ?thesis by (simp add: state_unknown_def)
qed

lemma pipeline_step_unknown:
  assumes "engine_unknown (pp_engine (fst s))" "deltas_unknown (snd s)" "0 \<le> sg_closing_warn (pg_situation g)"
  shows "engine_unknown (pp_engine (fst (pipeline_step g s f))) \<and> deltas_unknown (snd (pipeline_step g s f))"
proof -
  obtain m es where m: "ingest_observations False False (pf_observations f) = (m, es)" by (cases rule: prod.exhaust)
  obtain sc st where sc: "plugin_fuse (pg_sha1 g) (pg_fusion g) (fe_now_fuse (pf_env f)) (pf_truth f) (pf_reason f) (pf_fallback f) m (pp_fusion (fst s)) = (sc, st)"
    by (cases rule: prod.exhaust)
  have "never_closing sc"
    using plugin_scene_never_closing [of "pg_sha1 g" "pg_fusion g" "fe_now_fuse (pf_env f)" "pf_truth f" "pf_reason f" "pf_fallback f" m "pp_fusion (fst s)"]
    by (simp add: sc)
  then have *: "engine_unknown (pp_engine (fst (render_scene g (pf_env f) sc ((fst s)\<lparr>pp_fusion := st\<rparr>)))) \<and>
      deltas_unknown (fst (snd (render_scene g (pf_env f) sc ((fst s)\<lparr>pp_fusion := st\<rparr>))))"
    using assms(1,3) by (intro render_scene_unknown) simp_all
  obtain p ds r where r: "render_scene g (pf_env f) sc ((fst s)\<lparr>pp_fusion := st\<rparr>) = (p, ds, r)" by (rule prod_cases3)
  have "pipeline_step g s f = (p, snd s @ ds)"
    by (simp add: pipeline_step_def render_observations_def m sc r)
  with * r assms(2) show ?thesis by (auto simp: deltas_unknown_def)
qed

text \<open>
  C21. Targets that reach the radar as observations never raise an approach alarm: as long as the configured
  closing speed (\<open>RADAR_CLOSING_SPEED_WARN\<close>, which the code does not clamp) is not negative, whatever is
  observed, at whatever speed, with fusion or without it, every situation event of every run of the pipeline is
  of the type \<open>UNKNOWN_NEARBY\<close>. (The scene gets the magnitude of the velocity as its radial speed, and the
  situation engine reads a positive radial speed as a target that moves away.)
\<close>

theorem observations_never_raise_approach:
  assumes "0 \<le> sg_closing_warn (pg_situation g)"
  shows "list_all (\<lambda>d. st_type (snd d) = UNKNOWN_NEARBY) (snd (pipeline_run g vs backend fs))"
proof -
  let ?P = "\<lambda>s. engine_unknown (pp_engine (fst s)) \<and> deltas_unknown (snd s)"
  have "?P (new_pipeline g vs backend, [])"
    by (simp add: new_pipeline_def new_engine_def engine_unknown_def deltas_unknown_def)
  then have "?P (pipeline_run g vs backend fs)"
    unfolding pipeline_run_def
    by (rule foldl_inv [where P = ?P, rotated]) (rule pipeline_step_unknown, use assms in simp_all)
  then show ?thesis by (simp add: deltas_unknown_def list_all_iff)
qed

text \<open>A target 100 m ahead that comes closer at 50 m/s, seen once a second.\<close>

definition example_pipeline :: pipeline_config where
  "example_pipeline =
     \<lparr>pg_sha1 = (\<lambda>s. s), pg_fusion = example_fusion_config, pg_situation = default_situation_config,
      pg_policy = default_render_policy, pg_adaptive = default_adaptive\<rparr>"

definition incoming :: "real \<Rightarrow> pipeline_frame" where
  "incoming t =
     \<lparr>pf_env = \<lparr>fe_now_fuse = t, fe_now_plan = t, fe_now_eval = t, fe_start = t, fe_stop = t, fe_now_adapt = t,
                fe_raises = False, fe_unicode_raises = False, fe_view = None\<rparr>,
      pf_truth = ''OK'', pf_reason = ''OK'', pf_fallback = False,
      pf_observations = [\<lparr>ob_source = ''radar'', ob_t = Fin t, ob_key = ''t1'', ob_pos = [Fin (150 - 50 * t), Fin 0],
                          ob_vel = Some [Fin (- 50), Fin 0], ob_quality = Fin 1\<rparr>]\<rparr>"

theorem observations_never_raise_approach_witness:
  "list_all (\<lambda>d. st_type (snd d) = UNKNOWN_NEARBY)
     (snd (pipeline_run example_pipeline default_view ''unicode'' [incoming 1, incoming 2, incoming 3]))"
  by (rule observations_never_raise_approach) (simp add: example_pipeline_def default_situation_config_def)

section \<open>The adaptive level\<close>

definition adaptive_ok :: "adaptive_config \<Rightarrow> adaptive_state \<Rightarrow> bool" where
  "adaptive_ok ac st \<longleftrightarrow> 0 \<le> as_level st \<and> as_level st \<le> max 0 (ac_max_level ac)"

lemma update_adaptive_ok:
  "adaptive_ok ac st \<Longrightarrow> adaptive_ok ac (update_adaptive ac pc now frame_ms targets st)"
  by (auto simp: adaptive_ok_def update_adaptive_def Let_def)

lemma update_adaptive_step:
  "\<bar>as_level (update_adaptive ac pc now frame_ms targets st) - as_level st\<bar> \<le> 1"
  by (auto simp: update_adaptive_def Let_def)

text \<open>A higher level never lets more targets through without clutter, and never lowers the zoom of the labels.\<close>

lemma round_half_even_mono_bound:
  assumes "0 \<le> x" "x \<le> of_int n"
  shows "round_half_even x \<le> n"
proof -
  have "of_int (round_half_even x) \<le> x + 1 / 2" using round_half_even_error [of x] by linarith
  with assms have "of_int (round_half_even x) < (of_int (n + 1) :: real)" by simp
  then have "round_half_even x < n + 1" by (simp only: of_int_less_iff)
  then show ?thesis by simp
qed

text \<open>
  The policy in effect never relaxes with the level: at least one target and at most as many as the base
  policy are drawn without clutter, and the zooms for labels and details are no lower than the base's.
\<close>

theorem effective_policy_bounds:
  assumes "1 \<le> pc_clutter_max base" "0 \<le> ac_clutter_reduction ac" "0 \<le> ac_label_delta ac" "0 \<le> ac_detail_delta ac"
  shows "1 \<le> pc_clutter_max (effective_policy ac base level) \<and>
         pc_clutter_max (effective_policy ac base level) \<le> pc_clutter_max base \<and>
         pc_lod_label base \<le> pc_lod_label (effective_policy ac base level) \<and>
         pc_lod_detail base \<le> pc_lod_detail (effective_policy ac base level) \<and>
         pc_scales (effective_policy ac base level) = pc_scales base"
proof (cases "\<not> ac_enabled ac \<or> level \<le> 0")
  case True with assms show ?thesis by (simp add: effective_policy_def)
next
  case False
  define l where "l = max 0 (min level (ac_max_level ac))"
  define m where "m = max (5 / 100) (1 - ac_clutter_reduction ac * of_int l)"
  have eq: "effective_policy ac base level = base\<lparr>pc_clutter_max := max 1 (round_half_even (of_int (pc_clutter_max base) * m)),
      pc_lod_label := pc_lod_label base + ac_label_delta ac * of_int l,
      pc_lod_detail := pc_lod_detail base + ac_detail_delta ac * of_int l\<rparr>"
    using False unfolding effective_policy_def Let_def l_def m_def by (simp only: if_False)
  have "0 \<le> l" by (simp add: l_def)
  then have l: "0 \<le> ac_clutter_reduction ac * real_of_int l" "0 \<le> ac_label_delta ac * real_of_int l"
    "0 \<le> ac_detail_delta ac * real_of_int l"
    using assms(2-4) by (intro mult_nonneg_nonneg; simp)+
  then have m: "0 \<le> m" "m \<le> 1" unfolding m_def by (simp_all add: le_max_iff_disj)
  have "of_int (pc_clutter_max base) * m \<le> of_int (pc_clutter_max base) * (1 :: real)"
    using assms(1) m(2) by (intro mult_left_mono) auto
  then have "round_half_even (of_int (pc_clutter_max base) * m) \<le> pc_clutter_max base"
    using assms(1) m(1) by (intro round_half_even_mono_bound) auto
  then show ?thesis unfolding eq using assms(1) l(2,3) by simp
qed

theorem effective_policy_bounds_witness:
  "1 \<le> pc_clutter_max (effective_policy default_adaptive default_render_policy 2) \<and>
   pc_clutter_max (effective_policy default_adaptive default_render_policy 2) \<le> pc_clutter_max default_render_policy \<and>
   pc_lod_label default_render_policy \<le> pc_lod_label (effective_policy default_adaptive default_render_policy 2) \<and>
   pc_lod_detail default_render_policy \<le> pc_lod_detail (effective_policy default_adaptive default_render_policy 2) \<and>
   pc_scales (effective_policy default_adaptive default_render_policy 2) = pc_scales default_render_policy"
  by (rule effective_policy_bounds) (simp_all add: default_render_policy_def default_adaptive_def)

end
