(* ===== verification/Radar_Replay.thy ===== *)
theory Radar_Replay
  imports Radar_Fusion
begin

text \<open>
  Replay of recorded traces (\<open>src/qiki/services/q_core_agent/core/radar_replay.py\<close>, and the ingest of a
  replay in \<open>radar_pipeline.py\<close>, \<open>_ingest_replay_tracks\<close>): the cursor over the sorted events, jumps, the
  batches of one time, and the tracks they leave. Every event has a finite time of its own; the numbers of its
  payload may be infinite or NaN, as JSON and \<open>float()\<close> allow. The reading of files and databases is
  left out.
\<close>

section \<open>Events of a trace\<close>

text \<open>\<open>RawNone\<close> stands for \<open>None\<close> and for objects, which \<open>float()\<close> refuses.\<close>

datatype raw = RawNum pyfloat | RawInt int | RawText string | RawList "raw list" | RawNone

fun raw_float :: "raw \<Rightarrow> pyfloat option" where
  "raw_float (RawNum x) = Some x"
| "raw_float (RawInt i) = int_to_float i"
| "raw_float (RawText s) = map_option to_float (py_float s)"
| "raw_float (RawList xs) = None"
| "raw_float RawNone = None"

record replay_payload =
  ry_source :: "string option"
  ry_track :: "string option"
  ry_situation :: "string option"
  ry_pos :: "raw option"
  ry_vel :: "raw option"
  ry_t :: "raw option"
  ry_quality :: "raw option"
  ry_trust :: "raw option"

text \<open>No payload: it is not a dictionary.\<close>

record replay_event =
  re_ts :: real
  re_type :: string
  re_payload :: "replay_payload option"

section \<open>The engine\<close>

record replay_engine =
  rn_events :: "replay_event list"
  rn_ts :: real
  rn_speed :: real
  rn_paused :: bool
  rn_cursor :: nat
  rn_step :: bool
  rn_clock :: real

definition new_replay :: "replay_event list \<Rightarrow> real \<Rightarrow> bool \<Rightarrow> real option \<Rightarrow> replay_engine" where
  "new_replay events speed step clock =
     (let es = sort_key re_ts events; ts = (case es of [] \<Rightarrow> 0 | e # _ \<Rightarrow> re_ts e)
      in \<lparr>rn_events = es, rn_ts = ts, rn_speed = (if speed > 0 then speed else 1), rn_paused = False, rn_cursor = 0,
          rn_step = step, rn_clock = (case clock of None \<Rightarrow> ts | Some c \<Rightarrow> c)\<rparr>)"

definition has_pending :: "replay_engine \<Rightarrow> bool" where
  "has_pending en \<longleftrightarrow> rn_cursor en < length (rn_events en)"

definition peek_next :: "replay_engine \<Rightarrow> replay_event option" where
  "peek_next en = (if has_pending en then Some (rn_events en ! rn_cursor en) else None)"

definition replay_pause :: "replay_engine \<Rightarrow> replay_engine" where
  "replay_pause en = en\<lparr>rn_paused := True\<rparr>"

definition replay_resume :: "replay_engine \<Rightarrow> replay_engine" where
  "replay_resume en = en\<lparr>rn_paused := False\<rparr>"

text \<open>The first index with a property, counting from \<open>i\<close>.\<close>

fun first_index :: "(replay_event \<Rightarrow> bool) \<Rightarrow> nat \<Rightarrow> replay_event list \<Rightarrow> nat option" where
  "first_index P i [] = None"
| "first_index P i (e # es) = (if P e then Some i else first_index P (Suc i) es)"

definition jump_to_ts :: "replay_engine \<Rightarrow> real \<Rightarrow> replay_engine" where
  "jump_to_ts en t =
     (let idx = (case first_index (\<lambda>e. re_ts e \<ge> t) 0 (rn_events en) of Some i \<Rightarrow> i | None \<Rightarrow> length (rn_events en))
      in en\<lparr>rn_ts := t, rn_cursor := idx, rn_clock := t\<rparr>)"

definition jump_where :: "(replay_event \<Rightarrow> bool) \<Rightarrow> replay_engine \<Rightarrow> replay_engine \<times> bool" where
  "jump_where P en =
     (case first_index P (rn_cursor en) (drop (rn_cursor en) (rn_events en)) of
        None \<Rightarrow> (en, False)
      | Some i \<Rightarrow> (let ts = re_ts (rn_events en ! i) in (en\<lparr>rn_ts := ts, rn_cursor := i, rn_clock := ts\<rparr>, True)))"

definition jump_to_event_type :: "replay_engine \<Rightarrow> string \<Rightarrow> replay_engine \<times> bool" where
  "jump_to_event_type en event_type =
     (let target = py_strip event_type in if target = [] then (en, False) else jump_where (\<lambda>e. re_type e = target) en)"

definition jump_to_situation_id :: "replay_engine \<Rightarrow> string \<Rightarrow> replay_engine \<times> bool" where
  "jump_to_situation_id en situation_id =
     (let target = py_strip situation_id
      in if target = [] then (en, False)
         else jump_where (\<lambda>e. opt_test (re_payload e) (\<lambda>p. (case ry_situation p of None \<Rightarrow> [] | Some s \<Rightarrow> s) = target)) en)"

definition next_batch :: "replay_engine \<Rightarrow> replay_event list \<times> replay_engine" where
  "next_batch en =
     (if rn_paused en \<or> \<not> has_pending en then ([], en)
      else let first = rn_events en ! rn_cursor en; ts = re_ts first;
               more = (if rn_step en then [] else takeWhile (\<lambda>e. re_ts e = ts) (drop (Suc (rn_cursor en)) (rn_events en)))
           in (first # more, en\<lparr>rn_ts := ts, rn_cursor := Suc (rn_cursor en) + length more, rn_clock := ts\<rparr>))"

lemma next_batch_events [simp]:
  "rn_events (snd (next_batch en)) = rn_events en" "rn_paused (snd (next_batch en)) = rn_paused en"
  "rn_step (snd (next_batch en)) = rn_step en"
  by (simp_all add: next_batch_def Let_def)

lemma next_batch_progress:
  "fst (next_batch en) \<noteq> [] \<Longrightarrow>
   rn_cursor en < length (rn_events en) \<and> rn_cursor en < rn_cursor (snd (next_batch en))"
  by (auto simp: next_batch_def Let_def has_pending_def split: if_splits)

lemma next_batch_takes:
  "fst (next_batch en) @ drop (rn_cursor (snd (next_batch en))) (rn_events en) = drop (rn_cursor en) (rn_events en)"
proof (cases "rn_paused en \<or> \<not> has_pending en")
  case False
  let ?rest = "drop (Suc (rn_cursor en)) (rn_events en)"
  have "takeWhile P ?rest @ drop (length (takeWhile P ?rest)) ?rest = ?rest" for P
    by (metis dropWhile_eq_drop takeWhile_dropWhile_id)
  with False show ?thesis
    by (auto simp: next_batch_def Let_def has_pending_def Cons_nth_drop_Suc add.commute)
qed (simp add: next_batch_def)

text \<open>The generator, run to its end; the loop stops at an empty batch.\<close>

function replay_loop :: "replay_engine \<Rightarrow> replay_event list \<times> replay_engine" where
  "replay_loop en =
     (if has_pending en \<and> \<not> rn_paused en
      then (let (batch, en') = next_batch en
            in if batch = [] then ([], en') else (let (es, en'') = replay_loop en' in (batch @ es, en'')))
      else ([], en))"
  by pat_completeness auto

termination
proof (relation "measure (\<lambda>en. length (rn_events en) - rn_cursor en)")
  fix en x batch en'
  assume "x = next_batch en" "(batch, en') = x" "batch \<noteq> []"
  then have "batch = fst (next_batch en)" "en' = snd (next_batch en)" by (metis fst_conv, metis snd_conv)
  with \<open>batch \<noteq> []\<close> show "(en', en) \<in> measure (\<lambda>en. length (rn_events en) - rn_cursor en)"
    using next_batch_progress [of en] by auto
qed simp

declare replay_loop.simps [simp del]

definition replay_events :: "real option \<Rightarrow> bool option \<Rightarrow> replay_engine \<Rightarrow> replay_event list \<times> replay_engine" where
  "replay_events speed step en =
     (let en1 = (case speed of Some s \<Rightarrow> if s > 0 then en\<lparr>rn_speed := s\<rparr> else en | None \<Rightarrow> en);
          en2 = (case step of Some b \<Rightarrow> en1\<lparr>rn_step := b\<rparr> | None \<Rightarrow> en1)
      in replay_loop en2)"

section \<open>Tracks of a replay\<close>

text \<open>A source track as a replay makes it: no check of its numbers.\<close>

type_synonym float_pair = "pyfloat \<times> pyfloat"

record replay_track =
  rk_source :: string
  rk_id :: string
  rk_t :: pyfloat
  rk_pos :: float_pair
  rk_vel :: "float_pair option"
  rk_quality :: pyfloat
  rk_trust :: pyfloat

type_synonym replay_tracks = "(string, (string, replay_track) dict) dict"

definition observation_ts :: "replay_event \<Rightarrow> pyfloat option" where
  "observation_ts e =
     (if re_type e \<noteq> ''SOURCE_TRACK_UPDATED'' then None
      else case re_payload e of None \<Rightarrow> None | Some p \<Rightarrow> (case ry_t p of None \<Rightarrow> None | Some r \<Rightarrow> raw_float r))"

text \<open>Two numbers at the front of a list: no result when one is no number.\<close>

definition raw_pair :: "raw list \<Rightarrow> float_pair option" where
  "raw_pair xs =
     (case (raw_float (xs ! 0), raw_float (xs ! 1)) of (Some x, Some y) \<Rightarrow> Some (x, y) | _ \<Rightarrow> None)"

definition raw_position :: "raw option \<Rightarrow> float_pair option" where
  "raw_position r =
     (case r of None \<Rightarrow> Some (Fin 0, Fin 0) | Some (RawList xs) \<Rightarrow> (if length xs < 2 then None else raw_pair xs) | Some v \<Rightarrow> None)"

definition raw_velocity :: "raw option \<Rightarrow> float_pair option option" where
  "raw_velocity r =
     (case r of Some (RawList xs) \<Rightarrow> (if length xs < 2 then Some None else map_option Some (raw_pair xs)) | _ \<Rightarrow> Some None)"

definition raw_or :: "raw option \<Rightarrow> pyfloat option \<Rightarrow> pyfloat option" where
  "raw_or r d = (case r of None \<Rightarrow> d | Some v \<Rightarrow> raw_float v)"

definition track_from_replay :: "replay_event \<Rightarrow> replay_track option" where
  "track_from_replay e =
     (if re_type e \<noteq> ''SOURCE_TRACK_UPDATED'' then None
      else case re_payload e of
        None \<Rightarrow> None
      | Some p \<Rightarrow>
          (let source = py_strip (case ry_source p of None \<Rightarrow> [] | Some s \<Rightarrow> s);
               track = py_strip (case ry_track p of None \<Rightarrow> [] | Some s \<Rightarrow> s);
               quality = raw_or (ry_quality p) (raw_or (ry_trust p) (Some (Fin (1 / 2))))
           in if source = [] \<or> track = [] then None
              else case (raw_position (ry_pos p), raw_velocity (ry_vel p), raw_or (ry_t p) (Some (Fin (re_ts e))), quality,
                         raw_or (ry_trust p) quality) of
                     (Some pos, Some vel, Some t, Some q, Some tr) \<Rightarrow>
                       Some \<lparr>rk_source = source, rk_id = track, rk_t = t, rk_pos = pos, rk_vel = vel, rk_quality = q, rk_trust = tr\<rparr>
                   | _ \<Rightarrow> None))"

text \<open>\<open>while True\<close>: more batches while the next event has the time of the frame. No result: it never ends.
  The loop stops when \<open>abs(next_t - frame_t) > 1e-6\<close>, which no NaN satisfies.\<close>

definition other_time :: "pyfloat \<Rightarrow> pyfloat \<Rightarrow> bool" where
  "other_time u t \<longleftrightarrow> fl_less (Fin (1 / 10 ^ 6)) (fl_abs (fl_sub u t))"

partial_function (option) drain_frame ::
  "pyfloat \<Rightarrow> replay_event list \<Rightarrow> replay_engine \<Rightarrow> (replay_event list \<times> replay_engine) option" where
  "drain_frame t batch en =
     (case (case peek_next en of None \<Rightarrow> None | Some e \<Rightarrow> observation_ts e) of
        None \<Rightarrow> Some (batch, en)
      | Some u \<Rightarrow>
          if other_time u t then Some (batch, en)
          else drain_frame t (batch @ fst (next_batch en)) (snd (next_batch en)))"

definition replay_frame :: "replay_engine \<Rightarrow> (replay_event list \<times> replay_engine) option" where
  "replay_frame en =
     (let (batch, en') = next_batch en
      in if batch = [] then Some (batch, en')
         else case observation_ts (hd batch) of None \<Rightarrow> Some (batch, en') | Some t \<Rightarrow> drain_frame t batch en')"

definition replay_put :: "replay_tracks \<Rightarrow> replay_event \<Rightarrow> replay_tracks" where
  "replay_put b e =
     (case track_from_replay e of
        None \<Rightarrow> b
      | Some t \<Rightarrow> dict_set b (rk_source t) (dict_set (dict_getd b (rk_source t) []) (rk_id t) t))"

text \<open>\<open>now - last_update_t > max_age_s\<close>, false for a NaN time.\<close>

definition stale_track :: "real \<Rightarrow> real \<Rightarrow> replay_track \<Rightarrow> bool" where
  "stale_track now max_age t \<longleftrightarrow> fl_less (Fin max_age) (fl_sub (Fin now) (rk_t t))"

definition drop_stale :: "real \<Rightarrow> real \<Rightarrow> replay_tracks \<Rightarrow> replay_tracks" where
  "drop_stale now max_age b =
     filter (\<lambda>(s, m). m \<noteq> []) (map (\<lambda>(s, m). (s, filter (\<lambda>(i, t). \<not> stale_track now max_age t) m)) b)"

definition ingest_replay_tracks ::
  "real \<Rightarrow> replay_tracks \<Rightarrow> replay_engine \<Rightarrow>
   ((string, replay_track list) dict \<times> replay_tracks \<times> replay_engine) option" where
  "ingest_replay_tracks max_age b en =
     (case replay_frame en of
        None \<Rightarrow> None
      | Some (batch, en') \<Rightarrow>
          (let b' = drop_stale (rn_clock en') max_age (foldl replay_put b batch)
           in Some (map (\<lambda>(s, m). (s, dict_values m)) b', b', en')))"

section \<open>A replay ends and loses nothing\<close>

lemma replay_loop_events:
  "fst (replay_loop en) = (if rn_paused en then [] else drop (rn_cursor en) (rn_events en)) \<and>
   rn_events (snd (replay_loop en)) = rn_events en \<and> (rn_paused en \<or> \<not> has_pending (snd (replay_loop en)))"
proof (induction en rule: replay_loop.induct)
  case (1 en)
  show ?case
  proof (cases "has_pending en \<and> \<not> rn_paused en")
    case True
    then have "fst (next_batch en) \<noteq> []" by (simp add: next_batch_def Let_def)
    with True 1 [OF True refl, of "fst (next_batch en)" "snd (next_batch en)"] next_batch_takes [of en]
    show ?thesis by (subst (1 2 3) replay_loop.simps) (simp add: Let_def case_prod_beta)
  next
    case False
    then show ?thesis by (subst (1 2 3) replay_loop.simps) (auto simp: has_pending_def)
  qed
qed

lemma first_index_spec:
  "first_index P i es = (if \<exists>e\<in>set es. P e then Some (i + length (takeWhile (\<lambda>e. \<not> P e) es)) else None)"
  by (induction P i es rule: first_index.induct) auto

lemma sorted_drop_from:
  assumes "sorted (map re_ts es)"
  shows "drop (length (takeWhile (\<lambda>e. \<not> t \<le> re_ts e) es)) es = filter (\<lambda>e. t \<le> re_ts e) es"
  using assms
proof (induction es)
  case (Cons e es)
  show ?case
  proof (cases "t \<le> re_ts e")
    case True
    then have "\<forall>x\<in>set (e # es). t \<le> re_ts x" using Cons.prems by auto
    then show ?thesis using True by (simp add: filter_id_conv)
  next
    case False with Cons show ?thesis by simp
  qed
qed simp

text \<open>
  A replay from a point in time ends and yields every recorded event from that time on, each once, in the
  order of the times, whatever the speed and the step mode.
\<close>

theorem replay_from_time_complete:
  "fst (replay_events sp st (jump_to_ts (new_replay events speed step clock) t)) =
   filter (\<lambda>e. t \<le> re_ts e) (sort_key re_ts events)"
proof -
  let ?es = "sort_key re_ts events"
  let ?en = "jump_to_ts (new_replay events speed step clock) t"
  have en: "rn_events ?en = ?es" "\<not> rn_paused ?en"
    by (simp_all add: jump_to_ts_def new_replay_def Let_def)
  have cursor: "rn_cursor ?en = length (takeWhile (\<lambda>e. \<not> t \<le> re_ts e) ?es)"
  proof (cases "\<exists>e\<in>set ?es. t \<le> re_ts e")
    case True then show ?thesis by (simp add: jump_to_ts_def new_replay_def first_index_spec Let_def)
  next
    case False
    then have "takeWhile (\<lambda>e. \<not> t \<le> re_ts e) ?es = ?es" by (simp add: takeWhile_eq_all_conv)
    then have "length (takeWhile (\<lambda>e. \<not> t \<le> re_ts e) ?es) = length ?es" by (rule arg_cong)
    with False show ?thesis by (simp add: jump_to_ts_def new_replay_def first_index_spec Let_def)
  qed
  have "fst (replay_events sp st ?en) = drop (rn_cursor ?en) (rn_events ?en)"
    using replay_loop_events en(2) by (auto simp: replay_events_def Let_def split: option.splits)
  then show ?thesis unfolding en(1) cursor by (simp add: sorted_drop_from)
qed

section \<open>A frame of a replay ends\<close>

lemma drain_frame_returns:
  assumes "\<not> rn_paused en"
  shows "\<exists>ys en'. drain_frame t batch en = Some (batch @ ys, en') \<and>
           ys @ drop (rn_cursor en') (rn_events en') = drop (rn_cursor en) (rn_events en) \<and>
           rn_events en' = rn_events en"
  using assms
proof (induction "length (rn_events en) - rn_cursor en" arbitrary: batch en rule: less_induct)
  case less
  show ?case
  proof (cases "case peek_next en of None \<Rightarrow> None | Some e \<Rightarrow> observation_ts e")
    case None
    then have "drain_frame t batch en = Some (batch @ [], en)" by (simp add: drain_frame.simps)
    then show ?thesis by blast
  next
    case (Some u)
    show ?thesis
    proof (cases "other_time u t")
      case True
      with Some have "drain_frame t batch en = Some (batch @ [], en)" by (simp add: drain_frame.simps)
      then show ?thesis by blast
    next
      case False
      let ?b = "fst (next_batch en)" and ?en = "snd (next_batch en)"
      have "has_pending en" using Some by (auto simp: peek_next_def split: if_splits)
      with less.prems have "?b \<noteq> []" by (simp add: next_batch_def Let_def)
      then have "length (rn_events ?en) - rn_cursor ?en < length (rn_events en) - rn_cursor en"
        using next_batch_progress [of en] by auto
      from less.hyps [OF this, of "batch @ ?b"] less.prems obtain ys en' where
        *: "drain_frame t (batch @ ?b) ?en = Some ((batch @ ?b) @ ys, en')"
        "ys @ drop (rn_cursor en') (rn_events en') = drop (rn_cursor ?en) (rn_events en)" "rn_events en' = rn_events en"
        by auto
      have "drain_frame t batch en = Some (batch @ (?b @ ys), en')"
        using Some False *(1) by (simp add: drain_frame.simps [of t batch en])
      moreover have "(?b @ ys) @ drop (rn_cursor en') (rn_events en') = drop (rn_cursor en) (rn_events en)"
        using *(2) next_batch_takes [of en] by simp
      ultimately show ?thesis using *(3) by blast
    qed
  qed
qed

text \<open>Of a paused engine whose next event has the time of the frame, the loop never returns.\<close>

lemma other_time_self [simp]: "\<not> other_time t t"
  by (cases t) (simp_all add: other_time_def fl_sub_def)

lemma drain_frame_paused:
  assumes "drain_frame t batch en = Some r"
  shows "\<not> (rn_paused en \<and> (\<exists>e. peek_next en = Some e \<and> observation_ts e = Some t))"
proof (rule drain_frame.raw_induct [OF _ assms])
  fix drain :: "pyfloat \<Rightarrow> replay_event list \<Rightarrow> replay_engine \<Rightarrow> (replay_event list \<times> replay_engine) option"
    and t batch en r
  assume IH: "\<And>t batch en r. drain t batch en = Some r \<Longrightarrow> \<not> (rn_paused en \<and> (\<exists>e. peek_next en = Some e \<and> observation_ts e = Some t))"
    and step: "(case (case peek_next en of None \<Rightarrow> None | Some e \<Rightarrow> observation_ts e) of
        None \<Rightarrow> Some (batch, en)
      | Some u \<Rightarrow> if other_time u t then Some (batch, en)
          else drain t (batch @ fst (next_batch en)) (snd (next_batch en))) = Some r"
  show "\<not> (rn_paused en \<and> (\<exists>e. peek_next en = Some e \<and> observation_ts e = Some t))"
  proof
    assume *: "rn_paused en \<and> (\<exists>e. peek_next en = Some e \<and> observation_ts e = Some t)"
    then have "next_batch en = ([], en)" by (simp add: next_batch_def)
    with * step have "drain t batch en = Some r" by (auto split: if_splits)
    from IH [OF this] * show False by blast
  qed
qed

lemma replay_frame_returns:
  "\<exists>batch en'. replay_frame en = Some (batch, en') \<and> rn_events en' = rn_events en \<and>
     batch @ drop (rn_cursor en') (rn_events en) = drop (rn_cursor en) (rn_events en)"
proof -
  obtain b en1 where nb: "next_batch en = (b, en1)" by (cases rule: prod.exhaust)
  have ev: "rn_events en1 = rn_events en" "b @ drop (rn_cursor en1) (rn_events en) = drop (rn_cursor en) (rn_events en)"
    using nb next_batch_events(1) [of en] next_batch_takes [of en] by simp_all
  show ?thesis
  proof (cases "b = [] \<or> observation_ts (hd b) = None")
    case True
    then have "replay_frame en = Some (b, en1)" using nb by (auto simp: replay_frame_def)
    with ev show ?thesis by blast
  next
    case False
    then obtain t where t: "observation_ts (hd b) = Some t" by blast
    have "\<not> rn_paused en" using False nb by (auto simp: next_batch_def)
    then have "\<not> rn_paused en1" using nb next_batch_events(2) [of en] by simp
    from drain_frame_returns [OF this, of t b] obtain ys en' where
      "drain_frame t b en1 = Some (b @ ys, en')" "ys @ drop (rn_cursor en') (rn_events en') = drop (rn_cursor en1) (rn_events en1)"
      "rn_events en' = rn_events en1" by blast
    with False t nb ev show ?thesis by (auto simp: replay_frame_def)
  qed
qed


end
