(* ===== verification/Session_Server.thy ===== *)
theory Session_Server
  imports Radar_View Py_Numbers "HOL-Library.Monad_Syntax"
begin

text \<open>
  The multi-console session server (\<open>src/qiki/services/q_core_agent/core/session_server.py\<close>) with the
  flags of \<open>runtime_contracts.py\<close>: the roles and the control lease, the queue, bans, rate limits and the
  inputs of the controlling console. A \<open>_ClientConn\<close> is an object found under its connection number; the
  dictionary of clients maps client identifiers to such numbers. The loop of a connection keeps its object also after
  another connection took over the identifier. Each handler is one step with one reading of the clock. The
  argument \<open>dead\<close> says on which connections \<open>sendall\<close> raises during the step.
  The scene and the display texts of a snapshot are built from the event store and are not modelled; the scene a
  click is resolved in is an argument.
\<close>

section \<open>Configuration\<close>

definition is_enabled :: "string option \<Rightarrow> bool \<Rightarrow> bool" where
  "is_enabled raw dflt =
     (case raw of None \<Rightarrow> dflt
      | Some s \<Rightarrow> py_lower (py_strip s) \<notin> {''0'', ''false'', ''no'', ''off'', ''''})"

fun first_key :: "(string \<Rightarrow> string option) \<Rightarrow> string list \<Rightarrow> bool \<Rightarrow> bool" where
  "first_key env [] dflt = dflt"
| "first_key env (k # ks) dflt = (if env k \<noteq> None then is_enabled (env k) dflt else first_key env ks dflt)"

definition resolve_strict_mode :: "(string \<Rightarrow> string option) \<Rightarrow> string list \<Rightarrow> bool \<Rightarrow> bool" where
  "resolve_strict_mode env legacy_keys dflt =
     (if env ''QIKI_STRICT_MODE'' \<noteq> None then is_enabled (env ''QIKI_STRICT_MODE'') dflt
      else first_key env legacy_keys dflt)"

record session_config =
  sg_strict :: bool
  sg_auth :: bool
  sg_token :: string
  sg_roles :: "string list"
  sg_default_role :: string
  sg_policy :: string
  sg_lease_ms :: int
  sg_max_msgs :: int
  sg_max_inputs :: int
  sg_max_bytes :: int
  sg_max_violations :: int

text \<open>\<open>text.split(",")\<close>.\<close>

fun split_commas :: "string \<Rightarrow> string list" where
  "split_commas [] = [[]]"
| "split_commas (c # cs) =
     (if c = CHR '','' then [] # split_commas cs
      else case split_commas cs of w # ws \<Rightarrow> (c # w) # ws | [] \<Rightarrow> [[c]])"

text \<open>\<open>max(least, int(float(text)))\<close>; \<open>int\<close> truncates and raises on infinities and NaN.\<close>

definition limit_of :: "int \<Rightarrow> string \<Rightarrow> int option" where
  "limit_of least s =
     (case py_float s of
        Some (Fin x) \<Rightarrow> Some (max least (if x < 0 then \<lceil>x\<rceil> else \<lfloor>x\<rfloor>))
      | _ \<Rightarrow> None)"

definition env_or :: "(string \<Rightarrow> string option) \<Rightarrow> string \<Rightarrow> string \<Rightarrow> string" where
  "env_or env k d = (case env k of Some v \<Rightarrow> v | None \<Rightarrow> d)"

definition read_token :: "(string \<Rightarrow> string option) \<Rightarrow> (string \<Rightarrow> string option) \<Rightarrow> string" where
  "read_token env read_file =
     (let token_file = py_strip (env_or env ''QIKI_SESSION_TOKEN_FILE'' '''')
      in if token_file \<noteq> [] then (case read_file token_file of Some t \<Rightarrow> py_strip t | None \<Rightarrow> [])
         else py_strip (env_or env ''QIKI_SESSION_TOKEN'' ''''))"

definition read_roles :: "(string \<Rightarrow> string option) \<Rightarrow> string list" where
  "read_roles env =
     (let parts = split_commas (py_strip (env_or env ''QIKI_SESSION_ALLOWED_ROLES'' ''viewer,controller,admin''));
          roles = dedup (filter (\<lambda>r. r \<noteq> []) (map (py_lower \<circ> py_strip) parts))
      in if roles = [] then [''viewer'', ''controller''] else roles)"

definition or_default :: "string \<Rightarrow> string \<Rightarrow> string" where
  "or_default d s = (if s = [] then d else s)"

definition session_config_of ::
  "(string \<Rightarrow> string option) \<Rightarrow> (string \<Rightarrow> string option) \<Rightarrow> int \<Rightarrow> session_config option" where
  "session_config_of env read_file lease_ms =
     (let auth = is_enabled (env ''QIKI_SESSION_AUTH'') False;
          token = read_token env read_file;
          roles = read_roles env;
          role = or_default ''viewer'' (py_lower (py_strip (env_or env ''QIKI_SESSION_DEFAULT_ROLE'' ''viewer'')));
          policy = or_default ''first_come'' (py_lower (py_strip (env_or env ''QIKI_CONTROL_POLICY'' ''first_come'')))
      in if auth \<and> token = [] then None
         else do {
           msgs \<leftarrow> limit_of 1 (env_or env ''QIKI_SESSION_MAX_MSGS_PER_SEC'' ''200'');
           inputs \<leftarrow> limit_of 1 (env_or env ''QIKI_SESSION_MAX_INPUTS_PER_SEC'' ''50'');
           bytes \<leftarrow> limit_of 256 (env_or env ''QIKI_SESSION_MAX_BYTES_PER_SEC'' ''1048576'');
           viol \<leftarrow> limit_of 1 (env_or env ''QIKI_SESSION_MAX_INPUT_VIOLATIONS'' ''3'');
           Some \<lparr>sg_strict = resolve_strict_mode env [''QIKI_SESSION_STRICT''] False, sg_auth = auth, sg_token = token,
                 sg_roles = roles, sg_default_role = (if role \<in> set roles then role else ''viewer''),
                 sg_policy = (if policy \<in> {''first_come'', ''admin_grants'', ''queue''} then policy else ''first_come''),
                 sg_lease_ms = max 500 lease_ms, sg_max_msgs = msgs, sg_max_inputs = inputs, sg_max_bytes = bytes,
                 sg_max_violations = viol\<rparr>
         })"

section \<open>State\<close>

record client_conn =
  cc_id :: string
  cc_role :: string
  cc_addr :: string
  cc_window :: real
  cc_msgs :: int
  cc_inputs :: int
  cc_bytes :: int
  cc_violations :: int

datatype session_msg =
    M_error string \<comment> \<open>its code\<close>
  | M_hello string string
  | M_snapshot string int
  | M_event string
  | M_granted string
  | M_release string string
  | M_expired string

text \<open>An event of the subsystem SESSION: its type, the client it names, its reason.\<close>

record session_event =
  sv_type :: string
  sv_client :: string
  sv_reason :: string

record server =
  ss_conns :: "(nat, client_conn) dict" \<comment> \<open>every connection's object\<close>
  ss_loops :: "nat list" \<comment> \<open>the connections whose loop runs\<close>
  ss_clients :: "(string, nat) dict"
  ss_controller :: string
  ss_deadline :: real
  ss_queue :: "string list"
  ss_banned :: "string list"
  ss_seen :: "string list"
  ss_seen_set :: "string list"
  ss_view :: view_state
  ss_log :: "session_event list"
  ss_sent :: "(nat \<times> session_msg) list"

definition new_server :: "view_state \<Rightarrow> server" where
  "new_server vs =
     \<lparr>ss_conns = [], ss_loops = [], ss_clients = [], ss_controller = [], ss_deadline = 0, ss_queue = [], ss_banned = [],
      ss_seen = [], ss_seen_set = [], ss_view = vs, ss_log = [], ss_sent = []\<rparr>"

definition emit :: "string \<Rightarrow> string \<Rightarrow> string \<Rightarrow> server \<Rightarrow> server" where
  "emit event_type client reason s =
     s\<lparr>ss_log := ss_log s @ [\<lparr>sv_type = event_type, sv_client = client, sv_reason = reason\<rparr>]\<rparr>"

definition send :: "(nat \<Rightarrow> bool) \<Rightarrow> nat \<Rightarrow> session_msg \<Rightarrow> server \<Rightarrow> server" where
  "send dead n m s = (if dead n then s else s\<lparr>ss_sent := ss_sent s @ [(n, m)]\<rparr>)"

definition send_client_error :: "(nat \<Rightarrow> bool) \<Rightarrow> string \<Rightarrow> string \<Rightarrow> server \<Rightarrow> server" where
  "send_client_error dead client ecode s =
     (case dict_get (ss_clients s) client of Some n \<Rightarrow> send dead n (M_error ecode) s | None \<Rightarrow> s)"

definition deny_control :: "(nat \<Rightarrow> bool) \<Rightarrow> string \<Rightarrow> string \<Rightarrow> server \<Rightarrow> server" where
  "deny_control dead client reason s =
     send_client_error dead client ''control_denied'' (emit ''CONTROL_DENIED'' client reason s)"

section \<open>Broadcasts, departures and the next in the queue\<close>

text \<open>
  \<open>_broadcast\<close>, \<open>_unregister_client\<close>, \<open>_release_control\<close> and
  \<open>_grant_next_in_queue\<close> call each other: a broadcast unregisters the clients it could not reach, a
  departing controller's lease is released, a release is broadcast and may grant the next client, which is broadcast
  again. They are one recursive function of the call to make; \<open>Unregister_all\<close> is the loop over the unreached
  clients. \<open>None\<close> would be a recursion without end.
\<close>

datatype session_call =
    Broadcast session_msg
  | Unregister_all "string list"
  | Unregister string string
  | Release string string
  | Grant_next

definition deliver :: "(nat \<Rightarrow> bool) \<Rightarrow> session_msg \<Rightarrow> server \<Rightarrow> server" where
  "deliver dead m s = foldl (\<lambda>s' n. send dead n m s') s (dict_values (ss_clients s))"

definition unreached :: "(nat \<Rightarrow> bool) \<Rightarrow> server \<Rightarrow> string list" where
  "unreached dead s = map fst (filter (\<lambda>(i, n). dead n) (ss_clients s))"

definition forget_client :: "string \<Rightarrow> string \<Rightarrow> server \<Rightarrow> server" where
  "forget_client client reason s =
     (case dict_get (ss_clients s) client of
        None \<Rightarrow> s
      | Some n \<Rightarrow>
          emit ''SESSION_CLIENT_DISCONNECTED'' client reason (s\<lparr>ss_clients := dict_pop (ss_clients s) client\<rparr>))"

definition leave_queue :: "string \<Rightarrow> server \<Rightarrow> server" where
  "leave_queue client s = s\<lparr>ss_queue := filter (\<lambda>i. i \<noteq> client) (ss_queue s)\<rparr>"

definition clear_control :: "server \<Rightarrow> server" where
  "clear_control s = s\<lparr>ss_controller := [], ss_deadline := 0\<rparr>"

definition lease_s :: "session_config \<Rightarrow> real" where
  "lease_s g = of_int (sg_lease_ms g) / 1000"

definition give_control :: "session_config \<Rightarrow> real \<Rightarrow> string \<Rightarrow> server \<Rightarrow> server" where
  "give_control g now client s = s\<lparr>ss_controller := client, ss_deadline := now + lease_s g\<rparr>"

definition release_event :: "string \<Rightarrow> string" where
  "release_event reason = (if reason = ''REVOKED'' then ''CONTROL_REVOKED'' else ''CONTROL_RELEASED'')"

partial_function (option) exec ::
  "session_config \<Rightarrow> (nat \<Rightarrow> bool) \<Rightarrow> real \<Rightarrow> session_call \<Rightarrow> server \<Rightarrow> server option" where
  "exec g dead now call s =
     (case call of
        Broadcast m \<Rightarrow> exec g dead now (Unregister_all (unreached dead s)) (deliver dead m s)
      | Unregister_all ids \<Rightarrow>
          (case ids of
             [] \<Rightarrow> Some s
           | i # is \<Rightarrow> do { s1 \<leftarrow> exec g dead now (Unregister i ''CLIENT_DISCONNECTED'') s;
                           exec g dead now (Unregister_all is) s1 })
      | Unregister client reason \<Rightarrow>
          exec g dead now (Release client ''REVOKED'') (leave_queue client (forget_client client reason s))
      | Release client reason \<Rightarrow>
          if client \<noteq> ss_controller s then Some s
          else do { s1 \<leftarrow> exec g dead now (Broadcast (M_release client reason))
                             (emit (release_event reason) client reason (clear_control s));
                    exec g dead now Grant_next s1 }
      | Grant_next \<Rightarrow>
          if sg_policy g \<noteq> ''queue'' then Some s
          else if ss_controller s \<noteq> [] then Some s
          else (case find (\<lambda>i. i \<in> fst ` set (ss_clients s)) (ss_queue s) of
                  None \<Rightarrow> Some (s\<lparr>ss_queue := []\<rparr>)
                | Some i \<Rightarrow>
                    exec g dead now (Broadcast (M_granted i))
                      (emit ''CONTROL_GRANTED'' i ''QUEUE_GRANTED'' (give_control g now i (s\<lparr>ss_queue := []\<rparr>)))))"

section \<open>Control requests\<close>

definition request_control ::
  "session_config \<Rightarrow> (nat \<Rightarrow> bool) \<Rightarrow> real \<Rightarrow> client_conn \<Rightarrow> string option \<Rightarrow> server \<Rightarrow> server option" where
  "request_control g dead now c force_target s0 =
     (let target = (case force_target of Some t \<Rightarrow> t | None \<Rightarrow> cc_id c);
          s = emit ''CONTROL_REQUESTED'' target ''CONTROL_REQUESTED'' s0;
          owner = ss_controller s
      in if cc_role c \<notin> {''controller'', ''admin''} \<and> force_target = None
         then Some (deny_control dead (cc_id c) ''ROLE_DENIED'' s)
         else if sg_policy g = ''admin_grants'' \<and> force_target = None
         then Some (deny_control dead target ''POLICY_ADMIN_GRANTS'' s)
         else if owner \<noteq> [] \<and> owner \<noteq> target \<and> now \<le> ss_deadline s
         then (if sg_policy g = ''queue''
               then Some (deny_control dead target ''CONTROL_QUEUED''
                      (if target \<in> set (ss_queue s) then s else s\<lparr>ss_queue := ss_queue s @ [target]\<rparr>))
               else Some (deny_control dead target ''CONTROL_BUSY'' s))
         else exec g dead now (Broadcast (M_granted target))
                (emit ''CONTROL_GRANTED'' target ''LEASE_GRANTED'' (give_control g now target s)))"

text \<open>\<open>_disconnect_client\<close>: the socket is shut down and the client unregistered.\<close>

definition disconnect_client ::
  "session_config \<Rightarrow> (nat \<Rightarrow> bool) \<Rightarrow> real \<Rightarrow> string \<Rightarrow> string \<Rightarrow> server \<Rightarrow> server option" where
  "disconnect_client g dead now client reason s =
     (case dict_get (ss_clients s) client of
        None \<Rightarrow> Some s | Some n \<Rightarrow> exec g dead now (Unregister client reason) s)"

text \<open>The lease thread.\<close>

definition expire_control :: "session_config \<Rightarrow> (nat \<Rightarrow> bool) \<Rightarrow> real \<Rightarrow> server \<Rightarrow> server option" where
  "expire_control g dead now s =
     (if ss_controller s \<noteq> [] \<and> now > ss_deadline s
      then let expired = ss_controller s
           in do { s1 \<leftarrow> exec g dead now (Broadcast (M_expired expired))
                           (emit ''CONTROL_EXPIRED'' expired ''HEARTBEAT_TIMEOUT'' (clear_control s));
                   exec g dead now Grant_next s1 }
      else Some s)"

section \<open>Inputs\<close>

text \<open>The fields of an input; a number is \<open>None\<close> where \<open>float\<close> raises.\<close>

record input_payload =
  ip_kind :: string
  ip_key :: string
  ip_delta :: "real option"
  ip_dx :: "real option"
  ip_dy :: "real option"
  ip_x :: "real option"
  ip_y :: "real option"

record session_message =
  sm_type :: string
  sm_target :: string
  sm_input :: input_payload

text \<open>What the controlling console's input does to the view; \<open>Inl\<close>: the conversion raises, \<open>None\<close>: not a kind of input.\<close>

definition mouse :: "string \<Rightarrow> mouse_event" where
  "mouse k = \<lparr>me_kind = k, me_x = 0, me_y = 0, me_delta = 0, me_button = ''left'', me_down = False, me_dx = 0, me_dy = 0\<rparr>"

datatype input_effect = View view_state | Bad_number | Bad_kind

definition input_effect :: "real \<Rightarrow> real \<Rightarrow> radar_scene option \<Rightarrow> input_payload \<Rightarrow> view_state \<Rightarrow> input_effect" where
  "input_effect now ack_s sc p vs =
     (let kind = py_lower (ip_kind p)
      in if kind = ''key'' then View (apply_key now ack_s None vs (ip_key p))
         else if kind = ''wheel''
         then (case ip_delta p of
                 Some d \<Rightarrow> View (apply_action now ack_s None vs (handle_mouse ((mouse ''wheel'')\<lparr>me_delta := d\<rparr>)))
               | None \<Rightarrow> Bad_number)
         else if kind = ''drag''
         then (case (ip_dx p, ip_dy p) of
                 (Some dx, Some dy) \<Rightarrow>
                   View (apply_action now ack_s None vs (handle_mouse ((mouse ''drag'')\<lparr>me_down := True, me_dx := dx, me_dy := dy\<rparr>)))
               | _ \<Rightarrow> Bad_number)
         else if kind = ''click''
         then (case (ip_x p, ip_y p) of
                 (Some x, Some y) \<Rightarrow>
                   View (apply_action now ack_s sc vs (handle_mouse ((mouse ''click'')\<lparr>me_x := x, me_y := y\<rparr>)))
               | _ \<Rightarrow> Bad_number)
         else Bad_kind)"

definition set_conn :: "nat \<Rightarrow> client_conn \<Rightarrow> server \<Rightarrow> server" where
  "set_conn n c s = s\<lparr>ss_conns := dict_set (ss_conns s) n c\<rparr>"

text \<open>How the loop of a connection goes on.\<close>

datatype loop_exit = Keep_open | Leave string | Raised

definition apply_input_message ::
  "session_config \<Rightarrow> (nat \<Rightarrow> bool) \<Rightarrow> real \<Rightarrow> real \<Rightarrow> radar_scene option \<Rightarrow> nat \<Rightarrow> client_conn \<Rightarrow> input_payload \<Rightarrow>
   server \<Rightarrow> (server \<times> loop_exit) option" where
  "apply_input_message g dead now ack_s sc n c p s =
     (if cc_id c \<noteq> ss_controller s
      then let c' = c\<lparr>cc_violations := cc_violations c + 1\<rparr>;
               s1 = set_conn n c' (send dead n (M_error ''not_controller'') s)
           in if sg_strict g \<and> cc_violations c' \<ge> sg_max_violations g
              then do { s2 \<leftarrow> disconnect_client g dead now (cc_id c) ''INPUT_POLICY_VIOLATION'' s1; Some (s2, Keep_open) }
              else Some (s1, Keep_open)
      else let s1 = set_conn n (c\<lparr>cc_violations := 0\<rparr>) s
           in case input_effect now ack_s sc p (ss_view s1) of
                View vs \<Rightarrow> Some (s1\<lparr>ss_view := vs\<rparr>, Keep_open)
              | Bad_number \<Rightarrow> Some (s1, Raised)
              | Bad_kind \<Rightarrow> Some (send dead n (M_error ''bad_input'') s1, Keep_open))"

definition keep_open :: "server option \<Rightarrow> (server \<times> loop_exit) option" where
  "keep_open r = map_option (\<lambda>s. (s, Keep_open)) r"

definition handle_client_message ::
  "session_config \<Rightarrow> (nat \<Rightarrow> bool) \<Rightarrow> real \<Rightarrow> real \<Rightarrow> radar_scene option \<Rightarrow> nat \<Rightarrow> client_conn \<Rightarrow> session_message \<Rightarrow>
   server \<Rightarrow> (server \<times> loop_exit) option" where
  "handle_client_message g dead now ack_s sc n c m s =
     (let mtype = py_upper (sm_type m); target = py_strip (sm_target m);
          forbidden = send_client_error dead (cc_id c) ''forbidden'' s
      in if mtype = ''HEARTBEAT''
         then Some (if cc_id c = ss_controller s then s\<lparr>ss_deadline := now + lease_s g\<rparr> else s, Keep_open)
         else if mtype = ''CONTROL_REQUEST'' then keep_open (request_control g dead now c None s)
         else if mtype = ''CONTROL_RELEASE'' then keep_open (exec g dead now (Release (cc_id c) ''RELEASED'') s)
         else if mtype = ''CONTROL_GRANT''
         then (if cc_role c \<noteq> ''admin'' then Some (forbidden, Keep_open)
               else if target = [] then Some (send_client_error dead (cc_id c) ''bad_request'' s, Keep_open)
               else keep_open (request_control g dead now c (Some target) s))
         else if mtype = ''CONTROL_REVOKE''
         then (if cc_role c \<noteq> ''admin'' then Some (forbidden, Keep_open)
               else if target = [] then Some (s, Keep_open)
               else keep_open (exec g dead now (Release target ''REVOKED'') s))
         else if mtype = ''CLIENT_BAN''
         then (if cc_role c \<noteq> ''admin'' then Some (forbidden, Keep_open)
               else if target = [] then Some (s, Keep_open)
               else keep_open (disconnect_client g dead now target ''BANNED_BY_ADMIN''
                      (s\<lparr>ss_banned := List.insert target (ss_banned s)\<rparr>)))
         else if mtype \<in> {''INPUT'', ''INPUT_EVENT''}
         then (if cc_role c \<notin> {''controller'', ''admin''}
               then Some (forbidden, if sg_strict g then Leave ''SESSION_POLICY_DISCONNECT'' else Keep_open)
               else apply_input_message g dead now ack_s sc n c (sm_input m) s)
         else Some (send dead n (M_error ''unsupported'') s, Keep_open))"

section \<open>Rate limits\<close>

definition is_input :: "session_message \<Rightarrow> bool" where
  "is_input m \<longleftrightarrow> py_upper (sm_type m) \<in> {''INPUT'', ''INPUT_EVENT''}"

definition count_message :: "real \<Rightarrow> session_message \<Rightarrow> int \<Rightarrow> client_conn \<Rightarrow> client_conn" where
  "count_message now m raw_size c =
     (let c1 = (if now - cc_window c \<ge> 1
                then c\<lparr>cc_window := now, cc_msgs := 0, cc_inputs := 0, cc_bytes := 0\<rparr> else c);
          c2 = c1\<lparr>cc_msgs := cc_msgs c1 + 1, cc_bytes := cc_bytes c1 + max 0 raw_size\<rparr>
      in if is_input m then c2\<lparr>cc_inputs := cc_inputs c2 + 1\<rparr> else c2)"

definition exceeded_kind :: "session_config \<Rightarrow> client_conn \<Rightarrow> string" where
  "exceeded_kind g c =
     (if cc_msgs c > sg_max_msgs g then ''messages_per_sec''
      else if cc_inputs c > sg_max_inputs g then ''inputs_per_sec''
      else if cc_bytes c > sg_max_bytes g then ''bytes_per_sec''
      else '''')"

definition check_rate_limit ::
  "session_config \<Rightarrow> (nat \<Rightarrow> bool) \<Rightarrow> real \<Rightarrow> nat \<Rightarrow> client_conn \<Rightarrow> session_message \<Rightarrow> int \<Rightarrow> server \<Rightarrow> server \<times> bool" where
  "check_rate_limit g dead now n c m raw_size s =
     (let c' = count_message now m raw_size c; s1 = set_conn n c' s
      in if exceeded_kind g c' = [] then (s1, True)
         else let s2 = emit ''SESSION_RATE_LIMITED'' (cc_id c) ''RATE_LIMITED'' s1
              in (if sg_strict g then s2 else send_client_error dead (cc_id c) ''rate_limited'' s2, False))"

section \<open>The loop of a connection\<close>

record hello =
  he_type :: string
  he_client :: string
  he_token :: string
  he_role :: string

text \<open>\<open>f"client-{id(conn)}"\<close>; the connection number stands for \<open>id(conn)\<close>.\<close>

definition default_client_id :: "nat \<Rightarrow> string" where
  "default_client_id n = ''client-'' @ digits n"

definition snapshot_message :: "real \<Rightarrow> server \<Rightarrow> session_msg" where
  "snapshot_message now s =
     M_snapshot (ss_controller s)
       (if ss_controller s \<noteq> []
        then max 0 (let x = (ss_deadline s - now) * 1000 in if x < 0 then \<lceil>x\<rceil> else \<lfloor>x\<rfloor>) else 0)"

definition new_conn :: "string \<Rightarrow> string \<Rightarrow> string \<Rightarrow> client_conn" where
  "new_conn client role addr =
     \<lparr>cc_id = client, cc_role = role, cc_addr = addr, cc_window = 0, cc_msgs = 0, cc_inputs = 0, cc_bytes = 0,
      cc_violations = 0\<rparr>"

definition register_client ::
  "(nat \<Rightarrow> bool) \<Rightarrow> real \<Rightarrow> nat \<Rightarrow> string \<Rightarrow> string \<Rightarrow> string \<Rightarrow> server \<Rightarrow> server" where
  "register_client dead now n client role addr s =
     (let s1 = set_conn n (new_conn client role addr) s;
          s2 = s1\<lparr>ss_clients := dict_set (ss_clients s1) client n, ss_loops := ss_loops s1 @ [n]\<rparr>;
          s3 = send dead n (M_hello client role) (emit ''SESSION_CLIENT_CONNECTED'' client ''CONNECTED'' s2)
      in send dead n (snapshot_message now s3) s3)"

definition accept_hello ::
  "session_config \<Rightarrow> (nat \<Rightarrow> bool) \<Rightarrow> real \<Rightarrow> nat \<Rightarrow> string \<Rightarrow> hello \<Rightarrow> server \<Rightarrow> server" where
  "accept_hello g dead now n addr h s =
     (let client = or_default (default_client_id n) (py_strip (he_client h));
          token = py_strip (he_token h);
          requested = or_default ''viewer'' (py_lower (py_strip (he_role h)))
      in if py_upper (he_type h) \<noteq> ''HELLO'' then send dead n (M_error ''protocol'') s
         else if client \<in> set (ss_banned s) then send dead n (M_error ''banned'') s
         else if sg_auth g \<and> (token = [] \<or> token \<noteq> sg_token g)
         then send dead n (M_error ''auth_failed'') (emit ''SESSION_CLIENT_AUTH_FAILED'' client ''AUTH_FAILED'' s)
         else if requested \<notin> set (sg_roles g)
         then (if sg_strict g
               then emit ''SESSION_CLIENT_AUTH_FAILED'' client ''ROLE_FORBIDDEN'' (send dead n (M_error ''role_forbidden'') s)
               else register_client dead now n client (sg_default_role g) addr
                      (emit ''SESSION_ROLE_DOWNGRADED'' client ''ROLE_DOWNGRADED'' s))
         else register_client dead now n client requested addr s)"

text \<open>The \<open>finally\<close> of the loop.\<close>

definition leave_loop ::
  "session_config \<Rightarrow> (nat \<Rightarrow> bool) \<Rightarrow> real \<Rightarrow> nat \<Rightarrow> client_conn \<Rightarrow> string \<Rightarrow> server \<Rightarrow> server option" where
  "leave_loop g dead now n c reason s =
     exec g dead now (Unregister (cc_id c) reason) (s\<lparr>ss_loops := filter (\<lambda>k. k \<noteq> n) (ss_loops s)\<rparr>)"

definition loop_message ::
  "session_config \<Rightarrow> (nat \<Rightarrow> bool) \<Rightarrow> real \<Rightarrow> real \<Rightarrow> radar_scene option \<Rightarrow> nat \<Rightarrow> client_conn \<Rightarrow> session_message \<Rightarrow> int \<Rightarrow>
   server \<Rightarrow> server option" where
  "loop_message g dead now ack_s sc n c m raw_size s =
     (let (s1, ok) = check_rate_limit g dead now n c m raw_size s; c1 = count_message now m raw_size c
      in if \<not> ok
         then if sg_strict g then leave_loop g dead now n c1 ''RATE_LIMIT_EXCEEDED'' s1 else Some s1
         else do { (s2, r) \<leftarrow> handle_client_message g dead now ack_s sc n c1 m s1;
                   case r of
                     Keep_open \<Rightarrow> Some s2
                   | Leave reason \<Rightarrow> leave_loop g dead now n c1 reason s2
                   | Raised \<Rightarrow> leave_loop g dead now n c1 ''CLIENT_DISCONNECTED'' s2 })"

section \<open>The publisher\<close>

definition ALLOWED_SUBSYSTEMS :: "string list" where
  "ALLOWED_SUBSYSTEMS = [''RADAR'', ''FUSION'', ''SITUATION'', ''FSM'', ''ACTUATORS'', ''SESSION'']"

definition SEEN_MAXLEN :: nat where "SEEN_MAXLEN = 4000"

text \<open>
  \<open>_seen_event_ids\<close> is a \<open>deque(maxlen=4000)\<close> beside a set; a full deque drops its first element
  by itself, without telling the set.
\<close>

fun shrink_seen :: "nat \<Rightarrow> string list \<Rightarrow> string list \<Rightarrow> string list \<times> string list" where
  "shrink_seen maxlen [] seen = ([], seen)"
| "shrink_seen maxlen (e # es) seen =
     (if length seen > maxlen then shrink_seen maxlen es (removeAll e seen) else (e # es, seen))"

definition note_seen :: "nat \<Rightarrow> string \<Rightarrow> string list \<times> string list \<Rightarrow> string list \<times> string list" where
  "note_seen maxlen e q = shrink_seen maxlen (deque_append maxlen (fst q) e) (List.insert e (snd q))"

fun broadcast_events ::
  "session_config \<Rightarrow> (nat \<Rightarrow> bool) \<Rightarrow> real \<Rightarrow> (string \<times> string) list \<Rightarrow> server \<Rightarrow> server option" where
  "broadcast_events g dead now [] s = Some s"
| "broadcast_events g dead now ((subsystem, e) # es) s =
     (if subsystem \<notin> set ALLOWED_SUBSYSTEMS \<or> e \<in> set (ss_seen_set s) then broadcast_events g dead now es s
      else let q = note_seen SEEN_MAXLEN e (ss_seen s, ss_seen_set s)
           in do { s1 \<leftarrow> exec g dead now (Broadcast (M_event e)) (s\<lparr>ss_seen := fst q, ss_seen_set := snd q\<rparr>);
                   broadcast_events g dead now es s1 })"

definition publish ::
  "session_config \<Rightarrow> (nat \<Rightarrow> bool) \<Rightarrow> real \<Rightarrow> (string \<times> string) list \<Rightarrow> server \<Rightarrow> server option" where
  "publish g dead now events s =
     do { s1 \<leftarrow> broadcast_events g dead now events s;
          exec g dead now (Broadcast (snapshot_message now s1)) s1 }"

section \<open>Steps and runs\<close>

datatype session_step =
    Connect nat string hello
  | Received nat session_message int
  | Hang_up nat
  | Lease_check
  | Publish "(string \<times> string) list"

record step_env =
  sx_now :: real
  sx_dead :: "nat list"
  sx_scene :: "radar_scene option"

text \<open>A connection number is used once, and only a running loop receives.\<close>

definition running_conn :: "nat \<Rightarrow> server \<Rightarrow> client_conn option" where
  "running_conn n s = (if n \<in> set (ss_loops s) then dict_get (ss_conns s) n else None)"

definition session_step :: "session_config \<Rightarrow> real \<Rightarrow> step_env \<Rightarrow> session_step \<Rightarrow> server \<Rightarrow> server option" where
  "session_step g ack_s x e s =
     (let now = sx_now x; dead = (\<lambda>n. n \<in> set (sx_dead x))
      in case e of
           Connect n addr h \<Rightarrow>
             Some (if n \<in> fst ` set (ss_conns s) then s else accept_hello g dead now n addr h s)
         | Received n m raw_size \<Rightarrow>
             (case running_conn n s of
                Some c \<Rightarrow> loop_message g dead now ack_s (sx_scene x) n c m raw_size s | None \<Rightarrow> Some s)
         | Hang_up n \<Rightarrow>
             (case running_conn n s of
                Some c \<Rightarrow> leave_loop g dead now n c ''CLIENT_DISCONNECTED'' s | None \<Rightarrow> Some s)
         | Lease_check \<Rightarrow> expire_control g dead now s
         | Publish events \<Rightarrow> publish g dead now events s)"

fun session_run ::
  "session_config \<Rightarrow> real \<Rightarrow> server \<Rightarrow> (step_env \<times> session_step) list \<Rightarrow> server option" where
  "session_run g ack_s s [] = Some s"
| "session_run g ack_s s ((x, e) # es) = do { s1 \<leftarrow> session_step g ack_s x e s; session_run g ack_s s1 es }"

end
