(* ===== verification/Session_Runs.thy ===== *)
theory Session_Runs
  imports Session_Server
begin

text \<open>
  Properties of the session server: the mutual recursion of broadcasts, departures and grants always ends; who may
  steer; how long a lease protects its holder; that a ban lasts; how many messages pass the rate limit.
\<close>

section \<open>The recursion ends\<close>

definition weight :: "server \<Rightarrow> nat" where
  "weight s = 2 * length (ss_clients s) + 2 * length (ss_queue s) + (if ss_controller s = [] then 0 else 1)"

fun call_rank :: "session_call \<Rightarrow> server \<Rightarrow> nat" where
  "call_rank (Broadcast m) s = length (ss_clients s) + 3"
| "call_rank (Unregister_all ids) s = length ids + 2"
| "call_rank (Unregister i r) s = 1"
| "call_rank (Release i r) s = 0"
| "call_rank Grant_next s = 0"

lemma send_frame [simp]:
  "ss_clients (send dead n m s) = ss_clients s" "ss_queue (send dead n m s) = ss_queue s"
  "ss_controller (send dead n m s) = ss_controller s" "ss_deadline (send dead n m s) = ss_deadline s"
  "ss_banned (send dead n m s) = ss_banned s" "ss_conns (send dead n m s) = ss_conns s"
  "ss_loops (send dead n m s) = ss_loops s" "ss_view (send dead n m s) = ss_view s" "ss_log (send dead n m s) = ss_log s"
  by (simp_all add: send_def)

lemma deliver_frame [simp]:
  "ss_clients (deliver dead m s) = ss_clients s" "ss_queue (deliver dead m s) = ss_queue s"
  "ss_controller (deliver dead m s) = ss_controller s" "ss_deadline (deliver dead m s) = ss_deadline s"
  "ss_banned (deliver dead m s) = ss_banned s" "ss_conns (deliver dead m s) = ss_conns s"
  "ss_loops (deliver dead m s) = ss_loops s" "ss_view (deliver dead m s) = ss_view s" "ss_log (deliver dead m s) = ss_log s"
  by (simp_all add: deliver_def foldl_frame)

lemma emit_frame [simp]:
  "ss_clients (emit t i r s) = ss_clients s" "ss_queue (emit t i r s) = ss_queue s"
  "ss_controller (emit t i r s) = ss_controller s" "ss_deadline (emit t i r s) = ss_deadline s"
  "ss_banned (emit t i r s) = ss_banned s" "ss_conns (emit t i r s) = ss_conns s"
  "ss_loops (emit t i r s) = ss_loops s" "ss_view (emit t i r s) = ss_view s"
  by (simp_all add: emit_def)

lemma length_dict_pop_le: "length (dict_pop m k) \<le> length m"
  by (simp add: AList.delete_eq)

lemma length_dict_pop_less: "dict_get m k = Some v \<Longrightarrow> length (dict_pop m k) < length m"
  by (induction m) (auto simp: length_dict_pop_le less_Suc_eq_le split: if_splits)

lemma weight_forget: "weight (leave_queue i (forget_client i r s)) \<le> weight s"
proof -
  have "length (dict_pop (ss_clients s) i) \<le> length (ss_clients s)" by (rule length_dict_pop_le)
  then have "2 * length (dict_pop (ss_clients s) i) + 2 * length (filter (\<lambda>j. j \<noteq> i) (ss_queue s)) \<le>
      2 * length (ss_clients s) + 2 * length (ss_queue s)"
    using length_filter_le [of "\<lambda>j. j \<noteq> i" "ss_queue s"] by linarith
  then show ?thesis by (auto simp: weight_def leave_queue_def forget_client_def split: option.splits)
qed

text \<open>Client identifiers are never empty; the empty text says that nobody is in control.\<close>

definition client_ids :: "server \<Rightarrow> string set" where
  "client_ids s = fst ` set (ss_clients s)"

lemma forget_keys: "client_ids (leave_queue i (forget_client i r s)) = client_ids s - {i}"
  by (auto simp: client_ids_def leave_queue_def forget_client_def map_of_eq_None_iff split: option.splits)

lemma client_ids_mono: "set (ss_clients t) \<subseteq> set (ss_clients s) \<Longrightarrow> client_ids t \<subseteq> client_ids s"
  by (auto simp: client_ids_def)

lemma client_ids_cong: "ss_clients t = ss_clients s \<Longrightarrow> client_ids t = client_ids s"
  by (simp add: client_ids_def)

definition named :: "server \<Rightarrow> bool" where
  "named s \<longleftrightarrow> [] \<notin> client_ids s"

fun names_call :: "session_call \<Rightarrow> bool" where
  "names_call (Unregister_all ids) \<longleftrightarrow> [] \<notin> set ids"
| "names_call (Unregister i r) \<longleftrightarrow> i \<noteq> []"
| "names_call (Release i r) \<longleftrightarrow> i \<noteq> []"
| "names_call _ \<longleftrightarrow> True"

lemma set_dict_pop: "set (dict_pop m k) \<subseteq> set m"
  by (auto simp: AList.delete_eq)

lemma forget_clients: "set (ss_clients (leave_queue i (forget_client i r s))) \<subseteq> set (ss_clients s)"
  by (auto simp: leave_queue_def forget_client_def dest: set_dict_pop [THEN subsetD] split: option.splits)

lemma named_mono: "set (ss_clients s') \<subseteq> set (ss_clients s) \<Longrightarrow> named s \<Longrightarrow> named s'"
  by (auto simp: named_def dest: client_ids_mono)

text \<open>What a call leaves: no more weight and no new clients.\<close>

definition shrunk :: "server \<Rightarrow> server \<Rightarrow> bool" where
  "shrunk s s' \<longleftrightarrow> weight s' \<le> weight s \<and> set (ss_clients s') \<subseteq> set (ss_clients s)"

lemma shrunk_trans: "shrunk s t \<Longrightarrow> shrunk t u \<Longrightarrow> shrunk s u"
  by (auto simp: shrunk_def)

lemma shrunk_named: "shrunk s t \<Longrightarrow> named s \<Longrightarrow> named t"
  by (auto simp: shrunk_def intro: named_mono)

definition call_order :: "((session_call \<times> server) \<times> (session_call \<times> server)) set" where
  "call_order = measures [\<lambda>p. weight (snd p), \<lambda>p. call_rank (fst p) (snd p)]"

lemma wf_call_order: "wf call_order"
  by (simp add: call_order_def)

lemma unreached_named: "named s \<Longrightarrow> [] \<notin> set (unreached dead s)"
  by (force simp: named_def unreached_def client_ids_def)

lemma exec_shrinks:
  "named s \<Longrightarrow> names_call call \<Longrightarrow> \<exists>s'. exec g dead now call s = Some s' \<and> shrunk s s'"
proof (induction "(call, s)" arbitrary: call s rule: wf_induct_rule [OF wf_call_order])
  case 1
  have IHt: "\<exists>s'. exec g dead now c t = Some s' \<and> shrunk t s'"
    if "shrunk s t" "names_call c" "weight t < weight s \<or> call_rank c t < call_rank call s" for c t
  proof -
    have "((c, t), (call, s)) \<in> call_order"
      using that(1,3) by (auto simp: call_order_def in_measures shrunk_def)
    from 1(1) [OF this shrunk_named [OF that(1) 1(2)] that(2)] show ?thesis .
  qed
  have IH: "\<exists>s'. exec g dead now c t = Some s' \<and> shrunk s s'"
    if "shrunk s t" "names_call c" "weight t < weight s \<or> call_rank c t < call_rank call s" for c t
    using IHt [OF that] that(1) by (blast intro: shrunk_trans)
  have refl: "shrunk s s" by (simp add: shrunk_def)
  show ?case
  proof (cases call)
    case (Broadcast m)
    have "\<exists>s'. exec g dead now (Unregister_all (unreached dead s)) (deliver dead m s) = Some s' \<and> shrunk s s'"
      using unreached_named [OF 1(2)] by (intro IH) (simp_all add: Broadcast shrunk_def weight_def unreached_def le_imp_less_Suc [OF length_filter_le])
    then show ?thesis by (subst exec.simps) (simp add: Broadcast)
  next
    case (Unregister_all ids)
    show ?thesis
    proof (cases ids)
      case Nil
      then show ?thesis by (subst exec.simps) (simp add: Unregister_all refl)
    next
      case (Cons i "is")
      obtain s1 where s1: "exec g dead now (Unregister i ''CLIENT_DISCONNECTED'') s = Some s1" "shrunk s s1"
        using IH [of s "Unregister i ''CLIENT_DISCONNECTED''"] 1(3) refl by (auto simp: Unregister_all Cons)
      have "\<exists>s'. exec g dead now (Unregister_all is) s1 = Some s' \<and> shrunk s s'"
        using s1(2) 1(3) by (intro IH) (auto simp: Unregister_all Cons)
      with s1 show ?thesis by (subst exec.simps) (simp add: Unregister_all Cons)
    qed
  next
    case (Unregister i r)
    have "\<exists>s'. exec g dead now (Release i ''REVOKED'') (leave_queue i (forget_client i r s)) = Some s' \<and> shrunk s s'"
      using 1(3) weight_forget forget_clients by (intro IH) (auto simp: Unregister shrunk_def)
    then show ?thesis by (subst exec.simps) (simp add: Unregister)
  next
    case (Release i r)
    show ?thesis
    proof (cases "i = ss_controller s")
      case False
      then show ?thesis by (subst exec.simps) (simp add: Release refl)
    next
      case True
      let ?t = "emit (release_event r) i r (clear_control s)"
      have t: "shrunk s ?t" "weight ?t < weight s"
        using 1(3) True by (simp_all add: shrunk_def weight_def clear_control_def Release)
      obtain s1 where s1: "exec g dead now (Broadcast (M_release i r)) ?t = Some s1" "shrunk ?t s1" "shrunk s s1"
        using IHt [OF t(1), of "Broadcast (M_release i r)"] t by (auto intro: shrunk_trans)
      then have w: "weight s1 < weight s" using t(2) by (simp add: shrunk_def)
      obtain s2 where s2: "exec g dead now Grant_next s1 = Some s2" "shrunk s s2"
        using IH [OF s1(3), of Grant_next] w by auto
      from s1 s2 True show ?thesis by (subst exec.simps) (simp add: Release)
    qed
  next
    case Grant_next
    show ?thesis
    proof (cases "sg_policy g = ''queue'' \<and> ss_controller s = []")
      case False
      then show ?thesis by (subst exec.simps) (simp add: Grant_next refl)
    next
      case True
      show ?thesis
      proof (cases "find (\<lambda>i. i \<in> fst ` set (ss_clients s)) (ss_queue s)")
        case None
        with True show ?thesis by (subst exec.simps) (simp add: Grant_next shrunk_def weight_def)
      next
        case (Some i)
        let ?t = "emit ''CONTROL_GRANTED'' i ''QUEUE_GRANTED'' (give_control g now i (s\<lparr>ss_queue := []\<rparr>))"
        from Some have "ss_queue s \<noteq> []" by auto
        with True have t: "shrunk s ?t" "weight ?t < weight s"
          by (cases "ss_queue s"; simp add: shrunk_def weight_def give_control_def)+
        from IH [OF t(1), of "Broadcast (M_granted i)"] t(2)
        have "\<exists>s'. exec g dead now (Broadcast (M_granted i)) ?t = Some s' \<and> shrunk s s'" by simp
        with True Some show ?thesis by (subst exec.simps) (simp add: Grant_next)
      qed
    qed
  qed
qed

section \<open>What calls keep\<close>

text \<open>
  An invariant of the elementary changes a call makes is kept by the call, however the calls nest.
\<close>

locale call_invariant =
  fixes g :: session_config and dead :: "nat \<Rightarrow> bool" and now :: real and keeps :: "server \<Rightarrow> bool"
  assumes keeps_deliver: "keeps s \<Longrightarrow> keeps (deliver dead m s)"
    and keeps_forget: "keeps s \<Longrightarrow> keeps (leave_queue i (forget_client i r s))"
    and keeps_release: "keeps s \<Longrightarrow> keeps (emit t i r (clear_control s))"
    and keeps_empty_queue: "keeps s \<Longrightarrow> keeps (s\<lparr>ss_queue := []\<rparr>)"
    and keeps_grant: "keeps s \<Longrightarrow> i \<in> fst ` set (ss_clients s) \<Longrightarrow> keeps (emit t i r (give_control g now i s))"
begin

lemma exec_keeps:
  assumes "exec g dead now call s = Some s'" and "keeps s"
  shows "keeps s'"
proof -
  define P where "P = (\<lambda>g' d' n' (c :: session_call) t t'. g' = g \<and> d' = dead \<and> n' = now \<longrightarrow> keeps t \<longrightarrow> keeps t')"
  have "P g dead now call s s'"
  proof (rule exec.raw_induct [OF _ assms(1)])
    fix f g' d' n' c t t'
    assume IH: "\<And>g' d' n' c t t'. f g' d' n' c t = Some t' \<Longrightarrow> P g' d' n' c t t'"
      and body: "(case c of
          Broadcast m \<Rightarrow> f g' d' n' (Unregister_all (unreached d' t)) (deliver d' m t)
        | Unregister_all [] \<Rightarrow> Some t
        | Unregister_all (i # is) \<Rightarrow> f g' d' n' (Unregister i ''CLIENT_DISCONNECTED'') t \<bind> f g' d' n' (Unregister_all is)
        | Unregister i r \<Rightarrow> f g' d' n' (Release i ''REVOKED'') (leave_queue i (forget_client i r t))
        | Release i r \<Rightarrow>
            if i \<noteq> ss_controller t then Some t
            else f g' d' n' (Broadcast (M_release i r)) (emit (release_event r) i r (clear_control t)) \<bind> f g' d' n' Grant_next
        | Grant_next \<Rightarrow>
            if sg_policy g' \<noteq> ''queue'' then Some t
            else if ss_controller t \<noteq> [] then Some t
            else (case find (\<lambda>i. i \<in> fst ` set (ss_clients t)) (ss_queue t) of
                    None \<Rightarrow> Some (t\<lparr>ss_queue := []\<rparr>)
                  | Some i \<Rightarrow>
                      f g' d' n' (Broadcast (M_granted i))
                        (emit ''CONTROL_GRANTED'' i ''QUEUE_GRANTED'' (give_control g' n' i (t\<lparr>ss_queue := []\<rparr>))))) = Some t'"
    have step: "keeps t''" if "f g dead now c' u = Some t''" "keeps u" for c' u t''
      using IH [OF that(1)] that(2) by (simp add: P_def)
    show "P g' d' n' c t t'"
      unfolding P_def
    proof (intro impI, elim conjE)
      assume eq: "g' = g" "d' = dead" "n' = now" and t: "keeps t"
      show "keeps t'"
      proof (cases c)
        case (Broadcast m)
        with body eq show ?thesis by (auto intro: step keeps_deliver [OF t])
      next
        case (Unregister_all ids)
        with body eq t show ?thesis
          by (auto simp: bind_eq_Some_conv split: list.splits dest: step)
      next
        case (Unregister i r)
        with body eq show ?thesis by (auto intro: step keeps_forget [OF t])
      next
        case (Release i r)
        with body eq t show ?thesis
          by (auto simp: bind_eq_Some_conv split: if_splits dest!: step intro: keeps_release)
      next
        case Grant_next
        have grant: "keeps (emit e i r (give_control g now i (t\<lparr>ss_queue := []\<rparr>)))"
          if "find (\<lambda>i. i \<in> fst ` set (ss_clients t)) (ss_queue t) = Some i" for e i r
          using that by (intro keeps_grant keeps_empty_queue [OF t]) (auto simp: find_Some_iff)
        from Grant_next body eq t show ?thesis
          by (auto split: if_splits option.splits intro: t keeps_empty_queue step grant)
      qed
    qed
  qed
  then show ?thesis using assms(2) by (simp add: P_def)
qed

end

lemma leave_queue_frame [simp]:
  "ss_clients (leave_queue i s) = ss_clients s" "ss_controller (leave_queue i s) = ss_controller s"
  "ss_deadline (leave_queue i s) = ss_deadline s" "ss_banned (leave_queue i s) = ss_banned s"
  "ss_conns (leave_queue i s) = ss_conns s" "ss_loops (leave_queue i s) = ss_loops s" "ss_view (leave_queue i s) = ss_view s"
  by (simp_all add: leave_queue_def)

lemma forget_frame [simp]:
  "ss_controller (forget_client i r s) = ss_controller s" "ss_deadline (forget_client i r s) = ss_deadline s"
  "ss_banned (forget_client i r s) = ss_banned s" "ss_conns (forget_client i r s) = ss_conns s"
  "ss_loops (forget_client i r s) = ss_loops s" "ss_view (forget_client i r s) = ss_view s"
  by (simp_all add: forget_client_def split: option.splits)

lemma clear_frame [simp]:
  "ss_clients (clear_control s) = ss_clients s" "ss_banned (clear_control s) = ss_banned s"
  "ss_conns (clear_control s) = ss_conns s" "ss_loops (clear_control s) = ss_loops s" "ss_view (clear_control s) = ss_view s"
  by (simp_all add: clear_control_def)

lemma give_frame [simp]:
  "ss_clients (give_control g now i s) = ss_clients s" "ss_banned (give_control g now i s) = ss_banned s"
  "ss_conns (give_control g now i s) = ss_conns s" "ss_loops (give_control g now i s) = ss_loops s"
  "ss_view (give_control g now i s) = ss_view s" "ss_controller (give_control g now i s) = i"
  by (simp_all add: give_control_def)

lemma client_ids_frame [simp]:
  "client_ids (deliver dead m s) = client_ids s" "client_ids (emit t i r s) = client_ids s"
  "client_ids (clear_control s) = client_ids s" "client_ids (give_control g now i s) = client_ids s"
  "client_ids (s\<lparr>ss_queue := q\<rparr>) = client_ids s"
  by (simp_all add: client_ids_def)

text \<open>Calls touch neither the view, the connections, the loops nor the bans.\<close>

definition untouched :: "server \<Rightarrow> server \<Rightarrow> bool" where
  "untouched s0 s \<longleftrightarrow>
     ss_view s = ss_view s0 \<and> ss_conns s = ss_conns s0 \<and> ss_loops s = ss_loops s0 \<and> ss_banned s = ss_banned s0 \<and>
     client_ids s \<subseteq> client_ids s0"

interpretation untouched: call_invariant g dead now "untouched s0"
  by unfold_locales (auto simp: untouched_def forget_keys)

lemma untouched_refl [simp]: "untouched s s"
  by (simp add: untouched_def)

lemma untouched_trans: "untouched s t \<Longrightarrow> untouched t u \<Longrightarrow> untouched s u"
  by (auto simp: untouched_def)

lemma exec_untouched: "exec g dead now call s = Some s' \<Longrightarrow> untouched s s'"
  by (erule untouched.exec_keeps) simp

section \<open>Sessions stay in order\<close>

text \<open>Identifiers are never empty, and nobody banned is registered.\<close>

definition conn_names :: "server \<Rightarrow> string set" where
  "conn_names s = (cc_id \<circ> snd) ` set (ss_conns s)"

definition session_ok :: "server \<Rightarrow> bool" where
  "session_ok s \<longleftrightarrow> named s \<and> [] \<notin> conn_names s \<and> set (ss_banned s) \<inter> client_ids s = {}"

lemma session_ok_untouched: "untouched s t \<Longrightarrow> session_ok s \<Longrightarrow> session_ok t"
  by (auto simp: session_ok_def untouched_def named_def conn_names_def)

text \<open>A server after an operation, which came to an end.\<close>

definition ends_ok :: "server option \<Rightarrow> bool" where
  "ends_ok r \<longleftrightarrow> (\<exists>t. r = Some t \<and> session_ok t)"

lemma ends_ok_Some [simp]: "ends_ok (Some s) = session_ok s"
  by (simp add: ends_ok_def)

lemma ends_ok_bind: "ends_ok r \<Longrightarrow> (\<And>t. r = Some t \<Longrightarrow> session_ok t \<Longrightarrow> ends_ok (f t)) \<Longrightarrow> ends_ok (r \<bind> f)"
  by (auto simp: ends_ok_def)

lemma exec_ends: "session_ok s \<Longrightarrow> names_call call \<Longrightarrow> ends_ok (exec g dead now call s)"
proof -
  assume *: "session_ok s" "names_call call"
  then obtain t where t: "exec g dead now call s = Some t"
    using exec_shrinks [of s call g dead now] by (auto simp: session_ok_def)
  from session_ok_untouched [OF exec_untouched [OF t] *(1)] t show ?thesis by simp
qed

lemma ok_frame [simp]:
  "session_ok (emit t i r s) = session_ok s" "session_ok (send dead n m s) = session_ok s"
  "session_ok (clear_control s) = session_ok s" "session_ok (give_control g now i s) = session_ok s"
  "session_ok (s\<lparr>ss_queue := q\<rparr>) = session_ok s" "session_ok (s\<lparr>ss_view := v\<rparr>) = session_ok s"
  "session_ok (s\<lparr>ss_deadline := d\<rparr>) = session_ok s" "session_ok (s\<lparr>ss_loops := ls\<rparr>) = session_ok s"
  "session_ok (s\<lparr>ss_seen := a, ss_seen_set := b\<rparr>) = session_ok s"
  by (simp_all add: session_ok_def named_def client_ids_def conn_names_def)

lemma ok_client_error [simp]: "session_ok (send_client_error dead i m s) = session_ok s"
  by (simp add: send_client_error_def split: option.splits)

lemma ok_deny [simp]: "session_ok (deny_control dead i r s) = session_ok s"
  by (simp add: deny_control_def)

lemma ok_set_conn [intro]: "session_ok s \<Longrightarrow> cc_id c \<noteq> [] \<Longrightarrow> session_ok (set_conn n c s)"
  using set_dict_set [of n c "ss_conns s"]
  by (force simp: session_ok_def named_def client_ids_def conn_names_def set_conn_def)

lemma request_ends:
  "session_ok s \<Longrightarrow> ends_ok (request_control g dead now c force_target s)"
  by (auto simp: request_control_def Let_def intro!: exec_ends)

lemma unregister_gone:
  assumes "exec g dead now (Unregister i r) s = Some t"
  shows "i \<notin> client_ids t"
proof -
  from assms have "exec g dead now (Release i ''REVOKED'') (leave_queue i (forget_client i r s)) = Some t"
    by (subst (asm) exec.simps) simp
  from exec_untouched [OF this] forget_keys [of i r s] show ?thesis by (auto simp: untouched_def)
qed

lemma disconnect_ends:
  assumes "named s" "[] \<notin> conn_names s" "set (ss_banned s) \<inter> client_ids s \<subseteq> {i}"
  shows "ends_ok (disconnect_client g dead now i r s)"
proof (cases "dict_get (ss_clients s) i")
  case None
  then have "i \<notin> client_ids s" by (simp add: client_ids_def map_of_eq_None_iff)
  with None assms show ?thesis by (auto simp: disconnect_client_def session_ok_def)
next
  case (Some n)
  with assms(1) have "i \<noteq> []" by (force simp: named_def client_ids_def dest: map_of_SomeD)
  with assms(1) obtain t where t: "exec g dead now (Unregister i r) s = Some t"
    using exec_shrinks [of s "Unregister i r" g dead now] by auto
  from exec_untouched [OF t] unregister_gone [OF t] assms have "session_ok t"
    by (auto simp: session_ok_def untouched_def named_def conn_names_def)
  with t Some show ?thesis by (simp add: disconnect_client_def)
qed

lemma disconnect_ends_ok: "session_ok s \<Longrightarrow> ends_ok (disconnect_client g dead now i r s)"
  by (rule disconnect_ends) (auto simp: session_ok_def)

lemma ban_ends:
  "session_ok s \<Longrightarrow> ends_ok (disconnect_client g dead now i r (s\<lparr>ss_banned := List.insert i (ss_banned s)\<rparr>))"
  by (rule disconnect_ends) (auto simp: session_ok_def named_def client_ids_def conn_names_def)

section \<open>Every step ends and keeps the order\<close>

text \<open>The same for an operation that also says how the loop goes on.\<close>

definition loops_ok :: "(server \<times> loop_exit) option \<Rightarrow> bool" where
  "loops_ok r \<longleftrightarrow> (\<exists>t x. r = Some (t, x) \<and> session_ok t)"

lemma loops_ok_Some [simp]: "loops_ok (Some (t, x)) = session_ok t"
  by (simp add: loops_ok_def)

lemma loops_ok_bind [simp]: "loops_ok (r \<bind> (\<lambda>t. Some (t, x))) = ends_ok r"
  by (cases r) (simp_all add: loops_ok_def ends_ok_def)

lemma loops_ok_keep_open [simp]: "loops_ok (keep_open r) = ends_ok r"
  by (cases r) (simp_all add: loops_ok_def ends_ok_def keep_open_def)

lemma input_ends:
  assumes "session_ok s" "cc_id c \<noteq> []"
  shows "loops_ok (apply_input_message g dead now ack_s sc n c p s)"
proof (cases "cc_id c = ss_controller s")
  case True
  have "session_ok (set_conn n (c\<lparr>cc_violations := 0\<rparr>) s)" using assms by (intro ok_set_conn) simp_all
  with True show ?thesis by (simp add: apply_input_message_def Let_def split: input_effect.splits)
next
  case False
  let ?c = "c\<lparr>cc_violations := cc_violations c + 1\<rparr>"
  have "session_ok (set_conn n ?c (send dead n (M_error ''not_controller'') s))"
    using assms by (intro ok_set_conn) simp_all
  with False show ?thesis by (simp add: apply_input_message_def Let_def disconnect_ends_ok)
qed

lemma handle_ends:
  "session_ok s \<Longrightarrow> cc_id c \<noteq> [] \<Longrightarrow> loops_ok (handle_client_message g dead now ack_s sc n c m s)"
  by (simp add: handle_client_message_def Let_def request_ends exec_ends ban_ends input_ends)

lemma leave_ends: "session_ok s \<Longrightarrow> cc_id c \<noteq> [] \<Longrightarrow> ends_ok (leave_loop g dead now n c reason s)"
  by (simp add: leave_loop_def exec_ends)

lemma count_message_id [simp]: "cc_id (count_message now m raw_size c) = cc_id c"
  by (simp add: count_message_def Let_def)

lemma loop_message_ends:
  assumes "session_ok s" "cc_id c \<noteq> []"
  shows "ends_ok (loop_message g dead now ack_s sc n c m raw_size s)"
proof -
  let ?c = "count_message now m raw_size c"
  have ok: "session_ok (set_conn n ?c s)" using assms by (intro ok_set_conn) simp_all
  then have ok1: "session_ok (fst (check_rate_limit g dead now n c m raw_size s))"
    by (simp add: check_rate_limit_def Let_def)
  obtain s1 b where s1: "check_rate_limit g dead now n c m raw_size s = (s1, b)" by force
  with ok1 have "session_ok s1" by simp
  with s1 handle_ends [OF this, of ?c g dead now ack_s sc n m] assms(2) show ?thesis
    by (auto simp: loop_message_def Let_def loops_ok_def leave_ends split: loop_exit.splits)
qed

lemma expire_ends: "session_ok s \<Longrightarrow> ends_ok (expire_control g dead now s)"
  by (auto simp: expire_control_def Let_def intro!: ends_ok_bind exec_ends)

lemma broadcast_events_ends: "session_ok s \<Longrightarrow> ends_ok (broadcast_events g dead now es s)"
proof (induction es arbitrary: s)
  case (Cons e es)
  then show ?case by (cases e) (auto simp: Let_def intro!: ends_ok_bind exec_ends)
qed simp

lemma publish_ends: "session_ok s \<Longrightarrow> ends_ok (publish g dead now es s)"
  by (auto simp: publish_def intro!: ends_ok_bind broadcast_events_ends exec_ends)

lemma strip_or_default: "or_default (default_client_id n) x \<noteq> []"
  by (simp add: or_default_def default_client_id_def)

lemma register_ok:
  assumes "session_ok s" "client \<noteq> []" "client \<notin> set (ss_banned s)"
  shows "session_ok (register_client dead now n client role addr s)"
proof -
  let ?s1 = "set_conn n (new_conn client role addr) s"
  have "session_ok ?s1" using assms by (intro ok_set_conn) (simp_all add: new_conn_def)
  then have "session_ok (?s1\<lparr>ss_clients := dict_set (ss_clients ?s1) client n, ss_loops := ss_loops ?s1 @ [n]\<rparr>)"
    using assms by (auto simp: session_ok_def named_def client_ids_def conn_names_def set_conn_def)
  then show ?thesis by (simp add: register_client_def Let_def)
qed

lemma hello_ok: "session_ok s \<Longrightarrow> session_ok (accept_hello g dead now n addr h s)"
  by (auto simp: accept_hello_def Let_def strip_or_default intro!: register_ok)

lemma running_named: "session_ok s \<Longrightarrow> running_conn n s = Some c \<Longrightarrow> cc_id c \<noteq> []"
  by (force simp: running_conn_def session_ok_def conn_names_def dest: map_of_SomeD split: if_splits)

lemma step_ends: "session_ok s \<Longrightarrow> ends_ok (session_step g ack_s x e s)"
  by (cases e)
    (auto simp: session_step_def Let_def split: option.splits
      intro: hello_ok loop_message_ends leave_ends expire_ends publish_ends dest: running_named)

lemma run_ends: "session_ok s \<Longrightarrow> ends_ok (session_run g ack_s s es)"
proof (induction es arbitrary: s)
  case (Cons e es)
  then show ?case by (cases e) (auto intro!: ends_ok_bind step_ends)
qed simp

lemma new_server_ok: "session_ok (new_server vs)"
  by (simp add: session_ok_def new_server_def named_def client_ids_def conn_names_def)

text \<open>
  C23. No message, no loss of connections and no order of them makes the server recurse without end: although a
  broadcast unregisters the consoles it could not reach, and a departure can release the lease, grant it to the next
  in the queue and broadcast again, every run of steps from the start comes to an end; and in the state it ends in
  nobody banned is registered as a client.
\<close>

theorem session_run_returns:
  "\<exists>s. session_run g ack_s (new_server vs) es = Some s \<and> list_all (\<lambda>i. dict_get (ss_clients s) i = None) (ss_banned s)"
  using run_ends [OF new_server_ok, of g ack_s vs es]
  by (force simp: ends_ok_def session_ok_def client_ids_def list_all_iff map_of_eq_None_iff)

section \<open>Who steers\<close>

lemma exec_view: "exec g dead now call s = Some t \<Longrightarrow> ss_view t = ss_view s"
  by (auto dest: exec_untouched simp: untouched_def)

lemma send_client_error_frame [simp]:
  "ss_view (send_client_error dead i m s) = ss_view s" "ss_controller (send_client_error dead i m s) = ss_controller s"
  "ss_deadline (send_client_error dead i m s) = ss_deadline s" "ss_queue (send_client_error dead i m s) = ss_queue s"
  by (simp_all add: send_client_error_def split: option.splits)

lemma deny_frame [simp]:
  "ss_view (deny_control dead i r s) = ss_view s" "ss_controller (deny_control dead i r s) = ss_controller s"
  "ss_deadline (deny_control dead i r s) = ss_deadline s" "ss_queue (deny_control dead i r s) = ss_queue s"
  by (simp_all add: deny_control_def)

lemma set_conn_frame [simp]:
  "ss_view (set_conn n c s) = ss_view s" "ss_controller (set_conn n c s) = ss_controller s"
  "ss_deadline (set_conn n c s) = ss_deadline s" "ss_clients (set_conn n c s) = ss_clients s"
  "ss_queue (set_conn n c s) = ss_queue s"
  by (simp_all add: set_conn_def)

lemma request_view: "request_control g dead now c ft s = Some t \<Longrightarrow> ss_view t = ss_view s"
  by (auto simp: request_control_def Let_def split: if_splits dest: exec_view)

lemma disconnect_view: "disconnect_client g dead now i r s = Some t \<Longrightarrow> ss_view t = ss_view s"
  by (auto simp: disconnect_client_def split: option.splits dest: exec_view)

lemma leave_view: "leave_loop g dead now n c r s = Some t \<Longrightarrow> ss_view t = ss_view s"
  by (auto simp: leave_loop_def dest: exec_view)

lemma expire_view: "expire_control g dead now s = Some t \<Longrightarrow> ss_view t = ss_view s"
  by (auto simp: expire_control_def Let_def bind_eq_Some_conv split: if_splits dest!: exec_view)

lemma broadcast_events_view: "broadcast_events g dead now es s = Some t \<Longrightarrow> ss_view t = ss_view s"
proof (induction es arbitrary: s)
  case (Cons e es)
  then show ?case by (cases e) (auto simp: Let_def bind_eq_Some_conv split: if_splits dest!: exec_view)
qed simp

lemma publish_view: "publish g dead now es s = Some t \<Longrightarrow> ss_view t = ss_view s"
  by (auto simp: publish_def bind_eq_Some_conv dest!: exec_view broadcast_events_view)

lemma hello_view: "ss_view (accept_hello g dead now n addr h s) = ss_view s"
  by (simp add: accept_hello_def register_client_def Let_def)

lemma apply_input_view:
  "apply_input_message g dead now ack_s sc n c p s = Some (t, r) \<Longrightarrow> ss_view t \<noteq> ss_view s \<Longrightarrow> cc_id c = ss_controller s"
  by (auto simp: apply_input_message_def Let_def bind_eq_Some_conv split: if_splits dest: disconnect_view)

lemma handle_view:
  assumes "handle_client_message g dead now ack_s sc n c m s = Some (t, r)" "ss_view t \<noteq> ss_view s"
  shows "cc_id c = ss_controller s \<and> cc_role c \<in> {''controller'', ''admin''} \<and> is_input m"
proof -
  have keep: "keep_open x = Some (t, r) \<Longrightarrow> x = Some t" for x by (auto simp: keep_open_def)
  have same: "ss_view t = ss_view s" if "py_upper (sm_type m) \<notin> {''INPUT'', ''INPUT_EVENT''}"
    using assms(1) that
    by (auto simp: handle_client_message_def Let_def split: if_splits
        dest!: keep request_view exec_view disconnect_view)
  with assms(2) have "is_input m" by (auto simp: is_input_def)
  then have "cc_id c = ss_controller s \<and> cc_role c \<in> {''controller'', ''admin''}"
    using assms by (auto simp: handle_client_message_def is_input_def Let_def split: if_splits dest: apply_input_view)
  with \<open>is_input m\<close> show ?thesis by blast
qed

lemma count_message_role [simp]: "cc_role (count_message now m raw_size c) = cc_role c"
  by (simp add: count_message_def Let_def)

lemma loop_message_view:
  assumes "loop_message g dead now ack_s sc n c m raw_size s = Some t" "ss_view t \<noteq> ss_view s"
  shows "cc_id c = ss_controller s \<and> cc_role c \<in> {''controller'', ''admin''} \<and> is_input m \<and>
    exceeded_kind g (count_message now m raw_size c) = []"
proof -
  let ?c = "count_message now m raw_size c"
  obtain s1 b where s1: "check_rate_limit g dead now n c m raw_size s = (s1, b)" by force
  then have eq: "ss_view s1 = ss_view s" "ss_controller s1 = ss_controller s" "b \<longleftrightarrow> exceeded_kind g ?c = []"
    by (auto simp: check_rate_limit_def Let_def split: if_splits)
  have b: b
  proof (rule ccontr)
    assume "\<not> b"
    with assms s1 eq show False by (auto simp: loop_message_def split: if_splits dest!: leave_view)
  qed
  with assms(1) s1 obtain s2 r where s2: "handle_client_message g dead now ack_s sc n ?c m s1 = Some (s2, r)"
    by (auto simp: loop_message_def Let_def bind_eq_Some_conv)
  with assms(1) s1 b have "ss_view t = ss_view s2"
    by (auto simp: loop_message_def Let_def split: loop_exit.splits dest: leave_view)
  with assms(2) eq have "ss_view s2 \<noteq> ss_view s1" by simp
  from handle_view [OF s2 this] eq b show ?thesis by simp
qed

text \<open>
  C24. Only the console in control steers: if a step of the server changes the shared view, it was an input
  message that passed the rate limit, from a connection whose client holds the control and has the role of a controller
  or an admin. Nothing else, no other message, no publication, no lease check, moves the view.
\<close>

theorem only_controller_steers:
  assumes "session_step g ack_s x e s = Some t" and "ss_view t \<noteq> ss_view s"
  shows "\<exists>n m raw_size c. e = Received n m raw_size \<and> running_conn n s = Some c \<and> is_input m \<and>
    cc_id c = ss_controller s \<and> cc_role c \<in> {''controller'', ''admin''} \<and>
    exceeded_kind g (count_message (sx_now x) m raw_size c) = []"
proof (cases e)
  case (Connect n addr h)
  with assms show ?thesis by (auto simp: session_step_def hello_view split: if_splits)
next
  case (Received n m raw_size)
  with assms obtain c where c: "running_conn n s = Some c"
    "loop_message g (\<lambda>n. n \<in> set (sx_dead x)) (sx_now x) ack_s (sx_scene x) n c m raw_size s = Some t"
    by (auto simp: session_step_def Let_def split: option.splits)
  from loop_message_view [OF c(2) assms(2)] c(1) Received show ?thesis by simp
next
  case (Hang_up n)
  with assms show ?thesis by (auto simp: session_step_def Let_def split: option.splits dest: leave_view)
next
  case Lease_check
  with assms show ?thesis by (auto simp: session_step_def dest: expire_view)
next
  case (Publish es)
  with assms show ?thesis by (auto simp: session_step_def dest: publish_view)
qed

section \<open>The lease protects its holder\<close>

lemma unregister_other:
  "i \<noteq> ss_controller s \<Longrightarrow> exec g dead now (Unregister i r) s = Some (leave_queue i (forget_client i r s))"
  by (subst exec.simps) (subst session_call.case, subst exec.simps, simp)

lemma release_other: "i \<noteq> ss_controller s \<Longrightarrow> exec g dead now (Release i r) s = Some s"
  by (subst exec.simps) simp

definition same_lease :: "server \<Rightarrow> server \<Rightarrow> bool" where
  "same_lease s t \<longleftrightarrow> ss_controller t = ss_controller s \<and> ss_deadline t = ss_deadline s"

lemma same_lease_refl [simp]: "same_lease s s"
  by (simp add: same_lease_def)

lemma lease_disconnect:
  "disconnect_client g dead now i r s = Some t \<Longrightarrow> i \<noteq> ss_controller s \<Longrightarrow> same_lease s t"
  by (auto simp: disconnect_client_def unregister_other same_lease_def split: option.splits)

lemma lease_leave:
  "leave_loop g dead now n c r s = Some t \<Longrightarrow> cc_id c \<noteq> ss_controller s \<Longrightarrow> same_lease s t"
  by (auto simp: leave_loop_def unregister_other same_lease_def)

lemma lease_request:
  "request_control g dead now c None s = Some t \<Longrightarrow> ss_controller s \<noteq> [] \<Longrightarrow> cc_id c \<noteq> ss_controller s \<Longrightarrow>
     now \<le> ss_deadline s \<Longrightarrow> same_lease s t"
  by (auto simp: request_control_def Let_def same_lease_def split: if_splits)

lemma lease_input:
  "apply_input_message g dead now ack_s sc n c p s = Some (t, r) \<Longrightarrow> cc_id c \<noteq> ss_controller s \<Longrightarrow> same_lease s t"
  by (auto simp: apply_input_message_def Let_def bind_eq_Some_conv same_lease_def split: if_splits dest!: lease_disconnect)

lemma lease_handle:
  assumes "handle_client_message g dead now ack_s sc n c m s = Some (t, r)"
    and "ss_controller s \<noteq> []" "cc_id c \<noteq> ss_controller s" "cc_role c \<noteq> ''admin''" "now \<le> ss_deadline s"
  shows "same_lease s t"
proof -
  have keep: "keep_open x = Some (t, r) \<Longrightarrow> x = Some t" for x by (auto simp: keep_open_def)
  have refl: "same_lease s s" by (simp add: same_lease_def)
  show ?thesis
    using assms refl lease_request [of g dead now c s t] lease_input [of g dead now ack_s sc n c "sm_input m" s t r]
    by (auto simp: handle_client_message_def Let_def release_other same_lease_def split: if_splits dest!: keep)
qed

lemma lease_received:
  assumes "loop_message g dead now ack_s sc n c m raw_size s = Some t"
    and "ss_controller s \<noteq> []" "cc_id c \<noteq> ss_controller s" "cc_role c \<noteq> ''admin''" "now \<le> ss_deadline s"
  shows "same_lease s t"
proof -
  let ?c = "count_message now m raw_size c"
  obtain s1 b where s1: "check_rate_limit g dead now n c m raw_size s = (s1, b)" by force
  then have eq: "ss_controller s1 = ss_controller s" "ss_deadline s1 = ss_deadline s"
    by (auto simp: check_rate_limit_def Let_def split: if_splits)
  have "same_lease s1 t"
  proof (cases b)
    case False
    with assms(1,3) s1 eq lease_leave [of g dead now n ?c _ s1 t] show ?thesis
      by (auto simp: loop_message_def same_lease_def split: if_splits)
  next
    case True
    with assms(1) s1 obtain s2 r where s2: "handle_client_message g dead now ack_s sc n ?c m s1 = Some (s2, r)"
      by (auto simp: loop_message_def Let_def bind_eq_Some_conv)
    have l2: "same_lease s1 s2" by (rule lease_handle [OF s2]) (use assms eq in simp_all)
    then have "cc_id ?c \<noteq> ss_controller s2" using assms(3) eq by (simp add: same_lease_def)
    with assms(1) s1 True s2 l2 lease_leave [of g dead now n ?c _ s2 t] show ?thesis
      by (auto simp: loop_message_def Let_def same_lease_def split: loop_exit.splits)
  qed
  with eq show ?thesis by (simp add: same_lease_def)
qed

text \<open>A broadcast unregisters the consoles it does not reach; a holder it reaches keeps the lease.\<close>

definition keeps_holder :: "server \<Rightarrow> server \<Rightarrow> bool" where
  "keeps_holder s t \<longleftrightarrow> same_lease s t \<and> set (ss_clients t) \<subseteq> set (ss_clients s)"

lemma keeps_holder_trans: "keeps_holder s t \<Longrightarrow> keeps_holder t u \<Longrightarrow> keeps_holder s u"
  by (auto simp: keeps_holder_def same_lease_def)

lemma keeps_holder_reached:
  "keeps_holder s t \<Longrightarrow> ss_controller s \<notin> set (unreached dead s) \<Longrightarrow> ss_controller t \<notin> set (unreached dead t)"
  by (auto simp: keeps_holder_def same_lease_def unreached_def)

lemma unregister_all_lease:
  "exec g dead now (Unregister_all is) s = Some t \<Longrightarrow> ss_controller s \<notin> set is \<Longrightarrow> keeps_holder s t"
proof (induction "is" arbitrary: s)
  case Nil
  then show ?case by (subst (asm) exec.simps) (simp add: keeps_holder_def same_lease_def)
next
  case (Cons i "is")
  let ?s = "leave_queue i (forget_client i ''CLIENT_DISCONNECTED'' s)"
  have "i \<noteq> ss_controller s" using Cons.prems(2) by auto
  with Cons.prems(1) have "exec g dead now (Unregister_all is) ?s = Some t"
    by (subst (asm) exec.simps) (simp add: unregister_other)
  from Cons.IH [OF this] Cons.prems(2) have "keeps_holder ?s t" by simp
  moreover have "keeps_holder s ?s" using forget_clients by (simp add: keeps_holder_def same_lease_def)
  ultimately show ?case by (blast intro: keeps_holder_trans)
qed

lemma broadcast_lease:
  assumes "exec g dead now (Broadcast m) s = Some t" "ss_controller s \<notin> set (unreached dead s)"
  shows "keeps_holder s t"
proof -
  from assms(1) have "exec g dead now (Unregister_all (unreached dead s)) (deliver dead m s) = Some t"
    by (subst (asm) exec.simps) simp
  from unregister_all_lease [OF this] assms(2) show ?thesis by (simp add: keeps_holder_def same_lease_def)
qed

lemma broadcast_events_lease:
  "broadcast_events g dead now es s = Some t \<Longrightarrow> ss_controller s \<notin> set (unreached dead s) \<Longrightarrow> keeps_holder s t"
proof (induction es arbitrary: s)
  case Nil
  then show ?case by (simp add: keeps_holder_def same_lease_def)
next
  case (Cons e es)
  obtain sub ev where e: "e = (sub, ev)" by force
  show ?case
  proof (cases "sub \<notin> set ALLOWED_SUBSYSTEMS \<or> ev \<in> set (ss_seen_set s)")
    case True
    with Cons show ?thesis by (simp add: e)
  next
    case False
    let ?q = "note_seen SEEN_MAXLEN ev (ss_seen s, ss_seen_set s)"
    let ?s = "s\<lparr>ss_seen := fst ?q, ss_seen_set := snd ?q\<rparr>"
    from False Cons.prems(1) obtain s1 where s1: "exec g dead now (Broadcast (M_event ev)) ?s = Some s1"
      "broadcast_events g dead now es s1 = Some t" by (auto simp: e Let_def bind_eq_Some_conv)
    have reach: "ss_controller ?s \<notin> set (unreached dead ?s)" using Cons.prems(2) by (simp add: unreached_def)
    from broadcast_lease [OF s1(1) reach] have k: "keeps_holder ?s s1" .
    from Cons.IH [OF s1(2) keeps_holder_reached [OF k reach]] k show ?thesis
      by (auto simp: keeps_holder_def same_lease_def)
  qed
qed

lemma publish_lease:
  assumes "publish g dead now es s = Some t" "ss_controller s \<notin> set (unreached dead s)"
  shows "same_lease s t"
proof -
  from assms(1) obtain s1 where s1: "broadcast_events g dead now es s = Some s1"
    "exec g dead now (Broadcast (snapshot_message now s1)) s1 = Some t" by (auto simp: publish_def bind_eq_Some_conv)
  from broadcast_events_lease [OF s1(1) assms(2)] have k: "keeps_holder s s1" .
  from keeps_holder_trans [OF k broadcast_lease [OF s1(2) keeps_holder_reached [OF k assms(2)]]] show ?thesis
    by (simp add: keeps_holder_def)
qed

lemma hello_lease: "same_lease s (accept_hello g dead now n addr h s)"
  by (simp add: same_lease_def accept_hello_def register_client_def Let_def)

text \<open>
  A step before the deadline that is not the holder's own and not an admin's: any connection, any message or loss of
  another console, the check of the lease, a publication that reaches the holder.
\<close>

definition undisturbed :: "step_env \<Rightarrow> session_step \<Rightarrow> server \<Rightarrow> bool" where
  "undisturbed x e s \<longleftrightarrow>
     sx_now x \<le> ss_deadline s \<and>
     (case e of
        Connect n addr h \<Rightarrow> True
      | Received n m raw_size \<Rightarrow>
          (case running_conn n s of None \<Rightarrow> True | Some c \<Rightarrow> cc_id c \<noteq> ss_controller s \<and> cc_role c \<noteq> ''admin'')
      | Hang_up n \<Rightarrow> (case running_conn n s of None \<Rightarrow> True | Some c \<Rightarrow> cc_id c \<noteq> ss_controller s)
      | Lease_check \<Rightarrow> True
      | Publish es \<Rightarrow> ss_controller s \<notin> set (unreached (\<lambda>n. n \<in> set (sx_dead x)) s))"

fun undisturbed_run :: "session_config \<Rightarrow> real \<Rightarrow> server \<Rightarrow> (step_env \<times> session_step) list \<Rightarrow> bool" where
  "undisturbed_run g ack_s s [] \<longleftrightarrow> True"
| "undisturbed_run g ack_s s ((x, e) # es) \<longleftrightarrow>
     undisturbed x e s \<and>
     (case session_step g ack_s x e s of None \<Rightarrow> False | Some s1 \<Rightarrow> undisturbed_run g ack_s s1 es)"

lemma step_lease:
  assumes "session_step g ack_s x e s = Some t" "ss_controller s \<noteq> []" "undisturbed x e s"
  shows "same_lease s t"
proof (cases e)
  case (Connect n addr h)
  with assms show ?thesis using hello_lease by (auto simp: session_step_def same_lease_def split: if_splits)
next
  case (Received n m raw_size)
  with assms show ?thesis
    by (auto simp: session_step_def undisturbed_def Let_def split: option.splits dest: lease_received)
next
  case (Hang_up n)
  with assms show ?thesis
    by (auto simp: session_step_def undisturbed_def Let_def split: option.splits dest: lease_leave)
next
  case Lease_check
  with assms show ?thesis
    by (simp add: session_step_def undisturbed_def expire_control_def same_lease_def)
next
  case (Publish es)
  with assms show ?thesis by (auto simp: session_step_def undisturbed_def dest: publish_lease)
qed

text \<open>
  C25. While a lease runs, nothing but its holder, an admin or the loss of the holder's connection ends, shortens or
  prolongs it: through any run of steps before the deadline, of new connections, of messages and departures of the other
  consoles, of lease checks and of publications that reach the holder, the same client stays in control under the same
  deadline. Requests of others are queued or refused, their releases and heartbeats have no effect, and the lease thread
  takes nothing before its time.
\<close>

theorem lease_protects_holder:
  assumes "ss_controller s \<noteq> []" and "undisturbed_run g ack_s s es" and "session_run g ack_s s es = Some t"
  shows "ss_controller t = ss_controller s \<and> ss_deadline t = ss_deadline s"
  using assms
proof (induction es arbitrary: s)
  case (Cons e es)
  obtain x st where e: "e = (x, st)" by force
  with Cons.prems obtain s1 where s1: "session_step g ack_s x st s = Some s1" "session_run g ack_s s1 es = Some t"
    "undisturbed_run g ack_s s1 es" "undisturbed x st s" by (auto simp: bind_eq_Some_conv)
  from step_lease [OF s1(1) Cons.prems(1) s1(4)] Cons.IH [OF _ s1(3,2)] Cons.prems(1) show ?case
    by (simp add: same_lease_def)
qed simp

section \<open>Rate limits\<close>

text \<open>The messages of a connection that pass the limit in a run and so reach their handler, each with its size.\<close>

definition served_now ::
  "session_config \<Rightarrow> nat \<Rightarrow> step_env \<Rightarrow> session_step \<Rightarrow> server \<Rightarrow> (session_message \<times> int) list" where
  "served_now g n x e s =
     (case e of
        Received k m raw_size \<Rightarrow>
          (case running_conn k s of
             None \<Rightarrow> []
           | Some c \<Rightarrow>
               if k = n \<and> snd (check_rate_limit g (\<lambda>n. n \<in> set (sx_dead x)) (sx_now x) k c m raw_size s)
               then [(m, raw_size)] else [])
      | _ \<Rightarrow> [])"

fun served ::
  "session_config \<Rightarrow> real \<Rightarrow> nat \<Rightarrow> server \<Rightarrow> (step_env \<times> session_step) list \<Rightarrow> (session_message \<times> int) list" where
  "served g ack_s n s [] = []"
| "served g ack_s n s ((x, e) # es) =
     served_now g n x e s @ (case session_step g ack_s x e s of None \<Rightarrow> [] | Some s1 \<Rightarrow> served g ack_s n s1 es)"

lemma exceeded_kind_none:
  "exceeded_kind g c = [] \<longleftrightarrow> cc_msgs c \<le> sg_max_msgs g \<and> cc_inputs c \<le> sg_max_inputs g \<and> cc_bytes c \<le> sg_max_bytes g"
  by (simp add: exceeded_kind_def not_less)

text \<open>The counters of a connection after a step.\<close>

definition counters :: "client_conn \<Rightarrow> real \<times> int \<times> int \<times> int" where
  "counters c = (cc_window c, cc_msgs c, cc_inputs c, cc_bytes c)"

definition counts :: "nat \<Rightarrow> server \<Rightarrow> (real \<times> int \<times> int \<times> int) option" where
  "counts n s = map_option counters (dict_get (ss_conns s) n)"

lemma counts_frame [simp]:
  "counts n (emit t i r s) = counts n s" "counts n (send dead k m s) = counts n s"
  "counts n (s\<lparr>ss_view := v\<rparr>) = counts n s" "counts n (s\<lparr>ss_deadline := d\<rparr>) = counts n s"
  "counts n (s\<lparr>ss_loops := ls\<rparr>) = counts n s" "counts n (s\<lparr>ss_banned := b\<rparr>) = counts n s"
  "counts n (s\<lparr>ss_queue := q\<rparr>) = counts n s" "counts n (s\<lparr>ss_clients := cs\<rparr>) = counts n s"
  "counts n (s\<lparr>ss_clients := cs, ss_loops := ls\<rparr>) = counts n s"
  "counts n (s\<lparr>ss_seen := a, ss_seen_set := b'\<rparr>) = counts n s"
  "counts n (clear_control s) = counts n s" "counts n (give_control g now i s) = counts n s"
  by (simp_all add: counts_def emit_def clear_control_def give_control_def)

lemma counts_client_error [simp]: "counts n (send_client_error dead i m s) = counts n s"
  by (simp add: send_client_error_def split: option.splits)

lemma counts_deny [simp]: "counts n (deny_control dead i r s) = counts n s"
  by (simp add: deny_control_def)

lemma counts_set_conn [simp]: "counts n (set_conn k c s) = (if k = n then Some (counters c) else counts n s)"
  by (simp add: counts_def set_conn_def)

lemma exec_counts: "exec g dead now call s = Some t \<Longrightarrow> counts n t = counts n s"
  by (auto dest: exec_untouched simp: untouched_def counts_def)

lemma request_counts: "request_control g dead now c ft s = Some t \<Longrightarrow> counts n t = counts n s"
  by (auto simp: request_control_def Let_def split: if_splits dest: exec_counts)

lemma disconnect_counts: "disconnect_client g dead now i r s = Some t \<Longrightarrow> counts n t = counts n s"
  by (auto simp: disconnect_client_def split: option.splits dest: exec_counts)

lemma leave_counts: "leave_loop g dead now k c r s = Some t \<Longrightarrow> counts n t = counts n s"
  by (auto simp: leave_loop_def dest: exec_counts)

lemma expire_counts: "expire_control g dead now s = Some t \<Longrightarrow> counts n t = counts n s"
  by (auto simp: expire_control_def Let_def bind_eq_Some_conv split: if_splits dest!: exec_counts [where n = n])

lemma broadcast_events_counts: "broadcast_events g dead now es s = Some t \<Longrightarrow> counts n t = counts n s"
proof (induction es arbitrary: s)
  case (Cons e es)
  then show ?case by (cases e) (auto simp: Let_def bind_eq_Some_conv split: if_splits dest!: exec_counts [where n = n])
qed simp

lemma publish_counts: "publish g dead now es s = Some t \<Longrightarrow> counts n t = counts n s"
  by (auto simp: publish_def bind_eq_Some_conv dest!: exec_counts [where n = n] broadcast_events_counts [where n = n])

lemma hello_counts: "k \<noteq> n \<Longrightarrow> counts n (accept_hello g dead now k addr h s) = counts n s"
  by (simp add: accept_hello_def register_client_def Let_def)

lemma counters_violations [simp]: "counters (c\<lparr>cc_violations := v\<rparr>) = counters c"
  by (simp add: counters_def)

lemma input_counts:
  "apply_input_message g dead now ack_s sc k c p s = Some (t, r) \<Longrightarrow> counts k s = Some (counters c) \<Longrightarrow>
     counts n t = counts n s"
  by (auto simp: apply_input_message_def Let_def bind_eq_Some_conv split: if_splits input_effect.splits
      dest!: disconnect_counts [where n = n])

lemma handle_counts:
  assumes "handle_client_message g dead now ack_s sc k c m s = Some (t, r)" "counts k s = Some (counters c)"
  shows "counts n t = counts n s"
proof -
  have keep: "keep_open x = Some (t, r) \<Longrightarrow> x = Some t" for x by (auto simp: keep_open_def)
  show ?thesis using assms
    by (auto simp: handle_client_message_def Let_def split: if_splits
        dest!: keep request_counts [where n = n] exec_counts [where n = n] disconnect_counts [where n = n]
        input_counts [where n = n])
qed

lemma loop_message_counts:
  assumes "loop_message g dead now ack_s sc k c m raw_size s = Some t"
  shows "counts n t = (if k = n then Some (counters (count_message now m raw_size c)) else counts n s)"
proof -
  let ?c = "count_message now m raw_size c"
  obtain s1 b where s1: "check_rate_limit g dead now k c m raw_size s = (s1, b)" by force
  then have c1: "counts j s1 = (if k = j then Some (counters ?c) else counts j s)" for j
    by (auto simp: check_rate_limit_def Let_def split: if_splits)
  show ?thesis
  proof (cases b)
    case False
    with assms s1 c1 [of n] show ?thesis by (auto simp: loop_message_def split: if_splits dest!: leave_counts [where n = n])
  next
    case True
    with assms s1 obtain s2 r where s2: "handle_client_message g dead now ack_s sc k ?c m s1 = Some (s2, r)"
      by (auto simp: loop_message_def Let_def bind_eq_Some_conv)
    have "counts n s2 = counts n s1" by (rule handle_counts [OF s2]) (simp add: c1)
    with assms s1 True s2 c1 [of n] show ?thesis
      by (auto simp: loop_message_def Let_def split: loop_exit.splits dest!: leave_counts [where n = n])
  qed
qed

text \<open>What a step serves of a connection, and its counters afterwards.\<close>

lemma step_served:
  assumes "dict_get (ss_conns s) n = Some c" "session_step g ack_s x e s = Some t"
  shows "served_now g n x e s = [] \<and> counts n t = counts n s \<or>
    (\<exists>m k. counts n t = Some (counters (count_message (sx_now x) m k c)) \<and>
       served_now g n x e s = (if exceeded_kind g (count_message (sx_now x) m k c) = [] then [(m, k)] else []))"
proof (cases e)
  case (Connect k addr h)
  have "n \<in> fst ` set (ss_conns s)" using assms(1) by (force dest: map_of_SomeD)
  then have "counts n t = counts n s"
    using Connect assms(2) hello_counts [of k n] by (cases "k = n") (auto simp: session_step_def split: if_splits)
  with Connect show ?thesis by (simp add: served_now_def)
next
  case (Received k m raw_size)
  show ?thesis
  proof (cases "running_conn k s")
    case None
    with Received assms show ?thesis by (simp add: session_step_def served_now_def)
  next
    case (Some d)
    have "d = c" if "k = n" using that Some assms(1) by (simp add: running_conn_def split: if_splits)
    moreover have "counts n t = (if k = n then Some (counters (count_message (sx_now x) m raw_size d)) else counts n s)"
      using Some Received assms(2) loop_message_counts by (fastforce simp: session_step_def Let_def)
    moreover have "served_now g n x e s = (if k = n \<and> exceeded_kind g (count_message (sx_now x) m raw_size d) = [] then [(m, raw_size)] else [])"
      using Some Received by (simp add: served_now_def check_rate_limit_def Let_def)
    ultimately show ?thesis by (cases "k = n") auto
  qed
next
  case (Hang_up k)
  with assms show ?thesis
    by (auto simp: session_step_def served_now_def Let_def split: option.splits dest: leave_counts)
next
  case Lease_check
  with assms show ?thesis by (auto simp: session_step_def served_now_def dest: expire_counts)
next
  case (Publish es)
  with assms show ?thesis by (auto simp: session_step_def served_now_def dest: publish_counts)
qed

lemma count_message_in_window:
  assumes "now - cc_window c < 1"
  shows "counters (count_message now m k c) =
    (cc_window c, cc_msgs c + 1, cc_inputs c + (if is_input m then 1 else 0), cc_bytes c + max 0 k)"
  using assms by (simp add: count_message_def counters_def Let_def)

lemma served_now_bounds:
  assumes "dict_get (ss_conns s) n = Some c" "sx_now x - cc_window c < 1"
  shows "int (length (served_now g n x e s)) \<le> max 0 (sg_max_msgs g - cc_msgs c) \<and>
    int (length (filter (is_input \<circ> fst) (served_now g n x e s))) \<le> max 0 (sg_max_inputs g - cc_inputs c) \<and>
    sum_list (map (max 0 \<circ> snd) (served_now g n x e s)) \<le> max 0 (sg_max_bytes g - cc_bytes c)"
proof -
  have "served_now g n x e s = [] \<or>
    (\<exists>m k. served_now g n x e s = [(m, k)] \<and> exceeded_kind g (count_message (sx_now x) m k c) = [])"
    using assms(1) by (cases e) (auto simp: served_now_def running_conn_def check_rate_limit_def Let_def split: option.splits if_splits)
  then show ?thesis
  proof (elim disjE exE conjE)
    fix m k
    assume *: "served_now g n x e s = [(m, k)]" "exceeded_kind g (count_message (sx_now x) m k c) = []"
    have "counters (count_message (sx_now x) m k c) =
        (cc_window c, cc_msgs c + 1, cc_inputs c + (if is_input m then 1 else 0), cc_bytes c + max 0 k)"
      by (rule count_message_in_window [OF assms(2)])
    with * show ?thesis by (auto simp: exceeded_kind_none counters_def split: if_splits)
  qed simp
qed

definition in_window :: "client_conn \<Rightarrow> step_env \<times> session_step \<Rightarrow> bool" where
  "in_window c e \<longleftrightarrow> sx_now (fst e) - cc_window c < 1"


section \<open>The end of a lease\<close>

lemma broadcast_alive: "exec g (\<lambda>n. False) now (Broadcast m) s = Some (deliver (\<lambda>n. False) m s)"
  by (subst exec.simps) (simp add: unreached_def, subst exec.simps, simp)

lemma find_first: "list_all (\<lambda>j. \<not> P j) xs \<Longrightarrow> P i \<Longrightarrow> find P (xs @ i # ys) = Some i"
  by (induction xs) auto

text \<open>
  C27. A lease without a heartbeat ends: the check after its deadline takes the control from its holder, and under
  the queue policy hands it for a full lease to the first in the queue who is still connected. But everybody behind
  this one is dropped from the queue as well: the queue is empty afterwards.
\<close>

theorem expired_lease_moves_on:
  assumes "sg_policy g = ''queue''" and "ss_controller s \<noteq> []" and "sx_now x > ss_deadline s" and "sx_dead x = []"
    and "ss_queue s = gone @ i # waiting"
    and "list_all (\<lambda>j. dict_get (ss_clients s) j = None) gone" and "dict_get (ss_clients s) i = Some n"
  shows "\<exists>t. session_step g ack_s x Lease_check s = Some t \<and> ss_controller t = i \<and>
    ss_deadline t = sx_now x + lease_s g \<and> ss_queue t = []"
proof -
  let ?a = "\<lambda>n::nat. False"
  let ?e = "deliver ?a (M_expired (ss_controller s)) (emit ''CONTROL_EXPIRED'' (ss_controller s) ''HEARTBEAT_TIMEOUT'' (clear_control s))"
  have mem: "(\<lambda>j. j \<in> fst ` set (ss_clients s)) = (\<lambda>j. dict_get (ss_clients s) j \<noteq> None)"
    by (auto simp: map_of_eq_None_iff fun_eq_iff)
  have q: "ss_queue ?e = gone @ i # waiting" "ss_clients ?e = ss_clients s" "ss_controller ?e = []"
    using assms(5) by (simp_all add: clear_control_def)
  have found: "find (\<lambda>j. j \<in> fst ` set (ss_clients s)) (gone @ i # waiting) = Some i"
    unfolding mem by (rule find_first) (use assms(6,7) in simp_all)
  have "exec g ?a (sx_now x) Grant_next ?e =
      Some (deliver ?a (M_granted i)
        (emit ''CONTROL_GRANTED'' i ''QUEUE_GRANTED'' (give_control g (sx_now x) i (?e\<lparr>ss_queue := []\<rparr>))))"
    by (subst exec.simps) (simp add: q found assms(1) broadcast_alive del: deliver_frame)
  then have "expire_control g ?a (sx_now x) s =
      Some (deliver ?a (M_granted i)
        (emit ''CONTROL_GRANTED'' i ''QUEUE_GRANTED'' (give_control g (sx_now x) i (?e\<lparr>ss_queue := []\<rparr>))))"
    using assms(2,3) by (simp add: expire_control_def Let_def broadcast_alive)
  then show ?thesis using assms(4) by (simp add: session_step_def Let_def give_control_def)
qed

section \<open>Instances\<close>

definition example_session_config :: session_config where
  "example_session_config =
     \<lparr>sg_strict = False, sg_auth = False, sg_token = [], sg_roles = [''viewer'', ''controller'', ''admin''],
      sg_default_role = ''viewer'', sg_policy = ''queue'', sg_lease_ms = 5000, sg_max_msgs = 200, sg_max_inputs = 50,
      sg_max_bytes = 1048576, sg_max_violations = 3\<rparr>"

definition example_server :: server where
  "example_server =
     (new_server default_view)\<lparr>
        ss_conns := [(0, new_conn ''a'' ''controller'' ''h:0''), (1, new_conn ''b'' ''controller'' ''h:1''),
                     (2, new_conn ''c'' ''controller'' ''h:2'')],
        ss_loops := [0, 1, 2], ss_clients := [(''a'', 0), (''b'', 1), (''c'', 2)],
        ss_controller := ''a'', ss_deadline := 10, ss_queue := [''x'', ''b'', ''c'']\<rparr>"

definition example_env :: "real \<Rightarrow> step_env" where
  "example_env now = \<lparr>sx_now = now, sx_dead = [], sx_scene = None\<rparr>"

definition example_message :: "string \<Rightarrow> session_message" where
  "example_message t =
     \<lparr>sm_type = t, sm_target = [],
      sm_input = \<lparr>ip_kind = ''wheel'', ip_key = [], ip_delta = Some 1, ip_dx = None, ip_dy = None, ip_x = None, ip_y = None\<rparr>\<rparr>"

lemmas session_examples = example_session_config_def example_server_def example_env_def example_message_def
  new_server_def new_conn_def

lemma upper_names:
  "py_upper ''INPUT'' = ''INPUT''" "py_upper ''CONTROL_REQUEST'' = ''CONTROL_REQUEST''" "py_lower ''wheel'' = ''wheel''"
  "py_upper ''HELLO'' = ''HELLO''" "py_upper ''HEARTBEAT'' = ''HEARTBEAT''"
  by code_simp+

lemma example_exceeded: "exceeded_kind example_session_config (count_message now (example_message t) 100 (new_conn i r a)) = []"
  by (simp add: exceeded_kind_none count_message_def session_examples Let_def)

lemma only_controller_steers_witness:
  "\<exists>t. session_step example_session_config 0 (example_env 1) (Received 0 (example_message ''INPUT'') 100) example_server = Some t \<and>
     ss_view t \<noteq> ss_view example_server \<and>
     (\<exists>n m raw_size c. Received 0 (example_message ''INPUT'') 100 = Received n m raw_size \<and>
        running_conn n example_server = Some c \<and> is_input m \<and> cc_id c = ss_controller example_server \<and>
        cc_role c \<in> {''controller'', ''admin''} \<and>
        exceeded_kind example_session_config (count_message (sx_now (example_env 1)) m raw_size c) = [])"
proof -
  let ?e = "Received 0 (example_message ''INPUT'') 100"
  obtain t where t: "session_step example_session_config 0 (example_env 1) ?e example_server = Some t"
    using step_ends [of example_server example_session_config 0 "example_env 1" ?e]
    by (auto simp: ends_ok_def session_ok_def named_def client_ids_def conn_names_def session_examples)
  have c: "running_conn 0 example_server = Some (new_conn ''a'' ''controller'' ''h:0'')"
    by (simp add: running_conn_def session_examples)
  have wheel: "apply_input_message g dead now 0 sc n c (sm_input (example_message ''INPUT'')) s =
      Some ((set_conn n (c\<lparr>cc_violations := 0\<rparr>) s)\<lparr>ss_view := (ss_view s)\<lparr>vs_zoom := min 6 (vs_zoom (ss_view s) + 15 / 100)\<rparr>\<rparr>,
            Keep_open)"
    if "cc_id c = ss_controller s" for g dead now sc n c s
    using that by (simp add: apply_input_message_def input_effect_def example_message_def upper_names handle_mouse_def
        mouse_def apply_action_def act_def Let_def)
  have handle: "handle_client_message g dead now 0 sc n c (example_message ''INPUT'') s =
      apply_input_message g dead now 0 sc n c (sm_input (example_message ''INPUT'')) s"
    if "cc_role c = ''controller''" for g dead now sc n c s
    using that by (simp add: handle_client_message_def example_message_def upper_names Let_def)
  have start: "ss_controller example_server = ''a''" "vs_zoom (ss_view example_server) = 1"
    by (simp_all add: example_server_def new_server_def default_view_def)
  have "vs_zoom (ss_view t) = min 6 (1 + 15 / 100)"
    using t example_exceeded [of 1 "''INPUT''" "''a''" "''controller''" "''h:0''"]
    by (auto simp: session_step_def c loop_message_def check_rate_limit_def handle wheel start example_env_def Let_def
        new_conn_def)
  then have zoom: "vs_zoom (ss_view t) \<noteq> vs_zoom (ss_view example_server)" using start by simp
  then have "ss_view t \<noteq> ss_view example_server" by auto
  from only_controller_steers [OF t this] t this show ?thesis by blast
qed

text \<open>Before its deadline the lease is checked, another console asks for the control and leaves.\<close>

definition example_lease_run :: "(step_env \<times> session_step) list" where
  "example_lease_run =
     [(example_env 9, Lease_check), (example_env 9, Received 1 (example_message ''CONTROL_REQUEST'') 100), (example_env 10, Hang_up 1)]"

lemma lease_protects_holder_witness:
  "undisturbed_run example_session_config 0 example_server example_lease_run \<and>
   (\<exists>t. session_run example_session_config 0 example_server example_lease_run = Some t \<and> ss_controller t = ''a'' \<and> ss_deadline t = 10)"
proof -
  have ok: "session_ok example_server"
    by (auto simp: session_ok_def named_def client_ids_def conn_names_def session_examples)
  obtain t where t: "session_run example_session_config 0 example_server example_lease_run = Some t"
    using run_ends [OF ok, of example_session_config 0 example_lease_run] by (auto simp: ends_ok_def)
  have c: "running_conn 1 example_server = Some (new_conn ''b'' ''controller'' ''h:1'')"
    by (simp add: running_conn_def session_examples)
  have "exceeded_kind example_session_config (count_message 9 (example_message ''CONTROL_REQUEST'') 100
      (new_conn ''b'' ''controller'' ''h:1'')) = []" by (rule example_exceeded)
  then obtain t1 c1 where t1: "session_step example_session_config 0 (example_env 9)
      (Received 1 (example_message ''CONTROL_REQUEST'') 100) example_server = Some t1"
    "running_conn 1 t1 = Some c1" "cc_id c1 = ''b''" "ss_controller t1 = ''a''" "ss_deadline t1 = 10"
    using c
    by (simp add: session_step_def loop_message_def check_rate_limit_def handle_client_message_def request_control_def
        keep_open_def deny_control_def send_client_error_def send_def emit_def running_conn_def set_conn_def upper_names
        session_examples Let_def)
  then have quiet: "undisturbed_run example_session_config 0 example_server example_lease_run"
    using c run_ends [OF ok, of example_session_config 0 example_lease_run]
    by (auto simp: example_lease_run_def undisturbed_def session_step_def [of _ _ _ Lease_check] expire_control_def
        ends_ok_def bind_eq_Some_conv session_examples)
  show ?thesis using lease_protects_holder [OF _ quiet t] quiet t by (simp add: session_examples)
qed

text \<open>Of three heartbeats within a second, under a limit of two messages, the first two are served.\<close>

definition example_tight_config :: session_config where
  "example_tight_config = example_session_config\<lparr>sg_max_msgs := 2\<rparr>"

definition example_flood :: "(step_env \<times> session_step) list" where
  "example_flood =
     map (\<lambda>now. (example_env now, Received 0 (example_message ''HEARTBEAT'') 40)) [1 / 10, 2 / 10, 3 / 10]"


lemma expired_lease_moves_on_witness:
  "\<exists>t. session_step example_session_config 0 (example_env 11) Lease_check example_server = Some t \<and> ss_controller t = ''b'' \<and>
     ss_deadline t = 16 \<and> ss_queue t = []"
  using expired_lease_moves_on [of example_session_config example_server "example_env 11" "[''x'']" "''b''" "[''c'']" 1 0]
  by (simp add: session_examples lease_s_def)

text \<open>
  A console that connects again under its identifier replaces the entry of its first connection; when the first
  connection then ends, the second one's client is removed, though its loop still runs.
\<close>

definition example_hello :: "string \<Rightarrow> hello" where
  "example_hello i = \<lparr>he_type = ''HELLO'', he_client = i, he_token = [], he_role = ''viewer''\<rparr>"

lemma reconnect_is_forgotten:
  "\<exists>t. session_run example_session_config 0 (new_server default_view)
         [(example_env 0, Connect 0 ''h:0'' (example_hello ''a'')), (example_env 1, Connect 1 ''h:1'' (example_hello ''a'')),
          (example_env 2, Hang_up 0)] = Some t \<and> ss_clients t = [] \<and> ss_loops t = [1]"
proof -
  have strip: "py_strip ''a'' = ''a''" "py_strip [] = []" "py_lower (py_strip ''viewer'') = ''viewer''" by code_simp+
  show ?thesis
    by (simp add: session_step_def accept_hello_def register_client_def example_hello_def strip upper_names or_default_def
        session_examples set_conn_def send_def emit_def running_conn_def leave_loop_def unregister_other leave_queue_def
        forget_client_def Let_def)
qed

end
