(* ===== verification/Body_Structure.thy ===== *)
theory Body_Structure
  imports Event_Store
begin

text \<open>
  The body and the attachment of modules (\<open>src/qiki/services/q_core_agent/core/body_structure.py\<close>,
  \<open>evidence_card_id.py\<close>): the faces with their occupants and mount classes, the ordered guards of a registration,
  the audit event each outcome writes and the projection of a decision to the command life cycle. The audit sinks are
  the adapters over the event store; \<open>append_new\<close> returns \<open>None\<close> when the store is disabled, and the
  \<open>.event_id\<close> read from it then raises. Values are immutable here, so the copies that keep snapshots apart are
  the identity.
\<close>

section \<open>Data\<close>

definition KNOWN_ALLOWED :: "string list" where
  "KNOWN_ALLOWED = [''sensor'', ''antenna'', ''science'']"

definition KNOWN_FORBIDDEN :: "string list" where
  "KNOWN_FORBIDDEN = [''reactor-class'', ''heavy-power'', ''rcs-cluster'']"

definition KNOWN_MOUNT_CLASSES :: "string list" where
  "KNOWN_MOUNT_CLASSES = KNOWN_ALLOWED @ KNOWN_FORBIDDEN"

definition SOURCE_OWNER :: string where
  "SOURCE_OWNER = ''q_core_agent.core.body_structure.attach_policy''"

definition PASSPORT_VALIDATOR_OWNER :: string where
  "PASSPORT_VALIDATOR_OWNER = ''q_core_agent.core.body_structure.passport_validator''"

definition FACE_IDS :: "string list" where
  "FACE_IDS = [''F00'', ''F01'', ''F02'', ''F03'', ''F04'', ''F05'', ''F06'', ''F07'', ''F08'', ''F09'', ''F10'', ''F11'']"

record mount_rules =
  mr_allowed :: "string list"
  mr_forbidden :: "string list"

record module_entry =
  me_module :: string
  me_mount :: string
  me_status :: string
  me_passport :: string
  me_capability :: string

record body_config =
  bc_faces :: "string list"
  bc_map_status :: string
  bc_bayonets :: "(string, string) dict"
  bc_occupancy :: "(string, string) dict"
  bc_modules :: "module_entry list"
  bc_classes :: "(string, mount_rules) dict"

definition skeleton :: body_config where
  "skeleton =
     \<lparr>bc_faces = FACE_IDS, bc_map_status = ''skeleton'',
      bc_bayonets = [(''bayonet_A'', ''unknown''), (''bayonet_B'', ''unknown'')],
      bc_occupancy = map (\<lambda>f. (f, ''free'')) FACE_IDS, bc_modules = [],
      bc_classes = map (\<lambda>f. (f, \<lparr>mr_allowed = KNOWN_ALLOWED, mr_forbidden = KNOWN_FORBIDDEN\<rparr>)) FACE_IDS\<rparr>"

record module_passport =
  mp_module :: string
  mp_class :: string
  mp_mount :: string
  mp_capabilities :: "string list"

record attach_request =
  ar_request :: string
  ar_module :: string
  ar_mount :: string
  ar_passport :: "module_passport option"

datatype body_error = Attribute_error | Type_error | Value_error string | Audit_error event_error

definition has_required_shape :: "module_passport option \<Rightarrow> bool" where
  "has_required_shape p =
     (case p of None \<Rightarrow> False
      | Some p' \<Rightarrow> py_strip (mp_module p') \<noteq> [] \<and> py_strip (mp_class p') \<noteq> [] \<and> py_strip (mp_mount p') \<noteq> [])"

section \<open>The audit events\<close>

definition if_audit_aliases ::
  "string \<Rightarrow> string \<Rightarrow> string option \<Rightarrow> string \<Rightarrow> string \<Rightarrow> string \<Rightarrow> string \<Rightarrow> bool \<Rightarrow> payload" where
  "if_audit_aliases source command_id reason_code previous_state new_state effect_state severity blackbox =
     [(''source'', JStr source), (''command_id'', JStr command_id), (''previous_state'', JStr previous_state),
      (''new_state'', JStr new_state),
      (''reason_codes'', JList (case reason_code of Some r \<Rightarrow> if r \<noteq> [] then [JStr r] else [] | None \<Rightarrow> [])),
      (''effect_state'', JStr effect_state), (''severity'', JStr severity), (''blackbox_relevance'', JBool blackbox)]"

definition rejected_aliases :: "string \<Rightarrow> string \<Rightarrow> string \<Rightarrow> payload" where
  "rejected_aliases owner request_id reason_code =
     if_audit_aliases owner request_id (Some reason_code) ''attach_requested'' ''attach_rejected'' ''not_applied'' ''warning'' False"

text \<open>What the sinks do: \<open>append_new\<close>, and the identifier of the event it returns.\<close>

definition sink_append ::
  "event_env \<Rightarrow> real \<Rightarrow> string \<Rightarrow> string \<Rightarrow> payload \<Rightarrow> string \<Rightarrow> event_store \<Rightarrow> body_error + (event_store \<times> string)" where
  "sink_append env now subsystem event_type pl reason st =
     (case es_append_new env subsystem event_type pl (Inl T_OK) reason None (Some now) st of
        Inl e \<Rightarrow> Inl (Audit_error e)
      | Inr (st', None) \<Rightarrow> Inl Attribute_error
      | Inr (st', Some e) \<Rightarrow> Inr (st', e_id e))"

definition append_rejection ::
  "event_env \<Rightarrow> real \<Rightarrow> string \<Rightarrow> string \<Rightarrow> string \<Rightarrow> string \<Rightarrow> string \<Rightarrow> payload \<Rightarrow> event_store \<Rightarrow>
   body_error + (event_store \<times> string)" where
  "append_rejection env now request_id module_id mount reason_code owner extra st =
     sink_append env now owner ''module_attach_rejected''
       (dict_update (dict_update
          [(''module_id'', JStr module_id), (''attempted_mount'', JStr mount), (''reason_code'', JStr reason_code),
           (''request_id'', JStr request_id), (''mount_point'', JStr mount), (''body_config_updated'', JBool False),
           (''source_owner'', JStr owner)] extra) (rejected_aliases owner request_id reason_code))
       reason_code st"

definition append_registration ::
  "event_env \<Rightarrow> real \<Rightarrow> string \<Rightarrow> string \<Rightarrow> string \<Rightarrow> string \<Rightarrow> string \<Rightarrow> bool \<Rightarrow> event_store \<Rightarrow>
   body_error + (event_store \<times> string)" where
  "append_registration env now request_id module_id mount passport_status capability_status runtime_ready st =
     sink_append env now SOURCE_OWNER ''module_attach_registered''
       (dict_update
          [(''module_id'', JStr module_id), (''mount_point'', JStr mount), (''passport_status'', JStr passport_status),
           (''capability_status'', JStr capability_status), (''runtime_ready'', JBool runtime_ready),
           (''body_config_updated'', JBool True), (''source_owner'', JStr SOURCE_OWNER)]
          (if_audit_aliases SOURCE_OWNER request_id None ''attach_requested'' ''module_registered'' ''registry_updated''
             ''info'' False))
       '''' st"

text \<open>
  The legacy sink and entry point: \<open>append_rejection\<close> returns the event of \<open>append_new\<close> without reading it,
  so a disabled store does not raise here.
\<close>

definition legacy_rejection ::
  "event_env \<Rightarrow> real \<Rightarrow> attach_request \<Rightarrow> event_store \<Rightarrow> event_error + event_store" where
  "legacy_rejection env now r st =
     (case es_append_new env SOURCE_OWNER ''module_attach_rejected''
             (dict_update
                [(''request_id'', JStr (ar_request r)), (''module_id'', JStr (ar_module r)), (''attempted_mount'', JStr (ar_mount r)),
                 (''reason_code'', JStr ''MODULE_PASSPORT_MISSING''), (''source_owner'', JStr SOURCE_OWNER)]
                (rejected_aliases SOURCE_OWNER (ar_request r) ''MODULE_PASSPORT_MISSING''))
             (Inl T_OK) ''MODULE_PASSPORT_MISSING'' None (Some now) st of
        Inl e \<Rightarrow> Inl e | Inr (st', _) \<Rightarrow> Inr st')"

record legacy_result =
  lr_rejected :: bool
  lr_reason :: string
  lr_ready :: bool
  lr_request :: string
  lr_module :: string
  lr_mount :: string
  lr_owner :: string

definition legacy_refusal :: "attach_request \<Rightarrow> string \<Rightarrow> legacy_result" where
  "legacy_refusal r reason =
     \<lparr>lr_rejected = True, lr_reason = reason, lr_ready = False, lr_request = ar_request r, lr_module = ar_module r,
      lr_mount = ar_mount r, lr_owner = SOURCE_OWNER\<rparr>"

definition attach_module ::
  "event_env \<Rightarrow> real \<Rightarrow> attach_request \<Rightarrow> event_store \<Rightarrow> event_error + (event_store \<times> legacy_result)" where
  "attach_module env now r st =
     (if \<not> has_required_shape (ar_passport r)
      then (case legacy_rejection env now r st of
              Inl e \<Rightarrow> Inl e | Inr st' \<Rightarrow> Inr (st', legacy_refusal r ''MODULE_PASSPORT_MISSING''))
      else Inr (st, legacy_refusal r ''MODULE_ATTACH_NOT_IMPLEMENTED''))"

section \<open>The guards\<close>

record result_context =
  rx_requested :: string
  rx_existing :: string
  rx_validation_error :: string
  rx_passport_module :: string
  rx_known_mount :: bool

definition no_context :: result_context where
  "no_context = \<lparr>rx_requested = [], rx_existing = [], rx_validation_error = [], rx_passport_module = [], rx_known_mount = True\<rparr>"

text \<open>\<open>audit_method\<close> with the arguments of its own; module and mount come from the request.\<close>

datatype audit_call =
    Missing_passport
  | Invalid_passport string string \<comment> \<open>the passport's module, the error\<close>
  | Unknown_mount
  | Occupied string \<comment> \<open>the occupant\<close>
  | Class_forbidden string

record rejection =
  rj_reason :: string
  rj_passport_status :: string
  rj_audit :: audit_call
  rj_context :: result_context

fun audit_owner :: "audit_call \<Rightarrow> string" where
  "audit_owner (Invalid_passport _ _) = PASSPORT_VALIDATOR_OWNER"
| "audit_owner _ = SOURCE_OWNER"

fun audit_reason :: "audit_call \<Rightarrow> string" where
  "audit_reason Missing_passport = ''MODULE_PASSPORT_MISSING''"
| "audit_reason (Invalid_passport _ _) = ''MODULE_PASSPORT_INVALID''"
| "audit_reason Unknown_mount = ''MOUNT_POINT_UNKNOWN''"
| "audit_reason (Occupied _) = ''MOUNT_POINT_OCCUPIED''"
| "audit_reason (Class_forbidden _) = ''MODULE_MOUNT_CLASS_FORBIDDEN''"

fun audit_extra :: "string \<Rightarrow> audit_call \<Rightarrow> payload" where
  "audit_extra m Missing_passport = []"
| "audit_extra m (Invalid_passport p err) = [(''passport_module_id'', JStr p), (''validation_error'', JStr err)]"
| "audit_extra m Unknown_mount = [(''known_mount'', JBool False)]"
| "audit_extra m (Occupied occupant) = [(''requested_module_id'', JStr m), (''existing_module_id'', JStr occupant)]"
| "audit_extra m (Class_forbidden c) = [(''module_class'', JStr c)]"

definition append_audit ::
  "event_env \<Rightarrow> real \<Rightarrow> attach_request \<Rightarrow> audit_call \<Rightarrow> event_store \<Rightarrow> body_error + (event_store \<times> string)" where
  "append_audit env now r c st =
     append_rejection env now (ar_request r) (ar_module r) (ar_mount r) (audit_reason c) (audit_owner c)
       (audit_extra (ar_module r) c) st"

definition registration_guards :: "(string \<times> string) list" where
  "registration_guards =
     [(''MODULE_PASSPORT_MISSING'', ''passport_presence''), (''MODULE_PASSPORT_INVALID'', ''passport_integrity''),
      (''MOUNT_POINT_UNKNOWN'', ''mount_existence''), (''MOUNT_POINT_OCCUPIED'', ''mount_occupancy''),
      (''MODULE_MOUNT_CLASS_FORBIDDEN'', ''mount_compatibility'')]"

definition passport_validation_error :: "attach_request \<Rightarrow> string" where
  "passport_validation_error r =
     (case ar_passport r of
        None \<Rightarrow> []
      | Some p \<Rightarrow>
          if py_strip (mp_module p) \<noteq> py_strip (ar_module r) then ''module_id_mismatch''
          else if py_strip (mp_mount p) \<noteq> py_strip (ar_mount r) then ''mount_point_mismatch''
          else [])"

definition passport_class :: "attach_request \<Rightarrow> string" where
  "passport_class r = py_strip (case ar_passport r of Some p \<Rightarrow> mp_class p | None \<Rightarrow> [])"

definition class_fits :: "body_config \<Rightarrow> attach_request \<Rightarrow> bool" where
  "class_fits b r =
     (case dict_get (bc_classes b) (ar_mount r) of
        None \<Rightarrow> False
      | Some rules \<Rightarrow> passport_class r \<notin> set (mr_forbidden rules) \<and> passport_class r \<in> set (mr_allowed rules))"

definition occupant :: "body_config \<Rightarrow> string \<Rightarrow> string" where
  "occupant b mount = dict_getd (bc_occupancy b) mount ''free''"

definition evaluate_guard ::
  "body_config \<Rightarrow> attach_request \<Rightarrow> string \<times> string \<Rightarrow> body_error + rejection option" where
  "evaluate_guard b r guard =
     (let reason = fst guard
      in if reason = ''MODULE_PASSPORT_MISSING''
         then Inr (if has_required_shape (ar_passport r) then None
                   else Some \<lparr>rj_reason = reason, rj_passport_status = ''missing'', rj_audit = Missing_passport,
                              rj_context = no_context\<rparr>)
         else if reason = ''MODULE_PASSPORT_INVALID''
         then Inr (case ar_passport r of
                     None \<Rightarrow> None
                   | Some p \<Rightarrow>
                       let err = passport_validation_error r
                       in if err = [] then None
                          else Some \<lparr>rj_reason = reason, rj_passport_status = ''invalid'',
                                     rj_audit = Invalid_passport (mp_module p) err,
                                     rj_context = no_context\<lparr>rx_requested := ar_module r, rx_validation_error := err,
                                                             rx_passport_module := mp_module p\<rparr>\<rparr>)
         else if reason = ''MOUNT_POINT_UNKNOWN''
         then Inr (if ar_mount r \<in> set (dict_keys (bc_occupancy b)) then None
                   else Some \<lparr>rj_reason = reason, rj_passport_status = ''validated'', rj_audit = Unknown_mount,
                              rj_context = no_context\<lparr>rx_requested := ar_module r, rx_known_mount := False\<rparr>\<rparr>)
         else if reason = ''MOUNT_POINT_OCCUPIED''
         then Inr (if occupant b (ar_mount r) \<in> {'''', ''free''} then None
                   else Some \<lparr>rj_reason = reason, rj_passport_status = ''validated'',
                              rj_audit = Occupied (occupant b (ar_mount r)),
                              rj_context = no_context\<lparr>rx_requested := ar_module r, rx_existing := occupant b (ar_mount r)\<rparr>\<rparr>)
         else if reason = ''MODULE_MOUNT_CLASS_FORBIDDEN''
         then Inr (if class_fits b r then None
                   else Some \<lparr>rj_reason = reason, rj_passport_status = ''validated'',
                              rj_audit = Class_forbidden (passport_class r),
                              rj_context = no_context\<lparr>rx_requested := ar_module r\<rparr>\<rparr>)
         else Inl (Value_error (''Unhandled registration guard: '' @ reason)))"

fun first_rejection ::
  "body_config \<Rightarrow> attach_request \<Rightarrow> (string \<times> string) list \<Rightarrow> body_error + rejection option" where
  "first_rejection b r [] = Inr None"
| "first_rejection b r (g # gs) =
     (case evaluate_guard b r g of
        Inl e \<Rightarrow> Inl e | Inr None \<Rightarrow> first_rejection b r gs | Inr (Some j) \<Rightarrow> Inr (Some j))"

section \<open>Registration\<close>

record registration_result =
  rr_status :: string
  rr_module :: string
  rr_mount :: string
  rr_passport_status :: string
  rr_updated :: bool
  rr_ready :: bool
  rr_capability :: string
  rr_reason :: "string option"
  rr_context :: result_context
  rr_event :: string

definition rejected_result :: "attach_request \<Rightarrow> string \<Rightarrow> rejection \<Rightarrow> registration_result" where
  "rejected_result r event_id j =
     \<lparr>rr_status = ''rejected'', rr_module = ar_module r, rr_mount = ar_mount r, rr_passport_status = rj_passport_status j,
      rr_updated = False, rr_ready = False, rr_capability = ''not_evaluated'', rr_reason = Some (rj_reason j),
      rr_context = rj_context j, rr_event = event_id\<rparr>"

definition rejection_outcome ::
  "event_env \<Rightarrow> real \<Rightarrow> body_config \<Rightarrow> attach_request \<Rightarrow> rejection \<Rightarrow> event_store \<Rightarrow>
   body_error + (event_store \<times> registration_result \<times> body_config)" where
  "rejection_outcome env now b r j st =
     (case append_audit env now r (rj_audit j) st of
        Inl e \<Rightarrow> Inl e | Inr (st', event_id) \<Rightarrow> Inr (st', rejected_result r event_id j, b))"

definition registered_entry :: "attach_request \<Rightarrow> string \<Rightarrow> string \<Rightarrow> module_entry" where
  "registered_entry r passport_status capability_status =
     \<lparr>me_module = ar_module r, me_mount = ar_mount r, me_status = ''attached'', me_passport = passport_status,
      me_capability = capability_status\<rparr>"

definition registered_body :: "body_config \<Rightarrow> attach_request \<Rightarrow> module_entry \<Rightarrow> body_config" where
  "registered_body b r entry =
     b\<lparr>bc_occupancy := dict_set (bc_occupancy b) (ar_mount r) (ar_module r), bc_modules := bc_modules b @ [entry]\<rparr>"

definition attached_result :: "attach_request \<Rightarrow> string \<Rightarrow> string \<Rightarrow> string \<Rightarrow> registration_result" where
  "attached_result r event_id passport_status capability_status =
     \<lparr>rr_status = ''attached'', rr_module = ar_module r, rr_mount = ar_mount r, rr_passport_status = passport_status,
      rr_updated = True, rr_ready = False, rr_capability = capability_status, rr_reason = None, rr_context = no_context,
      rr_event = event_id\<rparr>"

definition success_outcome ::
  "event_env \<Rightarrow> real \<Rightarrow> body_config \<Rightarrow> attach_request \<Rightarrow> event_store \<Rightarrow>
   body_error + (event_store \<times> registration_result \<times> body_config)" where
  "success_outcome env now b r st =
     (let entry = registered_entry r ''validated'' ''inactive'';
          updated = registered_body b r entry
      in case append_registration env now (ar_request r) (ar_module r) (ar_mount r) ''validated'' ''inactive'' False st of
           Inl e \<Rightarrow> Inl e
         | Inr (st', event_id) \<Rightarrow> Inr (st', attached_result r event_id ''validated'' ''inactive'', updated))"

definition register_module ::
  "event_env \<Rightarrow> real \<Rightarrow> body_config \<Rightarrow> attach_request \<Rightarrow> event_store \<Rightarrow>
   body_error + (event_store \<times> registration_result \<times> body_config)" where
  "register_module env now b r st =
     (case first_rejection b r registration_guards of
        Inl e \<Rightarrow> Inl e
      | Inr (Some j) \<Rightarrow> rejection_outcome env now b r j st
      | Inr None \<Rightarrow> success_outcome env now b r st)"

section \<open>The pipeline\<close>

definition make_evidence_card_id :: "string \<Rightarrow> string" where
  "make_evidence_card_id event_id = ''card:'' @ event_id"

record attach_decision =
  ad_status :: string
  ad_stage :: string
  ad_reason :: "string option"
  ad_module :: string
  ad_mount :: string
  ad_updated :: bool
  ad_ready :: bool
  ad_passport_status :: string
  ad_capability :: string
  ad_event :: string
  ad_card :: string
  ad_context :: result_context

definition stage_by_reason :: "string option \<Rightarrow> string" where
  "stage_by_reason reason =
     (case reason of None \<Rightarrow> ''registration'' | Some c \<Rightarrow> dict_getd registration_guards c ''unknown'')"

definition attach_decision_of :: "registration_result \<Rightarrow> attach_decision" where
  "attach_decision_of x =
     \<lparr>ad_status = (if rr_status x = ''attached'' then ''attached'' else ''rejected''), ad_stage = stage_by_reason (rr_reason x),
      ad_reason = rr_reason x, ad_module = rr_module x, ad_mount = rr_mount x, ad_updated = rr_updated x, ad_ready = rr_ready x,
      ad_passport_status = rr_passport_status x, ad_capability = rr_capability x, ad_event = rr_event x,
      ad_card = make_evidence_card_id (rr_event x), ad_context = rr_context x\<rparr>"

definition run_attach_pipeline ::
  "event_env \<Rightarrow> real \<Rightarrow> body_config \<Rightarrow> attach_request \<Rightarrow> event_store \<Rightarrow>
   body_error + (event_store \<times> attach_decision \<times> body_config)" where
  "run_attach_pipeline env now b r st =
     (case register_module env now b r st of
        Inl e \<Rightarrow> Inl e | Inr (st', x, b') \<Rightarrow> Inr (st', attach_decision_of x, b'))"

record command_lifecycle =
  cl_command :: string
  cl_expected :: string
  cl_validation :: string
  cl_publish :: string
  cl_ack :: string
  cl_effect :: string
  cl_audit :: string
  cl_reasons :: "string list"

definition command_lifecycle_from_attach_decision :: "attach_request \<Rightarrow> attach_decision \<Rightarrow> command_lifecycle" where
  "command_lifecycle_from_attach_decision r d =
     \<lparr>cl_command = ar_request r,
      cl_expected = (if ad_status d = ''attached'' then ''module_attach_registered'' else ''module_attach_rejected''),
      cl_validation = (if ad_status d = ''attached'' then ''allowed'' else ''rejected''),
      cl_publish = ''missing'', cl_ack = ''missing'', cl_effect = ''missing'',
      cl_audit = (if ad_event d \<noteq> [] then ''written'' else ''missing''),
      cl_reasons = (case ad_reason d of Some c \<Rightarrow> if c \<noteq> [] then [''CMD_REJECTED'', c] else [] | None \<Rightarrow> []) @
                   (if ad_event d = [] then [''AUDIT_UNAVAILABLE''] else [])\<rparr>"

section \<open>The decision in one piece\<close>

text \<open>The reason the ordered guards give, and the passport's verdict.\<close>

definition refusal :: "body_config \<Rightarrow> attach_request \<Rightarrow> audit_call option" where
  "refusal b r =
     (if \<not> has_required_shape (ar_passport r) then Some Missing_passport
      else if passport_validation_error r \<noteq> []
      then Some (Invalid_passport (case ar_passport r of Some p \<Rightarrow> mp_module p | None \<Rightarrow> []) (passport_validation_error r))
      else if ar_mount r \<notin> set (dict_keys (bc_occupancy b)) then Some Unknown_mount
      else if occupant b (ar_mount r) \<notin> {'''', ''free''} then Some (Occupied (occupant b (ar_mount r)))
      else if \<not> class_fits b r then Some (Class_forbidden (passport_class r))
      else None)"

lemma guards_give_refusal:
  "\<exists>j. first_rejection b r registration_guards = Inr j \<and>
       (case j of None \<Rightarrow> refusal b r = None
        | Some j' \<Rightarrow> refusal b r = Some (rj_audit j') \<and> rj_reason j' = audit_reason (rj_audit j'))"
  by (cases "ar_passport r")
    (auto simp: registration_guards_def evaluate_guard_def refusal_def has_required_shape_def passport_validation_error_def
      Let_def)

text \<open>With a store that records, every append succeeds: the sinks' subsystems and types are never blank.\<close>

definition record_event :: "system_event \<Rightarrow> event_store \<Rightarrow> event_store" where
  "record_event e st = st\<lparr>es_events := deque_append (es_maxlen st) (es_events st) e\<rparr>"

lemma sink_append_eq:
  assumes "py_strip subsystem \<noteq> []" "py_strip event_type \<noteq> []"
  shows "sink_append env now subsystem event_type pl reason st =
     (if es_enabled st
      then Inr (record_event (new_event env subsystem event_type pl (Inl T_OK) reason None (Some now)) st, ee_uuid env)
      else Inl Attribute_error)"
  using assms
  by (simp add: sink_append_def es_append_new_def es_append_def validate_event_eq raw_errors_def new_event_def
      record_event_def Let_def)

lemma owners_not_blank [simp]:
  "py_strip SOURCE_OWNER \<noteq> []" "py_strip PASSPORT_VALIDATOR_OWNER \<noteq> []"
  "py_strip ''module_attach_rejected'' \<noteq> []" "py_strip ''module_attach_registered'' \<noteq> []"
  by code_simp+

lemma audit_owner_not_blank [simp]: "py_strip (audit_owner c) \<noteq> []"
  by (cases c) auto

text \<open>The event an attempt leaves behind.\<close>

definition attempt_event :: "event_env \<Rightarrow> real \<Rightarrow> body_config \<Rightarrow> attach_request \<Rightarrow> system_event" where
  "attempt_event env now b r =
     (case refusal b r of
        None \<Rightarrow>
          new_event env SOURCE_OWNER ''module_attach_registered''
            (dict_update
               [(''module_id'', JStr (ar_module r)), (''mount_point'', JStr (ar_mount r)), (''passport_status'', JStr ''validated''),
                (''capability_status'', JStr ''inactive''), (''runtime_ready'', JBool False), (''body_config_updated'', JBool True),
                (''source_owner'', JStr SOURCE_OWNER)]
               (if_audit_aliases SOURCE_OWNER (ar_request r) None ''attach_requested'' ''module_registered''
                  ''registry_updated'' ''info'' False))
            (Inl T_OK) '''' None (Some now)
      | Some c \<Rightarrow>
          new_event env (audit_owner c) ''module_attach_rejected''
            (dict_update (dict_update
               [(''module_id'', JStr (ar_module r)), (''attempted_mount'', JStr (ar_mount r)),
                (''reason_code'', JStr (audit_reason c)), (''request_id'', JStr (ar_request r)),
                (''mount_point'', JStr (ar_mount r)), (''body_config_updated'', JBool False),
                (''source_owner'', JStr (audit_owner c))] (audit_extra (ar_module r) c))
               (rejected_aliases (audit_owner c) (ar_request r) (audit_reason c)))
            (Inl T_OK) (audit_reason c) None (Some now))"

definition next_body :: "body_config \<Rightarrow> attach_request \<Rightarrow> body_config" where
  "next_body b r =
     (case refusal b r of
        None \<Rightarrow> registered_body b r (registered_entry r ''validated'' ''inactive'')
      | Some c \<Rightarrow> b)"

lemma attempt_event_id [simp]: "e_id (attempt_event env now b r) = ee_uuid env"
  by (simp add: attempt_event_def new_event_def Let_def split: option.splits)

lemma pipeline_outcome:
  assumes "es_enabled st"
  shows "\<exists>d. run_attach_pipeline env now b r st = Inr (record_event (attempt_event env now b r) st, d, next_body b r) \<and>
    ad_event d = ee_uuid env \<and> ad_card d = ''card:'' @ ee_uuid env \<and> ad_ready d = False \<and>
    ad_updated d = (refusal b r = None) \<and> ad_reason d = map_option audit_reason (refusal b r) \<and>
    ad_status d = (if refusal b r = None then ''attached'' else ''rejected'') \<and>
    ad_stage d = stage_by_reason (map_option audit_reason (refusal b r))"
proof -
  obtain j where j: "first_rejection b r registration_guards = Inr j"
      "case j of None \<Rightarrow> refusal b r = None
       | Some j' \<Rightarrow> refusal b r = Some (rj_audit j') \<and> rj_reason j' = audit_reason (rj_audit j')"
    using guards_give_refusal by blast
  show ?thesis
  proof (cases j)
    case None
    with j assms show ?thesis
      by (simp add: run_attach_pipeline_def register_module_def success_outcome_def append_registration_def sink_append_eq
          attach_decision_of_def attached_result_def attempt_event_def next_body_def make_evidence_card_id_def Let_def)
  next
    case (Some j')
    with j assms show ?thesis
      by (simp add: run_attach_pipeline_def register_module_def rejection_outcome_def append_audit_def append_rejection_def
          sink_append_eq attach_decision_of_def rejected_result_def attempt_event_def next_body_def
          make_evidence_card_id_def Let_def)
  qed
qed

lemma pipeline_disabled:
  assumes "\<not> es_enabled st"
  shows "run_attach_pipeline env now b r st = Inl Attribute_error"
proof -
  obtain j where "first_rejection b r registration_guards = Inr j"
    using guards_give_refusal by blast
  then show ?thesis
    using assms
    by (simp add: run_attach_pipeline_def register_module_def success_outcome_def append_registration_def sink_append_eq
        rejection_outcome_def append_audit_def append_rejection_def Let_def split: option.splits)
qed

text \<open>
  C29. What an attempt to attach a module does, in every case. With a store that records it returns, exactly one audit
  event is written, the decision carries its identifier and the module is never ready; when the guards find nothing,
  in their order, the module is registered and inactive, else the decision names the guard's reason and stage and the
  body is the one given. With a store that does not record, reading the identifier of the event raises.
\<close>

theorem attach_outcome:
  "case run_attach_pipeline env now b r st of
     Inl e \<Rightarrow> \<not> es_enabled st \<and> e = Attribute_error
   | Inr (st', d, b') \<Rightarrow>
       es_enabled st \<and> st' = record_event (attempt_event env now b r) st \<and> b' = next_body b r \<and>
       ad_event d = e_id (attempt_event env now b r) \<and> ad_card d = ''card:'' @ ad_event d \<and> ad_ready d = False \<and>
       ad_updated d = (refusal b r = None) \<and> ad_reason d = map_option audit_reason (refusal b r) \<and>
       ad_status d = (if refusal b r = None then ''attached'' else ''rejected'') \<and>
       ad_stage d = stage_by_reason (map_option audit_reason (refusal b r))"
proof (cases "es_enabled st")
  case True
  from pipeline_outcome [OF this, of env now b r] True show ?thesis
    by auto
qed (simp add: pipeline_disabled)

section \<open>Runs\<close>

text \<open>A request whose attempt raises leaves body and store as they were.\<close>

fun attach_run ::
  "body_config \<times> event_store \<Rightarrow> (event_env \<times> real \<times> attach_request) list \<Rightarrow> body_config \<times> event_store" where
  "attach_run (b, st) [] = (b, st)"
| "attach_run (b, st) ((env, now, r) # rs) =
     (case run_attach_pipeline env now b r st of
        Inl e \<Rightarrow> attach_run (b, st) rs
      | Inr (st', d, b') \<Rightarrow> attach_run (b', st') rs)"

definition entries_at :: "body_config \<Rightarrow> string \<Rightarrow> module_entry list" where
  "entries_at b f = filter (\<lambda>e. me_mount e = f) (bc_modules b)"

text \<open>A face holds what its entries say; all but the last of them are modules that are called \<open>free\<close>.\<close>

definition face_consistent :: "body_config \<Rightarrow> string \<Rightarrow> bool" where
  "face_consistent b f \<longleftrightarrow>
     occupant b f = (case entries_at b f of [] \<Rightarrow> ''free'' | es \<Rightarrow> me_module (last es)) \<and>
     list_all (\<lambda>e. me_module e = ''free'') (butlast (entries_at b f))"

definition entry_wf :: "body_config \<Rightarrow> module_entry \<Rightarrow> bool" where
  "entry_wf b e \<longleftrightarrow>
     me_mount e \<in> set (bc_faces b) \<and> me_module e \<noteq> [] \<and> me_status e = ''attached'' \<and> me_passport e = ''validated'' \<and>
     me_capability e = ''inactive''"

definition body_inv :: "body_config \<Rightarrow> bool" where
  "body_inv b \<longleftrightarrow>
     dict_keys (bc_occupancy b) = FACE_IDS \<and> bc_faces b = FACE_IDS \<and> bc_classes b = bc_classes skeleton \<and>
     list_all (entry_wf b) (bc_modules b) \<and> list_all (face_consistent b) (bc_faces b)"

lemma body_inv_skeleton: "body_inv skeleton"
  by (simp add: body_inv_def skeleton_def face_consistent_def entries_at_def occupant_def dict_getd_def FACE_IDS_def)

lemma keys_dict_set_present: "k \<in> set (dict_keys m) \<Longrightarrow> dict_keys (dict_set m k v) = dict_keys m"
  by (induction m) auto

lemma refusal_None:
  assumes "refusal b r = None"
  shows "ar_module r \<noteq> []" "ar_mount r \<in> set (dict_keys (bc_occupancy b))" "occupant b (ar_mount r) \<in> {'''', ''free''}"
    "class_fits b r"
  using assms
  by (auto simp: refusal_def has_required_shape_def passport_validation_error_def py_strip_def split: if_splits option.splits)

lemma body_inv_registered:
  assumes inv: "body_inv b" and ok: "refusal b r = None"
  shows "body_inv (registered_body b r (registered_entry r ''validated'' ''inactive''))" (is "body_inv ?b")
proof -
  let ?e = "registered_entry r ''validated'' ''inactive''"
  have mount: "ar_mount r \<in> set FACE_IDS"
    using refusal_None(2) [OF ok] inv by (simp add: body_inv_def del: set_map)
  have entries: "entries_at ?b f = (if f = ar_mount r then entries_at b f @ [?e] else entries_at b f)" for f
    by (simp add: entries_at_def registered_body_def registered_entry_def)
  have occ: "occupant ?b f = (if f = ar_mount r then ar_module r else occupant b f)" for f
    by (simp add: occupant_def registered_body_def dict_getd_def)
  have old: "list_all (\<lambda>e. me_module e = ''free'') (entries_at b (ar_mount r))"
  proof -
    have cons: "face_consistent b (ar_mount r)" and wf: "list_all (entry_wf b) (entries_at b (ar_mount r))"
      using inv mount by (auto simp: body_inv_def list_all_iff entries_at_def)
    show ?thesis
    proof (cases "entries_at b (ar_mount r)" rule: rev_cases)
      case (snoc es e)
      with cons wf refusal_None(3) [OF ok] show ?thesis
        by (cases es) (auto simp: face_consistent_def entry_wf_def)
    qed simp
  qed
  have faces: "face_consistent ?b f" if "face_consistent b f" for f
  proof -
    have "me_module ?e = ar_module r"
      by (simp add: registered_entry_def)
    then show ?thesis
      using that old by (cases "entries_at b f") (auto simp: face_consistent_def entries occ)
  qed
  show ?thesis
    using inv mount faces refusal_None(1) [OF ok]
    by (auto simp: body_inv_def list_all_iff entry_wf_def keys_dict_set_present registered_body_def registered_entry_def
        simp del: set_map)
qed

lemma body_inv_run: "body_inv b \<Longrightarrow> body_inv (fst (attach_run (b, st) rs))"
proof (induction rs arbitrary: b st)
  case (Cons x rs)
  obtain env now r where x: "x = (env, now, r)"
    by (cases x)
  show ?case
  proof (cases "es_enabled st")
    case True
    then obtain d where "run_attach_pipeline env now b r st = Inr (record_event (attempt_event env now b r) st, d, next_body b r)"
      using pipeline_outcome by blast
    moreover have "body_inv (next_body b r)"
      using Cons.prems body_inv_registered by (auto simp: next_body_def split: option.splits)
    ultimately show ?thesis
      using Cons.IH by (simp add: x)
  qed (use Cons in \<open>simp add: x pipeline_disabled\<close>)
qed simp

text \<open>
  C30. In every run of attempts on a new body: the faces and their mount classes stay the twelve of the skeleton; every
  registered module is on a face of the body, validated and inactive; a face is occupied by the last module
  registered on it and free when there is none, and every module registered there before was one whose identifier is
  \<open>free\<close>. So no module ever takes the place of another.
\<close>

theorem faces_hold_their_modules: "body_inv (fst (attach_run (skeleton, st) requests))"
  by (rule body_inv_run [OF body_inv_skeleton])

section \<open>Examples\<close>

definition sensor_request :: "string \<Rightarrow> string \<Rightarrow> attach_request" where
  "sensor_request m f =
     \<lparr>ar_request = ''r'', ar_module = m, ar_mount = f,
      ar_passport = Some \<lparr>mp_module = m, mp_class = ''sensor'', mp_mount = f, mp_capabilities = []\<rparr>\<rparr>"

text \<open>One module can be attached at two faces: no guard looks for it among the registered modules.\<close>

lemma module_attached_twice:
  "(let b = next_body (next_body skeleton (sensor_request ''S1'' ''F06'')) (sensor_request ''S1'' ''F07'')
    in occupant b ''F06'' = ''S1'' \<and> occupant b ''F07'' = ''S1'')"
  by code_simp

text \<open>A module that is called \<open>free\<close> leaves its face free for another.\<close>

lemma free_module_shares_face:
  "(let b = next_body (next_body skeleton (sensor_request ''free'' ''F06'')) (sensor_request ''S1'' ''F06'')
    in map me_module (entries_at b ''F06'') = [''free'', ''S1''])"
  by code_simp

text \<open>The guards in their order: an unknown face, a class the face does not take, an occupied face.\<close>

lemma refusals_in_order:
  "(let b = next_body skeleton (sensor_request ''S1'' ''F06'')
    in refusal b (sensor_request ''S2'' ''F12'') = Some Unknown_mount \<and>
       refusal b (sensor_request ''S2'' ''F06'') = Some (Occupied ''S1'') \<and>
       refusal b ((sensor_request ''S2'' ''F07'')\<lparr>ar_passport := None\<rparr>) = Some Missing_passport \<and>
       refusal b ((sensor_request ''S2'' ''F07'')\<lparr>ar_module := ''S3''\<rparr>) =
         Some (Invalid_passport ''S2'' ''module_id_mismatch''))"
  by code_simp

end
