(* ===== verification/Body_Controller.thy ===== *)
theory Body_Controller
  imports Body_Structure
begin

text \<open>
  The console's body controller
  (\<open>src/qiki/services/operator_console/orion_v/body_structure_interactive_controller.py\<close>) and its face map
  (\<open>body_structure_face_map.py\<close>): it owns the body and the audit store, runs the attachment pipeline, a
  self-check and a reset, and keeps the snapshot the screens show. Its operations run under a lock, so each is one
  step. The evidence card made of the audit event and the texts of the face map are display and left out.
\<close>

section \<open>The face map\<close>

definition DEFAULT_FACE :: string where "DEFAULT_FACE = ''F06''"

definition FACE_ROLES :: "(string, string) dict" where
  "FACE_ROLES =
     [(''F00'', ''bayonet''), (''F01'', ''bayonet''), (''F02'', ''rcs''), (''F03'', ''rcs''), (''F04'', ''rcs''),
      (''F05'', ''rcs''), (''F06'', ''mission''), (''F07'', ''mission''), (''F08'', ''thermal''), (''F09'', ''thermal''),
      (''F10'', ''utility''), (''F11'', ''utility'')]"

definition face_role :: "string \<Rightarrow> string" where
  "face_role f = dict_getd FACE_ROLES f ''unknown''"

definition normalize_face :: "string \<Rightarrow> string list \<Rightarrow> string" where
  "normalize_face f faces =
     (if f \<in> set faces then f else if DEFAULT_FACE \<in> set faces then DEFAULT_FACE else hd faces)"

fun index_of :: "'a \<Rightarrow> 'a list \<Rightarrow> nat" where
  "index_of x [] = 0"
| "index_of x (y # ys) = (if x = y then 0 else Suc (index_of x ys))"

text \<open>The moves wrap around; a negative index of Python counts from the end.\<close>

definition next_face_id :: "string \<Rightarrow> string list \<Rightarrow> string" where
  "next_face_id f faces = faces ! ((index_of (normalize_face f faces) faces + 1) mod length faces)"

definition previous_face_id :: "string \<Rightarrow> string list \<Rightarrow> string" where
  "previous_face_id f faces =
     faces ! ((index_of (normalize_face f faces) faces + length faces - 1) mod length faces)"

record face_row =
  fr_face :: string
  fr_role :: string
  fr_occupancy :: string
  fr_module :: string
  fr_selected :: bool

text \<open>\<open>str(d.get(k) or "unknown")\<close>.\<close>

definition occupancy_text :: "body_config \<Rightarrow> string \<Rightarrow> string" where
  "occupancy_text b f = (case dict_get (bc_occupancy b) f of Some m \<Rightarrow> if m = [] then ''unknown'' else m | None \<Rightarrow> ''unknown'')"

definition face_row_of :: "body_config \<Rightarrow> string \<Rightarrow> string \<Rightarrow> face_row" where
  "face_row_of b selected f =
     (let raw = occupancy_text b f
      in \<lparr>fr_face = f, fr_role = face_role f,
          fr_occupancy = (if raw = ''free'' then ''free'' else if raw = ''unknown'' then ''unknown'' else ''occupied''),
          fr_module = (if raw = ''free'' \<or> raw = ''unknown'' then '''' else raw), fr_selected = (f = selected)\<rparr>)"

definition build_face_rows :: "body_config \<Rightarrow> string \<Rightarrow> face_row list" where
  "build_face_rows b f = map (face_row_of b (normalize_face f (bc_faces b))) (bc_faces b)"

definition selected_face_row :: "face_row list \<Rightarrow> string \<Rightarrow> face_row" where
  "selected_face_row rows f =
     (case find (\<lambda>r. fr_face r = normalize_face f (map fr_face rows)) rows of Some r \<Rightarrow> r | None \<Rightarrow> hd rows)"

section \<open>The controller\<close>

record body_snapshot =
  bs_state :: string
  bs_action :: string
  bs_body :: body_config
  bs_before :: nat
  bs_after :: nat
  bs_before_mount :: string
  bs_after_mount :: string
  bs_face :: string
  bs_can_run :: bool
  bs_can_reset :: bool
  bs_decision :: "attach_decision option"
  bs_event :: "system_event option"

record body_controller =
  bk_store :: event_store
  bk_body :: body_config
  bk_face :: string
  bk_snapshot :: body_snapshot

definition TEST_MOUNT :: string where "TEST_MOUNT = ''F06''"
definition TEST_MODULE :: string where "TEST_MODULE = ''test_sensor_module_001''"

definition mount_state :: "body_config \<Rightarrow> string" where
  "mount_state b = occupancy_text b TEST_MOUNT"

definition waiting_snapshot :: "string \<Rightarrow> body_config \<Rightarrow> string \<Rightarrow> body_snapshot" where
  "waiting_snapshot action b f =
     \<lparr>bs_state = ''waiting'', bs_action = action, bs_body = b, bs_before = length (bc_modules b),
      bs_after = length (bc_modules b), bs_before_mount = mount_state b, bs_after_mount = mount_state b,
      bs_face = normalize_face f (bc_faces b), bs_can_run = True, bs_can_reset = False, bs_decision = None, bs_event = None\<rparr>"

definition new_body_controller :: body_controller where
  "new_body_controller =
     \<lparr>bk_store = make_event_store 1000 True False, bk_body = skeleton, bk_face = DEFAULT_FACE,
      bk_snapshot = waiting_snapshot ''initial'' skeleton DEFAULT_FACE\<rparr>"

text \<open>The event of a reset goes to the new store; it is not looked at again.\<close>

definition reset_body :: "event_env \<Rightarrow> body_controller \<Rightarrow> body_controller" where
  "reset_body env k =
     (let detached = map me_module (bc_modules (bk_body k));
          st = make_event_store 1000 True False;
          st' = (case es_append_new env ''body_structure'' ''body_structure_reset''
                         [(''detached_modules'', JList (map JStr detached)), (''source'', JStr ''operator_reset'')]
                         (Inl T_OK) '''' None None st of
                   Inl e \<Rightarrow> st | Inr (s, _) \<Rightarrow> s)
      in \<lparr>bk_store = st', bk_body = skeleton, bk_face = DEFAULT_FACE,
          bk_snapshot = waiting_snapshot ''reset'' skeleton DEFAULT_FACE\<rparr>)"

definition navigation_snapshot :: "string \<Rightarrow> body_controller \<Rightarrow> body_snapshot" where
  "navigation_snapshot action k =
     (if bs_decision (bk_snapshot k) = None then waiting_snapshot action (bk_body k) (bk_face k)
      else (bk_snapshot k)\<lparr>bs_action := action, bs_face := bk_face k\<rparr>)"

definition select_next_face :: "body_controller \<Rightarrow> body_controller" where
  "select_next_face k =
     (let k1 = k\<lparr>bk_face := next_face_id (bk_face k) (bc_faces (bk_body k))\<rparr>
      in k1\<lparr>bk_snapshot := navigation_snapshot ''select_next_face'' k1\<rparr>)"

definition select_previous_face :: "body_controller \<Rightarrow> body_controller" where
  "select_previous_face k =
     (let k1 = k\<lparr>bk_face := previous_face_id (bk_face k) (bc_faces (bk_body k))\<rparr>
      in k1\<lparr>bk_snapshot := navigation_snapshot ''select_previous_face'' k1\<rparr>)"

definition find_audit_event :: "event_store \<Rightarrow> string \<Rightarrow> system_event option" where
  "find_audit_event st i = find (\<lambda>e. e_id e = i) (es_events st)"

definition attach_step ::
  "event_env \<Rightarrow> real \<Rightarrow> attach_request \<Rightarrow> string \<Rightarrow> string \<Rightarrow> bool \<Rightarrow> body_controller \<Rightarrow> body_error + body_controller" where
  "attach_step env now r action mount can_run k =
     (case run_attach_pipeline env now (bk_body k) r (bk_store k) of
        Inl e \<Rightarrow> Inl e
      | Inr (st', d, b') \<Rightarrow>
          Inr \<lparr>bk_store = st', bk_body = b', bk_face = bk_face k,
               bk_snapshot =
                 \<lparr>bs_state = ad_status d, bs_action = action, bs_body = b', bs_before = length (bc_modules (bk_body k)),
                  bs_after = length (bc_modules b'), bs_before_mount = occupancy_text (bk_body k) mount,
                  bs_after_mount = occupancy_text b' mount, bs_face = bk_face k, bs_can_run = can_run, bs_can_reset = True,
                  bs_decision = Some d, bs_event = find_audit_event st' (ad_event d)\<rparr>\<rparr>)"

definition self_check_request :: attach_request where
  "self_check_request =
     \<lparr>ar_request = ''orion-interactive-body-attach-self-check'', ar_module = TEST_MODULE, ar_mount = TEST_MOUNT,
      ar_passport = Some \<lparr>mp_module = TEST_MODULE, mp_class = ''sensor'', mp_mount = TEST_MOUNT,
                          mp_capabilities = [''basic_sensor_read'']\<rparr>\<rparr>"

definition run_self_check :: "event_env \<Rightarrow> real \<Rightarrow> body_controller \<Rightarrow> body_error + body_controller" where
  "run_self_check env now k =
     (let b = bk_body k; n = length (bc_modules b); m = mount_state b
      in if m \<noteq> ''free''
         then Inr (k\<lparr>bk_snapshot := (bk_snapshot k)
                       \<lparr>bs_state := ''already_attached'', bs_action := ''attach_self_check_skipped'', bs_body := b,
                        bs_before := n, bs_after := n, bs_before_mount := m, bs_after_mount := m, bs_face := bk_face k,
                        bs_can_run := False, bs_can_reset := True\<rparr>\<rparr>)
         else attach_step env now self_check_request ''attach_self_check'' TEST_MOUNT False k)"

definition controller_attach ::
  "event_env \<Rightarrow> real \<Rightarrow> string \<Rightarrow> string \<Rightarrow> module_passport option \<Rightarrow> string \<Rightarrow> body_controller \<Rightarrow>
   body_error + body_controller" where
  "controller_attach env now module_id mount passport request_id k =
     attach_step env now \<lparr>ar_request = request_id, ar_module = module_id, ar_mount = mount, ar_passport = passport\<rparr>
       ''attach_module'' mount True k"

section \<open>Lemmas\<close>

definition controller_inv :: "body_controller \<Rightarrow> bool" where
  "controller_inv k \<longleftrightarrow> body_inv (bk_body k) \<and> es_enabled (bk_store k)"

lemma controller_inv_new: "controller_inv new_body_controller"
  by (simp add: controller_inv_def new_body_controller_def body_inv_skeleton make_event_store_def)

lemma es_append_new_enabled:
  "es_append_new env sub ty pl t reason tick ts st = Inr (st', e) \<Longrightarrow> es_enabled st' = es_enabled st"
  by (auto simp: es_append_new_def es_append_def validate_event_eq reject_event_def emit_lifecycle_event_def
      split: if_splits sum.splits)

lemma controller_inv_reset: "controller_inv (reset_body env k)"
  using es_append_new_enabled
  by (fastforce simp: controller_inv_def reset_body_def body_inv_skeleton make_event_store_def Let_def split: sum.splits)

lemma controller_inv_navigation [simp]:
  "controller_inv (select_next_face k) = controller_inv k" "controller_inv (select_previous_face k) = controller_inv k"
  by (simp_all add: controller_inv_def select_next_face_def select_previous_face_def Let_def)

lemma attach_step_ok:
  assumes "controller_inv k"
  shows "\<exists>k'. attach_step env now r action mount can_run k = Inr k' \<and> controller_inv k' \<and>
    bk_body k' = next_body (bk_body k) r \<and>
    bs_state (bk_snapshot k') = (if refusal (bk_body k) r = None then ''attached'' else ''rejected'') \<and>
    (\<exists>d. bs_decision (bk_snapshot k') = Some d \<and> ad_event d = ee_uuid env \<and> ad_reason d = map_option audit_reason (refusal (bk_body k) r))"
proof -
  have "es_enabled (bk_store k)"
    using assms by (simp add: controller_inv_def)
  from pipeline_outcome [OF this, of env now "bk_body k" r] obtain d where
    d: "run_attach_pipeline env now (bk_body k) r (bk_store k) =
          Inr (record_event (attempt_event env now (bk_body k) r) (bk_store k), d, next_body (bk_body k) r)"
    "ad_event d = ee_uuid env" "ad_reason d = map_option audit_reason (refusal (bk_body k) r)"
    "ad_status d = (if refusal (bk_body k) r = None then ''attached'' else ''rejected'')"
    by blast
  have "body_inv (next_body (bk_body k) r)"
    using assms body_inv_registered by (auto simp: controller_inv_def next_body_def split: option.splits)
  with assms d show ?thesis
    by (simp add: attach_step_def controller_inv_def record_event_def)
qed

lemma self_check_ok:
  assumes "controller_inv k"
  shows "\<exists>k'. run_self_check env now k = Inr k' \<and> controller_inv k'"
  using assms attach_step_ok [OF assms, of env now self_check_request "''attach_self_check''" TEST_MOUNT False]
  by (auto simp: run_self_check_def Let_def controller_inv_def)

text \<open>Moving the selection there and back, and the reverse, for any selection.\<close>

lemma normalize_cases:
  obtains (known) "normalize_face f FACE_IDS \<in> set FACE_IDS" "next_face_id f FACE_IDS = next_face_id (normalize_face f FACE_IDS) FACE_IDS"
    "previous_face_id f FACE_IDS = previous_face_id (normalize_face f FACE_IDS) FACE_IDS"
proof
  show in_faces: "normalize_face f FACE_IDS \<in> set FACE_IDS"
    by (simp add: normalize_face_def FACE_IDS_def DEFAULT_FACE_def)
  then have "normalize_face (normalize_face f FACE_IDS) FACE_IDS = normalize_face f FACE_IDS"
    by (simp add: normalize_face_def)
  then show "next_face_id f FACE_IDS = next_face_id (normalize_face f FACE_IDS) FACE_IDS"
    "previous_face_id f FACE_IDS = previous_face_id (normalize_face f FACE_IDS) FACE_IDS"
    by (simp_all add: next_face_id_def previous_face_id_def)
qed

text \<open>
  Moving the selection to the next face and back, or back and forth, returns to the face that was selected
  (the default one when none of the body's faces was).
\<close>

theorem face_moves_inverse:
  "previous_face_id (next_face_id f FACE_IDS) FACE_IDS = normalize_face f FACE_IDS \<and>
   next_face_id (previous_face_id f FACE_IDS) FACE_IDS = normalize_face f FACE_IDS"
proof -
  have all: "list_all (\<lambda>g. previous_face_id (next_face_id g FACE_IDS) FACE_IDS = g \<and>
      next_face_id (previous_face_id g FACE_IDS) FACE_IDS = g) FACE_IDS"
    by code_simp
  show ?thesis
    by (rule normalize_cases [of f]) (use all in \<open>simp add: list_all_iff\<close>)
qed

end
