(* ===== verification/Command_Decision.thy ===== *)
theory Command_Decision
  imports Py_Values
begin

text \<open>
  The operator's decisions (\<open>src/qiki/shared/command_decision.py\<close>) and the bridge from a decision to the body
  (\<open>decision_body_bridge.py\<close>): a command is sealed when it is approved, published only if it is the sealed one,
  and carried out at most once. The hash behind the seal and the text of floats are arguments \<open>H\<close> and
  \<open>fr\<close>; nothing rests on which hash it is, only on the two texts compared not colliding. Values are immutable
  here, so \<open>deepcopy\<close> is the identity. The conveyor a decision is carried out by is a function on a state of its
  own. The JSON lines of the trace are left out.
\<close>

section \<open>Data\<close>

datatype stage_state = ST_none | ST_ok | ST_failed

fun stage_value :: "stage_state \<Rightarrow> string" where
  "stage_value ST_none = ''none''"
| "stage_value ST_ok = ''ok''"
| "stage_value ST_failed = ''failed''"

datatype decision_status = Sealed | Published | Rejected

fun status_value :: "decision_status \<Rightarrow> string" where
  "status_value Sealed = ''sealed''"
| "status_value Published = ''published''"
| "status_value Rejected = ''rejected''"

record command_intent =
  ci_kind :: string
  ci_subject :: string
  ci_name :: string
  ci_params :: "(string \<times> pyval) list"
  ci_title :: string

record decision_stages =
  dt_validation :: stage_state
  dt_publish :: stage_state
  dt_ack :: stage_state
  dt_effect :: stage_state
  dt_audit :: stage_state

definition no_stages :: decision_stages where
  "no_stages = \<lparr>dt_validation = ST_none, dt_publish = ST_none, dt_ack = ST_none, dt_effect = ST_none, dt_audit = ST_none\<rparr>"

record command_decision =
  cd_id :: string
  cd_intent :: command_intent
  cd_digest :: string
  cd_status :: decision_status
  cd_stages :: decision_stages
  cd_reasons :: "string list"

section \<open>The seal\<close>

definition canonical :: "(real \<Rightarrow> string) \<Rightarrow> string \<Rightarrow> string \<Rightarrow> string \<Rightarrow> (string \<times> pyval) list \<Rightarrow> string" where
  "canonical fr kind subject name params =
     dumps fr (V_dict [(''kind'', V_str kind), (''subject'', V_str subject), (''name'', V_str name), (''parameters'', V_dict params)])"

definition binding_digest ::
  "(string \<Rightarrow> string) \<Rightarrow> (real \<Rightarrow> string) \<Rightarrow> string \<Rightarrow> string \<Rightarrow> string \<Rightarrow> (string \<times> pyval) list \<Rightarrow> string" where
  "binding_digest H fr kind subject name params = H (canonical fr kind subject name params)"

definition intent_digest :: "(string \<Rightarrow> string) \<Rightarrow> (real \<Rightarrow> string) \<Rightarrow> command_intent \<Rightarrow> string" where
  "intent_digest H fr i = binding_digest H fr (ci_kind i) (ci_subject i) (ci_name i) (ci_params i)"

definition seal_decision ::
  "(string \<Rightarrow> string) \<Rightarrow> (real \<Rightarrow> string) \<Rightarrow> string \<Rightarrow> command_intent \<Rightarrow> command_decision" where
  "seal_decision H fr decision_id intent =
     (let digest = intent_digest H fr intent;
          subject_required = (py_upper (py_strip (ci_kind intent)) = ''NATS_COMMAND'');
          invalid = (py_strip (ci_name intent) = [] \<or> (subject_required \<and> py_strip (ci_subject intent) = []))
      in if invalid
         then \<lparr>cd_id = decision_id, cd_intent = intent, cd_digest = digest, cd_status = Rejected,
               cd_stages = no_stages\<lparr>dt_validation := ST_failed\<rparr>, cd_reasons = [''CMD_EMPTY_COMMAND'']\<rparr>
         else \<lparr>cd_id = decision_id, cd_intent = intent, cd_digest = digest, cd_status = Sealed,
               cd_stages = no_stages\<lparr>dt_validation := ST_ok\<rparr>, cd_reasons = []\<rparr>)"

record authorization =
  pa_allowed :: bool
  pa_decision :: command_decision
  pa_reasons :: "string list"

definition authorize_publish ::
  "(string \<Rightarrow> string) \<Rightarrow> (real \<Rightarrow> string) \<Rightarrow> command_decision \<Rightarrow> string \<Rightarrow> string \<Rightarrow> string \<Rightarrow> (string \<times> pyval) list \<Rightarrow>
   authorization" where
  "authorize_publish H fr d kind subject name params =
     (if cd_status d = Published
      then \<lparr>pa_allowed = False, pa_decision = d, pa_reasons = [''CMD_ALREADY_PUBLISHED'']\<rparr>
      else if cd_status d = Rejected
      then \<lparr>pa_allowed = False, pa_decision = d, pa_reasons = cd_reasons d\<rparr>
      else if binding_digest H fr kind subject name params \<noteq> cd_digest d
      then \<lparr>pa_allowed = False,
            pa_decision = d\<lparr>cd_status := Rejected, cd_stages := (cd_stages d)\<lparr>dt_publish := ST_failed\<rparr>,
                             cd_reasons := cd_reasons d @ [''CMD_SPOOF_MISMATCH'']\<rparr>,
            pa_reasons = [''CMD_SPOOF_MISMATCH'']\<rparr>
      else \<lparr>pa_allowed = True,
            pa_decision = d\<lparr>cd_status := Published, cd_stages := (cd_stages d)\<lparr>dt_publish := ST_ok\<rparr>\<rparr>,
            pa_reasons = []\<rparr>)"

definition stage_or :: "stage_state option \<Rightarrow> stage_state \<Rightarrow> stage_state" where
  "stage_or a b = (case a of Some s \<Rightarrow> s | None \<Rightarrow> b)"

definition mark_stage ::
  "stage_state option \<Rightarrow> stage_state option \<Rightarrow> stage_state option \<Rightarrow> command_decision \<Rightarrow> command_decision" where
  "mark_stage ack effect audit d =
     d\<lparr>cd_stages := (cd_stages d)\<lparr>dt_ack := stage_or ack (dt_ack (cd_stages d)),
                                  dt_effect := stage_or effect (dt_effect (cd_stages d)),
                                  dt_audit := stage_or audit (dt_audit (cd_stages d))\<rparr>\<rparr>"

section \<open>The store\<close>

record decision_store =
  ds_max :: nat
  ds_by_id :: "(string, command_decision) dict"

definition new_decision_store :: "int \<Rightarrow> decision_store" where
  "new_decision_store max_decisions = \<lparr>ds_max = nat (max 1 max_decisions), ds_by_id = []\<rparr>"

text \<open>\<open>while len(d) > n: d.pop(next(iter(d)))\<close>: the first key goes first.\<close>

fun evict_oldest :: "nat \<Rightarrow> ('k, 'v) dict \<Rightarrow> ('k, 'v) dict" where
  "evict_oldest n [] = []"
| "evict_oldest n (e # m) = (if length (e # m) > n then evict_oldest n m else e # m)"

definition ds_put :: "command_decision \<Rightarrow> decision_store \<Rightarrow> decision_store" where
  "ds_put d s = s\<lparr>ds_by_id := evict_oldest (ds_max s) (dict_set (ds_by_id s) (cd_id d) d)\<rparr>"

definition ds_get :: "decision_store \<Rightarrow> string \<Rightarrow> command_decision option" where
  "ds_get s i = dict_get (ds_by_id s) i"

definition ds_has :: "decision_store \<Rightarrow> string \<Rightarrow> bool" where
  "ds_has s i \<longleftrightarrow> i \<in> fst ` set (ds_by_id s)"

section \<open>From a decision to the body\<close>

definition preconditions_ok :: "bool \<Rightarrow> bool \<Rightarrow> bool \<times> string list" where
  "preconditions_ok power_blocked thermal_blocked =
     (let codes = (if power_blocked then [''BRIDGE_POWER_BLOCK''] else []) @
                  (if thermal_blocked then [''BRIDGE_THERMAL_BLOCK''] else [])
      in (codes = [], codes))"

record bridge_result =
  br_decision :: command_decision
  br_reached :: bool
  br_reasons :: "string list"

definition bridge_decision_to_body ::
  "(string \<Rightarrow> string) \<Rightarrow> (real \<Rightarrow> string) \<Rightarrow> ('s \<Rightarrow> 's \<times> bool \<times> string) \<Rightarrow> bool \<Rightarrow> bool \<Rightarrow> command_decision \<Rightarrow> 's \<Rightarrow>
   's \<times> bridge_result" where
  "bridge_decision_to_body H fr runner power_blocked thermal_blocked d s =
     (if cd_status d \<noteq> Published
      then (s, \<lparr>br_decision = d, br_reached = False, br_reasons = [''BRIDGE_DECISION_NOT_PUBLISHED'']\<rparr>)
      else if dt_ack (cd_stages d) \<noteq> ST_none \<or> dt_effect (cd_stages d) \<noteq> ST_none
      then (s, \<lparr>br_decision = d, br_reached = False, br_reasons = [''DECISION_ALREADY_EXECUTED'']\<rparr>)
      else let (ok, codes) = preconditions_ok power_blocked thermal_blocked
           in if \<not> ok then (s, \<lparr>br_decision = d, br_reached = False, br_reasons = codes\<rparr>)
              else if intent_digest H fr (cd_intent d) \<noteq> cd_digest d
              then (s, \<lparr>br_decision = d, br_reached = False, br_reasons = [''BRIDGE_SEAL_DIGEST_DRIFT'']\<rparr>)
              else let (s', attached, audit_event_id) = runner s
                   in (s', \<lparr>br_decision = mark_stage (Some ST_ok) (Some (if attached then ST_ok else ST_failed))
                                              (Some (if audit_event_id \<noteq> [] then ST_ok else ST_failed)) d,
                            br_reached = True, br_reasons = []\<rparr>))"

definition decision_trace_record :: "command_decision \<Rightarrow> (string \<times> pyval) list \<Rightarrow> (string, pyval) dict" where
  "decision_trace_record d extra =
     (let st = cd_stages d; i = cd_intent d
      in dict_update
           [(''decision_id'', V_str (cd_id d)), (''status'', V_str (status_value (cd_status d))), (''kind'', V_str (ci_kind i)),
            (''subject'', V_str (ci_subject i)), (''name'', V_str (ci_name i)),
            (''operator_facing_title'', V_str (ci_title i)), (''digest'', V_str (cd_digest d)),
            (''stages'', V_dict [(''validation'', V_str (stage_value (dt_validation st))),
                                 (''publish'', V_str (stage_value (dt_publish st))), (''ack'', V_str (stage_value (dt_ack st))),
                                 (''effect'', V_str (stage_value (dt_effect st))), (''audit'', V_str (stage_value (dt_audit st)))]),
            (''reason_codes'', V_list (map V_str (cd_reasons d)))]
           extra)"

section \<open>The seal binds the command\<close>

lemma canonical_inj:
  assumes "number_texts F fr" "floats_in F (V_dict ps)" "floats_in F (V_dict ps')"
    and "canonical fr k su n ps = canonical fr k' su' n' ps'"
  shows "k = k' \<and> su = su' \<and> n = n' \<and> sorted_keys (V_dict ps) = sorted_keys (V_dict ps')"
proof -
  have sort: "sort_key fst [(''kind'', a), (''subject'', b), (''name'', c), (''parameters'', d)] =
      [(''kind'', a), (''name'', c), (''parameters'', d), (''subject'', b)]" for a b c d :: pyval
    by simp
  have str: "sorted_keys (V_str x) = V_str x" for x
    by simp
  from dumps_inj [OF assms(1) _ _ assms(4) [unfolded canonical_def]] assms(2,3) show ?thesis
    by (simp add: sorted_keys_dict sort str del: sorted_keys.simps)
qed

definition no_collision :: "(string \<Rightarrow> string) \<Rightarrow> string \<Rightarrow> string \<Rightarrow> bool" where
  "no_collision H a b \<longleftrightarrow> (H a = H b \<longrightarrow> a = b)"

lemma authorize_allowed:
  "pa_allowed (authorize_publish H fr d kind subject name params) \<longleftrightarrow>
     cd_status d = Sealed \<and> binding_digest H fr kind subject name params = cd_digest d"
  by (cases "cd_status d") (auto simp: authorize_publish_def)

lemma authorize_status:
  "cd_status (pa_decision (authorize_publish H fr d kind subject name params)) =
     (if pa_allowed (authorize_publish H fr d kind subject name params) then Published
      else if cd_status d = Sealed then Rejected else cd_status d)"
  by (cases "cd_status d") (auto simp: authorize_publish_def)

lemma seal_status:
  "cd_status (seal_decision H fr i intent) =
     (if py_strip (ci_name intent) = [] \<or>
         (py_upper (py_strip (ci_kind intent)) = ''NATS_COMMAND'' \<and> py_strip (ci_subject intent) = [])
      then Rejected else Sealed)"
  by (simp add: seal_decision_def Let_def)

lemma seal_fields [simp]:
  "cd_digest (seal_decision H fr i intent) = intent_digest H fr intent"
  "cd_intent (seal_decision H fr i intent) = intent"
  by (simp_all add: seal_decision_def Let_def)

text \<open>
  What is published is what was approved: when a command is let through against the decision sealed for an
  intent, it is the approved command: the same kind, subject and name, and the same parameters up to the
  order of their keys; its name is not blank, nor is its subject when it is a bus command. The hash may be any: only the
  two texts hashed here must not collide. \<open>F\<close> are the floats, which Python prints differently.
\<close>

theorem published_is_approved:
  assumes "number_texts F fr" "floats_in F (V_dict (ci_params intent))" "floats_in F (V_dict params)"
    and "no_collision H (canonical fr kind subject name params)
                        (canonical fr (ci_kind intent) (ci_subject intent) (ci_name intent) (ci_params intent))"
    and "pa_allowed (authorize_publish H fr (seal_decision H fr i intent) kind subject name params)"
  shows "kind = ci_kind intent \<and> subject = ci_subject intent \<and> name = ci_name intent \<and>
         sorted_keys (V_dict params) = sorted_keys (V_dict (ci_params intent)) \<and>
         py_strip name \<noteq> [] \<and> \<not> (py_upper (py_strip kind) = ''NATS_COMMAND'' \<and> py_strip subject = [])"
proof -
  have sealed: "cd_status (seal_decision H fr i intent) = Sealed"
    and digest: "binding_digest H fr kind subject name params = intent_digest H fr intent"
    using assms(5) by (simp_all add: authorize_allowed)
  have "canonical fr kind subject name params =
        canonical fr (ci_kind intent) (ci_subject intent) (ci_name intent) (ci_params intent)"
    using assms(4) digest by (simp add: no_collision_def binding_digest_def intent_digest_def)
  from canonical_inj [OF assms(1,3,2) this] sealed show ?thesis
    by (auto simp: seal_status split: if_splits)
qed

definition example_intent :: command_intent where
  "example_intent = \<lparr>ci_kind = ''BODY_ATTACH'', ci_subject = [], ci_name = ''attach'',
     ci_params = [(''mount'', V_str ''M1''), (''mass'', V_float (Fin (1/2)))], ci_title = ''Attach''\<rparr>"

lemma published_is_approved_witness:
  "sorted_keys (V_dict [(''mass'', V_float (Fin (1/2))), (''mount'', V_str ''M1'')]) = sorted_keys (V_dict (ci_params example_intent))"
proof -
  have texts: "number_texts {1/2} (\<lambda>_. ''0.5'')"
    by (simp add: number_texts_def number_char_def point_char_def Let_def code_def)
  have same: "binding_digest id (\<lambda>_. ''0.5'') ''BODY_ATTACH'' [] ''attach'' [(''mass'', V_float (Fin (1/2))), (''mount'', V_str ''M1'')] =
      intent_digest id (\<lambda>_. ''0.5'') example_intent"
    by (simp add: binding_digest_def intent_digest_def canonical_def example_intent_def)
  have kind: "py_upper (py_strip ''BODY_ATTACH'') \<noteq> ''NATS_COMMAND''" and name: "py_strip ''attach'' \<noteq> []"
    by code_simp+
  have sealed: "cd_status (seal_decision id (\<lambda>_. ''0.5'') [] example_intent) = Sealed"
    using kind name by (simp add: seal_status example_intent_def)
  show ?thesis
    using published_is_approved [of "{1/2}" "\<lambda>_. ''0.5''" example_intent
      "[(''mass'', V_float (Fin (1/2))), (''mount'', V_str ''M1'')]" id "''BODY_ATTACH''" "[]" "''attach''" "[]"]
    by (simp add: texts no_collision_def authorize_allowed sealed same)
      (simp add: example_intent_def)
qed

section \<open>The store keeps the newest\<close>

lemma evict_oldest_drop: "evict_oldest n m = drop (length m - n) m"
  by (induction m) (auto simp: Suc_diff_le not_less drop_Cons')

lemma evict_oldest_length: "length (evict_oldest n m) = min n (length m)"
  by (simp add: evict_oldest_drop)

lemma put_bounded: "length (ds_by_id (ds_put d s)) \<le> ds_max s"
  by (simp add: ds_put_def evict_oldest_length)

section \<open>At most one decision reaches the body\<close>

lemma bridge_reached:
  "br_reached (snd (bridge_decision_to_body H fr runner p t d s)) \<longleftrightarrow>
     cd_status d = Published \<and> dt_ack (cd_stages d) = ST_none \<and> dt_effect (cd_stages d) = ST_none \<and> \<not> p \<and> \<not> t \<and>
     intent_digest H fr (cd_intent d) = cd_digest d"
  by (auto simp: bridge_decision_to_body_def preconditions_ok_def Let_def split: prod.splits)

lemma bridge_untouched:
  "\<not> br_reached (snd (bridge_decision_to_body H fr runner p t d s)) \<Longrightarrow>
     fst (bridge_decision_to_body H fr runner p t d s) = s \<and> br_decision (snd (bridge_decision_to_body H fr runner p t d s)) = d"
  by (auto simp: bridge_decision_to_body_def preconditions_ok_def Let_def split: prod.splits if_splits)

lemma bridge_done:
  "br_reached (snd (bridge_decision_to_body H fr runner p t d s)) \<Longrightarrow>
     fst (bridge_decision_to_body H fr runner p t d s) = fst (runner s) \<and>
     dt_ack (cd_stages (br_decision (snd (bridge_decision_to_body H fr runner p t d s)))) = ST_ok"
  by (auto simp: bridge_decision_to_body_def preconditions_ok_def Let_def mark_stage_def stage_or_def
      split: prod.splits if_splits)

text \<open>Repeated attempts, each with the preconditions of its moment; the caller keeps the decision it gets back.\<close>

fun bridge_run ::
  "(string \<Rightarrow> string) \<Rightarrow> (real \<Rightarrow> string) \<Rightarrow> ('s \<Rightarrow> 's \<times> bool \<times> string) \<Rightarrow> (bool \<times> bool) list \<Rightarrow> command_decision \<Rightarrow> 's \<Rightarrow>
   's \<times> command_decision \<times> bool list" where
  "bridge_run H fr runner [] d s = (s, d, [])"
| "bridge_run H fr runner ((p, t) # as) d s =
     (let (s', r) = bridge_decision_to_body H fr runner p t d s;
          (s'', d', rs) = bridge_run H fr runner as (br_decision r) s'
      in (s'', d', br_reached r # rs))"

lemma bridge_run_acked:
  "dt_ack (cd_stages d) \<noteq> ST_none \<Longrightarrow> bridge_run H fr runner as d s = (s, d, map (\<lambda>_. False) as)"
proof (induction as)
  case (Cons a as)
  obtain p t where a: "a = (p, t)"
    by (cases a)
  have no: "\<not> br_reached (snd (bridge_decision_to_body H fr runner p t d s))"
    using Cons.prems by (simp add: bridge_reached)
  show ?case
    using bridge_untouched [OF no] no Cons by (simp add: a case_prod_beta Let_def)
qed simp

definition may_reach :: "(string \<Rightarrow> string) \<Rightarrow> (real \<Rightarrow> string) \<Rightarrow> command_decision \<Rightarrow> bool" where
  "may_reach H fr d \<longleftrightarrow>
     cd_status d = Published \<and> dt_ack (cd_stages d) = ST_none \<and> dt_effect (cd_stages d) = ST_none \<and>
     intent_digest H fr (cd_intent d) = cd_digest d"

text \<open>
  C28. However often a decision is brought to the body, under whatever power and thermal conditions, at most one
  attempt gets there, and none unless the decision is published, new and still carries its seal. When one does, the
  conveyor has run exactly once and the decision is acknowledged; when none does, the body and the decision are
  what they were.
\<close>

theorem decision_reaches_body_once:
  "(\<lambda>(s', d', reached).
      length (filter id reached) \<le> (if may_reach H fr d then 1 else 0) \<and>
      (if True \<in> set reached then s' = fst (runner s) \<and> dt_ack (cd_stages d') = ST_ok else s' = s \<and> d' = d))
     (bridge_run H fr runner attempts d s)"
proof (induction attempts)
  case (Cons a as)
  obtain p t where a: "a = (p, t)"
    by (cases a)
  obtain s1 r where step: "bridge_decision_to_body H fr runner p t d s = (s1, r)"
    by (cases "bridge_decision_to_body H fr runner p t d s")
  show ?case
  proof (cases "br_reached r")
    case True
    have may: "may_reach H fr d"
      using bridge_reached [of H fr runner p t d s] step True by (simp add: may_reach_def)
    have s1: "s1 = fst (runner s)" and ack: "dt_ack (cd_stages (br_decision r)) = ST_ok"
      using bridge_done [of H fr runner p t d s] step True by simp_all
    have rest: "bridge_run H fr runner as (br_decision r) s1 = (s1, br_decision r, map (\<lambda>_. False) as)"
      by (rule bridge_run_acked) (simp add: ack)
    show ?thesis
      by (simp add: a step rest [unfolded s1] True may s1 ack filter_empty_conv)
  next
    case False
    then have "s1 = s" "br_decision r = d"
      using bridge_untouched [of H fr runner p t d s] step by simp_all
    then show ?thesis
      using Cons.IH False by (simp add: a step case_prod_beta Let_def)
  qed
qed simp

lemma bridge_cases:
  assumes "bridge_decision_to_body H fr runner p t d s = (s', r)"
  obtains (refused) "\<not> br_reached r" "s' = s" "br_decision r = d"
  | (reached) "br_reached r" "s' = fst (runner s)" "cd_id (br_decision r) = cd_id d"
      "cd_intent (br_decision r) = cd_intent d" "cd_status (br_decision r) = Published"
      "dt_ack (cd_stages (br_decision r)) = ST_ok" "dt_ack (cd_stages d) = ST_none" "cd_status d = Published"
      "dt_effect (cd_stages (br_decision r)) = (if fst (snd (runner s)) then ST_ok else ST_failed)"
  using assms
  by (auto simp: bridge_decision_to_body_def preconditions_ok_def Let_def mark_stage_def stage_or_def
      split: prod.splits if_splits)

end
