(* ===== verification/Attach_Procedure.thy ===== *)
theory Attach_Procedure
  imports Body_Controller Command_Decision
begin

text \<open>
  The way of a proposed command from the operator's approval to the body
  (\<open>src/qiki/services/operator_console/orion_v/attach_procedure.py\<close> and the handlers of \<open>app.py\<close> around it):
  answers with a pending action, the confirmation that seals it, its execution against the seal and the staged
  installation of a module with its holds, its resumption and its abort.

  The console runs on one event loop. A step is what runs between two \<open>await\<close>s: a coroutine suspended in the
  publication of an audit record is a task in the state and may go on any number of steps later, or see that its
  procedure was aborted. A spawned coroutine runs its first part at the end of the step that spawned it. A
  procedure is an object: a suspended coroutine keeps its own, whatever the current one is. The dialogs are modal:
  there is one at a time. What is shown (help texts, stage log, ledger lines, consequences in the dialogue) is left
  out; the thermal status is the one the view model of the telemetry gives and comes with the telemetry here.
\<close>

section \<open>Procedures\<close>

datatype attach_stage = S1_inspect | S2_prepare | S3_transfer | S4_power | S5_dock

datatype proc_status = Running | Awaiting | Holding | Done | Failed | Aborted

record attach_proc =
  ap_decision :: command_decision
  ap_origin :: string
  ap_params :: "(string \<times> pyval) list"
  ap_stage :: attach_stage
  ap_status :: proc_status
  ap_complication :: string
  ap_required :: int
  ap_done :: int
  ap_auto_hold :: bool

definition new_proc :: "command_decision \<Rightarrow> string \<Rightarrow> (string \<times> pyval) list \<Rightarrow> attach_proc" where
  "new_proc d origin params =
     \<lparr>ap_decision = d, ap_origin = origin, ap_params = params, ap_stage = S1_inspect, ap_status = Running,
      ap_complication = [], ap_required = 0, ap_done = 0, ap_auto_hold = False\<rparr>"

definition proc_active :: "attach_proc \<Rightarrow> bool" where
  "proc_active p \<longleftrightarrow> ap_status p \<in> {Running, Awaiting, Holding}"

definition proc_paused :: "attach_proc \<Rightarrow> bool" where
  "proc_paused p \<longleftrightarrow> ap_status p \<in> {Awaiting, Holding}"

text \<open>\<open>str(params.get(k) or "")\<close>.\<close>

definition param_text :: "(real \<Rightarrow> string) \<Rightarrow> (string \<times> pyval) list \<Rightarrow> string \<Rightarrow> string" where
  "param_text fr params k = str_val fr (v_or (vget params k) (V_str []))"

definition transfer_ticks_for_mount :: "string \<Rightarrow> int" where
  "transfer_ticks_for_mount mount =
     (case py_int (dropWhile (\<lambda>c. c = CHR ''F'') (py_upper (py_strip mount))) of
        None \<Rightarrow> 3 | Some i \<Rightarrow> 2 + max 0 (min i 11) div 4)"

section \<open>Preconditions\<close>

record telemetry_view =
  tv_power :: pyval
  tv_sim :: pyval
  tv_thermal :: string

definition world_paused :: "telemetry_view \<Rightarrow> bool" where
  "world_paused t = (case tv_sim t of V_dict d \<Rightarrow> truthy (vget d ''paused'') | _ \<Rightarrow> False)"

definition body_attach_preconditions :: "telemetry_view \<Rightarrow> bool \<times> bool \<times> string list" where
  "body_attach_preconditions t =
     (let (power_blocked, detail) =
            (case tv_power t of
               V_dict (e # es) \<Rightarrow>
                 (let d = e # es; shed = truthy (vget d ''load_shedding''); throttled = truthy (vget d ''pdu_throttled'')
                  in (shed \<or> throttled,
                      if shed \<or> throttled then [if shed then ''load_shedding'' else ''pdu_throttled''] else []))
             | _ \<Rightarrow> (True, [''POWER_TELEM_MISSING'']));
          thermal_blocked = (tv_thermal t \<noteq> ''green'')
      in (power_blocked, thermal_blocked, detail @ (if thermal_blocked then [''thermal_'' @ tv_thermal t] else [])))"

definition window_open :: "telemetry_view \<Rightarrow> bool" where
  "window_open t = (case body_attach_preconditions t of (p, h, _) \<Rightarrow> \<not> p \<and> \<not> h)"

definition window_detail :: "telemetry_view \<Rightarrow> string list" where
  "window_detail t = snd (snd (body_attach_preconditions t))"

definition or_text :: "string \<Rightarrow> string \<Rightarrow> string" where
  "or_text d s = (if s = [] then d else s)"

section \<open>The console\<close>

record pending_action =
  ac_kind :: string
  ac_subject :: string
  ac_name :: string
  ac_params :: "(string \<times> pyval) list"
  ac_title :: string

definition action_kind :: "pending_action \<Rightarrow> string" where
  "action_kind a = py_strip (or_text ''NATS_COMMAND'' (ac_kind a))"

definition intent_of :: "pending_action \<Rightarrow> command_intent" where
  "intent_of a =
     \<lparr>ci_kind = action_kind a, ci_subject = py_strip (ac_subject a), ci_name = py_strip (ac_name a),
      ci_params = ac_params a, ci_title = py_strip (ac_title a)\<rparr>"

record chat_response =
  cr_request :: string
  cr_legality :: "string option"

datatype resume_point = After_S1 | After_S2 | After_S4

text \<open>\<open>Outcome\<close>: the execution of a bus command or a procedure waits for its outcome.\<close>

datatype co_task = After nat resume_point | Outcome

record console =
  co_procs :: "attach_proc list"
  co_current :: "nat option"
  co_decisions :: decision_store
  co_asked :: "string list"
  co_response :: "chat_response option"
  co_action :: "pending_action option"
  co_pending_id :: "string option"
  co_dialog :: bool
  co_spent :: "(string, int) dict"
  co_body :: body_controller
  co_tele :: telemetry_view
  co_replay :: bool
  co_tasks :: "co_task list"
  co_shown :: "(string \<times> command_intent) list" \<comment> \<open>the confirmations shown\<close>
  co_executed :: "pending_action list" \<comment> \<open>bus commands and procedures started\<close>
  co_traces :: "command_decision list" \<comment> \<open>audit records of decisions that reached the body\<close>

definition new_console :: "bool \<Rightarrow> console" where
  "new_console replay =
     \<lparr>co_procs = [], co_current = None, co_decisions = new_decision_store 500, co_asked = [], co_response = None,
      co_action = None, co_pending_id = None, co_dialog = False, co_spent = [], co_body = new_body_controller,
      co_tele = \<lparr>tv_power = V_none, tv_sim = V_none, tv_thermal = ''unknown''\<rparr>, co_replay = replay, co_tasks = [],
      co_shown = [], co_executed = [], co_traces = []\<rparr>"

definition proc_of :: "console \<Rightarrow> nat \<Rightarrow> attach_proc" where
  "proc_of c i = co_procs c ! i"

definition set_proc :: "nat \<Rightarrow> attach_proc \<Rightarrow> console \<Rightarrow> console" where
  "set_proc i p c = c\<lparr>co_procs := (co_procs c)[i := p]\<rparr>"

definition suspend :: "co_task \<Rightarrow> console \<Rightarrow> console" where
  "suspend t c = c\<lparr>co_tasks := co_tasks c @ [t]\<rparr>"

definition procedure_active :: "console \<Rightarrow> bool" where
  "procedure_active c = (case co_current c of None \<Rightarrow> False | Some i \<Rightarrow> proc_active (proc_of c i))"

section \<open>The answer, the approval and the cancellation\<close>

text \<open>Only an answer to a question that was asked counts; a new candidate is a new decision.\<close>

definition on_response :: "string \<Rightarrow> string option \<Rightarrow> pending_action option \<Rightarrow> console \<Rightarrow> console" where
  "on_response rid legality action c =
     (if rid \<notin> set (co_asked c) then c
      else c\<lparr>co_asked := removeAll rid (co_asked c), co_response := Some \<lparr>cr_request = rid, cr_legality = legality\<rparr>,
             co_action := action, co_pending_id := (if action = None then co_pending_id c else None)\<rparr>)"

definition pending_is_approvable :: "console \<Rightarrow> bool" where
  "pending_is_approvable c = (case co_response c of None \<Rightarrow> False | Some r \<Rightarrow> cr_legality r = Some ''allowed'')"

definition seal_pending_decision ::
  "(string \<Rightarrow> string) \<Rightarrow> (real \<Rightarrow> string) \<Rightarrow> string \<Rightarrow> pending_action \<Rightarrow> console \<Rightarrow> console" where
  "seal_pending_decision H fr u a c =
     c\<lparr>co_decisions := ds_put (seal_decision H fr u (intent_of a)) (co_decisions c), co_pending_id := Some u\<rparr>"

definition pending_decision :: "console \<Rightarrow> command_decision option" where
  "pending_decision c = (case co_pending_id c of None \<Rightarrow> None | Some u \<Rightarrow> if u = [] then None else ds_get (co_decisions c) u)"

definition already_published :: "console \<Rightarrow> bool" where
  "already_published c =
     (case co_pending_id c of
        None \<Rightarrow> False
      | Some u \<Rightarrow> (case ds_get (co_decisions c) u of Some d \<Rightarrow> cd_status d = Published | None \<Rightarrow> False))"

definition confirm_pending_action ::
  "(string \<Rightarrow> string) \<Rightarrow> (real \<Rightarrow> string) \<Rightarrow> string \<Rightarrow> console \<Rightarrow> console" where
  "confirm_pending_action H fr u c =
     (case co_action c of
        None \<Rightarrow> c
      | Some a \<Rightarrow>
          if \<not> pending_is_approvable c then c
          else if already_published c then c
          else (seal_pending_decision H fr u a c)\<lparr>co_dialog := True, co_shown := co_shown c @ [(u, intent_of a)]\<rparr>)"

definition cancel_pending_action :: "console \<Rightarrow> console" where
  "cancel_pending_action c = c\<lparr>co_action := None\<rparr>"

text \<open>A live track found for the candidate goes into its parameters, whether they were approved or not.\<close>

definition enrich_pending_action :: "string \<Rightarrow> string \<Rightarrow> console \<Rightarrow> console" where
  "enrich_pending_action track label c =
     (case co_action c of
        None \<Rightarrow> c
      | Some a \<Rightarrow>
          (let p1 = dict_set (ac_params a) ''public_track_id'' (V_str track);
               p2 = (if label = [] then p1 else dict_set p1 ''public_track_label'' (V_str label))
           in c\<lparr>co_action := Some (a\<lparr>ac_params := p2\<rparr>)\<rparr>))"

definition authorize_pending ::
  "(string \<Rightarrow> string) \<Rightarrow> (real \<Rightarrow> string) \<Rightarrow> pending_action \<Rightarrow> console \<Rightarrow> console \<times> bool" where
  "authorize_pending H fr a c =
     (case pending_decision c of
        None \<Rightarrow> (c, False)
      | Some d \<Rightarrow>
          (let auth = authorize_publish H fr d (action_kind a) (py_strip (ac_subject a)) (py_strip (ac_name a)) (ac_params a)
           in (c\<lparr>co_decisions := ds_put (pa_decision auth) (co_decisions c)\<rparr>, pa_allowed auth)))"

section \<open>The conveyor\<close>

text \<open>
  The strings among the items of \<open>provided_capabilities\<close>; \<open>None\<close> where the value is truthy and not iterable, so that the
  loop raises.
\<close>

definition capabilities_of :: "pyval \<Rightarrow> string list option" where
  "capabilities_of v =
     (if \<not> truthy v then Some []
      else case v of
        V_list vs \<Rightarrow> Some (concat (map (\<lambda>x. case x of V_str s \<Rightarrow> [s] | _ \<Rightarrow> []) vs))
      | V_str s \<Rightarrow> Some (map (\<lambda>ch. [ch]) s)
      | V_dict d \<Rightarrow> Some (map fst d)
      | _ \<Rightarrow> None)"

text \<open>The runner acts on the controller or on the error that has stopped it.\<close>

definition attach_runner ::
  "(real \<Rightarrow> string) \<Rightarrow> event_env \<Rightarrow> real \<Rightarrow> (string \<times> pyval) list \<Rightarrow> string \<Rightarrow> body_error + body_controller \<Rightarrow>
   (body_error + body_controller) \<times> bool \<times> string" where
  "attach_runner fr env now params decision_id s =
     (case s of
        Inl e \<Rightarrow> (Inl e, False, [])
      | Inr k \<Rightarrow>
          (let module_id = py_strip (param_text fr params ''module_id'');
               mount = py_strip (param_text fr params ''mount'');
               module_class = py_strip (param_text fr params ''module_class'')
           in case capabilities_of (vget params ''provided_capabilities'') of
                None \<Rightarrow> (Inl Type_error, False, [])
              | Some caps \<Rightarrow>
                  (let passport =
                         (if module_id \<noteq> [] \<and> module_class \<noteq> [] \<and> \<not> truthy (vget params ''passport_damaged'')
                          then Some \<lparr>mp_module = module_id, mp_class = module_class, mp_mount = mount, mp_capabilities = caps\<rparr>
                          else None)
                   in case controller_attach env now module_id mount passport (''qiki-decision:'' @ decision_id) k of
                        Inl e \<Rightarrow> (Inl e, False, [])
                      | Inr k' \<Rightarrow>
                          (Inr k', bs_state (bk_snapshot k') = ''attached'',
                           case bs_decision (bk_snapshot k') of Some d \<Rightarrow> ad_event d | None \<Rightarrow> []))))"

section \<open>The stages\<close>

definition proc_mount :: "(real \<Rightarrow> string) \<Rightarrow> attach_proc \<Rightarrow> string" where
  "proc_mount fr p = param_text fr (ap_params p) ''mount''"

definition inspect_code :: "body_config \<Rightarrow> string \<Rightarrow> string option" where
  "inspect_code b mount =
     (let occ = dict_getd (bc_occupancy b) mount ''''
      in if mount \<notin> set (bc_faces b) then Some ''MOUNT_POINT_UNKNOWN''
         else if occ \<noteq> [] \<and> occ \<noteq> ''free'' then Some ''MOUNT_POINT_OCCUPIED''
         else None)"

definition stage_inspect :: "(real \<Rightarrow> string) \<Rightarrow> nat \<Rightarrow> console \<Rightarrow> console" where
  "stage_inspect fr i c =
     (let p = proc_of c i
      in case inspect_code (bs_body (bk_snapshot (co_body c))) (proc_mount fr p) of
           Some code' \<Rightarrow> set_proc i (p\<lparr>ap_status := Aborted, ap_complication := code'\<rparr>) c
         | None \<Rightarrow> suspend (After i After_S1) c)"

definition stage_prepare :: "nat \<Rightarrow> console \<Rightarrow> console" where
  "stage_prepare i c =
     (let p = proc_of c i
      in if truthy (vget (ap_params p) ''passport_damaged'')
         then set_proc i (p\<lparr>ap_status := Awaiting, ap_complication := ''PASSPORT_DAMAGED''\<rparr>) c
         else suspend (After i After_S2) c)"

definition stage_transfer :: "(real \<Rightarrow> string) \<Rightarrow> nat \<Rightarrow> console \<Rightarrow> console" where
  "stage_transfer fr i c =
     (let p = proc_of c i
      in if ap_required p \<le> 0
         then set_proc i (p\<lparr>ap_required := transfer_ticks_for_mount (proc_mount fr p), ap_done := 0\<rparr>) c
         else c)"

definition join_codes :: "string \<Rightarrow> string list \<Rightarrow> string" where
  "join_codes d codes = or_text d (join '','' codes)"

definition stage_power :: "nat \<Rightarrow> console \<Rightarrow> console" where
  "stage_power i c =
     (let p = proc_of c i
      in if \<not> window_open (co_tele c)
         then set_proc i (p\<lparr>ap_status := Holding, ap_auto_hold := False,
                            ap_complication := join_codes ''POWER_BLOCK'' (window_detail (co_tele c))\<rparr>) c
         else suspend (After i After_S4) c)"

definition pipeline_reason :: "body_controller \<Rightarrow> string" where
  "pipeline_reason k =
     (case bs_decision (bk_snapshot k) of Some d \<Rightarrow> (case ad_reason d of Some r \<Rightarrow> r | None \<Rightarrow> []) | None \<Rightarrow> [])"

text \<open>\<open>_attach_procedure_dock\<close>: where the conveyor raises, the coroutine ends there and nothing after it is done.\<close>

definition attach_dock ::
  "(string \<Rightarrow> string) \<Rightarrow> (real \<Rightarrow> string) \<Rightarrow> event_env \<Rightarrow> real \<Rightarrow> console \<Rightarrow> console" where
  "attach_dock H fr env now c =
     (case co_current c of
        None \<Rightarrow> c
      | Some i \<Rightarrow>
          (let p = proc_of c i; d = ap_decision p;
               (power_blocked, thermal_blocked, detail) = body_attach_preconditions (co_tele c)
           in if \<not> proc_active p then c
              else case bridge_decision_to_body H fr (attach_runner fr env now (ap_params p) (cd_id d))
                          power_blocked thermal_blocked d (Inr (co_body c)) of
                     (Inl e, _) \<Rightarrow> c
                   | (Inr k, r) \<Rightarrow>
                       (let c1 = c\<lparr>co_decisions := ds_put (br_decision r) (co_decisions c), co_body := k\<rparr>
                        in if \<not> br_reached r
                           then set_proc i (p\<lparr>ap_status := Holding,
                                              ap_complication := join_codes ''BRIDGE_DEFERRED'' (br_reasons r @ detail)\<rparr>) c1
                           else let c2 = c1\<lparr>co_traces := co_traces c1 @ [br_decision r]\<rparr>;
                                    m = param_text fr (ap_params p) ''module_id''
                                in if dt_effect (cd_stages (br_decision r)) = ST_ok
                                   then set_proc i (p\<lparr>ap_decision := br_decision r, ap_status := Done\<rparr>)
                                          (if m = [] then c2
                                           else c2\<lparr>co_spent := dict_set (co_spent c2) m (dict_getd (co_spent c2) m 0 + 1)\<rparr>)
                                   else set_proc i (p\<lparr>ap_decision := br_decision r, ap_status := Failed,
                                                      ap_complication := pipeline_reason k\<rparr>) c2)))"

definition run_stage ::
  "(string \<Rightarrow> string) \<Rightarrow> (real \<Rightarrow> string) \<Rightarrow> event_env \<Rightarrow> real \<Rightarrow> nat \<Rightarrow> console \<Rightarrow> console" where
  "run_stage H fr env now i c =
     (case ap_stage (proc_of c i) of
        S1_inspect \<Rightarrow> stage_inspect fr i c
      | S2_prepare \<Rightarrow> stage_prepare i c
      | S3_transfer \<Rightarrow> stage_transfer fr i c
      | S4_power \<Rightarrow> stage_power i c
      | S5_dock \<Rightarrow> attach_dock H fr env now c)"

definition advance_procedure ::
  "(string \<Rightarrow> string) \<Rightarrow> (real \<Rightarrow> string) \<Rightarrow> event_env \<Rightarrow> real \<Rightarrow> console \<Rightarrow> console" where
  "advance_procedure H fr env now c =
     (case co_current c of
        None \<Rightarrow> c
      | Some i \<Rightarrow>
          if \<not> proc_active (proc_of c i) then c
          else run_stage H fr env now i (set_proc i ((proc_of c i)\<lparr>ap_status := Running\<rparr>) c))"

fun next_stage :: "resume_point \<Rightarrow> attach_stage" where
  "next_stage After_S1 = S2_prepare"
| "next_stage After_S2 = S3_transfer"
| "next_stage After_S4 = S5_dock"

text \<open>A suspended coroutine goes on with its own procedure, unless that was aborted meanwhile.\<close>

definition continue_task ::
  "(string \<Rightarrow> string) \<Rightarrow> (real \<Rightarrow> string) \<Rightarrow> event_env \<Rightarrow> real \<Rightarrow> co_task \<Rightarrow> console \<Rightarrow> console" where
  "continue_task H fr env now t c =
     (case t of
        Outcome \<Rightarrow> c\<lparr>co_action := None\<rparr>
      | After i pt \<Rightarrow>
          if \<not> proc_active (proc_of c i) then c
          else run_stage H fr env now i (set_proc i ((proc_of c i)\<lparr>ap_stage := next_stage pt\<rparr>) c))"

section \<open>The operator's and the telemetry's hold on it\<close>

definition resume_procedure ::
  "(string \<Rightarrow> string) \<Rightarrow> (real \<Rightarrow> string) \<Rightarrow> event_env \<Rightarrow> real \<Rightarrow> console \<Rightarrow> console" where
  "resume_procedure H fr env now c =
     (case co_current c of
        None \<Rightarrow> c
      | Some i \<Rightarrow>
          (let p = proc_of c i
           in if \<not> proc_paused p then c
              else if ap_complication p = ''PASSPORT_DAMAGED''
              then advance_procedure H fr env now
                     (set_proc i (p\<lparr>ap_complication := [], ap_stage := S3_transfer, ap_status := Running\<rparr>) c)
              else if ap_stage p = S3_transfer
              then set_proc i (p\<lparr>ap_complication := [], ap_auto_hold := False, ap_status := Running\<rparr>) c
              else advance_procedure H fr env now
                     (set_proc i (p\<lparr>ap_complication := [], ap_status := Running,
                                    ap_stage := (if ap_stage p \<in> {S4_power, S5_dock} then ap_stage p else S5_dock)\<rparr>) c)))"

definition abort_procedure :: "console \<Rightarrow> console" where
  "abort_procedure c =
     (case co_current c of
        None \<Rightarrow> c
      | Some i \<Rightarrow>
          if ap_status (proc_of c i) \<in> {Done, Failed, Aborted} then c
          else set_proc i ((proc_of c i)\<lparr>ap_status := Aborted\<rparr>) c)"

definition hold_procedure :: "console \<Rightarrow> console" where
  "hold_procedure c =
     (case co_current c of
        None \<Rightarrow> c
      | Some i \<Rightarrow>
          if ap_status (proc_of c i) \<noteq> Running \<or> ap_stage (proc_of c i) \<noteq> S3_transfer then c
          else set_proc i ((proc_of c i)\<lparr>ap_status := Holding, ap_auto_hold := False, ap_complication := ''OPERATOR_HOLD''\<rparr>) c)"

definition stale_check :: "bool \<Rightarrow> console \<Rightarrow> console" where
  "stale_check dead c =
     (case co_current c of
        None \<Rightarrow> c
      | Some i \<Rightarrow>
          if ap_stage (proc_of c i) \<noteq> S3_transfer \<or> ap_status (proc_of c i) \<noteq> Running then c
          else if \<not> dead then c
          else set_proc i ((proc_of c i)\<lparr>ap_status := Holding, ap_auto_hold := True, ap_complication := ''TELEM_STALE''\<rparr>) c)"

text \<open>One accepted telemetry snapshot moves a transfer by one tick, holds it or takes back an automatic hold.\<close>

definition transfer_tick :: "telemetry_view \<Rightarrow> attach_proc \<Rightarrow> attach_proc" where
  "transfer_tick t p =
     (if ap_status p = Holding \<and> (\<not> ap_auto_hold p \<or> (ap_complication p = ''WORLD_PAUSED'' \<and> world_paused t)) then p
      else if ap_status p \<noteq> Holding \<and> ap_status p \<noteq> Running then p
      else let p1 = (if ap_status p = Holding
                     then p\<lparr>ap_status := Running, ap_complication := [], ap_auto_hold := False\<rparr> else p)
           in if world_paused t
              then p1\<lparr>ap_status := Holding, ap_auto_hold := True, ap_complication := ''WORLD_PAUSED''\<rparr>
              else if \<not> window_open t
              then p1\<lparr>ap_status := Holding, ap_auto_hold := False,
                      ap_complication := join_codes ''POWER_BLOCK'' (window_detail t)\<rparr>
              else let p2 = p1\<lparr>ap_done := ap_done p1 + 1\<rparr>
                   in if ap_done p2 \<ge> ap_required p2 then p2\<lparr>ap_stage := S4_power\<rparr> else p2)"

definition on_snapshot ::
  "(string \<Rightarrow> string) \<Rightarrow> (real \<Rightarrow> string) \<Rightarrow> event_env \<Rightarrow> real \<Rightarrow> telemetry_view \<Rightarrow> console \<Rightarrow> console" where
  "on_snapshot H fr env now t c0 =
     (let c = c0\<lparr>co_tele := t\<rparr>
      in case co_current c of
           None \<Rightarrow> c
         | Some i \<Rightarrow>
             (let p = proc_of c i
              in if \<not> proc_active p \<or> ap_stage p \<noteq> S3_transfer then c
                 else let p' = transfer_tick t p; c1 = set_proc i p' c
                      in if ap_stage p' = S4_power then advance_procedure H fr env now c1 else c1))"

section \<open>Execution\<close>

definition depleted :: "(real \<Rightarrow> string) \<Rightarrow> (string \<times> pyval) list \<Rightarrow> (string, int) dict \<Rightarrow> bool" where
  "depleted fr params spent =
     (case vget params ''quantity'' of
        V_int q \<Rightarrow> dict_getd spent (py_strip (param_text fr params ''module_id'')) 0 \<ge> q
      | _ \<Rightarrow> False)"

definition execute_body_attach ::
  "(string \<Rightarrow> string) \<Rightarrow> (real \<Rightarrow> string) \<Rightarrow> event_env \<Rightarrow> real \<Rightarrow> console \<Rightarrow> console" where
  "execute_body_attach H fr env now c =
     (if procedure_active c then c
      else case pending_decision c of
             None \<Rightarrow> c\<lparr>co_action := None\<rparr>
           | Some d \<Rightarrow>
               (let params = ci_params (cd_intent d)
                in if depleted fr params (co_spent c) then c\<lparr>co_action := None\<rparr>
                   else advance_procedure H fr env now
                          (c\<lparr>co_procs := co_procs c @
                               [new_proc d (case co_response c of Some r \<Rightarrow> cr_request r | None \<Rightarrow> []) params],
                             co_current := Some (length (co_procs c)), co_action := None\<rparr>)))"

text \<open>
  \<open>known\<close> and \<open>busy\<close> are what the procedure engine answers: whether it knows the procedure, and whether another one
  runs.
\<close>

definition execute_pending_action ::
  "(string \<Rightarrow> string) \<Rightarrow> (real \<Rightarrow> string) \<Rightarrow> event_env \<Rightarrow> real \<Rightarrow> bool \<Rightarrow> bool \<Rightarrow> console \<Rightarrow> console" where
  "execute_pending_action H fr env now known busy c =
     (case co_action c of
        None \<Rightarrow> c
      | Some a \<Rightarrow>
          if co_replay c then c
          else let (c1, ok) = authorize_pending H fr a c
               in if \<not> ok then c1\<lparr>co_action := None\<rparr>
                  else if action_kind a = ''ORION_PROCEDURE''
                  then (if \<not> known \<or> busy then c1
                        else suspend Outcome (c1\<lparr>co_executed := co_executed c1 @ [a]\<rparr>))
                  else if action_kind a = ''BODY_ATTACH'' then execute_body_attach H fr env now c1
                  else if py_strip (ac_subject a) \<noteq> ''qiki.commands.control'' \<or> py_strip (ac_name a) = [] then c1
                  else suspend Outcome (c1\<lparr>co_executed := co_executed c1 @ [a]\<rparr>))"

text \<open>The self-check and the reset of the body, both refused while a procedure is active.\<close>

definition console_self_check :: "event_env \<Rightarrow> real \<Rightarrow> console \<Rightarrow> console" where
  "console_self_check env now c =
     (if procedure_active c then c
      else case run_self_check env now (co_body c) of Inl e \<Rightarrow> c | Inr k \<Rightarrow> c\<lparr>co_body := k\<rparr>)"

definition console_reset :: "event_env \<Rightarrow> console \<Rightarrow> console" where
  "console_reset env c = (if procedure_active c then c else c\<lparr>co_body := reset_body env (co_body c)\<rparr>)"

section \<open>Steps and runs\<close>

datatype console_step =
    Ask string
  | Question_expired string
  | Response string "string option" "pending_action option"
  | Enrich string string
  | Confirm string
  | Answer bool bool bool \<comment> \<open>yes; what the procedure engine says\<close>
  | Cancel
  | Continue nat
  | Snapshot telemetry_view
  | Stale_check bool
  | Hold
  | Resume
  | Abort
  | Self_check
  | Reset_body

record console_env =
  ce_event :: event_env
  ce_now :: real

definition console_step ::
  "(string \<Rightarrow> string) \<Rightarrow> (real \<Rightarrow> string) \<Rightarrow> console_env \<Rightarrow> console_step \<Rightarrow> console \<Rightarrow> console" where
  "console_step H fr x s c =
     (let env = ce_event x; now = ce_now x
      in case s of
           Ask rid \<Rightarrow> c\<lparr>co_asked := List.insert rid (co_asked c)\<rparr>
         | Question_expired rid \<Rightarrow> c\<lparr>co_asked := removeAll rid (co_asked c)\<rparr>
         | Response rid legality action \<Rightarrow> on_response rid legality action c
         | Enrich track label \<Rightarrow> enrich_pending_action track label c
         | Confirm u \<Rightarrow> if co_dialog c then c else confirm_pending_action H fr u c
         | Answer yes known busy \<Rightarrow>
             if \<not> co_dialog c then c
             else let c1 = c\<lparr>co_dialog := False\<rparr>
                  in if yes then execute_pending_action H fr env now known busy c1 else c1
         | Cancel \<Rightarrow> cancel_pending_action c
         | Continue n \<Rightarrow>
             if n < length (co_tasks c)
             then continue_task H fr env now (co_tasks c ! n)
                    (c\<lparr>co_tasks := take n (co_tasks c) @ drop (Suc n) (co_tasks c)\<rparr>)
             else c
         | Snapshot t \<Rightarrow> on_snapshot H fr env now t c
         | Stale_check dead \<Rightarrow> stale_check dead c
         | Hold \<Rightarrow> hold_procedure c
         | Resume \<Rightarrow> resume_procedure H fr env now c
         | Abort \<Rightarrow> abort_procedure c
         | Self_check \<Rightarrow> console_self_check env now c
         | Reset_body \<Rightarrow> console_reset env c)"

fun console_run ::
  "(string \<Rightarrow> string) \<Rightarrow> (real \<Rightarrow> string) \<Rightarrow> console \<Rightarrow> (console_env \<times> console_step) list \<Rightarrow> console" where
  "console_run H fr c [] = c"
| "console_run H fr c ((x, s) # ss) = console_run H fr (console_step H fr x s c) ss"

end

