(* ===== verification/Attach_Runs.thy ===== *)
theory Attach_Runs
  imports Attach_Procedure
begin

text \<open>
  What holds in every run of the console on its way from an approval to the body: an installation reaches the body only
  for a decision that was shown and approved, once; at most one procedure is active; no module is docked before its
  transfer is over.
\<close>

section \<open>The store of decisions\<close>

lemma map_of_drop: "distinct (map fst m) \<Longrightarrow> map_of (drop n m) k = Some v \<Longrightarrow> map_of m k = Some v"
proof (induction m arbitrary: n)
  case (Cons e m)
  show ?case
  proof (cases n)
    case (Suc n')
    with Cons have found: "map_of (drop n' m) k = Some v" and old: "map_of m k = Some v"
      by auto
    then have "k \<in> fst ` set m"
      by (metis domI dom_map_of_conv_image_fst)
    with Cons.prems(1) old show ?thesis
      by (cases e) auto
  qed (use Cons in simp)
qed simp

definition store_inv :: "decision_store \<Rightarrow> bool" where
  "store_inv s \<longleftrightarrow> wf_dict (ds_by_id s)"

lemma store_inv_new: "store_inv (new_decision_store n)"
  by (simp add: store_inv_def new_decision_store_def wf_dict_def)

lemma store_inv_put: "store_inv s \<Longrightarrow> store_inv (ds_put d s)"
  using wf_dict_set [of "ds_by_id s" "cd_id d" d]
  by (simp add: store_inv_def ds_put_def evict_oldest_drop wf_dict_def drop_map [symmetric] distinct_drop del: wf_dict_set)

lemma ds_get_put:
  assumes "store_inv s" "ds_get (ds_put d s) k = Some x"
  shows "if k = cd_id d then x = d else ds_get s k = Some x"
proof -
  have "distinct (map fst (dict_set (ds_by_id s) (cd_id d) d))"
    using assms(1) wf_dict_set [of "ds_by_id s"] by (simp add: store_inv_def wf_dict_def)
  from map_of_drop [OF this] assms(2) have "map_of (dict_set (ds_by_id s) (cd_id d) d) k = Some x"
    by (simp add: ds_get_def ds_put_def evict_oldest_drop)
  then show ?thesis
    by (simp add: ds_get_def split: if_splits)
qed

definition sealed_count :: "string \<Rightarrow> decision_store \<Rightarrow> nat" where
  "sealed_count u s = (case ds_get s u of Some d \<Rightarrow> if cd_status d = Sealed then 1 else 0 | None \<Rightarrow> 0)"

lemma sealed_count_put:
  assumes "store_inv s"
  shows "sealed_count u (ds_put d s) \<le> (if u = cd_id d then (if cd_status d = Sealed then 1 else 0) else sealed_count u s)"
  using ds_get_put [OF assms, of d u] by (auto simp: sealed_count_def split: option.splits if_splits)

section \<open>Approvals are spent once\<close>

definition open_decision :: "string \<Rightarrow> command_decision \<Rightarrow> bool" where
  "open_decision u d \<longleftrightarrow> cd_id d = u \<and> dt_ack (cd_stages d) = ST_none"

definition held :: "console \<Rightarrow> command_decision list" where
  "held c = map ap_decision (co_procs c)"

definition open_count :: "string \<Rightarrow> console \<Rightarrow> nat" where
  "open_count u c = length (filter (open_decision u) (held c))"

definition unacked :: "console \<Rightarrow> nat" where
  "unacked c = length (filter (\<lambda>d. dt_ack (cd_stages d) = ST_none) (held c))"

definition as_shown :: "console \<Rightarrow> command_decision \<Rightarrow> bool" where
  "as_shown c d \<longleftrightarrow> (cd_id d, cd_intent d) \<in> set (co_shown c)"

definition store_shown :: "console \<Rightarrow> bool" where
  "store_shown c \<longleftrightarrow> (\<forall>k d. ds_get (co_decisions c) k = Some d \<longrightarrow> cd_id d = k \<and> as_shown c d)"

definition modules :: "console \<Rightarrow> nat" where
  "modules c = length (bc_modules (bk_body (co_body c)))"

definition core_inv :: "string \<Rightarrow> nat \<Rightarrow> nat \<Rightarrow> console \<Rightarrow> bool" where
  "core_inv u yes checks c \<longleftrightarrow>
     store_inv (co_decisions c) \<and> store_shown c \<and> controller_inv (co_body c) \<and>
     list_all (\<lambda>d. as_shown c d \<and> cd_status d \<noteq> Sealed) (held c) \<and> list_all (as_shown c) (co_traces c) \<and>
     count_list (map cd_id (co_traces c)) u + open_count u c + sealed_count u (co_decisions c) \<le> count_list (map fst (co_shown c)) u \<and>
     length (co_traces c) + unacked c + length (co_executed c) \<le> yes \<and> modules c \<le> length (co_traces c) + checks"

text \<open>The steps that change nothing of this.\<close>

definition quiet :: "console \<Rightarrow> console \<Rightarrow> bool" where
  "quiet c c' \<longleftrightarrow>
     co_decisions c' = co_decisions c \<and> held c' = held c \<and> co_traces c' = co_traces c \<and> co_shown c' = co_shown c \<and>
     co_executed c' = co_executed c \<and> co_body c' = co_body c \<and> co_current c' = co_current c"

lemma quiet_refl [simp]: "quiet c c"
  by (simp add: quiet_def)

lemma quiet_trans: "quiet a b \<Longrightarrow> quiet b c \<Longrightarrow> quiet a c"
  by (simp add: quiet_def)

lemma core_quiet: "quiet c c' \<Longrightarrow> core_inv u yes checks c' = core_inv u yes checks c"
  by (simp add: quiet_def core_inv_def open_count_def unacked_def store_shown_def as_shown_def [abs_def] modules_def)

lemma held_set_proc:
  "ap_decision p = ap_decision (proc_of c i) \<Longrightarrow> held (set_proc i p c) = held c"
  by (simp add: held_def set_proc_def proc_of_def map_update)
    (metis length_map list_update_beyond list_update_id map_update not_less nth_map)

lemma quiet_set_proc [simp]: "ap_decision p = ap_decision (proc_of c i) \<Longrightarrow> quiet c (set_proc i p c)"
  by (simp add: quiet_def held_set_proc) (simp add: set_proc_def)

lemma quiet_suspend [simp]: "quiet c (suspend t c)"
  by (simp add: quiet_def suspend_def held_def)

lemma quiet_updates [simp]:
  "quiet c (c\<lparr>co_action := a\<rparr>)" "quiet c (c\<lparr>co_tasks := ts\<rparr>)" "quiet c (c\<lparr>co_tele := t\<rparr>)" "quiet c (c\<lparr>co_dialog := b\<rparr>)"
  "quiet c (c\<lparr>co_asked := q\<rparr>)" "quiet c (c\<lparr>co_spent := sp\<rparr>)"
  by (simp_all add: quiet_def held_def)

lemma quiet_stages:
  "quiet c (stage_inspect fr i c)" "quiet c (stage_prepare i c)" "quiet c (stage_transfer fr i c)" "quiet c (stage_power i c)"
  by (auto simp: stage_inspect_def stage_prepare_def stage_transfer_def stage_power_def Let_def split: option.splits)

lemma quiet_operator:
  "quiet c (abort_procedure c)" "quiet c (hold_procedure c)" "quiet c (stale_check dead c)" "quiet c (cancel_pending_action c)"
  "quiet c (enrich_pending_action track label c)"
  by (auto simp: abort_procedure_def hold_procedure_def stale_check_def cancel_pending_action_def enrich_pending_action_def
      Let_def split: option.splits)

lemma quiet_response: "quiet c (on_response rid legality action c)"
  by (simp add: on_response_def quiet_def held_def)

section \<open>Docking\<close>

lemma update_decision_counts:
  assumes "i < length (co_procs c)" "ap_decision p = d'" "ap_decision (proc_of c i) = d"
    and "dt_ack (cd_stages d) = ST_none" "dt_ack (cd_stages d') \<noteq> ST_none"
  shows "open_count (cd_id d) (set_proc i p c) + 1 = open_count (cd_id d) c"
    and "u \<noteq> cd_id d \<Longrightarrow> u \<noteq> cd_id d' \<Longrightarrow> open_count u (set_proc i p c) = open_count u c"
    and "unacked (set_proc i p c) + 1 = unacked c"
proof -
  have split: "held c = take i (held c) @ d # drop (Suc i) (held c)"
  proof -
    have "i < length (held c)" "held c ! i = d"
      using assms(1,3) by (simp_all add: held_def proc_of_def)
    with id_take_nth_drop [of i "held c"] show ?thesis
      by simp
  qed
  have new: "held (set_proc i p c) = take i (held c) @ d' # drop (Suc i) (held c)"
    using assms(1,2) by (simp add: held_def set_proc_def upd_conv_take_nth_drop take_map drop_map)
  show "open_count (cd_id d) (set_proc i p c) + 1 = open_count (cd_id d) c"
    using assms(4,5) arg_cong [OF split, of "\<lambda>ds. length (filter (open_decision (cd_id d)) ds)"]
    by (simp add: open_count_def new open_decision_def)
  show "open_count u (set_proc i p c) = open_count u c" if "u \<noteq> cd_id d" "u \<noteq> cd_id d'"
    using that arg_cong [OF split, of "\<lambda>ds. length (filter (open_decision u) ds)"]
    by (simp add: open_count_def new open_decision_def)
  show "unacked (set_proc i p c) + 1 = unacked c"
    using assms(4,5) arg_cong [OF split, of "\<lambda>ds. length (filter (\<lambda>d. dt_ack (cd_stages d) = ST_none) ds)"]
    by (simp add: unacked_def new)
qed

text \<open>The conveyor keeps the controller well formed and registers at most one module.\<close>

lemma runner_ok:
  assumes "controller_inv k" "attach_runner fr env now params i (Inr k) = (Inr k', ok, ev)"
  shows "controller_inv k' \<and> length (bc_modules (bk_body k')) \<le> length (bc_modules (bk_body k)) + 1"
proof -
  have grow: "length (bc_modules (next_body b r)) \<le> length (bc_modules b) + 1" for b r
    by (simp add: next_body_def registered_body_def split: option.splits)
  obtain r where "controller_inv k'" "bk_body k' = next_body (bk_body k) r"
  proof -
    from assms(2) obtain mid mount pp rid where k': "controller_attach env now mid mount pp rid k = Inr k'"
      by (auto simp: attach_runner_def Let_def split: option.splits sum.splits)
    define r where "r = \<lparr>ar_request = rid, ar_module = mid, ar_mount = mount, ar_passport = pp\<rparr>"
    from attach_step_ok [OF assms(1), of env now r "''attach_module''" mount True] k'
    show thesis
      by (intro that) (auto simp: controller_attach_def r_def)
  qed
  with grow show ?thesis
    by simp
qed

definition current_ok :: "console \<Rightarrow> bool" where
  "current_ok c \<longleftrightarrow> (case co_current c of None \<Rightarrow> True | Some i \<Rightarrow> i < length (co_procs c))"

lemma held_in: "i < length (co_procs c) \<Longrightarrow> ap_decision (proc_of c i) \<in> set (held c)"
  by (simp add: held_def proc_of_def)

lemma held_update: "set (held (set_proc i p c)) \<subseteq> insert (ap_decision p) (set (held c))"
  using set_update_subset_insert [of "held c" i "ap_decision p"] by (simp add: held_def set_proc_def map_update)

text \<open>A decision is put back that is held already: nothing new can be approved by that.\<close>

lemma core_put:
  assumes inv: "core_inv u yes checks c" and d: "as_shown c d" "cd_status d \<noteq> Sealed"
  shows "core_inv u yes checks (c\<lparr>co_decisions := ds_put d (co_decisions c)\<rparr>)" (is "core_inv _ _ _ ?c")
proof -
  have st: "store_inv (co_decisions c)" and old: "store_shown c"
    using inv by (simp_all add: core_inv_def)
  have shown: "store_shown ?c"
    unfolding store_shown_def
  proof (intro allI impI)
    fix k x
    assume "ds_get (co_decisions ?c) k = Some x"
    with ds_get_put [OF st, of d k x] old d(1) show "cd_id x = k \<and> as_shown ?c x"
      by (auto simp: store_shown_def as_shown_def split: if_splits)
  qed
  have "sealed_count u (ds_put d (co_decisions c)) \<le> sealed_count u (co_decisions c)"
    using sealed_count_put [OF st, of u d] d(2) by (simp split: if_splits)
  then show ?thesis
    using inv shown
    by (simp add: core_inv_def store_inv_put st held_def open_count_def unacked_def as_shown_def [abs_def] modules_def)
qed

lemma core_body:
  assumes "core_inv u yes checks c" "controller_inv k" "length (bc_modules (bk_body k)) \<le> length (co_traces c) + checks"
  shows "core_inv u yes checks (c\<lparr>co_body := k\<rparr>)"
proof -
  have "store_shown (c\<lparr>co_body := k\<rparr>) = store_shown c" "held (c\<lparr>co_body := k\<rparr>) = held c"
    "as_shown (c\<lparr>co_body := k\<rparr>) = as_shown c"
    by (simp_all add: store_shown_def held_def as_shown_def [abs_def])
  with assms show ?thesis
    by (simp add: core_inv_def open_count_def unacked_def modules_def)
qed

text \<open>The procedure whose decision reaches the body leaves a trace and its decision is no longer open.\<close>

lemma core_trace:
  assumes inv: "core_inv u yes checks c" and i: "i < length (co_procs c)"
    and p: "ap_decision p = d'" and d: "ap_decision (proc_of c i) = d"
    and "cd_id d' = cd_id d" "cd_intent d' = cd_intent d" "cd_status d' \<noteq> Sealed"
    and "dt_ack (cd_stages d) = ST_none" "dt_ack (cd_stages d') \<noteq> ST_none"
  shows "core_inv u yes checks (set_proc i p (c\<lparr>co_traces := co_traces c @ [d']\<rparr>))" (is "core_inv _ _ _ ?c")
proof -
  have shown: "as_shown c d'"
    using inv held_in [OF i] assms(5,6) by (simp add: core_inv_def list_all_iff as_shown_def d)
  have "held ?c = held (set_proc i p c)" "open_count u ?c = open_count u (set_proc i p c)" "unacked ?c = unacked (set_proc i p c)"
    by (simp_all add: held_def set_proc_def open_count_def unacked_def)
  moreover have "list_all (\<lambda>x. as_shown c x \<and> cd_status x \<noteq> Sealed) (held (set_proc i p c))"
    using inv held_update [of i p c] shown assms(7) by (auto simp: core_inv_def list_all_iff p)
  moreover have "store_shown ?c = store_shown c" "as_shown ?c = as_shown c" "modules ?c = modules c"
    by (simp_all add: store_shown_def as_shown_def [abs_def] modules_def set_proc_def)
  moreover note counts = update_decision_counts [OF i p d assms(8,9)]
  have "count_list (map cd_id (co_traces c @ [d'])) u + open_count u (set_proc i p c) =
      count_list (map cd_id (co_traces c)) u + open_count u c"
    using counts(1) counts(2) [of u] assms(5) by (cases "u = cd_id d") auto
  ultimately show ?thesis
    using inv shown counts(3)
    by (simp add: core_inv_def set_proc_def)
qed

lemma current_quiet: "quiet c c' \<Longrightarrow> current_ok c' = current_ok c"
  by (auto simp: quiet_def current_ok_def held_def split: option.splits) (metis length_map)+

definition run_inv :: "string \<Rightarrow> nat \<Rightarrow> nat \<Rightarrow> console \<Rightarrow> bool" where
  "run_inv u yes checks c \<longleftrightarrow> core_inv u yes checks c \<and> current_ok c"

lemma run_quiet: "quiet c c' \<Longrightarrow> run_inv u yes checks c \<Longrightarrow> run_inv u yes checks c'"
  by (simp add: run_inv_def core_quiet current_quiet)

lemma core_proc:
  "ap_decision p = ap_decision (proc_of c i) \<Longrightarrow> core_inv u yes checks (set_proc i p c) = core_inv u yes checks c"
  by (rule core_quiet) simp

lemma current_dock: "current_ok c \<Longrightarrow> current_ok (attach_dock H fr env now c)"
  by (auto simp: attach_dock_def current_ok_def set_proc_def Let_def split: option.splits sum.splits prod.splits)

lemma core_spent: "core_inv u yes checks (c\<lparr>co_spent := sp\<rparr>) = core_inv u yes checks c"
  by (rule core_quiet) simp

lemma set_proc_spent: "set_proc i p (c\<lparr>co_spent := sp\<rparr>) = (set_proc i p c)\<lparr>co_spent := sp\<rparr>"
  by (simp add: set_proc_def)

lemma proc_of_updates [simp]:
  "proc_of (c\<lparr>co_decisions := a\<rparr>) i = proc_of c i" "proc_of (c\<lparr>co_body := b\<rparr>) i = proc_of c i"
  "proc_of (c\<lparr>co_traces := ts\<rparr>) i = proc_of c i" "proc_of (c\<lparr>co_tele := t\<rparr>) i = proc_of c i"
  by (simp_all add: proc_of_def)

lemma core_dock:
  assumes inv: "core_inv u yes checks c" and cur: "current_ok c"
  shows "core_inv u yes checks (attach_dock H fr env now c)"
proof (cases "co_current c")
  case (Some i)
  define p where "p = proc_of c i"
  define d where "d = ap_decision p"
  obtain pb tb detail where pre: "body_attach_preconditions (co_tele c) = (pb, tb, detail)"
    by (cases "body_attach_preconditions (co_tele c)") auto
  define runner where "runner = attach_runner fr env now (ap_params p) (cd_id d)"
  obtain s' r where br: "bridge_decision_to_body H fr runner pb tb d (Inr (co_body c)) = (s', r)"
    by (cases "bridge_decision_to_body H fr runner pb tb d (Inr (co_body c))")
  have i: "i < length (co_procs c)"
    using cur Some by (simp add: current_ok_def)
  then have d_ok: "as_shown c d" "cd_status d \<noteq> Sealed"
    using inv held_in [OF i] by (simp_all add: core_inv_def list_all_iff p_def d_def)
  note unfold = attach_dock_def Some Let_def p_def [symmetric] d_def [symmetric] runner_def [symmetric] pre br
  show ?thesis
  proof (cases "proc_active p")
    case True
    from br show ?thesis
    proof (cases rule: bridge_cases)
      case refused
      let ?c = "c\<lparr>co_decisions := ds_put d (co_decisions c), co_body := co_body c\<rparr>"
      have "core_inv u yes checks ?c"
        using core_put [OF inv d_ok] by simp
      then have "core_inv u yes checks (set_proc i q ?c)" if "ap_decision q = d" for q
        using that core_proc [of q ?c i] by (simp add: p_def d_def)
      then show ?thesis
        using True refused by (simp add: unfold)
    next
      case reached
      define d' where "d' = br_decision r"
      show ?thesis
      proof (cases s')
        case (Inr k)
        obtain ok ev where run: "runner (Inr (co_body c)) = (Inr k, ok, ev)"
          using reached(2) Inr by (cases "runner (Inr (co_body c))") auto
        have ctrl: "controller_inv (co_body c)"
          using inv by (simp add: core_inv_def)
        from runner_ok [OF ctrl run [unfolded runner_def]]
        have k: "controller_inv k" "length (bc_modules (bk_body k)) \<le> modules c + 1"
          by (simp_all add: modules_def)
        have shown': "as_shown c d'"
          using d_ok(1) reached(3,4) by (simp add: as_shown_def d'_def)
        let ?c0 = "c\<lparr>co_decisions := ds_put d' (co_decisions c)\<rparr>"
        have c0: "core_inv u yes checks ?c0"
          using core_put [OF inv shown'] reached(5) by (simp add: d'_def)
        have proc0: "ap_decision (proc_of ?c0 i) = d" "i < length (co_procs ?c0)"
          using i by (simp_all add: p_def d_def)
        have step: "core_inv u yes checks
            (set_proc i q (c\<lparr>co_decisions := ds_put d' (co_decisions c), co_body := k, co_traces := co_traces c @ [d']\<rparr>))"
          if "ap_decision q = d'" for q
        proof -
          have "core_inv u yes checks (set_proc i q (?c0\<lparr>co_traces := co_traces ?c0 @ [d']\<rparr>))"
            using core_trace [OF c0 proc0(2) that proc0(1)] reached by (simp add: d'_def)
          moreover have "length (bc_modules (bk_body k)) \<le> length (co_traces c @ [d']) + checks"
            using k(2) inv by (simp add: core_inv_def)
          ultimately have "core_inv u yes checks ((set_proc i q (?c0\<lparr>co_traces := co_traces ?c0 @ [d']\<rparr>))\<lparr>co_body := k\<rparr>)"
            by (intro core_body k) (simp_all add: set_proc_def)
          moreover have "(set_proc i q (?c0\<lparr>co_traces := co_traces ?c0 @ [d']\<rparr>))\<lparr>co_body := k\<rparr> =
              set_proc i q (c\<lparr>co_decisions := ds_put d' (co_decisions c), co_body := k, co_traces := co_traces c @ [d']\<rparr>)"
            by (cases c) (simp add: set_proc_def)
          ultimately show ?thesis
            by simp
        qed
        show ?thesis
          using True reached(1) Inr step by (simp add: unfold d'_def [symmetric] set_proc_spent core_spent)
      qed (use True inv in \<open>simp add: unfold\<close>)
    qed
  qed (use inv in \<open>simp add: unfold\<close>)
qed (use inv in \<open>simp add: attach_dock_def\<close>)

lemma run_dock: "run_inv u yes checks c \<Longrightarrow> run_inv u yes checks (attach_dock H fr env now c)"
  by (simp add: run_inv_def core_dock current_dock)

section \<open>Every step\<close>

lemma run_stage_inv: "run_inv u yes checks c \<Longrightarrow> run_inv u yes checks (run_stage H fr env now i c)"
  by (cases "ap_stage (proc_of c i)") (auto simp: run_stage_def run_dock intro: run_quiet [OF quiet_stages(1)]
      run_quiet [OF quiet_stages(2)] run_quiet [OF quiet_stages(3)] run_quiet [OF quiet_stages(4)])

lemma run_set_proc:
  "ap_decision p = ap_decision (proc_of c i) \<Longrightarrow> run_inv u yes checks c \<Longrightarrow> run_inv u yes checks (set_proc i p c)"
  by (rule run_quiet) simp_all

lemma advance_inv: "run_inv u yes checks c \<Longrightarrow> run_inv u yes checks (advance_procedure H fr env now c)"
  by (auto simp: advance_procedure_def intro!: run_stage_inv run_set_proc split: option.splits)

lemma continue_inv: "run_inv u yes checks c \<Longrightarrow> run_inv u yes checks (continue_task H fr env now t c)"
  by (auto simp: continue_task_def intro!: run_stage_inv run_set_proc run_quiet [of c] split: co_task.splits)

lemma resume_inv: "run_inv u yes checks c \<Longrightarrow> run_inv u yes checks (resume_procedure H fr env now c)"
  by (auto simp: resume_procedure_def Let_def intro!: advance_inv run_set_proc split: option.splits)

lemma transfer_tick_decision [simp]: "ap_decision (transfer_tick t p) = ap_decision p" "ap_params (transfer_tick t p) = ap_params p"
  by (simp_all add: transfer_tick_def Let_def)

lemma snapshot_inv: "run_inv u yes checks c \<Longrightarrow> run_inv u yes checks (on_snapshot H fr env now t c)"
  by (auto simp: on_snapshot_def Let_def intro!: advance_inv run_set_proc run_quiet [of c "c\<lparr>co_tele := t\<rparr>"]
      split: option.splits)

lemma authorize_fields [simp]:
  "cd_id (pa_decision (authorize_publish H fr d k s n ps)) = cd_id d"
  "cd_intent (pa_decision (authorize_publish H fr d k s n ps)) = cd_intent d"
  "cd_status (pa_decision (authorize_publish H fr d k s n ps)) \<noteq> Sealed"
  by (cases "cd_status d"; simp add: authorize_publish_def)+

lemma pending_decision_shown:
  "core_inv u yes checks c \<Longrightarrow> pending_decision c = Some d \<Longrightarrow> as_shown c d \<and> ds_get (co_decisions c) (cd_id d) = Some d"
  by (auto simp: pending_decision_def core_inv_def store_shown_def split: option.splits if_splits)

text \<open>An authorization spends the seal: what is left over can be held by a procedure.\<close>

lemma authorize_ok:
  assumes inv: "core_inv u yes checks c" and auth: "authorize_pending H fr a c = (c1, ok)"
  shows "core_inv u yes checks c1 \<and> co_current c1 = co_current c \<and> co_procs c1 = co_procs c \<and>
    (ok \<longrightarrow> (\<forall>d. pending_decision c1 = Some d \<longrightarrow>
        as_shown c1 d \<and> cd_status d \<noteq> Sealed \<and>
        count_list (map cd_id (co_traces c1)) u + open_count u c1 + sealed_count u (co_decisions c1) + (if cd_id d = u then 1 else 0)
          \<le> count_list (map fst (co_shown c1)) u))"
proof (cases "pending_decision c")
  case (Some d0)
  define au where "au = authorize_publish H fr d0 (action_kind a) (py_strip (ac_subject a)) (py_strip (ac_name a)) (ac_params a)"
  define d' where "d' = pa_decision au"
  have c1: "c1 = c\<lparr>co_decisions := ds_put d' (co_decisions c)\<rparr>" and ok: "ok = pa_allowed au"
    using auth by (simp_all add: authorize_pending_def Some au_def d'_def Let_def)
  have d0: "as_shown c d0" "ds_get (co_decisions c) (cd_id d0) = Some d0" and st: "store_inv (co_decisions c)"
    using pending_decision_shown [OF inv Some] inv by (simp_all add: core_inv_def)
  have d': "cd_id d' = cd_id d0" "cd_intent d' = cd_intent d0" "cd_status d' \<noteq> Sealed" "as_shown c d'"
    using d0(1) by (simp_all add: d'_def au_def as_shown_def)
  have c1_inv: "core_inv u yes checks c1"
    unfolding c1 by (rule core_put [OF inv d'(4,3)])
  have "as_shown c1 d \<and> cd_status d \<noteq> Sealed \<and>
      count_list (map cd_id (co_traces c1)) u + open_count u c1 + sealed_count u (co_decisions c1) + (if cd_id d = u then 1 else 0)
        \<le> count_list (map fst (co_shown c1)) u"
    if ok and d: "pending_decision c1 = Some d" for d
  proof -
    have pid: "co_pending_id c = Some (cd_id d0)" "cd_id d0 \<noteq> []"
      using Some inv by (auto simp: pending_decision_def core_inv_def store_shown_def split: option.splits if_splits)
    then have "ds_get (ds_put d' (co_decisions c)) (cd_id d0) = Some d"
      using d by (simp add: c1 pending_decision_def)
    with ds_get_put [OF st, of d' "cd_id d0" d] d'(1) have d_eq: "d = d'"
      by simp
    have "cd_status d0 = Sealed"
      using \<open>ok\<close> by (simp add: ok au_def authorize_allowed)
    then have before: "sealed_count (cd_id d0) (co_decisions c) = 1"
      using d0(2) by (simp add: sealed_count_def)
    have after: "sealed_count u (co_decisions c1) + (if cd_id d' = u then 1 else 0) \<le> sealed_count u (co_decisions c)"
      using sealed_count_put [OF st, of u d'] d'(1,3) before by (auto simp: c1)
    moreover have "open_count u c1 = open_count u c" "co_traces c1 = co_traces c" "co_shown c1 = co_shown c" "as_shown c1 d'"
      using d'(4) by (simp_all add: c1 open_count_def held_def as_shown_def)
    ultimately show ?thesis
      using inv d'(3) by (simp add: core_inv_def d_eq)
  qed
  with c1_inv show ?thesis
    by (simp add: c1)
qed (use assms in \<open>simp add: authorize_pending_def\<close>)

lemma run_inv_mono: "run_inv u yes checks c \<Longrightarrow> yes \<le> yes' \<Longrightarrow> checks \<le> checks' \<Longrightarrow> run_inv u yes' checks' c"
  by (simp add: run_inv_def core_inv_def)

lemma start_proc_inv:
  assumes inv: "run_inv u yes checks c" and d: "as_shown c d" "cd_status d \<noteq> Sealed"
    and slack: "count_list (map cd_id (co_traces c)) u + open_count u c + sealed_count u (co_decisions c) +
                (if cd_id d = u then 1 else 0) \<le> count_list (map fst (co_shown c)) u"
  shows "run_inv u (Suc yes) checks
    (c\<lparr>co_procs := co_procs c @ [new_proc d origin params], co_current := Some (length (co_procs c)), co_action := None\<rparr>)"
    (is "run_inv _ _ _ ?c")
proof -
  have held: "held ?c = held c @ [d]" and same: "as_shown ?c = as_shown c" "store_shown ?c = store_shown c" "modules ?c = modules c"
    by (simp_all add: held_def new_proc_def as_shown_def [abs_def] store_shown_def modules_def)
  have "open_count u ?c \<le> open_count u c + (if cd_id d = u then 1 else 0)" "unacked ?c \<le> unacked c + 1"
    by (simp_all add: open_count_def unacked_def held open_decision_def)
  then show ?thesis
    using inv d slack held same by (simp add: run_inv_def core_inv_def current_ok_def)
qed

lemma started_inv:
  assumes "run_inv u yes checks c"
  shows "run_inv u (Suc yes) checks (suspend t (c\<lparr>co_executed := co_executed c @ [a]\<rparr>))" (is "run_inv _ _ _ ?c")
proof -
  have "held ?c = held c" "as_shown ?c = as_shown c" "store_shown ?c = store_shown c" "modules ?c = modules c"
    "current_ok ?c = current_ok c" "co_executed ?c = co_executed c @ [a]" "co_traces ?c = co_traces c" "co_body ?c = co_body c"
    "co_decisions ?c = co_decisions c" "co_shown ?c = co_shown c"
    by (simp_all add: held_def as_shown_def [abs_def] store_shown_def modules_def suspend_def current_ok_def split: option.splits)
  with assms show ?thesis
    by (simp add: run_inv_def core_inv_def open_count_def unacked_def)
qed

lemma execute_inv:
  assumes inv: "run_inv u yes checks c"
  shows "run_inv u (Suc yes) checks (execute_pending_action H fr env now known busy c)"
proof (cases "co_action c = None \<or> co_replay c")
  case True
  then show ?thesis
    using run_inv_mono [OF inv, of "Suc yes" checks] by (auto simp: execute_pending_action_def split: option.splits)
next
  case False
  then obtain a where a: "co_action c = Some a" "\<not> co_replay c"
    by auto
  obtain c1 ok where auth: "authorize_pending H fr a c = (c1, ok)"
    by (cases "authorize_pending H fr a c")
  note facts = authorize_ok [OF _ auth]
  have c1: "run_inv u yes checks c1"
    using facts [of u yes checks] inv by (auto simp: run_inv_def current_ok_def split: option.splits)
  then have c1': "run_inv u (Suc yes) checks c1"
    by (rule run_inv_mono) simp_all
  have none: "run_inv u (Suc yes) checks (c1\<lparr>co_action := None\<rparr>)"
    by (rule run_quiet [OF _ c1']) simp
  have body: "run_inv u (Suc yes) checks (execute_body_attach H fr env now c1)" if "ok"
  proof (cases "pending_decision c1")
    case None
    then show ?thesis
      using c1' none by (simp add: execute_body_attach_def)
  next
    case (Some d)
    with that facts [of u yes checks] inv
    have d: "as_shown c1 d" "cd_status d \<noteq> Sealed"
      "count_list (map cd_id (co_traces c1)) u + open_count u c1 + sealed_count u (co_decisions c1) + (if cd_id d = u then 1 else 0)
        \<le> count_list (map fst (co_shown c1)) u"
      by (simp_all add: run_inv_def)
    show ?thesis
      using Some c1' none advance_inv [OF start_proc_inv [OF c1 d]] by (simp add: execute_body_attach_def Let_def)
  qed
  show ?thesis
    using a auth c1' none started_inv [OF c1] body
    by (simp add: execute_pending_action_def)
qed

lemma confirm_inv:
  assumes inv: "run_inv u yes checks c"
  shows "run_inv u yes checks (confirm_pending_action H fr v c)"
proof -
  have "run_inv u yes checks
      ((seal_pending_decision H fr v a c)\<lparr>co_dialog := True, co_shown := co_shown c @ [(v, intent_of a)]\<rparr>)"
    (is "run_inv _ _ _ ?c") for a
  proof -
    define d where "d = seal_decision H fr v (intent_of a)"
    have d: "cd_id d = v" "cd_intent d = intent_of a"
      by (simp_all add: d_def seal_decision_def Let_def)
    have st: "store_inv (co_decisions c)" and old: "store_shown c"
      using inv by (simp_all add: run_inv_def core_inv_def)
    have shown_mono: "as_shown c x \<Longrightarrow> as_shown ?c x" for x
      by (simp add: as_shown_def)
    have dec: "co_decisions ?c = ds_put d (co_decisions c)"
      by (simp add: seal_pending_decision_def d_def)
    have shown: "store_shown ?c"
      unfolding store_shown_def dec
    proof (intro allI impI)
      fix k x
      assume "ds_get (ds_put d (co_decisions c)) k = Some x"
      with ds_get_put [OF st, of d k x] old d shown_mono show "cd_id x = k \<and> as_shown ?c x"
        by (auto simp: store_shown_def as_shown_def split: if_splits)
    qed
    have "sealed_count u (ds_put d (co_decisions c)) \<le> sealed_count u (co_decisions c) + (if u = v then 1 else 0)"
      using sealed_count_put [OF st, of u d] d(1) by (auto split: if_splits)
    moreover have "held ?c = held c" "co_traces ?c = co_traces c" "co_body ?c = co_body c" "co_executed ?c = co_executed c"
      "co_current ?c = co_current c" "co_procs ?c = co_procs c" "co_shown ?c = co_shown c @ [(v, intent_of a)]"
      by (simp_all add: held_def seal_pending_decision_def)
    ultimately show ?thesis
      using inv shown shown_mono store_inv_put [OF st, of d]
      by (auto simp: run_inv_def core_inv_def current_ok_def open_count_def unacked_def modules_def dec list_all_iff
          split: if_splits option.splits)
  qed
  then show ?thesis
    using inv by (simp add: confirm_pending_action_def split: option.splits)
qed

lemma modules_next_body: "length (bc_modules (next_body b r)) \<le> length (bc_modules b) + 1"
  by (simp add: next_body_def registered_body_def split: option.splits)

lemma self_check_modules:
  assumes "controller_inv k" "run_self_check env now k = Inr k'"
  shows "controller_inv k' \<and> length (bc_modules (bk_body k')) \<le> length (bc_modules (bk_body k)) + 1"
proof (cases "mount_state (bk_body k) = ''free''")
  case True
  with assms(2) attach_step_ok [OF assms(1), of env now self_check_request "''attach_self_check''" TEST_MOUNT False] show ?thesis
    using modules_next_body by (auto simp: run_self_check_def Let_def)
next
  case False
  with assms show ?thesis
    by (auto simp: run_self_check_def Let_def controller_inv_def)
qed

lemma run_body:
  assumes "run_inv u yes checks c" "controller_inv k" "length (bc_modules (bk_body k)) \<le> length (co_traces c) + checks'" "checks \<le> checks'"
  shows "run_inv u yes checks' (c\<lparr>co_body := k\<rparr>)"
proof -
  have "core_inv u yes checks' c" "current_ok c"
    using run_inv_mono [OF assms(1) _ assms(4), of yes] by (simp_all add: run_inv_def)
  from core_body [OF this(1) assms(2,3)] this(2) show ?thesis
    by (simp add: run_inv_def current_ok_def split: option.splits)
qed

lemma console_self_check_inv:
  assumes inv: "run_inv u yes checks c"
  shows "run_inv u yes (Suc checks) (console_self_check env now c)"
proof -
  have ctrl: "controller_inv (co_body c)" and bound: "length (bc_modules (bk_body (co_body c))) \<le> length (co_traces c) + checks"
    using inv by (simp_all add: run_inv_def core_inv_def modules_def)
  have same: "run_inv u yes (Suc checks) c"
    by (rule run_inv_mono [OF inv]) simp_all
  have "run_inv u yes (Suc checks) (c\<lparr>co_body := k\<rparr>)" if "run_self_check env now (co_body c) = Inr k" for k
    using self_check_modules [OF ctrl that] bound by (intro run_body [OF inv]) auto
  with same show ?thesis
    by (simp add: console_self_check_def split: sum.splits)
qed

lemma console_reset_inv: "run_inv u yes checks c \<Longrightarrow> run_inv u yes checks (console_reset env c)"
  using run_body [of u yes checks c "reset_body env (co_body c)" checks] controller_inv_reset
  by (simp add: console_reset_def reset_body_def skeleton_def Let_def)

definition said_yes :: "console_step \<Rightarrow> nat" where
  "said_yes s = (case s of Answer yes _ _ \<Rightarrow> if yes then 1 else 0 | _ \<Rightarrow> 0)"

definition self_checked :: "console_step \<Rightarrow> nat" where
  "self_checked s = (if s = Self_check then 1 else 0)"

lemma console_step_inv:
  assumes inv: "run_inv u yes checks c"
  shows "run_inv u (yes + said_yes s) (checks + self_checked s) (console_step H fr x s c)"
proof -
  have quiet: "run_inv u yes checks c'" if "quiet c c'" for c'
    by (rule run_quiet [OF that inv])
  have task: "run_inv u yes checks (continue_task H fr env now t (c\<lparr>co_tasks := ts\<rparr>))" for env now t ts
    by (intro continue_inv quiet) simp
  have no_dialog: "run_inv u yes checks (c\<lparr>co_dialog := False\<rparr>)"
    by (rule quiet) simp
  show ?thesis
    using inv task no_dialog run_inv_mono [OF inv, of "Suc yes" checks] execute_inv [OF no_dialog]
    by (cases s)
      (auto simp: console_step_def Let_def said_yes_def self_checked_def confirm_inv snapshot_inv resume_inv
        console_self_check_inv console_reset_inv intro: quiet quiet_operator quiet_response)
qed

lemma console_run_inv:
  "run_inv u yes checks c \<Longrightarrow>
     run_inv u (yes + sum_list (map (said_yes \<circ> snd) ss)) (checks + sum_list (map (self_checked \<circ> snd) ss)) (console_run H fr c ss)"
proof (induction ss arbitrary: c yes checks)
  case (Cons e ss)
  obtain x s where e: "e = (x, s)"
    by (cases e)
  from Cons.IH [OF console_step_inv [OF Cons.prems, of s H fr x]] show ?case
    by (simp add: e add.assoc)
qed simp

lemma new_console_inv: "run_inv u 0 0 (new_console replay)"
proof -
  have "ds_get (new_decision_store 500) k = None" for k
    by (simp add: ds_get_def new_decision_store_def)
  moreover have "bc_modules (bk_body new_body_controller) = []"
    by (simp add: new_body_controller_def skeleton_def)
  ultimately show ?thesis
    by (simp add: run_inv_def core_inv_def current_ok_def new_console_def store_inv_new store_shown_def controller_inv_new held_def
        open_count_def unacked_def sealed_count_def modules_def)
qed

section \<open>No installation without an approval\<close>

text \<open>
  C31. In every run of the console, whatever the answers, the operator, the telemetry and the order in which suspended
  coroutines go on: a decision reaches the body at most as often as it was put before the operator, always with
  the command that was shown; there are at most as many installations and started commands as confirmations answered
  with yes; and the body never holds more modules than such installations and self-checks.
\<close>

theorem installations_are_approved:
  "(let c = console_run H fr (new_console replay) ss
    in count_list (map cd_id (co_traces c)) u \<le> count_list (map fst (co_shown c)) u \<and>
       list_all (\<lambda>d. (cd_id d, cd_intent d) \<in> set (co_shown c)) (co_traces c) \<and>
       length (co_traces c) + length (co_executed c) \<le> sum_list (map (said_yes \<circ> snd) ss) \<and>
       length (bc_modules (bk_body (co_body c))) \<le> length (co_traces c) + sum_list (map (self_checked \<circ> snd) ss))"
proof -
  have "run_inv u (sum_list (map (said_yes \<circ> snd) ss)) (sum_list (map (self_checked \<circ> snd) ss)) (console_run H fr (new_console replay) ss)"
    using console_run_inv [OF new_console_inv, of u ss H fr replay] by simp
  then show ?thesis
    by (simp add: run_inv_def core_inv_def Let_def modules_def as_shown_def [abs_def])
qed

end
