(* ===== verification/Attach_Stages.thy ===== *)
theory Attach_Stages
  imports Attach_Procedure "HOL-Library.Multiset"
begin

text \<open>
  The stages of an installation in every run: what a procedure is like in each stage, why at most one is active and why
  none is docked before its transfer is over, although its coroutines go on at any time after an \<open>await\<close> and the
  operator and the telemetry come between.
\<close>

section \<open>What a procedure is like in its stage\<close>

definition ticks :: "(real \<Rightarrow> string) \<Rightarrow> attach_proc \<Rightarrow> int" where
  "ticks fr p = transfer_ticks_for_mount (proc_mount fr p)"

lemma ticks_bounds: "2 \<le> transfer_ticks_for_mount m \<and> transfer_ticks_for_mount m \<le> 4"
proof -
  have "0 \<le> max 0 (min i 11) div 4 \<and> max 0 (min i 11) div 4 \<le> (2 :: int)" for i :: int
    by (auto simp: max_def min_def)
  then show ?thesis
    by (simp add: transfer_ticks_for_mount_def split: option.splits)
qed

text \<open>No hold is taken for the one over a damaged passport.\<close>

lemma join_Cons: "\<exists>rest. join sep (x # xs) = x @ rest"
  by (cases xs) auto

lemma join_codes_differs:
  assumes "\<And>rest. x @ rest \<noteq> ''PASSPORT_DAMAGED''"
  shows "join_codes d (x # xs) \<noteq> ''PASSPORT_DAMAGED''"
proof -
  obtain rest where "join '','' (x # xs) = x @ rest"
    using join_Cons by blast
  moreover have "x \<noteq> []"
    using assms by auto
  ultimately show ?thesis
    using assms by (simp add: join_codes_def or_text_def)
qed

lemma window_code:
  assumes "\<not> window_open t"
  shows "join_codes d (window_detail t) \<noteq> ''PASSPORT_DAMAGED''"
proof -
  have "\<exists>x xs. window_detail t = x # xs \<and> (\<forall>rest. x @ rest \<noteq> ''PASSPORT_DAMAGED'')"
    using assms
    by (cases "tv_power t" rule: pyval.exhaust; cases "tv_thermal t = ''green''")
      (auto simp: window_open_def window_detail_def body_attach_preconditions_def Let_def split: list.splits if_splits)
  with join_codes_differs show ?thesis
    by metis
qed

lemma bridge_code:
  assumes "bridge_decision_to_body H fr runner p t d s = (s', r)" "\<not> br_reached r"
  shows "join_codes x (br_reasons r @ codes) \<noteq> ''PASSPORT_DAMAGED''"
proof -
  obtain y ys where "br_reasons r = y # ys" "\<And>rest. y @ rest \<noteq> ''PASSPORT_DAMAGED''"
    using assms by (auto simp: bridge_decision_to_body_def preconditions_ok_def Let_def split: if_splits prod.splits)
  then show ?thesis
    using join_codes_differs [of y x "ys @ codes"] by simp
qed

definition stage_wf :: "(real \<Rightarrow> string) \<Rightarrow> attach_proc \<Rightarrow> bool" where
  "stage_wf fr p \<longleftrightarrow>
     (case ap_stage p of
        S1_inspect \<Rightarrow> ap_required p = 0 \<and> ap_status p \<in> {Running, Aborted}
      | S2_prepare \<Rightarrow>
          ap_required p = 0 \<and>
          (ap_status p \<in> {Running, Aborted} \<or> ap_status p = Awaiting \<and> ap_complication p = ''PASSPORT_DAMAGED'')
      | S3_transfer \<Rightarrow>
          ap_required p = ticks fr p \<and> 0 \<le> ap_done p \<and> ap_done p < ap_required p \<and>
          ap_status p \<in> {Running, Holding, Aborted}
      | S4_power \<Rightarrow> ap_required p = ticks fr p \<and> ap_done p = ap_required p \<and> ap_status p \<in> {Running, Holding, Aborted} \<and>
          (ap_status p = Holding \<longrightarrow> ap_complication p \<noteq> ''PASSPORT_DAMAGED'')
      | S5_dock \<Rightarrow> ap_required p = ticks fr p \<and> ap_done p = ap_required p \<and> ap_status p \<noteq> Awaiting \<and>
          (ap_status p = Holding \<longrightarrow> ap_complication p \<noteq> ''PASSPORT_DAMAGED''))"

text \<open>A procedure on its way into a stage: a transfer may still have to be set up.\<close>

definition entering :: "(real \<Rightarrow> string) \<Rightarrow> attach_proc \<Rightarrow> bool" where
  "entering fr p \<longleftrightarrow> ap_status p = Running \<and> (stage_wf fr p \<or> ap_stage p = S3_transfer \<and> ap_required p = 0)"

fun at_stage :: "resume_point \<Rightarrow> attach_stage" where
  "at_stage After_S1 = S1_inspect"
| "at_stage After_S2 = S2_prepare"
| "at_stage After_S4 = S4_power"

definition waits_for :: "nat \<Rightarrow> co_task \<Rightarrow> bool" where
  "waits_for i t = (case t of After j pt \<Rightarrow> i = j | Outcome \<Rightarrow> False)"

text \<open>The coroutines suspended for an active procedure: at most one, at its stage, and it runs.\<close>

definition tasks_wf :: "nat \<Rightarrow> attach_proc \<Rightarrow> co_task list \<Rightarrow> bool" where
  "tasks_wf i p ts \<longleftrightarrow>
     length (filter (waits_for i) ts) \<le> 1 \<and>
     (\<forall>pt. After i pt \<in> set ts \<longrightarrow> ap_status p = Running \<and> ap_stage p = at_stage pt)"

definition others_idle :: "(real \<Rightarrow> string) \<Rightarrow> nat \<Rightarrow> console \<Rightarrow> bool" where
  "others_idle fr i c \<longleftrightarrow>
     co_current c = Some i \<and> i < length (co_procs c) \<and>
     (\<forall>j < length (co_procs c). j \<noteq> i \<longrightarrow> stage_wf fr (proc_of c j) \<and> \<not> proc_active (proc_of c j))"

definition tasks_known :: "console \<Rightarrow> bool" where
  "tasks_known c \<longleftrightarrow> (\<forall>i pt. After i pt \<in> set (co_tasks c) \<longrightarrow> i < length (co_procs c))"

definition stage_inv :: "(real \<Rightarrow> string) \<Rightarrow> console \<Rightarrow> bool" where
  "stage_inv fr c \<longleftrightarrow>
     tasks_known c \<and>
     (case co_current c of
        None \<Rightarrow> co_procs c = []
      | Some i \<Rightarrow>
          others_idle fr i c \<and> stage_wf fr (proc_of c i) \<and>
          (proc_active (proc_of c i) \<longrightarrow> tasks_wf i (proc_of c i) (co_tasks c)))"

definition free :: "nat \<Rightarrow> console \<Rightarrow> bool" where
  "free i c \<longleftrightarrow> filter (waits_for i) (co_tasks c) = []"

lemma stage_invD:
  assumes "stage_inv fr c" "co_current c = Some i"
  shows "others_idle fr i c" "stage_wf fr (proc_of c i)"
    "proc_active (proc_of c i) \<Longrightarrow> tasks_wf i (proc_of c i) (co_tasks c)" "i < length (co_procs c)" "tasks_known c"
  using assms by (simp_all add: stage_inv_def others_idle_def)

lemma free_tasks: "free i c \<Longrightarrow> tasks_wf i p (co_tasks c)"
  by (auto simp: free_def tasks_wf_def filter_empty_conv waits_for_def)

lemma free_when:
  assumes "tasks_wf i p (co_tasks c)" "ap_status p \<noteq> Running \<or> ap_stage p \<in> {S3_transfer, S5_dock}"
  shows "free i c"
proof -
  have "After i pt \<notin> set (co_tasks c)" for pt
    using assms by (cases pt) (auto simp: tasks_wf_def)
  then show ?thesis
    by (auto simp: free_def filter_empty_conv waits_for_def split: co_task.splits)
qed

lemma proc_of_set [simp]: "i < length (co_procs c) \<Longrightarrow> proc_of (set_proc i p c) i = p"
  by (simp add: proc_of_def set_proc_def)

lemma proc_of_other [simp]: "j \<noteq> i \<Longrightarrow> proc_of (set_proc i p c) j = proc_of c j"
  by (simp add: proc_of_def set_proc_def)

lemma set_proc_fields [simp]:
  "co_tasks (set_proc i p c) = co_tasks c" "co_current (set_proc i p c) = co_current c"
  "length (co_procs (set_proc i p c)) = length (co_procs c)" "co_tele (set_proc i p c) = co_tele c"
  "co_body (set_proc i p c) = co_body c" "co_decisions (set_proc i p c) = co_decisions c"
  by (simp_all add: set_proc_def)

lemma others_set [simp]: "others_idle fr i (set_proc i p c) = others_idle fr i c"
  by (auto simp: others_idle_def)

lemma free_set [simp]: "free j (set_proc i p c) = free j c"
  by (simp add: free_def)

lemma known_set [simp]: "tasks_known (set_proc i p c) = tasks_known c"
  by (simp add: tasks_known_def)

lemma others_length: "others_idle fr i c \<Longrightarrow> i < length (co_procs c)"
  by (simp add: others_idle_def)

lemma settle_set:
  assumes "others_idle fr i c" "free i c" "tasks_known c" "stage_wf fr p"
  shows "stage_inv fr (set_proc i p c)"
  using assms others_length [OF assms(1)] free_tasks [OF assms(2)] by (simp add: stage_inv_def others_idle_def)

lemma settle_idle:
  assumes "others_idle fr i c" "tasks_known c" "stage_wf fr p" "\<not> proc_active p"
  shows "stage_inv fr (set_proc i p c)"
  using assms others_length [OF assms(1)] by (simp add: stage_inv_def others_idle_def)

lemma settle_same:
  assumes "others_idle fr i c" "free i c" "tasks_known c" "stage_wf fr (proc_of c i)"
  shows "stage_inv fr c"
  using assms free_tasks [OF assms(2)] by (simp add: stage_inv_def others_idle_def)

lemma settle_suspend:
  assumes "others_idle fr i c" "free i c" "tasks_known c" "stage_wf fr (proc_of c i)" "ap_status (proc_of c i) = Running"
    "ap_stage (proc_of c i) = at_stage pt"
  shows "stage_inv fr (suspend (After i pt) c)"
proof -
  have "tasks_wf i (proc_of c i) (co_tasks c @ [After i pt])"
    using assms(2,5,6) by (auto simp: tasks_wf_def free_def waits_for_def filter_empty_conv)
  moreover have "tasks_known (suspend (After i pt) c)"
    using assms(1,3) by (auto simp: tasks_known_def suspend_def others_idle_def)
  ultimately show ?thesis
    using assms by (simp add: stage_inv_def others_idle_def suspend_def proc_of_def)
qed

lemma stage_inv_cong:
  assumes "co_current c' = co_current c" "co_procs c' = co_procs c" "co_tasks c' = co_tasks c"
  shows "proc_of c' i = proc_of c i" "others_idle fr i c' = others_idle fr i c" "free i c' = free i c"
    "tasks_known c' = tasks_known c" "stage_inv fr c' = stage_inv fr c"
proof -
  show same: "proc_of c' i = proc_of c i" "others_idle fr i c' = others_idle fr i c" for i
    using assms by (simp_all add: proc_of_def others_idle_def)
  show known: "free i c' = free i c" "tasks_known c' = tasks_known c"
    using assms by (simp_all add: free_def tasks_known_def)
  show "stage_inv fr c' = stage_inv fr c"
    using assms same known by (simp add: stage_inv_def split: option.splits)
qed

lemma frame_updates [simp]:
  "others_idle fr i (c\<lparr>co_decisions := x_decisions\<rparr>) = others_idle fr i c" "free i (c\<lparr>co_decisions := x_decisions\<rparr>) = free i c" "tasks_known (c\<lparr>co_decisions := x_decisions\<rparr>) = tasks_known c"
  "proc_of (c\<lparr>co_decisions := x_decisions\<rparr>) i = proc_of c i"
  "others_idle fr i (c\<lparr>co_body := x_body\<rparr>) = others_idle fr i c" "free i (c\<lparr>co_body := x_body\<rparr>) = free i c" "tasks_known (c\<lparr>co_body := x_body\<rparr>) = tasks_known c"
  "proc_of (c\<lparr>co_body := x_body\<rparr>) i = proc_of c i"
  "others_idle fr i (c\<lparr>co_traces := x_traces\<rparr>) = others_idle fr i c" "free i (c\<lparr>co_traces := x_traces\<rparr>) = free i c" "tasks_known (c\<lparr>co_traces := x_traces\<rparr>) = tasks_known c"
  "proc_of (c\<lparr>co_traces := x_traces\<rparr>) i = proc_of c i"
  "others_idle fr i (c\<lparr>co_spent := x_spent\<rparr>) = others_idle fr i c" "free i (c\<lparr>co_spent := x_spent\<rparr>) = free i c" "tasks_known (c\<lparr>co_spent := x_spent\<rparr>) = tasks_known c"
  "proc_of (c\<lparr>co_spent := x_spent\<rparr>) i = proc_of c i"
  "others_idle fr i (c\<lparr>co_action := x_action\<rparr>) = others_idle fr i c" "free i (c\<lparr>co_action := x_action\<rparr>) = free i c" "tasks_known (c\<lparr>co_action := x_action\<rparr>) = tasks_known c"
  "proc_of (c\<lparr>co_action := x_action\<rparr>) i = proc_of c i"
  "others_idle fr i (c\<lparr>co_tele := x_tele\<rparr>) = others_idle fr i c" "free i (c\<lparr>co_tele := x_tele\<rparr>) = free i c" "tasks_known (c\<lparr>co_tele := x_tele\<rparr>) = tasks_known c"
  "proc_of (c\<lparr>co_tele := x_tele\<rparr>) i = proc_of c i"
  "others_idle fr i (c\<lparr>co_dialog := x_dialog\<rparr>) = others_idle fr i c" "free i (c\<lparr>co_dialog := x_dialog\<rparr>) = free i c" "tasks_known (c\<lparr>co_dialog := x_dialog\<rparr>) = tasks_known c"
  "proc_of (c\<lparr>co_dialog := x_dialog\<rparr>) i = proc_of c i"
  "others_idle fr i (c\<lparr>co_asked := x_asked\<rparr>) = others_idle fr i c" "free i (c\<lparr>co_asked := x_asked\<rparr>) = free i c" "tasks_known (c\<lparr>co_asked := x_asked\<rparr>) = tasks_known c"
  "proc_of (c\<lparr>co_asked := x_asked\<rparr>) i = proc_of c i"
  "others_idle fr i (c\<lparr>co_executed := x_executed\<rparr>) = others_idle fr i c" "free i (c\<lparr>co_executed := x_executed\<rparr>) = free i c" "tasks_known (c\<lparr>co_executed := x_executed\<rparr>) = tasks_known c"
  "proc_of (c\<lparr>co_executed := x_executed\<rparr>) i = proc_of c i"
  by (simp_all add: others_idle_def proc_of_def free_def tasks_known_def)


lemma dock_stage:
  assumes c: "others_idle fr i c" "free i c" "tasks_known c" and p: "stage_wf fr (proc_of c i)" "ap_stage (proc_of c i) = S5_dock"
  shows "stage_inv fr (attach_dock H fr env now c)"
proof -
  define p where "p = proc_of c i"
  have cur: "co_current c = Some i"
    using c(1) by (simp add: others_idle_def)
  have p_wf: "ap_stage p = S5_dock" "ap_required p = ticks fr p" "ap_done p = ap_required p"
    using assms(4,5) by (simp_all add: p_def stage_wf_def)
  have same: "stage_inv fr c"
    by (rule settle_same [OF c p(1)])
  have new: "stage_inv fr (set_proc i q c')"
    if "others_idle fr i c'" "free i c'" "tasks_known c'" "ap_stage q = S5_dock" "ap_params q = ap_params p"
      "ap_required q = ap_required p" "ap_done q = ap_done p" "ap_status q \<noteq> Awaiting"
      "ap_status q = Holding \<longrightarrow> ap_complication q \<noteq> ''PASSPORT_DAMAGED''" for q c'
    using that p_wf by (intro settle_set) (simp_all add: stage_wf_def ticks_def proc_mount_def)
  show ?thesis
    using c p_wf same
    by (auto simp: attach_dock_def cur Let_def p_def [symmetric] intro!: new dest: bridge_code split: prod.splits sum.splits)
qed

lemma run_stage_stage:
  assumes c: "others_idle fr i c" "free i c" "tasks_known c" and p: "entering fr (proc_of c i)"
  shows "stage_inv fr (run_stage H fr env now i c)"
proof -
  define p where "p = proc_of c i"
  have running: "ap_status p = Running" and enter: "stage_wf fr p \<or> ap_stage p = S3_transfer \<and> ap_required p = 0"
    using p by (simp_all add: entering_def p_def)
  note set = settle_set [OF c] and suspend = settle_suspend [OF c] and idle = settle_idle [OF c(1,3)] and same = settle_same [OF c]
  show ?thesis
  proof (cases "ap_stage p")
    case S1_inspect
    with enter running show ?thesis
      by (auto simp: run_stage_def stage_inspect_def p_def [symmetric] Let_def stage_wf_def proc_active_def
          intro!: suspend idle split: option.splits)
  next
    case S2_prepare
    with enter running show ?thesis
      by (auto simp: run_stage_def stage_prepare_def p_def [symmetric] Let_def stage_wf_def intro!: suspend set)
  next
    case S3_transfer
    have "2 \<le> ticks fr p"
      using ticks_bounds by (simp add: ticks_def)
    with S3_transfer enter running show ?thesis
      by (auto simp: run_stage_def stage_transfer_def p_def [symmetric] Let_def stage_wf_def ticks_def proc_mount_def
          intro!: set same)
  next
    case S4_power
    with enter running window_code [of "co_tele c"] show ?thesis
      by (auto simp: run_stage_def stage_power_def p_def [symmetric] Let_def stage_wf_def ticks_def proc_mount_def
          intro!: suspend set)
  next
    case S5_dock
    with enter show ?thesis
      using dock_stage [OF c] by (simp add: run_stage_def p_def)
  qed
qed

section \<open>Every step keeps it\<close>

lemma advance_stage:
  assumes c: "others_idle fr i c" "free i c" "tasks_known c"
    and p: "entering fr ((proc_of c i)\<lparr>ap_status := Running\<rparr>)" "proc_active (proc_of c i)"
  shows "stage_inv fr (advance_procedure H fr env now c)"
proof -
  have "co_current c = Some i" "i < length (co_procs c)"
    using c(1) by (simp_all add: others_idle_def)
  with c p show ?thesis
    by (simp add: advance_procedure_def run_stage_stage)
qed

lemma continue_stage:
  assumes inv: "stage_inv fr c" and t: "t \<in> set (co_tasks c)"
    and ts: "mset ts + {#t#} = mset (co_tasks c)"
  shows "stage_inv fr (continue_task H fr env now t (c\<lparr>co_tasks := ts\<rparr>))"
proof -
  let ?c = "c\<lparr>co_tasks := ts\<rparr>"
  have fewer: "set ts \<subseteq> set (co_tasks c)"
    using ts by (metis mset_subset_eq_add_left set_mset_mono set_mset_mset)
  have count: "length (filter (waits_for i) ts) + (if waits_for i t then 1 else 0) = length (filter (waits_for i) (co_tasks c))" for i
  proof -
    have "size (filter_mset (waits_for i) (mset ts + {#t#})) = size (filter_mset (waits_for i) (mset (co_tasks c)))"
      by (simp only: ts)
    then show ?thesis
      by (simp add: mset_filter [symmetric] del: mset_filter split: if_splits)
  qed
  have others: "others_idle fr i ?c = others_idle fr i c" and proc: "proc_of ?c i = proc_of c i" for i
    by (simp_all add: others_idle_def proc_of_def)
  have known: "tasks_known ?c"
    using inv fewer by (auto simp: stage_inv_def tasks_known_def)
  have smaller: "tasks_wf i p (co_tasks c) \<Longrightarrow> tasks_wf i p ts" for i p
    using fewer count [of i] by (auto simp: tasks_wf_def split: if_splits)
  have same: "stage_inv fr ?c"
    using inv known smaller by (simp add: stage_inv_def others proc split: option.splits)
  show ?thesis
  proof (cases t)
    case Outcome
    with same show ?thesis
      using stage_inv_cong(5) [of "?c\<lparr>co_action := None\<rparr>" ?c fr] by (simp add: continue_task_def)
  next
    case (After i pt)
    show ?thesis
    proof (cases "proc_active (proc_of c i)")
      case False
      with After same show ?thesis
        by (simp add: continue_task_def proc)
    next
      case True
      have i: "i < length (co_procs c)"
        using inv t After by (auto simp: stage_inv_def tasks_known_def)
      then have cur: "co_current c = Some i"
        using inv True by (auto simp: stage_inv_def others_idle_def split: option.splits)
      note facts = stage_invD [OF inv cur]
      have at: "ap_status (proc_of c i) = Running" "ap_stage (proc_of c i) = at_stage pt"
        using facts(3) [OF True] t After by (simp_all add: tasks_wf_def)
      have free: "free i ?c"
        using count [of i] facts(3) [OF True] After
        by (cases "filter (waits_for i) ts") (simp_all add: free_def tasks_wf_def waits_for_def)
      have "entering fr ((proc_of c i)\<lparr>ap_stage := next_stage pt\<rparr>)"
        using at facts(2) by (cases pt) (auto simp: entering_def stage_wf_def ticks_def proc_mount_def)
      then show ?thesis
        using True After facts(1) free known others i
        by (simp add: continue_task_def proc) (rule run_stage_stage; simp)
    qed
  qed
qed

lemma paused_free:
  assumes "stage_inv fr c" "co_current c = Some i" "proc_paused (proc_of c i)"
  shows "free i c" "proc_active (proc_of c i)"
proof -
  show active: "proc_active (proc_of c i)"
    using assms(3) by (auto simp: proc_paused_def proc_active_def)
  show "free i c"
    using stage_invD(3) [OF assms(1,2) active] assms(3) by (intro free_when) (auto simp: proc_paused_def)
qed

lemma resume_stage:
  assumes inv: "stage_inv fr c"
  shows "stage_inv fr (resume_procedure H fr env now c)"
proof (cases "co_current c")
  case (Some i)
  note facts = stage_invD [OF inv Some]
  show ?thesis
  proof (cases "proc_paused (proc_of c i)")
    case True
    note free = paused_free [OF inv Some True]
    have advance: "stage_inv fr (advance_procedure H fr env now (set_proc i q c))"
      if "entering fr (q\<lparr>ap_status := Running\<rparr>)" "proc_active q" for q
      using facts free that by (intro advance_stage [of fr i]) simp_all
    have stay: "stage_inv fr (set_proc i q c)" if "stage_wf fr q" for q
      using facts free that by (intro settle_set) simp_all
    have stage: "ap_stage (proc_of c i) \<noteq> S1_inspect" "ap_stage (proc_of c i) = S2_prepare \<Longrightarrow> ap_complication (proc_of c i) = ''PASSPORT_DAMAGED''"
      using True facts(2) by (auto simp: stage_wf_def proc_paused_def)
    show ?thesis
      using True facts(2) stage
      by (cases "ap_stage (proc_of c i)")
        (auto simp: resume_procedure_def Some Let_def stage_wf_def ticks_def proc_mount_def entering_def proc_active_def proc_paused_def
          intro!: advance stay)
  qed (use inv in \<open>simp add: resume_procedure_def Some\<close>)
qed (use inv in \<open>simp add: resume_procedure_def\<close>)

lemma transferring_free:
  assumes "stage_inv fr c" "co_current c = Some i" "proc_active (proc_of c i)" "ap_stage (proc_of c i) = S3_transfer"
  shows "free i c"
  using stage_invD(3) [OF assms(1-3)] assms(4) by (intro free_when) auto

lemma abort_stage: "stage_inv fr c \<Longrightarrow> stage_inv fr (abort_procedure c)"
proof (cases "co_current c")
  case (Some i)
  assume inv: "stage_inv fr c"
  note facts = stage_invD [OF inv Some]
  have "stage_wf fr ((proc_of c i)\<lparr>ap_status := Aborted\<rparr>)"
    using facts(2) by (auto simp: stage_wf_def ticks_def proc_mount_def split: attach_stage.splits)
  with facts inv show ?thesis
    by (auto simp: abort_procedure_def Some proc_active_def intro: settle_idle)
qed (simp add: abort_procedure_def)

lemma holding_stage:
  assumes inv: "stage_inv fr c" and cur: "co_current c = Some i" and p: "ap_stage (proc_of c i) = S3_transfer"
    "ap_status (proc_of c i) = Running"
  shows "stage_inv fr (set_proc i ((proc_of c i)\<lparr>ap_status := Holding, ap_auto_hold := b, ap_complication := r\<rparr>) c)"
proof -
  note facts = stage_invD [OF inv cur]
  have "free i c"
    by (rule transferring_free [OF inv cur]) (simp_all add: p proc_active_def)
  with facts p show ?thesis
    by (intro settle_set) (auto simp: stage_wf_def ticks_def proc_mount_def)
qed

lemma hold_stage: "stage_inv fr c \<Longrightarrow> stage_inv fr (hold_procedure c)"
  by (auto simp: hold_procedure_def intro: holding_stage split: option.splits)

lemma stale_stage: "stage_inv fr c \<Longrightarrow> stage_inv fr (stale_check dead c)"
  by (auto simp: stale_check_def intro: holding_stage split: option.splits)

lemma transfer_tick_stage:
  assumes "stage_wf fr p" "ap_stage p = S3_transfer" "proc_active p"
  shows "if ap_stage (transfer_tick t p) = S4_power
         then entering fr (transfer_tick t p) \<and> ap_done (transfer_tick t p) = ap_done p + 1
         else stage_wf fr (transfer_tick t p) \<and> ap_stage (transfer_tick t p) = S3_transfer"
  using assms
  by (auto simp: transfer_tick_def stage_wf_def entering_def ticks_def proc_mount_def Let_def proc_active_def)

lemma entering_running: "entering fr p \<Longrightarrow> p\<lparr>ap_status := Running\<rparr> = p \<and> proc_active p"
  by (simp add: entering_def proc_active_def)

lemma tele_stage [simp]: "stage_inv fr (c\<lparr>co_tele := t\<rparr>) = stage_inv fr c"
  by (rule stage_inv_cong) simp_all

lemma snapshot_stage:
  assumes inv: "stage_inv fr c"
  shows "stage_inv fr (on_snapshot H fr env now t c)"
proof (cases "co_current c")
  case (Some i)
  note facts = stage_invD [OF inv Some]
  show ?thesis
  proof (cases "proc_active (proc_of c i) \<and> ap_stage (proc_of c i) = S3_transfer")
    case True
    note free = transferring_free [OF inv Some]
    define p' where "p' = transfer_tick t (proc_of c i)"
    have p': "if ap_stage p' = S4_power then entering fr p' else stage_wf fr p'"
      using transfer_tick_stage [OF facts(2), of t] True by (auto simp: p'_def split: if_splits)
    show ?thesis
    proof (cases "ap_stage p' = S4_power")
      case s4: True
      with p' facts free True entering_running [of fr p'] show ?thesis
        by (auto simp: on_snapshot_def Some Let_def p'_def [symmetric] intro!: advance_stage [of fr i])
    next
      case False
      with p' facts free True show ?thesis
        by (auto simp: on_snapshot_def Some Let_def p'_def [symmetric] intro!: settle_set)
    qed
  qed (use inv in \<open>auto simp: on_snapshot_def Some Let_def\<close>)
qed (use inv in \<open>simp add: on_snapshot_def Let_def\<close>)

lemma new_proc_entering: "entering fr (new_proc d origin params)"
  by (simp add: entering_def stage_wf_def new_proc_def)

lemma execute_body_stage:
  assumes inv: "stage_inv fr c"
  shows "stage_inv fr (execute_body_attach H fr env now c)"
proof -
  have action: "stage_inv fr (c\<lparr>co_action := None\<rparr>)"
    using inv by (subst stage_inv_cong) simp_all
  have start: "stage_inv fr (advance_procedure H fr env now
      (c\<lparr>co_procs := co_procs c @ [p], co_current := Some (length (co_procs c)), co_action := None\<rparr>))"
    (is "stage_inv fr (advance_procedure H fr env now ?c)") if "entering fr p" "\<not> procedure_active c" for p
  proof (rule advance_stage)
    have old: "stage_wf fr (proc_of c j) \<and> \<not> proc_active (proc_of c j)" if "j < length (co_procs c)" for j
      using inv \<open>\<not> procedure_active c\<close> that
      by (auto simp: stage_inv_def others_idle_def procedure_active_def split: option.splits)
    then show "others_idle fr (length (co_procs c)) ?c"
      by (auto simp: others_idle_def proc_of_def nth_append)
    have known: "tasks_known c"
      using inv by (simp add: stage_inv_def)
    then show "free (length (co_procs c)) ?c" "tasks_known ?c"
      by (auto simp: free_def tasks_known_def filter_empty_conv waits_for_def less_Suc_eq split: co_task.splits)
    have "proc_of ?c (length (co_procs c)) = p"
      by (simp add: proc_of_def)
    then show "entering fr ((proc_of ?c (length (co_procs c)))\<lparr>ap_status := Running\<rparr>)" "proc_active (proc_of ?c (length (co_procs c)))"
      using that entering_running [of fr p] by simp_all
  qed
  show ?thesis
    using inv action start new_proc_entering
    by (auto simp: execute_body_attach_def Let_def split: option.splits)
qed

lemma other_updates:
  assumes "stage_inv fr c"
  shows "stage_inv fr (c\<lparr>co_asked := q\<rparr>)" "stage_inv fr (c\<lparr>co_dialog := b\<rparr>)" "stage_inv fr (c\<lparr>co_body := k\<rparr>)"
    "stage_inv fr (cancel_pending_action c)" "stage_inv fr (on_response rid legality action c)"
    "stage_inv fr (enrich_pending_action track label c)" "stage_inv fr (confirm_pending_action H fr' u c)"
  using assms
  by (subst stage_inv_cong; simp add: cancel_pending_action_def on_response_def enrich_pending_action_def
      confirm_pending_action_def seal_pending_decision_def Let_def split: option.splits)+

lemma outcome_stage: "stage_inv fr c \<Longrightarrow> stage_inv fr (suspend Outcome (c\<lparr>co_executed := ex\<rparr>))"
proof -
  assume inv: "stage_inv fr c"
  let ?c = "suspend Outcome (c\<lparr>co_executed := ex\<rparr>)"
  have "proc_of ?c i = proc_of c i" "others_idle fr i ?c = others_idle fr i c" "tasks_known ?c = tasks_known c"
    "tasks_wf i p (co_tasks ?c) = tasks_wf i p (co_tasks c)" for i p
    by (auto simp: suspend_def proc_of_def others_idle_def tasks_known_def tasks_wf_def waits_for_def)
  moreover have "co_procs ?c = co_procs c" "co_current ?c = co_current c"
    by (simp_all add: suspend_def)
  ultimately show "stage_inv fr ?c"
    using inv by (simp add: stage_inv_def split: option.splits)
qed

lemma execute_stage:
  assumes inv: "stage_inv fr c"
  shows "stage_inv fr (execute_pending_action H fr env now known busy c)"
proof -
  have auth: "stage_inv fr (fst (authorize_pending H fr a c))" for a
    using inv by (subst stage_inv_cong) (simp_all add: authorize_pending_def Let_def split: option.splits)
  have action: "stage_inv fr c' \<Longrightarrow> stage_inv fr (c'\<lparr>co_action := None\<rparr>)" for c'
    by (subst stage_inv_cong) simp_all
  show ?thesis
    using inv auth action execute_body_stage outcome_stage
    by (simp add: execute_pending_action_def case_prod_beta Let_def split: option.splits)
qed

lemma console_step_stage:
  assumes inv: "stage_inv fr c"
  shows "stage_inv fr (console_step H fr x s c)"
proof (cases s)
  case (Continue n)
  show ?thesis
  proof (cases "n < length (co_tasks c)")
    case True
    have "mset (take n (co_tasks c) @ drop (Suc n) (co_tasks c)) + {#co_tasks c ! n#} = mset (co_tasks c)"
      using arg_cong [OF id_take_nth_drop [OF True], of mset] by simp
    from continue_stage [OF inv _ this] True show ?thesis
      by (simp add: console_step_def Continue)
  qed (use inv in \<open>simp add: console_step_def Continue\<close>)
next
  case (Answer yes known busy)
  with inv show ?thesis
    using execute_stage [OF other_updates(2) [OF inv, of False]] other_updates(2) [OF inv, of False]
    by (simp add: console_step_def Let_def)
qed (use inv in \<open>simp_all add: console_step_def Let_def other_updates snapshot_stage stale_stage hold_stage resume_stage
      abort_stage console_self_check_def console_reset_def split: sum.splits\<close>)

lemma console_run_stage: "stage_inv fr c \<Longrightarrow> stage_inv fr (console_run H fr c ss)"
  by (induction ss arbitrary: c) (auto simp: console_step_stage)

lemma stage_inv_new: "stage_inv fr (new_console replay)"
  by (simp add: stage_inv_def new_console_def tasks_known_def)

lemma one_active:
  assumes "stage_inv fr c"
  shows "length (filter proc_active (co_procs c)) \<le> 1"
proof (cases "co_current c")
  case (Some i)
  have idle: "\<not> proc_active (co_procs c ! j)" if "j < length (co_procs c)" "j \<noteq> i" for j
    using assms that Some by (auto simp: stage_inv_def others_idle_def proc_of_def)
  have "co_procs c = take i (co_procs c) @ co_procs c ! i # drop (Suc i) (co_procs c)"
    using assms Some by (intro id_take_nth_drop) (simp add: stage_inv_def others_idle_def)
  moreover have "filter proc_active (take i (co_procs c)) = []" "filter proc_active (drop (Suc i) (co_procs c)) = []"
    using idle by (auto simp: filter_empty_conv in_set_conv_nth)
  ultimately have "filter proc_active (co_procs c) = filter proc_active [co_procs c ! i]"
    by (metis append_Nil append_Nil2 filter_append append_Cons filter.simps(1) filter.simps(2))
  then show ?thesis
    by simp
qed (use assms in \<open>simp add: stage_inv_def\<close>)

lemma stages_wf:
  assumes "stage_inv fr c"
  shows "list_all (stage_wf fr) (co_procs c)"
  unfolding list_all_length
proof (intro allI impI)
  fix j
  assume "j < length (co_procs c)"
  with assms show "stage_wf fr (co_procs c ! j)"
    by (cases "co_current c = Some j") (auto simp: stage_inv_def others_idle_def proc_of_def split: option.splits)
qed

text \<open>
  C32. In every run of the console at most one installation is active; and one that has come to its power check or to
  docking, or is over with a success or a refusal of the conveyor, has been carried through the whole transfer: as
  many ticks as its face asks for, two at least. However its coroutines, the operator and the telemetry interleave,
  no other installation comes there.
\<close>

theorem transfer_before_docking:
  "(let c = console_run H fr (new_console replay) ss
    in length (filter proc_active (co_procs c)) \<le> 1 \<and>
       list_all (\<lambda>p. if ap_stage p \<in> {S4_power, S5_dock}
                     then ap_done p = transfer_ticks_for_mount (proc_mount fr p) \<and> 2 \<le> ap_done p
                     else ap_status p \<notin> {Done, Failed}) (co_procs c))"
proof -
  define c where "c = console_run H fr (new_console replay) ss"
  have inv: "stage_inv fr c"
    unfolding c_def by (rule console_run_stage [OF stage_inv_new])
  have "list_all (\<lambda>p. if ap_stage p \<in> {S4_power, S5_dock}
                     then ap_done p = transfer_ticks_for_mount (proc_mount fr p) \<and> 2 \<le> ap_done p
                     else ap_status p \<notin> {Done, Failed}) (co_procs c)"
    using stages_wf [OF inv]
    by (rule list.pred_mono_strong)
      (auto simp: stage_wf_def ticks_def ticks_bounds split: attach_stage.splits)
  with one_active [OF inv] show ?thesis
    by (simp add: Let_def c_def)
qed

section \<open>An open window leads to the dock\<close>

definition good_view :: "telemetry_view \<Rightarrow> bool" where
  "good_view t \<longleftrightarrow> \<not> world_paused t \<and> window_open t"

definition transferring :: "nat \<Rightarrow> console \<Rightarrow> bool" where
  "transferring i c \<longleftrightarrow>
     co_current c = Some i \<and> i < length (co_procs c) \<and> ap_stage (proc_of c i) = S3_transfer \<and>
     ap_status (proc_of c i) = Running"

definition ticks_left :: "nat \<Rightarrow> console \<Rightarrow> int" where
  "ticks_left i c = ap_required (proc_of c i) - ap_done (proc_of c i)"

definition at_power :: "nat \<Rightarrow> console \<Rightarrow> console \<Rightarrow> bool" where
  "at_power i c c' \<longleftrightarrow>
     co_current c' = Some i \<and> i < length (co_procs c') \<and> ap_stage (proc_of c' i) = S4_power \<and> ap_status (proc_of c' i) = Running \<and>
     co_tasks c' = co_tasks c @ [After i After_S4] \<and> window_open (co_tele c') \<and> co_traces c' = co_traces c \<and>
     co_body c' = co_body c \<and> ap_decision (proc_of c' i) = ap_decision (proc_of c i) \<and>
     ap_params (proc_of c' i) = ap_params (proc_of c i)"

lemma good_tick:
  assumes "transferring i c" "good_view t" "ticks_left i c > 1"
  shows "transferring i (on_snapshot H fr env now t c) \<and> ticks_left i (on_snapshot H fr env now t c) = ticks_left i c - 1 \<and>
    (at_power i (on_snapshot H fr env now t c) c' = at_power i c c')"
  using assms
  by (auto simp: transferring_def good_view_def ticks_left_def on_snapshot_def transfer_tick_def Let_def proc_active_def
      at_power_def) (simp_all add: set_proc_def)

lemma last_tick:
  assumes "transferring i c" "good_view t" "ticks_left i c = 1"
  shows "at_power i c (on_snapshot H fr env now t c)"
  using assms
  by (simp add: transferring_def good_view_def ticks_left_def on_snapshot_def transfer_tick_def Let_def proc_active_def
      advance_procedure_def run_stage_def stage_power_def suspend_def at_power_def)
    (simp add: set_proc_def proc_of_def)

lemma good_ticks:
  assumes "transferring i c" "list_all good_view ts" "ticks_left i c = int (length ts)" "ts \<noteq> []"
  shows "at_power i c (console_run H fr c (map (\<lambda>t. (x, Snapshot t)) ts))"
  using assms
proof (induction ts arbitrary: c)
  case (Cons t ts)
  show ?case
  proof (cases "ts = []")
    case True
    with Cons.prems last_tick [of i c t H fr "ce_event x" "ce_now x"] show ?thesis
      by (simp add: console_step_def)
  next
    case False
    then have "ticks_left i c > 1"
      using Cons.prems(3) by (cases ts) auto
    with Cons.prems good_tick [of i c t H fr "ce_event x" "ce_now x"] Cons.IH [of "on_snapshot H fr (ce_event x) (ce_now x) t c"] False
    show ?thesis
      by (simp add: console_step_def)
  qed
qed simp

lemma runner_runs:
  assumes "es_enabled (bk_store k)" "capabilities_of (vget params ''provided_capabilities'') \<noteq> None"
  shows "\<exists>k' ok ev. attach_runner fr env now params u (Inr k) = (Inr k', ok, ev)"
proof -
  obtain caps where caps: "capabilities_of (vget params ''provided_capabilities'') = Some caps"
    using assms(2) by auto
  have run: "\<exists>k'. controller_attach env now m f pp rid k = Inr k'" for m f pp rid
    using pipeline_outcome [OF assms(1), of env now "bk_body k" "\<lparr>ar_request = rid, ar_module = m, ar_mount = f, ar_passport = pp\<rparr>"]
    by (auto simp: controller_attach_def attach_step_def)
  show ?thesis
    using run by (simp add: attach_runner_def Let_def caps split: sum.splits) (metis sum.distinct(1))
qed

lemma open_dock:
  assumes "co_current c = Some i" "i < length (co_procs c)" "proc_active (proc_of c i)" "window_open (co_tele c)"
    and "may_reach H fr (ap_decision (proc_of c i))" "es_enabled (bk_store (co_body c))"
    and "capabilities_of (vget (ap_params (proc_of c i)) ''provided_capabilities'') \<noteq> None"
  shows "length (co_traces (attach_dock H fr env now c)) = length (co_traces c) + 1 \<and>
    ap_status (proc_of (attach_dock H fr env now c) i) \<in> {Done, Failed}"
proof -
  define p where "p = proc_of c i"
  define d where "d = ap_decision p"
  define runner where "runner = attach_runner fr env now (ap_params p) (cd_id d)"
  obtain k' ok ev where run: "runner (Inr (co_body c)) = (Inr k', ok, ev)"
    using runner_runs [OF assms(6,7), of fr env now "cd_id d"] by (auto simp: runner_def p_def)
  obtain detail where pre: "body_attach_preconditions (co_tele c) = (False, False, detail)"
    using assms(4) by (cases "body_attach_preconditions (co_tele c)") (auto simp: window_open_def)
  obtain s' r where br: "bridge_decision_to_body H fr runner False False d (Inr (co_body c)) = (s', r)"
    by (cases "bridge_decision_to_body H fr runner False False d (Inr (co_body c))")
  have reached: "br_reached r"
    using bridge_reached [of H fr runner False False d "Inr (co_body c)"] br assms(5) by (simp add: may_reach_def d_def p_def)
  with bridge_done [of H fr runner False False d "Inr (co_body c)"] br run have "s' = Inr k'"
    by simp
  with reached assms(1,2,3) show ?thesis
    by (simp add: attach_dock_def Let_def p_def [symmetric] d_def [symmetric] runner_def [symmetric] pre br)
      (simp add: proc_of_def set_proc_def)
qed

text \<open>
  An installation in its transfer gets to the body: after as many snapshots of a running world with an open power
  and thermal window as ticks are left, and one more turn of its coroutine, its published decision has reached the
  conveyor, once, and the installation is over with the conveyor's answer.
\<close>

theorem open_window_docks:
  assumes "transferring i c" "list_all good_view ts" "ticks_left i c = int (length ts)" "ts \<noteq> []"
    and "may_reach H fr (ap_decision (proc_of c i))" "es_enabled (bk_store (co_body c))"
    and "capabilities_of (vget (ap_params (proc_of c i)) ''provided_capabilities'') \<noteq> None"
  shows "(let c' = console_run H fr c (map (\<lambda>t. (x, Snapshot t)) ts @ [(x, Continue (length (co_tasks c)))])
          in length (co_traces c') = length (co_traces c) + 1 \<and> ap_status (proc_of c' i) \<in> {Done, Failed})"
proof -
  define c1 where "c1 = console_run H fr c (map (\<lambda>t. (x, Snapshot t)) ts)"
  have at: "at_power i c c1"
    unfolding c1_def by (rule good_ticks [OF assms(1-4)])
  have run: "console_run H fr c (ss @ ss') = console_run H fr (console_run H fr c ss) ss'" for c ss ss'
    by (induction ss arbitrary: c) auto
  define c2 where "c2 = set_proc i ((proc_of c1 i)\<lparr>ap_stage := S5_dock\<rparr>) (c1\<lparr>co_tasks := co_tasks c\<rparr>)"
  have c2: "co_current c2 = Some i" "i < length (co_procs c2)" "proc_of c2 i = (proc_of c1 i)\<lparr>ap_stage := S5_dock\<rparr>"
    "co_tele c2 = co_tele c1" "co_traces c2 = co_traces c" "co_body c2 = co_body c"
    using at by (simp_all add: c2_def at_power_def set_proc_def proc_of_def)
  have "console_step H fr x (Continue (length (co_tasks c))) c1 = attach_dock H fr (ce_event x) (ce_now x) c2"
    using at by (simp add: console_step_def continue_task_def at_power_def proc_active_def proc_of_def run_stage_def c2_def set_proc_def)
  moreover have "length (co_traces (attach_dock H fr (ce_event x) (ce_now x) c2)) = length (co_traces c2) + 1 \<and>
      ap_status (proc_of (attach_dock H fr (ce_event x) (ce_now x) c2) i) \<in> {Done, Failed}"
    using at assms(5-7) c2 by (intro open_dock) (simp_all add: at_power_def proc_active_def)
  ultimately show ?thesis
    by (simp add: run c1_def [symmetric] c2(5) Let_def)
qed

definition example_transfer :: console where
  "example_transfer =
     (let d = (seal_decision id (\<lambda>_. []) ''d1''
                 \<lparr>ci_kind = ''BODY_ATTACH'', ci_subject = [], ci_name = ''attach'',
                  ci_params = [(''module_id'', V_str ''S1''), (''mount'', V_str ''F06''), (''module_class'', V_str ''sensor'')],
                  ci_title = ''Attach''\<rparr>)\<lparr>cd_status := Published\<rparr>
      in (new_console False)
           \<lparr>co_procs := [(new_proc d [] (ci_params (cd_intent d)))\<lparr>ap_stage := S3_transfer, ap_required := 3\<rparr>],
            co_current := Some 0\<rparr>)"

definition example_view :: telemetry_view where
  "example_view = \<lparr>tv_power = V_dict [(''soc_pct'', V_int 90)], tv_sim = V_none, tv_thermal = ''green''\<rparr>"

definition example_env :: console_env where
  "example_env = \<lparr>ce_event = \<lparr>ee_uuid = ''e1'', ee_time = 0, ee_uuid2 = ''e2'', ee_time2 = 0\<rparr>, ce_now = 0\<rparr>"

lemma open_window_docks_witness:
  "(let c' = console_run id (\<lambda>_. []) example_transfer
               (map (\<lambda>t. (example_env, Snapshot t)) [example_view, example_view, example_view] @ [(example_env, Continue 0)])
    in length (co_traces c') = 1 \<and> ap_status (proc_of c' 0) \<in> {Done, Failed})"
proof -
  have view: "good_view example_view"
    by (simp add: good_view_def example_view_def world_paused_def window_open_def body_attach_preconditions_def vget_def)
  have parts: "transferring 0 example_transfer" "ticks_left 0 example_transfer = 3" "co_tasks example_transfer = []"
    "co_traces example_transfer = []" "es_enabled (bk_store (co_body example_transfer))"
    by (simp_all add: example_transfer_def transferring_def ticks_left_def new_proc_def proc_of_def new_console_def
        new_body_controller_def make_event_store_def Let_def)
  have reach: "may_reach id (\<lambda>_. []) (ap_decision (proc_of example_transfer 0))"
    by (simp add: example_transfer_def may_reach_def new_proc_def proc_of_def seal_decision_def no_stages_def intent_digest_def
        Let_def)
  have caps: "capabilities_of (vget (ap_params (proc_of example_transfer 0)) ''provided_capabilities'') \<noteq> None"
    by (simp add: example_transfer_def new_proc_def proc_of_def vget_def capabilities_of_def Let_def seal_decision_def)
  show ?thesis
    using open_window_docks [of 0 example_transfer "[example_view, example_view, example_view]" id "\<lambda>_. []" example_env] view parts reach caps
    by simp
qed

section \<open>An approval that comes while another installation runs is lost\<close>

text \<open>
  The decision is published before the busy procedure is found: the candidate stays, but it can never be confirmed
  again.
\<close>

lemma busy_approval_is_lost:
  assumes "procedure_active c" "co_action c = Some a" "action_kind a = ''BODY_ATTACH''" "\<not> co_replay c"
    and "pending_decision c = Some d" "cd_id d = u" "co_pending_id c = Some u" "length (ds_by_id (co_decisions c)) \<le> ds_max (co_decisions c)"
    and "pa_allowed (authorize_publish H fr d (action_kind a) (py_strip (ac_subject a)) (py_strip (ac_name a)) (ac_params a))"
  shows "(let c' = execute_pending_action H fr env now known busy c
          in co_procs c' = co_procs c \<and> co_action c' = Some a \<and> confirm_pending_action H fr v c' = c')"
proof -
  define d' where "d' = pa_decision (authorize_publish H fr d (action_kind a) (py_strip (ac_subject a)) (py_strip (ac_name a)) (ac_params a))"
  have d': "cd_status d' = Published" "cd_id d' = u"
    using assms(6,9) by (auto simp: d'_def authorize_status) (simp add: authorize_publish_def)
  have "u \<in> fst ` set (ds_by_id (co_decisions c))"
    using assms(5-7) by (auto simp: pending_decision_def ds_get_def split: if_splits dest: map_of_SomeD intro: rev_image_eqI)
  then have "dict_keys (dict_set (ds_by_id (co_decisions c)) u d') = dict_keys (ds_by_id (co_decisions c))"
    by (simp add: keys_dict_set_present)
  then have "length (dict_set (ds_by_id (co_decisions c)) u d') \<le> ds_max (co_decisions c)"
    using assms(8) by (metis length_map)
  then have "ds_get (ds_put d' (co_decisions c)) u = Some d'"
    by (simp add: ds_get_def ds_put_def evict_oldest_drop d'(2))
  moreover have "execute_pending_action H fr env now known busy c = c\<lparr>co_decisions := ds_put d' (co_decisions c)\<rparr>"
    using assms by (simp add: execute_pending_action_def authorize_pending_def d'_def Let_def execute_body_attach_def
        procedure_active_def proc_of_def split: option.splits)
  ultimately show ?thesis
    using assms(2,7) d'(1) by (simp add: confirm_pending_action_def already_published_def Let_def)
qed

end
