(* ===== verification/Sim_Config.thy ===== *)
theory Sim_Config
  imports Sim_Run Py_Values
begin

text \<open>
  The simulated world that a configuration describes: \<open>WorldModel._apply_bot_config\<close> in
  \<open>src/qiki/services/q_sim_service/core/world_model.py\<close>. The configuration is any JSON value; whatever is
  missing or malformed falls back to a default, some of it with a fault. The file of the thrusters is
  an argument. The code takes over infinite numbers and NaNs, which \<open>json.loads\<close> and \<open>float()\<close> produce; the
  world of the model computes with exact finite numbers, so a hardware profile that contains one has no
  result here.
  The fixture values of sensors, tank pressure and battery channels, which only the telemetry shows,
  are left out.
\<close>

section \<open>Reading values\<close>

type_synonym vdict = "(string, pyval) dict"

definition dict_or_empty :: "pyval \<Rightarrow> vdict" where
  "dict_or_empty v = (case v of V_dict d \<Rightarrow> d | _ \<Rightarrow> [])"

definition list_or_empty :: "pyval \<Rightarrow> pyval list" where
  "list_or_empty v = (case v of V_list vs \<Rightarrow> vs | _ \<Rightarrow> [])"

text \<open>\<open>float(v)\<close>, \<open>None\<close> where it raises.\<close>

fun float_of :: "pyval \<Rightarrow> pyfloat option" where
  "float_of (V_bool b) = Some (Fin (if b then 1 else 0))"
| "float_of (V_int i) = int_to_float i"
| "float_of (V_float x) = Some x"
| "float_of (V_str s) = map_option to_float (py_float s)"
| "float_of _ = None"

text \<open>No number in a value, as such or as a text, is infinite or a NaN.\<close>

fun finite_numbers :: "pyval \<Rightarrow> bool" where
  "finite_numbers (V_float x) = isfinite x"
| "finite_numbers (V_str s) = (case py_float s of None \<Rightarrow> True | Some x \<Rightarrow> isfinite (to_float x))"
| "finite_numbers (V_list vs) = list_all finite_numbers vs"
| "finite_numbers (V_dict d) = list_all (\<lambda>kv. finite_numbers (snd kv)) d"
| "finite_numbers _ = True"

text \<open>The number of a value; of \<open>finite_numbers\<close> the one that \<open>float\<close> gives.\<close>

definition number_of :: "pyval \<Rightarrow> real option" where
  "number_of v = (case float_of v of Some (Fin r) \<Rightarrow> Some r | _ \<Rightarrow> None)"

lemma number_of_float: "finite_numbers v \<Longrightarrow> float_of v = map_option Fin (number_of v)"
  by (cases v) (auto simp: number_of_def int_to_float_def split: option.splits pyfloat.splits)

text \<open>\<open>try: float(d.get(k, default)) except: default\<close>.\<close>

definition num_or :: "vdict \<Rightarrow> string \<Rightarrow> real \<Rightarrow> real" where
  "num_or d k x = (case dict_get d k of None \<Rightarrow> x | Some v \<Rightarrow> (case number_of v of Some y \<Rightarrow> y | None \<Rightarrow> x))"

definition bad_num :: "vdict \<Rightarrow> string \<Rightarrow> bool" where
  "bad_num d k = (case dict_get d k of None \<Rightarrow> False | Some v \<Rightarrow> number_of v = None)"

text \<open>\<open>bool(d.get(k, False))\<close> and \<open>str(d.get(k) or "").strip()\<close>.\<close>

definition flag_of :: "vdict \<Rightarrow> string \<Rightarrow> bool" where
  "flag_of d k = (case dict_get d k of None \<Rightarrow> False | Some v \<Rightarrow> truthy v)"

definition word_of :: "(real \<Rightarrow> string) \<Rightarrow> pyval \<Rightarrow> string" where
  "word_of fr v = py_strip (str_val fr (v_or v (V_str [])))"

definition text_of :: "(real \<Rightarrow> string) \<Rightarrow> vdict \<Rightarrow> string \<Rightarrow> string" where
  "text_of fr d k = word_of fr (vget d k)"

section \<open>Actuators and battery\<close>

definition add_actuator :: "(real \<Rightarrow> string) \<Rightarrow> (string, string) dict \<Rightarrow> pyval \<Rightarrow> (string, string) dict" where
  "add_actuator fr roles item =
     (case item of
        V_dict d \<Rightarrow>
          (let raw_id = text_of fr d ''id''; role0 = text_of fr d ''role''; role = (if role0 = [] then raw_id else role0)
           in if raw_id = [] then roles else dict_set roles raw_id role)
      | _ \<Rightarrow> roles)"

definition actuator_roles :: "(real \<Rightarrow> string) \<Rightarrow> vdict \<Rightarrow> (string, string) dict" where
  "actuator_roles fr hw = foldl (add_actuator fr) [] (list_or_empty (vget hw ''actuators''))"

definition battery_faults :: "vdict \<Rightarrow> string list" where
  "battery_faults hw =
     (if dict_get hw ''power_capacity_wh'' = None then [''BATTERY_CAPACITY_MISSING'']
      else if bad_num hw ''power_capacity_wh'' then [''BATTERY_CAPACITY_INVALID''] else []) @
     (if bad_num hw ''battery_soc_init_pct'' then [''BATTERY_SOC_INIT_INVALID''] else []) @
     (case vget hw ''power_plane'' of V_dict _ \<Rightarrow> [] | _ \<Rightarrow> [''POWER_PLANE_CONFIG_MISSING''])"

definition battery_level_init :: "vdict \<Rightarrow> real" where
  "battery_level_init hw =
     (case dict_get hw ''battery_soc_init_pct'' of
        None \<Rightarrow> 100
      | Some v \<Rightarrow> (case number_of v of None \<Rightarrow> 100 | Some x \<Rightarrow> clamp 0 100 x))"

section \<open>Power plane\<close>

definition plane_fault :: "vdict \<Rightarrow> string \<Rightarrow> string list" where
  "plane_fault pp k = (if bad_num pp k then [''POWER_PLANE_PARAM_INVALID:'' @ k] else [])"

definition negative_fault :: "vdict \<Rightarrow> string \<Rightarrow> string list" where
  "negative_fault pp k = (if num_or pp k 0 < 0 then [''POWER_PLANE_PARAM_NEGATIVE:'' @ k] else [])"

text \<open>The keys in the order in which they are read.\<close>

definition bus_keys :: "string list" where
  "bus_keys =
     [''bus_v_nominal'', ''bus_v_min'', ''max_bus_a'', ''base_power_in_w'', ''base_power_out_w'',
      ''motion_power_w_per_mps'', ''mcqpu_power_w_at_100pct'', ''radar_power_w'', ''transponder_power_w'']"

definition battery_keys :: "string list" where
  "battery_keys = [''battery_max_charge_w'', ''battery_max_discharge_w'', ''battery_channel_delta_v'']"

definition store_keys :: "string list" where
  "store_keys =
     [''soc_shed_low_pct'', ''soc_shed_high_pct'', ''supercap_capacity_wh'', ''supercap_max_charge_w'',
      ''supercap_max_discharge_w'', ''supercap_soc_pct_init'', ''dock_station_bus_v'', ''dock_station_max_power_w'',
      ''dock_current_limit_a'', ''dock_soft_start_s'', ''dock_temp_c_init'', ''nbl_max_power_w'',
      ''nbl_soc_min_pct'', ''nbl_core_temp_max_c'']"

definition plane_faults :: "vdict \<Rightarrow> string list" where
  "plane_faults pp =
     concat (map (plane_fault pp) bus_keys) @
     concat (map (\<lambda>k. plane_fault pp k @ negative_fault pp k) battery_keys) @
     concat (map (plane_fault pp) store_keys)"

definition power_params :: "vdict \<Rightarrow> vdict \<Rightarrow> sim_params \<Rightarrow> sim_params" where
  "power_params hw pp p =
     p\<lparr>sp_battery_wh := num_or hw ''power_capacity_wh'' (sp_battery_wh p),
       sp_bus_v_nominal := num_or pp ''bus_v_nominal'' (sp_bus_v_nominal p),
       sp_bus_v_min := num_or pp ''bus_v_min'' (sp_bus_v_min p),
       sp_max_bus_a := num_or pp ''max_bus_a'' (sp_max_bus_a p),
       sp_base_in_w := num_or pp ''base_power_in_w'' (sp_base_in_w p),
       sp_base_out_w := num_or pp ''base_power_out_w'' (sp_base_out_w p),
       sp_motion_w := num_or pp ''motion_power_w_per_mps'' (sp_motion_w p),
       sp_mcqpu_w := num_or pp ''mcqpu_power_w_at_100pct'' (sp_mcqpu_w p),
       sp_radar_w := num_or pp ''radar_power_w'' (sp_radar_w p),
       sp_transponder_w := num_or pp ''transponder_power_w'' (sp_transponder_w p),
       sp_battery_max_charge_w := max 0 (num_or pp ''battery_max_charge_w'' (sp_battery_max_charge_w p)),
       sp_battery_max_discharge_w := max 0 (num_or pp ''battery_max_discharge_w'' (sp_battery_max_discharge_w p)),
       sp_soc_low := num_or pp ''soc_shed_low_pct'' (sp_soc_low p),
       sp_soc_high := num_or pp ''soc_shed_high_pct'' (sp_soc_high p),
       sp_sc_capacity := num_or pp ''supercap_capacity_wh'' (sp_sc_capacity p),
       sp_sc_max_charge_w := num_or pp ''supercap_max_charge_w'' (sp_sc_max_charge_w p),
       sp_sc_max_discharge_w := num_or pp ''supercap_max_discharge_w'' (sp_sc_max_discharge_w p),
       sp_dock_v := num_or pp ''dock_station_bus_v'' (sp_dock_v p),
       sp_dock_max_w := num_or pp ''dock_station_max_power_w'' (sp_dock_max_w p),
       sp_dock_limit_a := num_or pp ''dock_current_limit_a'' (sp_dock_limit_a p),
       sp_dock_soft_start := num_or pp ''dock_soft_start_s'' (sp_dock_soft_start p),
       sp_nbl_soc_min := num_or pp ''nbl_soc_min_pct'' (sp_nbl_soc_min p),
       sp_nbl_temp_max := num_or pp ''nbl_core_temp_max_c'' (sp_nbl_temp_max p)\<rparr>"

definition power_start :: "vdict \<Rightarrow> vdict \<Rightarrow> sim_params \<Rightarrow> power \<Rightarrow> power" where
  "power_start hw pp p w =
     (let init_soc = clamp 0 100 (num_or pp ''supercap_soc_pct_init'' 0)
      in w\<lparr>pw_battery := battery_level_init hw,
           pw_sc_energy := (init_soc / 100) * max 0 (sp_sc_capacity p),
           pw_sc_soc := init_soc\<rparr>)"

section \<open>Docking, sensors, burst link\<close>

definition docking_ports :: "(real \<Rightarrow> string) \<Rightarrow> vdict \<Rightarrow> string list \<Rightarrow> string list" where
  "docking_ports fr dp ports0 =
     (case vget dp ''ports'' of
        V_list vs \<Rightarrow>
          (let cleaned = filter (\<lambda>t. t \<noteq> []) (map (word_of fr) vs) in if cleaned = [] then ports0 else cleaned)
      | _ \<Rightarrow> ports0)"

definition docking_params :: "(real \<Rightarrow> string) \<Rightarrow> vdict \<Rightarrow> sim_params \<Rightarrow> sim_params" where
  "docking_params fr dp p =
     (let ports = docking_ports fr dp (sp_docking_ports p); default_port = text_of fr dp ''default_port''
      in p\<lparr>sp_docking_enabled := flag_of dp ''enabled'', sp_docking_ports := ports,
           sp_docking_default :=
             (if default_port \<noteq> [] \<and> default_port \<in> set ports then default_port
              else case ports of [] \<Rightarrow> ''A'' | x # _ \<Rightarrow> x)\<rparr>)"

definition dock_start :: "vdict \<Rightarrow> sim_params \<Rightarrow> real \<Rightarrow> dock \<Rightarrow> dock" where
  "dock_start pp p temp_external d =
     (let conn = flag_of pp ''dock_connected_init'';
          d1 = d\<lparr>dk_connected := conn, dk_temp := num_or pp ''dock_temp_c_init'' temp_external, dk_since := 0,
                 dk_soft_pct := 0\<rparr>
      in if \<not> sp_docking_enabled p
         then d1\<lparr>dk_port := None, dk_docked := False, dk_state := ''disabled''\<rparr>
         else d1\<lparr>dk_port := Some (sp_docking_default p), dk_docked := conn,
                 dk_state := (if conn then ''docked'' else ''undocked'')\<rparr>)"

definition sub_enabled :: "vdict \<Rightarrow> string \<Rightarrow> bool" where
  "sub_enabled sp k \<longleftrightarrow>
     flag_of sp ''enabled'' \<and> (case vget sp k of V_dict sub \<Rightarrow> flag_of sub ''enabled'' | _ \<Rightarrow> False)"

definition nbl_start :: "vdict \<Rightarrow> nbl \<Rightarrow> nbl" where
  "nbl_start pp n =
     n\<lparr>nb_active := flag_of pp ''nbl_active_init'', nb_max_power := num_or pp ''nbl_max_power_w'' (nb_max_power n),
       nb_allowed := False, nb_power := 0, nb_budget := 0\<rparr>"

section \<open>Thermal network\<close>

record cfg_node =
  cn_id :: string
  cn_node :: thermal_node
  cn_temp :: real
  cn_warn :: real

definition warn_temp :: "real \<Rightarrow> vdict \<Rightarrow> real \<Rightarrow> real" where
  "warn_temp warn_delta d trip =
     (case number_of (vget d ''t_warn_c'') of
        Some t \<Rightarrow> t
      | None \<Rightarrow> if trip > 0 then trip - warn_delta else 0)"

definition trip_temp :: "vdict \<Rightarrow> real" where
  "trip_temp d = (if dict_get d ''t_max_c'' = None then num_or d ''t_trip_c'' 0 else num_or d ''t_max_c'' 0)"

definition read_node :: "real \<Rightarrow> real \<Rightarrow> vdict \<Rightarrow> string \<Rightarrow> cfg_node" where
  "read_node temp_external warn_delta d nid =
     \<lparr>cn_id = nid,
      cn_node = \<lparr>tn_cap = max 1 (num_or d ''heat_capacity_j_per_c'' 0), tn_cool = max 0 (num_or d ''cooling_w_per_c'' 0),
                 tn_trip = trip_temp d, tn_hys = max 0 (num_or d ''t_hysteresis_c'' 0)\<rparr>,
      cn_temp = clamp (- 120) 160 (num_or d ''t_init_c'' temp_external),
      cn_warn = warn_temp warn_delta d (trip_temp d)\<rparr>"

fun read_nodes :: "(real \<Rightarrow> string) \<Rightarrow> real \<Rightarrow> real \<Rightarrow> string list \<Rightarrow> pyval list \<Rightarrow> cfg_node list" where
  "read_nodes fr ext wd seen [] = []"
| "read_nodes fr ext wd seen (raw # raws) =
     (case raw of
        V_dict d \<Rightarrow>
          (let nid = text_of fr d ''id''
           in if nid = [] \<or> nid \<in> set seen then read_nodes fr ext wd seen raws
              else read_node ext wd d nid # read_nodes fr ext wd (nid # seen) raws)
      | _ \<Rightarrow> read_nodes fr ext wd seen raws)"

definition node_fault :: "cfg_node \<Rightarrow> string list" where
  "node_fault n =
     (if tn_trip (cn_node n) > 0 \<and> tn_hys (cn_node n) \<le> 0
      then [''THERMAL_PLANE_PARAM_INVALID:'' @ cn_id n @ '':hys_zero''] else [])"

type_synonym links = "(string, (string \<times> real) list) dict"

definition add_link :: "string \<Rightarrow> string \<Rightarrow> real \<Rightarrow> links \<Rightarrow> links" where
  "add_link a b k cs = dict_set cs a (dict_getd cs a [] @ [(b, k)])"

definition add_coupling :: "(real \<Rightarrow> string) \<Rightarrow> string list \<Rightarrow> links \<Rightarrow> pyval \<Rightarrow> links" where
  "add_coupling fr ids cs raw =
     (case raw of
        V_dict d \<Rightarrow>
          (let a = text_of fr d ''a''; b = text_of fr d ''b''; k = max 0 (num_or d ''k_w_per_c'' 0)
           in if a = [] \<or> b = [] then cs
              else if a \<notin> set ids \<or> b \<notin> set ids then cs
              else if k \<le> 0 then cs
              else add_link b a k (add_link a b k cs))
      | _ \<Rightarrow> cs)"

definition couplings_of :: "(real \<Rightarrow> string) \<Rightarrow> string list \<Rightarrow> vdict \<Rightarrow> links" where
  "couplings_of fr ids tp =
     foldl (add_coupling fr ids) (map (\<lambda>nid. (nid, [])) ids) (list_or_empty (vget tp ''couplings''))"

section \<open>Propulsion\<close>

definition thrusters_path :: "(real \<Rightarrow> string) \<Rightarrow> vdict \<Rightarrow> string" where
  "thrusters_path fr pr =
     (case dict_get pr ''thrusters_path'' of None \<Rightarrow> ''config/propulsion/thrusters.json'' | Some v \<Rightarrow> str_val fr v)"

definition nonneg_num :: "vdict \<Rightarrow> string \<Rightarrow> real" where
  "nonneg_num d k = max 0 (num_or d k 0)"

definition propulsion_params :: "(real \<Rightarrow> string) \<Rightarrow> (string \<Rightarrow> thruster list option) \<Rightarrow> vdict \<Rightarrow> rcs_params" where
  "propulsion_params fr load pr =
     (let p = rcs_params_default\<lparr>rp_enabled := flag_of pr ''enabled'', rp_isp := nonneg_num pr ''isp_s'',
                rp_power_w := nonneg_num pr ''rcs_power_w_at_100pct'', rp_window := nonneg_num pr ''pulse_window_s''\<rparr>
      in if \<not> rp_enabled p then p
         else precompute_axis_groups (nonneg_num pr ''ztt_torque_tol_nm'')
                (p\<lparr>rp_thrusters := (case load (thrusters_path fr pr) of None \<Rightarrow> [] | Some ts \<Rightarrow> ts)\<rparr>))"

section \<open>The configured world\<close>

record world_config =
  wc_params :: sim_params
  wc_start :: sim
  wc_warn :: "(string, real) dict"

definition no_config :: world_config where
  "no_config = \<lparr>wc_params = sim_params_default, wc_start = sim_init, wc_warn = []\<rparr>"

definition config_nodes :: "(real \<Rightarrow> string) \<Rightarrow> vdict \<Rightarrow> cfg_node list" where
  "config_nodes fr tp =
     read_nodes fr (m_temp_external sim_init) (clamp 0 80 (num_or tp ''warn_delta_c'' 10)) []
       (list_or_empty (vget tp ''nodes''))"

definition config_params :: "(real \<Rightarrow> string) \<Rightarrow> (string \<Rightarrow> thruster list option) \<Rightarrow> vdict \<Rightarrow> sim_params" where
  "config_params fr load hw =
     (let pp = dict_or_empty (vget hw ''power_plane''); dp = dict_or_empty (vget hw ''docking_plane'');
          sp = dict_or_empty (vget hw ''sensor_plane''); tp = dict_or_empty (vget hw ''thermal_plane'');
          nodes = config_nodes fr tp;
          p1 = docking_params fr dp (power_params hw pp sim_params_default);
          p2 = p1\<lparr>sp_actuator_roles := actuator_roles fr hw, sp_imu_enabled := sub_enabled sp ''imu'',
                  sp_radiation_enabled := sub_enabled sp ''radiation'', sp_thermal_enabled := flag_of tp ''enabled'',
                  sp_ambient_exchange := num_or tp ''ambient_exchange_w_per_c'' 0,
                  sp_nodes := map (\<lambda>n. (cn_id n, cn_node n)) nodes, sp_couplings := couplings_of fr (map cn_id nodes) tp\<rparr>
      in case vget hw ''propulsion_plane'' of
           V_dict pr \<Rightarrow> p2\<lparr>sp_rcs := propulsion_params fr load pr,
                          sp_rcs_heat_fraction := max 0 (min 1 (num_or pr ''heat_fraction_to_hull'' 0))\<rparr>
         | _ \<Rightarrow> p2)"

definition config_faults :: "(real \<Rightarrow> string) \<Rightarrow> vdict \<Rightarrow> string list" where
  "config_faults fr hw =
     battery_faults hw @ plane_faults (dict_or_empty (vget hw ''power_plane'')) @
     concat (map node_fault (config_nodes fr (dict_or_empty (vget hw ''thermal_plane''))))"

definition config_start :: "(real \<Rightarrow> string) \<Rightarrow> vdict \<Rightarrow> sim_params \<Rightarrow> sim" where
  "config_start fr hw p =
     (let pp = dict_or_empty (vget hw ''power_plane''); tp = dict_or_empty (vget hw ''thermal_plane'');
          temps = map (\<lambda>n. (cn_id n, cn_temp n)) (config_nodes fr tp);
          w = power_start hw pp p (m_power sim_init);
          d = dock_start pp p (m_temp_external sim_init) (m_dock sim_init);
          propellant = (case vget hw ''propulsion_plane'' of V_dict pr \<Rightarrow> nonneg_num pr ''propellant_kg_init'' | _ \<Rightarrow> 0)
      in sim_init\<lparr>m_power := w\<lparr>pw_faults := config_faults fr hw,
             pw_loads := [(''base'', sp_base_out_w p), (''motion'', 0), (''mcqpu'', 0), (''radar'', 0),
               (''transponder'', 0), (''nbl'', 0), (''rcs'', 0), (''supercap_charge'', 0)],
             pw_sources := [(''base'', sp_base_in_w p), (''dock'', 0), (''supercap_discharge'', 0)]\<rparr>,
           m_dock := d\<lparr>dk_temp := dict_getd temps ''dock_bridge'' (dk_temp d)\<rparr>,
           m_nbl := nbl_start pp (m_nbl sim_init),
           m_dose := (if sp_radiation_enabled p then Some 0 else None),
           m_temps := temps, m_trips := map (\<lambda>t. (fst t, False)) temps,
           m_temp_core := dict_getd temps ''core'' (m_temp_core sim_init),
           m_rcs := (m_rcs sim_init)\<lparr>rc_propellant := propellant, rc_shown_propellant := propellant\<rparr>\<rparr>)"

text \<open>No result: a number of the hardware profile is infinite or a NaN.\<close>

definition finite_config :: "pyval \<Rightarrow> bool" where
  "finite_config cfg = (case cfg of V_dict c \<Rightarrow> finite_numbers (vget c ''hardware_profile'') | _ \<Rightarrow> True)"

definition apply_bot_config ::
  "(real \<Rightarrow> string) \<Rightarrow> (string \<Rightarrow> thruster list option) \<Rightarrow> pyval \<Rightarrow> world_config option" where
  "apply_bot_config fr load cfg =
     (if \<not> finite_config cfg then None
      else Some (case cfg of
        V_dict c \<Rightarrow>
          (case vget c ''hardware_profile'' of
             V_dict hw \<Rightarrow>
               (let p = config_params fr load hw
                in \<lparr>wc_params = p, wc_start = config_start fr hw p,
                    wc_warn = map (\<lambda>n. (cn_id n, cn_warn n))
                      (config_nodes fr (dict_or_empty (vget hw ''thermal_plane'')))\<rparr>)
           | _ \<Rightarrow> no_config)
      | _ \<Rightarrow> no_config))"

section \<open>Every configuration gives a consistent world\<close>

lemma no_config_inv: "sim_inv (wc_params no_config) (wc_start no_config)"
  by (simp add: no_config_def sim_init_inv)

lemma dock_start_ok:
  "dock_ok p ((dock_start pp p ext dock_init)\<lparr>dk_temp := t\<rparr>)"
  by (simp add: dock_start_def dock_ok_def dock_init_def Let_def)

lemma power_start_ok:
  "power_ok p ((power_start hw pp p power_init)\<lparr>pw_faults := fs, pw_loads := ls, pw_sources := ss\<rparr>)"
proof -
  have "0 \<le> battery_level_init hw \<and> battery_level_init hw \<le> 100"
    by (simp add: battery_level_init_def split: option.split)
  moreover have "clamp 0 100 x / 100 * max 0 c \<le> max 0 c" for x c :: real
    using mult_right_mono [of "clamp 0 100 x / 100" 1 "max 0 c"] by simp
  ultimately show ?thesis by (simp add: power_ok_def power_start_def power_init_def Let_def)
qed

lemma config_start_inv: "sim_inv p (config_start fr hw p)"
proof -
  have "motion_ok (config_start fr hw p)" by (simp add: motion_ok_def config_start_def Let_def sim_init_def)
  moreover have "mcqpu_ok (m_mcqpu (config_start fr hw p))"
    using sim_init_inv [of p] by (simp add: sim_inv_def config_start_def Let_def)
  moreover have "power_ok p (m_power (config_start fr hw p))"
    by (simp add: config_start_def Let_def sim_init_def power_start_ok)
  moreover have "dock_ok p (m_dock (config_start fr hw p))"
    by (simp add: config_start_def Let_def sim_init_def dock_start_ok)
  moreover have "rcs_ok (m_rcs (config_start fr hw p))"
    by (simp add: config_start_def Let_def sim_init_def rcs_ok_def rcs_init_def nonneg_num_def split: pyval.split)
  ultimately show ?thesis by (simp add: sim_inv_def)
qed

lemma configured_world_inv: "apply_bot_config fr load cfg = Some w \<Longrightarrow> sim_inv (wc_params w) (wc_start w)"
  by (auto simp: apply_bot_config_def config_start_inv no_config_inv Let_def split: pyval.splits if_splits)

section \<open>Faults of the configuration\<close>

definition negative_faults :: "string list" where
  "negative_faults = map (\<lambda>k. ''POWER_PLANE_PARAM_NEGATIVE:'' @ k) battery_keys"

lemma negative_not_kept: "\<not> list_ex keep_fault negative_faults"
  by code_simp

lemma battery_faults_kept: "f \<in> set (battery_faults hw) \<Longrightarrow> keep_fault f"
proof -
  have "keep_fault ''BATTERY_CAPACITY_MISSING''" "keep_fault ''BATTERY_CAPACITY_INVALID''"
    "keep_fault ''BATTERY_SOC_INIT_INVALID''" "keep_fault ''POWER_PLANE_CONFIG_MISSING''" by code_simp+
  then show "f \<in> set (battery_faults hw) \<Longrightarrow> keep_fault f"
    by (auto simp: battery_faults_def split: if_splits pyval.splits)
qed

lemma plane_fault_kept: "f \<in> set (plane_fault pp k) \<Longrightarrow> keep_fault f"
  by (auto simp: plane_fault_def keep_fault_def split: if_splits)

lemma node_fault_kept: "f \<in> set (node_fault n) \<Longrightarrow> keep_fault f"
  by (auto simp: node_fault_def keep_fault_def split: if_splits)

lemma plane_faults_cases: "f \<in> set (plane_faults pp) \<Longrightarrow> keep_fault f \<or> f \<in> set negative_faults"
  using plane_fault_kept by (auto simp: plane_faults_def negative_fault_def negative_faults_def split: if_splits)

lemma config_faults_cases: "f \<in> set (config_faults fr hw) \<Longrightarrow> keep_fault f \<or> f \<in> set negative_faults"
  using plane_faults_cases battery_faults_kept node_fault_kept by (auto simp: config_faults_def)

lemma shed_power_faults: "keep_fault f \<Longrightarrow> f \<in> set (pw_faults (m_power m)) \<Longrightarrow> f \<in> set (pw_faults (shed_power p m))"
  by (simp add: shed_power_def thermal_shed_step_def soc_shed_step_def bus_step_def begin_power_def shed_def
      add_fault_def Let_def)

lemma sim_step_keeps_fault:
  assumes "keep_fault f" "f \<in> set (pw_faults (m_power m))"
  shows "f \<in> set (pw_faults (m_power (sim_step p dt m)))"
proof -
  let ?m = "motion_step p dt m"
  obtain fs where f: "m_power (sim_step p dt m) = (m_power (power_step p dt ?m))\<lparr>pw_faults := fs\<rparr>"
    "set (pw_faults (m_power (power_step p dt ?m))) \<subseteq> set fs" by (rule sim_step_power)
  obtain n1 w3 nbl_out rcs_out l n2 r1 r2 w4 where
    n: "nbl_step p ?m (soc_of (m_power ?m)) (begin_nbl (m_nbl ?m)) (shed_power p ?m) = (n1, w3, nbl_out)" and
    d: "pdu_step p (demanded_loads p ?m (shed_power p ?m) nbl_out rcs_out) n1 r1 w3 = (l, n2, r2, w4)" and
    w: "m_power (power_step p dt ?m) =
       finish_power p l (dock_step p dt (begin_dock (m_dock ?m))) (battery_step p dt (supercap_step p dt
         (w4\<lparr>pw_in := max 0 (bus_input p (dock_step p dt (begin_dock (m_dock ?m)))),
               pw_out := max 0 (total_out p l)\<rparr>)))" (is "_ = finish_power p l ?d ?w")
    by (rule power_step_parts)
  have "f \<in> set (pw_faults (shed_power p ?m))" using assms by (intro shed_power_faults) simp_all
  moreover have "only_sheds (shed_power p ?m) w4"
    using nbl_step_sheds [OF n] pdu_step_effect [OF d] only_sheds_trans by blast
  ultimately have "f \<in> set (pw_faults w4)" by (auto simp: only_sheds_def)
  moreover have "set (pw_faults w4) \<subseteq> set (pw_faults ?w)"
    using battery_step_faults [of "supercap_step p dt (w4\<lparr>pw_in := x, pw_out := y\<rparr>)" p dt for x y] by simp
  moreover have "set (pw_faults (finish_power p l ?d ?w)) = set (pw_faults ?w)"
    by (simp add: finish_power_def Let_def)
  ultimately show ?thesis using f w by auto
qed

lemma sim_update_power: "sim_update p c m = Some m' \<Longrightarrow> m_power m' = m_power m"
  by (auto simp: sim_update_def Let_def split: option.splits pyfloat.splits if_splits)

lemma sim_apply_keeps_fault:
  "keep_fault f \<Longrightarrow> f \<in> set (pw_faults (m_power m)) \<Longrightarrow> sim_apply p m e = Some m' \<Longrightarrow> f \<in> set (pw_faults (m_power m'))"
  by (cases e) (auto simp: sim_step_keeps_fault set_runtime_load_inputs_def dest: sim_update_power)

lemma sim_events_keep_fault:
  assumes "keep_fault f" "f \<in> set (pw_faults (m_power m))" "sim_events p m es = Some m'"
  shows "f \<in> set (pw_faults (m_power m'))"
proof -
  let ?P = "\<lambda>m. case m of None \<Rightarrow> True | Some m' \<Rightarrow> f \<in> set (pw_faults (m_power m'))"
  have "?P (sim_events p m es)"
  proof (rule foldl_inv [where P = ?P])
    fix s e
    show "?P s \<Longrightarrow> ?P (sim_event_step p s e)"
      using sim_apply_keeps_fault [OF assms(1)] by (cases s) (auto split: option.split)
  qed (use assms(2) in simp)
  then show ?thesis using assms(3) by simp
qed

lemma config_start_faults: "pw_faults (m_power (config_start fr hw p)) = config_faults fr hw"
  by (simp add: config_start_def Let_def)

lemma start_faults:
  "apply_bot_config fr load cfg = Some w \<Longrightarrow> f \<in> set (pw_faults (m_power (wc_start w))) \<Longrightarrow>
     \<exists>hw. f \<in> set (config_faults fr hw)"
  by (auto simp: apply_bot_config_def Let_def config_start_faults no_config_def sim_init_def power_init_def
      split: pyval.splits if_splits)

section \<open>Properties\<close>

text \<open>
  C33. The world built from any JSON value as configuration is consistent, however malformed the value is, as
  long as its hardware profile has no infinite number and no NaN; and it stays so in every run of ticks, actuator
  commands and setters: charge in [0,100], supercap within its capacity, speed in [0,1], heading in [0,360] (360
  itself can occur, after a rotation by a tiny negative angle), computer load in [0,100], dock record consistent
  with its ports, thrust only with time left, and never more propellant than at the start. A run has no result
  only after a rotation by an infinite value or a NaN. Arithmetic is exact but for the remainder of the heading.
\<close>

theorem configured_world_invariant:
  "case apply_bot_config fr load cfg of
     None \<Rightarrow> \<not> finite_config cfg
   | Some w \<Rightarrow>
       (case sim_events (wc_params w) (wc_start w) es of
          None \<Rightarrow> list_ex unbounded_rotation es
        | Some m \<Rightarrow> sim_inv (wc_params w) m \<and> rc_propellant (m_rcs m) \<le> rc_propellant (m_rcs (wc_start w)))"
proof (cases "apply_bot_config fr load cfg")
  case None
  then show ?thesis by (simp add: apply_bot_config_def split: if_splits)
next
  case (Some w)
  show ?thesis using sim_events_inv [OF configured_world_inv [OF Some], of es] by (simp only: Some option.case)
qed

text \<open>
  C34. Every fault found in the configuration stays reported in every run, except the three about negative
  parameters, which the first tick forgets. (As in the property before, a profile with an infinite number or a NaN
  has no world here, and a run none after a rotation by one.)
\<close>

theorem configuration_faults_persist:
  "case apply_bot_config fr load cfg of
     None \<Rightarrow> \<not> finite_config cfg
   | Some w \<Rightarrow>
       (case sim_events p (wc_start w) es of
          None \<Rightarrow> list_ex unbounded_rotation es
        | Some m \<Rightarrow> set (pw_faults (m_power (wc_start w))) - set negative_faults \<subseteq> set (pw_faults (m_power m)))"
proof (cases "apply_bot_config fr load cfg")
  case None
  then show ?thesis by (simp add: apply_bot_config_def split: if_splits)
next
  case (Some w)
  have start: "keep_fault f" if f: "f \<in> set (pw_faults (m_power (wc_start w)))" "f \<notin> set negative_faults" for f
    using start_faults [OF Some f(1)] f(2) config_faults_cases by blast
  show ?thesis
  proof (cases "sim_events p (wc_start w) es")
    case None
    then show ?thesis using sim_events_None by (simp add: Some)
  next
    case run: (Some m)
    have "set (pw_faults (m_power (wc_start w))) - set negative_faults \<subseteq> set (pw_faults (m_power m))"
      using start sim_events_keep_fault [OF _ _ run] by blast
    then show ?thesis by (simp add: Some run)
  qed
qed

end
