(* ===== verification/Sim_Service.thy ===== *)
theory Sim_Service
  imports Sim_Config
begin

text \<open>
  The simulator service: \<open>QSimService\<close> in \<open>src/qiki/services/q_sim_service/service.py\<close> and the handler
  of the control commands in \<open>grpc_server.py\<close>. The service owns a configured world, the clock of the
  simulation (running, paused, speed), the transponder, the rotation of the sensors, the radar frames and
  the pacing of telemetry and events. Everything runs on one event loop without an await inside an
  operation, so an operation is one step; what it publishes is a list of outputs. Clocks and the random
  part of an identifier are arguments. Environment variables are a function from names.
  An operation of the code that raises says so. Infinite numbers and NaNs of commands and of the environment are read
  as the code reads them; where one would reach the exact numbers of the world, the operation has no result here.
\<close>

section \<open>Data\<close>

text \<open>A value, an exception, or a number beyond those of the world.\<close>

datatype 'a outcome = Gives 'a | Throws | Beyond

text \<open>A frame of the simulated radar with the fresh identifier of every constructed frame.\<close>

record sim_frame = frame +
  fr_id :: string

text \<open>The sensor types of the protocol that the rotation tells apart.\<close>

datatype sensor_kind = SK_LIDAR | SK_IMU | SK_RADAR | SK_OTHER nat

datatype sample = Smp_lidar real | Smp_imu real real real | Smp_radar sim_frame

record service_config =
  v_world :: world_config
  v_comms_enabled :: bool
  v_emcon :: string
  v_radar_enabled :: bool
  v_telemetry :: bool
  v_telemetry_interval :: pyfloat
  v_events :: bool
  v_events_interval :: pyfloat
  v_cycle :: "sensor_kind list"
  v_frames_max :: nat
  v_sr_threshold :: real
  v_target_z :: pyfloat
  v_tick_interval :: int
  v_radar_sensor_id :: string
  v_transponder_id :: string

record sim_service =
  sv_world :: sim
  sv_epoch :: real
  sv_trip_last :: "(string, bool) dict"
  sv_readings :: "sample list"
  sv_commands :: "sim_command list"
  sv_frames :: "sim_frame list"
  sv_telemetry_last :: real
  sv_events_last :: real
  sv_mode :: transponder_mode
  sv_spoof_id :: "string option"
  sv_index :: nat
  sv_running :: bool
  sv_paused :: bool
  sv_speed :: pyfloat

text \<open>What an operation reads from outside: the two clocks, six random characters, identifiers of new frames.\<close>

record outside =
  o_mono :: real
  o_time :: real
  o_hex :: string
  o_uuid :: "nat \<Rightarrow> string"

section \<open>Construction\<close>

type_synonym env = "string \<Rightarrow> string option"

definition getenv :: "env \<Rightarrow> string \<Rightarrow> string \<Rightarrow> string" where
  "getenv e k d = (case e k of None \<Rightarrow> d | Some s \<Rightarrow> s)"

definition env_flag :: "env \<Rightarrow> string \<Rightarrow> string \<Rightarrow> bool" where
  "env_flag e k d \<longleftrightarrow> py_lower (py_strip (getenv e k d)) \<notin> {''0'', ''false'', ''''}"

definition read_queue_max :: "env \<Rightarrow> string \<Rightarrow> nat \<Rightarrow> nat" where
  "read_queue_max e k d =
     (let raw = py_strip (getenv e k '''')
      in if raw = [] then d
         else case py_int raw of None \<Rightarrow> d | Some i \<Rightarrow> if i > 0 then nat i else d)"

definition read_sr_threshold_m :: "env \<Rightarrow> pyfloat \<Rightarrow> pyfloat" where
  "read_sr_threshold_m e d =
     (let raw = py_strip (getenv e ''RADAR_SR_THRESHOLD_M'' '''')
      in if raw = [] then d
         else case map_option to_float (py_float raw) of None \<Rightarrow> d | Some x \<Rightarrow> if fl_less (Fin 0) x then x else d)"

definition comms_plane :: "pyval \<Rightarrow> vdict" where
  "comms_plane cfg = dict_or_empty (vget (dict_or_empty (vget (dict_or_empty cfg) ''hardware_profile'')) ''comms_plane'')"

definition comms_enabled :: "pyval \<Rightarrow> bool" where
  "comms_enabled cfg = (case dict_get (comms_plane cfg) ''enabled'' of None \<Rightarrow> True | Some v \<Rightarrow> truthy v)"

definition emcon_state :: "(real \<Rightarrow> string) \<Rightarrow> pyval \<Rightarrow> string" where
  "emcon_state fr cfg =
     (let cp = comms_plane cfg
      in str_val fr (v_or (vget cp ''EMCON_state'') (v_or (vget cp ''emcon_state'') (V_str ''missing''))))"

definition parse_transponder_mode :: "string \<Rightarrow> transponder_mode" where
  "parse_transponder_mode raw =
     dict_getd [(''ON'', XP_ON), (''OFF'', XP_OFF), (''SILENT'', XP_SILENT), (''SPOOF'', XP_SPOOF)] (py_upper raw) XP_ON"

definition initial_mode :: "env \<Rightarrow> (real \<Rightarrow> string) \<Rightarrow> pyval \<Rightarrow> transponder_mode" where
  "initial_mode e fr cfg =
     (let m0 = py_upper (py_strip (getenv e ''RADAR_TRANSPONDER_MODE'' ''''));
          m1 = (if m0 = [] then py_upper (text_of fr (comms_plane cfg) ''xpdr_mode_init'') else m0);
          m2 = (if m1 = [] then ''ON'' else m1);
          m3 = (if \<not> comms_enabled cfg then ''OFF'' else m2)
      in parse_transponder_mode m3)"

definition sensor_cycle :: "sensor_kind \<Rightarrow> bool \<Rightarrow> sensor_kind list" where
  "sensor_cycle primary radar =
     primary # (if radar then [SK_RADAR] else []) @ [if primary \<noteq> SK_IMU then SK_IMU else SK_LIDAR]"

text \<open>\<open>float(os.getenv(k, d))\<close>; no result: a text that is no number.\<close>

definition env_float :: "env \<Rightarrow> string \<Rightarrow> pyfloat \<Rightarrow> pyfloat option" where
  "env_float e k d = (case e k of None \<Rightarrow> Some d | Some s \<Rightarrow> map_option to_float (py_float s))"

text \<open>The values of the configuration file.\<close>

record service_file =
  sf_tick_interval :: int
  sf_sensor_type :: sensor_kind
  sf_sr_threshold :: pyfloat

text \<open>\<open>sr_threshold_m\<close> is a \<open>PositiveFloat\<close>.\<close>

definition service_file_valid :: "service_file \<Rightarrow> bool" where
  "service_file_valid file \<longleftrightarrow> fl_less (Fin 0) (sf_sr_threshold file)"

text \<open>The height of the target, read again for each frame; the environment does not change.\<close>

definition target_z :: "env \<Rightarrow> pyfloat" where
  "target_z e = (case env_float e ''RADAR_SIM_TARGET_Z_M'' (Fin 50) of None \<Rightarrow> Fin 50 | Some z \<Rightarrow> z)"

text \<open>A threshold or a height that is infinite, or such a number in the hardware profile, is beyond the model.\<close>

definition finite_settings :: "env \<Rightarrow> service_file \<Rightarrow> pyval \<Rightarrow> bool" where
  "finite_settings e file cfg \<longleftrightarrow>
     isfinite (read_sr_threshold_m e (sf_sr_threshold file)) \<and> target_z e \<notin> {PosInf, NegInf} \<and> finite_config cfg"

definition service_config_of ::
  "env \<Rightarrow> (real \<Rightarrow> string) \<Rightarrow> (string \<Rightarrow> thruster list option) \<Rightarrow> service_file \<Rightarrow> string \<Rightarrow> string \<Rightarrow> pyval \<Rightarrow>
   service_config outcome" where
  "service_config_of e fr load file sensor_id hex cfg =
     (let telemetry = env_flag e ''TELEMETRY_NATS_ENABLED'' ''0''; radar = env_flag e ''RADAR_ENABLED'' ''0''
      in if \<not> service_file_valid file then Throws
         else case env_float e ''TELEMETRY_INTERVAL_SEC'' (Fin 1) of
           None \<Rightarrow> Throws
         | Some tel \<Rightarrow>
             (case env_float e ''EVENTS_INTERVAL_SEC'' tel of
                None \<Rightarrow> Throws
              | Some ev \<Rightarrow>
                  (case (apply_bot_config fr load cfg, read_sr_threshold_m e (sf_sr_threshold file)) of
                     (Some world, Fin thr) \<Rightarrow>
                       if target_z e \<in> {PosInf, NegInf} then Beyond
                       else Gives \<lparr>v_world = world, v_comms_enabled = comms_enabled cfg,
                         v_emcon = emcon_state fr cfg, v_radar_enabled = radar, v_telemetry = telemetry,
                         v_telemetry_interval = tel,
                         v_events = env_flag e ''EVENTS_NATS_ENABLED'' (if telemetry then ''1'' else ''0''),
                         v_events_interval = ev, v_cycle = sensor_cycle (sf_sensor_type file) radar,
                         v_frames_max = read_queue_max e ''QSIM_RADAR_FRAMES_MAX'' 256,
                         v_sr_threshold = thr, v_target_z = target_z e,
                         v_tick_interval = sf_tick_interval file, v_radar_sensor_id = sensor_id,
                         v_transponder_id = getenv e ''RADAR_TRANSPONDER_ID'' (''ALLY-'' @ hex)\<rparr>
                   | _ \<Rightarrow> Beyond)))"

definition trip_edge_state :: "sim \<Rightarrow> (string, bool) dict" where
  "trip_edge_state m = m_trips m"

definition init_service :: "service_config \<Rightarrow> transponder_mode \<Rightarrow> real \<Rightarrow> sim_service" where
  "init_service v mode now =
     (let m = wc_start (v_world v)
      in \<lparr>sv_world = m, sv_epoch = now, sv_trip_last = trip_edge_state m, sv_readings = [], sv_commands = [],
          sv_frames = [], sv_telemetry_last = 0, sv_events_last = 0, sv_mode = mode, sv_spoof_id = None,
          sv_index = 0, sv_running = False, sv_paused = False, sv_speed = Fin 1\<rparr>)"

section \<open>The transponder\<close>

definition is_transponder_active :: "service_config \<Rightarrow> sim_service \<Rightarrow> bool" where
  "is_transponder_active v s \<longleftrightarrow>
     v_comms_enabled v \<and> pw_transponder_allowed (m_power (sv_world s)) \<and> sv_mode s \<in> {XP_ON, XP_SPOOF}"

definition spoof_name :: "outside \<Rightarrow> string" where
  "spoof_name o' = ''SPOOF-'' @ py_upper (o_hex o')"

definition ensure_spoof_id :: "outside \<Rightarrow> sim_service \<Rightarrow> sim_service" where
  "ensure_spoof_id o' s = (if truthy_str (sv_spoof_id s) then s else s\<lparr>sv_spoof_id := Some (spoof_name o')\<rparr>)"

definition resolve_transponder_id :: "service_config \<Rightarrow> outside \<Rightarrow> sim_service \<Rightarrow> sim_service \<times> string option" where
  "resolve_transponder_id v o' s =
     (if sv_mode s = XP_ON then (s, Some (v_transponder_id v))
      else if sv_mode s = XP_SPOOF then (let s1 = ensure_spoof_id o' s in (s1, sv_spoof_id s1))
      else (s, None))"

section \<open>Radar frames\<close>

definition xyz_to_range_m :: "real \<Rightarrow> real \<Rightarrow> real \<Rightarrow> real" where
  "xyz_to_range_m x y z = sqrt (x ^ 2 + y ^ 2 + z ^ 2)"

definition xyz_to_elev_deg :: "real \<Rightarrow> real \<Rightarrow> real \<Rightarrow> real" where
  "xyz_to_elev_deg x y z = degrees (atan2 z (max (1 / 10 ^ 9) (sqrt (x ^ 2 + y ^ 2))))"

definition xyz_to_polar :: "real \<Rightarrow> real \<Rightarrow> real \<Rightarrow> real \<times> real \<times> real" where
  "xyz_to_polar x y z = (xyz_to_range_m x y z, xyz_to_bearing_deg x y, xyz_to_elev_deg x y z)"

definition target_xy :: "service_config \<Rightarrow> sim \<Rightarrow> real \<times> real" where
  "target_xy v m =
     (if sqrt (m_x m ^ 2 + m_y m ^ 2) < 1 then (0, v_sr_threshold v * 0.7) else (m_x m, m_y m))"

definition sim_detection :: "real \<Rightarrow> real \<Rightarrow> real \<Rightarrow> bool \<Rightarrow> transponder_mode \<Rightarrow> string option \<Rightarrow> detection" where
  "sim_detection rng bearing elev on mode tid =
     \<lparr>d_range_m = rng, d_bearing_deg = bearing, d_elev_deg = elev, d_vr_mps = 0, d_snr_db = 20, d_rcs_dbsm = 1,
      d_transponder_on = on, d_transponder_mode = mode, d_transponder_id = tid,
      d_range_band = RR_UNSPECIFIED, d_id_present = None\<rparr>"

text \<open>\<open>datetime.fromtimestamp\<close> takes the times of the years 1 to 9999, rounded to microseconds.\<close>

definition datetime_ok :: "real \<Rightarrow> bool" where
  "datetime_ok t \<longleftrightarrow>
     (let us = round_half_even (t * 10 ^ 6) in - 62135596800 * 10 ^ 6 \<le> us \<and> us < 253402300800 * 10 ^ 6)"

text \<open>
  No frame: the method raises. The first detection is validated before the transponder is identified for the second.
  The argument \<open>k\<close> counts the frames of an operation.
\<close>

definition generate_radar_frame ::
  "service_config \<Rightarrow> outside \<Rightarrow> nat \<Rightarrow> sim_service \<Rightarrow> sim_service \<times> sim_frame option" where
  "generate_radar_frame v o' k s =
     (let ts = sv_epoch s + m_time (sv_world s); (x, y) = target_xy v (sv_world s); thr = v_sr_threshold v
      in if \<not> datetime_ok ts then (s, None)
         else case v_target_z v of
           Fin z \<Rightarrow>
             (let (rng, bearing, elev) = xyz_to_polar x y z;
                  lr = sim_detection (max (thr * 1.5) (rng + thr)) bearing elev False XP_OFF None
              in if \<not> detection_valid lr then (s, None)
                 else
                   let (s1, tid) = resolve_transponder_id v o' s;
                       sr = sim_detection (max (thr * 0.5) (min rng (thr * 0.8))) bearing elev (is_transponder_active v s)
                              (sv_mode s) tid
                   in (s1, if \<not> detection_valid sr then None
                           else Some \<lparr>f_sensor_id = v_radar_sensor_id v, f_timestamp = ts, f_detections = [lr, sr],
                                      fr_id = o_uuid o' k\<rparr>))
         | _ \<Rightarrow> (s, None))"

definition radar_powered :: "service_config \<Rightarrow> sim_service \<Rightarrow> bool" where
  "radar_powered v s \<longleftrightarrow> v_radar_enabled v \<and> pw_radar_allowed (m_power (sv_world s))"

datatype frame_read = No_frame | Frame_read sim_frame | Read_raises

definition radar_frame_for_external_read ::
  "service_config \<Rightarrow> outside \<Rightarrow> sim_service \<Rightarrow> sim_service \<times> frame_read" where
  "radar_frame_for_external_read v o' s =
     (if \<not> radar_powered v s then (s, No_frame)
      else if \<not> sv_running s then (s, No_frame)
      else if sv_paused s then (s, if sv_frames s = [] then No_frame else Frame_read (last (sv_frames s)))
      else (let (s1, f) = generate_radar_frame v o' 0 s
            in (s1, case f of None \<Rightarrow> Read_raises | Some f' \<Rightarrow> Frame_read f')))"

definition append_radar_frame :: "service_config \<Rightarrow> sim_frame \<Rightarrow> sim_service \<Rightarrow> sim_service" where
  "append_radar_frame v f s = s\<lparr>sv_frames := deque_append (v_frames_max v) (sv_frames s) f\<rparr>"

section \<open>Sensor samples\<close>

definition radar_rotation_allowed :: "service_config \<Rightarrow> sim_service \<Rightarrow> bool" where
  "radar_rotation_allowed v s \<longleftrightarrow>
     v_radar_enabled v \<and> sv_running s \<and> pw_radar_allowed (m_power (sv_world s))"

definition imu_sample :: "sim \<Rightarrow> sample" where
  "imu_sample m = Smp_imu (degrees (m_roll m)) (degrees (m_pitch m)) (degrees (m_yaw m))"

text \<open>No sample: the method raises.\<close>

definition generate_sensor_data :: "service_config \<Rightarrow> outside \<Rightarrow> sim_service \<Rightarrow> sim_service \<times> sample option" where
  "generate_sensor_data v o' s =
     (let kind = v_cycle v ! sv_index s; m = sv_world s;
          s1 = s\<lparr>sv_index := (sv_index s + 1) mod length (v_cycle v)\<rparr>;
          fallback = Some (Smp_lidar (m_x m))
      in case kind of
           SK_LIDAR \<Rightarrow> (s1, Some (Smp_lidar (m_x m)))
         | SK_IMU \<Rightarrow> (s1, Some (imu_sample m))
         | SK_RADAR \<Rightarrow>
             (if radar_rotation_allowed v s1
              then (case radar_frame_for_external_read v o' s1 of
                      (s2, Frame_read f) \<Rightarrow> (s2, Some (Smp_radar f))
                    | (s2, No_frame) \<Rightarrow> (s2, fallback)
                    | (s2, Read_raises) \<Rightarrow> (s2, None))
              else (s1, fallback))
         | SK_OTHER _ \<Rightarrow> (s1, fallback))"

definition append_sensor_data :: "sample \<Rightarrow> sim_service \<Rightarrow> sim_service" where
  "append_sensor_data x s = s\<lparr>sv_readings := [x]\<rparr>"

text \<open>\<open>get_sensor_data\<close> waits until there is a sample; an empty queue is the wait.\<close>

definition get_sensor_data :: "sim_service \<Rightarrow> sim_service \<times> sample option" where
  "get_sensor_data s = (case sv_readings s of [] \<Rightarrow> (s, None) | x # xs \<Rightarrow> (s\<lparr>sv_readings := xs\<rparr>, Some x))"

section \<open>Telemetry\<close>

record comms_block =
  cb_active :: bool
  cb_allowed :: bool
  cb_mode :: transponder_mode
  cb_id :: "string option"
  cb_link :: string
  cb_latency :: "real option"
  cb_loss :: "real option"
  cb_rssi :: real
  cb_snr :: real
  cb_tx :: real
  cb_rate :: real
  cb_antenna :: string
  cb_available :: "bool option" \<comment> \<open>\<open>None\<close> is the text \<open>unknown\<close>\<close>
  cb_reasons :: "string list"

definition comms_node :: "string \<Rightarrow> bool" where
  "comms_node nid =
     (let s = py_lower nid in sublist ''comms'' s \<or> sublist ''comm'' s \<or> sublist ''transponder'' s)"

definition node_warned :: "bool \<Rightarrow> real \<Rightarrow> real \<Rightarrow> bool" where
  "node_warned trip warn_c temp_c \<longleftrightarrow> \<not> trip \<and> warn_c > 0 \<and> temp_c \<ge> warn_c"

definition comms_thermal_blocked :: "world_config \<Rightarrow> sim \<Rightarrow> bool" where
  "comms_thermal_blocked wc m \<longleftrightarrow>
     sp_thermal_enabled (wc_params wc) \<and>
     list_ex (\<lambda>(nid, temp_c).
       let trip = dict_getd (m_trips m) nid False; warn_c = dict_getd (wc_warn wc) nid 0
       in comms_node nid \<and> (trip \<or> node_warned trip warn_c temp_c \<or> temp_c \<ge> warn_c)) (m_temps m)"

definition comms_availability ::
  "bool \<Rightarrow> bool \<Rightarrow> bool \<Rightarrow> string \<Rightarrow> bool \<Rightarrow> string \<Rightarrow> bool option \<times> string list" where
  "comms_availability enabled allowed active emcon blocked link =
     (if \<not> enabled then (Some False, [''COMMS_NOT_IMPLEMENTED''])
      else if emcon = ''EMCON_block'' then (Some False, [''EMCON_BLOCK''])
      else if blocked then (Some False, [''COMMS_THERMAL_BLOCK''])
      else if \<not> allowed then (Some False, [''COMMS_POWER_BLOCK''])
      else if \<not> active \<or> link = ''degraded'' then (Some False, [''COMMS_DEGRADED''])
      else if link \<noteq> ''online'' then (None, [''COMMS_NOT_IMPLEMENTED''])
      else (Some True, []))"

text \<open>Link, latency, loss, signal, noise, power, rate and antenna.\<close>

definition link_values ::
  "bool \<Rightarrow> bool \<Rightarrow> bool \<Rightarrow> string \<Rightarrow> bool \<Rightarrow> transponder_mode \<Rightarrow> real \<Rightarrow> real \<Rightarrow> real \<Rightarrow>
   string \<times> real option \<times> real option \<times> real \<times> real \<times> real \<times> real \<times> string" where
  "link_values enabled allowed active emcon blocked mode soc penalty tx_w =
     (if \<not> enabled then (''offline'', None, None, - 120, 0, 0, 0, ''unlock'')
      else if emcon = ''EMCON_block'' then (''offline'', None, None, - 120, 0, 0, 0, ''unlock'')
      else if blocked then (''degraded'', Some (1600 + penalty), Some 35, - 110, 1, 0, 0, ''unlock'')
      else if \<not> allowed then (''degraded'', Some (1600 + penalty), Some 35, - 110, 1, 0, 0, ''unlock'')
      else if \<not> active then (''degraded'', Some (900 + penalty), Some 15, - 98, 6, 0, 0, ''unlock'')
      else (''online'', Some (80 + penalty + max 0 ((35 - soc) * 3)), Some (min 25 (max 0 ((20 - soc) * 0.25))),
            max (- 110) (- 58 - (100 - soc) * 0.35), max 0 (28 - (100 - soc) * 0.2), tx_w,
            (if mode = XP_ON then 192 else if mode = XP_SPOOF then 96 else 32), ''lock''))"

definition comms_telemetry :: "service_config \<Rightarrow> string option \<Rightarrow> sim_service \<Rightarrow> comms_block" where
  "comms_telemetry v tid s =
     (let m = sv_world s; active = is_transponder_active v s; allowed = pw_transponder_allowed (m_power m);
          penalty = min 1800 (real ((length (sv_readings s) + length (sv_commands s)) * 10));
          blocked = comms_thermal_blocked (v_world v) m;
          (link, latency, loss, rssi, snr, tx, rate, antenna) =
            link_values (v_comms_enabled v) allowed active (v_emcon v) blocked (sv_mode s) (pw_battery (m_power m))
              penalty (sp_transponder_w (wc_params (v_world v)));
          (available, reasons) = comms_availability (v_comms_enabled v) allowed active (v_emcon v) blocked link
      in \<lparr>cb_active = active, cb_allowed = allowed, cb_mode = sv_mode s, cb_id = tid, cb_link = link,
          cb_latency = latency, cb_loss = loss, cb_rssi = rssi, cb_snr = snr, cb_tx = tx, cb_rate = rate,
          cb_antenna = antenna, cb_available = available, cb_reasons = reasons\<rparr>)"

record sim_state =
  ss_is_running :: bool
  ss_is_paused :: bool
  ss_rate :: pyfloat
  ss_fsm_state :: string

definition get_sim_state :: "sim_service \<Rightarrow> sim_state" where
  "get_sim_state s =
     \<lparr>ss_is_running = sv_running s, ss_is_paused = sv_paused s, ss_rate = sv_speed s,
      ss_fsm_state =
        (if sv_running s \<and> sv_paused s then ''PAUSED'' else if sv_running s then ''RUNNING'' else ''STOPPED'')\<rparr>"

section \<open>Outputs\<close>

datatype sim_output =
    Out_telemetry comms_block sim_state sim
  | Out_thermal real
  | Out_trip bool real real real
  | Out_bus real real
  | Out_pdu bool real real
  | Out_frame sim_frame

definition maybe_publish_telemetry ::
  "service_config \<Rightarrow> outside \<Rightarrow> sim_service \<Rightarrow> sim_service \<times> sim_output list" where
  "maybe_publish_telemetry v o' s =
     (if \<not> v_telemetry v then (s, [])
      else if fl_less (Fin (o_mono o' - sv_telemetry_last s)) (v_telemetry_interval v) then (s, [])
      else (let s1 = s\<lparr>sv_telemetry_last := o_mono o'\<rparr>; (s2, tid) = resolve_transponder_id v o' s1
            in (s2, [Out_telemetry (comms_telemetry v tid s2) (get_sim_state s2) (sv_world s2)])))"

text \<open>The loop over the trip states looks at the node \<open>core\<close> only.\<close>

fun publish_trip_edges ::
  "sim_params \<Rightarrow> sim \<Rightarrow> (string, bool) dict \<Rightarrow> (string, bool) dict \<Rightarrow> (string, bool) dict \<times> sim_output list" where
  "publish_trip_edges p m seen [] = (seen, [])"
| "publish_trip_edges p m seen ((nid, cur) # rest) =
     (if nid \<noteq> ''core'' then publish_trip_edges p m seen rest
      else if cur = dict_getd seen nid False then publish_trip_edges p m seen rest
      else
        let (trip_c, hys_c) = (case dict_get (sp_nodes p) nid of None \<Rightarrow> (0, 0) | Some n \<Rightarrow> (tn_trip n, tn_hys n));
            (seen', outs) = publish_trip_edges p m (dict_set seen nid cur) rest
        in (seen', Out_trip cur (m_temp_core m) trip_c hys_c # outs))"

definition maybe_publish_events ::
  "service_config \<Rightarrow> outside \<Rightarrow> sim_service \<Rightarrow> sim_service \<times> sim_output list" where
  "maybe_publish_events v o' s =
     (if \<not> v_events v then (s, [])
      else if fl_less (Fin (o_mono o' - sv_events_last s)) (v_events_interval v) then (s, [])
      else
        let m = sv_world s; p = wc_params (v_world v); w = m_power m;
            (seen', trips) = publish_trip_edges p m (sv_trip_last s) (m_trips m)
        in (s\<lparr>sv_events_last := o_mono o', sv_trip_last := seen'\<rparr>,
            Out_thermal (m_temp_core m) # trips @
            [Out_bus (pw_bus_a w) (pw_bus_v w),
             Out_pdu (''PDU_OVERCURRENT'' \<in> set (pw_faults w)) (sp_max_bus_a p * pw_bus_v w) (pw_out w)]))"

section \<open>The step\<close>

definition feed_world :: "service_config \<Rightarrow> sim_service \<Rightarrow> sim_service" where
  "feed_world v s =
     s\<lparr>sv_world := set_runtime_load_inputs (v_radar_enabled v) (int (length (sv_readings s)))
                     (int (length (sv_commands s))) (is_transponder_active v s) (sv_world s)\<rparr>"

definition advance :: "service_config \<Rightarrow> real \<Rightarrow> sim_service \<Rightarrow> sim_service" where
  "advance v dt s = s\<lparr>sv_world := sim_step (wc_params (v_world v)) dt (sv_world s)\<rparr>"

text \<open>The last component of a result: whether the code came to its end, without an exception.\<close>

definition publish_frame ::
  "service_config \<Rightarrow> outside \<Rightarrow> sim_service \<Rightarrow> sim_service \<times> sim_output list \<times> bool" where
  "publish_frame v o' s =
     (if radar_powered v s
      then (case generate_radar_frame v o' 1 s of
              (s1, None) \<Rightarrow> (s1, [], False)
            | (s1, Some f) \<Rightarrow> (append_radar_frame v f s1, [Out_frame f], True))
      else (s, [], True))"

definition service_step ::
  "service_config \<Rightarrow> outside \<Rightarrow> real \<Rightarrow> bool \<Rightarrow> bool \<Rightarrow> sim_service \<Rightarrow> sim_service \<times> sim_output list \<times> bool" where
  "service_step v o' dt advance_world publish_radar s =
     (let s1 = feed_world v s;
          s2 = (if advance_world then advance v dt s1 else s1);
          s3 = s2\<lparr>sv_commands := []\<rparr>;
          (s4, tel) = maybe_publish_telemetry v o' s3;
          (s5, evs) = maybe_publish_events v o' s4;
          (s6, x) = generate_sensor_data v o' s5
      in case x of
           None \<Rightarrow> (s6, tel @ evs, False)
         | Some x' \<Rightarrow>
             (let s7 = append_sensor_data x' s6;
                  (s8, frames, ok) = (if publish_radar then publish_frame v o' s7 else (s7, [], True))
              in (s8, tel @ evs @ frames, ok)))"

definition tick_duration :: "service_config \<Rightarrow> sim_service \<Rightarrow> pyfloat" where
  "tick_duration v s = fl_scale (of_int (v_tick_interval v)) (sv_speed s)"

text \<open>
  No result: the world would advance by an infinite time or a NaN. A tick that raises ends the loop that calls it, so
  runs with later ticks are more than the server does.
\<close>

definition service_tick ::
  "service_config \<Rightarrow> outside \<Rightarrow> sim_service \<Rightarrow> (sim_service \<times> sim_output list \<times> bool) option" where
  "service_tick v o' s =
     (if sv_running s \<and> \<not> sv_paused s
      then (case tick_duration v s of Fin dt \<Rightarrow> Some (service_step v o' dt True True s) | _ \<Rightarrow> None)
      else Some (service_step v o' 0 False False s))"

section \<open>Commands\<close>

definition receive_actuator_command :: "service_config \<Rightarrow> sim_command \<Rightarrow> sim_service \<Rightarrow> sim_service option" where
  "receive_actuator_command v c s =
     map_option (\<lambda>m. s\<lparr>sv_commands := sv_commands s @ [c], sv_world := m\<rparr>)
       (sim_update (wc_params (v_world v)) c (sv_world s))"

record control_command =
  ct_name :: string
  ct_params :: vdict

definition reset_simulation :: "service_config \<Rightarrow> real \<Rightarrow> sim_service \<Rightarrow> sim_service" where
  "reset_simulation v now s =
     (let m = wc_start (v_world v)
      in s\<lparr>sv_world := m, sv_epoch := now, sv_trip_last := trip_edge_state m, sv_readings := [], sv_commands := [],
           sv_frames := [], sv_index := 0, sv_telemetry_last := 0, sv_events_last := 0\<rparr>)"

definition with_dock :: "(dock \<Rightarrow> dock) \<Rightarrow> sim_service \<Rightarrow> sim_service" where
  "with_dock f s = s\<lparr>sv_world := (sv_world s)\<lparr>m_dock := f (m_dock (sv_world s))\<rparr>\<rparr>"

definition with_nbl :: "(nbl \<Rightarrow> nbl) \<Rightarrow> sim_service \<Rightarrow> sim_service" where
  "with_nbl f s = s\<lparr>sv_world := (sv_world s)\<lparr>m_nbl := f (m_nbl (sv_world s))\<rparr>\<rparr>"

definition dock_connect :: "service_config \<Rightarrow> bool \<Rightarrow> sim_service \<Rightarrow> bool \<times> sim_service" where
  "dock_connect v b s =
     (snd (set_docking_connected (wc_params (v_world v)) b (m_dock (sv_world s))),
      with_dock (\<lambda>d. fst (set_docking_connected (wc_params (v_world v)) b d)) s)"

definition dock_engage :: "service_config \<Rightarrow> string option \<Rightarrow> sim_service \<Rightarrow> bool \<times> sim_service" where
  "dock_engage v port s =
     (if \<not> snd (set_docking_port (wc_params (v_world v)) port (m_dock (sv_world s))) then (False, s)
      else dock_connect v True (with_dock (\<lambda>d. fst (set_docking_port (wc_params (v_world v)) port d)) s))"

definition rcs_command :: "service_config \<Rightarrow> string option \<Rightarrow> real \<Rightarrow> real \<Rightarrow> sim_service \<Rightarrow> bool \<times> sim_service" where
  "rcs_command v axis pct dur s =
     (let (r, ok) = set_rcs_command (sp_rcs (wc_params (v_world v))) axis pct dur (m_rcs (sv_world s))
      in (ok, s\<lparr>sv_world := (sv_world s)\<lparr>m_rcs := r\<rparr>\<rparr>))"

definition first_given :: "vdict \<Rightarrow> string \<Rightarrow> string \<Rightarrow> pyval" where
  "first_given d a b = (if vget d a = V_none then vget d b else vget d a)"

text \<open>\<open>nan <= 0\<close> is false: a NaN is taken as the speed, as is an infinity.\<close>

definition start_speed :: "vdict \<Rightarrow> pyfloat" where
  "start_speed d =
     (let x = (case dict_get d ''speed'' of
                 None \<Rightarrow> Fin 1 | Some raw \<Rightarrow> (case float_of raw of None \<Rightarrow> Fin 1 | Some y \<Rightarrow> y))
      in if fl_nonpos x then Fin 1 else x)"

definition set_xpdr_mode :: "service_config \<Rightarrow> (real \<Rightarrow> string) \<Rightarrow> outside \<Rightarrow> vdict \<Rightarrow> sim_service \<Rightarrow> bool \<times> sim_service" where
  "set_xpdr_mode v fr o' d s =
     (if \<not> v_comms_enabled v then (False, s)
      else
        let raw = py_upper (text_of fr d ''mode'')
        in if raw \<notin> {''ON'', ''OFF'', ''SILENT'', ''SPOOF''} then (False, s)
           else let s1 = s\<lparr>sv_mode := parse_transponder_mode raw\<rparr>
                in (True, if sv_mode s1 = XP_SPOOF then ensure_spoof_id o' s1 else s1))"

text \<open>
  \<open>set_rcs_command\<close> of floats: the share is clamped, a NaN counts as 100; a duration that is not positive stops.
  A NaN or infinite duration that is accepted as a firing is beyond the model.
\<close>

definition fire_duration :: "pyfloat \<Rightarrow> pyfloat \<Rightarrow> real option" where
  "fire_duration pct dur =
     (if fl_nonpos dur \<or> clamp_float 0 100 pct \<le> 0 then Some 0 else case dur of Fin t \<Rightarrow> Some t | _ \<Rightarrow> None)"

definition rcs_command_float ::
  "service_config \<Rightarrow> string option \<Rightarrow> pyfloat \<Rightarrow> pyfloat \<Rightarrow> sim_service \<Rightarrow> (bool \<times> sim_service) outcome" where
  "rcs_command_float v axis pct dur s =
     (case fire_duration pct dur of
        Some t \<Rightarrow> Gives (rcs_command v axis (clamp_float 0 100 pct) t s)
      | None \<Rightarrow> if fst (rcs_command v axis 0 0 s) then Beyond else Gives (False, s))"

text \<open>\<open>Throws\<close> is a \<open>ValueError\<close> or \<open>TypeError\<close> that leaves the method.\<close>

definition fire_rcs ::
  "service_config \<Rightarrow> (real \<Rightarrow> string) \<Rightarrow> vdict \<Rightarrow> sim_service \<Rightarrow> (bool \<times> sim_service) outcome" where
  "fire_rcs v fr d s =
     (let axis = vget d ''axis''; pct = first_given d ''pct'' ''percent''; dur = first_given d ''duration_s'' ''duration''
      in if axis = V_none \<or> pct = V_none \<or> dur = V_none then Gives (False, s)
         else case (float_of pct, float_of dur) of
                (Some p, Some t) \<Rightarrow> rcs_command_float v (Some (str_val fr axis)) p t s
              | _ \<Rightarrow> Throws)"

text \<open>\<open>max(0.0, nan)\<close> is 0.\<close>

definition set_nbl_max :: "vdict \<Rightarrow> sim_service \<Rightarrow> (bool \<times> sim_service) outcome" where
  "set_nbl_max d s =
     (case vget d ''max_power_w'' of
        V_none \<Rightarrow> Gives (False, s)
      | raw \<Rightarrow>
          (case float_of raw of
             None \<Rightarrow> Gives (True, s)
           | Some PosInf \<Rightarrow> Beyond
           | Some (Fin w) \<Rightarrow> Gives (True, with_nbl (set_nbl_max_power_w w) s)
           | Some _ \<Rightarrow> Gives (True, with_nbl (set_nbl_max_power_w 0) s)))"

definition apply_control_command ::
  "service_config \<Rightarrow> (real \<Rightarrow> string) \<Rightarrow> outside \<Rightarrow> control_command \<Rightarrow> sim_service \<Rightarrow> (bool \<times> sim_service) outcome" where
  "apply_control_command v fr o' c s =
     (let name = py_strip (ct_name c); d = ct_params c
      in if name = ''power.dock.on'' then Gives (True, with_dock (set_dock_connected True) s)
         else if name = ''power.dock.off'' then Gives (True, with_dock (set_dock_connected False) s)
         else if name = ''power.nbl.on'' then Gives (True, with_nbl (set_nbl_active True) s)
         else if name = ''power.nbl.off'' then Gives (True, with_nbl (set_nbl_active False) s)
         else if name = ''power.nbl.set_max'' then set_nbl_max d s
         else if name = ''sim.start''
         then Gives (True, s\<lparr>sv_running := True, sv_paused := False, sv_speed := start_speed d\<rparr>)
         else if name = ''sim.pause''
         then (if \<not> sv_running s then Gives (False, s) else Gives (True, s\<lparr>sv_paused := True\<rparr>))
         else if name = ''sim.stop'' then Gives (True, s\<lparr>sv_running := False, sv_paused := False\<rparr>)
         else if name = ''sim.reset''
         then Gives (True, reset_simulation v (o_time o') (s\<lparr>sv_running := False, sv_paused := False, sv_speed := Fin 1\<rparr>))
         else if name = ''sim.dock.engage''
         then Gives (dock_engage v (case vget d ''port'' of V_none \<Rightarrow> None | x \<Rightarrow> Some (str_val fr x)) s)
         else if name = ''sim.dock.release'' then Gives (dock_connect v False s)
         else if name = ''sim.rcs.stop'' then Gives (rcs_command v None 0 0 s)
         else if name = ''sim.rcs.fire'' then fire_rcs v fr d s
         else if name = ''sim.xpdr.mode'' then Gives (set_xpdr_mode v fr o' d s)
         else Gives (False, s))"

definition describe_control_command_result ::
  "service_config \<Rightarrow> (real \<Rightarrow> string) \<Rightarrow> control_command \<Rightarrow> bool \<Rightarrow> string option" where
  "describe_control_command_result v fr c success =
     (if success then None
      else if ct_name c = ''sim.xpdr.mode'' \<and> \<not> v_comms_enabled v then Some ''comms_disabled''
      else if ct_name c = ''sim.xpdr.mode'' \<and>
              (let raw = py_upper (text_of fr (ct_params c) ''mode'')
               in raw \<noteq> [] \<and> raw \<notin> {''ON'', ''OFF'', ''SILENT'', ''SPOOF''})
      then Some ''invalid_mode''
      else Some ''rejected'')"

text \<open>
  The handler of a control command: the new state and the response, its success and its error code. A command whose
  effect is beyond the model is one that the code accepts.
\<close>

definition control_handler ::
  "service_config \<Rightarrow> (real \<Rightarrow> string) \<Rightarrow> outside \<Rightarrow> control_command \<Rightarrow> sim_service \<Rightarrow>
   sim_service option \<times> bool \<times> string option" where
  "control_handler v fr o' c s =
     (case apply_control_command v fr o' c s of
        Throws \<Rightarrow> (Some s, False, Some ''exception'')
      | Beyond \<Rightarrow> (None, True, None)
      | Gives (handled, s') \<Rightarrow> (Some s', handled, describe_control_command_result v fr c handled))"

end
