(* ===== verification/Sim_Service_Runs.thy ===== *)
theory Sim_Service_Runs
  imports Sim_Service
begin

text \<open>
  Runs of the simulator service: what ticks, control commands, actuator commands, served samples and
  served frames do to it in any order. The clock of the simulation refines a small machine; the service
  keeps its bounds; a refused command changes nothing; trip events alternate; a stopped simulation makes
  no frame and serves at most what was waiting, a paused one shows the last published frame. A run ends without
  a state when a number beyond those of the world reaches it.
\<close>

section \<open>Operations and runs\<close>

datatype service_op =
    Op_tick outside
  | Op_control outside control_command
  | Op_actuator sim_command
  | Op_sample
  | Op_frame outside

datatype service_result =
    R_published "sim_output list"
  | R_died "sim_output list" \<comment> \<open>the tick raised after these outputs\<close>
  | R_response bool "string option"
  | R_accepted
  | R_sample "sample option"
  | R_frame "sim_frame option"
  | R_internal
  | R_beyond

text \<open>The state is lost where an infinite number or a NaN reaches the world.\<close>

fun run_op ::
  "service_config \<Rightarrow> (real \<Rightarrow> string) \<Rightarrow> sim_service option \<Rightarrow> service_op \<Rightarrow> sim_service option \<times> service_result" where
  "run_op v fr None e = (None, R_beyond)"
| "run_op v fr (Some s) (Op_tick o') =
     (case service_tick v o' s of
        None \<Rightarrow> (None, R_beyond)
      | Some (s1, outs, ok) \<Rightarrow> (Some s1, if ok then R_published outs else R_died outs))"
| "run_op v fr (Some s) (Op_control o' c) =
     (let (s1, ok, err) = control_handler v fr o' c s in (s1, R_response ok err))"
| "run_op v fr (Some s) (Op_actuator c) = (receive_actuator_command v c s, R_accepted)"
| "run_op v fr (Some s) Op_sample = (let (s1, x) = get_sensor_data s in (Some s1, R_sample x))"
| "run_op v fr (Some s) (Op_frame o') =
     (case radar_frame_for_external_read v o' s of
        (s1, No_frame) \<Rightarrow> (Some s1, R_frame None)
      | (s1, Frame_read f) \<Rightarrow> (Some s1, R_frame (Some f))
      | (s1, Read_raises) \<Rightarrow> (Some s1, R_internal))"

abbreviation run_service ::
  "service_config \<Rightarrow> (real \<Rightarrow> string) \<Rightarrow> sim_service option \<Rightarrow> service_op list \<Rightarrow> sim_service option \<times> service_result list" where
  "run_service v fr \<equiv> io_run (run_op v fr)"

lemma run_lost [simp]: "run_service v fr None ops = (None, map (\<lambda>e. R_beyond) ops)"
  by (induction ops) simp_all

section \<open>What each part leaves alone\<close>

lemma feed_world_simps [simp]:
  "sv_epoch (feed_world v s) = sv_epoch s" "sv_trip_last (feed_world v s) = sv_trip_last s"
  "sv_readings (feed_world v s) = sv_readings s" "sv_commands (feed_world v s) = sv_commands s"
  "sv_frames (feed_world v s) = sv_frames s" "sv_mode (feed_world v s) = sv_mode s"
  "sv_spoof_id (feed_world v s) = sv_spoof_id s" "sv_index (feed_world v s) = sv_index s"
  "sv_running (feed_world v s) = sv_running s" "sv_paused (feed_world v s) = sv_paused s"
  "sv_speed (feed_world v s) = sv_speed s" "m_power (sv_world (feed_world v s)) = m_power (sv_world s)"
  "m_time (sv_world (feed_world v s)) = m_time (sv_world s)"
  by (simp_all add: feed_world_def set_runtime_load_inputs_def)

lemma advance_simps [simp]:
  "sv_epoch (advance v dt s) = sv_epoch s" "sv_trip_last (advance v dt s) = sv_trip_last s"
  "sv_readings (advance v dt s) = sv_readings s" "sv_commands (advance v dt s) = sv_commands s"
  "sv_frames (advance v dt s) = sv_frames s" "sv_mode (advance v dt s) = sv_mode s"
  "sv_spoof_id (advance v dt s) = sv_spoof_id s" "sv_index (advance v dt s) = sv_index s"
  "sv_running (advance v dt s) = sv_running s" "sv_paused (advance v dt s) = sv_paused s"
  "sv_speed (advance v dt s) = sv_speed s"
  by (simp_all add: advance_def)

text \<open>Identifying the transponder changes the spoof identifier only.\<close>

definition same_but_spoof :: "sim_service \<Rightarrow> sim_service \<Rightarrow> bool" where
  "same_but_spoof s s' \<longleftrightarrow> s' = s\<lparr>sv_spoof_id := sv_spoof_id s'\<rparr>"

lemma same_but_spoof_refl [simp]: "same_but_spoof s s" by (simp add: same_but_spoof_def)

lemma same_but_spoofD:
  assumes "same_but_spoof s s'"
  shows "sv_world s' = sv_world s" "sv_epoch s' = sv_epoch s" "sv_trip_last s' = sv_trip_last s"
    "sv_readings s' = sv_readings s" "sv_commands s' = sv_commands s" "sv_frames s' = sv_frames s"
    "sv_mode s' = sv_mode s" "sv_index s' = sv_index s" "sv_running s' = sv_running s"
    "sv_paused s' = sv_paused s" "sv_speed s' = sv_speed s"
proof -
  have "s' = s\<lparr>sv_spoof_id := sv_spoof_id s'\<rparr>" using assms by (simp add: same_but_spoof_def)
  then obtain x where "s' = s\<lparr>sv_spoof_id := x\<rparr>" by blast
  then show "sv_world s' = sv_world s" "sv_epoch s' = sv_epoch s" "sv_trip_last s' = sv_trip_last s"
    "sv_readings s' = sv_readings s" "sv_commands s' = sv_commands s" "sv_frames s' = sv_frames s"
    "sv_mode s' = sv_mode s" "sv_index s' = sv_index s" "sv_running s' = sv_running s"
    "sv_paused s' = sv_paused s" "sv_speed s' = sv_speed s" by simp_all
qed

lemma ensure_spoof_same [simp]: "same_but_spoof s (ensure_spoof_id o' s)"
  by (simp add: same_but_spoof_def ensure_spoof_id_def)

lemma resolve_same [simp]: "same_but_spoof s (fst (resolve_transponder_id v o' s))"
  by (simp add: resolve_transponder_id_def Let_def)

lemma generate_frame_same [simp]: "same_but_spoof s (fst (generate_radar_frame v o' k s))"
  by (simp add: generate_radar_frame_def case_prod_unfold Let_def split: pyfloat.split)

lemma external_read_same [simp]: "same_but_spoof s (fst (radar_frame_for_external_read v o' s))"
  by (simp add: radar_frame_for_external_read_def case_prod_unfold Let_def)

lemmas spoofD [simp] =
  same_but_spoofD [OF ensure_spoof_same] same_but_spoofD [OF resolve_same]
  same_but_spoofD [OF generate_frame_same] same_but_spoofD [OF external_read_same]

lemma telemetry_same [simp]:
  "sv_world (fst (maybe_publish_telemetry v o' s)) = sv_world s"
  "sv_trip_last (fst (maybe_publish_telemetry v o' s)) = sv_trip_last s"
  "sv_readings (fst (maybe_publish_telemetry v o' s)) = sv_readings s"
  "sv_commands (fst (maybe_publish_telemetry v o' s)) = sv_commands s"
  "sv_frames (fst (maybe_publish_telemetry v o' s)) = sv_frames s"
  "sv_mode (fst (maybe_publish_telemetry v o' s)) = sv_mode s"
  "sv_index (fst (maybe_publish_telemetry v o' s)) = sv_index s"
  "sv_running (fst (maybe_publish_telemetry v o' s)) = sv_running s"
  "sv_paused (fst (maybe_publish_telemetry v o' s)) = sv_paused s"
  "sv_speed (fst (maybe_publish_telemetry v o' s)) = sv_speed s"
  by (simp_all add: maybe_publish_telemetry_def case_prod_unfold Let_def)

lemma events_same [simp]:
  "sv_world (fst (maybe_publish_events v o' s)) = sv_world s"
  "sv_readings (fst (maybe_publish_events v o' s)) = sv_readings s"
  "sv_commands (fst (maybe_publish_events v o' s)) = sv_commands s"
  "sv_frames (fst (maybe_publish_events v o' s)) = sv_frames s"
  "sv_mode (fst (maybe_publish_events v o' s)) = sv_mode s"
  "sv_index (fst (maybe_publish_events v o' s)) = sv_index s"
  "sv_running (fst (maybe_publish_events v o' s)) = sv_running s"
  "sv_paused (fst (maybe_publish_events v o' s)) = sv_paused s"
  "sv_speed (fst (maybe_publish_events v o' s)) = sv_speed s"
  by (simp_all add: maybe_publish_events_def case_prod_unfold Let_def)

lemma sample_same [simp]:
  "sv_world (fst (generate_sensor_data v o' s)) = sv_world s"
  "sv_trip_last (fst (generate_sensor_data v o' s)) = sv_trip_last s"
  "sv_readings (fst (generate_sensor_data v o' s)) = sv_readings s"
  "sv_frames (fst (generate_sensor_data v o' s)) = sv_frames s"
  "sv_mode (fst (generate_sensor_data v o' s)) = sv_mode s"
  "sv_index (fst (generate_sensor_data v o' s)) = (sv_index s + 1) mod length (v_cycle v)"
  "sv_running (fst (generate_sensor_data v o' s)) = sv_running s"
  "sv_paused (fst (generate_sensor_data v o' s)) = sv_paused s"
  "sv_speed (fst (generate_sensor_data v o' s)) = sv_speed s"
  by (simp_all add: generate_sensor_data_def case_prod_unfold Let_def split: sensor_kind.split frame_read.split)

lemma append_sensor_simps [simp]:
  "sv_world (append_sensor_data x s) = sv_world s" "sv_trip_last (append_sensor_data x s) = sv_trip_last s"
  "sv_readings (append_sensor_data x s) = [x]" "sv_frames (append_sensor_data x s) = sv_frames s"
  "sv_mode (append_sensor_data x s) = sv_mode s" "sv_index (append_sensor_data x s) = sv_index s"
  "sv_running (append_sensor_data x s) = sv_running s" "sv_paused (append_sensor_data x s) = sv_paused s"
  "sv_speed (append_sensor_data x s) = sv_speed s"
  by (simp_all add: append_sensor_data_def)

lemma publish_frame_cases:
  obtains "publish_frame v o' s = (s, [], True)"
    | s1 where "publish_frame v o' s = (s1, [], False)" "same_but_spoof s s1" "snd (generate_radar_frame v o' 1 s) = None"
    | s1 f where "publish_frame v o' s = (append_radar_frame v f s1, [Out_frame f], True)" "same_but_spoof s s1"
        "snd (generate_radar_frame v o' 1 s) = Some f"
proof (cases "radar_powered v s")
  case True
  obtain s1 f where g: "generate_radar_frame v o' 1 s = (s1, f)" by force
  then have "same_but_spoof s s1" using generate_frame_same [of s v o' 1] by simp
  with True g that(2,3) show ?thesis by (cases f) (simp_all add: publish_frame_def)
qed (use that(1) in \<open>simp add: publish_frame_def\<close>)

lemma publish_frame_same [simp]:
  "sv_world (fst (publish_frame v o' s)) = sv_world s"
  "sv_trip_last (fst (publish_frame v o' s)) = sv_trip_last s"
  "sv_readings (fst (publish_frame v o' s)) = sv_readings s"
  "sv_mode (fst (publish_frame v o' s)) = sv_mode s"
  "sv_index (fst (publish_frame v o' s)) = sv_index s"
  "sv_running (fst (publish_frame v o' s)) = sv_running s"
  "sv_paused (fst (publish_frame v o' s)) = sv_paused s"
  "sv_speed (fst (publish_frame v o' s)) = sv_speed s"
  by (cases rule: publish_frame_cases [of v o' s]; simp add: append_radar_frame_def same_but_spoofD)+

text \<open>The stages of a step.\<close>

definition step_world :: "service_config \<Rightarrow> real \<Rightarrow> bool \<Rightarrow> sim_service \<Rightarrow> sim_service" where
  "step_world v dt advance_world s =
     (let s1 = feed_world v s in (if advance_world then advance v dt s1 else s1)\<lparr>sv_commands := []\<rparr>)"

definition step_reports :: "service_config \<Rightarrow> outside \<Rightarrow> sim_service \<Rightarrow> sim_service \<times> sim_output list" where
  "step_reports v o' s =
     (let (s4, tel) = maybe_publish_telemetry v o' s; (s5, evs) = maybe_publish_events v o' s4 in (s5, tel @ evs))"

lemma service_step_stages:
  "service_step v o' dt a r s =
     (let rep = step_reports v o' (step_world v dt a s); gen = generate_sensor_data v o' (fst rep)
      in case snd gen of
           None \<Rightarrow> (fst gen, snd rep, False)
         | Some x \<Rightarrow>
             (let s7 = append_sensor_data x (fst gen); fr = (if r then publish_frame v o' s7 else (s7, [], True))
              in (fst fr, snd rep @ fst (snd fr), snd (snd fr))))"
  by (simp add: service_step_def step_world_def step_reports_def case_prod_unfold Let_def split: option.split)

lemma step_world_simps [simp]:
  "sv_trip_last (step_world v dt a s) = sv_trip_last s" "sv_readings (step_world v dt a s) = sv_readings s"
  "sv_commands (step_world v dt a s) = []" "sv_frames (step_world v dt a s) = sv_frames s"
  "sv_mode (step_world v dt a s) = sv_mode s" "sv_index (step_world v dt a s) = sv_index s"
  "sv_running (step_world v dt a s) = sv_running s" "sv_paused (step_world v dt a s) = sv_paused s"
  "sv_speed (step_world v dt a s) = sv_speed s"
  "sv_world (step_world v dt a s) =
     (if a then sim_step (wc_params (v_world v)) dt (sv_world (feed_world v s)) else sv_world (feed_world v s))"
  by (simp_all add: step_world_def Let_def advance_def)

lemma step_reports_simps [simp]:
  "sv_world (fst (step_reports v o' s)) = sv_world s" "sv_readings (fst (step_reports v o' s)) = sv_readings s"
  "sv_commands (fst (step_reports v o' s)) = sv_commands s" "sv_frames (fst (step_reports v o' s)) = sv_frames s"
  "sv_mode (fst (step_reports v o' s)) = sv_mode s" "sv_index (fst (step_reports v o' s)) = sv_index s"
  "sv_running (fst (step_reports v o' s)) = sv_running s" "sv_paused (fst (step_reports v o' s)) = sv_paused s"
  "sv_speed (fst (step_reports v o' s)) = sv_speed s"
  by (simp_all add: step_reports_def case_prod_unfold Let_def)

text \<open>A step that ends with its sample, and one that raised before it.\<close>

lemma service_step_cases:
  obtains x where
      "snd (generate_sensor_data v o' (fst (step_reports v o' (step_world v dt a s)))) = Some x"
      "service_step v o' dt a r s =
         (let rep = step_reports v o' (step_world v dt a s);
              s7 = append_sensor_data x (fst (generate_sensor_data v o' (fst rep)));
              fr = (if r then publish_frame v o' s7 else (s7, [], True))
          in (fst fr, snd rep @ fst (snd fr), snd (snd fr)))"
    | "snd (generate_sensor_data v o' (fst (step_reports v o' (step_world v dt a s)))) = None"
      "service_step v o' dt a r s =
         (let rep = step_reports v o' (step_world v dt a s) in (fst (generate_sensor_data v o' (fst rep)), snd rep, False))"
  using that by (cases "snd (generate_sensor_data v o' (fst (step_reports v o' (step_world v dt a s))))")
    (simp_all add: service_step_stages Let_def)

lemma service_step_fields [simp]:
  "sv_world (fst (service_step v o' dt a r s)) = sv_world (step_world v dt a s)"
  "sv_trip_last (fst (service_step v o' dt a r s)) = sv_trip_last (fst (step_reports v o' (step_world v dt a s)))"
  "sv_mode (fst (service_step v o' dt a r s)) = sv_mode s"
  "sv_index (fst (service_step v o' dt a r s)) = (sv_index s + 1) mod length (v_cycle v)"
  "sv_running (fst (service_step v o' dt a r s)) = sv_running s"
  "sv_paused (fst (service_step v o' dt a r s)) = sv_paused s"
  "sv_speed (fst (service_step v o' dt a r s)) = sv_speed s"
  by (cases rule: service_step_cases [of v o' dt a s r]; simp add: Let_def del: step_world_simps(10))+

section \<open>The clock of the simulation\<close>

text \<open>What an observer of the commands and ticks expects of the clock.\<close>

record clock =
  ck_running :: bool
  ck_paused :: bool
  ck_speed :: pyfloat
  ck_time :: pyfloat

definition clock_of :: "sim_service \<Rightarrow> clock" where
  "clock_of s = \<lparr>ck_running = sv_running s, ck_paused = sv_paused s, ck_speed = sv_speed s,
                 ck_time = Fin (m_time (sv_world s))\<rparr>"

definition clock_control :: "real \<Rightarrow> control_command \<Rightarrow> clock \<Rightarrow> clock" where
  "clock_control t0 c k =
     (let name = py_strip (ct_name c)
      in if name = ''sim.start'' then k\<lparr>ck_running := True, ck_paused := False, ck_speed := start_speed (ct_params c)\<rparr>
         else if name = ''sim.pause'' then (if ck_running k then k\<lparr>ck_paused := True\<rparr> else k)
         else if name = ''sim.stop'' then k\<lparr>ck_running := False, ck_paused := False\<rparr>
         else if name = ''sim.reset'' then \<lparr>ck_running = False, ck_paused = False, ck_speed = Fin 1, ck_time = Fin t0\<rparr>
         else k)"

fun clock_op :: "real \<Rightarrow> real \<Rightarrow> clock \<Rightarrow> service_op \<Rightarrow> clock" where
  "clock_op t0 interval k (Op_tick _) =
     (if ck_running k \<and> \<not> ck_paused k then k\<lparr>ck_time := fl_add (ck_time k) (fl_scale interval (ck_speed k))\<rparr> else k)"
| "clock_op t0 interval k (Op_control _ c) = clock_control t0 c k"
| "clock_op t0 interval k _ = k"

lemma motion_step_time: "m_time (motion_step p dt m) = m_time m + dt"
  by (simp add: motion_step_def Let_def)

lemma power_step_time: "m_time (power_step p dt m) = m_time m"
  by (simp add: power_step_def Let_def case_prod_unfold)

lemma thermal_step_time: "m_time (thermal_step p dt m) = m_time m"
  by (simp add: thermal_step_def Let_def case_prod_unfold)

lemma sim_step_time [simp]: "m_time (sim_step p dt m) = m_time m + dt"
  by (simp add: sim_step_def Let_def thermal_step_time power_step_time motion_step_time)

lemma sim_update_time: "sim_update p c m = Some m' \<Longrightarrow> m_time m' = m_time m"
  by (auto simp: sim_update_def Let_def split: option.splits pyfloat.splits if_splits)

lemma service_tick_cases:
  assumes "service_tick v o' s = Some (s1, outs, ok)"
  obtains dt where "sv_running s" "\<not> sv_paused s" "tick_duration v s = Fin dt"
      "(s1, outs, ok) = service_step v o' dt True True s"
    | "\<not> (sv_running s \<and> \<not> sv_paused s)" "(s1, outs, ok) = service_step v o' 0 False False s"
  using assms that by (auto simp: service_tick_def split: if_splits pyfloat.splits)

lemma service_tick_clock:
  assumes "service_tick v o' s = Some (s1, outs, ok)"
  shows "clock_of s1 = clock_op t0 (of_int (v_tick_interval v)) (clock_of s) (Op_tick o')"
proof (cases rule: service_tick_cases [OF assms])
  case (1 dt)
  then have s1: "s1 = fst (service_step v o' dt True True s)" by (metis fst_conv)
  show ?thesis using 1(1-3) by (simp add: s1 clock_of_def tick_duration_def)
next
  case 2
  then have s1: "s1 = fst (service_step v o' 0 False False s)" by (metis fst_conv)
  show ?thesis using 2(1) by (auto simp: s1 clock_of_def)
qed

lemma with_dock_clock [simp]: "clock_of (with_dock f s) = clock_of s"
  by (simp add: with_dock_def clock_of_def)

lemma with_nbl_clock [simp]: "clock_of (with_nbl f s) = clock_of s"
  by (simp add: with_nbl_def clock_of_def)

lemma dock_connect_clock [simp]: "clock_of (snd (dock_connect v b s)) = clock_of s"
  by (simp add: dock_connect_def)

lemma dock_engage_clock [simp]: "clock_of (snd (dock_engage v port s)) = clock_of s"
  by (simp add: dock_engage_def)

lemma rcs_command_clock [simp]: "clock_of (snd (rcs_command v axis pct dur s)) = clock_of s"
  by (simp add: rcs_command_def clock_of_def case_prod_unfold Let_def)

lemma ensure_spoof_clock [simp]: "clock_of (ensure_spoof_id o' s) = clock_of s"
  by (simp add: clock_of_def)

lemma set_xpdr_clock [simp]: "clock_of (snd (set_xpdr_mode v fr o' d s)) = clock_of s"
  by (simp add: set_xpdr_mode_def Let_def) (simp add: clock_of_def)

text \<open>The results of the commands with numbers.\<close>

lemma set_nbl_max_cases:
  "set_nbl_max d s = Gives r \<Longrightarrow> r \<in> {(False, s), (True, s)} \<or> (\<exists>w. r = (True, with_nbl (set_nbl_max_power_w w) s))"
  by (auto simp: set_nbl_max_def split: pyval.splits option.splits pyfloat.splits)

lemma rcs_command_float_cases:
  "rcs_command_float v axis pct dur s = Gives r \<Longrightarrow> r = (False, s) \<or> (\<exists>p t. r = rcs_command v axis p t s)"
  by (auto simp: rcs_command_float_def split: option.splits if_splits)

lemma fire_control_cases:
  "fire_rcs v fr d s = Gives r \<Longrightarrow> r = (False, s) \<or> (\<exists>axis p t. r = rcs_command v axis p t s)"
  by (auto simp: fire_rcs_def Let_def split: if_splits option.splits dest!: rcs_command_float_cases)

text \<open>The commands that move the clock, and all the others.\<close>

lemma apply_control_cases:
  assumes "apply_control_command v fr o' c s = Gives r"
  obtains "py_strip (ct_name c) = ''sim.start''"
      "r = (True, s\<lparr>sv_running := True, sv_paused := False, sv_speed := start_speed (ct_params c)\<rparr>)"
    | "py_strip (ct_name c) = ''sim.pause''" "\<not> sv_running s" "r = (False, s)"
    | "py_strip (ct_name c) = ''sim.pause''" "sv_running s" "r = (True, s\<lparr>sv_paused := True\<rparr>)"
    | "py_strip (ct_name c) = ''sim.stop''" "r = (True, s\<lparr>sv_running := False, sv_paused := False\<rparr>)"
    | "py_strip (ct_name c) = ''sim.reset''"
      "r = (True, reset_simulation v (o_time o') (s\<lparr>sv_running := False, sv_paused := False, sv_speed := Fin 1\<rparr>))"
    | "py_strip (ct_name c) \<notin> {''sim.start'', ''sim.pause'', ''sim.stop'', ''sim.reset''}"
      "r \<in> {(True, with_dock (set_dock_connected True) s), (True, with_dock (set_dock_connected False) s),
             (True, with_nbl (set_nbl_active True) s), (True, with_nbl (set_nbl_active False) s),
             dock_connect v False s, set_xpdr_mode v fr o' (ct_params c) s, (True, s), (False, s)} \<or>
       (\<exists>port. r = dock_engage v port s) \<or> (\<exists>w. r = (True, with_nbl (set_nbl_max_power_w w) s)) \<or>
       (\<exists>axis p t. r = rcs_command v axis p t s)"
proof -
  let ?n = "py_strip (ct_name c)"
  consider "?n = ''sim.start''" | "?n = ''sim.pause''" | "?n = ''sim.stop''" | "?n = ''sim.reset''"
    | "?n \<notin> {''sim.start'', ''sim.pause'', ''sim.stop'', ''sim.reset''}" by blast
  then show thesis
  proof cases
    case 1
    then show ?thesis using assms that(1) by (simp add: apply_control_command_def Let_def)
  next
    case 2
    then show ?thesis using assms that(2,3) by (cases "sv_running s") (simp_all add: apply_control_command_def Let_def)
  next
    case 3
    then show ?thesis using assms that(4) by (simp add: apply_control_command_def Let_def)
  next
    case 4
    then show ?thesis using assms that(5) by (simp add: apply_control_command_def Let_def)
  next
    case 5
    have "r \<in> {(True, with_dock (set_dock_connected True) s), (True, with_dock (set_dock_connected False) s),
             (True, with_nbl (set_nbl_active True) s), (True, with_nbl (set_nbl_active False) s),
             dock_connect v False s, set_xpdr_mode v fr o' (ct_params c) s, (False, s)} \<or>
       set_nbl_max (ct_params c) s = Gives r \<or> (\<exists>port. r = dock_engage v port s) \<or> r = rcs_command v None 0 0 s \<or>
       fire_rcs v fr (ct_params c) s = Gives r"
      using assms 5 unfolding apply_control_command_def Let_def by (simp split: if_split_asm) blast?
    then have "r \<in> {(True, with_dock (set_dock_connected True) s), (True, with_dock (set_dock_connected False) s),
             (True, with_nbl (set_nbl_active True) s), (True, with_nbl (set_nbl_active False) s),
             dock_connect v False s, set_xpdr_mode v fr o' (ct_params c) s, (True, s), (False, s)} \<or>
       (\<exists>port. r = dock_engage v port s) \<or> (\<exists>w. r = (True, with_nbl (set_nbl_max_power_w w) s)) \<or>
       (\<exists>axis p t. r = rcs_command v axis p t s)"
      using set_nbl_max_cases [of "ct_params c" s r] fire_control_cases [of v fr "ct_params c" s r] by blast
    with 5 show ?thesis by (rule that(6))
  qed
qed

lemma apply_control_other:
  "apply_control_command v fr o' c s \<in> {Throws, Beyond} \<Longrightarrow> py_strip (ct_name c) \<in> {''sim.rcs.fire'', ''power.nbl.set_max''}"
  by (auto simp: apply_control_command_def Let_def split: if_split_asm)

lemma other_command_clock:
  "py_strip (ct_name c) \<notin> {''sim.start'', ''sim.pause'', ''sim.stop'', ''sim.reset''} \<Longrightarrow> clock_control t0 c k = k"
  by (simp add: clock_control_def Let_def)

lemma apply_control_clock:
  assumes "apply_control_command v fr o' c s = Gives r"
  shows "clock_of (snd r) = clock_control (m_time (wc_start (v_world v))) c (clock_of s)"
proof (cases rule: apply_control_cases [OF assms])
  case 6
  have "clock_of (snd r) = clock_of s" using 6(2) by auto
  then show ?thesis using other_command_clock [OF 6(1)] by simp
qed (simp_all add: clock_control_def clock_of_def reset_simulation_def Let_def)

text \<open>What the handler leaves: the state as it was, or that of a command.\<close>

lemma control_handler_cases:
  assumes "control_handler v fr o' c s = (Some s1, ok, err)"
  obtains "s1 = s" "\<not> ok" "py_strip (ct_name c) \<in> {''sim.rcs.fire'', ''power.nbl.set_max''}"
    | "apply_control_command v fr o' c s = Gives (ok, s1)"
  using assms that apply_control_other [of v fr o' c s]
  by (cases "apply_control_command v fr o' c s") (auto simp: control_handler_def)

lemma control_handler_clock:
  assumes "control_handler v fr o' c s = (Some s1, ok, err)"
  shows "clock_of s1 = clock_control (m_time (wc_start (v_world v))) c (clock_of s)"
  using apply_control_clock other_command_clock
  by (cases rule: control_handler_cases [OF assms]) (fastforce, fastforce)

lemma run_op_clock:
  assumes "run_op v fr (Some s) e = (Some s1, r)"
  shows "clock_of s1 = clock_op (m_time (wc_start (v_world v))) (of_int (v_tick_interval v)) (clock_of s) e"
proof (cases e)
  case (Op_tick o')
  then show ?thesis using assms service_tick_clock by (fastforce split: option.splits)
next
  case (Op_control o' c)
  then show ?thesis using assms control_handler_clock by (fastforce simp: Let_def split: prod.splits)
next
  case (Op_actuator c)
  then show ?thesis using assms by (auto simp: receive_actuator_command_def clock_of_def dest: sim_update_time)
next
  case Op_sample
  then show ?thesis using assms by (auto simp: get_sensor_data_def clock_of_def split: list.splits)
next
  case (Op_frame o')
  then have "s1 = fst (radar_frame_for_external_read v o' s)" using assms by (auto split: prod.splits frame_read.splits)
  then show ?thesis using Op_frame by (simp add: clock_of_def)
qed

section \<open>When a run leaves the model\<close>

definition non_finite :: "pyval \<Rightarrow> bool" where
  "non_finite v \<longleftrightarrow> (case float_of v of Some x \<Rightarrow> \<not> isfinite x | None \<Rightarrow> False)"

text \<open>A command with an infinite number or a NaN.\<close>

definition non_finite_op :: "service_op \<Rightarrow> bool" where
  "non_finite_op e \<longleftrightarrow>
     (case e of
        Op_control _ c \<Rightarrow> list_ex (\<lambda>kv. non_finite (snd kv)) (ct_params c)
      | Op_actuator c \<Rightarrow> (case sc_value c of CV_float x \<Rightarrow> \<not> isfinite x | _ \<Rightarrow> False)
      | _ \<Rightarrow> False)"

lemma dict_non_finite: "dict_get d k = Some x \<Longrightarrow> non_finite x \<Longrightarrow> list_ex (\<lambda>kv. non_finite (snd kv)) d"
  by (force simp: list_ex_iff dest: map_of_SomeD)

lemma vget_non_finite: "non_finite (vget d k) \<Longrightarrow> list_ex (\<lambda>kv. non_finite (snd kv)) d"
  using dict_non_finite by (cases "dict_get d k") (auto simp: vget_def non_finite_def)

lemma set_nbl_max_beyond: "set_nbl_max d s = Beyond \<Longrightarrow> list_ex (\<lambda>kv. non_finite (snd kv)) d"
  by (rule vget_non_finite [of d "''max_power_w''"])
    (auto simp: set_nbl_max_def non_finite_def split: pyval.splits option.splits pyfloat.splits)

lemma fire_rcs_beyond:
  assumes "fire_rcs v fr d s = Beyond"
  shows "list_ex (\<lambda>kv. non_finite (snd kv)) d"
proof -
  obtain p t where t: "float_of (first_given d ''duration_s'' ''duration'') = Some t" "fire_duration p t = None"
    using assms by (auto simp: fire_rcs_def rcs_command_float_def Let_def split: if_splits option.splits)
  then have "non_finite (first_given d ''duration_s'' ''duration'')"
    by (auto simp: fire_duration_def non_finite_def split: if_splits pyfloat.splits)
  then show ?thesis using vget_non_finite by (auto simp: first_given_def split: if_splits)
qed

lemma control_beyond: "apply_control_command v fr o' c s = Beyond \<Longrightarrow> list_ex (\<lambda>kv. non_finite (snd kv)) (ct_params c)"
  using set_nbl_max_beyond [of "ct_params c" s] fire_rcs_beyond [of v fr "ct_params c" s]
  by (auto simp: apply_control_command_def Let_def split: if_split_asm)

lemma sim_update_beyond: "sim_update p c m = None \<Longrightarrow> non_finite_op (Op_actuator c)"
  by (cases "sc_value c")
    (auto simp: sim_update_def non_finite_op_def Let_def split: if_splits option.splits pyfloat.splits)

lemma run_op_beyond:
  assumes "run_op v fr (Some s) e = (None, r)" "isfinite (sv_speed s)"
  shows "non_finite_op e"
proof (cases e)
  case (Op_tick o')
  obtain x where x: "sv_speed s = Fin x" using assms(2) by (cases "sv_speed s") simp_all
  then have "tick_duration v s = Fin (of_int (v_tick_interval v) * x)" by (simp add: tick_duration_def)
  then show ?thesis using assms(1) Op_tick by (auto simp: service_tick_def split: if_splits option.splits prod.splits)
next
  case (Op_control o' c)
  then have "apply_control_command v fr o' c s = Beyond"
    using assms(1) by (cases "apply_control_command v fr o' c s") (auto simp: control_handler_def Let_def split: prod.splits)
  then show ?thesis using Op_control control_beyond by (simp add: non_finite_op_def)
next
  case (Op_actuator c)
  then have "sim_update (wc_params (v_world v)) c (sv_world s) = None" using assms(1) by (simp add: receive_actuator_command_def)
  from sim_update_beyond [OF this] Op_actuator show ?thesis by simp
qed (use assms(1) in \<open>auto simp: Let_def split: prod.splits frame_read.splits\<close>)

lemma start_speed_finite:
  assumes "\<not> list_ex (\<lambda>kv. non_finite (snd kv)) d"
  shows "isfinite (start_speed d)"
proof (cases "dict_get d ''speed''")
  case (Some v)
  then have "\<not> non_finite v" using assms dict_non_finite by metis
  then show ?thesis using Some by (cases "float_of v") (simp_all add: start_speed_def non_finite_def Let_def)
qed (simp add: start_speed_def)

lemma run_op_speed:
  assumes "run_op v fr (Some s) e = (Some s1, r)" "isfinite (sv_speed s)" "\<not> non_finite_op e"
  shows "isfinite (sv_speed s1)"
proof -
  have "ck_speed (clock_of s1) = sv_speed s1" by (simp add: clock_of_def)
  then have "sv_speed s1 = ck_speed (clock_op (m_time (wc_start (v_world v))) (of_int (v_tick_interval v)) (clock_of s) e)"
    using run_op_clock [OF assms(1)] by simp
  then show ?thesis using assms(2,3) start_speed_finite
    by (cases e) (auto simp: clock_of_def clock_control_def non_finite_op_def Let_def)
qed

lemma run_leaves:
  "fst (run_service v fr (Some s) ops) = None \<Longrightarrow> isfinite (sv_speed s) \<Longrightarrow> list_ex non_finite_op ops"
proof (induction ops arbitrary: s)
  case (Cons e es)
  obtain s1 r where e: "run_op v fr (Some s) e = (s1, r)" by force
  show ?case
  proof (cases s1)
    case None
    then show ?thesis using run_op_beyond e Cons.prems(2) by simp
  next
    case (Some s2)
    show ?thesis
    proof (cases "non_finite_op e")
      case False
      then have "isfinite (sv_speed s2)" using run_op_speed [of v fr s e s2 r] e Some Cons.prems(2) by simp
      moreover have "fst (run_service v fr (Some s2) es) = None" using Cons.prems(1) e Some by (simp add: case_prod_unfold Let_def)
      ultimately show ?thesis using Cons.IH by simp
    qed simp
  qed
qed simp

section \<open>Refused commands\<close>

lemma with_dock_id: "f (m_dock (sv_world s)) = m_dock (sv_world s) \<Longrightarrow> with_dock f s = s"
  by (simp add: with_dock_def)

lemma dock_connect_refused: "\<not> fst (dock_connect v b s) \<Longrightarrow> snd (dock_connect v b s) = s"
  by (cases "sp_docking_enabled (wc_params (v_world v))")
    (simp_all add: dock_connect_def set_docking_connected_def Let_def with_dock_id)

lemma port_accepted_enabled: "snd (set_docking_port p port d) \<Longrightarrow> sp_docking_enabled p"
  by (simp add: set_docking_port_def split: if_split_asm)

lemma dock_engage_refused: "\<not> fst (dock_engage v port s) \<Longrightarrow> snd (dock_engage v port s) = s"
proof (cases "snd (set_docking_port (wc_params (v_world v)) port (m_dock (sv_world s)))")
  case True
  then have "sp_docking_enabled (wc_params (v_world v))" by (rule port_accepted_enabled)
  then have "fst (dock_connect v True s')" for s' by (simp add: dock_connect_def set_docking_connected_def Let_def)
  then show "\<not> fst (dock_engage v port s) \<Longrightarrow> snd (dock_engage v port s) = s"
    using True by (simp add: dock_engage_def)
qed (simp add: dock_engage_def)

lemma set_rcs_refused: "\<not> snd (set_rcs_command p axis pct dur r) \<Longrightarrow> fst (set_rcs_command p axis pct dur r) = r"
  unfolding set_rcs_command_def Let_def by (cases axis) (simp_all split: if_split_asm)

lemma rcs_command_refused: "\<not> fst (rcs_command v axis pct dur s) \<Longrightarrow> snd (rcs_command v axis pct dur s) = s"
proof -
  obtain r ok where r: "set_rcs_command (sp_rcs (wc_params (v_world v))) axis pct dur (m_rcs (sv_world s)) = (r, ok)"
    by (metis prod.exhaust)
  assume "\<not> fst (rcs_command v axis pct dur s)"
  then have "\<not> ok" by (simp add: rcs_command_def r)
  then have "r = m_rcs (sv_world s)" using set_rcs_refused r by (metis fst_conv snd_conv)
  then show ?thesis by (simp add: rcs_command_def r)
qed

lemma set_xpdr_refused:
  assumes "\<not> fst (set_xpdr_mode v fr o' d s)"
  shows "snd (set_xpdr_mode v fr o' d s) = s"
proof -
  let ?bad = "py_upper (text_of fr d ''mode'') \<notin> {''ON'', ''OFF'', ''SILENT'', ''SPOOF''}"
  have "\<not> v_comms_enabled v \<or> ?bad"
  proof (rule ccontr)
    assume "\<not> (\<not> v_comms_enabled v \<or> ?bad)"
    then have "v_comms_enabled v" "\<not> ?bad" by blast+
    then have "fst (set_xpdr_mode v fr o' d s)" by (simp only: set_xpdr_mode_def Let_def if_False not_True_eq_False fst_conv)
    with assms show False by blast
  qed
  then show ?thesis
  proof
    assume "?bad"
    then have "set_xpdr_mode v fr o' d s = (False, s)" by (simp only: set_xpdr_mode_def Let_def not_False_eq_True if_True if_cancel)
    then show ?thesis by simp
  qed (simp add: set_xpdr_mode_def)
qed

lemma apply_control_refused:
  assumes "apply_control_command v fr o' c s = Gives r" "\<not> fst r"
  shows "snd r = s"
proof (cases rule: apply_control_cases [OF assms(1)])
  case 6
  from 6(2) show ?thesis
    by (elim disjE insertE emptyE exE)
      (use assms(2) dock_connect_refused rcs_command_refused set_xpdr_refused dock_engage_refused in simp_all)
qed (use assms(2) in simp_all)

lemma control_refused:
  "fst (snd (control_handler v fr o' c s)) \<or> fst (control_handler v fr o' c s) = Some s"
proof (cases "apply_control_command v fr o' c s")
  case (Gives r)
  then show ?thesis using apply_control_refused [OF Gives]
    by (cases "fst r") (simp_all add: control_handler_def case_prod_unfold)
qed (simp_all add: control_handler_def)

section \<open>Trip events\<close>

fun alternates :: "bool \<Rightarrow> bool list \<Rightarrow> bool" where
  "alternates b [] = True"
| "alternates b (x # xs) = (x = b \<and> alternates (\<not> b) xs)"

fun after_flips :: "bool \<Rightarrow> bool list \<Rightarrow> bool" where
  "after_flips b [] = b"
| "after_flips b (x # xs) = after_flips x xs"

lemma after_flips_append [simp]: "after_flips b (xs @ ys) = after_flips (after_flips b xs) ys"
  by (induction xs arbitrary: b) simp_all

lemma alternates_append:
  "alternates (\<not> b) xs \<Longrightarrow> alternates (\<not> after_flips b xs) ys \<Longrightarrow> alternates (\<not> b) (xs @ ys)"
proof (induction xs arbitrary: b)
  case (Cons x xs)
  then have "x = (\<not> b)" "alternates (\<not> x) xs" by simp_all
  with Cons.IH [of x] Cons.prems(2) show ?case by simp
qed simp

definition trip_flags :: "sim_output list \<Rightarrow> bool list" where
  "trip_flags outs = concat (map (\<lambda>x. case x of Out_trip b _ _ _ \<Rightarrow> [b] | _ \<Rightarrow> []) outs)"

definition result_trips :: "service_result \<Rightarrow> bool list" where
  "result_trips r = (case r of R_published outs \<Rightarrow> trip_flags outs | R_died outs \<Rightarrow> trip_flags outs | _ \<Rightarrow> [])"

lemma trip_flags_simps [simp]:
  "trip_flags [] = []" "trip_flags (Out_trip b a c d # outs) = b # trip_flags outs"
  "trip_flags (Out_telemetry cb ss m # outs) = trip_flags outs" "trip_flags (Out_thermal t # outs) = trip_flags outs"
  "trip_flags (Out_bus x y # outs) = trip_flags outs" "trip_flags (Out_pdu z x y # outs) = trip_flags outs"
  "trip_flags (Out_frame f # outs) = trip_flags outs" "trip_flags (xs @ ys) = trip_flags xs @ trip_flags ys"
  by (simp_all add: trip_flags_def)

definition core_tripped :: "(string, bool) dict \<Rightarrow> bool" where
  "core_tripped d = dict_getd d ''core'' False"

lemma publish_trip_edges_flags:
  "alternates (\<not> core_tripped seen) (trip_flags (snd (publish_trip_edges p m seen ts))) \<and>
   core_tripped (fst (publish_trip_edges p m seen ts)) =
     after_flips (core_tripped seen) (trip_flags (snd (publish_trip_edges p m seen ts)))"
proof (induction ts arbitrary: seen)
  case (Cons t rest)
  obtain nid cur where t: "t = (nid, cur)" by (metis prod.exhaust)
  show ?case
  proof (cases "nid \<noteq> ''core'' \<or> cur = dict_getd seen nid False")
    case True
    then show ?thesis using Cons.IH [of seen] by (cases "nid = ''core''") (simp_all add: t)
  next
    case False
    then have step: "core_tripped (dict_set seen nid cur) = cur" "cur = (\<not> core_tripped seen)"
      by (simp_all add: core_tripped_def dict_getd_def)
    from False step Cons.IH [of "dict_set seen nid cur"] show ?thesis
      by (simp add: t Let_def case_prod_unfold)
  qed
qed simp

lemma events_flags:
  "alternates (\<not> core_tripped (sv_trip_last s)) (trip_flags (snd (maybe_publish_events v o' s))) \<and>
   core_tripped (sv_trip_last (fst (maybe_publish_events v o' s))) =
     after_flips (core_tripped (sv_trip_last s)) (trip_flags (snd (maybe_publish_events v o' s)))"
  using publish_trip_edges_flags [of "sv_trip_last s" "wc_params (v_world v)" "sv_world s" "m_trips (sv_world s)"]
  by (simp add: maybe_publish_events_def case_prod_unfold Let_def)

lemma telemetry_flags [simp]: "trip_flags (snd (maybe_publish_telemetry v o' s)) = []"
  by (simp add: maybe_publish_telemetry_def case_prod_unfold Let_def)

lemma publish_frame_flags [simp]: "trip_flags (fst (snd (publish_frame v o' s))) = []"
  by (cases rule: publish_frame_cases [of v o' s]) simp_all

definition flips :: "sim_service \<Rightarrow> sim_service \<Rightarrow> bool list \<Rightarrow> bool" where
  "flips s s1 bs \<longleftrightarrow>
     alternates (\<not> core_tripped (sv_trip_last s)) bs \<and>
     core_tripped (sv_trip_last s1) = after_flips (core_tripped (sv_trip_last s)) bs"

lemma flips_same: "sv_trip_last s1 = sv_trip_last s \<Longrightarrow> flips s s1 []"
  by (simp add: flips_def)

lemma service_step_flags:
  "flips s (fst (service_step v o' dt a r s)) (trip_flags (fst (snd (service_step v o' dt a r s))))"
proof -
  let ?rep = "step_reports v o' (step_world v dt a s)"
  have rep: "flips s (fst ?rep) (trip_flags (snd ?rep))"
    using events_flags [of "fst (maybe_publish_telemetry v o' (step_world v dt a s))" v o']
    by (simp add: flips_def step_reports_def case_prod_unfold Let_def)
  have "trip_flags (fst (snd (service_step v o' dt a r s))) = trip_flags (snd ?rep)"
    by (cases rule: service_step_cases [of v o' dt a s r]) (simp_all add: Let_def)
  then show ?thesis using rep by (simp add: flips_def)
qed

lemma service_tick_flags:
  assumes "service_tick v o' s = Some (s1, outs, ok)"
  shows "flips s s1 (trip_flags outs)"
  using service_step_flags by (cases rule: service_tick_cases [OF assms]) (metis fst_conv snd_conv)+

text \<open>Every operation but a reset.\<close>

definition not_reset :: "service_op \<Rightarrow> bool" where
  "not_reset e = (case e of Op_control _ c \<Rightarrow> py_strip (ct_name c) \<noteq> ''sim.reset'' | _ \<Rightarrow> True)"

lemma with_simps [simp]:
  "sv_trip_last (with_dock f s) = sv_trip_last s" "sv_trip_last (with_nbl g s) = sv_trip_last s"
  by (simp_all add: with_dock_def with_nbl_def)

lemma helpers_trips [simp]:
  "sv_trip_last (snd (dock_connect v b s)) = sv_trip_last s" "sv_trip_last (snd (dock_engage v port s)) = sv_trip_last s"
  "sv_trip_last (snd (rcs_command v axis pct dur s)) = sv_trip_last s"
  "sv_trip_last (snd (set_xpdr_mode v fr o' d s)) = sv_trip_last s"
  by (simp_all add: dock_connect_def dock_engage_def rcs_command_def set_xpdr_mode_def case_prod_unfold Let_def)

lemma control_handler_trips:
  assumes "control_handler v fr o' c s = (Some s1, ok, err)" "py_strip (ct_name c) \<noteq> ''sim.reset''"
  shows "sv_trip_last s1 = sv_trip_last s"
proof (cases rule: control_handler_cases [OF assms(1)])
  case 2
  have "sv_trip_last (snd (ok, s1)) = sv_trip_last s"
  proof (cases rule: apply_control_cases [OF 2])
    case 6
    from 6(2) show ?thesis by (elim disjE insertE emptyE exE) (simp_all add: prod_eq_iff)
  qed (use assms(2) in simp_all)
  then show ?thesis by simp
qed simp

lemma run_op_flags:
  assumes "run_op v fr (Some s) e = (Some s1, r)" "not_reset e"
  shows "flips s s1 (result_trips r)"
proof (cases e)
  case (Op_tick o')
  then show ?thesis using assms(1) service_tick_flags [of v o' s] by (auto simp: result_trips_def split: option.splits)
next
  case (Op_control o' c)
  then have "sv_trip_last s1 = sv_trip_last s" "result_trips r = []"
    using assms control_handler_trips [of v fr o' c s] by (auto simp: Let_def not_reset_def result_trips_def split: prod.splits)
  then show ?thesis by (simp add: flips_same)
next
  case (Op_actuator c)
  then have "sv_trip_last s1 = sv_trip_last s" "result_trips r = []"
    using assms(1) by (auto simp: receive_actuator_command_def result_trips_def)
  then show ?thesis by (simp add: flips_same)
next
  case Op_sample
  then have "sv_trip_last s1 = sv_trip_last s" "result_trips r = []"
    using assms(1) by (auto simp: get_sensor_data_def result_trips_def split: list.splits)
  then show ?thesis by (simp add: flips_same)
next
  case (Op_frame o')
  then have "s1 = fst (radar_frame_for_external_read v o' s)" "result_trips r = []"
    using assms(1) by (auto simp: result_trips_def split: prod.splits frame_read.splits)
  then show ?thesis by (simp add: flips_same)
qed

lemma beyond_trips: "run_op v fr (Some s) e = (None, r) \<Longrightarrow> result_trips r = []"
  by (cases e) (auto simp: result_trips_def Let_def split: option.splits prod.splits frame_read.splits)

lemma beyond_empty: "result_trips R_beyond = []" "concat (map (\<lambda>e. []) es) = []"
  by (simp add: result_trips_def) (induction es, simp_all)

lemma run_flags:
  "list_all not_reset es \<Longrightarrow>
   alternates (\<not> core_tripped (sv_trip_last s)) (concat (map result_trips (snd (run_service v fr (Some s) es))))"
proof (induction es arbitrary: s)
  case (Cons e es)
  obtain s1 r where e: "run_op v fr (Some s) e = (s1, r)" by force
  show ?case
  proof (cases s1)
    case None
    then show ?thesis using beyond_trips [of v fr s e r] e by (simp add: comp_def beyond_empty)
  next
    case (Some s2)
    have f: "flips s s2 (result_trips r)" using run_op_flags [of v fr s e s2 r] e Some Cons.prems by simp
    then have "alternates (\<not> after_flips (core_tripped (sv_trip_last s)) (result_trips r))
        (concat (map result_trips (snd (run_service v fr (Some s2) es))))"
      using Cons.IH [of s2] Cons.prems by (simp add: flips_def)
    with f show ?thesis using alternates_append e Some by (simp add: flips_def case_prod_unfold Let_def)
  qed
qed simp

section \<open>What is seen of the contacts\<close>

text \<open>What a command other than the four of the clock leaves alone.\<close>

definition radar_view :: "sim_service \<Rightarrow> bool \<times> bool \<times> sim_frame list \<times> sample list \<times> bool" where
  "radar_view s = (sv_running s, sv_paused s, sv_frames s, sv_readings s, pw_radar_allowed (m_power (sv_world s)))"

lemma with_view [simp]: "radar_view (with_dock f s) = radar_view s" "radar_view (with_nbl g s) = radar_view s"
  by (simp_all add: radar_view_def with_dock_def with_nbl_def)

lemma spoof_view [simp]: "radar_view (ensure_spoof_id o' s) = radar_view s"
  by (simp add: radar_view_def)

lemma helpers_view [simp]:
  "radar_view (snd (dock_connect v b s)) = radar_view s" "radar_view (snd (dock_engage v port s)) = radar_view s"
  "radar_view (snd (rcs_command v axis pct dur s)) = radar_view s"
  by (simp_all add: dock_connect_def dock_engage_def)
    (simp add: rcs_command_def radar_view_def case_prod_unfold Let_def)

lemma set_xpdr_view [simp]: "radar_view (snd (set_xpdr_mode v fr o' d s)) = radar_view s"
  by (simp add: set_xpdr_mode_def Let_def) (simp add: radar_view_def)

lemma other_command_view:
  assumes "control_handler v fr o' c s = (Some s1, ok, err)"
    and "py_strip (ct_name c) \<notin> {''sim.start'', ''sim.pause'', ''sim.stop'', ''sim.reset''}"
  shows "radar_view s1 = radar_view s"
proof (cases rule: control_handler_cases [OF assms(1)])
  case 2
  have "radar_view (snd (ok, s1)) = radar_view s"
  proof (cases rule: apply_control_cases [OF 2])
    case 6
    from 6(2) show ?thesis by (elim disjE insertE emptyE exE) (simp_all add: prod_eq_iff)
  qed (use assms(2) in simp_all)
  then show ?thesis by simp
qed simp

lemma clock_command_state:
  "py_strip (ct_name c) = ''sim.pause'' \<Longrightarrow>
     fst (control_handler v fr o' c s) = Some (if sv_running s then s\<lparr>sv_paused := True\<rparr> else s)"
  "py_strip (ct_name c) = ''sim.stop'' \<Longrightarrow>
     fst (control_handler v fr o' c s) = Some (s\<lparr>sv_running := False, sv_paused := False\<rparr>)"
  "py_strip (ct_name c) = ''sim.reset'' \<Longrightarrow> fst (control_handler v fr o' c s) =
     Some (reset_simulation v (o_time o') (s\<lparr>sv_running := False, sv_paused := False, sv_speed := Fin 1\<rparr>))"
  by (simp_all add: control_handler_def apply_control_command_def)

lemma sim_update_power_same: "sim_update p c m = Some m' \<Longrightarrow> m_power m' = m_power m"
  by (rule sim_update_power)

text \<open>The frames of samples and results; those of a result that are not a sample's.\<close>

definition sample_frames :: "sample \<Rightarrow> sim_frame list" where
  "sample_frames x = (case x of Smp_radar f \<Rightarrow> [f] | _ \<Rightarrow> [])"

definition waiting :: "sim_service \<Rightarrow> sim_frame list" where
  "waiting s = concat (map sample_frames (sv_readings s))"

definition output_frames :: "sim_output list \<Rightarrow> sim_frame list" where
  "output_frames outs = concat (map (\<lambda>x. case x of Out_frame f \<Rightarrow> [f] | _ \<Rightarrow> []) outs)"

definition sampled_frames :: "service_result \<Rightarrow> sim_frame list" where
  "sampled_frames r = (case r of R_sample (Some x) \<Rightarrow> sample_frames x | _ \<Rightarrow> [])"

definition fresh_frames :: "service_result \<Rightarrow> sim_frame list" where
  "fresh_frames r =
     (case r of R_published outs \<Rightarrow> output_frames outs | R_died outs \<Rightarrow> output_frames outs
      | R_frame (Some f) \<Rightarrow> [f] | _ \<Rightarrow> [])"

lemma output_frames_simps [simp]:
  "output_frames [] = []" "output_frames (xs @ ys) = output_frames xs @ output_frames ys"
  "output_frames (Out_frame f # outs) = f # output_frames outs"
  "output_frames (Out_telemetry cb ss m # outs) = output_frames outs" "output_frames (Out_thermal t # outs) = output_frames outs"
  "output_frames (Out_trip b x y z # outs) = output_frames outs"
  "output_frames (Out_bus x y # outs) = output_frames outs" "output_frames (Out_pdu b x y # outs) = output_frames outs"
  by (simp_all add: output_frames_def)

lemma publish_trip_edges_no_frame [simp]: "output_frames (snd (publish_trip_edges p m seen ts)) = []"
proof (induction ts arbitrary: seen)
  case (Cons t rest)
  then show ?case by (cases t) (simp add: Let_def case_prod_unfold)
qed simp

lemma reports_no_frame [simp]: "output_frames (snd (step_reports v o' s)) = []"
  by (simp add: step_reports_def maybe_publish_telemetry_def maybe_publish_events_def case_prod_unfold Let_def)

text \<open>A step that publishes no frame: whether it raises, its sample and its outputs.\<close>

lemma quiet_step:
  assumes "snd (generate_sensor_data v o' (fst (step_reports v o' (step_world v dt a s)))) = Some x"
  shows "sv_readings (fst (service_step v o' dt a False s)) = [x] \<and>
    sv_frames (fst (service_step v o' dt a False s)) = sv_frames s \<and>
    output_frames (fst (snd (service_step v o' dt a False s))) = [] \<and> snd (snd (service_step v o' dt a False s))"
  using assms by (simp add: service_step_stages Let_def)

section \<open>A stopped simulation\<close>

definition not_start :: "service_op \<Rightarrow> bool" where
  "not_start e = (case e of Op_control _ c \<Rightarrow> py_strip (ct_name c) \<noteq> ''sim.start'' | _ \<Rightarrow> True)"

lemma stopped_sample:
  "\<not> sv_running s \<Longrightarrow> \<exists>x. snd (generate_sensor_data v o' s) = Some x \<and> sample_frames x = []"
  by (simp add: generate_sensor_data_def radar_rotation_allowed_def sample_frames_def imu_sample_def Let_def
      split: sensor_kind.split)

lemma stopped_tick:
  assumes "\<not> sv_running s" "service_tick v o' s = Some (s1, outs, ok)"
  shows "\<not> sv_running s1 \<and> waiting s1 = [] \<and> output_frames outs = []"
proof -
  let ?s = "fst (step_reports v o' (step_world v 0 False s))"
  have st: "(s1, outs, ok) = service_step v o' 0 False False s"
    by (cases rule: service_tick_cases [OF assms(2)]) (use assms(1) in simp_all)
  obtain x where x: "snd (generate_sensor_data v o' ?s) = Some x" "sample_frames x = []"
    using stopped_sample [of ?s v o'] assms(1) by auto
  have "s1 = fst (service_step v o' 0 False False s)" "outs = fst (snd (service_step v o' 0 False False s))"
    using st by (metis fst_conv, metis fst_conv snd_conv)
  then show ?thesis using quiet_step [OF x(1)] x(2) assms(1) by (simp add: waiting_def)
qed

lemma stopped_control:
  assumes "\<not> sv_running s" "control_handler v fr o' c s = (Some s1, ok, err)" "py_strip (ct_name c) \<noteq> ''sim.start''"
  shows "\<not> sv_running s1 \<and> waiting s1 \<in> {waiting s, []}"
proof -
  have s1: "fst (control_handler v fr o' c s) = Some s1" using assms(2) by simp
  consider "py_strip (ct_name c) = ''sim.pause''" | "py_strip (ct_name c) = ''sim.stop''"
    | "py_strip (ct_name c) = ''sim.reset''"
    | "py_strip (ct_name c) \<notin> {''sim.start'', ''sim.pause'', ''sim.stop'', ''sim.reset''}" using assms(3) by blast
  then show ?thesis
  proof cases
    case 4
    from other_command_view [OF assms(2) 4] assms(1) show ?thesis by (simp add: radar_view_def waiting_def)
  qed (use assms(1) s1 in \<open>auto simp: clock_command_state waiting_def reset_simulation_def Let_def\<close>)
qed

text \<open>A step while stopped serves the waiting frames in order and makes no new one.\<close>

lemma stopped_step:
  assumes "\<not> sv_running s" "not_start e" "run_op v fr (Some s) e = (Some s1, r)"
  shows "\<not> sv_running s1 \<and> fresh_frames r = [] \<and>
    (waiting s = sampled_frames r @ waiting s1 \<or> sampled_frames r = [] \<and> waiting s1 = [])"
proof (cases e)
  case (Op_tick o')
  then show ?thesis using assms stopped_tick [of s v o']
    by (auto simp: fresh_frames_def sampled_frames_def split: option.splits)
next
  case (Op_control o' c)
  then show ?thesis using assms stopped_control [of s v fr o' c]
    by (auto simp: not_start_def fresh_frames_def sampled_frames_def Let_def split: prod.splits)
next
  case (Op_actuator c)
  then show ?thesis using assms by (auto simp: receive_actuator_command_def waiting_def fresh_frames_def sampled_frames_def)
next
  case Op_sample
  then show ?thesis using assms
    by (auto simp: get_sensor_data_def waiting_def fresh_frames_def sampled_frames_def split: list.splits)
next
  case (Op_frame o')
  have "radar_frame_for_external_read v o' s = (s, No_frame)" using assms(1) by (simp add: radar_frame_for_external_read_def)
  then show ?thesis using Op_frame assms by (auto simp: fresh_frames_def sampled_frames_def)
qed

lemma beyond_frames: "run_op v fr (Some s) e = (None, r) \<Longrightarrow> fresh_frames r = [] \<and> sampled_frames r = []"
  by (cases e) (auto simp: fresh_frames_def sampled_frames_def Let_def split: option.splits prod.splits frame_read.splits)

definition stopped_state :: "sim_service option \<Rightarrow> bool" where
  "stopped_state s \<longleftrightarrow> (case s of None \<Rightarrow> True | Some s' \<Rightarrow> \<not> sv_running s')"

lemma stopped_io:
  assumes "stopped_state s" "not_start e"
  shows "stopped_state (fst (run_op v fr s e)) \<and> fresh_frames (snd (run_op v fr s e)) = []"
proof (cases s)
  case None
  then show ?thesis by (simp add: stopped_state_def fresh_frames_def)
next
  case (Some s')
  obtain s1 r where e: "run_op v fr (Some s') e = (s1, r)" by force
  then show ?thesis using assms Some stopped_step [of s' e v fr] beyond_frames [of v fr s' e]
    by (cases s1) (auto simp: stopped_state_def)
qed

interpretation stopped: io_machine "run_op v fr" stopped_state not_start "\<lambda>r. fresh_frames r = []" for v fr
  by unfold_locales (use stopped_io in blast)

lemma stopped_samples:
  "\<not> sv_running s \<Longrightarrow> list_all not_start es \<Longrightarrow>
     prefix (concat (map sampled_frames (snd (run_service v fr (Some s) es)))) (waiting s)"
proof (induction es arbitrary: s)
  case (Cons e es)
  obtain s1 r where e: "run_op v fr (Some s) e = (s1, r)" by force
  show ?case
  proof (cases s1)
    case None
    then show ?thesis using beyond_frames [of v fr s e r] e by (simp add: comp_def beyond_empty sampled_frames_def)
  next
    case (Some s2)
    have st: "\<not> sv_running s2" "waiting s = sampled_frames r @ waiting s2 \<or> sampled_frames r = [] \<and> waiting s2 = []"
      using stopped_step [of s e v fr s2 r] Cons.prems e Some by simp_all
    define later where "later = concat (map sampled_frames (snd (run_service v fr (Some s2) es)))"
    have "prefix later (waiting s2)" using Cons.IH [OF st(1)] Cons.prems by (simp add: later_def)
    then have "prefix (sampled_frames r @ later) (waiting s)" using st(2) by auto
    then show ?thesis by (simp add: e Some later_def case_prod_unfold Let_def)
  qed
qed simp

section \<open>A paused simulation\<close>

text \<open>What is served of a picture: the last published frame, or one that was waiting as a sample.\<close>

definition frozen_sample :: "sim_frame list \<Rightarrow> sim_frame list \<Rightarrow> sample \<Rightarrow> bool" where
  "frozen_sample w fs x = (case x of Smp_radar f \<Rightarrow> f \<in> set w \<or> fs \<noteq> [] \<and> f = last fs | _ \<Rightarrow> True)"

definition frozen_result :: "bool \<Rightarrow> sim_frame list \<Rightarrow> sim_frame list \<Rightarrow> service_result \<Rightarrow> bool" where
  "frozen_result powered w fs r = (case r of
     R_published outs \<Rightarrow> output_frames outs = []
   | R_died outs \<Rightarrow> False
   | R_sample (Some x) \<Rightarrow> frozen_sample w fs x
   | R_frame g \<Rightarrow> g = (if powered \<and> fs \<noteq> [] then Some (last fs) else None)
   | R_internal \<Rightarrow> False
   | _ \<Rightarrow> True)"

definition frozen :: "bool \<Rightarrow> sim_frame list \<Rightarrow> sim_frame list \<Rightarrow> sim_service \<Rightarrow> bool" where
  "frozen allowed w fs s \<longleftrightarrow>
     sv_running s \<and> sv_paused s \<and> sv_frames s = fs \<and> pw_radar_allowed (m_power (sv_world s)) = allowed \<and>
     list_all (frozen_sample w fs) (sv_readings s)"

definition keeps_pause :: "service_op \<Rightarrow> bool" where
  "keeps_pause e =
     (case e of Op_control _ c \<Rightarrow> py_strip (ct_name c) \<notin> {''sim.start'', ''sim.stop'', ''sim.reset''} | _ \<Rightarrow> True)"

lemma paused_read:
  "frozen a w fs s \<Longrightarrow> radar_frame_for_external_read v o' s =
     (s, if v_radar_enabled v \<and> a \<and> fs \<noteq> [] then Frame_read (last fs) else No_frame)"
  by (auto simp: radar_frame_for_external_read_def radar_powered_def frozen_def)

lemma frozen_index [simp]: "frozen a w fs (s\<lparr>sv_index := i\<rparr>) = frozen a w fs s"
  by (simp add: frozen_def)

lemma paused_sample:
  assumes "frozen a w fs s"
  shows "\<exists>x. snd (generate_sensor_data v o' s) = Some x \<and> frozen_sample w fs x"
proof -
  have "frozen a w fs (s\<lparr>sv_index := i\<rparr>)" for i using assms by simp
  note read = paused_read [OF this, of v o']
  show ?thesis
    by (simp add: generate_sensor_data_def Let_def read frozen_sample_def imu_sample_def split: sensor_kind.split)
qed

lemma frozen_tick:
  assumes "frozen a w fs s" "service_tick v o' s = Some (s1, outs, ok)"
  shows "frozen a w fs s1 \<and> output_frames outs = [] \<and> ok"
proof -
  let ?s = "fst (step_reports v o' (step_world v 0 False s))"
  have paused: "sv_running s" "sv_paused s" using assms(1) by (simp_all add: frozen_def)
  have st: "(s1, outs, ok) = service_step v o' 0 False False s"
    by (cases rule: service_tick_cases [OF assms(2)]) (use paused in simp_all)
  have fr: "frozen a w fs ?s" using assms(1) by (simp add: frozen_def)
  obtain x where x: "snd (generate_sensor_data v o' ?s) = Some x" "frozen_sample w fs x"
    using paused_sample [OF fr] by blast
  have "s1 = fst (service_step v o' 0 False False s)" "outs = fst (snd (service_step v o' 0 False False s))"
    "ok = snd (snd (service_step v o' 0 False False s))"
    using st by (metis fst_conv, metis fst_conv snd_conv, metis snd_conv)
  then show ?thesis using quiet_step [OF x(1)] x(2) assms(1) by (simp add: frozen_def)
qed

lemma frozen_control:
  assumes "frozen a w fs s" "control_handler v fr o' c s = (Some s1, ok, err)"
    "py_strip (ct_name c) \<notin> {''sim.start'', ''sim.stop'', ''sim.reset''}"
  shows "frozen a w fs s1"
proof (cases "py_strip (ct_name c) = ''sim.pause''")
  case True
  have "fst (control_handler v fr o' c s) = Some s1" using assms(2) by simp
  then show ?thesis using True assms(1) by (auto simp: clock_command_state frozen_def)
next
  case False
  then have "radar_view s1 = radar_view s"
    using assms(3) by (intro other_command_view [OF assms(2)]) simp
  then show ?thesis using assms(1) by (simp add: radar_view_def frozen_def)
qed

lemma frozen_step:
  assumes "frozen a w fs s" "keeps_pause e" "run_op v fr (Some s) e = (Some s1, r)"
  shows "frozen a w fs s1 \<and> frozen_result (v_radar_enabled v \<and> a) w fs r"
proof (cases e)
  case (Op_tick o')
  then show ?thesis using assms frozen_tick [OF assms(1), of v o'] by (auto simp: frozen_result_def split: option.splits)
next
  case (Op_control o' c)
  then show ?thesis using assms frozen_control [OF assms(1), of v fr o' c]
    by (auto simp: keeps_pause_def frozen_result_def Let_def split: prod.splits)
next
  case (Op_actuator c)
  then show ?thesis using assms
    by (auto simp: receive_actuator_command_def frozen_def frozen_result_def dest: sim_update_power_same)
next
  case Op_sample
  then show ?thesis using assms
    by (auto simp: get_sensor_data_def frozen_def frozen_result_def split: list.splits)
next
  case (Op_frame o')
  then show ?thesis using assms paused_read [OF assms(1), of v o'] by (auto simp: frozen_result_def split: if_splits)
qed

definition paused_state :: "bool \<Rightarrow> sim_frame list \<Rightarrow> sim_frame list \<Rightarrow> sim_service option \<Rightarrow> bool" where
  "paused_state a w fs s \<longleftrightarrow> (case s of None \<Rightarrow> True | Some s' \<Rightarrow> frozen a w fs s')"

lemma beyond_frozen: "run_op v fr (Some s) e = (None, r) \<Longrightarrow> frozen_result p w fs r"
  by (cases e) (auto simp: frozen_result_def Let_def split: option.splits prod.splits frame_read.splits)

lemma paused_io:
  assumes "paused_state a w fs s" "keeps_pause e"
  shows "paused_state a w fs (fst (run_op v fr s e)) \<and> frozen_result (v_radar_enabled v \<and> a) w fs (snd (run_op v fr s e))"
proof (cases s)
  case None
  then show ?thesis by (simp add: paused_state_def frozen_result_def)
next
  case (Some s')
  obtain s1 r where e: "run_op v fr (Some s') e = (s1, r)" by force
  then show ?thesis using assms Some frozen_step [of a w fs s' e v fr] beyond_frozen [of v fr s' e]
    by (cases s1) (auto simp: paused_state_def)
qed

interpretation paused: io_machine "run_op v fr" "paused_state a w fs" keeps_pause
  "frozen_result (v_radar_enabled v \<and> a) w fs" for v fr a w fs
  by unfold_locales (use paused_io in blast)

section \<open>The invariant of the service\<close>

definition frame_ok :: "sim_frame \<Rightarrow> bool" where
  "frame_ok f \<longleftrightarrow> list_all detection_valid (f_detections f)"

definition service_ok :: "service_config \<Rightarrow> sim_service \<Rightarrow> bool" where
  "service_ok v s \<longleftrightarrow>
     sim_inv (wc_params (v_world v)) (sv_world s) \<and> length (sv_readings s) \<le> 1 \<and>
     length (sv_frames s) \<le> v_frames_max v \<and> list_all frame_ok (sv_frames s) \<and>
     sv_index s < length (v_cycle v) \<and> (v_comms_enabled v \<or> sv_mode s = XP_OFF)"

text \<open>What the construction guarantees of the configuration.\<close>

definition config_ok :: "service_config \<Rightarrow> bool" where
  "config_ok v \<longleftrightarrow>
     sim_inv (wc_params (v_world v)) (wc_start (v_world v)) \<and> 0 < v_sr_threshold v \<and> v_cycle v \<noteq> []"

lemma frame_detections_ok:
  assumes "0 < thr" "(rng, bearing, elev) = xyz_to_polar x y z"
  shows "detection_valid (sim_detection (max (thr * 1.5) (rng + thr)) bearing elev on mode tid) \<longleftrightarrow> bearing \<noteq> 360"
    "detection_valid (sim_detection (max (thr * 0.5) (min rng (thr * 0.8))) bearing elev on mode tid) \<longleftrightarrow> bearing \<noteq> 360"
proof -
  have r: "0 \<le> rng" "bearing = xyz_to_bearing_deg x y" "elev = xyz_to_elev_deg x y z"
    using assms(2) by (simp_all add: xyz_to_polar_def xyz_to_range_m_def)
  have "0 \<le> max (1 / 10 ^ 9) (sqrt (x ^ 2 + y ^ 2))" by (simp add: le_max_iff_disj)
  then have "- 90 \<le> elev \<and> elev \<le> 90"
    unfolding r(3) xyz_to_elev_deg_def using atan2_half degrees_half by blast
  moreover have "0 \<le> bearing" "bearing < 360 \<longleftrightarrow> bearing \<noteq> 360" using xyz_to_bearing_range [of x y] r(2) by auto
  ultimately show "detection_valid (sim_detection (max (thr * 1.5) (rng + thr)) bearing elev on mode tid) \<longleftrightarrow> bearing \<noteq> 360"
    "detection_valid (sim_detection (max (thr * 0.5) (min rng (thr * 0.8))) bearing elev on mode tid) \<longleftrightarrow> bearing \<noteq> 360"
    using assms(1) r(1) by (simp_all add: detection_valid_def sim_detection_def le_max_iff_disj)
qed

lemma generated_frame_ok: "generate_radar_frame v o' k s = (s1, Some f) \<Longrightarrow> frame_ok f"
  by (auto simp: generate_radar_frame_def frame_ok_def Let_def case_prod_unfold split: if_splits pyfloat.splits)

text \<open>
  The validators refuse a frame only for its bearing: in a small sector left of straight ahead it is 360. A frame
  also fails on a time outside the years of \<open>datetime\<close> and on a height that is a NaN.
\<close>

lemma radar_frame_raises_iff:
  assumes "0 < v_sr_threshold v" "target_xy v (sv_world s) = (x, y)"
  shows "snd (generate_radar_frame v o' k s) = None \<longleftrightarrow>
    \<not> datetime_ok (sv_epoch s + m_time (sv_world s)) \<or> \<not> isfinite (v_target_z v) \<or> xyz_to_bearing_deg x y = 360"
proof (cases "v_target_z v")
  case (Fin z)
  obtain rng bearing elev where p: "xyz_to_polar x y z = (rng, bearing, elev)" by (metis prod_cases3)
  then have b: "bearing = xyz_to_bearing_deg x y" by (simp add: xyz_to_polar_def)
  have valid: "detection_valid (sim_detection (max (v_sr_threshold v * 1.5) (rng + v_sr_threshold v)) bearing elev on mode tid) \<longleftrightarrow> bearing \<noteq> 360"
    "detection_valid (sim_detection (max (v_sr_threshold v * 0.5) (min rng (v_sr_threshold v * 0.8))) bearing elev on mode tid) \<longleftrightarrow> bearing \<noteq> 360"
    for on mode tid using frame_detections_ok [OF assms(1) p [symmetric]] by blast+
  show ?thesis
    by (simp add: generate_radar_frame_def assms(2) p Fin valid [simplified] b [symmetric] case_prod_unfold Let_def)
qed (simp_all add: generate_radar_frame_def assms(2) Let_def)

lemma list_all_drop: "list_all P xs \<Longrightarrow> list_all P (drop k xs)"
  by (auto simp: list_all_iff dest: in_set_dropD)

lemma deque_append_keeps:
  assumes "list_all P xs" "P x"
  shows "list_all P (deque_append n xs x) \<and> length (deque_append n xs x) \<le> n"
proof
  show "list_all P (deque_append n xs x)"
    unfolding deque_append_def Let_def by (rule list_all_drop) (simp add: assms)
  show "length (deque_append n xs x) \<le> n" by (simp add: deque_append_def del: drop_append)
qed

lemma world_ok_parts:
  assumes "sim_inv p m"
  shows "sim_inv p (set_runtime_load_inputs r sq aq t m)" "sim_inv p (sim_step p dt m)"
    "sim_inv p (m\<lparr>m_dock := set_dock_connected b (m_dock m)\<rparr>)"
    "sim_inv p (m\<lparr>m_dock := fst (set_docking_connected p b (m_dock m))\<rparr>)"
    "sim_inv p (m\<lparr>m_dock := fst (set_docking_port p port (m_dock m))\<rparr>)"
    "sim_inv p (m\<lparr>m_nbl := set_nbl_active b (m_nbl m)\<rparr>)" "sim_inv p (m\<lparr>m_nbl := set_nbl_max_power_w w (m_nbl m)\<rparr>)"
    "sim_inv p (m\<lparr>m_rcs := fst (set_rcs_command (sp_rcs p) axis pct dur (m_rcs m))\<rparr>)"
proof -
  have *: "sim_inv p m'" if "sim_apply p m e = Some m'" for e m' using sim_apply_inv [OF assms that] by blast
  from * [of "Ev_loads r sq aq t"] * [of "Ev_step dt"] * [of "Ev_dock b"] * [of "Ev_docking b"]
    * [of "Ev_port port"] * [of "Ev_nbl b"] * [of "Ev_nbl_max w"] * [of "Ev_rcs axis pct dur"]
  show "sim_inv p (set_runtime_load_inputs r sq aq t m)" "sim_inv p (sim_step p dt m)"
    "sim_inv p (m\<lparr>m_dock := set_dock_connected b (m_dock m)\<rparr>)"
    "sim_inv p (m\<lparr>m_dock := fst (set_docking_connected p b (m_dock m))\<rparr>)"
    "sim_inv p (m\<lparr>m_dock := fst (set_docking_port p port (m_dock m))\<rparr>)"
    "sim_inv p (m\<lparr>m_nbl := set_nbl_active b (m_nbl m)\<rparr>)" "sim_inv p (m\<lparr>m_nbl := set_nbl_max_power_w w (m_nbl m)\<rparr>)"
    "sim_inv p (m\<lparr>m_rcs := fst (set_rcs_command (sp_rcs p) axis pct dur (m_rcs m))\<rparr>)" by simp_all
qed

lemma service_ok_world:
  "service_ok v s \<Longrightarrow> sim_inv (wc_params (v_world v)) m \<Longrightarrow> service_ok v (s\<lparr>sv_world := m\<rparr>)"
  by (simp add: service_ok_def)

lemma service_ok_worldD: "service_ok v s \<Longrightarrow> sim_inv (wc_params (v_world v)) (sv_world s)"
  by (simp add: service_ok_def)

lemma publish_frame_ok:
  assumes "service_ok v s"
  shows "service_ok v (fst (publish_frame v o' s))"
proof (cases rule: publish_frame_cases [of v o' s])
  case (2 s1)
  then show ?thesis using assms by (simp add: service_ok_def same_but_spoofD)
next
  case (3 s1 f)
  obtain s2 where "generate_radar_frame v o' 1 s = (s2, Some f)" using 3(3) by (metis prod.collapse)
  from generated_frame_ok [OF this] have "frame_ok f" .
  then show ?thesis
    using assms 3(1,2) deque_append_keeps [of frame_ok "sv_frames s" f "v_frames_max v"]
    by (simp add: append_radar_frame_def service_ok_def same_but_spoofD)
qed (use assms in simp)

lemma step_frames:
  assumes "service_ok v s" "service_ok v (append_sensor_data x (fst (generate_sensor_data v o' (fst (step_reports v o' (step_world v dt a s))))))"
  shows "service_ok v (fst (if r then publish_frame v o' (append_sensor_data x (fst (generate_sensor_data v o' (fst (step_reports v o' (step_world v dt a s))))))
    else (append_sensor_data x (fst (generate_sensor_data v o' (fst (step_reports v o' (step_world v dt a s))))), [], True)))"
  using publish_frame_ok [OF assms(2)] assms(2) by simp

lemma service_step_ok:
  assumes "config_ok v" "service_ok v s"
  shows "service_ok v (fst (service_step v o' dt a r s))"
proof -
  let ?s6 = "fst (generate_sensor_data v o' (fst (step_reports v o' (step_world v dt a s))))"
  have w: "sim_inv (wc_params (v_world v)) (sv_world (step_world v dt a s))"
    using assms(2) world_ok_parts(1,2) by (simp add: service_ok_def feed_world_def)
  have i: "Suc (sv_index s) mod length (v_cycle v) < length (v_cycle v)" using assms(1) by (simp add: config_ok_def)
  have s6: "service_ok v ?s6" "\<And>x. service_ok v (append_sensor_data x ?s6)"
    using w i assms(2) by (simp_all add: service_ok_def del: step_world_simps(10))
  show ?thesis
  proof (cases rule: service_step_cases [of v o' dt a s r])
    case (1 x)
    then show ?thesis using step_frames [OF assms(2) s6(2)] by (simp add: Let_def)
  next
    case 2
    then show ?thesis using s6(1) by (simp add: Let_def)
  qed
qed

lemma service_tick_ok:
  assumes "config_ok v" "service_ok v s" "service_tick v o' s = Some (s1, outs, ok)"
  shows "service_ok v s1"
  using service_step_ok [OF assms(1,2)] by (cases rule: service_tick_cases [OF assms(3)]) (metis fst_conv)+

lemma with_ok:
  assumes "service_ok v s"
  shows "service_ok v (with_dock (set_dock_connected b) s)" "service_ok v (with_nbl (set_nbl_active b) s)"
    "service_ok v (with_nbl (set_nbl_max_power_w w) s)"
    "service_ok v (with_dock (\<lambda>d. fst (set_docking_connected (wc_params (v_world v)) b d)) s)"
    "service_ok v (with_dock (\<lambda>d. fst (set_docking_port (wc_params (v_world v)) port d)) s)"
  unfolding with_dock_def with_nbl_def
  by (rule service_ok_world [OF assms], rule world_ok_parts [OF service_ok_worldD [OF assms]])+

lemma helpers_ok:
  assumes "service_ok v s"
  shows "service_ok v (snd (dock_connect v b s))" "service_ok v (snd (dock_engage v port s))"
    "service_ok v (snd (rcs_command v axis pct dur s))" "service_ok v (snd (set_xpdr_mode v fr o' d s))"
proof -
  show "service_ok v (snd (dock_connect v b s))" using with_ok [OF assms] by (simp add: dock_connect_def)
  show "service_ok v (snd (dock_engage v port s))"
    using assms with_ok(4) [OF with_ok(5) [OF assms]] by (simp add: dock_engage_def dock_connect_def)
  show "service_ok v (snd (rcs_command v axis pct dur s))"
    using service_ok_world [OF assms world_ok_parts(8) [OF service_ok_worldD [OF assms]]]
    by (simp add: rcs_command_def case_prod_unfold Let_def)
  show "service_ok v (snd (set_xpdr_mode v fr o' d s))"
    using assms by (simp add: set_xpdr_mode_def Let_def) (simp add: service_ok_def)
qed

lemma reset_ok: "config_ok v \<Longrightarrow> service_ok v s \<Longrightarrow> service_ok v (reset_simulation v now (s\<lparr>sv_running := a, sv_paused := b, sv_speed := x\<rparr>))"
  by (simp add: service_ok_def config_ok_def reset_simulation_def Let_def)

lemma control_handler_ok:
  assumes "config_ok v" "service_ok v s" "control_handler v fr o' c s = (Some s1, ok, err)"
  shows "service_ok v s1"
proof (cases rule: control_handler_cases [OF assms(3)])
  case 2
  have "service_ok v (snd (ok, s1))"
  proof (cases rule: apply_control_cases [OF 2])
    case 5
    then show ?thesis using reset_ok [OF assms(1,2)] by simp
  next
    case 6
    from 6(2) show ?thesis
    proof (elim disjE insertE emptyE exE)
      fix w
      assume "(ok, s1) = (True, with_nbl (set_nbl_max_power_w w) s)"
      then show ?thesis using with_ok(3) [OF assms(2)] by simp
    qed (use assms(2) with_ok [OF assms(2)] in simp, use assms(2) with_ok [OF assms(2)] in simp,
        use assms(2) with_ok [OF assms(2)] in simp, use assms(2) with_ok [OF assms(2)] in simp,
        (use assms(2) helpers_ok [OF assms(2)] in \<open>metis snd_conv\<close>)+)
  qed (use assms(2) in \<open>simp_all add: service_ok_def\<close>)
  then show ?thesis by simp
qed (use assms(2) in simp)

lemma run_op_ok:
  assumes "config_ok v" "service_ok v s" "run_op v fr (Some s) e = (Some s1, r)"
  shows "service_ok v s1"
proof (cases e)
  case (Op_tick o')
  then show ?thesis using assms service_tick_ok [OF assms(1,2), of o'] by (auto split: option.splits)
next
  case (Op_control o' c)
  then show ?thesis using assms control_handler_ok [OF assms(1,2), of fr o' c] by (auto simp: Let_def split: prod.splits)
next
  case (Op_actuator c)
  then show ?thesis using assms sim_update_inv [of "wc_params (v_world v)" "sv_world s" c]
    by (auto simp: receive_actuator_command_def service_ok_def)
next
  case Op_sample
  then show ?thesis using assms(2,3) by (auto simp: get_sensor_data_def service_ok_def split: list.splits)
next
  case (Op_frame o')
  then have "s1 = fst (radar_frame_for_external_read v o' s)" using assms(3) by (auto split: prod.splits frame_read.splits)
  then show ?thesis using assms(2) by (simp add: service_ok_def)
qed

lemma run_ok:
  "config_ok v \<Longrightarrow> service_ok v s \<Longrightarrow> fst (run_service v fr (Some s) ops) = Some s' \<Longrightarrow> service_ok v s'"
proof (induction ops arbitrary: s)
  case (Cons e es)
  obtain s1 r where e: "run_op v fr (Some s) e = (s1, r)" by force
  with Cons.prems(3) obtain s2 where s2: "s1 = Some s2" by (cases s1) (auto simp: Let_def case_prod_unfold)
  show ?case
    by (rule Cons.IH [OF Cons.prems(1) run_op_ok [OF Cons.prems(1,2), of fr e s2 r]])
      (use Cons.prems(3) e s2 in \<open>simp_all add: case_prod_unfold Let_def\<close>)
qed simp

lemma service_config_fields:
  assumes "service_config_of e fr load file sid hex cfg = Gives v"
  shows "apply_bot_config fr load cfg = Some (v_world v)"
    "v_cycle v = sensor_cycle (sf_sensor_type file) (env_flag e ''RADAR_ENABLED'' ''0'')"
    "read_sr_threshold_m e (sf_sr_threshold file) = Fin (v_sr_threshold v)" "v_comms_enabled v = comms_enabled cfg"
    "service_file_valid file"
  using assms
  by (auto simp: service_config_of_def Let_def split: if_split_asm option.splits pyfloat.splits)

lemma service_config_ok: "service_config_of e fr load file sid hex cfg = Gives v \<Longrightarrow> config_ok v"
proof -
  assume "service_config_of e fr load file sid hex cfg = Gives v"
  note v = service_config_fields [OF this]
  have "fl_less (Fin 0) (read_sr_threshold_m e d)" if "fl_less (Fin 0) d" for d
    using that by (simp add: read_sr_threshold_m_def Let_def split: option.split)
  then have "fl_less (Fin 0) (read_sr_threshold_m e (sf_sr_threshold file))" using v(5) by (simp add: service_file_valid_def)
  with v show ?thesis by (simp add: config_ok_def sensor_cycle_def configured_world_inv)
qed

lemma service_config_beyond: "service_config_of e fr load file sid hex cfg = Beyond \<Longrightarrow> \<not> finite_settings e file cfg"
  by (auto simp: service_config_of_def finite_settings_def apply_bot_config_def Let_def
      split: if_split_asm option.splits pyfloat.splits)

lemma init_service_ok:
  assumes "service_config_of e fr load file sid hex cfg = Gives v"
  shows "service_ok v (init_service v (initial_mode e fr cfg) now)"
proof -
  have "v_comms_enabled v = comms_enabled cfg" by (rule service_config_fields [OF assms])
  moreover have "\<not> comms_enabled cfg \<Longrightarrow> initial_mode e fr cfg = XP_OFF"
    by (simp add: initial_mode_def Let_def parse_transponder_mode_def) code_simp
  ultimately show ?thesis using service_config_ok [OF assms]
    by (auto simp: service_ok_def init_service_def config_ok_def Let_def)
qed

section \<open>Properties\<close>


text \<open>
  C36. The clock of the simulation refines a machine over the commands and ticks alone: simulated time moves
  only with the ticks of a running, unpaused simulation, by the tick interval times the speed; a pause
  counts only while running, a start and a stop end it, a reset returns to the initial time and speed 1. The machine
  computes with floats, infinities and NaN included: a start takes any speed that is not below or equal to 0, a NaN
  too. A run has no state only if it began with a speed that is no number or had such a number in a command.
\<close>

theorem service_clock_refines:
  "case fst (run_service v fr (Some s) ops) of
     None \<Rightarrow> (if isfinite (sv_speed s) then list_ex non_finite_op ops else True)
   | Some s' \<Rightarrow>
       clock_of s' = foldl (clock_op (m_time (wc_start (v_world v))) (of_int (v_tick_interval v))) (clock_of s) ops"
proof (cases "fst (run_service v fr (Some s) ops)")
  case None
  then show ?thesis using run_leaves by auto
next
  case (Some s')
  have "clock_of s' = foldl (clock_op (m_time (wc_start (v_world v))) (of_int (v_tick_interval v))) (clock_of s) ops"
    using Some
  proof (induction ops arbitrary: s)
    case (Cons e es)
    obtain s1 r where e: "run_op v fr (Some s) e = (s1, r)" by force
    with Cons.prems obtain s2 where s2: "s1 = Some s2" by (cases s1) (auto simp: Let_def case_prod_unfold)
    then show ?case using Cons.IH [of s2] Cons.prems run_op_clock [of v fr s e s2 r] e by (simp add: case_prod_unfold Let_def)
  qed simp
  then show ?thesis by (simp add: Some)
qed

text \<open>
  C37. A control command that is answered without success, refused or ended by an exception, has changed
  nothing.
\<close>

theorem refused_command_changes_nothing:
  "fst (snd (control_handler v fr o' c s)) \<or> fst (control_handler v fr o' c s) = Some s"
  by (rule control_refused)

text \<open>
  C38. The trip events of the core alternate: in a run without a reset, a trip is published only after a clear
  and a clear only after a trip, starting opposite to what was last published.
\<close>

theorem trip_events_alternate:
  "alternates (\<not> core_tripped (sv_trip_last s))
     (concat (map result_trips (snd (run_service v fr (Some s) (filter not_reset ops)))))"
  by (rule run_flags) (simp add: list_all_iff)

definition stop_command :: "vdict \<Rightarrow> control_command" where
  "stop_command d = \<lparr>ct_name = ''sim.stop'', ct_params = d\<rparr>"

definition pause_command :: "vdict \<Rightarrow> control_command" where
  "pause_command d = \<lparr>ct_name = ''sim.pause'', ct_params = d\<rparr>"

lemma command_names: "py_strip ''sim.stop'' = ''sim.stop''" "py_strip ''sim.pause'' = ''sim.pause''"
  by code_simp+

lemma stop_op: "fst (run_op v fr (Some s) (Op_control o' (stop_command d))) = Some (s\<lparr>sv_running := False, sv_paused := False\<rparr>)"
  by (simp add: stop_command_def clock_command_state command_names case_prod_unfold Let_def)

lemma pause_op:
  "fst (run_op v fr (Some s) (Op_control o' (pause_command d))) = Some (if sv_running s then s\<lparr>sv_paused := True\<rparr> else s)"
  by (simp add: pause_command_def clock_command_state command_names case_prod_unfold Let_def)

text \<open>
  C39. From a \<open>sim.stop\<close> until the next start, whatever else happens, no frame is made: none is published and none
  is served. Samples with a contact are those that were waiting at the stop, which does not clear the queue, in their
  order and each once.
\<close>

theorem stopped_simulation_is_dark:
  "let rs = snd (run_service v fr (Some s) (Op_control o' (stop_command d) # filter not_start ops))
   in list_all (\<lambda>r. fresh_frames r = []) rs \<and> prefix (concat (map sampled_frames rs)) (waiting s)"
proof -
  let ?e = "Op_control o' (stop_command d)" and ?s = "s\<lparr>sv_running := False, sv_paused := False\<rparr>"
  have ops: "list_all not_start (filter not_start ops)" by (simp add: list_all_iff)
  have first: "fresh_frames (snd (run_op v fr (Some s) ?e)) = []" "sampled_frames (snd (run_op v fr (Some s) ?e)) = []"
    by (simp_all add: fresh_frames_def sampled_frames_def case_prod_unfold Let_def)
  have "stopped_state (Some ?s)" by (simp add: stopped_state_def)
  from stopped.io_run_ok [OF this ops] have "list_all (\<lambda>r. fresh_frames r = []) (snd (run_service v fr (Some ?s) (filter not_start ops)))"
    by blast
  moreover have "prefix (concat (map sampled_frames (snd (run_service v fr (Some ?s) (filter not_start ops))))) (waiting ?s)"
    by (rule stopped_samples [OF _ ops]) simp
  moreover have "waiting ?s = waiting s" by (simp add: waiting_def)
  moreover have "snd (run_service v fr (Some s) (?e # filter not_start ops)) =
      snd (run_op v fr (Some s) ?e) # snd (run_service v fr (Some ?s) (filter not_start ops))"
    by (simp only: io_run.simps Let_def case_prod_unfold snd_conv stop_op)
  ultimately show ?thesis using first by (simp only: Let_def list.map concat.simps list.pred_inject append_Nil simp_thms)
qed

text \<open>
  C40. From a \<open>sim.pause\<close> of a running simulation until a start, stop or reset, whatever else happens, the picture
  stands: no frame is made or published, no operation raises, each frame that is served is the last one published, and
  each sample with a contact carries that frame or the one that was waiting as a sample at the pause, which was
  generated apart from it and has an identifier of its own.
\<close>

theorem paused_picture_stands:
  "list_all (frozen_result (radar_powered v s) (waiting s) (sv_frames s))
     (snd (run_service v fr (Some (s\<lparr>sv_running := True\<rparr>)) (Op_control o' (pause_command d) # filter keeps_pause ops)))"
proof -
  let ?a = "pw_radar_allowed (m_power (sv_world s))" and ?e = "Op_control o' (pause_command d)"
  let ?s = "s\<lparr>sv_running := True, sv_paused := True\<rparr>"
  have "list_all (frozen_sample (waiting s) (sv_frames s)) (sv_readings s)"
    by (auto simp: list_all_iff frozen_sample_def waiting_def sample_frames_def split: sample.splits)
  then have start: "paused_state ?a (waiting s) (sv_frames s) (Some ?s)" by (simp add: paused_state_def frozen_def)
  have ops: "list_all keeps_pause (filter keeps_pause ops)" by (simp add: list_all_iff)
  have "list_all (frozen_result (radar_powered v s) (waiting s) (sv_frames s)) (snd (run_service v fr (Some ?s) (filter keeps_pause ops)))"
    using paused.io_run_ok [OF start ops] unfolding radar_powered_def by blast
  moreover have "frozen_result (radar_powered v s) (waiting s) (sv_frames s) (snd (run_op v fr (Some (s\<lparr>sv_running := True\<rparr>)) ?e))"
    by (simp add: frozen_result_def case_prod_unfold Let_def)
  moreover have "fst (run_op v fr (Some (s\<lparr>sv_running := True\<rparr>)) ?e) = Some ?s"
    by (simp only: pause_op) simp
  then have "snd (run_service v fr (Some (s\<lparr>sv_running := True\<rparr>)) (?e # filter keeps_pause ops)) =
      snd (run_op v fr (Some (s\<lparr>sv_running := True\<rparr>)) ?e) # snd (run_service v fr (Some ?s) (filter keeps_pause ops))"
    by (simp only: io_run.simps Let_def case_prod_unfold snd_conv)
  ultimately show ?thesis by (simp only: list.pred_inject simp_thms)
qed

section \<open>Communication\<close>

text \<open>The availability agrees with the link; \<open>unknown\<close> is never reported.\<close>

lemma comms_available_iff_online:
  "cb_available (comms_telemetry v tid s) = Some (cb_link (comms_telemetry v tid s) = ''online'')"
  by (simp add: comms_telemetry_def Let_def link_values_def comms_availability_def)

text \<open>
  A communication node without thresholds, whose warning temperature is read as 0, blocks the channel from
  0 degrees on, although it is neither tripped nor warned.
\<close>

lemma no_threshold_blocks:
  "comms_thermal_blocked
     \<lparr>wc_params = sim_params_default\<lparr>sp_thermal_enabled := True\<rparr>, wc_start = sim_init, wc_warn = [(''comms'', 0)]\<rparr>
     (sim_init\<lparr>m_temps := [(''comms'', 1)], m_trips := [(''comms'', False)]\<rparr>)"
proof -
  have "comms_node ''comms''" by code_simp
  then show ?thesis by (simp add: comms_thermal_blocked_def dict_getd_def)
qed

end
