(* ===== verification/Spec2Isabelle.thy ===== *)
theory Spec2Isabelle
  imports Guard_Cadence Track_Store Agent Sim_Run Fsm_Conv Ship_Runs Fusion_Runs Radar_Pipeline Radar_Replay Session_Runs Attach_Runs Attach_Stages Sim_Service_Runs
begin

text \<open>
  QIKI_DTMP, a digital twin of a small spacecraft: its core logic, modelled from the Python sources
  under \<open>src/\<close> and verified.

  \<^bold>\<open>The program.\<close> A simulator (\<open>q_sim_service\<close>) runs the world. Radar frames go
  through the bridge (\<open>faststream_bridge\<close>), which fuses detections into tracks and publishes
  guard alerts. The agent (\<open>q_core_agent\<close>) runs in ticks: it reads the sensors, keeps a world
  model, checks the BIOS, steps its state machine, collects proposals and sends the commands of the
  best one; a state store publishes the state. The ship side of the agent drives a configured ship:
  status, actuators, diagnostics and a state machine of its own.

  \<^bold>\<open>Theories and sources.\<close> In the order of the imports:
  \<^item> \<open>Prelude\<close>, \<open>Py_Strings\<close>, \<open>Py_Numbers\<close>: dictionaries as association lists in
    insertion order, floats with infinities and NaN, \<open>strip\<close>, \<open>upper\<close>, \<open>int()\<close>,
    \<open>float()\<close>, the fixed format and UUID texts; the locales shared by several components
    (runs that keep an invariant, runs that move a measure, hysteresis switches).
  \<^item> \<open>Fsm_Types\<close>, \<open>State_Store\<close>, \<open>Fsm_Conv\<close>: \<open>q_core_agent/state/types.py\<close>,
    \<open>store.py\<close>, \<open>conv.py\<close>: snapshots, the versioned store with its subscriber queues, the
    converters to and from protobuf messages.
  \<^item> \<open>Radar_Types\<close>, \<open>Guard_Table\<close>, \<open>Guard_Cadence\<close>, \<open>Track_Store\<close>:
    \<open>shared/models/radar.py\<close>, \<open>radar_coords.py\<close>, \<open>core/guard_table.py\<close>,
    \<open>faststream_bridge/radar_guard_cadence.py\<close> and \<open>radar_track_store.py\<close>: the data of the
    radar, the guard rules, the pacing of alerts, the alpha-beta tracker.
  \<^item> \<open>Core_Types\<close>, \<open>Agent_World\<close>, \<open>Event_Store\<close>, \<open>Agent_Fsm\<close>, \<open>Agent\<close>:
    \<open>shared/models/core.py\<close>, \<open>core/world_model.py\<close>, \<open>event_store.py\<close> with
    \<open>runtime_contracts.py\<close>, \<open>fsm_handler.py\<close>, \<open>bios_handler.py\<close>, \<open>rule_engine.py\<close>,
    \<open>proposal_evaluator.py\<close>, \<open>agent.py\<close> and \<open>tick_orchestrator.py\<close>: the agent's tick.
  \<^item> \<open>Sim_Mcqpu\<close>, \<open>Sim_Rcs\<close>, \<open>Sim_World\<close>, \<open>Sim_Power\<close>, \<open>Sim_Run\<close>:
    \<open>q_sim_service/core/mcqpu_telemetry.py\<close> and \<open>world_model.py\<close>: processor telemetry,
    thrusters, and the simulated tick (motion, power plane, thermal plane, docking, commands);
    \<open>Sim_Power\<close> holds the lemmas of the power plane, \<open>Sim_Run\<close> the runs.
  \<^item> \<open>Ship_Core\<close>, \<open>Ship_Actuators\<close>, \<open>Ship_Bios\<close>, \<open>Ship_Fsm\<close>, \<open>Ship_Mission\<close>,
    \<open>Ship_Runs\<close>: \<open>core/ship_core.py\<close>, \<open>ship_actuators.py\<close>, \<open>ship_bios_handler.py\<close>
    and \<open>ship_fsm_handler.py\<close>; the last two hold the lemmas and properties of ticks and of runs.

  \<^bold>\<open>How the code is represented.\<close> A class is a record of its fields and one definition per
  method that returns the updated record; the parts of a long method are definitions of their own,
  composed in the method's order. An exception is \<open>Inl\<close> of a value or \<open>None\<close>, and the
  handlers around it are branches. Floats of computations are real numbers; where infinities or NaN
  can come in from outside they are \<open>pyfloat\<close>. Python's integers are \<open>int\<close>; an
  \<open>int32\<close> field of a message is checked on assignment, as protobuf does. Clocks, \<open>uuid4\<close>,
  providers and engines are arguments of a tick; a tick reads its clock once. Environment variables
  are numbers and flags of a record. Sets of identifiers are lists without duplicates. Coroutines run
  under a lock in the code and are one step here.

  \<^bold>\<open>What the lemmas show.\<close> For each component an invariant of its state and that every
  operation keeps it (queues of the store, tracks and ownership in the two radar models, bounds of the
  simulated world, stored ship commands), the functional behaviour of its operations on every branch,
  and properties of runs: spacing of alerts, tracks forgotten in silence, firing that ends, shedding
  with hysteresis, safe mode entered and left, cruise flight that is out of reach. Round trips: the
  snapshot converters and the actuation kept in the context. Refinement: the bounded event store holds
  the last records of the full log; the two implementations of the agent's state machine agree.

  \<^bold>\<open>Loops and bounds.\<close> Loops over lists are structural recursions, so every modelled
  operation returns; no fuel is used. The constants of the code (64 snapshots per queue, 300 seconds
  of an idle alert key, the default limits of the tracker and of the world) are the code's.

  \<^bold>\<open>Not modelled.\<close> Pure input and output and the user interface: the operator console
  with ORION, the intents service and the language-model chat, gRPC, HTTP and NATS clients and
  servers, configuration loaders, the SQLite backend of the event store, renderers of the radar,
  metrics, logging. Rounding of floats is not modelled. The remaining services (radar fusion, the
  situation engine, incidents, record and replay, the simulator's service loop) are not modelled yet.
\<close>

end
